(* ===== verification/Loader_Prelude.thy ===== *)
theory Loader_Prelude
  imports "HOL-Library.Word"
begin

unbundle bit_operations_syntax

text \<open>
  The prelude of the development: machine integers, the byte-addressed memory every
  component of the loader works on, little-endian loads and stores, address ranges and the
  generic lemmas about them. The loader runs in a flat, identity-mapped 64-bit address space
  (UEFI hands over in long mode), so a C pointer is a \<open>64 word\<close> and memory is a total function
  from addresses to bytes; address arithmetic wraps, as it does in the machine.

  Collections: \<open>mem_simps\<close> (reading a memory after a write, unconditional), \<open>range_simps\<close>
  (membership in address ranges).
\<close>

type_synonym u8 = "8 word"
type_synonym u16 = "16 word"
type_synonym u32 = "32 word"
type_synonym u64 = "64 word"
type_synonym addr = "64 word"
type_synonym mem = "addr \<Rightarrow> u8"

named_theorems mem_simps "reading memory after a write"
named_theorems range_simps "membership in address ranges"

section \<open>Bytes and words\<close>

primrec le_word :: "u8 list \<Rightarrow> 'a::len word" where
  "le_word [] = 0"
| "le_word (b # bs) = (ucast b) OR push_bit 8 (le_word bs)"

primrec word_bytes :: "nat \<Rightarrow> 'a::len word \<Rightarrow> u8 list" where
  "word_bytes 0 w = []"
| "word_bytes (Suc n) w = ucast w # word_bytes n (drop_bit 8 w)"

lemma length_word_bytes [simp]: "length (word_bytes n w) = n"
  by (induction n arbitrary: w) simp_all

lemma ucast_split_byte:
  fixes w :: "'a::len word"
  shows "(ucast (ucast w :: u8) :: 'a word) OR push_bit 8 (take_bit n (drop_bit 8 w))
         = take_bit (n + 8) w"
  by (rule bit_word_eqI) (auto simp: bit_simps)

lemma le_word_word_bytes: "le_word (word_bytes n w) = take_bit (8 * n) w"
proof (induction n arbitrary: w)
  case 0
  show ?case by simp
next
  case (Suc n)
  then show ?case using ucast_split_byte [of w "8 * n"] by (simp add: add.commute)
qed

lemma le_word_word_bytes_id [simp]:
  fixes w :: "'a::len word"
  assumes "LENGTH('a) \<le> 8 * n"
  shows "le_word (word_bytes n w) = w"
proof -
  have "take_bit (8 * n) w = w"
    using assms by (intro bit_word_eqI) (auto simp: bit_simps)
  then show ?thesis by (simp add: le_word_word_bytes)
qed

lemma ucast_le_word_Cons [simp]:
  "(ucast (le_word (b # bs) :: 'a::len word) :: u8) = b" if "8 \<le> LENGTH('a)"
  using that by (intro bit_word_eqI) (auto simp: bit_simps)

section \<open>Signed readings\<close>

lemma sint_nonneg_uint: "0 \<le> sint w \<Longrightarrow> sint w = uint w" for w :: "'a::len word"
proof -
  assume nonneg: "0 \<le> sint w"
  have "sint w < 2 ^ (LENGTH('a) - 1)" by (rule sint_lt)
  also have "(2::int) ^ (LENGTH('a) - 1) \<le> 2 ^ LENGTH('a)" by (simp add: power_increasing)
  finally show ?thesis using nonneg by (simp add: uint_sint take_bit_int_eq_self)
qed

lemma scast_nonneg:
  fixes w :: "'a::len word"
  assumes "0 \<le> sint w"
  shows "(scast w :: 'b::len word) = ucast w"
  using sint_nonneg_uint [OF assms] by (metis of_int_sint of_int_uint)

lemma sint16_of_nat: "n < 2 ^ 15 \<Longrightarrow> sint (of_nat n :: u16) = int n"
  by (simp add: signed_of_nat signed_take_bit_int_eq_self)

lemma sint16_less: "sint (w :: u16) < 32768"
  using sint_lt [of w] by simp

section \<open>Narrowing\<close>

lemma ucast_add_down: "(ucast (x + y) :: u32) = ucast x + ucast y" for x y :: u64
  by (simp add: word_unat_eq_iff unat_word_ariths unsigned_ucast_eq unsigned_take_bit_eq take_bit_eq_mod
      mod_mod_cancel mod_add_eq)

lemma ucast_down_up [simp]: "(ucast (ucast x :: u64) :: u32) = x" for x :: u32
  by (rule bit_word_eqI) (simp add: bit_simps)

lemma ucast_low_half: "(ucast (ucast y :: u32) :: u64) = y AND 0xFFFFFFFF" for y :: u64
proof -
  have eq: "(0xFFFFFFFF :: u64) = mask 32" by (simp add: mask_eq_exp_minus_1)
  show ?thesis unfolding eq by (rule bit_word_eqI) (auto simp: bit_simps)
qed

section \<open>Address ranges\<close>

text \<open>
  \<open>in_range a n x\<close>: the address \<open>x\<close> is one of the \<open>n\<close> bytes from \<open>a\<close> on, where the range may
  wrap past the top of the address space (as the code's pointers do).
\<close>

definition in_range :: "addr \<Rightarrow> nat \<Rightarrow> addr \<Rightarrow> bool" where
  "in_range a n x \<longleftrightarrow> unat (x - a) < n"

definition disjoint_ranges :: "addr \<Rightarrow> nat \<Rightarrow> addr \<Rightarrow> nat \<Rightarrow> bool" where
  "disjoint_ranges a n b k \<longleftrightarrow> n = 0 \<or> k = 0 \<or> (n \<le> unat (b - a) \<and> k \<le> unat (a - b))"

lemma unat_less64 [simp]: "unat (x :: addr) < 2 ^ 64"
proof -
  have "unat x < 2 ^ LENGTH(64)" by (rule unsigned_less)
  then show ?thesis by simp
qed

lemma unat_bounds64 [simp]:
  fixes x :: addr
  shows "unat x < 18446744073709551616" "unat x \<le> 18446744073709551616"
        "unat x \<le> 18446744073709551615"
  using unat_less64 [of x] by simp_all

lemma unat_less32 [simp]: "unat (x :: u32) < 2 ^ 32"
proof -
  have "unat x < 2 ^ LENGTH(32)" by (rule unsigned_less)
  then show ?thesis by simp
qed

lemma unat_bounds32 [simp]:
  fixes x :: u32
  shows "unat x < 4294967296" "unat x \<le> 4294967296" "unat x < 18446744073709551616"
  using unat_less32 [of x] by simp_all

lemma unat_less16 [simp]: "unat (x :: u16) < 2 ^ 16"
proof -
  have "unat x < 2 ^ LENGTH(16)" by (rule unsigned_less)
  then show ?thesis by simp
qed

lemma unat_ucast_up:
  fixes w :: "'a::len word"
  assumes "LENGTH('a) \<le> LENGTH('b::len)"
  shows "unat (ucast w :: 'b word) = unat w"
proof -
  have "unat w < 2 ^ LENGTH('b)"
    using assms less_le_trans [OF unsigned_less [of w] power_increasing, of "LENGTH('b)"] by simp
  then show ?thesis by (simp add: unsigned_ucast_eq unsigned_take_bit_eq take_bit_nat_eq_self)
qed

lemma le_unat32_bound: "n \<le> unat (x :: u32) \<Longrightarrow> n \<le> 2 ^ 64"
  using unat_less32 [of x] by (simp del: unat_less32 unat_bounds32)

lemma unat_of_nat64: "n < 2 ^ 64 \<Longrightarrow> unat (of_nat n :: addr) = n"
  by (simp add: unat_of_nat take_bit_eq_mod)

lemma unat_of_nat32: "n < 2 ^ 32 \<Longrightarrow> unat (of_nat n :: u32) = n"
  by (simp add: unat_of_nat take_bit_eq_mod)

lemma addr_offset: "\<exists>k < 2 ^ 64. x = a + of_nat k \<and> k = unat (x - a)" for x a :: addr
proof -
  have "unat (x - a) < 2 ^ 64" by (rule unat_less64)
  then show ?thesis by (intro exI [of _ "unat (x - a)"]) simp
qed

lemma in_range_offset [range_simps]: "k < 2 ^ 64 \<Longrightarrow> in_range a n (a + of_nat k) \<longleftrightarrow> k < n"
  by (simp add: in_range_def unat_of_nat64)

lemma in_range_0 [simp]: "\<not> in_range a 0 x"
  by (simp add: in_range_def)

lemma in_rangeE:
  assumes "in_range a n x"
  obtains k where "k < n" and "k < 2 ^ 64" and "x = a + of_nat k"
  using assms addr_offset [of x a] by (auto simp: in_range_def)

lemma unat_minus_flip: "x \<noteq> 0 \<Longrightarrow> unat (- x) = 2 ^ 64 - unat x" for x :: addr
  using unat_sub_if_size [of 0 x] by (simp add: word_size unat_gt_0 [symmetric])

lemma disjoint_ranges_sym: "disjoint_ranges a n b k \<longleftrightarrow> disjoint_ranges b k a n"
  by (auto simp: disjoint_ranges_def)

lemma unat_add64: "unat (x + y) = (unat x + unat y) mod 2 ^ 64" for x y :: addr
  by (simp add: unat_word_ariths)

lemma unat_add_offset: "unat a + k < 2 ^ 64 \<Longrightarrow> unat (a + of_nat k) = unat a + k" for a :: addr
  by (simp add: unat_add64 unat_of_nat64)

text \<open>A range that does not wrap is an interval of the unsigned addresses.\<close>

lemma in_range_linear:
  assumes "unat a + n \<le> 2 ^ 64"
  shows "in_range a n x \<longleftrightarrow> unat a \<le> unat x \<and> unat x < unat a + n"
proof
  assume "in_range a n x"
  then obtain k where "k < n" "x = a + of_nat k" by (rule in_rangeE)
  then show "unat a \<le> unat x \<and> unat x < unat a + n"
    using assms unat_add_offset [of a k] by simp
next
  assume x: "unat a \<le> unat x \<and> unat x < unat a + n"
  then have "unat (x - a) = unat x - unat a" by (simp add: unat_sub_if_size)
  moreover have "unat x - unat a < n" using x by linarith
  ultimately show "in_range a n x" by (simp add: in_range_def)
qed

lemma disjoint_ranges_not_both:
  assumes d: "disjoint_ranges a n b k" and a: "in_range a n x" and b: "in_range b k x"
  shows False
proof -
  from a b have pos: "n \<noteq> 0" "k \<noteq> 0" by (auto simp: in_range_def)
  with d have n: "n \<le> unat (b - a)" and k: "k \<le> unat (a - b)"
    by (auto simp: disjoint_ranges_def)
  have "b - a \<noteq> 0" using n pos by auto
  moreover have "a - b = - (b - a)" by simp
  ultimately have ab: "unat (a - b) = 2 ^ 64 - unat (b - a)"
    using unat_minus_flip by metis
  have xb: "x - a = (x - b) + (b - a)" by simp
  have "unat (x - b) + unat (b - a) < 2 ^ 64"
    using b k ab unat_less64 [of "b - a"] by (simp add: in_range_def)
  then have "unat (x - a) = unat (x - b) + unat (b - a)"
    by (subst xb, subst unat_add64) simp
  then show False using a n by (simp add: in_range_def)
qed

lemma disjoint_rangesI:
  assumes "\<And>x. in_range a n x \<Longrightarrow> in_range b k x \<Longrightarrow> False"
  shows "disjoint_ranges a n b k"
proof (cases "n = 0 \<or> k = 0")
  case True
  then show ?thesis by (auto simp: disjoint_ranges_def)
next
  case False
  then have "in_range a n a" "in_range b k b" by (simp_all add: in_range_def)
  then have "\<not> in_range b k a" "\<not> in_range a n b" using assms by blast+
  then show ?thesis by (simp add: disjoint_ranges_def in_range_def not_less)
qed

lemma disjoint_ranges_iff:
  "disjoint_ranges a n b k \<longleftrightarrow> (\<forall>x. \<not> (in_range a n x \<and> in_range b k x))"
  by (meson disjoint_rangesI disjoint_ranges_not_both)

lemma unat_minus_Suc:
  assumes "x \<noteq> (a :: addr)"
  shows "unat (x - a) = Suc (unat (x - (a + 1)))"
proof -
  have "unat (x - (a + 1)) = unat (x - a) - 1"
    using unat_minus_one [of "x - a"] assms by (simp add: diff_diff_eq)
  moreover have "unat (x - a) > 0" using assms by (simp add: unat_gt_0)
  ultimately show ?thesis by simp
qed

lemma in_range_Suc: "in_range d (Suc n) x \<longleftrightarrow> x = d \<or> in_range (d + 1) n x"
  by (cases "x = d") (simp_all add: in_range_def unat_minus_Suc)

lemma not_in_range_next: "n < 2 ^ 64 \<Longrightarrow> \<not> in_range (d + 1) n d"
  using unat_minus_flip [of "1 :: addr"] by (simp add: in_range_def)

lemma in_range_sub:
  assumes "in_range (b + v) j x" and "unat v + j \<le> k" and "k \<le> 2 ^ 64"
  shows "in_range b k x"
proof -
  obtain i where i: "i < j" "x = b + v + of_nat i" using assms(1) by (rule in_rangeE)
  then have "unat (v + of_nat i) = unat v + i"
    using assms(2,3) by (intro unat_add_offset) linarith
  then show ?thesis using i assms(2) by (simp add: in_range_def add.assoc)
qed

lemma in_range_mono: "in_range a n x \<Longrightarrow> n \<le> k \<Longrightarrow> in_range a k x"
  by (simp add: in_range_def)

lemma disjoint_ranges_sub:
  assumes "disjoint_ranges a n b k" and "n' \<le> n" and "unat v + j \<le> k" and "k \<le> 2 ^ 64"
  shows "disjoint_ranges a n' (b + v) j"
proof (rule disjoint_rangesI)
  fix x assume "in_range a n' x" and "in_range (b + v) j x"
  then have "in_range a n x" "in_range b k x"
    using in_range_mono [OF _ assms(2)] in_range_sub [OF _ assms(3,4)] by blast+
  with assms(1) show False by (rule disjoint_ranges_not_both)
qed

lemma fields_disjoint:
  fixes u v :: addr
  assumes "unat u + a \<le> unat v \<or> unat v + b \<le> unat u" and "unat u + a < 2 ^ 64" and "unat v + b < 2 ^ 64"
  shows "disjoint_ranges (p + u) a (p + v) b"
proof (rule disjoint_rangesI)
  fix x assume "in_range (p + u) a x" "in_range (p + v) b x"
  then obtain i j where ij: "i < a" "x = p + u + of_nat i" "j < b" "x = p + v + of_nat j"
    by (meson in_rangeE)
  then have "unat (u + of_nat i) = unat (v + of_nat j)" by (simp add: add.assoc)
  moreover have "unat (u + of_nat i) = unat u + i" "unat (v + of_nat j) = unat v + j"
    using assms(2,3) ij(1,3) by (intro unat_add_offset; linarith)+
  ultimately show False using assms(1) ij(1,3) by linarith
qed

lemma in_range_tail:
  fixes f :: addr
  assumes "unat f \<le> n" and "n \<le> 2 ^ 64"
  shows "in_range (d + f) (n - unat f) x \<longleftrightarrow> unat f \<le> unat (x - d) \<and> unat (x - d) < n"
proof -
  have split: "x - (d + f) = x - d - f" by simp
  have "unat (x - d - f) = (if unat f \<le> unat (x - d) then unat (x - d) - unat f
                            else unat (x - d) + 2 ^ 64 - unat f)"
    by (simp add: unat_sub_if_size word_size)
  then show ?thesis
    using assms unat_less64 [of f] unfolding in_range_def split by (auto simp del: unat_less64)
qed

section \<open>Aligning an address\<close>

lemma and_not_mask_eq: "y AND NOT (mask n) = push_bit n (drop_bit n y)" for y :: addr
  by (rule bit_word_eqI) (auto simp: bit_simps)

lemma unat_and_not_mask:
  fixes y :: addr
  shows "unat (y AND NOT (mask n)) = unat y div 2 ^ n * 2 ^ n"
proof -
  have "unat y div 2 ^ n * 2 ^ n < 2 ^ 64"
    using unat_less64 [of y] by (meson div_times_less_eq_dividend le_less_trans)
  moreover have "unat (push_bit n (drop_bit n y)) = take_bit 64 (push_bit n (unat (drop_bit n y)))"
    by (simp add: unsigned_push_bit_eq)
  moreover have "push_bit n (unat (drop_bit n y)) = unat y div 2 ^ n * 2 ^ n"
    unfolding unat_drop_bit_eq push_bit_eq_mult by (simp add: drop_bit_eq_div)
  ultimately show ?thesis by (simp add: and_not_mask_eq take_bit_nat_eq_self)
qed

section \<open>Reading and writing memory\<close>

definition read_bytes :: "mem \<Rightarrow> addr \<Rightarrow> nat \<Rightarrow> u8 list" where
  "read_bytes m a n = map (\<lambda>i. m (a + of_nat i)) [0..<n]"

primrec store_bytes :: "mem \<Rightarrow> addr \<Rightarrow> u8 list \<Rightarrow> mem" where
  "store_bytes m a [] = m"
| "store_bytes m a (b # bs) = store_bytes (m(a := b)) (a + 1) bs"

definition load_le :: "nat \<Rightarrow> mem \<Rightarrow> addr \<Rightarrow> 'a::len word" where
  "load_le n m a = le_word (read_bytes m a n)"

definition store_le :: "nat \<Rightarrow> mem \<Rightarrow> addr \<Rightarrow> 'a::len word \<Rightarrow> mem" where
  "store_le n m a w = store_bytes m a (word_bytes n w)"

abbreviation load16 :: "mem \<Rightarrow> addr \<Rightarrow> u16" where "load16 \<equiv> load_le 2"
abbreviation load32 :: "mem \<Rightarrow> addr \<Rightarrow> u32" where "load32 \<equiv> load_le 4"
abbreviation load64 :: "mem \<Rightarrow> addr \<Rightarrow> u64" where "load64 \<equiv> load_le 8"
abbreviation store16 :: "mem \<Rightarrow> addr \<Rightarrow> u16 \<Rightarrow> mem" where "store16 \<equiv> store_le 2"
abbreviation store32 :: "mem \<Rightarrow> addr \<Rightarrow> u32 \<Rightarrow> mem" where "store32 \<equiv> store_le 4"
abbreviation store64 :: "mem \<Rightarrow> addr \<Rightarrow> u64 \<Rightarrow> mem" where "store64 \<equiv> store_le 8"

lemma length_read_bytes [simp]: "length (read_bytes m a n) = n"
  by (simp add: read_bytes_def)

lemma nth_read_bytes [simp]: "i < n \<Longrightarrow> read_bytes m a n ! i = m (a + of_nat i)"
  by (simp add: read_bytes_def)

lemma read_bytes_0 [simp]: "read_bytes m a 0 = []"
  by (simp add: read_bytes_def)

lemma read_bytes_Suc: "read_bytes m a (Suc n) = m a # read_bytes m (a + 1) n"
proof -
  have "map (\<lambda>i. m (a + of_nat i)) [0..<Suc n] = m a # map (\<lambda>i. m (a + of_nat (Suc i))) [0..<n]"
    by (simp only: map_upt_Suc) simp
  then show ?thesis by (simp add: read_bytes_def add_ac)
qed

lemma read_bytes_cong:
  assumes "\<And>x. in_range a n x \<Longrightarrow> m x = m' x" and "n \<le> 2 ^ 64"
  shows "read_bytes m a n = read_bytes m' a n"
  using assms by (auto simp: read_bytes_def in_range_def unat_of_nat64)

lemma load_le_cong:
  assumes "\<And>x. in_range a n x \<Longrightarrow> m x = m' x" and "n \<le> 2 ^ 64"
  shows "load_le n m a = load_le n m' a"
  using read_bytes_cong [OF assms] by (simp add: load_le_def)

text \<open>\<open>same_bytes m p m' q n\<close>: the \<open>n\<close> bytes at \<open>q\<close> in \<open>m'\<close> are those at \<open>p\<close> in \<open>m\<close>.\<close>

definition same_bytes :: "mem \<Rightarrow> addr \<Rightarrow> mem \<Rightarrow> addr \<Rightarrow> nat \<Rightarrow> bool" where
  "same_bytes m p m' q n \<longleftrightarrow> (\<forall>k. unat k < n \<longrightarrow> m' (q + k) = m (p + k))"

lemma same_bytes_load:
  assumes "same_bytes m p m' q sz" and "unat v + n \<le> sz" and "sz \<le> 2 ^ 64"
  shows "load_le n m' (q + v) = load_le n m (p + v)"
proof -
  have "m' (q + v + of_nat k) = m (p + v + of_nat k)" if "k < n" for k
  proof -
    have "unat (v + of_nat k) = unat v + k"
      using that assms(2,3) by (intro unat_add_offset) linarith
    then show ?thesis using assms(1,2) that by (simp add: same_bytes_def add.assoc)
  qed
  then have "read_bytes m' (q + v) n = read_bytes m (p + v) n" by (simp add: read_bytes_def)
  then show ?thesis by (simp add: load_le_def)
qed

lemma same_bytesI:
  "(\<And>x. in_range p n x \<Longrightarrow> m' x = m x) \<Longrightarrow> same_bytes m p m' p n"
  by (simp add: same_bytes_def in_range_def)

lemma same_bytes_mono: "same_bytes m p m' q n \<Longrightarrow> k \<le> n \<Longrightarrow> same_bytes m p m' q k"
  by (simp add: same_bytes_def)

lemma store_bytes_apply:
  "length bs \<le> 2 ^ 64 \<Longrightarrow>
   store_bytes m a bs x = (if in_range a (length bs) x then bs ! unat (x - a) else m x)"
proof (induction bs arbitrary: m a)
  case Nil
  then show ?case by simp
next
  case (Cons b bs)
  show ?case
  proof (cases "x = a")
    case True
    have "unat (- 1 :: addr) = 2 ^ 64 - 1"
      using unat_minus_flip [of "1 :: addr"] by simp
    with True Cons show ?thesis by (simp add: in_range_def)
  next
    case False
    with Cons unat_minus_Suc [OF False] show ?thesis by (simp add: in_range_def)
  qed
qed

lemma read_store_bytes_same:
  assumes "length bs \<le> 2 ^ 64"
  shows "read_bytes (store_bytes m a bs) a (length bs) = bs"
  using assms by (intro nth_equalityI)
    (auto simp: store_bytes_apply in_range_def unat_of_nat64)

lemma read_store_bytes_disjoint:
  assumes "disjoint_ranges a (length bs) b n" and "length bs \<le> 2 ^ 64" and "n \<le> 2 ^ 64"
  shows "read_bytes (store_bytes m a bs) b n = read_bytes m b n"
  using assms by (intro read_bytes_cong)
    (auto simp: store_bytes_apply dest: disjoint_ranges_not_both)

lemma store_le_apply:
  "n \<le> 2 ^ 64 \<Longrightarrow>
   store_le n m a w x = (if in_range a n x then word_bytes n w ! unat (x - a) else m x)"
  by (simp add: store_le_def store_bytes_apply)

lemma load_store_same:
  fixes w :: "'a::len word"
  assumes "LENGTH('a) \<le> 8 * n" and "n \<le> 2 ^ 64"
  shows "load_le n (store_le n m a w) a = w"
  using read_store_bytes_same [of "word_bytes n w" m a] assms
  by (simp add: load_le_def store_le_def)

lemma load_store_disjoint:
  assumes "disjoint_ranges a n b k" and "n \<le> 2 ^ 64" and "k \<le> 2 ^ 64"
  shows "load_le k (store_le n m a w) b = load_le k m b"
  using read_store_bytes_disjoint [of a "word_bytes n w" b k m] assms
  by (simp add: load_le_def store_le_def)

lemma load64_store64_same [simp, mem_simps]: "load64 (store64 m a w) a = w"
  and load32_store32_same [simp, mem_simps]: "load32 (store32 m a v) a = v"
  and load16_store16_same [simp, mem_simps]: "load16 (store16 m a u) a = u"
  by (simp_all add: load_store_same)

lemma le_word_append:
  "le_word (xs @ ys) = (le_word xs OR push_bit (8 * length xs) (le_word ys) :: 'a::len word)"
  by (induction xs) (simp_all add: push_bit_or or.assoc ac_simps)

lemma read_bytes_add: "read_bytes m a (i + j) = read_bytes m a i @ read_bytes m (a + of_nat i) j"
  by (rule nth_equalityI) (auto simp: nth_append ac_simps)

lemma bit_le_word:
  "bit (le_word xs :: 'a::len word) n \<longleftrightarrow> n < LENGTH('a) \<and> n div 8 < length xs \<and> bit (xs ! (n div 8)) (n mod 8)"
proof (induction xs arbitrary: n)
  case Nil
  then show ?case by simp
next
  case (Cons b xs)
  show ?case
  proof (cases "n < 8")
    case True
    then show ?thesis by (auto simp: bit_simps)
  next
    case False
    then obtain k where n: "n = k + 8" by (metis add.commute le_Suc_ex not_less)
    have "\<not> bit b n" using n bit_imp_le_length [of b n] by auto
    moreover have "(k + 8) div 8 = Suc (k div 8)" "(k + 8) mod 8 = k mod 8" by (simp_all add: div_add_self2)
    ultimately show ?thesis using Cons [of k] by (auto simp: bit_simps n)
  qed
qed

lemma le_word_wide:
  "8 * length xs \<le> LENGTH('a) \<Longrightarrow> LENGTH('a) \<le> LENGTH('b) \<Longrightarrow>
   (ucast (le_word xs :: 'a::len word) :: 'b::len word) = le_word xs"
  by (rule bit_word_eqI) (auto simp: bit_simps bit_le_word)

lemma load64_halves: "load64 m a = ucast (load32 m a) OR push_bit 32 (ucast (load32 m (a + 4)))"
proof -
  have "read_bytes m a (4 + 4) = read_bytes m a 4 @ read_bytes m (a + of_nat 4) 4" by (rule read_bytes_add)
  then show ?thesis by (simp add: load_le_def le_word_append le_word_wide)
qed

end
