(* ===== verification/Common_Util.thy ===== *)
theory Common_Util
  imports Loader_Prelude
begin

text \<open>
  The byte-string primitives: \<open>mon_memset\<close>, \<open>mon_memcpy\<close> and \<open>mon_strlen\<close> of
  \<open>common/util/linux/common.c\<close>, and \<open>zero_mem\<close>, \<open>copy_mem\<close>, \<open>compare_mem\<close> of
  \<open>pre_os/xmon_loader/utils/memory/memory.c\<close>. The copies run forward one byte at a time (the
  string instruction \<open>rep movsb\<close>, or the C loop), so what they do on overlapping ranges is part
  of the model; the lemmas give their effect where no byte is overwritten before it is read.
\<close>

section \<open>Forward fill and copy\<close>

primrec fill_fwd :: "mem \<Rightarrow> addr \<Rightarrow> u8 \<Rightarrow> nat \<Rightarrow> mem" where
  "fill_fwd m d v 0 = m"
| "fill_fwd m d v (Suc n) = fill_fwd (m(d := v)) (d + 1) v n"

primrec copy_fwd :: "mem \<Rightarrow> addr \<Rightarrow> addr \<Rightarrow> nat \<Rightarrow> mem" where
  "copy_fwd m d s 0 = m"
| "copy_fwd m d s (Suc n) = copy_fwd (m(d := m s)) (d + 1) (s + 1) n"

primrec equal_fwd :: "mem \<Rightarrow> addr \<Rightarrow> addr \<Rightarrow> nat \<Rightarrow> bool" where
  "equal_fwd m p q 0 = True"
| "equal_fwd m p q (Suc n) = (if m p \<noteq> m q then False else equal_fwd m (p + 1) (q + 1) n)"

definition mon_memset :: "mem \<Rightarrow> addr \<Rightarrow> u8 \<Rightarrow> u64 \<Rightarrow> mem" where
  "mon_memset m dest val count = fill_fwd m dest val (unat count)"

definition mon_memcpy :: "mem \<Rightarrow> addr \<Rightarrow> addr \<Rightarrow> u64 \<Rightarrow> mem" where
  "mon_memcpy m dest src count = copy_fwd m dest src (unat count)"

definition zero_mem :: "mem \<Rightarrow> addr \<Rightarrow> u64 \<Rightarrow> mem" where
  "zero_mem m address sz = fill_fwd m address 0 (unat sz)"

definition copy_mem :: "mem \<Rightarrow> addr \<Rightarrow> addr \<Rightarrow> u64 \<Rightarrow> mem" where
  "copy_mem m dest src sz = copy_fwd m dest src (unat sz)"

definition compare_mem :: "mem \<Rightarrow> addr \<Rightarrow> addr \<Rightarrow> u64 \<Rightarrow> bool" where
  "compare_mem m source1 source2 sz = equal_fwd m source1 source2 (unat sz)"

text \<open>
  The scan for the terminating NUL: the pointer moves on until a zero byte; a memory without one
  is scanned for ever, so the result is an option.
\<close>

partial_function (option) strlen_loop :: "mem \<Rightarrow> addr \<Rightarrow> u32 \<Rightarrow> u32 option" where
  "strlen_loop m p len = (if m p \<noteq> 0 then strlen_loop m (p + 1) (len + 1) else Some len)"

definition mon_strlen :: "mem \<Rightarrow> addr \<Rightarrow> u32 option" where
  "mon_strlen m str = (if str = 0 then Some (- 1) else strlen_loop m str 0)"

section \<open>What they write\<close>

lemma fill_fwd_apply: "fill_fwd m d v n x = (if in_range d n x then v else m x)"
  by (induction n arbitrary: m d) (auto simp: in_range_Suc)

lemma copy_fwd_outside: "\<not> in_range d n x \<Longrightarrow> copy_fwd m d s n x = m x"
  by (induction n arbitrary: m d s) (auto simp: in_range_Suc)

text \<open>
  A forward copy is exact when the destination starts at or before the source, or beyond its end:
  \<open>d - s\<close> is then not one of the distances by which a byte could be overwritten early.
\<close>

lemma copy_fwd_inside:
  "d = s \<or> n \<le> unat (d - s) \<Longrightarrow> k < n \<Longrightarrow> n \<le> 2 ^ 64 \<Longrightarrow>
   copy_fwd m d s n (d + of_nat k) = m (s + of_nat k)"
proof (induction n arbitrary: m d s k)
  case 0
  then show ?case by simp
next
  case (Suc n)
  show ?case
  proof (cases k)
    case 0
    then show ?thesis using Suc.prems not_in_range_next [of n d] by (simp add: copy_fwd_outside)
  next
    case (Suc j)
    have "copy_fwd (m(d := m s)) (d + 1) (s + 1) n (d + 1 + of_nat j)
          = (m(d := m s)) (s + 1 + of_nat j)"
      using Suc Suc.prems by (intro Suc.IH) auto
    moreover have "s + 1 + of_nat j \<noteq> d"
    proof
      assume "s + 1 + of_nat j = d"
      then have "d - s = of_nat (Suc j)" by (auto simp: algebra_simps)
      then have "unat (d - s) = Suc j" using Suc Suc.prems by (simp only: unat_of_nat64)
      then show False using Suc Suc.prems by auto
    qed
    ultimately show ?thesis using Suc by (simp add: add_ac)
  qed
qed

lemma disjoint_ranges_distance:
  "disjoint_ranges d n s n \<Longrightarrow> 0 < n \<Longrightarrow> n \<le> unat (d - s)"
  by (auto simp: disjoint_ranges_def)

lemma copy_fwd_disjoint:
  assumes "disjoint_ranges d n s n" and "n \<le> 2 ^ 64"
  shows "copy_fwd m d s n x = (if in_range d n x then m (s + (x - d)) else m x)"
proof (cases "in_range d n x")
  case True
  then obtain k where k: "k < n" "x = d + of_nat k" by (auto elim: in_rangeE)
  moreover have "n \<le> unat (d - s)" using assms k by (intro disjoint_ranges_distance) auto
  ultimately show ?thesis using True assms copy_fwd_inside [of d s n k m] by simp
next
  case False
  with assms show ?thesis by (simp add: copy_fwd_outside)
qed

lemma equal_fwd_iff:
  "equal_fwd m p q n \<longleftrightarrow> read_bytes m p n = read_bytes m q n"
  by (induction n arbitrary: p q) (simp_all add: read_bytes_Suc)

lemma mon_memset_apply [mem_simps]:
  "mon_memset m d v c x = (if in_range d (unat c) x then v else m x)"
  by (simp add: mon_memset_def fill_fwd_apply)

lemma zero_mem_apply [mem_simps]:
  "zero_mem m d c x = (if in_range d (unat c) x then 0 else m x)"
  by (simp add: zero_mem_def fill_fwd_apply)

lemma mon_memcpy_outside:
  "\<not> in_range d (unat c) x \<Longrightarrow> mon_memcpy m d s c x = m x"
  by (simp add: mon_memcpy_def copy_fwd_outside)

lemma mon_memcpy_disjoint:
  "disjoint_ranges d (unat c) s (unat c) \<Longrightarrow>
   mon_memcpy m d s c x = (if in_range d (unat c) x then m (s + (x - d)) else m x)"
  by (simp add: mon_memcpy_def copy_fwd_disjoint)

section \<open>NUL-terminated strings\<close>

text \<open>
  \<open>cstr m p s\<close>: the bytes \<open>s\<close>, none of them zero, followed by a NUL, lie at \<open>p\<close>.
\<close>

fun cstr :: "mem \<Rightarrow> addr \<Rightarrow> u8 list \<Rightarrow> bool" where
  "cstr m p [] \<longleftrightarrow> m p = 0"
| "cstr m p (c # cs) \<longleftrightarrow> c \<noteq> 0 \<and> m p = c \<and> cstr m (p + 1) cs"

lemma cstr_unique: "cstr m p s \<Longrightarrow> cstr m p t \<Longrightarrow> s = t"
proof (induction s arbitrary: p t)
  case Nil
  then show ?case by (cases t) auto
next
  case (Cons c cs)
  then show ?case by (cases t) auto
qed

lemma cstr_nth: "cstr m p s \<Longrightarrow> i < length s \<Longrightarrow> m (p + of_nat i) = s ! i"
  by (induction s arbitrary: p i) (auto simp: nth_Cons' gr0_conv_Suc add.assoc [symmetric])

lemma cstr_end: "cstr m p s \<Longrightarrow> m (p + of_nat (length s)) = 0"
  by (induction s arbitrary: p) (auto simp: add.assoc [symmetric])

lemma cstr_nonzero: "cstr m p s \<Longrightarrow> 0 \<notin> set s"
  by (induction s arbitrary: p) auto

lemma cstrI:
  "0 \<notin> set s \<Longrightarrow> (\<And>i. i < length s \<Longrightarrow> m (p + of_nat i) = s ! i) \<Longrightarrow> m (p + of_nat (length s)) = 0 \<Longrightarrow>
   cstr m p s"
proof (induction s arbitrary: p)
  case Nil
  then show ?case by simp
next
  case (Cons c s)
  have "m (p + 1 + of_nat i) = s ! i" if "i < length s" for i
    using Cons.prems(2) [of "Suc i"] that by (simp add: add_ac)
  moreover have "m p = c" using Cons.prems(2) [of 0] by simp
  ultimately show ?case using Cons.IH [of "p + 1"] Cons.prems(1,3) by (simp add: add_ac)
qed

lemma cstr_append: "cstr m p (s @ t) \<Longrightarrow> cstr m (p + of_nat (length s)) t"
  by (induction s arbitrary: p) (auto simp: add.assoc [symmetric])

lemma strlen_loop_cstr:
  "cstr m p s \<Longrightarrow> strlen_loop m p len = Some (len + of_nat (length s))"
proof (induction s arbitrary: p len)
  case Nil
  then show ?case by (simp add: strlen_loop.simps)
next
  case (Cons c cs)
  then show ?case by (subst strlen_loop.simps) (simp add: add_ac)
qed

lemma mon_strlen_cstr:
  assumes "cstr m p s" and "p \<noteq> 0"
  shows "mon_strlen m p = Some (of_nat (length s))"
  using assms by (simp add: mon_strlen_def strlen_loop_cstr)

end
