(* ===== verification/C_Strings.thy ===== *)
theory C_Strings
  imports Common_Util "HOL-Library.List_Lexorder"
begin

text \<open>
  The character table of \<open>pre_os/xmon_loader/utils/string/ctype.c\<close> with the tests of \<open>ctype.h\<close>, and
  the string functions of \<open>string.c\<close>, on raw memory. A scan without a bound that may miss its
  terminator is a partial function (option). Plain \<open>char\<close> is signed: comparisons with an \<open>int\<close>
  use the signed value, differences the unsigned one, as the casts in the source say.
\<close>

section \<open>Character classes\<close>

definition XS :: u8 where "XS = 0x40"
definition CN :: u8 where "CN = 0x20"
definition DI :: u8 where "DI = 0x04"
definition LO :: u8 where "LO = 0x02"
definition PU :: u8 where "PU = 0x10"
definition SP :: u8 where "SP = 0x08"
definition UP :: u8 where "UP = 0x01"
definition XD :: u8 where "XD = 0x80"

lemmas ctype_bits = XS_def CN_def DI_def LO_def PU_def SP_def UP_def XD_def

definition ctype_table :: "u8 list" where
  "ctype_table =
     replicate 9 CN @ replicate 5 (CN OR SP) @ replicate 18 CN @ [XS OR SP] @ replicate 15 PU @
     replicate 10 (XD OR DI) @ replicate 7 PU @ replicate 6 (XD OR UP) @ replicate 20 UP @
     replicate 6 PU @ replicate 6 (XD OR LO) @ replicate 20 LO @ replicate 4 PU @ [CN] @ replicate 129 0"

definition ctype_is :: "u8 \<Rightarrow> u8 \<Rightarrow> bool" where
  "ctype_is bits c \<longleftrightarrow> ctype_table ! unat c AND bits \<noteq> 0"

definition isdigit :: "u8 \<Rightarrow> bool" where "isdigit c = ctype_is DI c"
definition isspace :: "u8 \<Rightarrow> bool" where "isspace c = ctype_is SP c"
definition isxdigit :: "u8 \<Rightarrow> bool" where "isxdigit c = ctype_is XD c"
definition isupper :: "u8 \<Rightarrow> bool" where "isupper c = ctype_is UP c"
definition islower :: "u8 \<Rightarrow> bool" where "islower c = ctype_is LO c"
definition isprint :: "u8 \<Rightarrow> bool" where "isprint c = ctype_is (LO OR UP OR DI OR SP OR PU) c"
definition isalpha :: "u8 \<Rightarrow> bool" where "isalpha c = ctype_is (LO OR UP) c"

section \<open>Comparing, copying and searching\<close>

definition byte_diff :: "u8 \<Rightarrow> u8 \<Rightarrow> int" where
  "byte_diff a b = int (unat a) - int (unat b)"

partial_function (option) strcmp :: "mem \<Rightarrow> addr \<Rightarrow> addr \<Rightarrow> int option" where
  "strcmp m s1 s2 =
     (if m s1 = m s2 then (if m s1 = 0 then Some 0 else strcmp m (s1 + 1) (s2 + 1))
      else Some (byte_diff (m s1) (m s2)))"

primrec strncpy_loop :: "mem \<Rightarrow> addr \<Rightarrow> addr \<Rightarrow> nat \<Rightarrow> mem" where
  "strncpy_loop m d s 0 = m"
| "strncpy_loop m d s (Suc n) =
     (let c = m s; m' = m(d := c)
      in if c = 0 then fill_fwd m' (d + 1) 0 n else strncpy_loop m' (d + 1) (s + 1) n)"

definition strncpy :: "mem \<Rightarrow> addr \<Rightarrow> addr \<Rightarrow> u64 \<Rightarrow> addr \<times> mem" where
  "strncpy m dst src n = (dst, strncpy_loop m dst src (unat n))"

text \<open>\<open>strchr\<close>: the outer option is termination, the inner one the null pointer.\<close>

partial_function (option) strchr :: "mem \<Rightarrow> addr \<Rightarrow> int \<Rightarrow> addr option option" where
  "strchr m p ch =
     (if sint (m p) = ch then Some (Some p)
      else if m p = 0 then Some None
      else strchr m (p + 1) ch)"

primrec strncmp_loop :: "mem \<Rightarrow> addr \<Rightarrow> addr \<Rightarrow> nat \<Rightarrow> int" where
  "strncmp_loop m s1 s2 0 = 0"
| "strncmp_loop m s1 s2 (Suc n) =
     (if m s1 \<noteq> m s2 then byte_diff (m s1) (m s2)
      else if m s1 = 0 then 0
      else strncmp_loop m (s1 + 1) (s2 + 1) n)"

definition strncmp :: "mem \<Rightarrow> addr \<Rightarrow> addr \<Rightarrow> u64 \<Rightarrow> int" where
  "strncmp m s1 s2 n = strncmp_loop m s1 s2 (unat n)"

partial_function (option) strlen_scan :: "mem \<Rightarrow> addr \<Rightarrow> addr option" where
  "strlen_scan m s = (if m s \<noteq> 0 then strlen_scan m (s + 1) else Some s)"

definition strlen :: "mem \<Rightarrow> addr \<Rightarrow> u64 option" where
  "strlen m str = map_option (\<lambda>s. s - str) (strlen_scan m str)"

section \<open>Numbers\<close>

definition ULONG_MAX :: u64 where "ULONG_MAX = 0xffffffffffffffff"

partial_function (option) skip_space :: "mem \<Rightarrow> addr \<Rightarrow> (u8 \<times> addr) option" where
  "skip_space m s = (if isspace (m s) then skip_space m (s + 1) else Some (m s, s + 1))"

definition digit_value :: "u8 \<Rightarrow> u8 option" where
  "digit_value c =
     (if isdigit c then Some (c - 0x30)
      else if isalpha c then Some (c - (if isupper c then 0x41 - 10 else 0x61 - 10))
      else None)"

text \<open>
  The conversion loop: \<open>c\<close> is the character under test, \<open>s\<close> points one past it; \<open>conv\<close> is the
  source's \<open>any\<close> (0 no digit yet, 1 converted, -1 overflow).
\<close>

partial_function (option) strtoul_loop ::
  "mem \<Rightarrow> int \<Rightarrow> u64 \<Rightarrow> int \<Rightarrow> u8 \<Rightarrow> addr \<Rightarrow> u64 \<Rightarrow> int \<Rightarrow> (u64 \<times> int \<times> addr) option" where
  "strtoul_loop m base cutoff cutlim c s acc conv =
     (case digit_value c of
        None \<Rightarrow> Some (acc, conv, s)
      | Some d \<Rightarrow>
          if int (unat d) \<ge> base then Some (acc, conv, s)
          else if conv < 0 \<or> acc > cutoff \<or> (acc = cutoff \<and> int (unat d) > cutlim)
          then strtoul_loop m base cutoff cutlim (m s) (s + 1) acc (- 1)
          else strtoul_loop m base cutoff cutlim (m s) (s + 1) (acc * word_of_int base + ucast d) 1)"

definition strtoul_sign :: "mem \<Rightarrow> u8 \<times> addr \<Rightarrow> bool \<times> u8 \<times> addr" where
  "strtoul_sign m = (\<lambda>(c, s). if c = 0x2D then (True, m s, s + 1)
                              else if c = 0x2B then (False, m s, s + 1) else (False, c, s))"

definition strtoul_base :: "mem \<Rightarrow> int \<Rightarrow> u8 \<times> addr \<Rightarrow> int \<times> u8 \<times> addr" where
  "strtoul_base m base = (\<lambda>(c, s).
     let (base, c, s) = (if (base = 0 \<or> base = 16) \<and> c = 0x30 \<and> (m s = 0x78 \<or> m s = 0x58)
                         then (16, m (s + 1), s + 2) else (base, c, s))
     in (if base = 0 then (if c = 0x30 then 8 else 10) else base, c, s))"

definition strtoul :: "mem \<Rightarrow> addr \<Rightarrow> addr \<Rightarrow> int \<Rightarrow> (u64 \<times> mem) option" where
  "strtoul m nptr endptr base =
     Option.bind (skip_space m nptr) (\<lambda>r.
       let (neg, c, s) = strtoul_sign m r;
           (base, c, s) = strtoul_base m base (c, s);
           cutoff = ULONG_MAX div word_of_int base;
           cutlim = sint (ucast (ULONG_MAX mod word_of_int base :: u64) :: u32)
       in map_option (\<lambda>(acc, conv, s).
            (if conv < 0 then ULONG_MAX else if neg then - acc else acc,
             if endptr \<noteq> 0 then store64 m endptr (if conv \<noteq> 0 then s - 1 else nptr) else m))
          (strtoul_loop m base cutoff cutlim c s 0 0))"

section \<open>The table against the ranges of ASCII\<close>

lemma ctype_table_nth:
  "n < 256 \<Longrightarrow> ctype_table ! n =
    (if n < 9 then CN else if n < 14 then CN OR SP else if n < 32 then CN else if n < 33 then XS OR SP
     else if n < 48 then PU else if n < 58 then XD OR DI else if n < 65 then PU
     else if n < 71 then XD OR UP else if n < 91 then UP else if n < 97 then PU
     else if n < 103 then XD OR LO else if n < 123 then LO else if n < 127 then PU
     else if n < 128 then CN else 0)"
  unfolding ctype_table_def append_assoc [symmetric]
  by (simp add: nth_append nth_Cons' del: append_assoc append_Cons)

lemma ctype_is_range:
  "ctype_is bits c \<longleftrightarrow>
    (if unat c < 9 then CN AND bits \<noteq> 0 else if unat c < 14 then (CN OR SP) AND bits \<noteq> 0
     else if unat c < 32 then CN AND bits \<noteq> 0 else if unat c < 33 then (XS OR SP) AND bits \<noteq> 0
     else if unat c < 48 then PU AND bits \<noteq> 0 else if unat c < 58 then (XD OR DI) AND bits \<noteq> 0
     else if unat c < 65 then PU AND bits \<noteq> 0 else if unat c < 71 then (XD OR UP) AND bits \<noteq> 0
     else if unat c < 91 then UP AND bits \<noteq> 0 else if unat c < 97 then PU AND bits \<noteq> 0
     else if unat c < 103 then (XD OR LO) AND bits \<noteq> 0 else if unat c < 123 then LO AND bits \<noteq> 0
     else if unat c < 127 then PU AND bits \<noteq> 0 else if unat c < 128 then CN AND bits \<noteq> 0 else False)"
proof -
  have "unat c < 256" using unsigned_less [of c] by simp
  then show ?thesis unfolding ctype_is_def ctype_table_nth [OF \<open>unat c < 256\<close>] by simp
qed

lemma isdigit_iff: "isdigit c \<longleftrightarrow> 48 \<le> unat c \<and> unat c \<le> 57"
  unfolding isdigit_def ctype_is_range by (simp add: ctype_bits)

lemma isspace_iff: "isspace c \<longleftrightarrow> (9 \<le> unat c \<and> unat c \<le> 13) \<or> unat c = 32"
  unfolding isspace_def ctype_is_range by (simp add: ctype_bits)

lemma isupper_iff: "isupper c \<longleftrightarrow> 65 \<le> unat c \<and> unat c \<le> 90"
  unfolding isupper_def ctype_is_range by (simp add: ctype_bits)

lemma islower_iff: "islower c \<longleftrightarrow> 97 \<le> unat c \<and> unat c \<le> 122"
  unfolding islower_def ctype_is_range by (simp add: ctype_bits)

lemma isxdigit_iff:
  "isxdigit c \<longleftrightarrow> (48 \<le> unat c \<and> unat c \<le> 57) \<or> (65 \<le> unat c \<and> unat c \<le> 70) \<or> (97 \<le> unat c \<and> unat c \<le> 102)"
  unfolding isxdigit_def ctype_is_range by (simp add: ctype_bits)

lemma isalpha_iff: "isalpha c \<longleftrightarrow> (65 \<le> unat c \<and> unat c \<le> 90) \<or> (97 \<le> unat c \<and> unat c \<le> 122)"
  unfolding isalpha_def ctype_is_range by (simp add: ctype_bits)

lemma isprint_iff: "isprint c \<longleftrightarrow> (9 \<le> unat c \<and> unat c \<le> 13) \<or> (32 \<le> unat c \<and> unat c \<le> 126)"
  unfolding isprint_def ctype_is_range by (simp add: ctype_bits)

section \<open>Strings in memory\<close>

lemma cstr_cong:
  "(\<And>x. in_range p (Suc (length s)) x \<Longrightarrow> m' x = m x) \<Longrightarrow> cstr m' p s = cstr m p s"
proof (induction s arbitrary: p)
  case Nil
  then show ?case by (simp add: in_range_Suc)
next
  case (Cons c s)
  have "cstr m' (p + 1) s = cstr m (p + 1) s"
    using Cons.prems by (intro Cons.IH) (simp add: in_range_Suc)
  moreover have "m' p = m p" using Cons.prems by (simp add: in_range_Suc)
  ultimately show ?case by simp
qed

lemma byte_diff_zero [simp]: "byte_diff a b = 0 \<longleftrightarrow> a = b"
  by (simp add: byte_diff_def word_unat_eq_iff del: of_nat_unat)

lemma byte_diff_neg [simp]: "byte_diff a b < 0 \<longleftrightarrow> a < b"
  by (simp add: byte_diff_def word_less_nat_alt del: of_nat_unat)

lemma strcmp_cstr:
  "cstr m p s \<Longrightarrow> cstr m q t \<Longrightarrow>
   \<exists>r. strcmp m p q = Some r \<and> (r = 0 \<longleftrightarrow> s = t) \<and> (r < 0 \<longleftrightarrow> s < t)"
proof (induction s arbitrary: p q t)
  case Nil
  then show ?case by (cases t) (auto simp: strcmp.simps [of m p] word_neq_0_conv [symmetric])
next
  case (Cons c s)
  show ?case
  proof (cases t)
    case Nil
    with Cons.prems show ?thesis by (auto simp: strcmp.simps [of m p])
  next
    case (Cons d u)
    have pq: "m p = c" "m q = d" "c \<noteq> 0" "cstr m (p + 1) s" "cstr m (q + 1) u"
      using Cons.prems Cons by simp_all
    have t: "t = d # u" by (rule Cons)
    show ?thesis
    proof (cases "c = d")
      case True
      with Cons.IH [OF pq(4,5)] pq show ?thesis
        by (simp add: strcmp.simps [of m p] t)
    next
      case False
      with pq show ?thesis by (simp add: strcmp.simps [of m p] t)
    qed
  qed
qed

lemma strncmp_loop_cstr:
  "cstr m p s \<Longrightarrow> cstr m q t \<Longrightarrow>
   (strncmp_loop m p q n = 0 \<longleftrightarrow> take n s = take n t) \<and>
   (strncmp_loop m p q n < 0 \<longleftrightarrow> take n s < take n t)"
proof (induction n arbitrary: p q s t)
  case 0
  then show ?case by simp
next
  case (Suc n)
  show ?case
  proof (cases "m p = m q")
    case False
    with Suc.prems show ?thesis
      by (cases s; cases t) (auto simp: word_neq_0_conv [symmetric])
  next
    case True
    then show ?thesis using Suc.prems Suc.IH [of "p + 1" _ "q + 1"]
      by (cases s; cases t) auto
  qed
qed

lemma sint_eq_iff [simp]: "sint a = sint b \<longleftrightarrow> a = b" for a b :: "'a::len word"
  by (auto intro: signed_word_eqI)

lemma sint_zero_iff [simp]: "sint c = 0 \<longleftrightarrow> c = 0" for c :: "'a::len word"
  using sint_eq_iff [of c 0] by (simp del: sint_eq_iff)

lemma strchr_cstr:
  "cstr m p s \<Longrightarrow>
   strchr m p (sint c) = Some (if c \<in> set s \<or> c = 0
     then Some (p + of_nat (length (takeWhile (\<lambda>x. x \<noteq> c) s))) else None)"
proof (induction s arbitrary: p)
  case Nil
  then show ?case by (auto simp: strchr.simps [of m p])
next
  case (Cons a s)
  then show ?case
    by (auto simp: strchr.simps [of m p] add.assoc)
qed

lemma strlen_scan_cstr: "cstr m p s \<Longrightarrow> strlen_scan m p = Some (p + of_nat (length s))"
  by (induction s arbitrary: p) (simp_all add: strlen_scan.simps [of m] add.assoc)

lemma strlen_cstr: "cstr m p s \<Longrightarrow> strlen m p = Some (of_nat (length s))"
  by (simp add: strlen_def strlen_scan_cstr)

text \<open>\<open>strncpy\<close> to a buffer that does not overlap the string.\<close>

lemma strncpy_loop_cstr:
  "\<lbrakk>cstr m q s; \<And>x. in_range p n x \<Longrightarrow> \<not> in_range q (Suc (length s)) x; n < 2 ^ 64\<rbrakk> \<Longrightarrow>
   strncpy_loop m p q n x =
     (if in_range p n x then if unat (x - p) < length s then s ! unat (x - p) else 0 else m x)"
proof (induction n arbitrary: m p q s)
  case 0
  then show ?case by simp
next
  case (Suc n)
  show ?case
  proof (cases s)
    case Nil
    then show ?thesis using Suc.prems by (auto simp: fill_fwd_apply in_range_Suc)
  next
    case (Cons c t)
    have c: "m q = c" "c \<noteq> 0" "cstr m (q + 1) t" using Suc.prems(1) Cons by simp_all
    have "p \<noteq> y" if "in_range (q + 1) (Suc (length t)) y" for y
      using Suc.prems(2) [of p] that Cons by (auto simp: in_range_Suc)
    then have "cstr (m(p := c)) (q + 1) t"
      using c(3) cstr_cong [of "q + 1" t "m(p := c)" m] by force
    moreover have "\<not> in_range (q + 1) (Suc (length t)) y" if "in_range (p + 1) n y" for y
      using Suc.prems(2) [of y] that Cons by (auto simp: in_range_Suc)
    moreover have "n < 2 ^ 64" using Suc.prems(3) by simp
    ultimately have IH: "strncpy_loop (m(p := c)) (p + 1) (q + 1) n x =
        (if in_range (p + 1) n x then if unat (x - (p + 1)) < length t then t ! unat (x - (p + 1)) else 0
         else (m(p := c)) x)"
      by (rule Suc.IH)
    show ?thesis
    proof (cases "x = p")
      case True
      then show ?thesis using IH c Cons not_in_range_next [of n p] Suc.prems(3)
        by (simp add: in_range_Suc)
    next
      case False
      then show ?thesis using IH c Cons unat_minus_Suc [OF False]
        by (simp add: in_range_Suc)
    qed
  qed
qed

section \<open>Conversion of digit strings\<close>

fun chars_at :: "mem \<Rightarrow> addr \<Rightarrow> u8 list \<Rightarrow> bool" where
  "chars_at m p [] \<longleftrightarrow> True"
| "chars_at m p (c # cs) \<longleftrightarrow> m p = c \<and> chars_at m (p + 1) cs"

lemma chars_at_append:
  "chars_at m p (xs @ ys) \<longleftrightarrow> chars_at m p xs \<and> chars_at m (p + of_nat (length xs)) ys"
  by (induction xs arbitrary: p) (auto simp: add.assoc)

definition is_digit_in :: "nat \<Rightarrow> u8 \<Rightarrow> bool" where
  "is_digit_in b c \<longleftrightarrow> (\<exists>d. digit_value c = Some d \<and> unat d < b)"

definition digit_of :: "u8 \<Rightarrow> nat" where
  "digit_of c = unat (the (digit_value c))"

definition number_from :: "nat \<Rightarrow> nat \<Rightarrow> u8 list \<Rightarrow> nat" where
  "number_from b a cs = foldl (\<lambda>a c. a * b + digit_of c) a cs"

lemma number_from_simps [simp]:
  "number_from b a [] = a"
  "number_from b a (c # cs) = number_from b (a * b + digit_of c) cs"
  by (simp_all add: number_from_def)

lemma number_from_ge: "1 \<le> b \<Longrightarrow> a \<le> number_from b a cs"
proof (induction cs arbitrary: a)
  case Nil
  then show ?case by simp
next
  case (Cons c cs)
  have "a \<le> a * b + digit_of c" using Cons.prems by (simp add: trans_le_add1)
  then show ?case using Cons.IH [of "a * b + digit_of c"] Cons.prems by simp
qed

lemma overflow_split:
  fixes a b d q r :: nat
  assumes "r < b" and "d < b"
  shows "q * b + r < a * b + d \<longleftrightarrow> q < a \<or> (a = q \<and> r < d)"
proof (cases a q rule: linorder_cases)
  case less
  then have "Suc a * b \<le> q * b" by (intro mult_le_mono1) simp
  with less assms show ?thesis by simp
next
  case equal
  then show ?thesis by simp
next
  case greater
  then have "Suc q * b \<le> a * b" by (intro mult_le_mono1) simp
  with greater assms show ?thesis by simp
qed

declare of_nat_unat [simp del]

lemma strtoul_cutoff:
  assumes b: "2 \<le> b" "b \<le> 36"
  defines "base \<equiv> int b"
  shows "unat (ULONG_MAX div word_of_int base) = (2 ^ 64 - 1) div b"
    and "sint (ucast (ULONG_MAX mod word_of_int base :: u64) :: u32) = int ((2 ^ 64 - 1) mod b)"
proof -
  have base: "unat (word_of_int base :: u64) = b"
    using b by (simp add: base_def unat_of_nat64)
  show "unat (ULONG_MAX div word_of_int base) = (2 ^ 64 - 1) div b"
    by (simp add: unat_div_distrib base ULONG_MAX_def)
  let ?r = "ULONG_MAX mod word_of_int base :: u64"
  have r: "unat ?r = (2 ^ 64 - 1) mod b"
    by (simp add: unat_mod_distrib base ULONG_MAX_def)
  have "(2 ^ 64 - 1) mod b < b" using b by simp
  then have lt: "(2 ^ 64 - 1) mod b < 36" using b by linarith
  have "of_nat (unat ?r) = ?r" by (simp add: of_nat_unat)
  then have "?r = of_nat ((2 ^ 64 - 1) mod b)" unfolding r by (rule sym)
  then have "(ucast ?r :: u32) = of_nat ((2 ^ 64 - 1) mod b)"
    using lt by (simp add: unsigned_of_nat take_bit_nat_eq_self)
  then show "sint (ucast ?r :: u32) = int ((2 ^ 64 - 1) mod b)"
    using lt by (simp add: signed_of_nat signed_take_bit_int_eq_self del: of_nat_mod)
qed

text \<open>
  The loop over the digits that follow: their number, or overflow for ever once it is exceeded. The
  pointer ends one past the first character that is no digit.
\<close>

lemma strtoul_loop_stop:
  "\<not> is_digit_in b c \<Longrightarrow> strtoul_loop m (int b) cutoff cutlim c s acc conv = Some (acc, conv, s)"
  by (subst strtoul_loop.simps) (auto simp: is_digit_in_def not_less split: option.splits)

lemma strtoul_loop_step:
  assumes b: "2 \<le> b" "b \<le> 36" and c: "is_digit_in b c"
  defines "base \<equiv> int b"
  defines "cutoff \<equiv> ULONG_MAX div word_of_int base"
  defines "cutlim \<equiv> sint (ucast (ULONG_MAX mod word_of_int base :: u64) :: u32)"
  shows "conv < 0 \<or> 2 ^ 64 \<le> unat acc * b + digit_of c \<Longrightarrow>
      strtoul_loop m base cutoff cutlim c s acc conv = strtoul_loop m base cutoff cutlim (m s) (s + 1) acc (- 1)"
    and "0 \<le> conv \<Longrightarrow> unat acc * b + digit_of c < 2 ^ 64 \<Longrightarrow>
      strtoul_loop m base cutoff cutlim c s acc conv =
      strtoul_loop m base cutoff cutlim (m s) (s + 1) (of_nat (unat acc * b + digit_of c)) 1"
proof -
  obtain d where d: "digit_value c = Some d" "unat d < b" using c by (auto simp: is_digit_in_def)
  note cut = strtoul_cutoff [OF b, folded base_def, folded cutoff_def cutlim_def]
  have "(2 ^ 64 - 1) mod b < b" using b by simp
  then have "(2 ^ 64 - 1) div b * b + (2 ^ 64 - 1) mod b < unat acc * b + unat d \<longleftrightarrow>
      (2 ^ 64 - 1) div b < unat acc \<or> (unat acc = (2 ^ 64 - 1) div b \<and> (2 ^ 64 - 1) mod b < unat d)"
    using d by (intro overflow_split) auto
  moreover have "(2 ^ 64 - 1) div b * b + (2 ^ 64 - 1) mod b = (2 ^ 64 - 1 :: nat)" by (rule div_mult_mod_eq)
  ultimately have over: "(acc > cutoff \<or> (acc = cutoff \<and> int (unat d) > cutlim)) \<longleftrightarrow>
      2 ^ 64 \<le> unat acc * b + digit_of c"
    using cut d by (auto simp: word_less_nat_alt word_unat_eq_iff digit_of_def)
  have lt: "\<not> int (unat d) \<ge> base" using d by (simp add: base_def)
  have step: "strtoul_loop m base cutoff cutlim c s acc conv =
      (if conv < 0 \<or> 2 ^ 64 \<le> unat acc * b + digit_of c
       then strtoul_loop m base cutoff cutlim (m s) (s + 1) acc (- 1)
       else strtoul_loop m base cutoff cutlim (m s) (s + 1) (acc * word_of_int base + ucast d) 1)"
    using lt d by (subst strtoul_loop.simps) (simp add: over)
  have "(ucast d :: u64) = of_nat (unat d)" by (simp add: of_nat_unat)
  moreover have "acc = of_nat (unat acc)" by (simp add: of_nat_unat)
  ultimately have "acc * word_of_int base + ucast d = (of_nat (unat acc * b + digit_of c) :: u64)"
    using d by (simp add: base_def digit_of_def)
  then show "0 \<le> conv \<Longrightarrow> unat acc * b + digit_of c < 2 ^ 64 \<Longrightarrow>
      strtoul_loop m base cutoff cutlim c s acc conv =
      strtoul_loop m base cutoff cutlim (m s) (s + 1) (of_nat (unat acc * b + digit_of c)) 1"
    using step by simp
  show "conv < 0 \<or> 2 ^ 64 \<le> unat acc * b + digit_of c \<Longrightarrow>
      strtoul_loop m base cutoff cutlim c s acc conv = strtoul_loop m base cutoff cutlim (m s) (s + 1) acc (- 1)"
    using step by simp
qed

lemma strtoul_loop_digits:
  assumes b: "2 \<le> b" "b \<le> 36"
  defines "base \<equiv> int b"
  defines "cutoff \<equiv> ULONG_MAX div word_of_int base"
  defines "cutlim \<equiv> sint (ucast (ULONG_MAX mod word_of_int base :: u64) :: u32)"
  shows "\<lbrakk>chars_at m s (cs @ [e]); \<forall>x \<in> set (c # cs). is_digit_in b x; \<not> is_digit_in b e\<rbrakk> \<Longrightarrow>
    \<exists>acc' conv'. strtoul_loop m base cutoff cutlim c s acc conv
        = Some (acc', conv', s + of_nat (length cs) + 1) \<and>
      (if conv < 0 \<or> 2 ^ 64 \<le> number_from b (unat acc) (c # cs) then conv' < 0
       else 0 < conv' \<and> acc' = of_nat (number_from b (unat acc) (c # cs)))"
proof (induction cs arbitrary: c s acc conv)
  case Nil
  then have c: "is_digit_in b c" and e: "\<not> is_digit_in b (m s)" by simp_all
  note step = strtoul_loop_step [OF b c, folded base_def, folded cutoff_def cutlim_def]
  show ?case
  proof (cases "conv < 0 \<or> 2 ^ 64 \<le> unat acc * b + digit_of c")
    case True
    from step(1) [OF True] True show ?thesis
      by (simp add: base_def strtoul_loop_stop [OF e])
  next
    case False
    then have "0 \<le> conv" "unat acc * b + digit_of c < 2 ^ 64" by auto
    from step(2) [OF this] False show ?thesis
      by (simp add: base_def strtoul_loop_stop [OF e])
  qed
next
  case (Cons c1 cs)
  then have c: "is_digit_in b c" and m: "m s = c1" "chars_at m (s + 1) (cs @ [e])"
    and cs: "\<forall>x \<in> set (c1 # cs). is_digit_in b x" by simp_all
  note step = strtoul_loop_step [OF b c, folded base_def, folded cutoff_def cutlim_def]
  note IH = Cons.IH [OF m(2) cs Cons.prems(3)]
  show ?case
  proof (cases "conv < 0 \<or> 2 ^ 64 \<le> unat acc * b + digit_of c")
    case True
    have "conv < 0 \<or> 2 ^ 64 \<le> number_from b (unat acc) (c # c1 # cs)"
      using True number_from_ge [of b "unat acc * b + digit_of c" "c1 # cs"] b by auto
    with step(1) [OF True] IH [of acc "- 1"] show ?thesis by (auto simp: m(1) add_ac)
  next
    case False
    then have v: "0 \<le> conv" "unat acc * b + digit_of c < 2 ^ 64" by auto
    define w where "w = (of_nat (unat acc * b + digit_of c) :: u64)"
    have w: "unat w = unat acc * b + digit_of c" unfolding w_def using v(2) by (rule unat_of_nat64)
    obtain acc' conv' where
      run: "strtoul_loop m base cutoff cutlim c1 (s + 1) w 1
              = Some (acc', conv', s + 1 + of_nat (length cs) + 1)"
      and res: "if 2 ^ 64 \<le> number_from b (unat w) (c1 # cs) then conv' < 0
        else 0 < conv' \<and> acc' = of_nat (number_from b (unat w) (c1 # cs))"
      using IH [of w 1] by auto
    have num: "number_from b (unat w) (c1 # cs) = number_from b (unat acc) (c # c1 # cs)" by (simp add: w)
    have "strtoul_loop m base cutoff cutlim c s acc conv
            = Some (acc', conv', s + of_nat (length (c1 # cs)) + 1)"
      using step(2) [OF v, folded w_def, of m s] run by (simp add: m(1) add_ac)
    then show ?thesis using res v(1) unfolding num by auto
  qed
qed

lemma digit_value_simps:
  "digit_value 0 = None" "digit_value 0x78 = Some 33" "digit_value 0x58 = Some 33"
  "digit_value 0x2D = None" "digit_value 0x2B = None" "isspace c \<Longrightarrow> digit_value c = None"
  by (auto simp: digit_value_def isdigit_iff isalpha_iff isupper_iff isspace_iff)

lemma is_digit_in_not:
  "\<not> is_digit_in b 0" "is_digit_in b c \<Longrightarrow> \<not> isspace c"
  "is_digit_in b c \<Longrightarrow> c \<noteq> 0x2D \<and> c \<noteq> 0x2B"
  "\<not> is_digit_in 16 0x78" "\<not> is_digit_in 16 0x58"
  by (auto simp: is_digit_in_def digit_value_simps)

lemma cstr_chars_at: "cstr m p s \<Longrightarrow> chars_at m p (s @ [0])"
  by (induction s arbitrary: p) auto

lemma strtoul_sign_digit:
  "is_digit_in b c \<Longrightarrow> strtoul_sign m (c, s) = (False, c, s)"
  using is_digit_in_not(3) by (auto simp: strtoul_sign_def)

definition hex_prefix :: "nat \<Rightarrow> u8 list \<Rightarrow> bool" where
  "hex_prefix b pre \<longleftrightarrow> pre = [] \<or> b = 16 \<and> pre \<in> {[0x30, 0x78], [0x30, 0x58]}"

text \<open>The head of the number: the character and pointer with which the digit loop starts.\<close>

lemma strtoul_head:
  assumes b: "2 \<le> b" "b \<le> 36" and str: "cstr m p (pre @ c # cs)" and pre: "hex_prefix b pre"
    and digits: "\<forall>x \<in> set (c # cs). is_digit_in b x"
  shows "\<exists>c0. skip_space m p = Some (c0, p + 1) \<and> strtoul_sign m (c0, p + 1) = (False, c0, p + 1) \<and>
    strtoul_base m (int b) (c0, p + 1) = (int b, c, p + of_nat (length pre) + 1)"
proof (cases "pre = []")
  case True
  have c: "m p = c" "\<not> isspace c" "is_digit_in b c"
    using str digits is_digit_in_not(2) True by auto
  have "\<not> (b = 16 \<and> (m (p + 1) = 0x78 \<or> m (p + 1) = 0x58))"
    using str digits True is_digit_in_not by (cases cs) auto
  then have "strtoul_base m (int b) (c, p + 1) = (int b, c, p + 1)"
    using b by (auto simp: strtoul_base_def)
  with c True show ?thesis
    by (auto simp: strtoul_sign_digit skip_space.simps [of m p])
next
  case False
  then have p: "b = 16" "m p = 0x30" "m (p + 1) = 0x78 \<or> m (p + 1) = 0x58" "m (p + 2) = c" "length pre = 2"
    using str pre by (auto simp: hex_prefix_def add.assoc)
  have "strtoul_base m (int b) (0x30, p + 1) = (int b, c, p + 3)"
    using p by (auto simp: strtoul_base_def add.assoc)
  then show ?thesis using p
    by (simp add: strtoul_sign_def skip_space.simps [of m p] isspace_iff add.assoc)
qed

lemma strtoul_number_value:
  assumes b: "2 \<le> b" "b \<le> 36" and str: "cstr m p (pre @ cs)" and pre: "hex_prefix b pre"
    and digits: "cs \<noteq> []" "\<forall>x \<in> set cs. is_digit_in b x"
  shows "strtoul m p endptr (int b) =
    Some (if number_from b 0 cs < 2 ^ 64 then of_nat (number_from b 0 cs) else ULONG_MAX,
          if endptr \<noteq> 0 then store64 m endptr (p + of_nat (length (pre @ cs))) else m)"
proof -
  obtain c ds where cs: "cs = c # ds" using digits(1) by (cases cs) auto
  obtain c0 where head: "skip_space m p = Some (c0, p + 1)" "strtoul_sign m (c0, p + 1) = (False, c0, p + 1)"
    "strtoul_base m (int b) (c0, p + 1) = (int b, c, p + of_nat (length pre) + 1)"
    using strtoul_head [OF b str [unfolded cs] pre] digits(2) cs by auto
  have "chars_at m (p + of_nat (length pre)) (cs @ [0])"
    using cstr_chars_at [OF str] by (simp add: chars_at_append)
  then have chars: "chars_at m (p + of_nat (length pre) + 1) (ds @ [0])" by (simp add: cs)
  obtain acc conv where run: "strtoul_loop m (int b) (ULONG_MAX div word_of_int (int b))
      (sint (ucast (ULONG_MAX mod word_of_int (int b) :: u64) :: u32)) c (p + of_nat (length pre) + 1) 0 0
      = Some (acc, conv, p + of_nat (length pre) + 1 + of_nat (length ds) + 1)"
    and res: "if 2 ^ 64 \<le> number_from b 0 cs then conv < 0
              else 0 < conv \<and> acc = of_nat (number_from b 0 cs)"
    using strtoul_loop_digits [OF b chars _ is_digit_in_not(1), of c 0 0] digits(2) cs by auto
  show ?thesis
    using res unfolding strtoul_def head(1) Option.bind.simps Let_def head(2) prod.case head(3) run
    by (cases "2 ^ 64 \<le> number_from b 0 cs") (auto simp: cs add_ac)
qed

section \<open>Properties\<close>

text \<open>
  The character tests of \<open>ctype.h\<close>, which look bits up in the 257-entry table, are the ASCII
  ranges.
\<close>

lemma ctype_ranges:
  "(isdigit c \<longleftrightarrow> 48 \<le> unat c \<and> unat c \<le> 57) \<and>
   (isspace c \<longleftrightarrow> (9 \<le> unat c \<and> unat c \<le> 13) \<or> unat c = 32) \<and>
   (isupper c \<longleftrightarrow> 65 \<le> unat c \<and> unat c \<le> 90) \<and>
   (islower c \<longleftrightarrow> 97 \<le> unat c \<and> unat c \<le> 122) \<and>
   (isalpha c \<longleftrightarrow> isupper c \<or> islower c) \<and>
   (isxdigit c \<longleftrightarrow> isdigit c \<or> (65 \<le> unat c \<and> unat c \<le> 70) \<or> (97 \<le> unat c \<and> unat c \<le> 102)) \<and>
   (isprint c \<longleftrightarrow> (9 \<le> unat c \<and> unat c \<le> 13) \<or> (32 \<le> unat c \<and> unat c \<le> 126))"
  by (simp add: isdigit_iff isspace_iff isupper_iff islower_iff isalpha_iff isxdigit_iff isprint_iff)

text \<open>
  \<open>strcmp\<close> on two NUL-terminated strings returns, with the sign of their lexicographic order by
  unsigned bytes; zero exactly when they are equal.
\<close>

lemma strcmp_order:
  assumes "cstr m p s" and "cstr m q t"
  shows "\<exists>r. strcmp m p q = Some r \<and> (r = 0 \<longleftrightarrow> s = t) \<and> (r < 0 \<longleftrightarrow> s < t)"
  using strcmp_cstr [OF assms] .

definition demo_str :: mem where
  "demo_str x = (if x = 0x10 then 0x66 else if x = 0x11 then 0x66 else if x = 0x20 then 0x80 else 0)"

lemma strcmp_order_witness: "\<exists>r. strcmp demo_str 0x10 0x20 = Some r \<and> r < 0"
proof -
  have "cstr demo_str 0x10 [0x66, 0x66]" "cstr demo_str 0x20 [0x80]" by (simp_all add: demo_str_def)
  from strcmp_order [OF this] show ?thesis by auto
qed

text \<open>
  \<open>strncpy\<close> to a buffer that does not overlap the string writes exactly \<open>n\<close> bytes: the string,
  cut at \<open>n\<close>, and then zeros; with \<open>n\<close> at most the length of the string there is no terminator.
\<close>

lemma strncpy_effect:
  assumes "cstr m src s" and "\<And>x. in_range dst (unat n) x \<Longrightarrow> \<not> in_range src (Suc (length s)) x"
  shows "fst (strncpy m dst src n) = dst \<and>
    snd (strncpy m dst src n) x =
      (if in_range dst (unat n) x then if unat (x - dst) < length s then s ! unat (x - dst) else 0 else m x)"
  using strncpy_loop_cstr [OF assms] unat_less64 [of n] by (simp add: strncpy_def)

lemma strncpy_effect_witness:
  "snd (strncpy demo_str 0x30 0x10 4) 0x31 = 0x66 \<and> snd (strncpy demo_str 0x30 0x10 2) 0x31 \<noteq> 0"
proof -
  have str: "cstr demo_str 0x10 [0x66, 0x66]" by (simp add: demo_str_def)
  have len: "Suc (length [0x66, 0x66 :: u8]) = 3" by simp
  have *: "\<not> in_range 0x10 3 x" if "in_range 0x30 4 x" for x
    using that disjoint_ranges_not_both [of "0x30" 4 "0x10" 3] by (auto simp: disjoint_ranges_def)
  have apart: "\<not> in_range 0x10 (Suc (length [0x66, 0x66 :: u8])) x"
    if "in_range 0x30 (unat n) x" "unat n \<le> 4" for x n :: u64
    unfolding len using that in_range_mono [of "0x30" "unat n" x 4] * by blast
  have "fst (strncpy demo_str 0x30 0x10 n) = 0x30 \<and> snd (strncpy demo_str 0x30 0x10 n) 0x31 =
      (if in_range 0x30 (unat n) 0x31
       then if unat (0x31 - 0x30 :: addr) < length [0x66, 0x66 :: u8]
            then [0x66, 0x66] ! unat (0x31 - 0x30 :: addr) else 0
       else demo_str 0x31)" if "unat n \<le> 4" for n
    by (rule strncpy_effect [OF str]) (use apart that in blast)
  from this [of 4] this [of 2] show ?thesis by (simp add: in_range_def)
qed

text \<open>
  C34: \<open>strtoul\<close> on a string that is a number in base 2 to 36 (with an optional 0x before a
  hexadecimal one) returns its value, or \<open>ULONG_MAX\<close> when it does not fit in 64 bits, and stores
  the end of the number through a non-null \<open>endptr\<close>.
\<close>

theorem strtoul_number:
  assumes "2 \<le> b" and "b \<le> 36" and "cstr m p (pre @ cs)" and "hex_prefix b pre"
    and "cs \<noteq> []" and "\<forall>x \<in> set cs. is_digit_in b x"
  shows "strtoul m p endptr (int b) =
    Some (if number_from b 0 cs < 2 ^ 64 then of_nat (number_from b 0 cs) else ULONG_MAX,
          if endptr \<noteq> 0 then store64 m endptr (p + of_nat (length (pre @ cs))) else m)"
  using strtoul_number_value [OF assms] .

theorem strtoul_number_witness: "strtoul demo_str 0x10 0 16 = Some (255, demo_str)"
proof -
  have "cstr demo_str 0x10 ([] @ [0x66, 0x66])" by (simp add: demo_str_def)
  moreover have v: "digit_value 0x66 = Some 15"
    by (simp add: digit_value_def isdigit_iff isalpha_iff isupper_iff)
  ultimately show ?thesis
    using strtoul_number [of 16 demo_str "0x10" "[]" "[0x66, 0x66]" 0]
    by (simp add: hex_prefix_def is_digit_in_def digit_of_def)
qed

text \<open>
  \<open>strchr\<close> on a NUL-terminated string returns the first place of the character, the terminator
  when that is asked for, and the null pointer when the character does not occur.
\<close>

lemma strchr_first:
  assumes "cstr m p s"
  shows "strchr m p (sint c) = Some (if c \<in> set s \<or> c = 0
     then Some (p + of_nat (length (takeWhile (\<lambda>x. x \<noteq> c) s))) else None)"
  using strchr_cstr [OF assms] .

lemma strchr_first_witness: "strchr demo_str 0x10 (sint (0 :: u8)) = Some (Some 0x12)"
proof -
  have "cstr demo_str 0x10 [0x66, 0x66]" by (simp add: demo_str_def)
  from strchr_first [OF this, of 0] show ?thesis by simp
qed

end
