(* ===== verification/Cmdline.thy ===== *)
theory Cmdline
  imports C_Strings
begin

text \<open>
  The command line options of \<open>pre_os/xmon_loader/utils/string/cmdline.c\<close>: a table of fixed-size
  entries (64 bytes of name, 64 bytes of value; an empty name ends it), the lookup of a value and
  the parser that fills the values in. The string literal the parser copies is read from memory at
  the address \<open>lit\<close>.
\<close>

definition XMON_LOADER_SUCCESS :: u32 where "XMON_LOADER_SUCCESS = 0"
definition XMON_STRING_INVALID_PARAMETER :: u32 where "XMON_STRING_INVALID_PARAMETER = 0xB000DEAD"
definition XMON_CMDLINE_VALUE_STRING_LEN_TOO_LARGE :: u32 where
  "XMON_CMDLINE_VALUE_STRING_LEN_TOO_LARGE = 0xB001DEAD"

definition MAX_CMDLINE_NAME_STRING_LEN :: nat where "MAX_CMDLINE_NAME_STRING_LEN = 64"
definition MAX_CMDLINE_VALUE_STRING_LEN :: nat where "MAX_CMDLINE_VALUE_STRING_LEN = 64"

definition CMD_OPTION_PRESENT_BUT_NO_VALUE :: "u8 list" where
  "CMD_OPTION_PRESENT_BUT_NO_VALUE = [0x4F, 0x50, 0x54, 0x49, 0x4F, 0x4E, 0x4F, 0x4E, 0x4C, 0x59]"

text \<open>The entry \<open>cmdoptions[i]\<close>; its value string lies behind its name.\<close>

definition option_entry :: "addr \<Rightarrow> u32 \<Rightarrow> addr" where
  "option_entry cmdoptions i =
     cmdoptions + ucast i * of_nat (MAX_CMDLINE_NAME_STRING_LEN + MAX_CMDLINE_VALUE_STRING_LEN)"

definition def_val_str :: "addr \<Rightarrow> addr" where
  "def_val_str entry = entry + of_nat MAX_CMDLINE_NAME_STRING_LEN"

section \<open>Looking up a value\<close>

partial_function (option) find_value :: "mem \<Rightarrow> addr \<Rightarrow> addr \<Rightarrow> u32 \<Rightarrow> addr option" where
  "find_value m cmdline para_name i =
     (if m (option_entry cmdline i) = 0 then Some 0
      else Option.bind (strcmp m para_name (option_entry cmdline i)) (\<lambda>r.
        if r = 0 then Some (def_val_str (option_entry cmdline i))
        else find_value m cmdline para_name (i + 1)))"

definition get_cmdline_value_str :: "mem \<Rightarrow> addr \<Rightarrow> addr \<Rightarrow> addr option" where
  "get_cmdline_value_str m cmdline para_name =
     (if cmdline = 0 \<or> para_name = 0 then Some 0 else find_value m cmdline para_name 0)"

section \<open>Parsing\<close>

partial_function (option) skip_white :: "mem \<Rightarrow> addr \<Rightarrow> addr option" where
  "skip_white m p = (if isspace (m p) then skip_white m (p + 1) else Some p)"

text \<open>The first entry whose name agrees with the option on \<open>n\<close> bytes; null when there is none.\<close>

partial_function (option) match_option :: "mem \<Rightarrow> addr \<Rightarrow> addr \<Rightarrow> u64 \<Rightarrow> u32 \<Rightarrow> addr option" where
  "match_option m cmdoptions opt_start n i =
     (if m (option_entry cmdoptions i) = 0 then Some 0
      else if strncmp m (option_entry cmdoptions i) opt_start n = 0
      then Some (option_entry cmdoptions i)
      else match_option m cmdoptions opt_start n (i + 1))"

definition mark_present :: "addr \<Rightarrow> mem \<Rightarrow> addr \<Rightarrow> mem option" where
  "mark_present lit m entry =
     (if entry = 0 then Some m
      else map_option (\<lambda>n. snd (strncpy m (def_val_str entry) lit (n + 1))) (strlen m lit))"

definition set_value :: "mem \<Rightarrow> addr \<Rightarrow> addr \<Rightarrow> u32 \<Rightarrow> mem" where
  "set_value m entry val_start copy_size =
     (if entry = 0 then m
      else (snd (strncpy m (def_val_str entry) val_start (ucast copy_size)))
             (def_val_str entry + ucast copy_size := 0))"

text \<open>The end of the option at \<open>p\<close>: the next space or the end of the string.\<close>

definition option_end :: "mem \<Rightarrow> addr \<Rightarrow> addr option" where
  "option_end m opt_start =
     Option.bind (strchr m opt_start (sint (0x20 :: u8))) (\<lambda>r. case r of
        Some e \<Rightarrow> Some e
      | None \<Rightarrow> map_option (\<lambda>n. opt_start + n) (strlen m opt_start))"

text \<open>One option: the status to stop with (none to go on) and the memory.\<close>

definition parse_option :: "addr \<Rightarrow> mem \<Rightarrow> addr \<Rightarrow> addr \<Rightarrow> addr \<Rightarrow> (u32 option \<times> mem) option" where
  "parse_option lit m cmdoptions opt_start opt_end =
     Option.bind (strchr m opt_start (sint (0x3D :: u8))) (\<lambda>r.
       if r = None \<or> the r > opt_end then
         Option.bind (match_option m cmdoptions opt_start (opt_end - opt_start) 0) (\<lambda>entry.
           map_option (\<lambda>m. (None, m)) (mark_present lit m entry))
       else
         let val_start = the r + 1;
             opt_name_size = ucast (val_start - opt_start - 1) :: u32;
             copy_size = ucast (opt_end - val_start) :: u32
         in if unat copy_size > MAX_CMDLINE_VALUE_STRING_LEN - 1
            then Some (Some XMON_CMDLINE_VALUE_STRING_LEN_TOO_LARGE, m)
            else if opt_name_size = 0 \<or> copy_size = 0 then Some (None, m)
            else map_option (\<lambda>entry. (None, set_value m entry val_start copy_size))
                   (match_option m cmdoptions opt_start (ucast opt_name_size) 0))"

partial_function (option) parse_loop :: "addr \<Rightarrow> mem \<Rightarrow> addr \<Rightarrow> addr \<Rightarrow> (u32 \<times> mem) option" where
  "parse_loop lit m p cmdoptions =
     Option.bind (skip_white m p) (\<lambda>opt_start.
       if m opt_start = 0 then Some (XMON_LOADER_SUCCESS, m)
       else Option.bind (option_end m opt_start) (\<lambda>opt_end.
         Option.bind (parse_option lit m cmdoptions opt_start opt_end) (\<lambda>r. case r of
           (Some status, m) \<Rightarrow> Some (status, m)
         | (None, m) \<Rightarrow> parse_loop lit m opt_end cmdoptions)))"

definition parse_cmdline :: "addr \<Rightarrow> mem \<Rightarrow> addr \<Rightarrow> addr \<Rightarrow> (u32 \<times> mem) option" where
  "parse_cmdline lit m cmdline cmdoptions =
     (if cmdline = 0 \<or> cmdoptions = 0 then Some (XMON_STRING_INVALID_PARAMETER, m)
      else parse_loop lit m cmdline cmdoptions)"

section \<open>Option tables in memory\<close>

fun option_table :: "mem \<Rightarrow> addr \<Rightarrow> u32 \<Rightarrow> u8 list list \<Rightarrow> bool" where
  "option_table m opts i [] \<longleftrightarrow> m (option_entry opts i) = 0"
| "option_table m opts i (nm # nms) \<longleftrightarrow>
     nm \<noteq> [] \<and> cstr m (option_entry opts i) nm \<and> option_table m opts (i + 1) nms"

lemma find_value_table:
  "option_table m opts i names \<Longrightarrow> cstr m para s \<Longrightarrow>
   find_value m opts para i =
     Some (if s \<in> set names
           then def_val_str (option_entry opts (i + of_nat (length (takeWhile (\<lambda>x. x \<noteq> s) names)))) else 0)"
proof (induction names arbitrary: i)
  case Nil
  then show ?case by (simp add: find_value.simps [of m opts para i])
next
  case (Cons nm nms)
  then have nm: "nm \<noteq> []" "cstr m (option_entry opts i) nm" "option_table m opts (i + 1) nms" by simp_all
  then have "m (option_entry opts i) \<noteq> 0" by (cases nm) auto
  moreover obtain r where "strcmp m para (option_entry opts i) = Some r" "r = 0 \<longleftrightarrow> s = nm"
    using strcmp_cstr [OF Cons.prems(2) nm(2)] by blast
  ultimately show ?case
    using Cons.IH [OF nm(3) Cons.prems(2)] by (subst find_value.simps) (auto simp: add.assoc)
qed

text \<open>The bytes \<open>n\<close> of the option decide; the name may go on.\<close>

lemma match_option_table:
  "option_table m opts i names \<Longrightarrow> cstr m opt s \<Longrightarrow>
   match_option m opts opt n i =
     Some (if \<exists>nm \<in> set names. take (unat n) nm = take (unat n) s
           then option_entry opts (i + of_nat (length (takeWhile (\<lambda>nm. take (unat n) nm \<noteq> take (unat n) s) names)))
           else 0)"
proof (induction names arbitrary: i)
  case Nil
  then show ?case by (simp add: match_option.simps [of m opts opt n i])
next
  case (Cons nm nms)
  then have nm: "nm \<noteq> []" "cstr m (option_entry opts i) nm" "option_table m opts (i + 1) nms" by simp_all
  then have "m (option_entry opts i) \<noteq> 0" by (cases nm) auto
  moreover have "strncmp m (option_entry opts i) opt n = 0 \<longleftrightarrow> take (unat n) nm = take (unat n) s"
    using strncmp_loop_cstr [OF nm(2) Cons.prems(2)] by (simp add: strncmp_def)
  ultimately show ?case
    using Cons.IH [OF nm(3) Cons.prems(2)] by (subst match_option.simps) (auto simp: add.assoc)
qed

lemma skip_white_cstr:
  "cstr m p s \<Longrightarrow> skip_white m p = Some (p + of_nat (length (takeWhile isspace s)))"
proof (induction s arbitrary: p)
  case Nil
  then show ?case by (simp add: skip_white.simps [of m p] isspace_iff)
next
  case (Cons c s)
  then show ?case by (auto simp: skip_white.simps [of m p] add.assoc)
qed

section \<open>One option with a value\<close>

text \<open>The slot of the first table entry that agrees with the option name on the option's length.\<close>

definition matching_slot :: "addr \<Rightarrow> u8 list list \<Rightarrow> u8 list \<Rightarrow> addr" where
  "matching_slot opts names nm =
     def_val_str (option_entry opts (of_nat (length (takeWhile (\<lambda>x. take (length nm) x \<noteq> nm) names))))"

lemma set_value_effect:
  assumes v: "cstr m q (v @ rest)" "length v < 64" and e: "entry \<noteq> 0"
    and apart: "\<And>x. in_range (def_val_str entry) 64 x \<Longrightarrow> \<not> in_range q (Suc (length (v @ rest))) x"
  shows "cstr (set_value m entry q (of_nat (length v))) (def_val_str entry) v"
    and "\<not> in_range (def_val_str entry) (Suc (length v)) x \<Longrightarrow> set_value m entry q (of_nat (length v)) x = m x"
proof -
  let ?d = "def_val_str entry" and ?n = "length v"
  have n: "unat (ucast (of_nat ?n :: u32) :: u64) = ?n"
    using v(2) by (simp add: unat_ucast_up unat_of_nat take_bit_nat_eq_self)
  then have n64: "(ucast (of_nat ?n :: u32) :: u64) = of_nat ?n"
    by (metis of_nat_unat unsigned_ucast_eq ucast_id)
  have copy: "snd (strncpy m ?d q (of_nat ?n)) x = (if in_range ?d ?n x then v ! unat (x - ?d) else m x)" for x
  proof -
    have un: "unat (of_nat ?n :: u64) = ?n" using v(2) by (simp add: unat_of_nat64)
    have "\<not> in_range q (Suc (length (v @ rest))) y" if "in_range ?d ?n y" for y
      using apart that v(2) in_range_mono by (meson less_imp_le)
    from strncpy_loop_cstr [OF v(1) this] v(2) show ?thesis
      by (auto simp: strncpy_def un in_range_def nth_append)
  qed
  have set: "set_value m entry q (of_nat ?n) x =
      (if x = ?d + of_nat ?n then 0 else if in_range ?d ?n x then v ! unat (x - ?d) else m x)" for x
    using e by (simp add: set_value_def n64 copy)
  show "cstr (set_value m entry q (of_nat ?n)) ?d v"
  proof (rule cstrI)
    show "0 \<notin> set v" using cstr_nonzero [OF v(1)] by simp
    show "set_value m entry q (of_nat ?n) (?d + of_nat (length v)) = 0" by (simp add: set)
    fix i assume i: "i < ?n"
    have un: "unat (of_nat i :: u64) = i" "unat (of_nat ?n :: u64) = ?n"
      using i v(2) by (simp_all add: unat_of_nat64)
    then have "(of_nat i :: u64) \<noteq> of_nat ?n" using i by (metis nat_neq_iff)
    then show "set_value m entry q (of_nat ?n) (?d + of_nat i) = v ! i"
      using i un by (simp add: set in_range_def)
  qed
  assume x: "\<not> in_range ?d (Suc ?n) x"
  have "unat (of_nat ?n :: u64) = ?n" using v(2) by (simp add: unat_of_nat64)
  then have "x \<noteq> ?d + of_nat ?n" "\<not> in_range ?d ?n x"
    using x by (auto simp: in_range_def)
  then show "set_value m entry q (of_nat ?n) x = m x" by (simp add: set)
qed

lemma parse_option_value:
  assumes str: "cstr m p (nm @ 0x3D # v @ rest)" and nowrap: "unat p + length (nm @ 0x3D # v @ rest) < 2 ^ 64"
    and nm: "0x3D \<notin> set nm" "length nm < 2 ^ 32" "length v < 2 ^ 32"
  shows "parse_option lit m opts p (p + of_nat (length (nm @ 0x3D # v))) =
    (if length v > 63 then Some (Some XMON_CMDLINE_VALUE_STRING_LEN_TOO_LARGE, m)
     else if nm = [] \<or> v = [] then Some (None, m)
     else map_option (\<lambda>entry. (None, set_value m entry (p + of_nat (length nm) + 1) (of_nat (length v))))
            (match_option m opts p (of_nat (length nm)) 0))"
proof -
  have eq: "strchr m p (sint (0x3D :: u8)) = Some (Some (p + of_nat (length nm)))"
    using strchr_cstr [OF str, of "0x3D"] nm(1) by (auto simp: takeWhile_append)
  have "unat (p + of_nat (length nm)) = unat p + length nm"
    "unat (p + of_nat (length (nm @ 0x3D # v))) = unat p + length (nm @ 0x3D # v)"
    using nowrap by (intro unat_add_offset; simp)+
  then have before: "\<not> p + of_nat (length (nm @ 0x3D # v)) < p + of_nat (length nm)"
    by (simp add: word_less_nat_alt del: of_nat_add)
  have u: "(ucast (of_nat n :: u64) :: u32) = of_nat n" "unat (of_nat n :: u32) = n" "(ucast (of_nat n :: u32) :: u64) = of_nat n"
    if "n < 2 ^ 32" for n
  proof -
    show 32: "unat (of_nat n :: u32) = n" using that by (rule unat_of_nat32)
    have 64: "unat (of_nat n :: u64) = n" using that by (intro unat_of_nat64) simp
    show "(ucast (of_nat n :: u64) :: u32) = of_nat n" using that
      by (simp add: word_unat_eq_iff unsigned_ucast_eq unsigned_take_bit_eq 32 64 take_bit_nat_eq_self)
    show "(ucast (of_nat n :: u32) :: u64) = of_nat n" by (simp add: word_unat_eq_iff unat_ucast_up 32 64)
  qed
  have d: "p + of_nat (length nm) + 1 - p - 1 = of_nat (length nm)"
    "p + of_nat (length (nm @ 0x3D # v)) - (p + of_nat (length nm) + 1) = of_nat (length v)" by simp_all
  have z: "(of_nat (length nm) :: u32) = 0 \<longleftrightarrow> nm = []" "(of_nat (length v) :: u32) = 0 \<longleftrightarrow> v = []"
    using u(2) [OF nm(2)] u(2) [OF nm(3)] by (auto simp: word_unat_eq_iff)
  show ?thesis
    unfolding parse_option_def eq Option.bind.simps Let_def option.sel d u(1) [OF nm(2)] u(1) [OF nm(3)] u(2) [OF nm(3)]
      u(3) [OF nm(2)] z
    using before by (simp add: MAX_CMDLINE_VALUE_STRING_LEN_def)
qed

lemma parse_option_plain:
  assumes str: "cstr m p (tok @ rest)" and nowrap: "unat p + length (tok @ rest) < 2 ^ 64"
    and tok: "0x3D \<notin> set tok" "takeWhile (\<lambda>x. x \<noteq> 0x20) rest = []"
  shows "parse_option lit m opts p (p + of_nat (length tok)) =
    Option.bind (match_option m opts p (of_nat (length tok)) 0) (\<lambda>entry. map_option (\<lambda>m. (None, m)) (mark_present lit m entry))"
proof -
  define k where "k = length (takeWhile (\<lambda>x. x \<noteq> 0x3D) rest)"
  have eq: "strchr m p (sint (0x3D :: u8)) = Some (if 0x3D \<in> set rest then Some (p + of_nat (length tok + k)) else None)"
    using strchr_cstr [OF str, of "0x3D"] tok(1) by (auto simp: takeWhile_append k_def)
  have later: "p + of_nat (length tok + k) > p + of_nat (length tok)" if "0x3D \<in> set rest"
  proof -
    have "0 < k" using that tok(2) by (cases rest) (auto simp: k_def split: if_splits)
    moreover have "k \<le> length rest" unfolding k_def by (rule length_takeWhile_le)
    moreover have "unat (p + of_nat (length tok)) = unat p + length tok" using nowrap by (intro unat_add_offset) simp
    moreover have "unat (p + of_nat (length tok + k)) = unat p + (length tok + k)"
      using nowrap \<open>k \<le> length rest\<close> by (intro unat_add_offset) simp
    ultimately show ?thesis by (simp add: word_less_nat_alt del: of_nat_add)
  qed
  have "p + of_nat (length tok) - p = of_nat (length tok)" by simp
  with later show ?thesis unfolding parse_option_def eq Option.bind.simps by (auto simp del: of_nat_add)
qed

lemma option_end_token:
  assumes "cstr m p (tok @ rest)" and "0x20 \<notin> set tok" and "takeWhile (\<lambda>x. x \<noteq> 0x20) rest = []"
  shows "option_end m p = Some (p + of_nat (length tok))"
proof (cases rest)
  case Nil
  then show ?thesis using strchr_cstr [OF assms(1), of "0x20"] strlen_cstr [OF assms(1)] assms(2)
    by (simp add: option_end_def)
next
  case (Cons c cs)
  then have "c = 0x20" using assms(3) by (simp split: if_splits)
  then have "takeWhile (\<lambda>x. x \<noteq> 0x20) (tok @ rest) = tok" using assms(2) Cons by (subst takeWhile_append2) auto
  then show ?thesis using strchr_cstr [OF assms(1), of "0x20"] Cons \<open>c = 0x20\<close> by (simp add: option_end_def)
qed

lemma mark_present_effect:
  assumes lit: "cstr m lit CMD_OPTION_PRESENT_BUT_NO_VALUE" and e: "entry \<noteq> 0"
    and apart: "\<And>x. in_range (def_val_str entry) 64 x \<Longrightarrow> \<not> in_range lit 11 x"
  shows "\<exists>m'. mark_present lit m entry = Some m' \<and> cstr m' (def_val_str entry) CMD_OPTION_PRESENT_BUT_NO_VALUE \<and>
    (\<forall>x. \<not> in_range (def_val_str entry) 64 x \<longrightarrow> m' x = m x)"
proof -
  let ?d = "def_val_str entry" and ?s = CMD_OPTION_PRESENT_BUT_NO_VALUE
  have len: "length ?s = 10" by (simp add: CMD_OPTION_PRESENT_BUT_NO_VALUE_def)
  have "\<not> in_range lit (Suc (length ?s)) x" if "in_range ?d 11 x" for x
    using apart in_range_mono [OF that, of 64] by (simp add: len)
  from strncpy_loop_cstr [OF lit this]
  have copy: "snd (strncpy m ?d lit 11) x = (if in_range ?d 11 x then (?s @ [0]) ! unat (x - ?d) else m x)" for x
    by (auto simp: strncpy_def len in_range_def nth_append)
  have "cstr (snd (strncpy m ?d lit 11)) ?d ?s"
  proof (rule cstrI)
    show "0 \<notin> set ?s" by (simp add: CMD_OPTION_PRESENT_BUT_NO_VALUE_def)
    show "snd (strncpy m ?d lit 11) (?d + of_nat (length ?s)) = 0"
      by (simp add: copy in_range_def len nth_append)
    show "snd (strncpy m ?d lit 11) (?d + of_nat i) = ?s ! i" if "i < length ?s" for i
      using that by (simp add: copy in_range_def len nth_append unat_of_nat64)
  qed
  moreover have "snd (strncpy m ?d lit 11) x = m x" if "\<not> in_range ?d 64 x" for x
    using that in_range_mono [of ?d 11 x 64] by (auto simp: copy)
  moreover have "mark_present lit m entry = Some (snd (strncpy m ?d lit 11))"
    using strlen_cstr [OF lit] e by (simp add: mark_present_def len)
  ultimately show ?thesis by blast
qed

lemma parse_one_option:
  assumes str: "cstr m cmd (nm @ 0x3D # v)" and nowrap: "unat cmd + length (nm @ 0x3D # v) < 2 ^ 64"
    and nm: "nm \<noteq> []" "\<forall>c \<in> set nm. \<not> isspace c \<and> c \<noteq> 0x3D" "length nm < 2 ^ 32"
    and v: "v \<noteq> []" "0x20 \<notin> set v" "length v < 64"
    and tab: "option_table m opts 0 names" "\<exists>x \<in> set names. take (length nm) x = nm"
    and e: "matching_slot opts names nm \<noteq> def_val_str 0"
    and apart: "\<And>x. in_range (matching_slot opts names nm) 64 x \<Longrightarrow>
                      \<not> in_range cmd (Suc (length (nm @ 0x3D # v))) x"
  shows "\<exists>m'. parse_loop lit m cmd opts = Some (XMON_LOADER_SUCCESS, m') \<and>
    cstr m' (matching_slot opts names nm) v \<and>
    (\<forall>x. \<not> in_range (matching_slot opts names nm) (Suc (length v)) x \<longrightarrow> m' x = m x)"
proof -
  let ?s = "nm @ 0x3D # v" and ?slot = "matching_slot opts names nm"
  define entry where
    "entry = option_entry opts (of_nat (length (takeWhile (\<lambda>x. take (length nm) x \<noteq> nm) names)))"
  have slot: "?slot = def_val_str entry" by (simp add: matching_slot_def entry_def)
  have sp: "0x20 \<notin> set ?s" using nm(2) v(2) by (auto simp: isspace_iff)
  have skip: "skip_white m cmd = Some cmd"
    using skip_white_cstr [OF str] nm by (cases nm) auto
  have start: "m cmd \<noteq> 0" using str nm(1) by (cases nm) auto
  have opt_end: "option_end m cmd = Some (cmd + of_nat (length ?s))"
    using strchr_cstr [OF str, of "0x20"] sp strlen_cstr [OF str] by (simp add: option_end_def)
  have len: "unat (of_nat (length nm) :: u64) = length nm" using nm(3) by (intro unat_of_nat64) simp
  have match: "match_option m opts cmd (of_nat (length nm)) 0 = Some entry"
    using match_option_table [OF tab(1) str, of "of_nat (length nm)"] tab(2) by (simp add: len entry_def)
  define q where "q = cmd + of_nat (length nm) + 1"
  have qv: "cstr m q v" using cstr_append [OF str] by (simp add: q_def)
  have ne: "entry \<noteq> 0" using e slot by (auto)
  have "in_range cmd (Suc (length ?s)) x" if "in_range q (Suc (length v)) x" for x
  proof -
    have "unat (of_nat (length nm) + 1 :: u64) = length nm + 1"
      using nowrap unat_of_nat64 [of "length nm + 1"] by (simp add: add.commute)
    then show ?thesis
      using in_range_sub [of cmd "of_nat (length nm) + 1" "Suc (length v)" x "Suc (length ?s)"] that nowrap
      by (simp add: q_def add.assoc)
  qed
  then have apart': "\<And>x. in_range (def_val_str entry) 64 x \<Longrightarrow> \<not> in_range q (Suc (length v)) x"
    using apart slot by metis
  define m' where "m' = set_value m entry q (of_nat (length v))"
  have eff: "cstr m' (def_val_str entry) v" "\<And>x. \<not> in_range (def_val_str entry) (Suc (length v)) x \<Longrightarrow> m' x = m x"
    using set_value_effect [of m q v "[]" entry] qv v(3) ne apart' by (simp_all add: m'_def)
  have opt: "parse_option lit m opts cmd (cmd + of_nat (length ?s)) = Some (None, m')"
    using parse_option_value [of m cmd nm v "[]" lit opts] str nowrap nm v match by (auto simp: q_def m'_def)
  have "m' (cmd + of_nat (length ?s)) = m (cmd + of_nat (length ?s))"
  proof (rule eff(2))
    have "in_range cmd (Suc (length ?s)) (cmd + of_nat (length ?s))"
      using nowrap by (subst in_range_offset) linarith+
    then show "\<not> in_range (def_val_str entry) (Suc (length v)) (cmd + of_nat (length ?s))"
      using apart [of "cmd + of_nat (length ?s)"] v(3) unfolding slot
      by (auto simp: in_range_def)
  qed
  then have stop: "m' (cmd + of_nat (length ?s)) = 0" using cstr_end [OF str] by simp
  have "parse_loop lit m' (cmd + of_nat (length ?s)) opts = Some (XMON_LOADER_SUCCESS, m')"
    using stop by (subst parse_loop.simps) (simp add: skip_white.simps [of m'] isspace_iff)
  then have "parse_loop lit m cmd opts = Some (XMON_LOADER_SUCCESS, m')"
    unfolding parse_loop.simps [of lit m cmd] skip opt_end opt Option.bind.simps if_not_P [OF start]
    by simp
  then show ?thesis using eff slot by auto
qed

section \<open>Properties\<close>

text \<open>
  \<open>get_cmdline_value_str\<close> returns the value string of the first table entry with exactly the
  given name, and null when no entry has it.
\<close>

lemma get_cmdline_value_str_lookup:
  assumes "option_table m opts 0 names" and "cstr m para s" and "opts \<noteq> 0" and "para \<noteq> 0"
  shows "get_cmdline_value_str m opts para =
     Some (if s \<in> set names
           then def_val_str (option_entry opts (of_nat (length (takeWhile (\<lambda>x. x \<noteq> s) names)))) else 0)"
  using find_value_table [OF assms(1,2)] assms(3,4) by (simp add: get_cmdline_value_str_def)

definition demo_options :: mem where
  "demo_options x = (if x = 0x1000 then 0x61 else if x = 0x1001 then 0x62            
     else if x = 0x1080 then 0x63
     else if x = 0x2000 then 0x61 else if x = 0x2001 then 0x3D else if x = 0x2002 then 0x37
     else if x = 0x3000 then 0x63 else 0)"

lemma demo_option_table: "option_table demo_options 0x1000 0 [[0x61, 0x62], [0x63]]"
  by (simp add: option_entry_def demo_options_def MAX_CMDLINE_NAME_STRING_LEN_def MAX_CMDLINE_VALUE_STRING_LEN_def)

lemma get_cmdline_value_str_lookup_witness:
  "get_cmdline_value_str demo_options 0x1000 0x3000 = Some 0x10C0"
proof -
  have "cstr demo_options 0x3000 [0x63]" by (simp add: demo_options_def)
  from get_cmdline_value_str_lookup [OF demo_option_table this] show ?thesis
    by (simp add: option_entry_def def_val_str_def MAX_CMDLINE_NAME_STRING_LEN_def MAX_CMDLINE_VALUE_STRING_LEN_def)
qed

text \<open>
  Parsing the single option \<open>name=value\<close> succeeds, puts the value into the slot of the first entry
  whose name agrees with the option on the option's own length, and changes nothing else: a proper
  prefix of an option's name sets that option.
\<close>

lemma parse_cmdline_one_option:
  assumes "cstr m cmd (nm @ 0x3D # v)" and "unat cmd + length (nm @ 0x3D # v) < 2 ^ 64"
    and "cmd \<noteq> 0" and "opts \<noteq> 0"
    and "nm \<noteq> []" and "\<forall>c \<in> set nm. \<not> isspace c \<and> c \<noteq> 0x3D" and "length nm < 2 ^ 32"
    and "v \<noteq> []" and "0x20 \<notin> set v" and "length v < 64"
    and "option_table m opts 0 names" and "\<exists>x \<in> set names. take (length nm) x = nm"
    and "matching_slot opts names nm \<noteq> def_val_str 0"
    and "\<And>x. in_range (matching_slot opts names nm) 64 x \<Longrightarrow> \<not> in_range cmd (Suc (length (nm @ 0x3D # v))) x"
  shows "\<exists>m'. parse_cmdline lit m cmd opts = Some (XMON_LOADER_SUCCESS, m') \<and>
    cstr m' (matching_slot opts names nm) v \<and>
    (\<forall>x. \<not> in_range (matching_slot opts names nm) (Suc (length v)) x \<longrightarrow> m' x = m x)"
  using parse_one_option [OF assms(1,2,5-14)] assms(3,4) by (simp add: parse_cmdline_def)

lemma parse_cmdline_one_option_witness:
  "\<exists>m'. parse_cmdline 0 demo_options 0x2000 0x1000 = Some (XMON_LOADER_SUCCESS, m') \<and> cstr m' 0x1040 [0x37]"
proof -
  have str: "cstr demo_options 0x2000 ([0x61] @ 0x3D # [0x37])" by (simp add: demo_options_def)
  have slot: "matching_slot 0x1000 [[0x61, 0x62], [0x63]] [0x61] = 0x1040"
    by (simp add: matching_slot_def option_entry_def def_val_str_def MAX_CMDLINE_NAME_STRING_LEN_def)
  have "\<not> in_range 0x2000 (Suc (length ([0x61] @ 0x3D # [0x37 :: u8]))) x" if "in_range 0x1040 64 x" for x
  proof -
    have "disjoint_ranges 0x1040 64 0x2000 (Suc (length ([0x61] @ 0x3D # [0x37 :: u8])))"
      by (simp add: disjoint_ranges_def)
    from disjoint_ranges_not_both [OF this that] show ?thesis by blast
  qed
  from parse_cmdline_one_option [OF str _ _ _ _ _ _ _ _ _ demo_option_table, unfolded slot, OF _ _ _ _ _ _ _ _ _ _ _ this, of 0]
  show ?thesis by (auto simp: isspace_iff def_val_str_def MAX_CMDLINE_NAME_STRING_LEN_def)
qed

end
