(* ===== verification/Cmdline_Table.thy ===== *)
theory Cmdline_Table
  imports Cmdline
begin

text \<open>
  The whole of \<open>parse_cmdline\<close>: a reference on lists of bytes, the shape of a table of options in memory, and the proof
  that for every command line the parser returns, keeps the table in that shape and does what the reference says.
\<close>

section \<open>The reference\<close>

text \<open>The value goes to the first option whose name begins like \<open>nm\<close>; there may be none.\<close>

definition put_option :: "u8 list list \<Rightarrow> u8 list \<Rightarrow> u8 list \<Rightarrow> u8 list list \<Rightarrow> u8 list list" where
  "put_option names nm v vals = vals[length (takeWhile (\<lambda>x. take (length nm) x \<noteq> nm) names) := v]"

definition set_option :: "u8 list list \<Rightarrow> u8 list \<Rightarrow> u8 list list \<Rightarrow> u8 list list option" where
  "set_option names tok vals =
     (let nm = takeWhile (\<lambda>x. x \<noteq> 0x3D) tok; v = tl (dropWhile (\<lambda>x. x \<noteq> 0x3D) tok) in
      if 0x3D \<notin> set tok then Some (put_option names tok CMD_OPTION_PRESENT_BUT_NO_VALUE vals)
      else if length v > 63 then None
      else if nm = [] \<or> v = [] then Some vals
      else Some (put_option names nm v vals))"

lemma token_nonempty:
  assumes "dropWhile isspace s = c # cs"
  shows "\<not> isspace c" and "c \<noteq> 0x20"
proof -
  show "\<not> isspace c" using assms by (metis hd_dropWhile list.distinct(1) list.sel(1))
  then show "c \<noteq> 0x20" by (auto simp: isspace_iff)
qed

function apply_cmdline :: "u8 list list \<Rightarrow> u8 list \<Rightarrow> u8 list list \<Rightarrow> u32 \<times> u8 list list" where
  "apply_cmdline names s vals =
     (let s = dropWhile isspace s in
      if s = [] then (XMON_LOADER_SUCCESS, vals)
      else case set_option names (takeWhile (\<lambda>x. x \<noteq> 0x20) s) vals of
        None \<Rightarrow> (XMON_CMDLINE_VALUE_STRING_LEN_TOO_LARGE, vals)
      | Some vals \<Rightarrow> apply_cmdline names (dropWhile (\<lambda>x. x \<noteq> 0x20) s) vals)"
  by pat_completeness auto

termination
proof (relation "measure (\<lambda>(names, s, vals). length s)")
  fix names s vals and t :: "u8 list" and vals' :: "u8 list list"
  assume t: "t = dropWhile isspace s" "t \<noteq> []"
  from t(2) obtain c cs where "t = c # cs" by (cases t) auto
  with t(1) have c: "dropWhile isspace s = c # cs" by simp
  have "length (dropWhile (\<lambda>x. x \<noteq> 0x20) t) < length t"
    using token_nonempty(2) [OF c] t(1) c length_dropWhile_le [of "\<lambda>x. x \<noteq> 0x20" cs] by simp
  also have "\<dots> \<le> length s" using t(1) by (simp add: length_dropWhile_le)
  finally show "((names, dropWhile (\<lambda>x. x \<noteq> 0x20) t, vals'), (names, s, vals)) \<in> measure (\<lambda>(names, s, vals). length s)" by simp
qed simp

declare apply_cmdline.simps [simp del]

section \<open>The table in memory\<close>

definition value_slot :: "addr \<Rightarrow> nat \<Rightarrow> addr" where
  "value_slot opts i = def_val_str (option_entry opts (of_nat i))"

definition table_ok :: "mem \<Rightarrow> addr \<Rightarrow> u8 list list \<Rightarrow> u8 list list \<Rightarrow> bool" where
  "table_ok m opts names vals \<longleftrightarrow>
     opts \<noteq> 0 \<and> length names < 2 ^ 31 \<and> unat opts + 128 * (length names + 1) \<le> 2 ^ 64 \<and> length vals = length names \<and>
     (\<forall>i < length names.
        names ! i \<noteq> [] \<and> length (names ! i) < 64 \<and> cstr m (option_entry opts (of_nat i)) (names ! i) \<and>
        length (vals ! i) < 64 \<and> cstr m (value_slot opts i) (vals ! i)) \<and>
     m (option_entry opts (of_nat (length names))) = 0"

definition in_slots :: "addr \<Rightarrow> nat \<Rightarrow> addr \<Rightarrow> bool" where
  "in_slots opts n x \<longleftrightarrow> (\<exists>i < n. in_range (value_slot opts i) 64 x)"

text \<open>The entries are consecutive; in unsigned addresses each is an interval.\<close>

lemma entry_address: "i < 2 ^ 32 \<Longrightarrow> option_entry opts (of_nat i) = opts + of_nat (128 * i)"
proof -
  assume "i < 2 ^ 32"
  then have "(ucast (of_nat i :: u32) :: u64) = of_nat i" by (simp add: word_unat_eq_iff unat_ucast_up unat_of_nat32 unat_of_nat64)
  then show ?thesis by (simp add: option_entry_def MAX_CMDLINE_NAME_STRING_LEN_def MAX_CMDLINE_VALUE_STRING_LEN_def mult.commute)
qed

lemma slot_address: "i < 2 ^ 32 \<Longrightarrow> value_slot opts i = opts + of_nat (128 * i + 64)"
  by (simp add: value_slot_def def_val_str_def entry_address MAX_CMDLINE_NAME_STRING_LEN_def)

lemma table_range:
  fixes opts :: addr
  assumes "unat opts + 128 * (n + 1) \<le> 2 ^ 64" and "a + k \<le> 128 * (n + 1)" and "0 < k"
  shows "in_range (opts + of_nat a) k x \<longleftrightarrow> unat opts + a \<le> unat x \<and> unat x < unat opts + a + k"
proof -
  have "unat (opts + of_nat a) = unat opts + a" using assms by (intro unat_add_offset) linarith
  moreover from this have "unat (opts + of_nat a) + k \<le> 2 ^ 64" using assms by linarith
  ultimately show ?thesis using in_range_linear [of "opts + of_nat a" k x] by simp
qed

lemma table_parts:
  assumes "table_ok m opts names vals" and "i < length names"
  shows "names ! i \<noteq> []" "length (names ! i) < 64" "cstr m (option_entry opts (of_nat i)) (names ! i)"
    "length (vals ! i) < 64" "cstr m (value_slot opts i) (vals ! i)"
  using assms by (simp_all add: table_ok_def)

lemma entry_nonzero:
  assumes "table_ok m opts names vals" and "i < length names"
  shows "option_entry opts (of_nat i) \<noteq> 0"
proof
  assume z: "option_entry opts (of_nat i) = 0"
  have "unat (opts + of_nat (128 * i)) = unat opts + 128 * i"
    using assms by (intro unat_add_offset) (auto simp: table_ok_def)
  then have "unat opts = 0" using z entry_address [of i opts] assms by (simp add: table_ok_def)
  then show False using assms(1) by (simp add: table_ok_def unat_eq_0)
qed

lemma option_tableI:
  "(\<And>i. i < length ns \<Longrightarrow> ns ! i \<noteq> [] \<and> cstr m (option_entry opts (k + of_nat i)) (ns ! i)) \<Longrightarrow>
   m (option_entry opts (k + of_nat (length ns))) = 0 \<Longrightarrow> option_table m opts k ns"
proof (induction ns arbitrary: k)
  case Nil
  then show ?case by simp
next
  case (Cons n ns)
  have "option_table m opts (k + 1) ns"
    using Cons.prems(1) [of "Suc i" for i] Cons.prems(2) by (intro Cons.IH) (auto simp: add.assoc)
  then show ?case using Cons.prems(1) [of 0] by simp
qed

lemma table_ok_option_table: "table_ok m opts names vals \<Longrightarrow> option_table m opts 0 names"
  by (rule option_tableI) (simp_all add: table_ok_def)

lemma table_ok_put:
  assumes tab: "table_ok m opts names vals" and i: "i < length names"
    and v: "cstr m' (value_slot opts i) v" "length v < 64" and same: "\<forall>x. \<not> in_range (value_slot opts i) 64 x \<longrightarrow> m' x = m x"
  shows "table_ok m' opts names (vals[i := v])"
proof -
  let ?n = "length names"
  have size: "unat opts + 128 * (?n + 1) \<le> 2 ^ 64" "?n < 2 ^ 31" "length vals = ?n" using tab by (simp_all add: table_ok_def)
  have i32: "j < 2 ^ 32" if "j \<le> ?n" for j using that size(2) by simp
  have apart: "m' x = m x"
    if "in_range (opts + of_nat a) k x" "0 < k" "a + k \<le> 128 * (?n + 1)" "a + k \<le> 128 * i + 64 \<or> 128 * i + 128 \<le> a" for a k x
  proof -
    have "\<not> in_range (value_slot opts i) 64 x"
    proof
      assume "in_range (value_slot opts i) 64 x"
      then have "unat opts + (128 * i + 64) \<le> unat x" "unat x < unat opts + (128 * i + 64) + 64"
        using table_range [OF size(1), of "128 * i + 64" 64 x] i i32 [of i] by (simp_all add: slot_address)
      then show False using that table_range [OF size(1) that(3,2), of x] by linarith
    qed
    with same show ?thesis by blast
  qed
  have "cstr m' (option_entry opts (of_nat j)) (names ! j)" if j: "j < ?n" for j
  proof -
    have "128 * j + Suc (length (names ! j)) \<le> 128 * i + 64 \<or> 128 * i + 128 \<le> 128 * j"
      "128 * j + Suc (length (names ! j)) \<le> 128 * (?n + 1)"
      using table_parts(2) [OF tab j] j by (cases "j \<le> i"; simp)+
    from apart [OF _ _ this(2,1)] have "cstr m' (opts + of_nat (128 * j)) (names ! j) = cstr m (opts + of_nat (128 * j)) (names ! j)"
      by (intro cstr_cong) blast
    then show ?thesis using table_parts(3) [OF tab j] unfolding entry_address [OF i32 [OF less_imp_le [OF j]]] by simp
  qed
  moreover have "cstr m' (value_slot opts j) (vals ! j)" if j: "j < ?n" "j \<noteq> i" for j
  proof -
    have "128 * j + 64 + Suc (length (vals ! j)) \<le> 128 * i + 64 \<or> 128 * i + 128 \<le> 128 * j + 64"
      "128 * j + 64 + Suc (length (vals ! j)) \<le> 128 * (?n + 1)"
      using table_parts(4) [OF tab j(1)] j by (cases "j < i"; simp)+
    from apart [OF _ _ this(2,1)]
    have "cstr m' (opts + of_nat (128 * j + 64)) (vals ! j) = cstr m (opts + of_nat (128 * j + 64)) (vals ! j)"
      by (intro cstr_cong) blast
    then show ?thesis using table_parts(5) [OF tab j(1)] unfolding slot_address [OF i32 [OF less_imp_le [OF j(1)]]] by simp
  qed
  moreover have "m' (option_entry opts (of_nat ?n)) = m (option_entry opts (of_nat ?n))"
    using i i32 [of ?n] by (intro apart [of "128 * ?n" 1]) (auto simp: entry_address in_range_def)
  ultimately show ?thesis using tab i v by (auto simp: table_ok_def nth_list_update)
qed

section \<open>The parser\<close>

text \<open>Where the option named \<open>nm\<close> goes: the entry that \<open>match_option\<close> finds, null when the reference has no place for it.\<close>

lemma match_option_put:
  fixes names :: "u8 list list"
  assumes tab: "table_ok m opts names vals" and str: "cstr m p (nm @ rest)" and len: "length nm < 2 ^ 32"
  defines "k \<equiv> length (takeWhile (\<lambda>x. take (length nm) x \<noteq> nm) names)"
  shows "match_option m opts p (of_nat (length nm)) 0 = Some (if k < length names then option_entry opts (of_nat k) else 0)"
proof -
  have "(\<exists>x \<in> set names. take (length nm) x = nm) \<longleftrightarrow> k < length names"
    unfolding k_def by (induction names) auto
  moreover have "unat (of_nat (length nm) :: u64) = length nm" using len by (intro unat_of_nat64) simp
  ultimately show ?thesis
    using match_option_table [OF table_ok_option_table [OF tab] str, of "of_nat (length nm)"] by (simp add: k_def)
qed

text \<open>What the parser may write, and what it must not.\<close>

definition slots_apart :: "addr \<Rightarrow> nat \<Rightarrow> addr \<Rightarrow> nat \<Rightarrow> bool" where
  "slots_apart opts n a k \<longleftrightarrow> (\<forall>x. in_slots opts n x \<longrightarrow> \<not> in_range a k x)"

definition keeps :: "addr \<Rightarrow> nat \<Rightarrow> mem \<Rightarrow> mem \<Rightarrow> bool" where
  "keeps opts n m m' \<longleftrightarrow> (\<forall>x. \<not> in_slots opts n x \<longrightarrow> m' x = m x)"

lemma keeps_cstr: "keeps opts n m m' \<Longrightarrow> slots_apart opts n p (Suc (length s)) \<Longrightarrow> cstr m' p s = cstr m p s"
  by (rule cstr_cong) (auto simp: keeps_def slots_apart_def)

lemma keeps_slot: "i < n \<Longrightarrow> \<forall>x. \<not> in_range (value_slot opts i) 64 x \<longrightarrow> m' x = m x \<Longrightarrow> keeps opts n m m'"
  by (auto simp: keeps_def in_slots_def)

lemma slots_apart_sub:
  "slots_apart opts n a k \<Longrightarrow> i + j \<le> k \<Longrightarrow> k \<le> 2 ^ 64 \<Longrightarrow> slots_apart opts n (a + of_nat i) j"
proof -
  assume ok: "slots_apart opts n a k" "i + j \<le> k" "k \<le> 2 ^ 64"
  have "unat (of_nat i :: addr) \<le> i" by (simp add: unat_of_nat)
  then have "unat (of_nat i :: addr) + j \<le> k" using ok(2) by linarith
  then show ?thesis using ok in_range_sub [of a "of_nat i" j _ k] by (auto simp: slots_apart_def)
qed

lemma keeps_refl: "keeps opts n m m"
  by (simp add: keeps_def)

text \<open>A value that lands in the slot that \<open>match_option\<close> found.\<close>

lemma put_in_slot:
  fixes nm :: "u8 list"
  assumes tab: "table_ok m opts names vals"
  defines "k \<equiv> length (takeWhile (\<lambda>x. take (length nm) x \<noteq> nm) names)"
  assumes k: "k < length names" and v: "cstr m' (value_slot opts k) v" "length v < 64"
    and same: "\<forall>x. \<not> in_range (value_slot opts k) 64 x \<longrightarrow> m' x = m x"
  shows "table_ok m' opts names (put_option names nm v vals)" and "keeps opts (length names) m m'"
  using table_ok_put [OF tab k v same] keeps_slot [OF k same] by (simp_all add: put_option_def k_def)

lemma put_nowhere:
  fixes nm :: "u8 list"
  assumes "table_ok m opts names vals" and "\<not> length (takeWhile (\<lambda>x. take (length nm) x \<noteq> nm) names) < length names"
  shows "put_option names nm v vals = vals"
  using assms by (simp add: put_option_def table_ok_def list_update_beyond)

text \<open>What the reference says of one token, and what the parser did.\<close>

definition token_done :: "addr \<Rightarrow> u8 list list \<Rightarrow> u8 list list \<Rightarrow> u8 list \<Rightarrow> mem \<Rightarrow> u32 option \<Rightarrow> mem \<Rightarrow> bool" where
  "token_done opts names vals tok m r m' \<longleftrightarrow> keeps opts (length names) m m' \<and>
    (case set_option names tok vals of
       None \<Rightarrow> r = Some XMON_CMDLINE_VALUE_STRING_LEN_TOO_LARGE \<and> table_ok m' opts names vals
     | Some vals' \<Rightarrow> r = None \<and> table_ok m' opts names vals')"

lemma parse_plain_token:
  assumes tab: "table_ok m opts names vals" and str: "cstr m p (tok @ rest)"
    and size: "unat p + length (tok @ rest) < 2 ^ 64" "length (tok @ rest) < 2 ^ 32"
    and tok: "takeWhile (\<lambda>x. x \<noteq> 0x20) rest = []"
    and lit: "cstr m lit CMD_OPTION_PRESENT_BUT_NO_VALUE"
    and apart: "slots_apart opts (length names) p (Suc (length (tok @ rest)))" "slots_apart opts (length names) lit 11"
    and False: "0x3D \<notin> set tok"
  shows "\<exists>r m'. parse_option lit m opts p (p + of_nat (length tok)) = Some (r, m') \<and> token_done opts names vals tok m r m'"
proof -
  let ?k = "length (takeWhile (\<lambda>x. take (length tok) x \<noteq> tok) names)"
  have set: "set_option names tok vals = Some (put_option names tok CMD_OPTION_PRESENT_BUT_NO_VALUE vals)"
    using False by (simp add: set_option_def Let_def)
  have len: "length tok < 2 ^ 32" using size(2) by simp
  note parse = parse_option_plain [OF str size(1) False tok, of lit opts] and match = match_option_put [OF tab str len]
  show ?thesis
  proof (cases "?k < length names")
    case True
    have "\<not> in_range lit 11 x" if "in_range (def_val_str (option_entry opts (of_nat ?k))) 64 x" for x
      using that apart(2) True by (auto simp: slots_apart_def in_slots_def value_slot_def)
    from mark_present_effect [OF lit entry_nonzero [OF tab True] this]
    obtain m' where m': "mark_present lit m (option_entry opts (of_nat ?k)) = Some m'"
        "cstr m' (value_slot opts ?k) CMD_OPTION_PRESENT_BUT_NO_VALUE" "\<forall>x. \<not> in_range (value_slot opts ?k) 64 x \<longrightarrow> m' x = m x"
      unfolding value_slot_def by blast
    have "length CMD_OPTION_PRESENT_BUT_NO_VALUE < 64" by (simp add: CMD_OPTION_PRESENT_BUT_NO_VALUE_def)
    from put_in_slot [OF tab True m'(2) this m'(3)] show ?thesis using True m'(1) by (simp add: parse match set token_done_def)
  next
    case False
    then show ?thesis using tab put_nowhere [OF tab False] by (simp add: parse match set mark_present_def keeps_refl token_done_def)
  qed
qed

lemma parse_value_token:
  assumes tab: "table_ok m opts names vals" and str: "cstr m p (tok @ rest)"
    and size: "unat p + length (tok @ rest) < 2 ^ 64" "length (tok @ rest) < 2 ^ 32"
    and apart: "slots_apart opts (length names) p (Suc (length (tok @ rest)))"
    and True: "0x3D \<in> set tok"
  shows "\<exists>r m'. parse_option lit m opts p (p + of_nat (length tok)) = Some (r, m') \<and> token_done opts names vals tok m r m'"
proof -
  define nm v where "nm = takeWhile (\<lambda>x. x \<noteq> 0x3D) tok" and "v = tl (dropWhile (\<lambda>x. x \<noteq> 0x3D) tok)"
  let ?k = "length (takeWhile (\<lambda>x. take (length nm) x \<noteq> nm) names)"
  have nm: "0x3D \<notin> set nm" unfolding nm_def by (auto dest: set_takeWhileD)
  have split: "tok = nm @ 0x3D # v"
  proof -
    have "dropWhile (\<lambda>x. x \<noteq> 0x3D) tok \<noteq> []" using True by (auto simp: dropWhile_eq_Nil_conv)
    then have "dropWhile (\<lambda>x. x \<noteq> 0x3D) tok = 0x3D # v" using hd_dropWhile [of "\<lambda>x. x \<noteq> 0x3D" tok] by (cases "dropWhile (\<lambda>x. x \<noteq> 0x3D) tok") (auto simp: v_def)
    then show ?thesis unfolding nm_def by (metis takeWhile_dropWhile_id)
  qed
  have str': "cstr m p (nm @ 0x3D # v @ rest)" using str split by simp
  have len: "length nm < 2 ^ 32" "length v < 2 ^ 32" "unat p + length (nm @ 0x3D # v @ rest) < 2 ^ 64"
    using size split by simp_all
  note parse = parse_option_value [OF str' len(3) nm len(1,2), of lit opts, folded split]
    and match = match_option_put [OF tab str' len(1)]
  have set: "set_option names tok vals = (if length v > 63 then None else if nm = [] \<or> v = [] then Some vals
      else Some (put_option names nm v vals))"
    using True by (simp add: set_option_def Let_def nm_def v_def)
  let ?q = "p + of_nat (length nm) + 1"
  consider "length v > 63" | "length v \<le> 63" "nm = [] \<or> v = []" | "length v \<le> 63" "nm \<noteq> []" "v \<noteq> []" "\<not> ?k < length names"
    | "length v \<le> 63" "nm \<noteq> []" "v \<noteq> []" "?k < length names" by linarith
  then show ?thesis
  proof cases
    case 4
    have "cstr m ?q (v @ rest)" using cstr_append [of m p nm "0x3D # v @ rest"] str' by simp
    moreover have "length v < 64" using 4 by simp
    moreover note entry_nonzero [OF tab 4(4)]
    moreover have "\<not> in_range ?q (Suc (length (v @ rest))) x" if "in_range (def_val_str (option_entry opts (of_nat ?k))) 64 x" for x
      using that slots_apart_sub [OF apart, of "length nm + 1" "Suc (length (v @ rest))"] 4(4) size(2) split
      by (auto simp: slots_apart_def in_slots_def value_slot_def algebra_simps)
    ultimately have m': "cstr (set_value m (option_entry opts (of_nat ?k)) ?q (of_nat (length v))) (value_slot opts ?k) v"
        "\<forall>x. \<not> in_range (value_slot opts ?k) 64 x \<longrightarrow>
           set_value m (option_entry opts (of_nat ?k)) ?q (of_nat (length v)) x = m x"
      using set_value_effect [of m ?q v rest "option_entry opts (of_nat ?k)"] in_range_mono [of "value_slot opts ?k" "Suc (length v)" _ 64]
      unfolding value_slot_def by auto
    from put_in_slot [OF tab 4(4) m'(1) \<open>length v < 64\<close> m'(2)] show ?thesis using 4 by (simp add: parse match set token_done_def)
  qed (use tab put_nowhere [OF tab, of nm v] in \<open>auto simp: parse match set set_value_def keeps_refl token_done_def\<close>)
qed

lemma takeWhile_of_dropWhile: "takeWhile P (dropWhile P xs) = []"
  by (induction xs) simp_all

lemma literal_size: "Suc (length CMD_OPTION_PRESENT_BUT_NO_VALUE) = 11"
  by (simp add: CMD_OPTION_PRESENT_BUT_NO_VALUE_def)

text \<open>A position in the command line: the string from there on, in bounds and apart from the slots.\<close>

definition line_at :: "addr \<Rightarrow> nat \<Rightarrow> mem \<Rightarrow> addr \<Rightarrow> u8 list \<Rightarrow> bool" where
  "line_at opts n m p s \<longleftrightarrow>
     cstr m p s \<and> unat p + length s < 2 ^ 64 \<and> length s < 2 ^ 32 \<and> slots_apart opts n p (Suc (length s))"

lemma line_at_append:
  assumes "line_at opts n m p (a @ b)" and "keeps opts n m m'"
  shows "line_at opts n m' (p + of_nat (length a)) b"
proof -
  have str: "cstr m p (a @ b)" "unat p + length (a @ b) < 2 ^ 64" "length (a @ b) < 2 ^ 32" "slots_apart opts n p (Suc (length (a @ b)))"
    using assms(1) by (simp_all add: line_at_def)
  then have far: "slots_apart opts n (p + of_nat (length a)) (Suc (length b))" by (intro slots_apart_sub [OF str(4)]) simp_all
  have "unat (p + of_nat (length a)) = unat p + length a" using str(2) by (intro unat_add_offset) simp
  moreover have "cstr m' (p + of_nat (length a)) b" using keeps_cstr [OF assms(2) far] cstr_append [OF str(1)] by blast
  ultimately show ?thesis using str far by (simp add: line_at_def)
qed

lemma line_at_token:
  assumes "line_at opts n m p s"
  shows "skip_white m p = Some (p + of_nat (length (takeWhile isspace s)))"
    and "line_at opts n m (p + of_nat (length (takeWhile isspace s))) (dropWhile isspace s)"
    and "m (p + of_nat (length (takeWhile isspace s))) = 0 \<longleftrightarrow> dropWhile isspace s = []"
proof -
  let ?q = "p + of_nat (length (takeWhile isspace s))"
  show "skip_white m p = Some ?q" using assms by (intro skip_white_cstr) (simp add: line_at_def)
  show q: "line_at opts n m ?q (dropWhile isspace s)"
    using line_at_append [of opts n m p "takeWhile isspace s" "dropWhile isspace s" m] assms by (simp add: keeps_refl)
  then show "m ?q = 0 \<longleftrightarrow> dropWhile isspace s = []" by (cases "dropWhile isspace s") (auto simp: line_at_def)
qed

lemma parse_token:
  assumes tab: "table_ok m opts names vals" and line: "line_at opts (length names) m p (tok @ rest)"
    and tok: "takeWhile (\<lambda>x. x \<noteq> 0x20) rest = []"
    and lit: "cstr m lit CMD_OPTION_PRESENT_BUT_NO_VALUE" "slots_apart opts (length names) lit 11"
  shows "\<exists>r m'. parse_option lit m opts p (p + of_nat (length tok)) = Some (r, m') \<and> token_done opts names vals tok m r m'"
proof -
  have str: "cstr m p (tok @ rest)" "unat p + length (tok @ rest) < 2 ^ 64" "length (tok @ rest) < 2 ^ 32"
    "slots_apart opts (length names) p (Suc (length (tok @ rest)))"
    using line unfolding line_at_def by blast+
  show ?thesis using parse_plain_token [OF tab str(1-3) tok lit(1) str(4) lit(2)] parse_value_token [OF tab str] by blast
qed

lemma parse_loop_applies:
  assumes "table_ok m opts names vals" and "line_at opts (length names) m p s"
    and "cstr m lit CMD_OPTION_PRESENT_BUT_NO_VALUE" and "slots_apart opts (length names) lit 11"
  shows "\<exists>m'. parse_loop lit m p opts = Some (fst (apply_cmdline names s vals), m') \<and>
    table_ok m' opts names (snd (apply_cmdline names s vals)) \<and> keeps opts (length names) m m'"
  using assms
proof (induction names s vals arbitrary: m p rule: apply_cmdline.induct)
  case (1 names s vals)
  let ?n = "length names" and ?t = "dropWhile isspace s" and ?p = "p + of_nat (length (takeWhile isspace s))"
  note start = line_at_token [OF 1(3)]
  show ?case
  proof (cases "?t = []")
    case True
    then show ?thesis using start 1(2) by (simp add: parse_loop.simps [of lit m p] apply_cmdline.simps [of names s] keeps_refl)
  next
    case ne: False
    let ?tok = "takeWhile (\<lambda>x. x \<noteq> 0x20) ?t" and ?rest = "dropWhile (\<lambda>x. x \<noteq> 0x20) ?t"
    have line: "line_at opts ?n m ?p (?tok @ ?rest)" using start(2) by simp
    have end_tok: "0x20 \<notin> set ?tok" "takeWhile (\<lambda>x. x \<noteq> 0x20) ?rest = []"
      by (auto dest: set_takeWhileD simp: takeWhile_of_dropWhile)
    have opt_end: "option_end m ?p = Some (?p + of_nat (length ?tok))"
      using line by (intro option_end_token [OF _ end_tok]) (simp add: line_at_def)
    obtain r m1 where m1: "parse_option lit m opts ?p (?p + of_nat (length ?tok)) = Some (r, m1)" "token_done opts names vals ?tok m r m1"
      using parse_token [OF 1(2) line end_tok(2) 1(4,5)] by blast
    have loop: "parse_loop lit m p opts = (case (r, m1) of (Some status, m) \<Rightarrow> Some (status, m)
         | (None, m) \<Rightarrow> parse_loop lit m (?p + of_nat (length ?tok)) opts)"
      using start(1,3) ne opt_end m1(1) by (subst parse_loop.simps) auto
    have ref: "apply_cmdline names s vals = (case set_option names ?tok vals of
        None \<Rightarrow> (XMON_CMDLINE_VALUE_STRING_LEN_TOO_LARGE, vals) | Some vals \<Rightarrow> apply_cmdline names ?rest vals)"
      unfolding apply_cmdline.simps [of names s] Let_def using ne by (rule if_not_P)
    show ?thesis
    proof (cases "set_option names ?tok vals")
      case None
      then show ?thesis using m1(2) by (simp add: loop ref token_done_def)
    next
      case (Some vals')
      have ok1: "keeps opts ?n m m1" "r = None" "table_ok m1 opts names vals'" using m1(2) Some by (simp_all add: token_done_def)
      have lit: "cstr m1 lit CMD_OPTION_PRESENT_BUT_NO_VALUE"
        using keeps_cstr [OF ok1(1), of lit CMD_OPTION_PRESENT_BUT_NO_VALUE] 1(4,5) unfolding literal_size by blast
      from 1(1) [OF refl ne Some ok1(3) line_at_append [OF line ok1(1)] lit 1(5)]
      show ?thesis using ok1(1,2) Some by (auto simp: loop ref keeps_def)
    qed
  qed
qed

text \<open>
  C15: For every command line the parser returns, with success or the one error it has; the table stays a
  table of the same options, each with a value that is a terminated string of its slot; the values are those
  of the reference, and no other memory changes.
\<close>

theorem parse_cmdline_keeps_table:
  assumes "table_ok m opts names vals" and "cstr m cmd s" and "cmd \<noteq> 0" and "unat cmd + length s < 2 ^ 64" and "length s < 2 ^ 32"
    and "cstr m lit CMD_OPTION_PRESENT_BUT_NO_VALUE"
    and "slots_apart opts (length names) cmd (Suc (length s))" and "slots_apart opts (length names) lit 11"
  shows "\<exists>r vals' m'. parse_cmdline lit m cmd opts = Some (r, m') \<and> apply_cmdline names s vals = (r, vals') \<and>
    r \<in> {XMON_LOADER_SUCCESS, XMON_CMDLINE_VALUE_STRING_LEN_TOO_LARGE} \<and>
    table_ok m' opts names vals' \<and> (\<forall>x. \<not> in_slots opts (length names) x \<longrightarrow> m' x = m x)"
proof -
  have "fst (apply_cmdline names s vals) \<in> {XMON_LOADER_SUCCESS, XMON_CMDLINE_VALUE_STRING_LEN_TOO_LARGE}"
    by (induction names s vals rule: apply_cmdline.induct) (subst apply_cmdline.simps, simp add: Let_def split: option.splits)
  moreover have "opts \<noteq> 0" using assms(1) by (simp add: table_ok_def)
  moreover have "line_at opts (length names) m cmd s" using assms(2,4,5,7) by (simp add: line_at_def)
  ultimately show ?thesis using parse_loop_applies [OF assms(1) _ assms(6,8)] assms(3)
    by (auto simp: parse_cmdline_def keeps_def prod_eq_iff)
qed

text \<open>The command line \<open> a=7 b c= ab=\<close> and more on a table of the options \<open>ab\<close> and \<open>b\<close>: the prefix \<open>a\<close> of the first name sets it.\<close>

definition demo_bytes :: "(addr \<times> u8 list) list" where
  "demo_bytes = [(0x1000, [0x61, 0x62]), (0x1040, [0x31]), (0x1080, [0x62]), (0x2000, [0x20, 0x61, 0x3D, 0x37, 0x20, 0x62, 0x20, 0x63, 0x3D]),
     (0x3000, CMD_OPTION_PRESENT_BUT_NO_VALUE)]"

definition demo_cmdline :: mem where
  "demo_cmdline = fold (\<lambda>(a, bs) m. store_bytes m a bs) demo_bytes (\<lambda>_. 0)"

lemma demo_slots_apart:
  assumes "unat a + k < 2 ^ 64" and "unat a + k \<le> 0x1040 \<or> 0x1100 \<le> unat a"
  shows "slots_apart 0x1000 2 a k"
  unfolding slots_apart_def in_slots_def
proof (intro allI impI notI)
  fix x assume "\<exists>i < 2. in_range (value_slot 0x1000 i) 64 x" and "in_range a k x"
  then obtain i where i: "i < 2" "in_range (value_slot 0x1000 i) 64 x" by blast
  then have "i = 0 \<or> i = 1" by linarith
  then have "0x1040 \<le> unat x \<and> unat x < 0x1100"
    using i(2) table_range [of "0x1000" 2 64 64 x] table_range [of "0x1000" 2 192 64 x] by (auto simp: slot_address)
  moreover have "unat a \<le> unat x \<and> unat x < unat a + k"
    using \<open>in_range a k x\<close> in_range_linear [of a k x] assms(1) by simp
  ultimately show False using assms(2) by linarith
qed

theorem parse_cmdline_keeps_table_witness:
  "\<exists>m'. parse_cmdline 0x3000 demo_cmdline 0x2000 0x1000 = Some (XMON_LOADER_SUCCESS, m') \<and>
     table_ok m' 0x1000 [[0x61, 0x62], [0x62]] [[0x37], CMD_OPTION_PRESENT_BUT_NO_VALUE]"
proof -
  let ?names = "[[0x61, 0x62], [0x62]] :: u8 list list" and ?s = "[0x20, 0x61, 0x3D, 0x37, 0x20, 0x62, 0x20, 0x63, 0x3D] :: u8 list"
  note demo = demo_cmdline_def demo_bytes_def CMD_OPTION_PRESENT_BUT_NO_VALUE_def
  have tab: "table_ok demo_cmdline 0x1000 ?names [[0x31], []]"
    by (simp add: table_ok_def All_less_Suc demo option_entry_def value_slot_def def_val_str_def
        MAX_CMDLINE_NAME_STRING_LEN_def MAX_CMDLINE_VALUE_STRING_LEN_def)
  have facts: "cstr demo_cmdline 0x2000 ?s" "cstr demo_cmdline 0x3000 CMD_OPTION_PRESENT_BUT_NO_VALUE" by (simp_all add: demo)
  have ref: "apply_cmdline ?names ?s [[0x31], []] = (XMON_LOADER_SUCCESS, [[0x37], CMD_OPTION_PRESENT_BUT_NO_VALUE])"
    by (simp add: apply_cmdline.simps set_option_def put_option_def isspace_iff Let_def)
  have len: "length ?names = 2" "Suc (length ?s) = 10" by simp_all
  have apart: "slots_apart 0x1000 (length ?names) 0x2000 (Suc (length ?s))" "slots_apart 0x1000 (length ?names) 0x3000 11"
    unfolding len using demo_slots_apart [of "0x2000" 10] demo_slots_apart [of "0x3000" 11] by simp_all
  from parse_cmdline_keeps_table [OF tab facts(1) _ _ _ facts(2) apart] show ?thesis by (auto simp: ref)
qed

end
