(* ===== verification/Elf_Format.thy ===== *)
theory Elf_Format
  imports Loader_Prelude
begin

text \<open>
  What the ELF loader takes from headers outside this repository (\<open>elf32.h\<close>, \<open>elf64.h\<close>,
  \<open>elf_env.h\<close>, \<open>mon_defs.h\<close>): the offsets and sizes of the ELF structures, the ELF constants and
  the macro \<open>GET_PHDR\<close>. They are a parameter of the model, a record \<open>elf_abi\<close>; field widths are
  those of the C expressions that read them. \<open>elf_abi_ok\<close> states what the System V ABI documents
  about them, and \<open>elf_std\<close> is the standard's own layout.
\<close>

datatype elf_field =
    E_ident | E_type | E_machine | E_version | E_entry | E_phoff | E_shoff
  | E_phentsize | E_phnum | E_shentsize | E_shnum
  | P_type | P_flags | P_offset | P_vaddr | P_paddr | P_filesz | P_memsz
  | Sh_addr | Sh_offset | Sh_size | Sh_addralign
  | D_tag | D_un | R_offset | R_info | R_addend | Rel_offset | Rel_info | St_value

datatype elf_struct = Ehdr | Phdr | Shdr | Dyn | Rela | Rel | Sym

datatype elf_const =
    EI_MAG0 | EI_MAG1 | EI_MAG2 | EI_MAG3 | EI_CLASS | EI_DATA | EI_VERSION
  | ELFMAG0 | ELFMAG1 | ELFMAG2 | ELFMAG3 | ELFCLASS32 | ELFCLASS64 | ELFDATA2LSB | EV_CURRENT
  | EM_386 | EM_X86_64 | ET_EXEC | ET_DYN | PT_LOAD | PT_DYNAMIC
  | DT_RELA | DT_RELASZ | DT_RELAENT | DT_SYMTAB | DT_SYMENT | DT_REL | DT_RELSZ | DT_RELENT
  | R_X86_64_32 | R_X86_64_RELATIVE | R_386_32 | R_386_RELATIVE
  | ELF_ATTR_EXECUTABLE | ELF_ATTR_WRITABLE | ELF_ATTR_READABLE | PAGE_4KB_MASK

record elf_abi =
  off64 :: "elf_field \<Rightarrow> u64"
  off32 :: "elf_field \<Rightarrow> u64"
  sz64 :: "elf_struct \<Rightarrow> u64"
  sz32 :: "elf_struct \<Rightarrow> u64"
  K :: "elf_const \<Rightarrow> u64"
  get_phdr64 :: "mem \<Rightarrow> addr \<Rightarrow> addr \<Rightarrow> u16 \<Rightarrow> addr"
  get_phdr32 :: "mem \<Rightarrow> addr \<Rightarrow> addr \<Rightarrow> u16 \<Rightarrow> addr"

datatype mon_status = MON_OK | MON_ERROR

text \<open>The one CPU exception the loader's arithmetic can raise.\<close>

datatype cpu_fault = Divide_Error

text \<open>
  The fields of \<open>elf_load_info_t\<close> that the code names; all addresses are 64 bits wide, the
  (signed) relocation offset is their two's complement difference.
\<close>

record elf_load_info =
  start_addr :: u64
  end_addr :: u64
  entry_addr :: u64
  sections_addr :: u64
  relocation_offset :: u64
  machine_type :: u64
  copy_section_headers :: bool
  copy_symbol_tables :: bool

section \<open>The documented layout\<close>

fun std_off64 :: "elf_field \<Rightarrow> u64" where
  "std_off64 E_ident = 0" | "std_off64 E_type = 16" | "std_off64 E_machine = 18"
| "std_off64 E_version = 20" | "std_off64 E_entry = 24" | "std_off64 E_phoff = 32"
| "std_off64 E_shoff = 40" | "std_off64 E_phentsize = 54" | "std_off64 E_phnum = 56"
| "std_off64 E_shentsize = 58" | "std_off64 E_shnum = 60"
| "std_off64 P_type = 0" | "std_off64 P_flags = 4" | "std_off64 P_offset = 8"
| "std_off64 P_vaddr = 16" | "std_off64 P_paddr = 24" | "std_off64 P_filesz = 32"
| "std_off64 P_memsz = 40"
| "std_off64 Sh_addr = 16" | "std_off64 Sh_offset = 24" | "std_off64 Sh_size = 32"
| "std_off64 Sh_addralign = 48"
| "std_off64 D_tag = 0" | "std_off64 D_un = 8"
| "std_off64 R_offset = 0" | "std_off64 R_info = 8" | "std_off64 R_addend = 16"
| "std_off64 Rel_offset = 0" | "std_off64 Rel_info = 8" | "std_off64 St_value = 8"

fun std_off32 :: "elf_field \<Rightarrow> u64" where
  "std_off32 E_ident = 0" | "std_off32 E_type = 16" | "std_off32 E_machine = 18"
| "std_off32 E_version = 20" | "std_off32 E_entry = 24" | "std_off32 E_phoff = 28"
| "std_off32 E_shoff = 32" | "std_off32 E_phentsize = 42" | "std_off32 E_phnum = 44"
| "std_off32 E_shentsize = 46" | "std_off32 E_shnum = 48"
| "std_off32 P_type = 0" | "std_off32 P_flags = 24" | "std_off32 P_offset = 4"
| "std_off32 P_vaddr = 8" | "std_off32 P_paddr = 12" | "std_off32 P_filesz = 16"
| "std_off32 P_memsz = 20"
| "std_off32 Sh_addr = 12" | "std_off32 Sh_offset = 16" | "std_off32 Sh_size = 20"
| "std_off32 Sh_addralign = 32"
| "std_off32 D_tag = 0" | "std_off32 D_un = 4"
| "std_off32 R_offset = 0" | "std_off32 R_info = 4" | "std_off32 R_addend = 8"
| "std_off32 Rel_offset = 0" | "std_off32 Rel_info = 4" | "std_off32 St_value = 4"

fun std_sz64 :: "elf_struct \<Rightarrow> u64" where
  "std_sz64 Ehdr = 64" | "std_sz64 Phdr = 56" | "std_sz64 Shdr = 64" | "std_sz64 Dyn = 16"
| "std_sz64 Rela = 24" | "std_sz64 Rel = 16" | "std_sz64 Sym = 24"

fun std_sz32 :: "elf_struct \<Rightarrow> u64" where
  "std_sz32 Ehdr = 52" | "std_sz32 Phdr = 32" | "std_sz32 Shdr = 40" | "std_sz32 Dyn = 8"
| "std_sz32 Rela = 12" | "std_sz32 Rel = 8" | "std_sz32 Sym = 16"

fun std_const :: "elf_const \<Rightarrow> u64" where
  "std_const EI_MAG0 = 0" | "std_const EI_MAG1 = 1" | "std_const EI_MAG2 = 2"
| "std_const EI_MAG3 = 3" | "std_const EI_CLASS = 4" | "std_const EI_DATA = 5"
| "std_const EI_VERSION = 6"
| "std_const ELFMAG0 = 0x7F" | "std_const ELFMAG1 = 0x45" | "std_const ELFMAG2 = 0x4C"
| "std_const ELFMAG3 = 0x46" | "std_const ELFCLASS32 = 1" | "std_const ELFCLASS64 = 2"
| "std_const ELFDATA2LSB = 1" | "std_const EV_CURRENT = 1"
| "std_const EM_386 = 3" | "std_const EM_X86_64 = 62" | "std_const ET_EXEC = 2"
| "std_const ET_DYN = 3" | "std_const PT_LOAD = 1" | "std_const PT_DYNAMIC = 2"
| "std_const DT_RELA = 7" | "std_const DT_RELASZ = 8" | "std_const DT_RELAENT = 9"
| "std_const DT_SYMTAB = 6" | "std_const DT_SYMENT = 11" | "std_const DT_REL = 17"
| "std_const DT_RELSZ = 18" | "std_const DT_RELENT = 19"
| "std_const R_X86_64_32 = 10" | "std_const R_X86_64_RELATIVE = 8"
| "std_const R_386_32 = 1" | "std_const R_386_RELATIVE = 8"
| "std_const ELF_ATTR_EXECUTABLE = 1" | "std_const ELF_ATTR_WRITABLE = 2"
| "std_const ELF_ATTR_READABLE = 4" | "std_const PAGE_4KB_MASK = 0xFFF"

definition std_get_phdr :: "u64 \<Rightarrow> mem \<Rightarrow> addr \<Rightarrow> addr \<Rightarrow> u16 \<Rightarrow> addr" where
  "std_get_phdr phentsize_off m ehdr phdrtab i =
     phdrtab + scast i * ucast (load16 m (ehdr + phentsize_off))"

definition elf_std :: elf_abi where
  "elf_std = \<lparr>off64 = std_off64, off32 = std_off32, sz64 = std_sz64, sz32 = std_sz32, K = std_const,
     get_phdr64 = std_get_phdr (std_off64 E_phentsize),
     get_phdr32 = std_get_phdr (std_off32 E_phentsize)\<rparr>"

section \<open>What the loader relies on\<close>

text \<open>The byte width of the fields the loader reads or writes (64-bit format).\<close>

fun width64 :: "elf_field \<Rightarrow> nat" where
  "width64 E_ident = 16" | "width64 E_type = 2" | "width64 E_machine = 2" | "width64 E_version = 4"
| "width64 E_phentsize = 2" | "width64 E_phnum = 2" | "width64 E_shentsize = 2"
| "width64 E_shnum = 2" | "width64 P_type = 4" | "width64 P_flags = 4"
| "width64 _ = 8"

definition ehdr_fields :: "elf_field set" where
  "ehdr_fields = {E_ident, E_type, E_machine, E_version, E_entry, E_phoff, E_shoff, E_phentsize,
                  E_phnum, E_shentsize, E_shnum}"

definition phdr_fields :: "elf_field set" where
  "phdr_fields = {P_type, P_flags, P_offset, P_vaddr, P_paddr, P_filesz, P_memsz}"

text \<open>The two addresses the loader rewrites overlap no other field of a program header.\<close>

definition phdr_addresses_apart :: "(elf_field \<Rightarrow> u64) \<Rightarrow> (elf_field \<Rightarrow> nat) \<Rightarrow> bool" where
  "phdr_addresses_apart off width \<longleftrightarrow>
     (\<forall>f \<in> {P_vaddr, P_paddr}. \<forall>g \<in> phdr_fields. g \<noteq> f \<longrightarrow>
        unat (off f) + width f \<le> unat (off g) \<or> unat (off g) + width g \<le> unat (off f))"

definition elf64_abi_ok :: "elf_abi \<Rightarrow> bool" where
  "elf64_abi_ok L \<longleftrightarrow>
     (\<forall>f \<in> ehdr_fields. unat (off64 L f) + width64 f \<le> unat (sz64 L Ehdr)) \<and>
     (\<forall>f \<in> phdr_fields. unat (off64 L f) + width64 f \<le> unat (sz64 L Phdr)) \<and>
     phdr_addresses_apart (off64 L) width64 \<and>
     unat (sz64 L Ehdr) < 2 ^ 16 \<and> unat (sz64 L Phdr) < 2 ^ 16 \<and>
     K L PT_LOAD \<noteq> K L PT_DYNAMIC \<and> K L EM_386 \<noteq> K L EM_X86_64 \<and>
     K L ELFCLASS32 \<noteq> K L ELFCLASS64 \<and> K L PAGE_4KB_MASK = 0xFFF"

lemma elf64_abi_okD:
  assumes "elf64_abi_ok L"
  shows abi64_ehdr_field: "f \<in> ehdr_fields \<Longrightarrow> unat (off64 L f) + width64 f \<le> unat (sz64 L Ehdr)"
    and abi64_phdr_field: "g \<in> phdr_fields \<Longrightarrow> unat (off64 L g) + width64 g \<le> unat (sz64 L Phdr)"
    and abi64_apart: "phdr_addresses_apart (off64 L) width64"
    and abi64_sizes: "unat (sz64 L Ehdr) < 2 ^ 16" "unat (sz64 L Phdr) < 2 ^ 16"
    and abi64_consts: "K L PT_LOAD \<noteq> K L PT_DYNAMIC" "K L EM_386 \<noteq> K L EM_X86_64"
      "K L ELFCLASS32 \<noteq> K L ELFCLASS64" "K L PAGE_4KB_MASK = 0xFFF"
  using assms unfolding elf64_abi_ok_def by blast+

definition get_phdr64_ok :: "elf_abi \<Rightarrow> bool" where
  "get_phdr64_ok L \<longleftrightarrow>
     (\<forall>m ehdr tab i. 0 \<le> sint i \<longrightarrow>
        get_phdr64 L m ehdr tab i = tab + ucast i * ucast (load16 m (ehdr + off64 L E_phentsize)))"

lemma elf_std_sel [simp]:
  "off64 elf_std = std_off64" "off32 elf_std = std_off32" "sz64 elf_std = std_sz64"
  "sz32 elf_std = std_sz32" "K elf_std = std_const"
  "get_phdr64 elf_std = std_get_phdr 54" "get_phdr32 elf_std = std_get_phdr 42"
  by (simp_all add: elf_std_def)

lemma elf_std_ok: "elf64_abi_ok elf_std"
  by (simp add: elf64_abi_ok_def ehdr_fields_def phdr_fields_def phdr_addresses_apart_def)

lemma elf_std_get_phdr: "get_phdr64_ok elf_std"
  by (simp add: get_phdr64_ok_def std_get_phdr_def scast_nonneg)

end
