(* ===== verification/Elf_Info.thy ===== *)
theory Elf_Info
  imports Elf_Format
begin

text \<open>
  The header checks and segment queries of \<open>common/ld/elf_ld/elf_info.c\<close>. All of them only read
  memory; the checks look at the identification bytes one by one, as the source does.
\<close>

definition ident_byte :: "mem \<Rightarrow> addr \<Rightarrow> u64" where
  "ident_byte m p = ucast (m p)"

text \<open>\<open>elf_is_elf\<close> reads plain \<open>char\<close>s, which are signed and promoted to \<open>int\<close>.\<close>

definition elf_is_elf :: "elf_abi \<Rightarrow> mem \<Rightarrow> addr \<Rightarrow> bool" where
  "elf_is_elf L m p \<longleftrightarrow>
     K L ELFMAG0 = scast (m (p + K L EI_MAG0)) \<and>
     K L ELFMAG1 = scast (m (p + K L EI_MAG1)) \<and>
     K L ELFMAG2 = scast (m (p + K L EI_MAG2)) \<and> K L ELFMAG3 = scast (m (p + K L EI_MAG3))"

definition elf32_header_is_valid :: "elf_abi \<Rightarrow> mem \<Rightarrow> addr \<Rightarrow> bool" where
  "elf32_header_is_valid L m ehdr \<longleftrightarrow>
     (let e_ident = ehdr + off32 L E_ident in
      K L ELFCLASS32 = ident_byte m (e_ident + K L EI_CLASS) \<and>
      K L ELFMAG0 = ident_byte m (e_ident + K L EI_MAG0) \<and>
      K L ELFMAG1 = ident_byte m (e_ident + K L EI_MAG1) \<and>
      K L ELFMAG2 = ident_byte m (e_ident + K L EI_MAG2) \<and>
      K L ELFMAG3 = ident_byte m (e_ident + K L EI_MAG3) \<and>
      K L ELFDATA2LSB = ident_byte m (e_ident + K L EI_DATA) \<and>
      K L EV_CURRENT = ident_byte m (e_ident + K L EI_VERSION) \<and>
      K L EV_CURRENT = ucast (load32 m (ehdr + off32 L E_version)) \<and>
      K L EM_386 = ucast (load16 m (ehdr + off32 L E_machine)))"

definition elf64_header_is_valid :: "elf_abi \<Rightarrow> mem \<Rightarrow> addr \<Rightarrow> bool" where
  "elf64_header_is_valid L m ehdr \<longleftrightarrow>
     (let e_ident = ehdr + off64 L E_ident in
      K L ELFCLASS64 = ident_byte m (e_ident + K L EI_CLASS) \<and>
      K L ELFMAG0 = ident_byte m (e_ident + K L EI_MAG0) \<and>
      K L ELFMAG1 = ident_byte m (e_ident + K L EI_MAG1) \<and>
      K L ELFMAG2 = ident_byte m (e_ident + K L EI_MAG2) \<and>
      K L ELFMAG3 = ident_byte m (e_ident + K L EI_MAG3) \<and>
      K L ELFDATA2LSB = ident_byte m (e_ident + K L EI_DATA) \<and>
      K L EV_CURRENT = ucast (load32 m (ehdr + off64 L E_version)) \<and>
      K L EM_X86_64 = ucast (load16 m (ehdr + off64 L E_machine)))"

text \<open>The output structure \<open>elf_segment_info_t\<close>; \<open>None\<close> is the result \<open>FALSE\<close>, nothing filled in.\<close>

record elf_segment_info =
  seg_address :: addr
  seg_size :: u32
  seg_attribute :: u32

definition segment_attribute :: "elf_abi \<Rightarrow> u32 \<Rightarrow> u32 \<Rightarrow> u32" where
  "segment_attribute L p_type p_flags =
     (if K L PT_LOAD = ucast p_type
      then p_flags AND ucast (K L ELF_ATTR_EXECUTABLE OR K L ELF_ATTR_WRITABLE OR K L ELF_ATTR_READABLE)
      else 0)"

text \<open>
  The segment number is signed and only compared with the count from above: a negative number
  passes the test and indexes in front of the table.
\<close>

definition elf32_get_segment_info :: "elf_abi \<Rightarrow> mem \<Rightarrow> addr \<Rightarrow> u16 \<Rightarrow> elf_segment_info option" where
  "elf32_get_segment_info L m ehdr segment_no =
     (if sint segment_no < uint (load16 m (ehdr + off32 L E_phnum)) then
        let phdrtab = ehdr + ucast (load32 m (ehdr + off32 L E_phoff));
            phdr = get_phdr32 L m ehdr phdrtab segment_no
        in Some \<lparr>seg_address = ucast (load32 m (phdr + off32 L P_paddr)),
                 seg_size = load32 m (phdr + off32 L P_memsz),
                 seg_attribute = segment_attribute L (load32 m (phdr + off32 L P_type))
                                   (load32 m (phdr + off32 L P_flags))\<rparr>
      else None)"

definition elf64_get_segment_info :: "elf_abi \<Rightarrow> mem \<Rightarrow> addr \<Rightarrow> u16 \<Rightarrow> elf_segment_info option" where
  "elf64_get_segment_info L m ehdr segment_no =
     (if sint segment_no < uint (load16 m (ehdr + off64 L E_phnum)) then
        let phdrtab = ehdr + load64 m (ehdr + off64 L E_phoff);
            phdr = get_phdr64 L m ehdr phdrtab segment_no
        in Some \<lparr>seg_address = load64 m (phdr + off64 L P_paddr),
                 seg_size = ucast (load64 m (phdr + off64 L P_memsz)),
                 seg_attribute = segment_attribute L (load32 m (phdr + off64 L P_type))
                                   (load32 m (phdr + off64 L P_flags))\<rparr>
      else None)"

definition elf_get_segment_info :: "elf_abi \<Rightarrow> mem \<Rightarrow> addr \<Rightarrow> u16 \<Rightarrow> elf_segment_info option" where
  "elf_get_segment_info L m p_image segment_no =
     (if elf32_header_is_valid L m p_image then elf32_get_segment_info L m p_image segment_no
      else if elf64_header_is_valid L m p_image then elf64_get_segment_info L m p_image segment_no
      else None)"

section \<open>The two checks exclude each other\<close>

lemma headers_exclusive:
  assumes "K L ELFCLASS32 \<noteq> K L ELFCLASS64" and "off32 L E_ident = off64 L E_ident"
    and "elf32_header_is_valid L m p"
  shows "\<not> elf64_header_is_valid L m p"
  using assms by (auto simp: elf32_header_is_valid_def elf64_header_is_valid_def Let_def)

lemma elf64_header_fields:
  assumes "elf64_header_is_valid L m p"
  shows "K L EM_X86_64 = ucast (load16 m (p + off64 L E_machine))"
    and "K L ELFCLASS64 = ident_byte m (p + off64 L E_ident + K L EI_CLASS)"
  using assms by (simp_all add: elf64_header_is_valid_def Let_def)

text \<open>The attributes of a segment lie within the three attribute bits.\<close>

lemma segment_attribute_mask:
  "segment_attribute L t f AND
     ucast (K L ELF_ATTR_EXECUTABLE OR K L ELF_ATTR_WRITABLE OR K L ELF_ATTR_READABLE)
   = segment_attribute L t f"
  by (simp add: segment_attribute_def and.assoc)

lemma elf64_get_segment_info_some:
  "elf64_get_segment_info L m ehdr i = Some si \<Longrightarrow>
   sint i < uint (load16 m (ehdr + off64 L E_phnum))"
  by (simp add: elf64_get_segment_info_def split: if_splits)

end
