(* ===== verification/Image_Access.thy ===== *)
theory Image_Access
  imports Common_Util
begin

text \<open>
  The memory-backed image accessor of \<open>common/ld/image_accessors/image_access_mem.c\<close>. An accessor
  names a buffer and its size; \<open>mem_image_map_to_mem\<close> hands out a pointer into the buffer,
  \<open>mem_image_read\<close> copies out of it. Both clip the requested length with unsigned 64-bit
  arithmetic and leave it to the caller to compare the returned length with the requested one;
  the read copies before that comparison.
\<close>

text \<open>
  \<open>mem_image_access_t\<close>: the \<open>gen\<close> part holds the accessor's three function pointers, here the
  accessor kind that they belong to.
\<close>

datatype gen_image_access = Mem_Image_Ops | File_Image_Ops

record mem_image_access =
  gen :: gen_image_access
  image_ptr :: addr
  image_size :: u64

definition mem_image_create_ex :: "addr \<Rightarrow> u64 \<Rightarrow> mem_image_access option" where
  "mem_image_create_ex img sz = Some \<lparr>gen = Mem_Image_Ops, image_ptr = img, image_size = sz\<rparr>"

definition clip_length :: "mem_image_access \<Rightarrow> u64 \<Rightarrow> u64 \<Rightarrow> u64" where
  "clip_length mia src_offset bytes_to_read =
     (if src_offset + bytes_to_read > image_size mia then image_size mia - src_offset
      else bytes_to_read)"

definition mem_image_map_to_mem :: "mem_image_access \<Rightarrow> u64 \<Rightarrow> u64 \<Rightarrow> u64 \<times> addr" where
  "mem_image_map_to_mem mia src_offset bytes_to_read =
     (clip_length mia src_offset bytes_to_read, image_ptr mia + src_offset)"

definition mem_image_read :: "mem \<Rightarrow> mem_image_access \<Rightarrow> addr \<Rightarrow> u64 \<Rightarrow> u64 \<Rightarrow> u64 \<times> mem" where
  "mem_image_read m mia dest src_offset bytes_to_read =
     (let n = clip_length mia src_offset bytes_to_read
      in (n, mon_memcpy m dest (image_ptr mia + src_offset) n))"

section \<open>When a request is granted in full\<close>

lemma clip_length_exact:
  "clip_length mia off n = n \<longleftrightarrow> off + n \<le> image_size mia"
proof (cases "off + n > image_size mia")
  case True
  then have "image_size mia - off \<noteq> n" by (auto simp: algebra_simps)
  with True show ?thesis by (auto simp: clip_length_def)
next
  case False
  then show ?thesis by (auto simp: clip_length_def not_less)
qed

lemma clip_length_in_bounds [simp]:
  assumes "unat off + unat n \<le> unat (image_size mia)"
  shows "clip_length mia off n = n"
proof -
  have "unat off + unat n < 2 ^ 64"
    using assms unat_less64 [of "image_size mia"] by linarith
  then show ?thesis using assms
    by (simp add: clip_length_exact word_le_nat_alt unat_add64)
qed

lemma mem_image_map_to_mem_granted:
  "fst (mem_image_map_to_mem mia off n) = n \<longleftrightarrow> off + n \<le> image_size mia"
  by (simp add: mem_image_map_to_mem_def clip_length_exact)

lemma mem_image_read_granted:
  "fst (mem_image_read m mia dest off n) = n \<longleftrightarrow> off + n \<le> image_size mia"
  by (simp add: mem_image_read_def Let_def clip_length_exact)

lemma mem_image_read_in_bounds:
  assumes "unat off + unat n \<le> unat (image_size mia)"
  shows "mem_image_read m mia dest off n = (n, mon_memcpy m dest (image_ptr mia + off) n)"
  using assms by (simp add: mem_image_read_def)

text \<open>
  What the copy length is when the request starts past the end of the image: the difference
  underflows and covers almost the whole address space.
\<close>

lemma clip_length_past_end:
  assumes "unat (image_size mia) < unat off" and "unat off + unat n < 2 ^ 64"
  shows "unat (clip_length mia off n) = 2 ^ 64 - (unat off - unat (image_size mia))"
proof -
  have "off + n > image_size mia"
    using assms by (simp add: word_less_nat_alt unat_add64)
  then show ?thesis
    using assms(1) unat_less64 [of off]
    by (simp add: clip_length_def unat_sub_if_size word_size)
qed

section \<open>Two memories with the same image\<close>

text \<open>
  \<open>image_agrees img m m'\<close>: the memories agree on the bytes of the image buffer. Everything the
  loader reads through the accessor is the same in both.
\<close>

definition image_agrees :: "mem_image_access \<Rightarrow> mem \<Rightarrow> mem \<Rightarrow> bool" where
  "image_agrees img m m' \<longleftrightarrow>
     (\<forall>x. in_range (image_ptr img) (unat (image_size img)) x \<longrightarrow> m' x = m x)"

lemma image_agrees_refl [simp]: "image_agrees img m m"
  by (simp add: image_agrees_def)

lemma image_agrees_trans: "image_agrees img m m' \<Longrightarrow> image_agrees img m' m'' \<Longrightarrow> image_agrees img m m''"
  by (simp add: image_agrees_def)

lemma image_agrees_same_bytes:
  "image_agrees img m m' \<Longrightarrow> same_bytes m (image_ptr img) m' (image_ptr img) (unat (image_size img))"
  by (simp add: image_agrees_def same_bytesI)

lemma image_agrees_byte:
  assumes "image_agrees img m m'" and "unat off < unat (image_size img)"
  shows "m' (image_ptr img + off) = m (image_ptr img + off)"
  using assms by (simp add: image_agrees_def in_range_def)

end
