(* ===== verification/Elf64_Loader.thy ===== *)
theory Elf64_Loader
  imports Elf_Info Image_Access "HOL-Library.Signed_Division"
begin

text \<open>
  The 64-bit ELF loader of \<open>common/ld/elf_ld/elf64_ld.c\<close>, pointer for pointer: headers are read
  from memory each time the source reads them, so a copy that overwrites them is visible to the
  iterations after it. Loops over \<open>e_phnum\<close> have a signed 16-bit counter and bound and always
  end; the loops over \<open>e_shnum\<close> compare a signed 16-bit counter with an unsigned bound and may
  run for ever, so they return an option. A division by a zero relocation entry size is the
  value \<open>Inl Divide_Error\<close>.
\<close>

section \<open>Load information\<close>

fun segment_span64 :: "elf_abi \<Rightarrow> mem \<Rightarrow> addr \<Rightarrow> addr \<Rightarrow> nat list \<Rightarrow> u64 \<Rightarrow> u64 \<Rightarrow> u64 \<times> u64" where
  "segment_span64 L m ehdr phdrtab [] low_addr max_addr = (low_addr, max_addr)"
| "segment_span64 L m ehdr phdrtab (i # is) low_addr max_addr =
     (let phdr = get_phdr64 L m ehdr phdrtab (of_nat i);
          addr = load64 m (phdr + off64 L P_paddr);
          memsz = load64 m (phdr + off64 L P_memsz)
      in if K L PT_LOAD \<noteq> ucast (load32 m (phdr + off64 L P_type)) \<or> memsz = 0
         then segment_span64 L m ehdr phdrtab is low_addr max_addr
         else segment_span64 L m ehdr phdrtab is
                (if addr < low_addr then addr else low_addr)
                (if addr + memsz > max_addr then addr + memsz else max_addr))"

definition GET_SHDR_LOADER :: "u16 \<Rightarrow> addr \<Rightarrow> u16 \<Rightarrow> addr" where
  "GET_SHDR_LOADER e_shentsize shdrtab i = shdrtab + ucast i * ucast e_shentsize"

definition align_section :: "'a::len word \<Rightarrow> 'a word \<Rightarrow> 'a word" where
  "align_section a addralign =
     (if addralign > 1 then (a + (addralign - 1)) AND NOT (addralign - 1) else a)"

partial_function (option) section_span64 ::
  "elf_abi \<Rightarrow> mem \<Rightarrow> addr \<Rightarrow> addr \<Rightarrow> u16 \<Rightarrow> u64 \<Rightarrow> u64 option" where
  "section_span64 L m ehdr shdrtab i max_addr =
     (if sint i < uint (load16 m (ehdr + off64 L E_shnum)) then
        let shdr = GET_SHDR_LOADER (load16 m (ehdr + off64 L E_shentsize)) shdrtab i;
            sh_size = load64 m (shdr + off64 L Sh_size)
        in if sh_size = 0 \<or> load64 m (shdr + off64 L Sh_addr) \<noteq> 0
           then section_span64 L m ehdr shdrtab (i + 1) max_addr
           else section_span64 L m ehdr shdrtab (i + 1)
                  (align_section max_addr (load64 m (shdr + off64 L Sh_addralign)) + sh_size)
      else Some max_addr)"

definition phdr_indices :: "u16 \<Rightarrow> nat list" where
  "phdr_indices e_phnum = [0..<nat (sint e_phnum)]"

definition elf64_get_load_info ::
  "elf_abi \<Rightarrow> mem \<Rightarrow> mem_image_access \<Rightarrow> elf_load_info \<Rightarrow> (mon_status \<times> elf_load_info) option" where
  "elf64_get_load_info L m img info =
     (let (n, ehdr) = mem_image_map_to_mem img 0 (sz64 L Ehdr) in
      if n \<noteq> sz64 L Ehdr then Some (MON_ERROR, info)
      else let e_type = ucast (load16 m (ehdr + off64 L E_type)) in
      if e_type \<noteq> K L ET_EXEC \<and> e_type \<noteq> K L ET_DYN then Some (MON_ERROR, info)
      else
      let e_phnum = load16 m (ehdr + off64 L E_phnum);
          phsize = ucast e_phnum * ucast (load16 m (ehdr + off64 L E_phentsize)) :: u32;
          (n, phdrtab) = mem_image_map_to_mem img (load64 m (ehdr + off64 L E_phoff)) (ucast phsize)
      in if n \<noteq> ucast phsize then Some (MON_ERROR, info)
      else
      let (low_addr, max_addr) =
            segment_span64 L m ehdr phdrtab (phdr_indices e_phnum) (NOT 0) 0;
          done = (\<lambda>info max_addr. Some (MON_OK, info\<lparr>start_addr := low_addr, end_addr := max_addr,
                                     entry_addr := load64 m (ehdr + off64 L E_entry)\<rparr>))
      in if low_addr AND K L PAGE_4KB_MASK \<noteq> 0 then Some (MON_ERROR, info)
      else if copy_section_headers info \<or> copy_symbol_tables info then
        let max_addr = (max_addr + 0xF) AND NOT 0xF;
            info = info\<lparr>sections_addr := max_addr\<rparr>;
            shsize = ucast (load16 m (ehdr + off64 L E_shnum)) *
                     ucast (load16 m (ehdr + off64 L E_shentsize)) :: u32;
            max_addr = max_addr + ucast shsize
        in if copy_symbol_tables info then
             let (n, shdrtab) = mem_image_map_to_mem img (load64 m (ehdr + off64 L E_shoff)) (ucast shsize)
             in if n \<noteq> ucast shsize then Some (MON_ERROR, info)
                else Option.bind (section_span64 L m ehdr shdrtab 0 max_addr) (done info)
           else done info max_addr
      else done info max_addr)"

section \<open>Copying the segments\<close>

function load_segments64 ::
  "elf_abi \<Rightarrow> mem_image_access \<Rightarrow> u64 \<Rightarrow> addr \<Rightarrow> addr \<Rightarrow> nat \<Rightarrow> mem \<Rightarrow> addr
     \<Rightarrow> mon_status \<times> mem \<times> addr" where
  "load_segments64 L img reloc ehdr phdrtab i m phdr_dyn =
     (if int i < sint (load16 m (ehdr + off64 L E_phnum)) then
        let phdr = get_phdr64 L m ehdr phdrtab (of_nat i);
            p_type = ucast (load32 m (phdr + off64 L P_type))
        in if K L PT_DYNAMIC = p_type
           then load_segments64 L img reloc ehdr phdrtab (Suc i) m phdr
           else if K L PT_LOAD \<noteq> p_type \<or> load64 m (phdr + off64 L P_memsz) = 0
           then load_segments64 L img reloc ehdr phdrtab (Suc i) m phdr_dyn
           else
             let filesz = load64 m (phdr + off64 L P_filesz);
                 addr = load64 m (phdr + off64 L P_paddr);
                 memsz = load64 m (phdr + off64 L P_memsz);
                 filesz = (if filesz > memsz then memsz else filesz);
                 (n, m') = mem_image_read m img (addr + reloc) (load64 m (phdr + off64 L P_offset)) filesz
             in if n \<noteq> filesz then (MON_ERROR, m', phdr_dyn)
                else load_segments64 L img reloc ehdr phdrtab (Suc i)
                       (if filesz < memsz then mon_memset m' (addr + filesz + reloc) 0 (memsz - filesz)
                        else m') phdr_dyn
      else (MON_OK, m, phdr_dyn))"
  by pat_completeness auto
termination
proof (relation "measure (\<lambda>(L, img, reloc, ehdr, phdrtab, i, m, phdr_dyn). 32768 - i)", goal_cases)
  case 1
  show ?case by simp
next
  case (2 L img reloc ehdr phdrtab i m phdr_dyn)
  then show ?case using sint16_less [of "load16 m (ehdr + off64 L E_phnum)"] by simp
next
  case (3 L img reloc ehdr phdrtab i m phdr_dyn)
  then show ?case using sint16_less [of "load16 m (ehdr + off64 L E_phnum)"] by simp
next
  case (4 L img reloc ehdr phdrtab i m phdr_dyn)
  then show ?case using sint16_less [of "load16 m (ehdr + off64 L E_phnum)"] by simp
qed

declare load_segments64.simps [simp del]

text \<open>The addresses in the copied program headers are moved by the relocation offset.\<close>

function update_phdrs64 :: "elf_abi \<Rightarrow> u64 \<Rightarrow> addr \<Rightarrow> addr \<Rightarrow> nat \<Rightarrow> mem \<Rightarrow> mem" where
  "update_phdrs64 L reloc ehdr phdrtab i m =
     (if int i < sint (load16 m (ehdr + off64 L E_phnum)) then
        let phdr = get_phdr64 L m ehdr phdrtab (of_nat i)
        in if load64 m (phdr + off64 L P_memsz) \<noteq> 0 then
             let m1 = store64 m (phdr + off64 L P_paddr) (load64 m (phdr + off64 L P_paddr) + reloc);
                 m2 = store64 m1 (phdr + off64 L P_vaddr) (load64 m1 (phdr + off64 L P_vaddr) + reloc)
             in update_phdrs64 L reloc ehdr phdrtab (Suc i) m2
           else update_phdrs64 L reloc ehdr phdrtab (Suc i) m
      else m)"
  by pat_completeness auto
termination
proof (relation "measure (\<lambda>(L, reloc, ehdr, phdrtab, i, m). 32768 - i)", goal_cases)
  case 1
  show ?case by simp
next
  case (2 L reloc ehdr phdrtab i m)
  then show ?case using sint16_less [of "load16 m (ehdr + off64 L E_phnum)"] by simp
next
  case (3 L reloc ehdr phdrtab i m)
  then show ?case using sint16_less [of "load16 m (ehdr + off64 L E_phnum)"] by simp
qed

declare update_phdrs64.simps [simp del]

section \<open>Relocation\<close>

record dyn_info64 =
  rela64 :: addr
  rela_sz64 :: u32
  rela_entsz64 :: u32
  symtab64 :: addr
  symtab_entsz64 :: u32

fun scan_dynamic64 :: "elf_abi \<Rightarrow> mem \<Rightarrow> u64 \<Rightarrow> addr \<Rightarrow> nat list \<Rightarrow> dyn_info64 \<Rightarrow> dyn_info64" where
  "scan_dynamic64 L m start dyn_section [] d = d"
| "scan_dynamic64 L m start dyn_section (i # is) d =
     (let entry = dyn_section + of_nat i * sz64 L Dyn;
          d_tag = load64 m (entry + off64 L D_tag);
          d_un = load64 m (entry + off64 L D_un)
      in scan_dynamic64 L m start dyn_section is
          (if d_tag = K L DT_RELA then d\<lparr>rela64 := d_un + start\<rparr>
           else if d_tag = K L DT_RELASZ then d\<lparr>rela_sz64 := ucast d_un\<rparr>
           else if d_tag = K L DT_RELAENT then d\<lparr>rela_entsz64 := ucast d_un\<rparr>
           else if d_tag = K L DT_SYMTAB then d\<lparr>symtab64 := d_un + start\<rparr>
           else if d_tag = K L DT_SYMENT then d\<lparr>symtab_entsz64 := ucast d_un\<rparr>
           else d))"

fun apply_rela64 :: "elf_abi \<Rightarrow> u64 \<Rightarrow> addr \<Rightarrow> addr \<Rightarrow> nat list \<Rightarrow> mem \<Rightarrow> mon_status \<times> mem" where
  "apply_rela64 L reloc rela symtab [] m = (MON_OK, m)"
| "apply_rela64 L reloc rela symtab (i # is) m =
     (let r = rela + of_nat i * sz64 L Rela;
          target_addr = load64 m (r + off64 L R_offset) + reloc;
          kind = load64 m (r + off64 L R_info) AND 0xFF
      in if kind = K L R_X86_64_32 then
           let m1 = store64 m target_addr (load64 m (r + off64 L R_addend) + reloc);
               symtab_idx = load32 m1 (r + off64 L R_info + 4);
               sym = symtab + scast symtab_idx * sz64 L Sym;
               m2 = store64 m1 target_addr (load64 m1 target_addr + load64 m1 (sym + off64 L St_value))
           in apply_rela64 L reloc rela symtab is m2
         else if kind = K L R_X86_64_RELATIVE then
           apply_rela64 L reloc rela symtab is
             (store64 m target_addr (load64 m (r + off64 L R_addend) + reloc))
         else if kind = 0 then apply_rela64 L reloc rela symtab is m
         else (MON_ERROR, m))"

text \<open>
  C division of two 32-bit signed values; the machine traps on a zero divisor and on the one
  quotient that does not fit.
\<close>

definition sdiv32 :: "u32 \<Rightarrow> u32 \<Rightarrow> cpu_fault + int" where
  "sdiv32 a b = (if b = 0 \<or> (sint a = - (2 ^ 31) \<and> sint b = - 1) then Inl Divide_Error
                 else Inr (sint a sdiv sint b))"

definition elf64_do_relocation ::
  "elf_abi \<Rightarrow> mem \<Rightarrow> mem_image_access \<Rightarrow> elf_load_info \<Rightarrow> addr \<Rightarrow> cpu_fault + mon_status \<times> mem" where
  "elf64_do_relocation L m img info phdr_dyn =
     (let dyn_section_sz = ucast (load64 m (phdr_dyn + off64 L P_filesz)) :: u32;
          (n, dyn_section) = mem_image_map_to_mem img (load64 m (phdr_dyn + off64 L P_offset))
                               (scast dyn_section_sz)
      in if n \<noteq> scast dyn_section_sz then Inr (MON_ERROR, m)
      else
      let count = unat ((scast dyn_section_sz :: u64) div sz64 L Dyn);
          d = scan_dynamic64 L m (start_addr info) dyn_section [0..<count]
                \<lparr>rela64 = 0, rela_sz64 = 0, rela_entsz64 = 0, symtab64 = 0, symtab_entsz64 = 0\<rparr>
      in case sdiv32 (rela_sz64 d) (rela_entsz64 d) of
           Inl e \<Rightarrow> Inl e
         | Inr q \<Rightarrow> Inr (apply_rela64 L (relocation_offset info) (rela64 d) (symtab64 d) [0..<nat q] m))"

section \<open>Optional section tables\<close>

definition elf64_copy_section_header_table ::
  "elf_abi \<Rightarrow> mem \<Rightarrow> mem_image_access \<Rightarrow> elf_load_info \<Rightarrow> mon_status \<times> mem" where
  "elf64_copy_section_header_table L m img info =
     (let ehdr = start_addr info;
          shdrtab = sections_addr info;
          section_hdr_tabsiz = ucast (load16 m (ehdr + off64 L E_shentsize)) *
                               ucast (load16 m (ehdr + off64 L E_shnum)) :: u32
      in if \<not> elf64_header_is_valid L m ehdr then (MON_ERROR, m)
      else let (n, m') = mem_image_read m img shdrtab (load64 m (ehdr + off64 L E_shoff))
                           (ucast section_hdr_tabsiz)
      in if n \<noteq> ucast section_hdr_tabsiz then (MON_ERROR, m')
      else (MON_OK, store64 m' (ehdr + off64 L E_shoff) (sections_addr info - start_addr info)))"

partial_function (option) copy_sections64_loop ::
  "elf_abi \<Rightarrow> mem_image_access \<Rightarrow> elf_load_info \<Rightarrow> u16 \<Rightarrow> u64 \<Rightarrow> mem \<Rightarrow> (mon_status \<times> mem) option" where
  "copy_sections64_loop L img info i curr_addr m =
     (let ehdr = start_addr info in
      if sint i < uint (load16 m (ehdr + off64 L E_shnum)) then
        let shdr = GET_SHDR_LOADER (load16 m (ehdr + off64 L E_shentsize)) (sections_addr info) i;
            sh_addr = load64 m (shdr + off64 L Sh_addr);
            sh_size = load64 m (shdr + off64 L Sh_size)
        in if sh_addr \<noteq> 0 then
             copy_sections64_loop L img info (i + 1) curr_addr
               (store64 m (shdr + off64 L Sh_addr) (sh_addr + relocation_offset info))
           else if sh_size = 0 then copy_sections64_loop L img info (i + 1) curr_addr m
           else
             let curr_addr = align_section curr_addr (load64 m (shdr + off64 L Sh_addralign));
                 r = mem_image_read m img curr_addr (load64 m (shdr + off64 L Sh_offset)) sh_size
             in if fst r \<noteq> load64 (snd r) (shdr + off64 L Sh_size) then Some (MON_ERROR, snd r)
                else
                  let m2 = store64 (snd r) (shdr + off64 L Sh_addr) curr_addr
                  in copy_sections64_loop L img info (i + 1)
                       (curr_addr + load64 m2 (shdr + off64 L Sh_size)) m2
      else Some (MON_OK, m))"

definition elf64_copy_sections ::
  "elf_abi \<Rightarrow> mem \<Rightarrow> mem_image_access \<Rightarrow> elf_load_info \<Rightarrow> (mon_status \<times> mem) option" where
  "elf64_copy_sections L m img info =
     (let ehdr = start_addr info;
          section_hdr_tabsiz = ucast (load16 m (ehdr + off64 L E_shentsize)) *
                               ucast (load16 m (ehdr + off64 L E_shnum)) :: u32
      in copy_sections64_loop L img info 0 (sections_addr info + ucast section_hdr_tabsiz) m)"

text \<open>
  The last step of the load: the status of the header table copy is overwritten by that of the
  section copy when both are asked for.
\<close>

definition copy_tables64 ::
  "elf_abi \<Rightarrow> mem_image_access \<Rightarrow> elf_load_info \<Rightarrow> mem \<Rightarrow> (mon_status \<times> mem) option" where
  "copy_tables64 L img info m =
     (let (status, m) = (if copy_section_headers info \<or> copy_symbol_tables info
                         then elf64_copy_section_header_table L m img info else (MON_OK, m))
      in if copy_symbol_tables info then elf64_copy_sections L m img info else Some (status, m))"

definition elf64_load_executable ::
  "elf_abi \<Rightarrow> mem \<Rightarrow> mem_image_access \<Rightarrow> elf_load_info \<Rightarrow> (cpu_fault + mon_status \<times> mem) option" where
  "elf64_load_executable L m img info =
     (let (n, ehdr) = mem_image_map_to_mem img 0 (sz64 L Ehdr) in
      if n \<noteq> sz64 L Ehdr then Some (Inr (MON_ERROR, m))
      else
      let phsize = ucast (load16 m (ehdr + off64 L E_phnum)) *
                   ucast (load16 m (ehdr + off64 L E_phentsize)) :: u32;
          (n, phdrtab) = mem_image_map_to_mem img (load64 m (ehdr + off64 L E_phoff)) (ucast phsize)
      in if n \<noteq> ucast phsize then Some (Inr (MON_ERROR, m))
      else
      let (status, m1, phdr_dyn) =
            load_segments64 L img (relocation_offset info) ehdr phdrtab 0 m 0
      in if status \<noteq> MON_OK then Some (Inr (status, m1))
      else
      let ehdr = start_addr info;
          phdrtab = start_addr info + load64 m1 (ehdr + off64 L E_phoff);
          m2 = update_phdrs64 L (relocation_offset info) ehdr phdrtab 0 m1;
          relocated = (if phdr_dyn \<noteq> 0 then elf64_do_relocation L m2 img info phdr_dyn
                       else Inr (MON_OK, m2))
      in case relocated of
           Inl e \<Rightarrow> Some (Inl e)
         | Inr (status, m3) \<Rightarrow>
             if status \<noteq> MON_OK then Some (Inr (status, m3))
             else map_option Inr (copy_tables64 L img info m3))"

end
