(* ===== verification/Elf64_Segments.thy ===== *)
theory Elf64_Segments
  imports Elf64_Loader
begin

text \<open>
  What the 64-bit segment copy promises: the program header table read once as a list of
  \<open>segment\<close>s, the copy of one segment as a function on memories, and the refinement of the loop
  of \<open>elf64_load_executable\<close> (which re-reads the header at each step) to the fold of that function.
\<close>

section \<open>The program header table as a list of segments\<close>

record segment =
  seg_type :: u64
  seg_offset :: u64
  seg_paddr :: u64
  seg_filesz :: u64
  seg_memsz :: u64

definition segment_at64 :: "elf_abi \<Rightarrow> mem \<Rightarrow> addr \<Rightarrow> segment" where
  "segment_at64 L m phdr =
     \<lparr>seg_type = ucast (load32 m (phdr + off64 L P_type)),
      seg_offset = load64 m (phdr + off64 L P_offset),
      seg_paddr = load64 m (phdr + off64 L P_paddr),
      seg_filesz = load64 m (phdr + off64 L P_filesz),
      seg_memsz = load64 m (phdr + off64 L P_memsz)\<rparr>"

definition phdrs64 :: "elf_abi \<Rightarrow> mem \<Rightarrow> addr \<Rightarrow> addr \<Rightarrow> addr list" where
  "phdrs64 L m ehdr phdrtab =
     map (\<lambda>i. get_phdr64 L m ehdr phdrtab (of_nat i)) (phdr_indices (load16 m (ehdr + off64 L E_phnum)))"

definition segments64 :: "elf_abi \<Rightarrow> mem \<Rightarrow> addr \<Rightarrow> addr \<Rightarrow> segment list" where
  "segments64 L m ehdr phdrtab = map (segment_at64 L m) (phdrs64 L m ehdr phdrtab)"

definition loadable :: "elf_abi \<Rightarrow> segment \<Rightarrow> bool" where
  "loadable L s \<longleftrightarrow> seg_type s = K L PT_LOAD \<and> seg_memsz s \<noteq> 0"

definition file_part :: "segment \<Rightarrow> u64" where
  "file_part s = min (seg_filesz s) (seg_memsz s)"

section \<open>Placing one segment\<close>

text \<open>
  \<open>place_segment src img reloc s m\<close>: \<open>m\<close> with the segment's window holding the file bytes of the
  image (as they are in \<open>src\<close>) followed by zeros.
\<close>

definition segment_byte :: "mem \<Rightarrow> mem_image_access \<Rightarrow> segment \<Rightarrow> addr \<Rightarrow> u8" where
  "segment_byte src img s k =
     (if k < file_part s then src (image_ptr img + seg_offset s + k) else 0)"

definition place_segment :: "mem \<Rightarrow> mem_image_access \<Rightarrow> u64 \<Rightarrow> segment \<Rightarrow> mem \<Rightarrow> mem" where
  "place_segment src img reloc s m =
     (\<lambda>x. if in_range (seg_paddr s + reloc) (unat (seg_memsz s)) x
          then segment_byte src img s (x - (seg_paddr s + reloc)) else m x)"

definition place_segments :: "mem \<Rightarrow> mem_image_access \<Rightarrow> u64 \<Rightarrow> segment list \<Rightarrow> mem \<Rightarrow> mem" where
  "place_segments src img reloc ss m = foldl (\<lambda>m s. place_segment src img reloc s m) m ss"

lemma place_segments_simps [simp]:
  "place_segments src img reloc [] m = m"
  "place_segments src img reloc (s # ss) m = place_segments src img reloc ss (place_segment src img reloc s m)"
  by (simp_all add: place_segments_def)

definition off_image :: "mem_image_access \<Rightarrow> u64 \<Rightarrow> segment \<Rightarrow> bool" where
  "off_image img reloc s \<longleftrightarrow>
     disjoint_ranges (seg_paddr s + reloc) (unat (seg_memsz s)) (image_ptr img) (unat (image_size img))"

definition in_file :: "mem_image_access \<Rightarrow> segment \<Rightarrow> bool" where
  "in_file img s \<longleftrightarrow> unat (seg_offset s) + unat (file_part s) \<le> unat (image_size img)"

lemma place_segment_agrees:
  "off_image img reloc s \<Longrightarrow> image_agrees img m (place_segment src img reloc s m)"
  by (auto simp: image_agrees_def place_segment_def off_image_def dest: disjoint_ranges_not_both)

lemma segment_byte_agrees:
  assumes "image_agrees img m m'" and "in_file img s"
  shows "segment_byte m' img s k = segment_byte m img s k"
proof (cases "k < file_part s")
  case True
  then have "unat (seg_offset s) + unat k < unat (image_size img)"
    using assms(2) by (simp add: in_file_def word_less_nat_alt)
  moreover from this have "unat (seg_offset s + k) = unat (seg_offset s) + unat k"
    using less_trans [OF _ unat_less64 [of "image_size img"]] by (simp add: unat_add64)
  ultimately show ?thesis
    using image_agrees_byte [OF assms(1), of "seg_offset s + k"]
    by (simp add: segment_byte_def add.assoc)
qed (simp add: segment_byte_def)

text \<open>The copy of one segment in the code: the read and the zeroing of the rest.\<close>

lemma copy_one_segment:
  assumes apart: "off_image img reloc s" and inside: "in_file img s"
    and f: "f = file_part s"
  shows "mem_image_read m img (seg_paddr s + reloc) (seg_offset s) f =
           (f, mon_memcpy m (seg_paddr s + reloc) (image_ptr img + seg_offset s) f)"
    and "(if f < seg_memsz s
          then mon_memset (mon_memcpy m (seg_paddr s + reloc) (image_ptr img + seg_offset s) f)
                 (seg_paddr s + f + reloc) 0 (seg_memsz s - f)
          else mon_memcpy m (seg_paddr s + reloc) (image_ptr img + seg_offset s) f)
         = place_segment m img reloc s m"
proof -
  define d where "d = seg_paddr s + reloc"
  define v where "v = image_ptr img + seg_offset s"
  let ?n = "unat (seg_memsz s)"
  show "mem_image_read m img (seg_paddr s + reloc) (seg_offset s) f =
          (f, mon_memcpy m (seg_paddr s + reloc) (image_ptr img + seg_offset s) f)"
    using inside f by (intro mem_image_read_in_bounds) (simp add: in_file_def)
  have le: "unat f \<le> ?n" by (simp add: f file_part_def min_def word_le_nat_alt)
  have "disjoint_ranges d (unat f) v (unat f)"
    using apart inside le f unfolding off_image_def in_file_def d_def v_def
    by (intro disjoint_ranges_sub) auto
  note copy = mon_memcpy_disjoint [OF this, unfolded in_range_def]
  have start: "seg_paddr s + f + reloc = d + f" by (simp add: d_def)
  have len: "unat (seg_memsz s - f) = ?n - unat f"
    using le by (simp add: unat_sub_if_size)
  have tail: "in_range (d + f) (?n - unat f) x \<longleftrightarrow> unat f \<le> unat (x - d) \<and> unat (x - d) < ?n" for x
    using le by (intro in_range_tail) simp_all
  have place: "place_segment m img reloc s m x =
      (if unat (x - d) < ?n then if unat (x - d) < unat f then m (v + (x - d)) else 0 else m x)" for x
    by (simp add: place_segment_def segment_byte_def f [symmetric] in_range_def word_less_nat_alt
        d_def v_def)
  have "(if f < seg_memsz s then mon_memset (mon_memcpy m d v f) (d + f) 0 (seg_memsz s - f)
         else mon_memcpy m d v f) x = place_segment m img reloc s m x" for x
    using le by (auto simp: place mon_memset_apply copy len tail word_less_nat_alt)
  then show "(if f < seg_memsz s
          then mon_memset (mon_memcpy m (seg_paddr s + reloc) (image_ptr img + seg_offset s) f)
                 (seg_paddr s + f + reloc) 0 (seg_memsz s - f)
          else mon_memcpy m (seg_paddr s + reloc) (image_ptr img + seg_offset s) f)
         = place_segment m img reloc s m"
    unfolding start d_def v_def by (intro ext)
qed

section \<open>Headers inside the image\<close>

definition phdrtab64 :: "elf_abi \<Rightarrow> mem \<Rightarrow> addr \<Rightarrow> addr" where
  "phdrtab64 L m ehdr = ehdr + load64 m (ehdr + off64 L E_phoff)"

definition elf64_headers_ok :: "elf_abi \<Rightarrow> mem \<Rightarrow> mem_image_access \<Rightarrow> bool" where
  "elf64_headers_ok L m img \<longleftrightarrow>
     (let ehdr = image_ptr img;
          n = unat (load16 m (ehdr + off64 L E_phnum));
          entsize = unat (load16 m (ehdr + off64 L E_phentsize))
      in unat (sz64 L Ehdr) \<le> unat (image_size img) \<and> n < 2 ^ 15 \<and> unat (sz64 L Phdr) \<le> entsize \<and>
         unat (load64 m (ehdr + off64 L E_phoff)) + n * entsize \<le> unat (image_size img))"

lemma ehdr_fields_same:
  assumes "elf64_abi_ok L" and "unat (sz64 L Ehdr) \<le> n" and "same_bytes m p m' q n" and "n \<le> 2 ^ 64"
  shows "load16 m' (q + off64 L E_phnum) = load16 m (p + off64 L E_phnum)"
    and "load16 m' (q + off64 L E_phentsize) = load16 m (p + off64 L E_phentsize)"
    and "load64 m' (q + off64 L E_phoff) = load64 m (p + off64 L E_phoff)"
  using abi64_ehdr_field [OF assms(1), of E_phnum] abi64_ehdr_field [OF assms(1), of E_phentsize]
    abi64_ehdr_field [OF assms(1), of E_phoff] assms(2,4)
  by (auto intro!: same_bytes_load [OF assms(3)] simp: ehdr_fields_def)

lemmas ehdr_field_agrees = ehdr_fields_same [OF _ _ image_agrees_same_bytes less_imp_le [OF unat_less64]]

lemma phdr_indices_nth: "unat n < 2 ^ 15 \<Longrightarrow> phdr_indices n = [0..<unat n]"
proof -
  assume n: "unat n < 2 ^ 15"
  then have "n = of_nat (unat n)" "sint (of_nat (unat n) :: u16) = int (unat n)"
    by (simp, intro sint16_of_nat)
  then have "sint n = int (unat n)" by simp
  then show ?thesis by (simp add: phdr_indices_def)
qed

text \<open>Entry \<open>i\<close> of the table, as an offset into the image.\<close>

definition phdr_off64 :: "elf_abi \<Rightarrow> mem \<Rightarrow> addr \<Rightarrow> nat \<Rightarrow> u64" where
  "phdr_off64 L m ehdr i =
     load64 m (ehdr + off64 L E_phoff) + of_nat i * ucast (load16 m (ehdr + off64 L E_phentsize))"

lemma get_phdr64_offset:
  assumes "get_phdr64_ok L" and "i < 2 ^ 15"
  shows "get_phdr64 L m ehdr (phdrtab64 L m0 ehdr) (of_nat i) =
         ehdr + (load64 m0 (ehdr + off64 L E_phoff) +
                 of_nat i * ucast (load16 m (ehdr + off64 L E_phentsize)))"
proof -
  have "0 \<le> sint (of_nat i :: u16)" using assms(2) by (simp add: sint16_of_nat)
  moreover have "(ucast (of_nat i :: u16) :: u64) = of_nat i"
    using assms(2) by (simp add: word_unat_eq_iff unsigned_ucast_eq unsigned_take_bit_eq
        unat_of_nat take_bit_nat_eq_self unat_of_nat64)
  ultimately show ?thesis using assms(1) by (simp add: get_phdr64_ok_def phdrtab64_def add.assoc)
qed

lemma unat_phdr_off64:
  assumes ok: "elf64_headers_ok L m img" and i: "i < unat (load16 m (image_ptr img + off64 L E_phnum))"
  shows "unat (phdr_off64 L m (image_ptr img) i) + unat (sz64 L Phdr) \<le> unat (image_size img)"
proof -
  let ?off = "load64 m (image_ptr img + off64 L E_phoff)"
  let ?es = "load16 m (image_ptr img + off64 L E_phentsize)"
  have "Suc i * unat ?es \<le> unat (load16 m (image_ptr img + off64 L E_phnum)) * unat ?es"
    using i by (intro mult_le_mono1) simp
  then have le: "unat ?off + i * unat ?es + unat (sz64 L Phdr) \<le> unat (image_size img)"
    using ok by (simp add: elf64_headers_ok_def Let_def)
  then have fits: "unat ?off + i * unat ?es < 2 ^ 64"
    using unat_less64 [of "image_size img"] by linarith
  have "phdr_off64 L m (image_ptr img) i = ?off + of_nat (i * unat ?es)"
    by (simp add: phdr_off64_def)
  then have "unat (phdr_off64 L m (image_ptr img) i) = unat ?off + i * unat ?es"
    using unat_add_offset [OF fits] by simp
  with le show ?thesis by simp
qed

lemma phdr_field_same:
  assumes "elf64_abi_ok L" and "unat v + unat (sz64 L Phdr) \<le> n"
    and "same_bytes m p m' q n" and "n \<le> 2 ^ 64" and "f \<in> phdr_fields"
  shows "load_le (width64 f) m' (q + v + off64 L f) = load_le (width64 f) m (p + v + off64 L f)"
proof -
  have fit: "unat (off64 L f) + width64 f \<le> unat (sz64 L Phdr)"
    using assms(1,5) by (rule abi64_phdr_field)
  moreover have "0 < width64 f" by (cases f) simp_all
  ultimately have "unat (v + off64 L f) = unat v + unat (off64 L f)"
    using assms(2,4) by (subst unat_add64, intro mod_less) (linarith)
  then show ?thesis
    using same_bytes_load [OF assms(3), of "v + off64 L f" "width64 f"] assms(2,4) fit
    by (simp add: add.assoc)
qed

lemma segment_at64_same:
  assumes "elf64_abi_ok L" and "unat v + unat (sz64 L Phdr) \<le> n"
    and "same_bytes m p m' q n" and "n \<le> 2 ^ 64"
  shows "segment_at64 L m' (q + v) = segment_at64 L m (p + v)"
  unfolding segment_at64_def
  by (simp add: phdr_field_same [OF assms, of P_type, simplified phdr_fields_def, simplified]
      phdr_field_same [OF assms, of P_offset, simplified phdr_fields_def, simplified]
      phdr_field_same [OF assms, of P_paddr, simplified phdr_fields_def, simplified]
      phdr_field_same [OF assms, of P_filesz, simplified phdr_fields_def, simplified]
      phdr_field_same [OF assms, of P_memsz, simplified phdr_fields_def, simplified])

lemmas segment_at64_agrees = segment_at64_same [OF _ _ image_agrees_same_bytes less_imp_le [OF unat_less64]]

section \<open>The loop places the loadable segments\<close>

definition dynamic_phdr64 :: "elf_abi \<Rightarrow> mem \<Rightarrow> addr list \<Rightarrow> addr \<Rightarrow> addr" where
  "dynamic_phdr64 L m phdrs dflt =
     last (dflt # filter (\<lambda>p. seg_type (segment_at64 L m p) = K L PT_DYNAMIC) phdrs)"

lemma dynamic_phdr64_simps [simp]:
  "dynamic_phdr64 L m [] dflt = dflt"
  "dynamic_phdr64 L m (p # ps) dflt = dynamic_phdr64 L m ps
     (if seg_type (segment_at64 L m p) = K L PT_DYNAMIC then p else dflt)"
  by (simp_all add: dynamic_phdr64_def)

text \<open>One step of the loop, over the segment record of its program header.\<close>

lemma load_segments64_step:
  assumes more: "int i < sint (load16 m (ehdr + off64 L E_phnum))"
    and s: "s = segment_at64 L m (get_phdr64 L m ehdr phdrtab (of_nat i))"
    and loc: "loadable L s \<Longrightarrow> off_image img reloc s \<and> in_file img s"
    and ne: "K L PT_LOAD \<noteq> K L PT_DYNAMIC"
  shows "load_segments64 L img reloc ehdr phdrtab i m dyn =
         load_segments64 L img reloc ehdr phdrtab (Suc i)
           (if loadable L s then place_segment m img reloc s m else m)
           (if seg_type s = K L PT_DYNAMIC then get_phdr64 L m ehdr phdrtab (of_nat i) else dyn)"
proof -
  define phdr where "phdr = get_phdr64 L m ehdr phdrtab (of_nat i)"
  have fields: "ucast (load32 m (phdr + off64 L P_type)) = seg_type s"
    "load64 m (phdr + off64 L P_offset) = seg_offset s"
    "load64 m (phdr + off64 L P_paddr) = seg_paddr s"
    "load64 m (phdr + off64 L P_filesz) = seg_filesz s"
    "load64 m (phdr + off64 L P_memsz) = seg_memsz s"
    by (simp_all add: s segment_at64_def phdr_def)
  show ?thesis
  proof (cases "loadable L s")
    case False
    then show ?thesis using more ne
      unfolding load_segments64.simps [of L img reloc ehdr phdrtab i] phdr_def [symmetric] Let_def fields
      by (auto simp: loadable_def)
  next
    case True
    define f where "f = file_part s"
    note copy = copy_one_segment [OF loc [OF True, THEN conjunct1] loc [OF True, THEN conjunct2] f_def, of m]
    have f: "(if seg_filesz s > seg_memsz s then seg_memsz s else seg_filesz s) = f"
      by (auto simp: f_def file_part_def min_def)
    show ?thesis using more ne True copy
      unfolding load_segments64.simps [of L img reloc ehdr phdrtab i] phdr_def [symmetric] Let_def fields f
      by (auto simp: loadable_def)
  qed
qed

text \<open>A file whose loadable segments lie in it, loaded to windows that do not touch it.\<close>

definition elf64_image_ok :: "elf_abi \<Rightarrow> mem \<Rightarrow> mem_image_access \<Rightarrow> bool" where
  "elf64_image_ok L m img \<longleftrightarrow>
     elf64_headers_ok L m img \<and>
     (\<forall>s \<in> set (segments64 L m (image_ptr img) (phdrtab64 L m (image_ptr img))).
        loadable L s \<longrightarrow> in_file img s)"

definition targets_off_image :: "elf_abi \<Rightarrow> mem \<Rightarrow> mem_image_access \<Rightarrow> u64 \<Rightarrow> bool" where
  "targets_off_image L m img reloc \<longleftrightarrow>
     (\<forall>s \<in> set (segments64 L m (image_ptr img) (phdrtab64 L m (image_ptr img))).
        loadable L s \<longrightarrow> off_image img reloc s)"

lemma place_segment_src:
  "image_agrees img m m' \<Longrightarrow> in_file img s \<Longrightarrow> place_segment m' img reloc s = place_segment m img reloc s"
  by (intro ext) (simp add: place_segment_def segment_byte_agrees)

lemma phdrs64_nth:
  assumes L: "get_phdr64_ok L" and ok: "elf64_headers_ok L m img"
    and i: "i < unat (load16 m (image_ptr img + off64 L E_phnum))"
  defines "ehdr \<equiv> image_ptr img"
  shows "get_phdr64 L m ehdr (phdrtab64 L m ehdr) (of_nat i) = ehdr + phdr_off64 L m ehdr i"
    and "phdrs64 L m ehdr (phdrtab64 L m ehdr) ! i = ehdr + phdr_off64 L m ehdr i"
    and "length (phdrs64 L m ehdr (phdrtab64 L m ehdr)) = unat (load16 m (ehdr + off64 L E_phnum))"
proof -
  let ?n = "unat (load16 m (ehdr + off64 L E_phnum))"
  have n: "?n < 2 ^ 15" using ok by (simp add: elf64_headers_ok_def Let_def ehdr_def)
  show g: "get_phdr64 L m ehdr (phdrtab64 L m ehdr) (of_nat i) = ehdr + phdr_off64 L m ehdr i"
    using get_phdr64_offset [OF L, of i m ehdr m] i n by (simp add: phdr_off64_def ehdr_def)
  show "phdrs64 L m ehdr (phdrtab64 L m ehdr) ! i = ehdr + phdr_off64 L m ehdr i"
    and "length (phdrs64 L m ehdr (phdrtab64 L m ehdr)) = ?n"
    using g i n by (simp_all add: phdrs64_def phdr_indices_nth ehdr_def)
qed

lemma load_segments64_loop:
  assumes abi: "elf64_abi_ok L" and phdr: "get_phdr64_ok L"
    and ok: "elf64_image_ok L m img" and away: "targets_off_image L m img reloc"
  defines "ehdr \<equiv> image_ptr img"
  defines "tab \<equiv> phdrtab64 L m ehdr"
  shows "image_agrees img m m' \<Longrightarrow> i \<le> unat (load16 m (ehdr + off64 L E_phnum)) \<Longrightarrow>
    load_segments64 L img reloc ehdr tab i m' dyn =
      (MON_OK, place_segments m img reloc (filter (loadable L) (drop i (segments64 L m ehdr tab))) m',
       dynamic_phdr64 L m (drop i (phdrs64 L m ehdr tab)) dyn)"
proof (induction "unat (load16 m (ehdr + off64 L E_phnum)) - i" arbitrary: i m' dyn)
  case 0
  note hd = ok [unfolded elf64_image_ok_def, THEN conjunct1]
  let ?n = "load16 m (ehdr + off64 L E_phnum)"
  have n: "unat ?n < 2 ^ 15" "unat (sz64 L Ehdr) \<le> unat (image_size img)"
    using hd by (simp_all add: elf64_headers_ok_def Let_def ehdr_def)
  from 0 have i: "i = unat ?n" by simp
  have "sint ?n = int (unat ?n)" using sint16_of_nat [OF n(1)] by simp
  moreover have "load16 m' (ehdr + off64 L E_phnum) = ?n"
    unfolding ehdr_def by (rule ehdr_field_agrees [OF abi n(2) 0(2)])
  moreover have "length (phdrs64 L m ehdr tab) = unat ?n"
    using n by (simp add: phdrs64_def phdr_indices_nth)
  ultimately show ?case using i
    by (subst load_segments64.simps) (simp add: segments64_def)
next
  case (Suc k)
  note hd = ok [unfolded elf64_image_ok_def, THEN conjunct1]
  let ?n = "load16 m (ehdr + off64 L E_phnum)"
  let ?p = "ehdr + phdr_off64 L m ehdr i" and ?s = "segment_at64 L m (ehdr + phdr_off64 L m ehdr i)"
  have n: "unat ?n < 2 ^ 15" "unat (sz64 L Ehdr) \<le> unat (image_size img)"
    using hd by (simp_all add: elf64_headers_ok_def Let_def ehdr_def)
  from Suc have i: "i < unat ?n" by simp
  have sint_n: "sint ?n = int (unat ?n)" using sint16_of_nat [OF n(1)] by simp
  note fields = ehdr_field_agrees [OF abi n(2) Suc.prems(1), folded ehdr_def]
  have more: "int i < sint (load16 m' (ehdr + off64 L E_phnum))"
    unfolding fields using i sint_n by (simp only: of_nat_less_iff)
  have g: "get_phdr64 L m' ehdr tab (of_nat i) = ?p"
    using get_phdr64_offset [OF phdr, of i m' ehdr m] i n fields by (simp add: phdr_off64_def tab_def)
  note nth = phdrs64_nth [OF phdr hd i [unfolded ehdr_def], folded ehdr_def, folded tab_def]
  have s': "segment_at64 L m' ?p = ?s"
    using segment_at64_agrees [OF abi unat_phdr_off64 [OF hd i [unfolded ehdr_def]] Suc.prems(1)]
    by (simp add: ehdr_def)
  then have s'': "?s = segment_at64 L m' (get_phdr64 L m' ehdr tab (of_nat i))" by (simp add: g)
  have in_tab: "?s \<in> set (segments64 L m ehdr tab)"
    using nth i by (force simp: segments64_def in_set_conv_nth)
  then have loc: "loadable L ?s \<Longrightarrow> off_image img reloc ?s \<and> in_file img ?s"
    using ok away by (auto simp: elf64_image_ok_def targets_off_image_def tab_def ehdr_def)
  define m1 where "m1 = (if loadable L ?s then place_segment m img reloc ?s m' else m')"
  have agrees: "image_agrees img m m1"
    using Suc.prems(1) loc image_agrees_trans [OF Suc.prems(1) place_segment_agrees]
    by (auto simp: m1_def place_segment_agrees intro: image_agrees_trans)
  have "load_segments64 L img reloc ehdr tab i m' dyn =
        load_segments64 L img reloc ehdr tab (Suc i) m1 (if seg_type ?s = K L PT_DYNAMIC then ?p else dyn)"
    using load_segments64_step [OF more s'' loc abi64_consts(1) [OF abi]] place_segment_src [OF Suc.prems(1)] loc
    by (auto simp: m1_def g)
  moreover have "drop i (phdrs64 L m ehdr tab) = ?p # drop (Suc i) (phdrs64 L m ehdr tab)"
    using nth i by (metis Cons_nth_drop_Suc)
  ultimately show ?case
    using Suc.hyps(1) [of "Suc i" m1] Suc.hyps(2) i agrees
    by (simp add: segments64_def m1_def drop_map)
qed

section \<open>What the placed memory holds\<close>

definition window :: "u64 \<Rightarrow> segment \<Rightarrow> addr \<Rightarrow> bool" where
  "window reloc s x \<longleftrightarrow> in_range (seg_paddr s + reloc) (unat (seg_memsz s)) x"

fun windows_disjoint :: "u64 \<Rightarrow> segment list \<Rightarrow> bool" where
  "windows_disjoint reloc [] \<longleftrightarrow> True"
| "windows_disjoint reloc (s # ss) \<longleftrightarrow>
     (\<forall>t \<in> set ss. disjoint_ranges (seg_paddr s + reloc) (unat (seg_memsz s))
                     (seg_paddr t + reloc) (unat (seg_memsz t))) \<and> windows_disjoint reloc ss"

lemma place_segments_outside:
  "(\<And>s. s \<in> set ss \<Longrightarrow> \<not> window reloc s x) \<Longrightarrow> place_segments src img reloc ss m x = m x"
  by (induction ss arbitrary: m) (auto simp: place_segment_def window_def)

lemma place_segments_inside:
  assumes "windows_disjoint reloc ss" and "s \<in> set ss" and "window reloc s x"
  shows "place_segments src img reloc ss m x = segment_byte src img s (x - (seg_paddr s + reloc))"
  using assms
proof (induction ss arbitrary: m)
  case Nil
  then show ?case by simp
next
  case (Cons t ss)
  show ?case
  proof (cases "s \<in> set ss")
    case True
    with Cons show ?thesis by simp
  next
    case False
    with Cons.prems have st: "s = t" by simp
    have "\<not> window reloc u x" if "u \<in> set ss" for u
      using Cons.prems that unfolding st window_def by (auto dest: disjoint_ranges_not_both)
    then have "place_segments src img reloc ss (place_segment src img reloc t m) x
               = place_segment src img reloc t m x"
      by (rule place_segments_outside)
    then show ?thesis using Cons.prems(3) by (simp add: st place_segment_def window_def)
  qed
qed

section \<open>Moving the copied program headers\<close>

definition move_segment :: "u64 \<Rightarrow> segment \<Rightarrow> segment" where
  "move_segment reloc s = (if seg_memsz s \<noteq> 0 then s\<lparr>seg_paddr := seg_paddr s + reloc\<rparr> else s)"

definition update_phdr64 :: "elf_abi \<Rightarrow> u64 \<Rightarrow> addr \<Rightarrow> mem \<Rightarrow> mem" where
  "update_phdr64 L reloc phdr m =
     (if load64 m (phdr + off64 L P_memsz) \<noteq> 0 then
        let m1 = store64 m (phdr + off64 L P_paddr) (load64 m (phdr + off64 L P_paddr) + reloc)
        in store64 m1 (phdr + off64 L P_vaddr) (load64 m1 (phdr + off64 L P_vaddr) + reloc)
      else m)"

lemma update_phdrs64_step:
  "int i < sint (load16 m (ehdr + off64 L E_phnum)) \<Longrightarrow>
   update_phdrs64 L reloc ehdr tab i m =
   update_phdrs64 L reloc ehdr tab (Suc i) (update_phdr64 L reloc (get_phdr64 L m ehdr tab (of_nat i)) m)"
  by (subst update_phdrs64.simps) (simp add: update_phdr64_def Let_def)

lemma update_phdr64_outside:
  assumes "elf64_abi_ok L" and "\<not> in_range phdr (unat (sz64 L Phdr)) x"
  shows "update_phdr64 L reloc phdr m x = m x"
proof -
  have "\<not> in_range (phdr + off64 L f) 8 x" if "f \<in> {P_vaddr, P_paddr}" for f
    using assms(2) that in_range_sub [of phdr "off64 L f" 8 x "unat (sz64 L Phdr)"]
      abi64_phdr_field [OF assms(1), of f]
    by (auto simp: phdr_fields_def)
  then show ?thesis by (simp add: update_phdr64_def Let_def store_le_apply)
qed

lemma segment_at64_cong:
  assumes "elf64_abi_ok L" and "\<And>x. in_range phdr (unat (sz64 L Phdr)) x \<Longrightarrow> m' x = m x"
  shows "segment_at64 L m' phdr = segment_at64 L m phdr"
  using segment_at64_agrees [OF assms(1), of 0 "\<lparr>gen = Mem_Image_Ops, image_ptr = phdr, image_size = sz64 L Phdr\<rparr>" m m']
    assms(2) by (simp add: image_agrees_def)

lemma phdr_store_other:
  assumes abi: "elf64_abi_ok L" and f: "f \<in> {P_vaddr, P_paddr}" and g: "g \<in> phdr_fields" "g \<noteq> f"
  shows "load_le (width64 g) (store64 m (phdr + off64 L f) w) (phdr + off64 L g)
         = load_le (width64 g) m (phdr + off64 L g)"
proof (rule load_store_disjoint)
  have ff: "f \<in> phdr_fields" "width64 f = 8" using f by (auto simp: phdr_fields_def)
  note fit = abi64_phdr_field [OF abi ff(1)] abi64_phdr_field [OF abi g(1)] abi64_sizes(2) [OF abi]
  have "unat (off64 L f) + 8 \<le> unat (off64 L g) \<or> unat (off64 L g) + width64 g \<le> unat (off64 L f)"
    using abi64_apart [OF abi] f g ff by (auto simp: phdr_addresses_apart_def)
  then show "disjoint_ranges (phdr + off64 L f) 8 (phdr + off64 L g) (width64 g)"
    using fit ff(2) by (intro fields_disjoint) auto
  show "width64 g \<le> 2 ^ 64" by (cases g) simp_all
qed simp

lemma update_phdr64_segment:
  assumes abi: "elf64_abi_ok L"
  shows "segment_at64 L (update_phdr64 L reloc phdr m) phdr = move_segment reloc (segment_at64 L m phdr)"
proof -
  have mem: "P_type \<in> phdr_fields" "P_offset \<in> phdr_fields" "P_filesz \<in> phdr_fields"
    "P_memsz \<in> phdr_fields" "P_paddr \<in> phdr_fields"
    by (simp_all add: phdr_fields_def)
  note other = phdr_store_other [OF abi _ mem(1), simplified] phdr_store_other [OF abi _ mem(2), simplified]
    phdr_store_other [OF abi _ mem(3), simplified] phdr_store_other [OF abi _ mem(4), simplified]
    phdr_store_other [OF abi _ mem(5), simplified]
  show ?thesis
    by (simp add: segment_at64_def update_phdr64_def move_segment_def Let_def other)
qed

lemma phdr_off64_cong:
  assumes "elf64_abi_ok L" and "\<And>x. in_range ehdr (unat (sz64 L Ehdr)) x \<Longrightarrow> m' x = m x"
  shows "phdr_off64 L m' ehdr = phdr_off64 L m ehdr"
    and "load16 m' (ehdr + off64 L E_phnum) = load16 m (ehdr + off64 L E_phnum)"
    and "phdrtab64 L m' ehdr = phdrtab64 L m ehdr"
  using ehdr_field_agrees [OF assms(1), of "\<lparr>gen = Mem_Image_Ops, image_ptr = ehdr, image_size = sz64 L Ehdr\<rparr>" m m']
    assms(2) by (simp_all add: image_agrees_def phdr_off64_def fun_eq_iff phdrtab64_def)

text \<open>The table entries lie behind one another and behind the header.\<close>

lemma phdr_entries_apart:
  assumes ok: "elf64_headers_ok L m img" and behind: "unat (sz64 L Ehdr) \<le> unat (load64 m (ehdr + off64 L E_phoff))"
    and i: "i < unat (load16 m (ehdr + off64 L E_phnum))" and ehdr: "ehdr = image_ptr img"
    and x: "in_range (ehdr + phdr_off64 L m ehdr i) (unat (sz64 L Phdr)) x"
  shows "\<not> in_range ehdr (unat (sz64 L Ehdr)) x"
    and "j < unat (load16 m (ehdr + off64 L E_phnum)) \<Longrightarrow> j \<noteq> i \<Longrightarrow>
         \<not> in_range (ehdr + phdr_off64 L m ehdr j) (unat (sz64 L Phdr)) x"
proof -
  let ?off = "unat (load64 m (ehdr + off64 L E_phoff))"
  let ?es = "unat (load16 m (ehdr + off64 L E_phentsize))"
  let ?n = "unat (load16 m (ehdr + off64 L E_phnum))" and ?P = "unat (sz64 L Phdr)"
  have P: "?P \<le> ?es" and tab: "?off + ?n * ?es \<le> unat (image_size img)"
    using ok by (simp_all add: elf64_headers_ok_def Let_def ehdr)
  have entry: "unat (phdr_off64 L m ehdr k) = ?off + k * ?es" "?off + k * ?es + ?es \<le> unat (image_size img)"
    if "k < ?n" for k
  proof -
    have "Suc k * ?es \<le> ?n * ?es" using that by (intro mult_le_mono1) simp
    then show le: "?off + k * ?es + ?es \<le> unat (image_size img)" using tab by simp
    have "phdr_off64 L m ehdr k = load64 m (ehdr + off64 L E_phoff) + of_nat (k * ?es)"
      by (simp add: phdr_off64_def)
    moreover have "?off + k * ?es < 2 ^ 64 \<or> ?es = 0"
      using le unat_less64 [of "image_size img"] by linarith
    ultimately show "unat (phdr_off64 L m ehdr k) = ?off + k * ?es"
      using unat_add_offset [of "load64 m (ehdr + off64 L E_phoff)" "k * ?es"] by auto
  qed
  have pos: "unat (x - ehdr) = ?off + k * ?es + unat (x - (ehdr + phdr_off64 L m ehdr k)) \<and>
             unat (x - ehdr) < ?off + k * ?es + ?es"
    if k: "k < ?n" and xk: "in_range (ehdr + phdr_off64 L m ehdr k) ?P x" for k
  proof -
    have "x - ehdr = phdr_off64 L m ehdr k + (x - (ehdr + phdr_off64 L m ehdr k))" by simp
    then have "unat (x - ehdr) = (unat (phdr_off64 L m ehdr k) + unat (x - (ehdr + phdr_off64 L m ehdr k))) mod 2 ^ 64"
      by (metis unat_add64)
    moreover have lt: "unat (x - (ehdr + phdr_off64 L m ehdr k)) < ?es"
      using xk P by (simp add: in_range_def)
    moreover from lt have "?off + k * ?es + unat (x - (ehdr + phdr_off64 L m ehdr k)) < 2 ^ 64"
      using entry(2) [OF k] unat_less64 [of "image_size img"] by linarith
    ultimately show ?thesis by (simp add: entry(1) [OF k])
  qed
  from pos [OF i x] behind show "\<not> in_range ehdr (unat (sz64 L Ehdr)) x"
    by (simp add: in_range_def)
  show "\<not> in_range (ehdr + phdr_off64 L m ehdr j) ?P x" if j: "j < ?n" "j \<noteq> i"
  proof
    assume xj: "in_range (ehdr + phdr_off64 L m ehdr j) ?P x"
    from j consider "Suc i * ?es \<le> j * ?es" | "Suc j * ?es \<le> i * ?es"
      by (metis linorder_neqE_nat mult_le_mono1 Suc_leI)
    then show False
      using pos [OF i x] pos [OF j(1) xj] by cases auto
  qed
qed

definition entry64 :: "elf_abi \<Rightarrow> mem \<Rightarrow> addr \<Rightarrow> nat \<Rightarrow> addr \<Rightarrow> bool" where
  "entry64 L m ehdr i x \<longleftrightarrow> in_range (ehdr + phdr_off64 L m ehdr i) (unat (sz64 L Phdr)) x"

lemma update_phdrs64_loop:
  assumes abi: "elf64_abi_ok L" and phdr: "get_phdr64_ok L"
    and ok: "elf64_headers_ok L m img" and behind: "unat (sz64 L Ehdr) \<le> unat (load64 m (ehdr + off64 L E_phoff))"
    and ehdr: "ehdr = image_ptr img"
  defines "n \<equiv> unat (load16 m (ehdr + off64 L E_phnum))"
  shows "(\<And>x. in_range ehdr (unat (sz64 L Ehdr)) x \<Longrightarrow> m1 x = m x) \<Longrightarrow> i \<le> n \<Longrightarrow>
    m' = update_phdrs64 L reloc ehdr (phdrtab64 L m ehdr) i m1 \<Longrightarrow>
    (\<forall>x. (\<forall>j. i \<le> j \<and> j < n \<longrightarrow> \<not> entry64 L m ehdr j x) \<longrightarrow> m' x = m1 x) \<and>
    (\<forall>j. i \<le> j \<and> j < n \<longrightarrow> segment_at64 L m' (ehdr + phdr_off64 L m ehdr j) =
       move_segment reloc (segment_at64 L m1 (ehdr + phdr_off64 L m ehdr j)))"
proof (induction "n - i" arbitrary: i m1)
  case 0
  have n15: "n < 2 ^ 15" using ok by (simp add: elf64_headers_ok_def Let_def n_def ehdr)
  have "sint (load16 m1 (ehdr + off64 L E_phnum)) = int n"
    using phdr_off64_cong(2) [OF abi 0(2)] sint16_of_nat [of n] n15 by (simp add: n_def)
  with 0 show ?case by (auto simp: update_phdrs64.simps [of L reloc ehdr _ i m1])
next
  case (Suc k)
  let ?p = "ehdr + phdr_off64 L m ehdr i"
  let ?m2 = "update_phdr64 L reloc ?p m1"
  have n15: "n < 2 ^ 15" using ok by (simp add: elf64_headers_ok_def Let_def n_def ehdr)
  have i: "i < n" using Suc.hyps(2) by simp
  note cong = phdr_off64_cong [OF abi Suc.prems(1)]
  have "get_phdr64 L m1 ehdr (phdrtab64 L m ehdr) (of_nat i) = ehdr + phdr_off64 L m1 ehdr i"
    using get_phdr64_offset [OF phdr, of i m1 ehdr m1] i n15 cong(3) by (simp add: phdr_off64_def)
  then have g: "get_phdr64 L m1 ehdr (phdrtab64 L m ehdr) (of_nat i) = ?p" by (simp add: cong(1))
  have "sint (load16 m1 (ehdr + off64 L E_phnum)) = int n"
    using cong(2) sint16_of_nat [of n] n15 by (simp add: n_def)
  then have more: "int i < sint (load16 m1 (ehdr + off64 L E_phnum))" using i by simp
  have m': "m' = update_phdrs64 L reloc ehdr (phdrtab64 L m ehdr) (Suc i) ?m2"
    using Suc.prems(3) update_phdrs64_step [OF more] g by simp
  note apart = phdr_entries_apart [OF ok behind i [unfolded n_def] ehdr]
  have frame: "?m2 x = m1 x" if "\<not> entry64 L m ehdr i x" for x
    using that by (simp add: entry64_def update_phdr64_outside [OF abi])
  have hd: "?m2 x = m x" if "in_range ehdr (unat (sz64 L Ehdr)) x" for x
    using that frame [of x] apart(1) [of x] Suc.prems(1) by (auto simp: entry64_def)
  have IH: "(\<forall>x. (\<forall>j. Suc i \<le> j \<and> j < n \<longrightarrow> \<not> entry64 L m ehdr j x) \<longrightarrow> m' x = ?m2 x) \<and>
    (\<forall>j. Suc i \<le> j \<and> j < n \<longrightarrow> segment_at64 L m' (ehdr + phdr_off64 L m ehdr j) =
       move_segment reloc (segment_at64 L ?m2 (ehdr + phdr_off64 L m ehdr j)))"
    using Suc.hyps i by (intro Suc.hyps(1) [OF _ hd _ m']) auto
  have "m' x = m1 x" if "\<forall>j. i \<le> j \<and> j < n \<longrightarrow> \<not> entry64 L m ehdr j x" for x
    using IH that frame i by simp
  moreover have "segment_at64 L m' ?p = move_segment reloc (segment_at64 L m1 ?p)"
  proof -
    have "segment_at64 L m' ?p = segment_at64 L ?m2 ?p"
      using IH apart(2) by (intro segment_at64_cong [OF abi]) (auto simp: entry64_def n_def)
    then show ?thesis by (simp add: update_phdr64_segment [OF abi])
  qed
  moreover have "segment_at64 L m' (ehdr + phdr_off64 L m ehdr j) =
      move_segment reloc (segment_at64 L m1 (ehdr + phdr_off64 L m ehdr j))" if j: "Suc i \<le> j" "j < n" for j
  proof -
    have "segment_at64 L ?m2 (ehdr + phdr_off64 L m ehdr j) = segment_at64 L m1 (ehdr + phdr_off64 L m ehdr j)"
      using phdr_entries_apart(2) [OF ok behind, of j _ i] j i ehdr frame
      by (intro segment_at64_cong [OF abi]) (auto simp: entry64_def n_def)
    then show ?thesis using IH j by simp
  qed
  ultimately show ?case by (metis le_antisym not_less_eq_eq)
qed

end
