(* ===== verification/Elf64_Load.thy ===== *)
theory Elf64_Load
  imports Elf64_Segments
begin

text \<open>
  The 64-bit load up to the relocation, composed from the loops: the segment copy and the update of the copied
  program headers. \<open>Elf64_Image\<close> goes on from there.
\<close>

section \<open>The segments of an image\<close>

definition no_dynamic :: "elf_abi \<Rightarrow> mem \<Rightarrow> mem_image_access \<Rightarrow> bool" where
  "no_dynamic L m img \<longleftrightarrow>
     (\<forall>s \<in> set (segments64 L m (image_ptr img) (phdrtab64 L m (image_ptr img))).
        seg_type s \<noteq> K L PT_DYNAMIC)"

definition loaded_segments64 :: "elf_abi \<Rightarrow> mem \<Rightarrow> mem_image_access \<Rightarrow> segment list" where
  "loaded_segments64 L m img =
     filter (loadable L) (segments64 L m (image_ptr img) (phdrtab64 L m (image_ptr img)))"

lemma dynamic_phdr64_none:
  "(\<And>p. p \<in> set ps \<Longrightarrow> seg_type (segment_at64 L m p) \<noteq> K L PT_DYNAMIC) \<Longrightarrow> dynamic_phdr64 L m ps d = d"
  by (induction ps) auto

lemma headers64_granted:
  assumes "elf64_headers_ok L m img"
  defines "phsize \<equiv> ucast (load16 m (image_ptr img + off64 L E_phnum)) *
                     ucast (load16 m (image_ptr img + off64 L E_phentsize)) :: u32"
  shows "mem_image_map_to_mem img 0 (sz64 L Ehdr) = (sz64 L Ehdr, image_ptr img)"
    and "mem_image_map_to_mem img (load64 m (image_ptr img + off64 L E_phoff)) (ucast phsize)
         = (ucast phsize, phdrtab64 L m (image_ptr img))"
proof -
  let ?n = "load16 m (image_ptr img + off64 L E_phnum)" and ?es = "load16 m (image_ptr img + off64 L E_phentsize)"
  have ok: "unat (sz64 L Ehdr) \<le> unat (image_size img)" "unat ?n < 2 ^ 15"
    "unat (load64 m (image_ptr img + off64 L E_phoff)) + unat ?n * unat ?es \<le> unat (image_size img)"
    using assms(1) by (simp_all add: elf64_headers_ok_def Let_def)
  then show "mem_image_map_to_mem img 0 (sz64 L Ehdr) = (sz64 L Ehdr, image_ptr img)"
    by (simp add: mem_image_map_to_mem_def)
  have "unat ?n * unat ?es \<le> 2 ^ 15 * 2 ^ 16"
    using ok(2) unat_less16 [of ?es] by (intro mult_le_mono) (simp_all del: unat_less16)
  then have "unat ?n * unat ?es < 2 ^ 32" by simp
  then have "unat phsize = unat ?n * unat ?es"
    by (simp add: phsize_def unat_word_ariths unat_ucast_up)
  moreover have "unat (ucast phsize :: u64) = unat phsize"
    by (simp add: unat_ucast_up)
  ultimately show "mem_image_map_to_mem img (load64 m (image_ptr img + off64 L E_phoff)) (ucast phsize)
         = (ucast phsize, phdrtab64 L m (image_ptr img))"
    using ok(3) by (simp add: mem_image_map_to_mem_def phdrtab64_def)
qed

text \<open>The load up to the relocation: the segments placed, the copied program headers updated.\<close>

lemma elf64_load_executable_segments:
  assumes abi: "elf64_abi_ok L" "get_phdr64_ok L" and ok: "elf64_image_ok L m img"
    and away: "targets_off_image L m img (relocation_offset info)"
    and plain: "\<not> copy_section_headers info" "\<not> copy_symbol_tables info"
  defines "m1 \<equiv> place_segments m img (relocation_offset info) (loaded_segments64 L m img) m"
  defines "m2 \<equiv> update_phdrs64 L (relocation_offset info) (start_addr info) (phdrtab64 L m1 (start_addr info)) 0 m1"
  defines "phdr_dyn \<equiv> dynamic_phdr64 L m (phdrs64 L m (image_ptr img) (phdrtab64 L m (image_ptr img))) 0"
  shows "elf64_load_executable L m img info =
         Some (if phdr_dyn \<noteq> 0 then elf64_do_relocation L m2 img info phdr_dyn else Inr (MON_OK, m2))"
proof -
  have hd: "elf64_headers_ok L m img" using ok by (simp add: elf64_image_ok_def)
  have "load_segments64 L img (relocation_offset info) (image_ptr img) (phdrtab64 L m (image_ptr img)) 0 m 0
        = (MON_OK, m1, phdr_dyn)"
    using load_segments64_loop [OF abi ok away, of m 0 0] by (simp add: m1_def loaded_segments64_def phdr_dyn_def)
  then show ?thesis
    using plain
    by (simp add: elf64_load_executable_def headers64_granted [OF hd] Let_def copy_tables64_def
        phdrtab64_def m2_def split: sum.splits)
qed

section \<open>The copied headers\<close>

text \<open>
  \<open>header_segment\<close>: one of the segments maps the beginning of the file, with the ELF header and the
  program header table behind it, to the start address.
\<close>

definition header_segment :: "elf_abi \<Rightarrow> mem \<Rightarrow> mem_image_access \<Rightarrow> elf_load_info \<Rightarrow> segment \<Rightarrow> bool" where
  "header_segment L m img info s \<longleftrightarrow>
     (let ehdr = image_ptr img;
          off = unat (load64 m (ehdr + off64 L E_phoff));
          tabsize = unat (load16 m (ehdr + off64 L E_phnum)) * unat (load16 m (ehdr + off64 L E_phentsize))
      in s \<in> set (loaded_segments64 L m img) \<and> seg_offset s = 0 \<and>
         seg_paddr s + relocation_offset info = start_addr info \<and>
         unat (sz64 L Ehdr) \<le> off \<and> off + tabsize \<le> unat (file_part s))"

lemma file_part_le: "unat (file_part s) \<le> unat (seg_memsz s)"
  by (simp add: file_part_def min_def word_le_nat_alt)

lemma placed_header_bytes:
  assumes disj: "windows_disjoint reloc ss" and s: "s \<in> set ss" "seg_offset s = 0"
    "seg_paddr s + reloc = start"
  shows "same_bytes m (image_ptr img) (place_segments m img reloc ss m) start (unat (file_part s))"
proof -
  have "window reloc s (start + k)" if "unat k < unat (file_part s)" for k
    using that file_part_le [of s] s by (simp add: window_def in_range_def)
  then show ?thesis
    using place_segments_inside [OF disj s(1)] s(2,3)
    by (simp add: same_bytes_def segment_byte_def word_less_nat_alt)
qed

lemma header_segment_table:
  assumes abi: "elf64_abi_ok L" "get_phdr64_ok L" and hd: "elf64_headers_ok L m img"
    and h: "header_segment L m img info s"
    and same: "same_bytes m (image_ptr img) m1 (start_addr info) (unat (file_part s))"
  defines "start \<equiv> start_addr info"
  shows "elf64_headers_ok L m1 \<lparr>gen = Mem_Image_Ops, image_ptr = start, image_size = file_part s\<rparr>"
    and "phdr_off64 L m1 start = phdr_off64 L m (image_ptr img)"
    and "load16 m1 (start + off64 L E_phnum) = load16 m (image_ptr img + off64 L E_phnum)"
    and "load64 m1 (start + off64 L E_phoff) = load64 m (image_ptr img + off64 L E_phoff)"
    and "i < unat (load16 m (image_ptr img + off64 L E_phnum)) \<Longrightarrow>
         segment_at64 L m1 (start + phdr_off64 L m (image_ptr img) i)
           = segment_at64 L m (image_ptr img + phdr_off64 L m (image_ptr img) i)"
proof -
  let ?img = "\<lparr>gen = Mem_Image_Ops, image_ptr = start, image_size = file_part s\<rparr>"
  have h': "unat (sz64 L Ehdr) \<le> unat (file_part s)"
    "unat (load64 m (image_ptr img + off64 L E_phoff)) +
     unat (load16 m (image_ptr img + off64 L E_phnum)) * unat (load16 m (image_ptr img + off64 L E_phentsize))
     \<le> unat (file_part s)"
    using h by (auto simp: header_segment_def Let_def)
  note fields = ehdr_fields_same [OF abi(1) h'(1) same less_imp_le [OF unat_less64], folded start_def]
  show ok1: "elf64_headers_ok L m1 ?img"
    using hd h' by (simp add: elf64_headers_ok_def Let_def fields)
  show off: "phdr_off64 L m1 start = phdr_off64 L m (image_ptr img)"
    by (simp add: fun_eq_iff phdr_off64_def fields)
  show "load16 m1 (start + off64 L E_phnum) = load16 m (image_ptr img + off64 L E_phnum)"
    and "load64 m1 (start + off64 L E_phoff) = load64 m (image_ptr img + off64 L E_phoff)"
    by (simp_all add: fields)
  assume i: "i < unat (load16 m (image_ptr img + off64 L E_phnum))"
  then have "unat (phdr_off64 L m1 start i) + unat (sz64 L Phdr) \<le> unat (file_part s)"
    using unat_phdr_off64 [OF ok1, of i] by (simp add: fields)
  then show "segment_at64 L m1 (start + phdr_off64 L m (image_ptr img) i)
           = segment_at64 L m (image_ptr img + phdr_off64 L m (image_ptr img) i)"
    using segment_at64_same [OF abi(1) _ same less_imp_le [OF unat_less64]] off by (simp add: start_def)
qed

section \<open>The loaded image\<close>

definition table_size64 :: "elf_abi \<Rightarrow> mem \<Rightarrow> addr \<Rightarrow> nat" where
  "table_size64 L m ehdr =
     unat (load16 m (ehdr + off64 L E_phnum)) * unat (load16 m (ehdr + off64 L E_phentsize))"

lemma entry64_in_table:
  assumes ok: "elf64_headers_ok L m img" and e: "entry64 L m (image_ptr img) j x"
    and j: "j < unat (load16 m (image_ptr img + off64 L E_phnum))"
  shows "in_range (phdrtab64 L m (image_ptr img)) (table_size64 L m (image_ptr img)) x"
proof -
  let ?es = "load16 m (image_ptr img + off64 L E_phentsize)" and ?n = "table_size64 L m (image_ptr img)"
  have n: "unat (sz64 L Phdr) \<le> unat ?es" "?n \<le> unat (image_size img)"
    using ok by (auto simp: elf64_headers_ok_def Let_def table_size64_def)
  have "Suc j * unat ?es \<le> ?n" unfolding table_size64_def using j by (intro mult_le_mono1) simp
  moreover have "j * unat ?es \<le> Suc j * unat ?es" by simp
  ultimately have "j * unat ?es < 2 ^ 64" and le: "Suc j * unat ?es \<le> ?n"
    using n(2) unat_less64 [of "image_size img"] by linarith+
  then have "unat (of_nat (j * unat ?es) :: u64) + unat (sz64 L Phdr) \<le> ?n"
    using n unat_of_nat64 [of "j * unat ?es"] by (simp del: of_nat_mult)
  moreover have "in_range (phdrtab64 L m (image_ptr img) + of_nat (j * unat ?es)) (unat (sz64 L Phdr)) x"
    using e by (simp add: entry64_def phdr_off64_def phdrtab64_def add.assoc)
  moreover have "?n \<le> 2 ^ 64"
    using n(2) unat_less64 [of "image_size img"] by linarith
  ultimately show ?thesis using in_range_sub by blast
qed

lemma segments64_nth:
  assumes "get_phdr64_ok L" and "elf64_headers_ok L m img"
  shows "segments64 L m (image_ptr img) (phdrtab64 L m (image_ptr img)) =
    map (\<lambda>i. segment_at64 L m (image_ptr img + phdr_off64 L m (image_ptr img) i))
        [0..<unat (load16 m (image_ptr img + off64 L E_phnum))]"
proof (rule nth_equalityI)
  show "length (segments64 L m (image_ptr img) (phdrtab64 L m (image_ptr img))) =
    length (map (\<lambda>i. segment_at64 L m (image_ptr img + phdr_off64 L m (image_ptr img) i))
        [0..<unat (load16 m (image_ptr img + off64 L E_phnum))])"
    using assms(2) by (simp add: segments64_def phdrs64_def phdr_indices_nth elf64_headers_ok_def Let_def)
next
  fix i assume "i < length (segments64 L m (image_ptr img) (phdrtab64 L m (image_ptr img)))"
  then have i: "i < unat (load16 m (image_ptr img + off64 L E_phnum))"
    using assms(2) by (simp add: segments64_def phdrs64_def phdr_indices_nth elf64_headers_ok_def Let_def)
  then show "segments64 L m (image_ptr img) (phdrtab64 L m (image_ptr img)) ! i =
     map (\<lambda>i. segment_at64 L m (image_ptr img + phdr_off64 L m (image_ptr img) i))
        [0..<unat (load16 m (image_ptr img + off64 L E_phnum))] ! i"
    using phdrs64_nth [OF assms i] by (simp add: segments64_def)
qed

lemma update_after_place:
  fixes reloc :: u64
  assumes abi: "elf64_abi_ok L" "get_phdr64_ok L" and hd: "elf64_headers_ok L m img"
    and h: "header_segment L m img info s"
    and same: "same_bytes m (image_ptr img) m1 (start_addr info) (unat (file_part s))"
  defines "start \<equiv> start_addr info"
  defines "m2 \<equiv> update_phdrs64 L reloc start (phdrtab64 L m1 start) 0 m1"
  shows "segments64 L m2 start (phdrtab64 L m2 start) =
           map (move_segment reloc) (segments64 L m (image_ptr img) (phdrtab64 L m (image_ptr img)))"
    and "phdrtab64 L m2 start = start + load64 m (image_ptr img + off64 L E_phoff)"
    and "\<not> in_range (phdrtab64 L m2 start) (table_size64 L m (image_ptr img)) x \<Longrightarrow> m2 x = m1 x"
    and "elf64_headers_ok L m2 \<lparr>gen = Mem_Image_Ops, image_ptr = start, image_size = file_part s\<rparr>"
    and "table_size64 L m2 start = table_size64 L m (image_ptr img)"
proof -
  let ?img = "\<lparr>gen = Mem_Image_Ops, image_ptr = start, image_size = file_part s\<rparr>"
  let ?n = "unat (load16 m (image_ptr img + off64 L E_phnum))"
  note tab = header_segment_table [OF abi hd h same, folded start_def]
  have behind: "unat (sz64 L Ehdr) \<le> unat (load64 m1 (start + off64 L E_phoff))"
    using h tab(4) by (simp add: header_segment_def Let_def)
  note loop = update_phdrs64_loop [OF abi tab(1) behind, simplified, of m1 0 m2 reloc]
  have frame: "\<forall>x. (\<forall>j < ?n. \<not> entry64 L m1 start j x) \<longrightarrow> m2 x = m1 x"
    and seg: "\<forall>j < ?n. segment_at64 L m2 (start + phdr_off64 L m1 start j) =
                 move_segment reloc (segment_at64 L m1 (start + phdr_off64 L m1 start j))"
    using loop tab(3) by (simp_all add: m2_def)
  have hdr: "m2 x = m1 x" if "in_range start (unat (sz64 L Ehdr)) x" for x
    using frame phdr_entries_apart(1) [OF tab(1) behind _ _, of _ x] that tab(3)
    by (auto simp: entry64_def)
  note cong = phdr_off64_cong [OF abi(1) hdr]
  note fields2 = ehdr_fields_same [OF abi(1) order_refl same_bytesI [OF hdr] less_imp_le [OF unat_less64]]
  show ok2: "elf64_headers_ok L m2 ?img"
    using tab(1) fields2 by (simp add: elf64_headers_ok_def Let_def)
  show "segments64 L m2 start (phdrtab64 L m2 start) =
          map (move_segment reloc) (segments64 L m (image_ptr img) (phdrtab64 L m (image_ptr img)))"
    using segments64_nth [OF abi(2) ok2] segments64_nth [OF abi(2) hd] seg cong(1,2) tab(2,3,5)
    by simp
  show tab2: "phdrtab64 L m2 start = start + load64 m (image_ptr img + off64 L E_phoff)"
    using cong(3) tab(4) by (simp add: phdrtab64_def)
  have "load16 m1 (start + off64 L E_phentsize) = load16 m (image_ptr img + off64 L E_phentsize)"
    using ehdr_fields_same(2) [OF abi(1) _ same less_imp_le [OF unat_less64]] h
    by (simp add: start_def header_segment_def Let_def)
  then have "table_size64 L m1 start = table_size64 L m (image_ptr img)"
    by (simp add: table_size64_def tab(3))
  then show "table_size64 L m2 start = table_size64 L m (image_ptr img)"
    by (simp add: table_size64_def fields2)
  assume x: "\<not> in_range (phdrtab64 L m2 start) (table_size64 L m (image_ptr img)) x"
  with \<open>table_size64 L m1 start = _\<close> have "\<not> entry64 L m1 start j x" if "j < ?n" for j
    using entry64_in_table [OF tab(1), of j x] that x tab2 tab(3,4) by (auto simp: phdrtab64_def)
  then show "m2 x = m1 x" using frame by blast
qed

end
