(* ===== verification/Elf64_Reloc.thy ===== *)
theory Elf64_Reloc
  imports Elf64_Loader
begin

text \<open>
  Relocation by \<open>elf64_do_relocation\<close>: the relative entries store addend plus offset at their
  targets, an unsupported kind ends the load with an error, and a dynamic section that gives no
  entry size makes the loop bound divide by zero.
\<close>

section \<open>Relocation entries\<close>

definition rela64_abi_ok :: "elf_abi \<Rightarrow> bool" where
  "rela64_abi_ok L \<longleftrightarrow>
     (\<forall>f \<in> {R_offset, R_info, R_addend}. unat (off64 L f) + 8 \<le> unat (sz64 L Rela)) \<and>
     K L R_X86_64_RELATIVE \<noteq> K L R_X86_64_32 \<and> K L R_X86_64_RELATIVE \<noteq> 0 \<and> K L R_X86_64_32 \<noteq> 0"

lemma elf_std_rela: "rela64_abi_ok elf_std"
  by (simp add: rela64_abi_ok_def)

datatype reloc = Reloc_None | Reloc_Relative addr u64 | Reloc_Symbol | Reloc_Unsupported

definition decode_rela64 :: "elf_abi \<Rightarrow> u64 \<Rightarrow> mem \<Rightarrow> addr \<Rightarrow> nat \<Rightarrow> reloc" where
  "decode_rela64 L reloc m rela i =
     (let r = rela + of_nat i * sz64 L Rela;
          kind = load64 m (r + off64 L R_info) AND 0xFF
      in if kind = K L R_X86_64_32 then Reloc_Symbol
         else if kind = K L R_X86_64_RELATIVE then
           Reloc_Relative (load64 m (r + off64 L R_offset) + reloc) (load64 m (r + off64 L R_addend) + reloc)
         else if kind = 0 then Reloc_None else Reloc_Unsupported)"

fun relocate :: "reloc \<Rightarrow> mem \<Rightarrow> mem" where
  "relocate (Reloc_Relative t v) m = store64 m t v"
| "relocate _ m = m"

fun reloc_target :: "reloc \<Rightarrow> addr \<Rightarrow> bool" where
  "reloc_target (Reloc_Relative t v) x = in_range t 8 x"
| "reloc_target _ x = False"

definition simple_reloc :: "reloc \<Rightarrow> bool" where
  "simple_reloc e \<longleftrightarrow> e \<noteq> Reloc_Symbol \<and> e \<noteq> Reloc_Unsupported"

definition decode_table64 :: "elf_abi \<Rightarrow> u64 \<Rightarrow> mem \<Rightarrow> addr \<Rightarrow> nat list \<Rightarrow> reloc list" where
  "decode_table64 L reloc m rela is = map (decode_rela64 L reloc m rela) is"

lemma relocate_outside: "\<not> reloc_target e x \<Longrightarrow> relocate e m x = m x"
  by (cases e) (simp_all add: store_le_apply)

lemma relocate_all_outside:
  "(\<And>e. e \<in> set es \<Longrightarrow> \<not> reloc_target e x) \<Longrightarrow> foldl (\<lambda>m e. relocate e m) m es x = m x"
  by (induction es arbitrary: m) (auto simp: relocate_outside)

text \<open>Entries of equal tables at two places.\<close>

lemma decode_rela64_same:
  assumes abi: "rela64_abi_ok L" and same: "same_bytes m p m' q (n * unat (sz64 L Rela))"
    and i: "i < n" and n: "n * unat (sz64 L Rela) \<le> 2 ^ 64"
  shows "decode_rela64 L reloc m' q i = decode_rela64 L reloc m p i"
proof -
  let ?s = "unat (sz64 L Rela)"
  have "Suc i * ?s \<le> n * ?s" using i by (intro mult_le_mono1) simp
  have load: "load64 m' (q + of_nat i * sz64 L Rela + off64 L f) = load64 m (p + of_nat i * sz64 L Rela + off64 L f)"
    if "f \<in> {R_offset, R_info, R_addend}" for f
  proof -
    have f: "unat (off64 L f) + 8 \<le> ?s" using abi that by (auto simp: rela64_abi_ok_def)
    have le: "i * ?s + unat (off64 L f) + 8 \<le> n * ?s" using \<open>Suc i * ?s \<le> n * ?s\<close> f by simp
    have eq: "of_nat i * sz64 L Rela + off64 L f = off64 L f + of_nat (i * ?s)" by simp
    have "unat (off64 L f + of_nat (i * ?s)) = unat (off64 L f) + i * ?s"
      using le n by (intro unat_add_offset) linarith
    then have "unat (of_nat i * sz64 L Rela + off64 L f) + 8 \<le> n * ?s"
      unfolding eq using le by linarith
    from same_bytes_load [OF same this n] show ?thesis by (simp add: add.assoc)
  qed
  show ?thesis
    using load [of R_offset] load [of R_info] load [of R_addend] by (simp add: decode_rela64_def Let_def)
qed

text \<open>One step of the loop, and the loop over a table that the targets do not touch.\<close>

lemma apply_rela64_step:
  assumes "rela64_abi_ok L"
  shows "simple_reloc (decode_rela64 L reloc m rela i) \<Longrightarrow>
      apply_rela64 L reloc rela symtab (i # is) m =
      apply_rela64 L reloc rela symtab is (relocate (decode_rela64 L reloc m rela i) m)"
    and "decode_rela64 L reloc m rela i = Reloc_Unsupported \<Longrightarrow>
      apply_rela64 L reloc rela symtab (i # is) m = (MON_ERROR, m)"
  using assms by (auto simp: decode_rela64_def simple_reloc_def Let_def rela64_abi_ok_def split: if_splits)

definition table_untouched :: "elf_abi \<Rightarrow> addr \<Rightarrow> nat \<Rightarrow> reloc list \<Rightarrow> bool" where
  "table_untouched L rela n es \<longleftrightarrow>
     (\<forall>e \<in> set es. \<forall>x. reloc_target e x \<longrightarrow> \<not> in_range rela (n * unat (sz64 L Rela)) x)"

lemma apply_rela64_simple:
  assumes abi: "rela64_abi_ok L" and n: "n * unat (sz64 L Rela) \<le> 2 ^ 64"
  shows "\<lbrakk>set is \<subseteq> {..<n}; same_bytes m0 rela m rela (n * unat (sz64 L Rela));
    table_untouched L rela n (decode_table64 L reloc m0 rela is);
    list_all simple_reloc (decode_table64 L reloc m0 rela is)\<rbrakk> \<Longrightarrow>
    apply_rela64 L reloc rela symtab (is @ js) m =
      apply_rela64 L reloc rela symtab js
        (foldl (\<lambda>m e. relocate e m) m (decode_table64 L reloc m0 rela is)) \<and>
    same_bytes m0 rela (foldl (\<lambda>m e. relocate e m) m (decode_table64 L reloc m0 rela is)) rela
      (n * unat (sz64 L Rela))"
proof (induction "is" arbitrary: m)
  case Nil
  then show ?case by (simp add: decode_table64_def)
next
  case (Cons i ks)
  let ?e = "decode_rela64 L reloc m0 rela i"
  have i: "i < n" using Cons.prems(1) by simp
  have dec: "decode_rela64 L reloc m rela i = ?e"
    by (rule decode_rela64_same [OF abi Cons.prems(2) i n])
  have simple: "simple_reloc ?e" and rest: "list_all simple_reloc (decode_table64 L reloc m0 rela ks)"
    using Cons.prems(4) by (simp_all add: decode_table64_def)
  have un: "\<forall>x. reloc_target ?e x \<longrightarrow> \<not> in_range rela (n * unat (sz64 L Rela)) x"
    and unrest: "table_untouched L rela n (decode_table64 L reloc m0 rela ks)"
    using Cons.prems(3) by (simp_all add: table_untouched_def decode_table64_def)
  have "relocate ?e m x = m x" if "in_range rela (n * unat (sz64 L Rela)) x" for x
    using un that relocate_outside [of ?e x m] by blast
  then have same: "same_bytes m0 rela (relocate ?e m) rela (n * unat (sz64 L Rela))"
    using Cons.prems(2) by (simp add: same_bytes_def in_range_def)
  have "apply_rela64 L reloc rela symtab ((i # ks) @ js) m =
        apply_rela64 L reloc rela symtab (ks @ js) (relocate ?e m)"
    using apply_rela64_step(1) [OF abi, of reloc m rela i symtab "ks @ js"] simple
    unfolding dec by simp
  then show ?case
    using Cons.IH [OF _ same unrest rest] Cons.prems(1) by (simp add: decode_table64_def)
qed

text \<open>What the stores leave at a target that no other entry overlaps.\<close>

fun reloc_apart :: "reloc \<Rightarrow> reloc \<Rightarrow> bool" where
  "reloc_apart (Reloc_Relative t v) (Reloc_Relative u w) \<longleftrightarrow> disjoint_ranges t 8 u 8"
| "reloc_apart _ _ \<longleftrightarrow> True"

lemma relocate_all_at:
  "sorted_wrt reloc_apart es \<Longrightarrow> Reloc_Relative t v \<in> set es \<Longrightarrow>
   load64 (foldl (\<lambda>m e. relocate e m) m es) t = v"
proof (induction es arbitrary: m)
  case Nil
  then show ?case by simp
next
  case (Cons e es)
  show ?case
  proof (cases "Reloc_Relative t v \<in> set es")
    case True
    with Cons show ?thesis by simp
  next
    case False
    with Cons.prems have e: "e = Reloc_Relative t v" by simp
    have "foldl (\<lambda>m e. relocate e m) (store64 m t v) es x = store64 m t v x" if "in_range t 8 x" for x
    proof (rule relocate_all_outside)
      fix d assume "d \<in> set es"
      then have "reloc_apart e d" using Cons.prems by simp
      then show "\<not> reloc_target d x" using that unfolding e
        by (cases d) (auto dest: disjoint_ranges_not_both)
    qed
    then have "load64 (foldl (\<lambda>m e. relocate e m) (store64 m t v) es) t = load64 (store64 m t v) t"
      by (intro load_le_cong) simp_all
    then show ?thesis by (simp add: e)
  qed
qed

section \<open>The dynamic section\<close>

definition dynamic_granted64 :: "elf_abi \<Rightarrow> mem \<Rightarrow> mem_image_access \<Rightarrow> addr \<Rightarrow> bool" where
  "dynamic_granted64 L m img phdr_dyn \<longleftrightarrow>
     (let sz = scast (ucast (load64 m (phdr_dyn + off64 L P_filesz)) :: u32)
      in fst (mem_image_map_to_mem img (load64 m (phdr_dyn + off64 L P_offset)) sz) = sz)"

definition dynamic_tags64 :: "elf_abi \<Rightarrow> mem \<Rightarrow> mem_image_access \<Rightarrow> addr \<Rightarrow> u64 list" where
  "dynamic_tags64 L m img phdr_dyn =
     (let sz = scast (ucast (load64 m (phdr_dyn + off64 L P_filesz)) :: u32);
          dyn = image_ptr img + load64 m (phdr_dyn + off64 L P_offset)
      in map (\<lambda>i. load64 m (dyn + of_nat i * sz64 L Dyn + off64 L D_tag)) [0..<unat (sz div sz64 L Dyn)])"

definition dynamic_info64 :: "elf_abi \<Rightarrow> mem \<Rightarrow> mem_image_access \<Rightarrow> elf_load_info \<Rightarrow> addr \<Rightarrow> dyn_info64" where
  "dynamic_info64 L m img info phdr_dyn =
     (let sz = scast (ucast (load64 m (phdr_dyn + off64 L P_filesz)) :: u32)
      in scan_dynamic64 L m (start_addr info) (image_ptr img + load64 m (phdr_dyn + off64 L P_offset))
           [0..<unat (sz div sz64 L Dyn)]
           \<lparr>rela64 = 0, rela_sz64 = 0, rela_entsz64 = 0, symtab64 = 0, symtab_entsz64 = 0\<rparr>)"

lemma elf64_do_relocation_granted:
  assumes "dynamic_granted64 L m img phdr_dyn"
  shows "elf64_do_relocation L m img info phdr_dyn =
    (let d = dynamic_info64 L m img info phdr_dyn in
     case sdiv32 (rela_sz64 d) (rela_entsz64 d) of
       Inl e \<Rightarrow> Inl e
     | Inr q \<Rightarrow> Inr (apply_rela64 L (relocation_offset info) (rela64 d) (symtab64 d) [0..<nat q] m))"
  using assms
  by (simp add: elf64_do_relocation_def dynamic_granted64_def dynamic_info64_def mem_image_map_to_mem_def Let_def)

lemma scan_dynamic64_no_entsize:
  "(\<And>i. i \<in> set is \<Longrightarrow> load64 m (dyn + of_nat i * sz64 L Dyn + off64 L D_tag) \<noteq> K L DT_RELAENT) \<Longrightarrow>
   rela_entsz64 (scan_dynamic64 L m start dyn is d) = rela_entsz64 d"
  by (induction "is" arbitrary: d) (simp_all add: Let_def)

lemma sdiv32_pos:
  assumes "0 < sint b" and "0 \<le> sint a"
  shows "sdiv32 a b = Inr (sint a div sint b)"
  using assms by (cases "sint a = 0") (auto simp: sdiv32_def signed_divide_int_def)

section \<open>A small relocation table for the witnesses\<close>

definition demo_rela_mem :: mem where
  "demo_rela_mem x =
     (if x = 0x1020 then 48
      else if x = 0x2000 then 7 else if x = 0x2009 then 1
      else if x = 0x2010 then 8 else if x = 0x2018 then 24
      else if x = 0x2020 then 9 else if x = 0x2028 then 24
      else if x = 0x3100 then 0x10 else if x = 0x3108 then 8 else if x = 0x3110 then 0x20
      else 0)"

definition demo_rela_img :: mem_image_access where
  "demo_rela_img = \<lparr>gen = Mem_Image_Ops, image_ptr = 0x2000, image_size = 48\<rparr>"

definition demo_rela_info :: elf_load_info where
  "demo_rela_info = \<lparr>start_addr = 0x3000, end_addr = 0x5000, entry_addr = 0x3000, sections_addr = 0,
     relocation_offset = 0x4000, machine_type = 62, copy_section_headers = False,
     copy_symbol_tables = False\<rparr>"

lemma demo_rela_loads:
  "load64 demo_rela_mem 0x1020 = 48" "load64 demo_rela_mem 0x1008 = 0"
  "load64 demo_rela_mem 0x2000 = 7" "load64 demo_rela_mem 0x2008 = 0x100"
  "load64 demo_rela_mem 0x2010 = 8" "load64 demo_rela_mem 0x2018 = 24"
  "load64 demo_rela_mem 0x2020 = 9" "load64 demo_rela_mem 0x2028 = 24"
  "load64 demo_rela_mem 0x3100 = 0x10" "load64 demo_rela_mem 0x3108 = 8"
  "load64 demo_rela_mem 0x3110 = 0x20"
  by (simp_all add: load_le_def read_bytes_def demo_rela_mem_def upt_rec)

lemma demo_rela_granted: "dynamic_granted64 elf_std demo_rela_mem demo_rela_img 0x1000"
  by (simp add: dynamic_granted64_def demo_rela_loads demo_rela_img_def mem_image_map_to_mem_granted)

lemma demo_rela_dynamic:
  "dynamic_info64 elf_std demo_rela_mem demo_rela_img demo_rela_info 0x1000 =
     \<lparr>rela64 = 0x3100, rela_sz64 = 24, rela_entsz64 = 24, symtab64 = 0, symtab_entsz64 = 0\<rparr>"
  by (simp add: dynamic_info64_def demo_rela_loads demo_rela_img_def demo_rela_info_def upt_rec)

lemma demo_rela_table:
  "decode_table64 elf_std 0x4000 demo_rela_mem 0x3100 [0..<Suc 0] = [Reloc_Relative 0x4010 0x4020]"
  by (simp add: decode_table64_def decode_rela64_def demo_rela_loads)

section \<open>Properties\<close>

definition rela_count64 :: "dyn_info64 \<Rightarrow> nat" where
  "rela_count64 d = nat (sint (rela_sz64 d) div sint (rela_entsz64 d))"

definition rela_entries64 :: "elf_abi \<Rightarrow> mem \<Rightarrow> elf_load_info \<Rightarrow> dyn_info64 \<Rightarrow> reloc list" where
  "rela_entries64 L m info d =
     decode_table64 L (relocation_offset info) m (rela64 d) [0..<rela_count64 d]"

lemma do_relocation_entries:
  assumes "rela64_abi_ok L" and "dynamic_granted64 L m img phdr_dyn"
    and "d = dynamic_info64 L m img info phdr_dyn"
    and "0 < sint (rela_entsz64 d)" and "0 \<le> sint (rela_sz64 d)"
    and "rela_count64 d * unat (sz64 L Rela) \<le> 2 ^ 64"
    and "list_all simple_reloc (rela_entries64 L m info d)"
    and "table_untouched L (rela64 d) (rela_count64 d) (rela_entries64 L m info d)"
  shows "elf64_do_relocation L m img info phdr_dyn =
     Inr (MON_OK, foldl (\<lambda>m e. relocate e m) m (rela_entries64 L m info d))"
proof -
  have "elf64_do_relocation L m img info phdr_dyn =
        Inr (apply_rela64 L (relocation_offset info) (rela64 d) (symtab64 d) [0..<rela_count64 d] m)"
    using elf64_do_relocation_granted [OF assms(2)] assms(3) sdiv32_pos [OF assms(4,5)]
    by (simp add: Let_def rela_count64_def)
  also have "apply_rela64 L (relocation_offset info) (rela64 d) (symtab64 d) [0..<rela_count64 d] m =
      (MON_OK, foldl (\<lambda>m e. relocate e m) m (rela_entries64 L m info d))"
    using apply_rela64_simple [OF assms(1,6), of "[0..<rela_count64 d]" m "rela64 d" m _ _ "[]"] assms(7,8)
    by (simp add: same_bytes_def rela_entries64_def lessThan_atLeast0)
  finally show ?thesis .
qed

text \<open>
  C18: Over a table of relative and empty entries whose targets neither overlap each other nor the
  table, \<open>elf64_do_relocation\<close> succeeds, leaves addend plus relocation offset at every target and
  changes no other byte.
\<close>

theorem elf64_do_relocation_relative:
  assumes "rela64_abi_ok L" and "dynamic_granted64 L m img phdr_dyn"
    and "d = dynamic_info64 L m img info phdr_dyn"
    and "0 < sint (rela_entsz64 d)" and "0 \<le> sint (rela_sz64 d)"
    and "rela_count64 d * unat (sz64 L Rela) \<le> 2 ^ 64"
    and "list_all simple_reloc (rela_entries64 L m info d)"
    and "table_untouched L (rela64 d) (rela_count64 d) (rela_entries64 L m info d)"
    and "sorted_wrt reloc_apart (rela_entries64 L m info d)"
  shows "\<exists>m'. elf64_do_relocation L m img info phdr_dyn = Inr (MON_OK, m') \<and>
     (\<forall>t v. Reloc_Relative t v \<in> set (rela_entries64 L m info d) \<longrightarrow> load64 m' t = v) \<and>
     (\<forall>x. (\<forall>e \<in> set (rela_entries64 L m info d). \<not> reloc_target e x) \<longrightarrow> m' x = m x)"
  using do_relocation_entries [OF assms(1-8)] relocate_all_at [OF assms(9)]
    relocate_all_outside [of "rela_entries64 L m info d"] by blast

theorem elf64_do_relocation_relative_witness:
  "\<exists>m'. elf64_do_relocation elf_std demo_rela_mem demo_rela_img demo_rela_info 0x1000 = Inr (MON_OK, m') \<and>
     load64 m' 0x4010 = 0x4020"
proof -
  let ?d = "\<lparr>rela64 = 0x3100, rela_sz64 = 24, rela_entsz64 = 24, symtab64 = 0, symtab_entsz64 = 0\<rparr>"
  have count: "rela_count64 ?d = 1" by (simp add: rela_count64_def)
  have es: "rela_entries64 elf_std demo_rela_mem demo_rela_info ?d = [Reloc_Relative 0x4010 0x4020]"
    using demo_rela_table by (simp add: rela_entries64_def count demo_rela_info_def)
  have "table_untouched elf_std 0x3100 1 [Reloc_Relative 0x4010 0x4020]"
    using disjoint_ranges_not_both [of "0x4010" 8 "0x3100" 24]
    by (auto simp: table_untouched_def disjoint_ranges_def)
  with elf64_do_relocation_relative [OF elf_std_rela demo_rela_granted demo_rela_dynamic [symmetric]]
  show ?thesis by (auto simp: es count simple_reloc_def)
qed

text \<open>
  C40: A dynamic section without a \<open>DT_RELAENT\<close> entry (as a position-independent image with no
  relocations has it) makes \<open>elf64_do_relocation\<close> divide by zero: the check for missing dynamic
  information is compiled out.
\<close>

theorem elf64_do_relocation_divide_error:
  assumes "dynamic_granted64 L m img phdr_dyn"
    and "K L DT_RELAENT \<notin> set (dynamic_tags64 L m img phdr_dyn)"
  shows "elf64_do_relocation L m img info phdr_dyn = Inl Divide_Error"
proof -
  have "rela_entsz64 (dynamic_info64 L m img info phdr_dyn) = 0"
    unfolding dynamic_info64_def Let_def
    using assms(2) by (subst scan_dynamic64_no_entsize) (force simp: dynamic_tags64_def Let_def)+
  then show ?thesis
    using elf64_do_relocation_granted [OF assms(1)] by (simp add: sdiv32_def Let_def)
qed

theorem elf64_do_relocation_divide_error_witness:
  "elf64_do_relocation elf_std (\<lambda>x. if x = 0x1020 then 16 else if x = 0x2000 then 6 else 0)
     demo_rela_img demo_rela_info 0x1000 = Inl Divide_Error"
proof -
  let ?m = "\<lambda>x :: addr. if x = 0x1020 then 16 else if x = 0x2000 then 6 else 0 :: u8"
  have "load64 ?m 0x1020 = 16" "load64 ?m 0x1008 = 0" "load64 ?m 0x2000 = 6"
    by (simp_all add: load_le_def read_bytes_def upt_rec)
  then show ?thesis
    by (intro elf64_do_relocation_divide_error)
      (simp_all add: dynamic_granted64_def dynamic_tags64_def demo_rela_img_def mem_image_map_to_mem_granted upt_rec)
qed

text \<open>
  The first entry of an unsupported kind, after supported relative entries, ends the relocation
  with \<open>MON_ERROR\<close>; the entries before it have been applied, those after it have not.
\<close>

lemma elf64_do_relocation_unsupported:
  assumes "rela64_abi_ok L" and "dynamic_granted64 L m img phdr_dyn"
    and "d = dynamic_info64 L m img info phdr_dyn"
    and "0 < sint (rela_entsz64 d)" and "0 \<le> sint (rela_sz64 d)"
    and "rela_count64 d * unat (sz64 L Rela) \<le> 2 ^ 64" and "k < rela_count64 d"
    and "list_all simple_reloc (take k (rela_entries64 L m info d))"
    and "table_untouched L (rela64 d) (rela_count64 d) (take k (rela_entries64 L m info d))"
    and "rela_entries64 L m info d ! k = Reloc_Unsupported"
  shows "elf64_do_relocation L m img info phdr_dyn =
         Inr (MON_ERROR, foldl (\<lambda>m e. relocate e m) m (take k (rela_entries64 L m info d)))"
proof -
  let ?n = "rela_count64 d" and ?reloc = "relocation_offset info"
  let ?es = "take k (rela_entries64 L m info d)"
  have es: "?es = decode_table64 L ?reloc m (rela64 d) [0..<k]"
    using assms(7) by (simp add: rela_entries64_def decode_table64_def take_map)
  have run: "elf64_do_relocation L m img info phdr_dyn =
        Inr (apply_rela64 L ?reloc (rela64 d) (symtab64 d) [0..<?n] m)"
    using elf64_do_relocation_granted [OF assms(2)] assms(3) sdiv32_pos [OF assms(4,5)]
    by (simp add: Let_def rela_count64_def)
  have split: "[0..<?n] = [0..<k] @ k # [Suc k..<?n]"
    using assms(7) upt_add_eq_append [of 0 k "?n - k"] by (simp add: upt_conv_Cons)
  have prefix: "apply_rela64 L ?reloc (rela64 d) (symtab64 d) ([0..<k] @ k # [Suc k..<?n]) m =
      apply_rela64 L ?reloc (rela64 d) (symtab64 d) (k # [Suc k..<?n]) (foldl (\<lambda>m e. relocate e m) m ?es)"
    and same: "same_bytes m (rela64 d) (foldl (\<lambda>m e. relocate e m) m ?es) (rela64 d) (?n * unat (sz64 L Rela))"
    using apply_rela64_simple [OF assms(1,6), of "[0..<k]" m "rela64 d" m ?reloc "symtab64 d" "k # [Suc k..<?n]"]
      assms(7,8,9) by (simp_all add: es same_bytes_def subset_eq)
  have "decode_rela64 L ?reloc (foldl (\<lambda>m e. relocate e m) m ?es) (rela64 d) k = Reloc_Unsupported"
    using decode_rela64_same [OF assms(1) same assms(7,6)] assms(7,10)
    by (simp add: rela_entries64_def decode_table64_def)
  from apply_rela64_step(2) [OF assms(1) this, of "symtab64 d" "[Suc k..<?n]"] show ?thesis
    unfolding run split prefix by simp
qed

lemma elf64_do_relocation_unsupported_witness:
  "fst (the (case elf64_do_relocation elf_std (demo_rela_mem(0x3108 := 6)) demo_rela_img demo_rela_info 0x1000
        of Inr r \<Rightarrow> Some r | Inl e \<Rightarrow> None)) = MON_ERROR"
proof -
  let ?m = "demo_rela_mem(0x3108 := 6)"
  let ?d = "\<lparr>rela64 = 0x3100, rela_sz64 = 24, rela_entsz64 = 24, symtab64 = 0, symtab_entsz64 = 0\<rparr>"
  have loads: "load64 ?m 0x1020 = 48" "load64 ?m 0x1008 = 0" "load64 ?m 0x2000 = 7" "load64 ?m 0x2008 = 0x100"
    "load64 ?m 0x2010 = 8" "load64 ?m 0x2018 = 24" "load64 ?m 0x2020 = 9" "load64 ?m 0x2028 = 24"
    "load64 ?m 0x3108 = 6"
    by (simp_all add: load_le_def read_bytes_def demo_rela_mem_def upt_rec)
  have granted: "dynamic_granted64 elf_std ?m demo_rela_img 0x1000"
    by (simp add: dynamic_granted64_def loads demo_rela_img_def mem_image_map_to_mem_granted)
  have dyn: "?d = dynamic_info64 elf_std ?m demo_rela_img demo_rela_info 0x1000"
    by (simp add: dynamic_info64_def loads demo_rela_img_def demo_rela_info_def upt_rec)
  have count: "rela_count64 ?d = 1" by (simp add: rela_count64_def)
  have "rela_entries64 elf_std ?m demo_rela_info ?d = [Reloc_Unsupported]"
    by (simp add: rela_entries64_def count decode_table64_def decode_rela64_def loads)
  then have "elf64_do_relocation elf_std ?m demo_rela_img demo_rela_info 0x1000 = Inr (MON_ERROR, ?m)"
    using elf64_do_relocation_unsupported [OF elf_std_rela granted dyn, of 0] count
    by (simp add: table_untouched_def)
  then show ?thesis by simp
qed

end
