(* ===== verification/Elf64_Image.thy ===== *)
theory Elf64_Image
  imports Elf64_Load Elf64_Reloc
begin

text \<open>
  The whole 64-bit load, with the relocation of a position-independent image: what \<open>ld -pie\<close> gives has a dynamic
  segment whose relocation table is part of the loaded segments. The relocations of an image are stated at its link-time
  addresses; loading moves them by the relocation offset.
\<close>

section \<open>Relocations at link-time addresses\<close>

definition segment_low :: "segment list \<Rightarrow> u64" where
  "segment_low ss = Min (seg_paddr ` set ss)"

definition pie64_abi_ok :: "elf_abi \<Rightarrow> bool" where
  "pie64_abi_ok L \<longleftrightarrow> rela64_abi_ok L \<and> (\<forall>f \<in> {D_tag, D_un}. unat (off64 L f) + 8 \<le> unat (sz64 L Dyn))"

lemma elf_std_pie: "pie64_abi_ok elf_std"
  by (simp add: pie64_abi_ok_def elf_std_rela)

text \<open>The image as it would be at its link-time addresses, and the dynamic section read for that place.\<close>

definition link_image :: "elf_abi \<Rightarrow> mem \<Rightarrow> mem_image_access \<Rightarrow> mem" where
  "link_image L m img = place_segments m img 0 (loaded_segments64 L m img) (\<lambda>_. 0)"

definition link_info :: "elf_abi \<Rightarrow> mem \<Rightarrow> mem_image_access \<Rightarrow> elf_load_info" where
  "link_info L m img = \<lparr>start_addr = segment_low (loaded_segments64 L m img), end_addr = 0, entry_addr = 0, sections_addr = 0,
     relocation_offset = 0, machine_type = 0, copy_section_headers = False, copy_symbol_tables = False\<rparr>"

definition dynamic_header64 :: "elf_abi \<Rightarrow> mem \<Rightarrow> mem_image_access \<Rightarrow> addr" where
  "dynamic_header64 L m img = dynamic_phdr64 L m (phdrs64 L m (image_ptr img) (phdrtab64 L m (image_ptr img))) 0"

definition link_dynamic64 :: "elf_abi \<Rightarrow> mem \<Rightarrow> mem_image_access \<Rightarrow> dyn_info64" where
  "link_dynamic64 L m img = dynamic_info64 L m img (link_info L m img) (dynamic_header64 L m img)"

definition relocations64 :: "elf_abi \<Rightarrow> mem \<Rightarrow> mem_image_access \<Rightarrow> reloc list" where
  "relocations64 L m img =
     (if no_dynamic L m img then []
      else rela_entries64 L (link_image L m img) (link_info L m img) (link_dynamic64 L m img))"

text \<open>The link-time addresses in a segment but not in the ELF header and the program header table.\<close>

definition behind_headers :: "elf_abi \<Rightarrow> mem \<Rightarrow> mem_image_access \<Rightarrow> addr \<Rightarrow> bool" where
  "behind_headers L m img x \<longleftrightarrow>
     (\<exists>s \<in> set (loaded_segments64 L m img). window 0 s x) \<and>
     \<not> in_range (segment_low (loaded_segments64 L m img))
         (unat (load64 m (image_ptr img + off64 L E_phoff)) + table_size64 L m (image_ptr img)) x"

text \<open>
  What the loader needs of a dynamic section: it lies in the file and gives the relocation table and its sizes; the table
  and the targets lie behind the headers in the segments, the targets touch neither the table nor each other, and every
  entry is a relative relocation or empty.
\<close>

definition dynamic_in_file64 :: "elf_abi \<Rightarrow> mem \<Rightarrow> mem_image_access \<Rightarrow> addr \<Rightarrow> bool" where
  "dynamic_in_file64 L m img phdr \<longleftrightarrow>
     unat (load64 m (phdr + off64 L P_offset)) +
     unat (scast (ucast (load64 m (phdr + off64 L P_filesz)) :: u32) :: u64) \<le> unat (image_size img)"

definition dynamic_ok64 :: "elf_abi \<Rightarrow> mem \<Rightarrow> mem_image_access \<Rightarrow> bool" where
  "dynamic_ok64 L m img \<longleftrightarrow>
     (let phdr = dynamic_header64 L m img; d = link_dynamic64 L m img; es = relocations64 L m img
      in phdr \<noteq> 0 \<and> dynamic_in_file64 L m img phdr \<and> K L DT_RELA \<in> set (dynamic_tags64 L m img phdr) \<and>
         0 < sint (rela_entsz64 d) \<and> 0 \<le> sint (rela_sz64 d) \<and> rela_count64 d * unat (sz64 L Rela) \<le> 2 ^ 64 \<and>
         (\<forall>x. in_range (rela64 d) (rela_count64 d * unat (sz64 L Rela)) x \<longrightarrow> behind_headers L m img x) \<and>
         list_all simple_reloc es \<and> table_untouched L (rela64 d) (rela_count64 d) es \<and> sorted_wrt reloc_apart es \<and>
         (\<forall>e \<in> set es. \<forall>x. reloc_target e x \<longrightarrow> behind_headers L m img x))"

definition relocatable64 :: "elf_abi \<Rightarrow> mem \<Rightarrow> mem_image_access \<Rightarrow> bool" where
  "relocatable64 L m img \<longleftrightarrow> no_dynamic L m img \<or> dynamic_ok64 L m img"

lemma disjoint_ranges_shift: "disjoint_ranges (a + r) n (b + r) k \<longleftrightarrow> disjoint_ranges a n b k"
  by (simp add: disjoint_ranges_def)

lemma windows_disjoint_shift: "windows_disjoint r ss \<longleftrightarrow> windows_disjoint 0 ss"
  by (induction ss) (simp_all add: disjoint_ranges_shift)

section \<open>Moving relocations to the load address\<close>

fun shift_reloc :: "u64 \<Rightarrow> reloc \<Rightarrow> reloc" where
  "shift_reloc r (Reloc_Relative t v) = Reloc_Relative (t + r) (v + r)"
| "shift_reloc r e = e"

lemma shift_reloc_simps [simp]:
  "simple_reloc (shift_reloc r e) = simple_reloc e"
  "reloc_target (shift_reloc r e) x = reloc_target e (x - r)"
  "reloc_apart (shift_reloc r e) (shift_reloc r e') = reloc_apart e e'"
  by (cases e; cases e'; simp add: simple_reloc_def in_range_def disjoint_ranges_def algebra_simps)+

lemma shift_reloc_0 [simp]: "shift_reloc 0 e = e"
  by (cases e) simp_all

lemma in_range_shift: "in_range (a + r) n x \<longleftrightarrow> in_range a n (x - r)"
  by (simp add: in_range_def algebra_simps)

lemma decode_rela64_shift: "decode_rela64 L r m rela i = shift_reloc r (decode_rela64 L 0 m rela i)"
  by (simp add: decode_rela64_def Let_def)

lemma rela_entries64_moved:
  assumes "rela64_abi_ok L" and "rela_count64 d * unat (sz64 L Rela) \<le> 2 ^ 64"
    and "same_bytes m (rela64 d) m' (rela64 d') (rela_count64 d * unat (sz64 L Rela))"
    and "rela_count64 d' = rela_count64 d" and "relocation_offset info = 0"
  shows "rela_entries64 L m' info' d' = map (shift_reloc (relocation_offset info')) (rela_entries64 L m info d)"
  using decode_rela64_same [OF assms(1,3) _ assms(2)] assms(4,5)
  by (simp add: rela_entries64_def decode_table64_def decode_rela64_shift [of L "relocation_offset info'" m'])

section \<open>The dynamic section at two places\<close>

definition scan_entry64 :: "elf_abi \<Rightarrow> mem \<Rightarrow> u64 \<Rightarrow> addr \<Rightarrow> dyn_info64 \<Rightarrow> dyn_info64" where
  "scan_entry64 L m start entry d = scan_dynamic64 L m start entry [0] d"

lemma scan_dynamic64_Cons:
  "scan_dynamic64 L m start dyn (i # is) d =
   scan_dynamic64 L m start dyn is (scan_entry64 L m start (dyn + of_nat i * sz64 L Dyn) d)"
  by (simp add: scan_entry64_def Let_def)

lemma scan_entry64_facts:
  "rela_sz64 d = rela_sz64 d' \<Longrightarrow> rela_sz64 (scan_entry64 L m a e d) = rela_sz64 (scan_entry64 L m b e d')"
  "rela_entsz64 d = rela_entsz64 d' \<Longrightarrow> rela_entsz64 (scan_entry64 L m a e d) = rela_entsz64 (scan_entry64 L m b e d')"
  "rela64 d = rela64 d' + (a - b) \<or> load64 m (e + off64 L D_tag) = K L DT_RELA \<Longrightarrow>
   rela64 (scan_entry64 L m a e d) = rela64 (scan_entry64 L m b e d') + (a - b)"
  by (auto simp: scan_entry64_def Let_def)

lemma scan_dynamic64_sizes:
  "rela_sz64 d = rela_sz64 d' \<Longrightarrow> rela_sz64 (scan_dynamic64 L m a dyn is d) = rela_sz64 (scan_dynamic64 L m b dyn is d')"
  "rela_entsz64 d = rela_entsz64 d' \<Longrightarrow> rela_entsz64 (scan_dynamic64 L m a dyn is d) = rela_entsz64 (scan_dynamic64 L m b dyn is d')"
proof (induction "is" arbitrary: d d')
  case (Cons i "is")
  {
    case 1
    from Cons.IH(1) [OF scan_entry64_facts(1) [OF this]] show ?case unfolding scan_dynamic64_Cons .
  next
    case 2
    from Cons.IH(2) [OF scan_entry64_facts(2) [OF this]] show ?case unfolding scan_dynamic64_Cons .
  }
qed simp_all

lemma scan_dynamic64_rela:
  "rela64 d = rela64 d' + (a - b) \<or> (\<exists>i \<in> set is. load64 m (dyn + of_nat i * sz64 L Dyn + off64 L D_tag) = K L DT_RELA) \<Longrightarrow>
   rela64 (scan_dynamic64 L m a dyn is d) = rela64 (scan_dynamic64 L m b dyn is d') + (a - b)"
proof (induction "is" arbitrary: d d')
  case (Cons i "is")
  let ?e = "dyn + of_nat i * sz64 L Dyn"
  have "rela64 (scan_entry64 L m a ?e d) = rela64 (scan_entry64 L m b ?e d') + (a - b) \<or>
      (\<exists>i \<in> set is. load64 m (dyn + of_nat i * sz64 L Dyn + off64 L D_tag) = K L DT_RELA)"
    using Cons.prems scan_entry64_facts(3) [of d d' a b m ?e L] by auto
  from Cons.IH [OF this] show ?case unfolding scan_dynamic64_Cons .
qed simp

lemma scan_dynamic64_cong:
  "(\<And>i f. i \<in> set is \<Longrightarrow> f \<in> {D_tag, D_un} \<Longrightarrow>
      load64 m' (dyn + of_nat i * sz64 L Dyn + off64 L f) = load64 m (dyn + of_nat i * sz64 L Dyn + off64 L f)) \<Longrightarrow>
   scan_dynamic64 L m' a dyn is d = scan_dynamic64 L m a dyn is d"
  by (induction "is" arbitrary: d) (simp_all add: Let_def)

lemma dynamic_info64_same:
  assumes abi: "pie64_abi_ok L" and agrees: "image_agrees img m m'" and inside: "dynamic_in_file64 L m img phdr"
    and header: "load64 m' (phdr + off64 L P_offset) = load64 m (phdr + off64 L P_offset)"
      "load64 m' (phdr + off64 L P_filesz) = load64 m (phdr + off64 L P_filesz)"
  shows "dynamic_granted64 L m' img phdr" and "dynamic_info64 L m' img info phdr = dynamic_info64 L m img info phdr"
proof -
  let ?off = "load64 m (phdr + off64 L P_offset)" and ?sz = "scast (ucast (load64 m (phdr + off64 L P_filesz)) :: u32) :: u64"
  have fit: "unat ?off + unat ?sz \<le> unat (image_size img)" using inside by (simp add: dynamic_in_file64_def)
  then show "dynamic_granted64 L m' img phdr" unfolding dynamic_granted64_def Let_def header by (simp add: mem_image_map_to_mem_def)
  have "load64 m' (image_ptr img + ?off + of_nat i * sz64 L Dyn + off64 L f) =
      load64 m (image_ptr img + ?off + of_nat i * sz64 L Dyn + off64 L f)"
    if i: "i < unat (?sz div sz64 L Dyn)" and f: "f \<in> {D_tag, D_un}" for i f
  proof -
    have "unat (off64 L f) + 8 \<le> unat (sz64 L Dyn)" using abi f by (auto simp: pie64_abi_ok_def)
    moreover have "Suc i * unat (sz64 L Dyn) \<le> unat ?sz"
    proof -
      have "Suc i \<le> unat ?sz div unat (sz64 L Dyn)" using i by (simp add: unat_div)
      then have "Suc i * unat (sz64 L Dyn) \<le> unat ?sz div unat (sz64 L Dyn) * unat (sz64 L Dyn)" by (rule mult_le_mono1)
      then show ?thesis using div_times_less_eq_dividend [of "unat ?sz" "unat (sz64 L Dyn)"] by linarith
    qed
    ultimately have le: "unat ?off + (i * unat (sz64 L Dyn) + unat (off64 L f)) + 8 \<le> unat (image_size img)" using fit by simp
    have eq: "?off + of_nat i * sz64 L Dyn + off64 L f = ?off + of_nat (i * unat (sz64 L Dyn) + unat (off64 L f))" by simp
    have "unat (?off + of_nat (i * unat (sz64 L Dyn) + unat (off64 L f))) = unat ?off + (i * unat (sz64 L Dyn) + unat (off64 L f))"
      using le unat_less64 [of "image_size img"] by (intro unat_add_offset) linarith
    then have "unat (?off + of_nat i * sz64 L Dyn + off64 L f) + 8 \<le> unat (image_size img)" unfolding eq using le by simp
    from same_bytes_load [OF image_agrees_same_bytes [OF agrees] this less_imp_le [OF unat_less64]]
    show ?thesis by (simp add: add.assoc)
  qed
  then show "dynamic_info64 L m' img info phdr = dynamic_info64 L m img info phdr"
    unfolding dynamic_info64_def Let_def header by (intro scan_dynamic64_cong) auto
qed

lemma dynamic_info64_moved:
  assumes "K L DT_RELA \<in> set (dynamic_tags64 L m img phdr)"
  shows "rela64 (dynamic_info64 L m img info phdr) =
      rela64 (dynamic_info64 L m img info' phdr) + (start_addr info - start_addr info')"
    and "rela_count64 (dynamic_info64 L m img info phdr) = rela_count64 (dynamic_info64 L m img info' phdr)"
    and "rela_sz64 (dynamic_info64 L m img info phdr) = rela_sz64 (dynamic_info64 L m img info' phdr)"
    and "rela_entsz64 (dynamic_info64 L m img info phdr) = rela_entsz64 (dynamic_info64 L m img info' phdr)"
proof -
  show "rela64 (dynamic_info64 L m img info phdr) =
      rela64 (dynamic_info64 L m img info' phdr) + (start_addr info - start_addr info')"
    unfolding dynamic_info64_def Let_def using assms
    by (intro scan_dynamic64_rela disjI2) (auto simp: dynamic_tags64_def Let_def)
  show sizes: "rela_sz64 (dynamic_info64 L m img info phdr) = rela_sz64 (dynamic_info64 L m img info' phdr)"
    "rela_entsz64 (dynamic_info64 L m img info phdr) = rela_entsz64 (dynamic_info64 L m img info' phdr)"
    unfolding dynamic_info64_def Let_def by (intro scan_dynamic64_sizes refl)+
  then show "rela_count64 (dynamic_info64 L m img info phdr) = rela_count64 (dynamic_info64 L m img info' phdr)"
    by (simp add: rela_count64_def)
qed

text \<open>The dynamic header is an entry of the table, so it stays as it is while the image does.\<close>

lemma dynamic_phdr64_in: "dynamic_phdr64 L m ps d = d \<or> dynamic_phdr64 L m ps d \<in> set ps"
  by (induction ps arbitrary: d) auto

lemma dynamic_header64_same:
  assumes abi: "elf64_abi_ok L" "get_phdr64_ok L" and hd: "elf64_headers_ok L m img"
    and "dynamic_header64 L m img \<noteq> 0" and "image_agrees img m m'"
  shows "segment_at64 L m' (dynamic_header64 L m img) = segment_at64 L m (dynamic_header64 L m img)"
proof -
  let ?ps = "phdrs64 L m (image_ptr img) (phdrtab64 L m (image_ptr img))"
  have "dynamic_header64 L m img \<in> set ?ps"
    using dynamic_phdr64_in [of L m ?ps 0] assms(4) by (simp add: dynamic_header64_def)
  then obtain i where i: "i < length ?ps" "dynamic_header64 L m img = ?ps ! i" by (metis in_set_conv_nth)
  have "unat (load16 m (image_ptr img + off64 L E_phnum)) < 2 ^ 15" using hd by (simp add: elf64_headers_ok_def Let_def)
  then have n: "i < unat (load16 m (image_ptr img + off64 L E_phnum))" using i(1) by (simp add: phdrs64_def phdr_indices_nth)
  show ?thesis
    unfolding i(2) phdrs64_nth(2) [OF abi(2) hd n]
    by (rule segment_at64_agrees [OF abi(1) unat_phdr_off64 [OF hd n] assms(5)])
qed

section \<open>The relocation of a loaded image\<close>

text \<open>\<open>holds_segments\<close>: the memory has the segments at their places, but for the program header table.\<close>

definition holds_segments :: "elf_abi \<Rightarrow> mem \<Rightarrow> mem_image_access \<Rightarrow> u64 \<Rightarrow> mem \<Rightarrow> bool" where
  "holds_segments L m img reloc m2 \<longleftrightarrow>
     (\<forall>s \<in> set (loaded_segments64 L m img). \<forall>x. window reloc s x \<and>
        \<not> in_range (segment_low (loaded_segments64 L m img) + reloc + load64 m (image_ptr img + off64 L E_phoff))
            (table_size64 L m (image_ptr img)) x \<longrightarrow>
        m2 x = segment_byte m img s (x - (seg_paddr s + reloc)))"

lemma holds_behind_headers:
  assumes disj: "windows_disjoint 0 (loaded_segments64 L m img)" and seg: "holds_segments L m img reloc m2"
    and tab: "unat (load64 m (image_ptr img + off64 L E_phoff)) + table_size64 L m (image_ptr img) \<le> 2 ^ 64"
    and x: "behind_headers L m img x"
  shows "m2 (x + reloc) = link_image L m img x"
proof -
  let ?low = "segment_low (loaded_segments64 L m img)" and ?off = "load64 m (image_ptr img + off64 L E_phoff)"
  obtain s where s: "s \<in> set (loaded_segments64 L m img)" "window 0 s x"
    and out: "\<not> in_range ?low (unat ?off + table_size64 L m (image_ptr img)) x"
    using x by (auto simp: behind_headers_def)
  have "\<not> in_range (?low + reloc + ?off) (table_size64 L m (image_ptr img)) (x + reloc)"
  proof
    assume "in_range (?low + reloc + ?off) (table_size64 L m (image_ptr img)) (x + reloc)"
    then have "in_range (?low + ?off) (table_size64 L m (image_ptr img)) x" by (simp add: in_range_def algebra_simps)
    from in_range_sub [OF this order_refl tab] out show False by simp
  qed
  moreover have "window reloc s (x + reloc)" using s(2) by (simp add: window_def in_range_def)
  ultimately have "m2 (x + reloc) = segment_byte m img s (x + reloc - (seg_paddr s + reloc))"
    using seg s(1) by (auto simp: holds_segments_def)
  also have "\<dots> = link_image L m img x"
    using place_segments_inside [OF disj s, of m img "\<lambda>_. 0"] by (simp add: link_image_def)
  finally show ?thesis .
qed

lemma relocation_runs:
  assumes abi: "elf64_abi_ok L" "get_phdr64_ok L" "pie64_abi_ok L" and hd: "elf64_headers_ok L m img"
    and dyn: "dynamic_ok64 L m img" "\<not> no_dynamic L m img" and disj: "windows_disjoint 0 (loaded_segments64 L m img)"
    and agrees: "image_agrees img m m2" and seg: "holds_segments L m img (relocation_offset info) m2"
    and start: "start_addr info = segment_low (loaded_segments64 L m img) + relocation_offset info"
    and tab: "unat (load64 m (image_ptr img + off64 L E_phoff)) + table_size64 L m (image_ptr img) \<le> 2 ^ 64"
  shows "elf64_do_relocation L m2 img info (dynamic_header64 L m img) =
    Inr (MON_OK, foldl (\<lambda>m e. relocate e m) m2 (map (shift_reloc (relocation_offset info)) (relocations64 L m img)))"
proof -
  let ?r = "relocation_offset info" and ?phdr = "dynamic_header64 L m img"
  define d where "d = link_dynamic64 L m img"
  define d2 where "d2 = dynamic_info64 L m2 img info ?phdr"
  define n where "n = rela_count64 d * unat (sz64 L Rela)"
  have ok: "?phdr \<noteq> 0" "dynamic_in_file64 L m img ?phdr" "K L DT_RELA \<in> set (dynamic_tags64 L m img ?phdr)"
    "0 < sint (rela_entsz64 d)" "0 \<le> sint (rela_sz64 d)" "n \<le> 2 ^ 64"
    "\<And>x. in_range (rela64 d) n x \<Longrightarrow> behind_headers L m img x"
    "list_all simple_reloc (relocations64 L m img)"
    "table_untouched L (rela64 d) (rela_count64 d) (relocations64 L m img)"
    using dyn(1) unfolding dynamic_ok64_def Let_def d_def n_def by blast+
  have same: "segment_at64 L m2 ?phdr = segment_at64 L m ?phdr" by (rule dynamic_header64_same [OF abi(1,2) hd ok(1) agrees])
  then have "load64 m2 (?phdr + off64 L P_offset) = load64 m (?phdr + off64 L P_offset)"
    "load64 m2 (?phdr + off64 L P_filesz) = load64 m (?phdr + off64 L P_filesz)" by (simp_all add: segment_at64_def)
  note info = dynamic_info64_same [OF abi(3) agrees ok(2) this]
    and moved = dynamic_info64_moved [OF ok(3), of info "link_info L m img"]
  have d2: "rela64 d2 = rela64 d + ?r" "rela_count64 d2 = rela_count64 d" "rela_sz64 d2 = rela_sz64 d" "rela_entsz64 d2 = rela_entsz64 d"
    unfolding d2_def info(2) using moved by (simp_all add: d_def link_dynamic64_def link_info_def start)
  have "m2 (rela64 d2 + k) = link_image L m img (rela64 d + k)" if "unat k < n" for k
    using holds_behind_headers [OF disj seg tab ok(7), of "rela64 d + k"] that
    by (simp add: d2(1) in_range_def add.commute add.left_commute)
  then have "same_bytes (link_image L m img) (rela64 d) m2 (rela64 d2) n" by (simp add: same_bytes_def)
  then have es: "rela_entries64 L m2 info d2 = map (shift_reloc ?r) (relocations64 L m img)"
    using rela_entries64_moved [of L d "link_image L m img" m2 d2 "link_info L m img" info] abi(3) ok(6) d2(2) dyn(2)
    by (simp add: relocations64_def pie64_abi_ok_def link_info_def n_def d_def)
  have "table_untouched L (rela64 d2) (rela_count64 d2) (rela_entries64 L m2 info d2)"
    using ok(9) by (auto simp: table_untouched_def es d2 in_range_shift)
  moreover have "list_all simple_reloc (rela_entries64 L m2 info d2)" using ok(8) by (simp add: es list_all_iff)
  moreover have "rela64_abi_ok L" using abi(3) by (simp add: pie64_abi_ok_def)
  ultimately show ?thesis
    using do_relocation_entries [of L m2 img ?phdr d2 info] info(1) d2 ok(4-6) by (simp add: d2_def es [unfolded d2_def] n_def)
qed

section \<open>The load of an image\<close>

text \<open>The segments read from copied headers depend on the headers only.\<close>

lemma segments64_same:
  fixes start :: addr and n :: u64
  assumes abi: "elf64_abi_ok L" "get_phdr64_ok L" and hd: "elf64_headers_ok L m \<lparr>gen = Mem_Image_Ops, image_ptr = start, image_size = sz\<rparr>"
    and behind: "unat (sz64 L Ehdr) \<le> unat (load64 m (start + off64 L E_phoff))"
    and n: "unat n = unat (load64 m (start + off64 L E_phoff)) + table_size64 L m start"
    and same: "\<And>x. in_range start (unat n) x \<Longrightarrow> m' x = m x"
  shows "segments64 L m' start (phdrtab64 L m' start) = segments64 L m start (phdrtab64 L m start)"
    and "phdrtab64 L m' start = phdrtab64 L m start"
proof -
  let ?img = "\<lparr>gen = Mem_Image_Ops, image_ptr = start, image_size = n\<rparr>"
  have agrees: "image_agrees ?img m m'" using same by (simp add: image_agrees_def)
  have hd1: "elf64_headers_ok L m ?img" using hd behind n by (simp add: elf64_headers_ok_def Let_def table_size64_def)
  then have e: "unat (sz64 L Ehdr) \<le> unat (image_size ?img)" by (simp add: elf64_headers_ok_def Let_def)
  note fields = ehdr_field_agrees [OF abi(1) e agrees, simplified]
  have hd2: "elf64_headers_ok L m' ?img" using hd1 by (simp add: elf64_headers_ok_def Let_def fields)
  have off: "phdr_off64 L m' start = phdr_off64 L m start" by (simp add: phdr_off64_def fun_eq_iff fields)
  have "segment_at64 L m' (start + phdr_off64 L m start i) = segment_at64 L m (start + phdr_off64 L m start i)"
    if "i < unat (load16 m (start + off64 L E_phnum))" for i
    using segment_at64_agrees [OF abi(1) unat_phdr_off64 [OF hd1, of i] agrees] that by simp
  then show "segments64 L m' start (phdrtab64 L m' start) = segments64 L m start (phdrtab64 L m start)"
    using segments64_nth [OF abi(2) hd1] segments64_nth [OF abi(2) hd2] by (simp add: off fields)
  show "phdrtab64 L m' start = phdrtab64 L m start" by (simp add: phdrtab64_def fields)
qed

text \<open>What the load leaves: the program headers moved, the segments with their relocations, the rest as it was.\<close>

definition image_loaded64 :: "elf_abi \<Rightarrow> mem \<Rightarrow> mem_image_access \<Rightarrow> elf_load_info \<Rightarrow> mem \<Rightarrow> bool" where
  "image_loaded64 L m img info m2 \<longleftrightarrow>
     (let reloc = relocation_offset info; start = start_addr info
      in phdrtab64 L m2 start = start + load64 m (image_ptr img + off64 L E_phoff) \<and>
         segments64 L m2 start (phdrtab64 L m2 start) =
           map (move_segment reloc) (segments64 L m (image_ptr img) (phdrtab64 L m (image_ptr img))) \<and>
         (\<forall>s \<in> set (loaded_segments64 L m img). \<forall>x. window reloc s x \<and>
            \<not> in_range (phdrtab64 L m2 start) (table_size64 L m (image_ptr img)) x \<and>
            (\<forall>e \<in> set (relocations64 L m img). \<not> reloc_target e (x - reloc)) \<longrightarrow>
            m2 x = segment_byte m img s (x - (seg_paddr s + reloc))) \<and>
         (\<forall>t v. Reloc_Relative t v \<in> set (relocations64 L m img) \<longrightarrow> load64 m2 (t + reloc) = v + reloc) \<and>
         (\<forall>x. (\<forall>s \<in> set (loaded_segments64 L m img). \<not> window reloc s x) \<longrightarrow> m2 x = m x))"

text \<open>The memory after the placement and the update of the headers.\<close>

lemma placed_image:
  fixes reloc :: u64
  assumes abi: "elf64_abi_ok L" "get_phdr64_ok L" and hd: "elf64_headers_ok L m img"
    and disj: "windows_disjoint (relocation_offset info) (loaded_segments64 L m img)"
    and hs: "header_segment L m img info hs"
    and start: "start_addr info = segment_low (loaded_segments64 L m img) + relocation_offset info"
  defines "m1 \<equiv> place_segments m img (relocation_offset info) (loaded_segments64 L m img) m"
  defines "m2 \<equiv> update_phdrs64 L (relocation_offset info) (start_addr info) (phdrtab64 L m1 (start_addr info)) 0 m1"
  shows "phdrtab64 L m2 (start_addr info) = start_addr info + load64 m (image_ptr img + off64 L E_phoff)"
    and "segments64 L m2 (start_addr info) (phdrtab64 L m2 (start_addr info)) =
      map (move_segment (relocation_offset info)) (segments64 L m (image_ptr img) (phdrtab64 L m (image_ptr img)))"
    and "holds_segments L m img (relocation_offset info) m2"
    and "\<And>x. (\<forall>s \<in> set (loaded_segments64 L m img). \<not> window (relocation_offset info) s x) \<Longrightarrow> m2 x = m x"
    and "same_bytes m (image_ptr img) m1 (start_addr info) (unat (file_part hs))"
    and "elf64_headers_ok L m2 \<lparr>gen = Mem_Image_Ops, image_ptr = start_addr info, image_size = file_part hs\<rparr>"
    and "table_size64 L m2 (start_addr info) = table_size64 L m (image_ptr img)"
proof -
  let ?reloc = "relocation_offset info" and ?start = "start_addr info" and ?ss = "loaded_segments64 L m img"
  have h: "hs \<in> set ?ss" "seg_offset hs = 0" "seg_paddr hs + ?reloc = ?start"
    using hs by (auto simp: header_segment_def Let_def)
  show same: "same_bytes m (image_ptr img) m1 ?start (unat (file_part hs))"
    unfolding m1_def by (rule placed_header_bytes [OF disj h])
  note upd = update_after_place [OF abi hd hs same, of ?reloc, folded m2_def]
  show "elf64_headers_ok L m2 \<lparr>gen = Mem_Image_Ops, image_ptr = ?start, image_size = file_part hs\<rparr>"
    and "table_size64 L m2 ?start = table_size64 L m (image_ptr img)" by (rule upd(4,5))+
  show tab: "phdrtab64 L m2 ?start = ?start + load64 m (image_ptr img + off64 L E_phoff)" by (rule upd(2))
  show "segments64 L m2 ?start (phdrtab64 L m2 ?start) =
      map (move_segment ?reloc) (segments64 L m (image_ptr img) (phdrtab64 L m (image_ptr img)))" by (rule upd(1))
  have table: "window ?reloc hs x" if "in_range (phdrtab64 L m2 ?start) (table_size64 L m (image_ptr img)) x" for x
  proof -
    have "unat (load64 m (image_ptr img + off64 L E_phoff)) + table_size64 L m (image_ptr img) \<le> unat (seg_memsz hs)"
      using hs file_part_le [of hs] by (auto simp: header_segment_def Let_def table_size64_def)
    from in_range_sub [OF that [unfolded tab] this] have "in_range ?start (unat (seg_memsz hs)) x" by simp
    then show ?thesis by (simp add: window_def h(3))
  qed
  show "holds_segments L m img ?reloc m2"
  proof -
    have "m2 x = segment_byte m img s (x - (seg_paddr s + ?reloc))"
      if "s \<in> set ?ss" "window ?reloc s x"
        "\<not> in_range (segment_low ?ss + ?reloc + load64 m (image_ptr img + off64 L E_phoff)) (table_size64 L m (image_ptr img)) x" for s x
      using upd(3) [of x] that place_segments_inside [OF disj that(1,2)] by (simp add: tab [unfolded start] start m1_def)
    then show ?thesis by (simp add: holds_segments_def)
  qed
  show "m2 x = m x" if "\<forall>s \<in> set ?ss. \<not> window ?reloc s x" for x
    using upd(3) [of x] table [of x] h(1) that place_segments_outside [of ?ss ?reloc x] by (auto simp: m1_def)
qed

text \<open>The load with its relocations: one fold over them, empty for an image without a dynamic segment.\<close>

lemma elf64_load_executable_relocated:
  assumes abi: "elf64_abi_ok L" "get_phdr64_ok L" "pie64_abi_ok L" and ok: "elf64_image_ok L m img"
    and away: "targets_off_image L m img (relocation_offset info)" and rel: "relocatable64 L m img"
    and plain: "\<not> copy_section_headers info" "\<not> copy_symbol_tables info"
    and disj: "windows_disjoint (relocation_offset info) (loaded_segments64 L m img)"
    and hs: "header_segment L m img info hs"
    and start: "start_addr info = segment_low (loaded_segments64 L m img) + relocation_offset info"
  defines "m1 \<equiv> place_segments m img (relocation_offset info) (loaded_segments64 L m img) m"
  defines "m2 \<equiv> update_phdrs64 L (relocation_offset info) (start_addr info) (phdrtab64 L m1 (start_addr info)) 0 m1"
  shows "elf64_load_executable L m img info =
    Some (Inr (MON_OK, foldl (\<lambda>m e. relocate e m) m2 (map (shift_reloc (relocation_offset info)) (relocations64 L m img))))"
proof -
  let ?r = "relocation_offset info"
  have hd: "elf64_headers_ok L m img" using ok by (simp add: elf64_image_ok_def)
  note placed = placed_image [OF abi(1,2) hd disj hs start, folded m1_def, folded m2_def]
  note load = elf64_load_executable_segments [OF abi(1,2) ok away plain, folded m1_def, folded m2_def dynamic_header64_def]
  show ?thesis
  proof (cases "no_dynamic L m img")
    case True
    then have "dynamic_header64 L m img = 0"
      unfolding dynamic_header64_def by (intro dynamic_phdr64_none) (auto simp: no_dynamic_def segments64_def)
    then show ?thesis using load True by (simp add: relocations64_def)
  next
    case False
    then have dyn: "dynamic_ok64 L m img" using rel by (simp add: relocatable64_def)
    then have nz: "dynamic_header64 L m img \<noteq> 0" unfolding dynamic_ok64_def Let_def by blast
    have "m2 x = m x" if x: "in_range (image_ptr img) (unat (image_size img)) x" for x
    proof (rule placed(4), intro ballI notI)
      fix s assume "s \<in> set (loaded_segments64 L m img)" and w: "window ?r s x"
      then have "off_image img ?r s" using away by (auto simp: targets_off_image_def loaded_segments64_def)
      then show False using disjoint_ranges_not_both x w by (auto simp: off_image_def window_def)
    qed
    then have agrees: "image_agrees img m m2" by (simp add: image_agrees_def)
    have tab: "unat (load64 m (image_ptr img + off64 L E_phoff)) + table_size64 L m (image_ptr img) \<le> 2 ^ 64"
    proof -
      have "unat (load64 m (image_ptr img + off64 L E_phoff)) + table_size64 L m (image_ptr img) \<le> unat (image_size img)"
        using hd by (simp add: elf64_headers_ok_def Let_def table_size64_def)
      then show ?thesis using unat_less64 [of "image_size img"] by linarith
    qed
    have "windows_disjoint 0 (loaded_segments64 L m img)" using disj windows_disjoint_shift by blast
    from relocation_runs [OF abi hd dyn False this agrees placed(3) start tab] show ?thesis using load nz by simp
  qed
qed

lemma relocations_behind_headers:
  assumes "relocatable64 L m img" and "e \<in> set (relocations64 L m img)" and "reloc_target e x"
  shows "behind_headers L m img x"
proof -
  have "\<not> no_dynamic L m img" using assms(2) by (auto simp: relocations64_def)
  then have "dynamic_ok64 L m img" using assms(1) by (simp add: relocatable64_def)
  then show ?thesis using assms(2,3) unfolding dynamic_ok64_def Let_def by blast
qed

lemma relocations_apart: "relocatable64 L m img \<Longrightarrow> sorted_wrt reloc_apart (relocations64 L m img)"
  by (auto simp: relocatable64_def relocations64_def dynamic_ok64_def Let_def)

lemma elf64_load_executable_loads:
  assumes abi: "elf64_abi_ok L" "get_phdr64_ok L" "pie64_abi_ok L" and ok: "elf64_image_ok L m img"
    and away: "targets_off_image L m img (relocation_offset info)" and rel: "relocatable64 L m img"
    and plain: "\<not> copy_section_headers info" "\<not> copy_symbol_tables info"
    and disj: "windows_disjoint (relocation_offset info) (loaded_segments64 L m img)"
    and hs: "header_segment L m img info hs"
    and start: "start_addr info = segment_low (loaded_segments64 L m img) + relocation_offset info"
  shows "\<exists>m2. elf64_load_executable L m img info = Some (Inr (MON_OK, m2)) \<and> image_loaded64 L m img info m2"
proof -
  let ?r = "relocation_offset info" and ?start = "start_addr info" and ?ss = "loaded_segments64 L m img"
    and ?off = "load64 m (image_ptr img + off64 L E_phoff)" and ?ts = "table_size64 L m (image_ptr img)"
  define m1 where "m1 = place_segments m img ?r ?ss m"
  define m2 where "m2 = update_phdrs64 L ?r ?start (phdrtab64 L m1 ?start) 0 m1"
  define es where "es = map (shift_reloc ?r) (relocations64 L m img)"
  define m3 where "m3 = foldl (\<lambda>m e. relocate e m) m2 es"
  have hd: "elf64_headers_ok L m img" using ok by (simp add: elf64_image_ok_def)
  note placed = placed_image [OF abi(1,2) hd disj hs start, folded m1_def, folded m2_def]
  have load: "elf64_load_executable L m img info = Some (Inr (MON_OK, m3))"
    using elf64_load_executable_relocated [OF abi ok away rel plain disj hs start] by (simp add: m3_def es_def m2_def m1_def)
  have behind: "behind_headers L m img (x - ?r)" if "e \<in> set es" "reloc_target e x" for e x
    using that relocations_behind_headers [OF rel] by (auto simp: es_def)
  have hsize: "unat (sz64 L Ehdr) \<le> unat ?off" "unat ?off + ?ts \<le> unat (file_part hs)"
    using hs by (auto simp: header_segment_def Let_def table_size64_def)
  have "load64 m2 (?start + off64 L E_phoff) = ?off" using placed(1) by (simp add: phdrtab64_def)
  note same = segments64_same [OF abi(1,2) placed(6), unfolded this placed(7)]
  define n where "n = (of_nat (unat ?off + ?ts) :: u64)"
  have n: "unat n = unat ?off + ?ts"
    unfolding n_def using hsize(2) unat_less64 [of "file_part hs"] by (intro unat_of_nat64) linarith
  have "m3 x = m2 x" if "in_range ?start (unat n) x" for x
    unfolding m3_def
  proof (rule relocate_all_outside, rule notI)
    fix e assume "e \<in> set es" "reloc_target e x"
    then have "\<not> in_range (segment_low ?ss) (unat n) (x - ?r)" using behind by (simp add: behind_headers_def n)
    then show False using that by (simp add: start in_range_shift)
  qed
  note headers = same [OF hsize(1) n this]
  have inside: "m3 x = segment_byte m img s (x - (seg_paddr s + ?r))"
    if "s \<in> set ?ss" "window ?r s x" "\<not> in_range (?start + ?off) ?ts x"
      "\<forall>e \<in> set (relocations64 L m img). \<not> reloc_target e (x - ?r)" for s x
  proof -
    have "m3 x = m2 x" unfolding m3_def using that(4) by (intro relocate_all_outside) (auto simp: es_def)
    then show ?thesis using placed(3) that(1-3) by (simp add: holds_segments_def start)
  qed
  have stored: "load64 m3 (t + ?r) = v + ?r" if t: "Reloc_Relative t v \<in> set (relocations64 L m img)" for t v
  proof -
    have "sorted_wrt reloc_apart es" using relocations_apart [OF rel] by (simp add: es_def sorted_wrt_map)
    moreover have "Reloc_Relative (t + ?r) (v + ?r) \<in> set es" using t by (force simp: es_def)
    ultimately show ?thesis unfolding m3_def by (rule relocate_all_at)
  qed
  have outside: "m3 x = m x" if "\<forall>s \<in> set ?ss. \<not> window ?r s x" for x
  proof -
    have "m3 x = m2 x"
      unfolding m3_def
    proof (rule relocate_all_outside, rule notI)
      fix e assume "e \<in> set es" "reloc_target e x"
      from behind [OF this] obtain s where "s \<in> set ?ss" "window 0 s (x - ?r)" by (auto simp: behind_headers_def)
      then show False using that by (auto simp: window_def in_range_def diff_diff_eq add.commute)
    qed
    then show ?thesis using placed(4) [OF that] by simp
  qed
  have tab3: "phdrtab64 L m3 ?start = ?start + ?off" using headers(2) placed(1) by simp
  have "segments64 L m3 ?start (phdrtab64 L m3 ?start) =
      map (move_segment ?r) (segments64 L m (image_ptr img) (phdrtab64 L m (image_ptr img)))" using headers(1) placed(2) by simp
  then have "image_loaded64 L m img info m3"
    unfolding image_loaded64_def Let_def tab3 using inside stored outside by blast
  with load show ?thesis by blast
qed

section \<open>A small position-independent executable for the witnesses\<close>

text \<open>
  As \<open>ld -pie\<close> lays it out: one loadable segment maps the 260 bytes of the file to address 0 and has four bytes of BSS;
  the dynamic section names a table with one relative relocation, of the word at 248, with addend 16.
\<close>

definition demo_elf :: "u8 list" where
  "demo_elf =
     [127, 69, 76, 70, 2, 1, 1, 0, 0, 0, 0, 0, 0, 0, 0, 0, 3, 0, 62, 0, 1, 0, 0, 0, 16, 0, 0, 0, 0, 0, 0, 0, 64,
      0, 0, 0, 0, 0, 0, 0, 0, 0, 0, 0, 0, 0, 0, 0, 0, 0, 0, 0, 64, 0, 56, 0, 2, 0, 64, 0, 0, 0, 0, 0, 1, 0, 0,
      0, 7, 0, 0, 0, 0, 0, 0, 0, 0, 0, 0, 0, 0, 0, 0, 0, 0, 0, 0, 0, 0, 0, 0, 0, 0, 0, 0, 0, 4, 1, 0, 0, 0, 0,
      0, 0, 8, 1, 0, 0, 0, 0, 0, 0, 0, 16, 0, 0, 0, 0, 0, 0, 2, 0, 0, 0, 6, 0, 0, 0, 176, 0, 0, 0, 0, 0, 0, 0,
      176, 0, 0, 0, 0, 0, 0, 0, 176, 0, 0, 0, 0, 0, 0, 0, 48, 0, 0, 0, 0, 0, 0, 0, 48, 0, 0, 0, 0, 0, 0, 0, 8,
      0, 0, 0, 0, 0, 0, 0, 7, 0, 0, 0, 0, 0, 0, 0, 224, 0, 0, 0, 0, 0, 0, 0, 8, 0, 0, 0, 0, 0, 0, 0, 24, 0, 0,
      0, 0, 0, 0, 0, 9, 0, 0, 0, 0, 0, 0, 0, 24, 0, 0, 0, 0, 0, 0, 0, 248, 0, 0, 0, 0, 0, 0, 0, 8, 0, 0, 0, 0,
      0, 0, 0, 16, 0, 0, 0, 0, 0, 0, 0, 0, 0, 0, 0, 0, 0, 0, 0, 222, 173, 190, 239]"

definition demo_mem :: mem where
  "demo_mem x = (let k = unat (x - 0x100000) in if k < 260 then demo_elf ! k else 0xFF)"

definition demo_img :: mem_image_access where
  "demo_img = \<lparr>gen = Mem_Image_Ops, image_ptr = 0x100000, image_size = 260\<rparr>"

definition demo_segment :: segment where
  "demo_segment = \<lparr>seg_type = 1, seg_offset = 0, seg_paddr = 0, seg_filesz = 260, seg_memsz = 264\<rparr>"

definition demo_dynamic :: segment where
  "demo_dynamic = \<lparr>seg_type = 2, seg_offset = 176, seg_paddr = 176, seg_filesz = 48, seg_memsz = 48\<rparr>"

definition demo_info :: elf_load_info where
  "demo_info = \<lparr>start_addr = 0x800000, end_addr = 0x800108, entry_addr = 0x800010, sections_addr = 0,
     relocation_offset = 0x800000, machine_type = 62, copy_section_headers = False,
     copy_symbol_tables = False\<rparr>"

lemma demo_sel [simp]:
  "image_ptr demo_img = 0x100000" "image_size demo_img = 260"
  "start_addr demo_info = 0x800000" "relocation_offset demo_info = 0x800000"
  "copy_section_headers demo_info = False" "copy_symbol_tables demo_info = False"
  by (simp_all add: demo_img_def demo_info_def)

lemma demo_segment_sel [simp]:
  "seg_type demo_segment = 1" "seg_offset demo_segment = 0" "seg_paddr demo_segment = 0"
  "seg_filesz demo_segment = 260" "seg_memsz demo_segment = 264" "file_part demo_segment = 260"
  "seg_type demo_dynamic = 2"
  by (simp_all add: demo_segment_def demo_dynamic_def file_part_def)

lemmas demo_eval = load_le_def read_bytes_def demo_mem_def demo_elf_def upt_rec Let_def

lemma demo_ehdr:
  "load16 demo_mem 0x100038 = 2" "load16 demo_mem 0x100036 = 56" "load64 demo_mem 0x100020 = 64"
  "load16 demo_mem 0x100010 = 3" "load64 demo_mem 0x100018 = 16" "load32 demo_mem 0x100014 = 1"
  "load16 demo_mem 0x100012 = 62"
  by (simp_all add: demo_eval)

lemma demo_phdr:
  "load32 demo_mem 0x100040 = 1" "load64 demo_mem 0x100048 = 0" "load64 demo_mem 0x100058 = 0"
  "load64 demo_mem 0x100060 = 260" "load64 demo_mem 0x100068 = 264"
  "load32 demo_mem 0x100078 = 2" "load64 demo_mem 0x100080 = 176" "load64 demo_mem 0x100090 = 176"
  "load64 demo_mem 0x100098 = 48" "load64 demo_mem 0x1000A0 = 48"
  by (simp_all add: demo_eval)

lemma demo_words:
  "load64 demo_mem 0x1000B0 = 7" "load64 demo_mem 0x1000B8 = 224" "load64 demo_mem 0x1000C0 = 8"
  "load64 demo_mem 0x1000C8 = 24" "load64 demo_mem 0x1000D0 = 9" "load64 demo_mem 0x1000D8 = 24"
  "load64 demo_mem 0x1000E0 = 248" "load64 demo_mem 0x1000E8 = 8" "load64 demo_mem 0x1000F0 = 16"
  by (simp_all add: demo_eval)

text \<open>The executable at any address of any memory.\<close>

definition demo_at :: "mem \<Rightarrow> addr \<Rightarrow> bool" where
  "demo_at m p \<longleftrightarrow> (\<forall>k < 260. m (p + of_nat k) = demo_elf ! k)"

lemma demo_at_words: "demo_at m p \<longleftrightarrow> (\<forall>k :: addr. unat k < 260 \<longrightarrow> m (p + k) = demo_elf ! unat k)"
  unfolding demo_at_def
proof (intro iffI allI impI)
  fix k :: nat
  assume all: "\<forall>k :: addr. unat k < 260 \<longrightarrow> m (p + k) = demo_elf ! unat k" and k: "k < 260"
  then have "unat (of_nat k :: addr) = k" by (intro unat_of_nat64) simp
  then show "m (p + of_nat k) = demo_elf ! k" using all k by metis
next
  fix k :: addr
  assume "\<forall>k < 260. m (p + of_nat k) = demo_elf ! k" and "unat k < 260"
  then have "m (p + of_nat (unat k)) = demo_elf ! unat k" by blast
  then show "m (p + k) = demo_elf ! unat k" by simp
qed

lemma demo_at_same: "demo_at m p \<longleftrightarrow> same_bytes demo_mem 0x100000 m p 260"
proof -
  have "demo_mem (0x100000 + k) = demo_elf ! unat k" if "unat k < 260" for k
    using that by (simp add: demo_mem_def)
  then show ?thesis by (simp add: demo_at_words same_bytes_def)
qed

lemma demo_at_demo_mem: "demo_at demo_mem 0x100000"
  by (simp add: demo_at_same same_bytes_def)

lemma at_load:
  "demo_at m p \<Longrightarrow> unat v + n \<le> 260 \<Longrightarrow> load_le n m (p + v) = load_le n demo_mem (0x100000 + v)"
  by (intro same_bytes_load [of demo_mem "0x100000" m p 260]) (simp_all add: demo_at_same)

lemma at_ehdr:
  assumes "demo_at m p"
  shows "load16 m (p + 0x38) = 2" "load16 m (p + 0x36) = 56" "load64 m (p + 0x20) = 64"
    "load16 m (p + 0x10) = 3" "load64 m (p + 0x18) = 16" "load32 m (p + 0x14) = 1"
    "load16 m (p + 0x12) = 62"
  using assms by (simp_all add: at_load demo_ehdr)

lemma at_phdr:
  assumes "demo_at m p"
  shows "load32 m (p + 0x40) = 1" "load64 m (p + 0x48) = 0" "load64 m (p + 0x58) = 0"
    "load64 m (p + 0x60) = 260" "load64 m (p + 0x68) = 264"
    "load32 m (p + 0x78) = 2" "load64 m (p + 0x80) = 176" "load64 m (p + 0x90) = 176"
    "load64 m (p + 0x98) = 48" "load64 m (p + 0xA0) = 48"
  using assms by (simp_all add: at_load demo_phdr)

lemma at_words:
  assumes "demo_at m p"
  shows "load64 m (p + 0xB0) = 7" "load64 m (p + 0xB8) = 224" "load64 m (p + 0xC0) = 8"
    "load64 m (p + 0xC8) = 24" "load64 m (p + 0xD0) = 9" "load64 m (p + 0xD8) = 24"
    "load64 m (p + 0xE0) = 248" "load64 m (p + 0xE8) = 8" "load64 m (p + 0xF0) = 16"
  using assms by (simp_all add: at_load demo_words)

lemma at_byte: "demo_at m p \<Longrightarrow> unat v < 260 \<Longrightarrow> m (p + v) = demo_mem (0x100000 + v)"
  by (simp add: demo_at_same same_bytes_def)

lemma at_phdrs: "demo_at m p \<Longrightarrow> phdrs64 elf_std m p (phdrtab64 elf_std m p) = [p + 0x40, p + 0x78]"
  by (simp add: phdrs64_def phdrtab64_def phdr_indices_def std_get_phdr_def at_ehdr upt_rec add.assoc)

lemma at_segments: "demo_at m p \<Longrightarrow> segments64 elf_std m p (phdrtab64 elf_std m p) = [demo_segment, demo_dynamic]"
  by (simp add: segments64_def at_phdrs segment_at64_def at_phdr demo_segment_def demo_dynamic_def add.assoc)

abbreviation file_at :: "addr \<Rightarrow> u64 \<Rightarrow> mem_image_access" where
  "file_at p sz \<equiv> \<lparr>gen = Mem_Image_Ops, image_ptr = p, image_size = sz\<rparr>"

lemma at_loaded: "demo_at m p \<Longrightarrow> loaded_segments64 elf_std m (file_at p sz) = [demo_segment]"
  by (simp add: loaded_segments64_def at_segments loadable_def)

lemma at_image_ok: "demo_at m p \<Longrightarrow> 260 \<le> unat sz \<Longrightarrow> elf64_image_ok elf_std m (file_at p sz)"
  by (simp add: elf64_image_ok_def elf64_headers_ok_def at_ehdr at_segments in_file_def loadable_def)

lemma at_dynamic_header: "demo_at m p \<Longrightarrow> dynamic_header64 elf_std m (file_at p sz) = p + 0x78"
  by (simp add: dynamic_header64_def at_phdrs at_phdr segment_at64_def add.assoc)

lemma at_link_image: "demo_at m p \<Longrightarrow> demo_at (link_image elf_std m (file_at p sz)) 0"
  by (simp add: demo_at_words link_image_def at_loaded place_segment_def in_range_def segment_byte_def word_less_nat_alt)

lemma at_link_dynamic:
  "demo_at m p \<Longrightarrow> link_dynamic64 elf_std m (file_at p sz) =
     \<lparr>rela64 = 224, rela_sz64 = 24, rela_entsz64 = 24, symtab64 = 0, symtab_entsz64 = 0\<rparr>"
  by (simp add: link_dynamic64_def dynamic_info64_def link_info_def at_dynamic_header at_phdr at_words at_loaded
      segment_low_def upt_rec add.assoc)

lemma at_no_dynamic: "demo_at m p \<Longrightarrow> \<not> no_dynamic elf_std m (file_at p sz)"
  by (simp add: no_dynamic_def at_segments)

lemma at_relocations: "demo_at m p \<Longrightarrow> relocations64 elf_std m (file_at p sz) = [Reloc_Relative 248 16]"
  using at_words [OF at_link_image [of m p sz]]
  by (simp add: relocations64_def at_no_dynamic rela_entries64_def rela_count64_def at_link_dynamic decode_table64_def
      decode_rela64_def link_info_def)

lemma at_behind_headers:
  "demo_at m p \<Longrightarrow> 176 \<le> unat x \<Longrightarrow> unat x < 264 \<Longrightarrow> behind_headers elf_std m (file_at p sz) x"
  by (simp add: behind_headers_def at_loaded at_ehdr window_def in_range_def segment_low_def table_size64_def)

lemma in_range_between:
  "in_range a n x \<Longrightarrow> unat a + n \<le> 2 ^ 63 \<Longrightarrow> unat a \<le> unat x \<and> unat x < unat a + n"
proof -
  assume r: "in_range a n x" and n: "unat a + n \<le> 2 ^ 63"
  then have "unat (x - a) < n" by (simp add: in_range_def)
  then have "unat (a + (x - a)) = unat a + unat (x - a)" using n unat_add64 [of a "x - a"] by simp
  then show ?thesis using \<open>unat (x - a) < n\<close> by simp
qed

lemma at_relocatable:
  assumes at: "demo_at m p" and sz: "260 \<le> unat sz" and p: "unat p + 260 < 2 ^ 64"
  shows "relocatable64 elf_std m (file_at p sz)"
proof -
  have "unat (p + 0x78) = unat p + 0x78" using p unat_add64 [of p "0x78"] by simp
  then have "p + 0x78 \<noteq> 0" by (metis add_is_0 unat_0 zero_neq_numeral)
  moreover have "dynamic_in_file64 elf_std m (file_at p sz) (p + 0x78)"
    using sz by (simp add: dynamic_in_file64_def at_phdr [OF at] add.assoc)
  moreover have "7 \<in> set (dynamic_tags64 elf_std m (file_at p sz) (p + 0x78))"
    by (simp add: dynamic_tags64_def at_phdr [OF at] at_words [OF at] upt_rec add.assoc)
  moreover have "behind_headers elf_std m (file_at p sz) x" if "in_range 224 24 x \<or> in_range 248 8 x" for x
    using that in_range_between [of 224 24 x] in_range_between [of 248 8 x] by (intro at_behind_headers [OF at]) auto
  moreover have "\<not> in_range 224 24 x" if "in_range 248 8 x" for x
    using that in_range_between [of 224 24 x] in_range_between [of 248 8 x] by auto
  ultimately have "dynamic_ok64 elf_std m (file_at p sz)"
    by (simp add: dynamic_ok64_def Let_def at_dynamic_header [OF at] at_link_dynamic [OF at] at_relocations [OF at]
        rela_count64_def simple_reloc_def table_untouched_def)
  then show ?thesis by (simp add: relocatable64_def)
qed

lemma demo_img_eq: "file_at 0x100000 260 = demo_img"
  by (simp add: demo_img_def)

lemmas demo_loaded = at_loaded [OF demo_at_demo_mem, of 260, unfolded demo_img_eq]
  and demo_segments = at_segments [OF demo_at_demo_mem]
  and demo_relocations = at_relocations [OF demo_at_demo_mem, of 260, unfolded demo_img_eq]

lemma demo_ok:
  "elf64_image_ok elf_std demo_mem demo_img" "targets_off_image elf_std demo_mem demo_img 0x800000"
  "relocatable64 elf_std demo_mem demo_img"
  "header_segment elf_std demo_mem demo_img demo_info demo_segment"
proof -
  show "elf64_image_ok elf_std demo_mem demo_img" "relocatable64 elf_std demo_mem demo_img"
    using at_image_ok [OF demo_at_demo_mem, of 260] at_relocatable [OF demo_at_demo_mem, of 260] by (simp_all add: demo_img_eq)
  show "targets_off_image elf_std demo_mem demo_img 0x800000"
    by (simp add: targets_off_image_def demo_segments off_image_def disjoint_ranges_def loadable_def)
  show "header_segment elf_std demo_mem demo_img demo_info demo_segment"
    by (simp add: header_segment_def demo_loaded demo_ehdr)
qed

section \<open>Properties\<close>

text \<open>
  C17: Loading a well-formed 64-bit image to the address the relocation offset gives succeeds. The program header table
  there describes the moved segments; every byte of a segment outside that table and the relocation targets is the file's
  byte or, past the file part, zero; every relative relocation of the image has stored its addend plus the offset at its
  moved target; and no byte outside the segments changes. Well formed: headers and segment contents inside the file, the
  segments apart from each other and off the source buffer, one segment carrying the headers to the start address, no copy
  of section tables asked for, and either no dynamic segment or one as \<open>relocatable64\<close> describes it: in the file, with the
  relocation table and the targets behind the headers in the segments, and only relative or empty entries.
\<close>

theorem elf64_load_executable_image:
  assumes "elf64_abi_ok L" and "get_phdr64_ok L" and "pie64_abi_ok L" and "elf64_image_ok L m img"
    and "targets_off_image L m img (relocation_offset info)" and "relocatable64 L m img"
    and "\<not> copy_section_headers info" and "\<not> copy_symbol_tables info"
    and "windows_disjoint (relocation_offset info) (loaded_segments64 L m img)"
    and "header_segment L m img info hs"
    and "start_addr info = segment_low (loaded_segments64 L m img) + relocation_offset info"
  shows "\<exists>m2. elf64_load_executable L m img info = Some (Inr (MON_OK, m2)) \<and>
    phdrtab64 L m2 (start_addr info) = start_addr info + load64 m (image_ptr img + off64 L E_phoff) \<and>
    segments64 L m2 (start_addr info) (phdrtab64 L m2 (start_addr info)) =
      map (move_segment (relocation_offset info)) (segments64 L m (image_ptr img) (phdrtab64 L m (image_ptr img))) \<and>
    (\<forall>s \<in> set (loaded_segments64 L m img). \<forall>x. window (relocation_offset info) s x \<and>
       \<not> in_range (phdrtab64 L m2 (start_addr info)) (table_size64 L m (image_ptr img)) x \<and>
       (\<forall>e \<in> set (relocations64 L m img). \<not> reloc_target e (x - relocation_offset info)) \<longrightarrow>
       m2 x = segment_byte m img s (x - (seg_paddr s + relocation_offset info))) \<and>
    (\<forall>t v. Reloc_Relative t v \<in> set (relocations64 L m img) \<longrightarrow>
       load64 m2 (t + relocation_offset info) = v + relocation_offset info) \<and>
    (\<forall>x. (\<forall>s \<in> set (loaded_segments64 L m img). \<not> window (relocation_offset info) s x) \<longrightarrow> m2 x = m x)"
  using elf64_load_executable_loads [OF assms] unfolding image_loaded64_def Let_def .

theorem elf64_load_executable_image_witness:
  "\<exists>m2. elf64_load_executable elf_std demo_mem demo_img demo_info = Some (Inr (MON_OK, m2)) \<and>
     m2 0x800103 = 0xEF \<and> m2 0x800104 = 0 \<and> m2 0x800108 = 0xFF \<and> load64 m2 0x8000F8 = 0x800010"
proof -
  have disj: "windows_disjoint (relocation_offset demo_info) (loaded_segments64 elf_std demo_mem demo_img)"
    and start: "start_addr demo_info =
      segment_low (loaded_segments64 elf_std demo_mem demo_img) + relocation_offset demo_info"
    by (simp_all add: demo_loaded segment_low_def)
  obtain m2 where m2: "elf64_load_executable elf_std demo_mem demo_img demo_info = Some (Inr (MON_OK, m2))"
    and tab: "phdrtab64 elf_std m2 0x800000 = 0x800040"
    and inside: "\<forall>x. window 0x800000 demo_segment x \<and>
       \<not> in_range (phdrtab64 elf_std m2 0x800000) (table_size64 elf_std demo_mem 0x100000) x \<and>
       \<not> in_range 0xF8 8 (x - 0x800000) \<longrightarrow> m2 x = segment_byte demo_mem demo_img demo_segment (x - 0x800000)"
    and stored: "load64 m2 0x8000F8 = 0x800010"
    and outside: "\<forall>x. \<not> window 0x800000 demo_segment x \<longrightarrow> m2 x = demo_mem x"
    using elf64_load_executable_image [OF elf_std_ok elf_std_get_phdr elf_std_pie demo_ok(1) _ demo_ok(3) _ _ disj demo_ok(4) start]
      demo_ok(2) by (auto simp: demo_loaded demo_ehdr demo_relocations)
  have size: "table_size64 elf_std demo_mem 0x100000 = 112"
    by (simp add: table_size64_def demo_ehdr)
  have "window 0x800000 demo_segment 0x800103" "window 0x800000 demo_segment 0x800104"
    "\<not> window 0x800000 demo_segment 0x800108"
    by (simp_all add: window_def in_range_def)
  moreover have "demo_mem 0x800108 = 0xFF" "demo_mem 0x100103 = 0xEF"
    by (simp_all add: demo_mem_def demo_elf_def)
  ultimately have "m2 0x800103 = 0xEF \<and> m2 0x800104 = 0 \<and> m2 0x800108 = 0xFF"
    using inside outside tab size by (simp add: in_range_def segment_byte_def)
  with m2 stored show ?thesis by blast
qed

end
