(* ===== verification/Elf64_Span.thy ===== *)
theory Elf64_Span
  imports Elf64_Image
begin

text \<open>
  What \<open>elf64_get_load_info\<close> computes: the least start and the greatest end of the loadable
  segments, and when it refuses a file.
\<close>

lemma segment_span64_fold:
  "segment_span64 L m ehdr tab is lo hi =
     (let ss = filter (loadable L) (map (\<lambda>i. segment_at64 L m (get_phdr64 L m ehdr tab (of_nat i))) is)
      in (fold min (map seg_paddr ss) lo, fold max (map (\<lambda>s. seg_paddr s + seg_memsz s) ss) hi))"
proof (induction "is" arbitrary: lo hi)
  case Nil
  then show ?case by simp
next
  case (Cons i js)
  have "(if a < lo then a else lo) = min a lo" and "(if b > hi then b else hi) = max b hi" for a b
    by (auto simp: min_def max_def)
  then show ?case
    by (simp add: Cons.IH Let_def loadable_def segment_at64_def)
qed

lemma segment_span64_table:
  "segment_span64 L m ehdr tab (phdr_indices (load16 m (ehdr + off64 L E_phnum))) lo hi =
     (let ss = filter (loadable L) (segments64 L m ehdr tab)
      in (fold min (map seg_paddr ss) lo, fold max (map (\<lambda>s. seg_paddr s + seg_memsz s) ss) hi))"
  by (simp add: segment_span64_fold segments64_def phdrs64_def comp_def)

lemma fold_min_top: "xs \<noteq> [] \<Longrightarrow> fold min xs (- 1) = Min (set xs)" for xs :: "u64 list"
  by (simp add: Min.set_eq_fold [symmetric] min.absorb2)

lemma fold_max_bot: "xs \<noteq> [] \<Longrightarrow> fold max xs 0 = Max (set xs)" for xs :: "u64 list"
  by (simp add: Max.set_eq_fold [symmetric] max.absorb2)

text \<open>The result for a request without section tables, on each of the code's exits.\<close>

lemma elf64_get_load_info_plain:
  assumes plain: "\<not> copy_section_headers info" "\<not> copy_symbol_tables info"
    and page: "K L PAGE_4KB_MASK = 0xFFF"
    and headers: "fst (mem_image_map_to_mem img 0 (sz64 L Ehdr)) = sz64 L Ehdr"
      "fst (mem_image_map_to_mem img (load64 m (image_ptr img + off64 L E_phoff)) (ucast phsize)) = ucast phsize"
    and phsize: "phsize = (ucast (load16 m (image_ptr img + off64 L E_phnum)) *
                 ucast (load16 m (image_ptr img + off64 L E_phentsize)) :: u32)"
    and e_type: "ucast (load16 m (image_ptr img + off64 L E_type)) \<in> {K L ET_EXEC, K L ET_DYN}"
  shows "elf64_get_load_info L m img info =
    (let ss = loaded_segments64 L m img; low = Min (seg_paddr ` set ss) in
     if ss = [] \<or> low AND 0xFFF \<noteq> 0 then Some (MON_ERROR, info)
     else Some (MON_OK, info\<lparr>start_addr := low,
                  end_addr := Max ((\<lambda>s. seg_paddr s + seg_memsz s) ` set ss),
                  entry_addr := load64 m (image_ptr img + off64 L E_entry)\<rparr>))"
proof -
  let ?ss = "loaded_segments64 L m img"
  obtain n1 p1 where m1: "mem_image_map_to_mem img 0 (sz64 L Ehdr) = (n1, p1)"
    by (cases "mem_image_map_to_mem img 0 (sz64 L Ehdr)")
  have p1: "n1 = sz64 L Ehdr" "p1 = image_ptr img"
    using headers(1) m1 by (auto simp: mem_image_map_to_mem_def)
  have m2: "mem_image_map_to_mem img (load64 m (image_ptr img + off64 L E_phoff)) (ucast phsize)
            = (ucast phsize, phdrtab64 L m (image_ptr img))"
    using headers(2) by (simp add: mem_image_map_to_mem_def phdrtab64_def)
  have span: "segment_span64 L m (image_ptr img) (phdrtab64 L m (image_ptr img))
      (phdr_indices (load16 m (image_ptr img + off64 L E_phnum))) (NOT 0) 0
    = (fold min (map seg_paddr ?ss) (- 1), fold max (map (\<lambda>s. seg_paddr s + seg_memsz s) ?ss) 0)"
    by (simp add: segment_span64_table Let_def loaded_segments64_def)
  have type: "\<not> (ucast (load16 m (image_ptr img + off64 L E_type)) \<noteq> K L ET_EXEC \<and>
                 ucast (load16 m (image_ptr img + off64 L E_type)) \<noteq> K L ET_DYN)"
    using e_type by auto
  have result: "elf64_get_load_info L m img info =
    (let low = fold min (map seg_paddr ?ss) (- 1) in
     if low AND 0xFFF \<noteq> 0 then Some (MON_ERROR, info)
     else Some (MON_OK, info\<lparr>start_addr := low,
                  end_addr := fold max (map (\<lambda>s. seg_paddr s + seg_memsz s) ?ss) 0,
                  entry_addr := load64 m (image_ptr img + off64 L E_entry)\<rparr>))"
    unfolding elf64_get_load_info_def m1 p1 m2 [unfolded phsize] Let_def prod.case span page
      if_not_P [OF type]
    using plain by simp
  show ?thesis
  proof (cases "?ss = []")
    case True
    then show ?thesis unfolding result by (simp add: Let_def)
  next
    case False
    then show ?thesis unfolding result by (simp add: Let_def fold_min_top fold_max_bot)
  qed
qed

lemma unat_mod_4096: "take_bit 12 w = 0 \<Longrightarrow> unat w mod 4096 = 0" for w :: u64
proof -
  assume "take_bit 12 w = 0"
  then have "unat (take_bit 12 w) = 0" by simp
  then have "take_bit 12 (unat w) = 0" by (simp only: unsigned_take_bit_eq)
  then show ?thesis by (simp add: take_bit_eq_mod)
qed

lemma elf64_load_info_accepted:
  assumes "K L PAGE_4KB_MASK = 0xFFF"
    and "\<not> copy_section_headers info" and "\<not> copy_symbol_tables info"
    and "elf64_get_load_info L m img info = Some (MON_OK, info')"
  shows "loaded_segments64 L m img \<noteq> []"
    and "unat (Min (seg_paddr ` set (loaded_segments64 L m img))) mod 4096 = 0"
    and "info' = info\<lparr>start_addr := Min (seg_paddr ` set (loaded_segments64 L m img)),
       end_addr := Max ((\<lambda>s. seg_paddr s + seg_memsz s) ` set (loaded_segments64 L m img)),
       entry_addr := load64 m (image_ptr img + off64 L E_entry)\<rparr>"
proof -
  let ?phsize = "ucast (load16 m (image_ptr img + off64 L E_phnum)) *
                 ucast (load16 m (image_ptr img + off64 L E_phentsize)) :: u32"
  have hd: "fst (mem_image_map_to_mem img 0 (sz64 L Ehdr)) = sz64 L Ehdr"
    and ty: "ucast (load16 m (image_ptr img + off64 L E_type)) \<in> {K L ET_EXEC, K L ET_DYN}"
    and tab: "fst (mem_image_map_to_mem img (load64 m (image_ptr img + off64 L E_phoff)) (ucast ?phsize))
           = ucast ?phsize"
    using assms(4)
    by (auto simp: elf64_get_load_info_def mem_image_map_to_mem_def Let_def split: if_splits)
  let ?ss = "loaded_segments64 L m img"
  have res: "?ss \<noteq> [] \<and> Min (seg_paddr ` set ?ss) AND 0xFFF = 0 \<and>
    info' = info\<lparr>start_addr := Min (seg_paddr ` set ?ss),
       end_addr := Max ((\<lambda>s. seg_paddr s + seg_memsz s) ` set ?ss),
       entry_addr := load64 m (image_ptr img + off64 L E_entry)\<rparr>"
    using assms(4) elf64_get_load_info_plain [OF assms(2,3,1) hd tab refl ty]
    by (auto simp: Let_def split: if_splits)
  have "(0xFFF :: u64) = mask 12" by (simp add: mask_eq_exp_minus_1)
  then have "take_bit 12 (Min (seg_paddr ` set ?ss)) = 0"
    using res by (simp add: take_bit_eq_mask)
  then show "unat (Min (seg_paddr ` set ?ss)) mod 4096 = 0" by (rule unat_mod_4096)
  show "?ss \<noteq> []"
    and "info' = info\<lparr>start_addr := Min (seg_paddr ` set ?ss),
       end_addr := Max ((\<lambda>s. seg_paddr s + seg_memsz s) ` set ?ss),
       entry_addr := load64 m (image_ptr img + off64 L E_entry)\<rparr>"
    using res by blast+
qed

section \<open>Properties\<close>

text \<open>
  C19: When \<open>elf64_get_load_info\<close> accepts a file without section tables, the reported start is the
  least physical address of the loadable segments and is page aligned, the reported end is the
  greatest segment end, and the entry is that of the header; there is at least one such segment.
\<close>

theorem elf64_get_load_info_bounds:
  assumes "K L PAGE_4KB_MASK = 0xFFF"
    and "\<not> copy_section_headers info" and "\<not> copy_symbol_tables info"
    and "elf64_get_load_info L m img info = Some (MON_OK, info')"
  shows "loaded_segments64 L m img \<noteq> [] \<and>
     start_addr info' = Min (seg_paddr ` set (loaded_segments64 L m img)) \<and>
     end_addr info' = Max ((\<lambda>s. seg_paddr s + seg_memsz s) ` set (loaded_segments64 L m img)) \<and>
     unat (start_addr info') mod 4096 = 0 \<and>
     entry_addr info' = load64 m (image_ptr img + off64 L E_entry)"
  using elf64_load_info_accepted [OF assms] by simp

theorem elf64_get_load_info_bounds_witness:
  "\<exists>info'. elf64_get_load_info elf_std demo_mem demo_img demo_info = Some (MON_OK, info') \<and>
     start_addr info' = 0 \<and> end_addr info' = 264 \<and> entry_addr info' = 16"
proof -
  have "elf64_get_load_info elf_std demo_mem demo_img demo_info =
        Some (MON_OK, demo_info\<lparr>start_addr := 0, end_addr := 264, entry_addr := 16\<rparr>)"
    by (subst elf64_get_load_info_plain [where phsize = 112])
      (simp_all add: demo_loaded mem_image_map_to_mem_def demo_ehdr)
  then obtain info' where i: "elf64_get_load_info elf_std demo_mem demo_img demo_info = Some (MON_OK, info')"
    by blast
  with elf64_get_load_info_bounds [OF _ _ _ i] show ?thesis by (simp add: demo_loaded demo_ehdr)
qed

text \<open>
  A file with no loadable segment is refused, and so is every file whose header counts 0x8000
  program headers or more: the count is read as a signed 16-bit number and no header is looked at.
\<close>

lemma elf64_get_load_info_refuses:
  assumes "K L PAGE_4KB_MASK = 0xFFF"
    and "\<not> copy_section_headers info" and "\<not> copy_symbol_tables info"
    and "loaded_segments64 L m img = [] \<or> 2 ^ 15 \<le> unat (load16 m (image_ptr img + off64 L E_phnum))"
  shows "elf64_get_load_info L m img info = Some (MON_ERROR, info)"
proof -
  have "sint w \<le> 0" if "2 ^ 15 \<le> unat w" for w :: u16
  proof (rule ccontr)
    assume "\<not> sint w \<le> 0"
    then have "uint w < 2 ^ 15" using sint_nonneg_uint [of w] sint_lt [of w] by simp
    moreover have "int (2 ^ 15) \<le> int (unat w)" using that by (simp only: of_nat_le_iff)
    ultimately show False by simp
  qed
  then have none: "loaded_segments64 L m img = []"
    using assms(4) by (auto simp: loaded_segments64_def segments64_def phdrs64_def phdr_indices_def)
  show ?thesis
  proof (rule ccontr)
    assume ne: "elf64_get_load_info L m img info \<noteq> Some (MON_ERROR, info)"
    let ?phsize = "ucast (load16 m (image_ptr img + off64 L E_phnum)) *
                   ucast (load16 m (image_ptr img + off64 L E_phentsize)) :: u32"
    have "fst (mem_image_map_to_mem img 0 (sz64 L Ehdr)) = sz64 L Ehdr"
      and "fst (mem_image_map_to_mem img (load64 m (image_ptr img + off64 L E_phoff)) (ucast ?phsize)) = ucast ?phsize"
      and "ucast (load16 m (image_ptr img + off64 L E_type)) \<in> {K L ET_EXEC, K L ET_DYN}"
      using ne by (auto simp: elf64_get_load_info_def mem_image_map_to_mem_def Let_def split: if_splits)
    from elf64_get_load_info_plain [OF assms(2,3,1) this(1,2) refl this(3)] none ne
    show False by simp
  qed
qed

lemma elf64_get_load_info_refuses_witness:
  "elf64_get_load_info elf_std (demo_mem(0x100040 := 6)) demo_img demo_info = Some (MON_ERROR, demo_info)"
proof -
  have "load32 (demo_mem(0x100040 := 6)) 0x100040 = 6" "load16 (demo_mem(0x100040 := 6)) 0x100038 = 2"
    "load32 (demo_mem(0x100040 := 6)) 0x100078 = 2" "load16 (demo_mem(0x100040 := 6)) 0x100036 = 56" "load64 (demo_mem(0x100040 := 6)) 0x100020 = 64"
    by (simp_all add: demo_eval)
  then have "loaded_segments64 elf_std (demo_mem(0x100040 := 6)) demo_img = []"
    by (simp add: loaded_segments64_def segments64_def phdrs64_def phdrtab64_def phdr_indices_def
        segment_at64_def std_get_phdr_def loadable_def upt_rec)
  then show ?thesis by (intro elf64_get_load_info_refuses) simp_all
qed

end
