(* ===== verification/Elf32_Loader.thy ===== *)
theory Elf32_Loader
  imports Elf64_Loader
begin

text \<open>
  The 32-bit ELF loader of \<open>common/ld/elf_ld/elf32_ld.c\<close>. Sizes and addresses of the file are 32 bits
  wide and wrap at that width; pointers are formed by adding the 64-bit relocation offset. Unlike
  the 64-bit loader it checks the dynamic information before it divides, and it knows both kinds
  of relocation table.
\<close>

section \<open>Load information\<close>

fun segment_span32 :: "elf_abi \<Rightarrow> mem \<Rightarrow> addr \<Rightarrow> addr \<Rightarrow> nat list \<Rightarrow> u32 \<Rightarrow> u32 \<Rightarrow> u32 \<times> u32" where
  "segment_span32 L m ehdr phdrtab [] low_addr max_addr = (low_addr, max_addr)"
| "segment_span32 L m ehdr phdrtab (i # is) low_addr max_addr =
     (let phdr = get_phdr32 L m ehdr phdrtab (of_nat i);
          addr = load32 m (phdr + off32 L P_paddr);
          memsz = load32 m (phdr + off32 L P_memsz)
      in if K L PT_LOAD \<noteq> ucast (load32 m (phdr + off32 L P_type)) \<or> memsz = 0
         then segment_span32 L m ehdr phdrtab is low_addr max_addr
         else segment_span32 L m ehdr phdrtab is
                (if addr < low_addr then addr else low_addr)
                (if addr + memsz > max_addr then addr + memsz else max_addr))"

partial_function (option) section_span32 ::
  "elf_abi \<Rightarrow> mem \<Rightarrow> addr \<Rightarrow> addr \<Rightarrow> u16 \<Rightarrow> u32 \<Rightarrow> u32 option" where
  "section_span32 L m ehdr shdrtab i max_addr =
     (if sint i < uint (load16 m (ehdr + off32 L E_shnum)) then
        let shdr = GET_SHDR_LOADER (load16 m (ehdr + off32 L E_shentsize)) shdrtab i;
            sh_size = load32 m (shdr + off32 L Sh_size)
        in if sh_size = 0 \<or> load32 m (shdr + off32 L Sh_addr) \<noteq> 0
           then section_span32 L m ehdr shdrtab (i + 1) max_addr
           else section_span32 L m ehdr shdrtab (i + 1)
                  (align_section max_addr (load32 m (shdr + off32 L Sh_addralign)) + sh_size)
      else Some max_addr)"

definition elf32_get_load_info ::
  "elf_abi \<Rightarrow> mem \<Rightarrow> mem_image_access \<Rightarrow> elf_load_info \<Rightarrow> (mon_status \<times> elf_load_info) option" where
  "elf32_get_load_info L m img info =
     (let (n, ehdr) = mem_image_map_to_mem img 0 (sz32 L Ehdr) in
      if n \<noteq> sz32 L Ehdr then Some (MON_ERROR, info)
      else let e_type = ucast (load16 m (ehdr + off32 L E_type)) in
      if e_type \<noteq> K L ET_EXEC \<and> e_type \<noteq> K L ET_DYN then Some (MON_ERROR, info)
      else
      let e_phnum = load16 m (ehdr + off32 L E_phnum);
          phsize = ucast e_phnum * ucast (load16 m (ehdr + off32 L E_phentsize)) :: u32;
          (n, phdrtab) = mem_image_map_to_mem img (ucast (load32 m (ehdr + off32 L E_phoff))) (ucast phsize)
      in if n \<noteq> ucast phsize then Some (MON_ERROR, info)
      else
      let (low_addr, max_addr) =
            segment_span32 L m ehdr phdrtab (phdr_indices e_phnum) (NOT 0) 0;
          done = (\<lambda>info max_addr. Some (MON_OK, info\<lparr>start_addr := ucast low_addr,
                                     end_addr := ucast (max_addr :: u32),
                                     entry_addr := ucast (load32 m (ehdr + off32 L E_entry))\<rparr>))
      in if ucast low_addr AND K L PAGE_4KB_MASK \<noteq> 0 then Some (MON_ERROR, info)
      else if copy_section_headers info \<or> copy_symbol_tables info then
        let max_addr = (max_addr + 0xF) AND NOT 0xF;
            info = info\<lparr>sections_addr := ucast max_addr\<rparr>;
            shsize = ucast (load16 m (ehdr + off32 L E_shnum)) *
                     ucast (load16 m (ehdr + off32 L E_shentsize)) :: u32;
            max_addr = max_addr + shsize
        in if copy_symbol_tables info then
             let (n, shdrtab) =
                   mem_image_map_to_mem img (ucast (load32 m (ehdr + off32 L E_shoff))) (ucast shsize)
             in if n \<noteq> ucast shsize then Some (MON_ERROR, info)
                else Option.bind (section_span32 L m ehdr shdrtab 0 max_addr) (done info)
           else done info max_addr
      else done info max_addr)"

section \<open>Copying the segments\<close>

function load_segments32 ::
  "elf_abi \<Rightarrow> mem_image_access \<Rightarrow> u64 \<Rightarrow> addr \<Rightarrow> addr \<Rightarrow> nat \<Rightarrow> mem \<Rightarrow> addr
     \<Rightarrow> mon_status \<times> mem \<times> addr" where
  "load_segments32 L img reloc ehdr phdrtab i m phdr_dyn =
     (if int i < sint (load16 m (ehdr + off32 L E_phnum)) then
        let phdr = get_phdr32 L m ehdr phdrtab (of_nat i);
            p_type = ucast (load32 m (phdr + off32 L P_type))
        in if K L PT_DYNAMIC = p_type
           then load_segments32 L img reloc ehdr phdrtab (Suc i) m phdr
           else if K L PT_LOAD \<noteq> p_type \<or> load32 m (phdr + off32 L P_memsz) = 0
           then load_segments32 L img reloc ehdr phdrtab (Suc i) m phdr_dyn
           else
             let filesz = load32 m (phdr + off32 L P_filesz);
                 addr = load32 m (phdr + off32 L P_paddr);
                 memsz = load32 m (phdr + off32 L P_memsz);
                 filesz = (if filesz > memsz then memsz else filesz);
                 (n, m') = mem_image_read m img (ucast addr + reloc)
                             (ucast (load32 m (phdr + off32 L P_offset))) (ucast filesz)
             in if n \<noteq> ucast filesz then (MON_ERROR, m', phdr_dyn)
                else load_segments32 L img reloc ehdr phdrtab (Suc i)
                       (if filesz < memsz
                        then mon_memset m' (ucast (addr + filesz) + reloc) 0 (ucast (memsz - filesz))
                        else m') phdr_dyn
      else (MON_OK, m, phdr_dyn))"
  by pat_completeness auto
termination
proof (relation "measure (\<lambda>(L, img, reloc, ehdr, phdrtab, i, m, phdr_dyn). 32768 - i)", goal_cases)
  case 1
  show ?case by simp
next
  case (2 L img reloc ehdr phdrtab i m phdr_dyn)
  then show ?case using sint16_less [of "load16 m (ehdr + off32 L E_phnum)"] by simp
next
  case (3 L img reloc ehdr phdrtab i m phdr_dyn)
  then show ?case using sint16_less [of "load16 m (ehdr + off32 L E_phnum)"] by simp
next
  case (4 L img reloc ehdr phdrtab i m phdr_dyn)
  then show ?case using sint16_less [of "load16 m (ehdr + off32 L E_phnum)"] by simp
qed

declare load_segments32.simps [simp del]

function update_phdrs32 :: "elf_abi \<Rightarrow> u64 \<Rightarrow> addr \<Rightarrow> addr \<Rightarrow> nat \<Rightarrow> mem \<Rightarrow> mem" where
  "update_phdrs32 L reloc ehdr phdrtab i m =
     (if int i < sint (load16 m (ehdr + off32 L E_phnum)) then
        let phdr = get_phdr32 L m ehdr phdrtab (of_nat i)
        in if load32 m (phdr + off32 L P_memsz) \<noteq> 0 then
             let m1 = store32 m (phdr + off32 L P_paddr) (load32 m (phdr + off32 L P_paddr) + ucast reloc);
                 m2 = store32 m1 (phdr + off32 L P_vaddr) (load32 m1 (phdr + off32 L P_vaddr) + ucast reloc)
             in update_phdrs32 L reloc ehdr phdrtab (Suc i) m2
           else update_phdrs32 L reloc ehdr phdrtab (Suc i) m
      else m)"
  by pat_completeness auto
termination
proof (relation "measure (\<lambda>(L, reloc, ehdr, phdrtab, i, m). 32768 - i)", goal_cases)
  case 1
  show ?case by simp
next
  case (2 L reloc ehdr phdrtab i m)
  then show ?case using sint16_less [of "load16 m (ehdr + off32 L E_phnum)"] by simp
next
  case (3 L reloc ehdr phdrtab i m)
  then show ?case using sint16_less [of "load16 m (ehdr + off32 L E_phnum)"] by simp
qed

declare update_phdrs32.simps [simp del]

section \<open>Relocation\<close>

record dyn_info32 =
  rela32 :: addr
  rela_sz32 :: u32
  rela_entsz32 :: u32
  symtab32 :: addr
  symtab_entsz32 :: u32
  rel32 :: addr
  rel_sz32 :: u32
  rel_entsz32 :: u32

text \<open>The source tests the tag of an entry against each constant in turn.\<close>

definition scan_entry32 :: "elf_abi \<Rightarrow> u64 \<Rightarrow> u64 \<Rightarrow> u32 \<Rightarrow> dyn_info32 \<Rightarrow> dyn_info32" where
  "scan_entry32 L start d_tag d_un d =
     (let d = (if K L DT_RELA = d_tag then d\<lparr>rela32 := ucast d_un + start\<rparr> else d);
          d = (if K L DT_RELASZ = d_tag then d\<lparr>rela_sz32 := d_un\<rparr> else d);
          d = (if K L DT_RELAENT = d_tag then d\<lparr>rela_entsz32 := d_un\<rparr> else d);
          d = (if K L DT_SYMTAB = d_tag then d\<lparr>symtab32 := ucast d_un + start\<rparr> else d);
          d = (if K L DT_SYMENT = d_tag then d\<lparr>symtab_entsz32 := d_un\<rparr> else d);
          d = (if K L DT_REL = d_tag then d\<lparr>rel32 := ucast d_un + start\<rparr> else d);
          d = (if K L DT_RELSZ = d_tag then d\<lparr>rel_sz32 := d_un\<rparr> else d)
      in if K L DT_RELENT = d_tag then d\<lparr>rel_entsz32 := d_un\<rparr> else d)"

fun scan_dynamic32 :: "elf_abi \<Rightarrow> mem \<Rightarrow> u64 \<Rightarrow> addr \<Rightarrow> nat list \<Rightarrow> dyn_info32 \<Rightarrow> dyn_info32" where
  "scan_dynamic32 L m start dyn_section [] d = d"
| "scan_dynamic32 L m start dyn_section (i # is) d =
     (let entry = dyn_section + of_nat i * sz32 L Dyn
      in scan_dynamic32 L m start dyn_section is
           (scan_entry32 L start (ucast (load32 m (entry + off32 L D_tag)))
              (load32 m (entry + off32 L D_un)) d))"

fun apply_rela32 :: "elf_abi \<Rightarrow> u32 \<Rightarrow> addr \<Rightarrow> addr \<Rightarrow> nat list \<Rightarrow> mem \<Rightarrow> mon_status \<times> mem" where
  "apply_rela32 L reloc rela symtab [] m = (MON_OK, m)"
| "apply_rela32 L reloc rela symtab (i # is) m =
     (let r = rela + of_nat i * sz32 L Rela;
          target_addr = ucast (load32 m (r + off32 L R_offset) + reloc) :: addr;
          kind = ucast (load32 m (r + off32 L R_info) AND 0xFF)
      in if kind = K L R_386_32 then
           let m1 = store32 m target_addr (load32 m (r + off32 L R_addend) + reloc);
               symtab_idx = drop_bit 8 (load32 m1 (r + off32 L R_info)) :: u32;
               sym = symtab + scast symtab_idx * sz32 L Sym;
               m2 = store32 m1 target_addr (load32 m1 target_addr + load32 m1 (sym + off32 L St_value))
           in apply_rela32 L reloc rela symtab is m2
         else if kind = K L R_386_RELATIVE then
           apply_rela32 L reloc rela symtab is
             (store32 m target_addr (load32 m (r + off32 L R_addend) + reloc))
         else if kind = 0 then apply_rela32 L reloc rela symtab is m
         else (MON_ERROR, m))"

fun apply_rel32 :: "elf_abi \<Rightarrow> u32 \<Rightarrow> addr \<Rightarrow> addr \<Rightarrow> nat list \<Rightarrow> mem \<Rightarrow> mon_status \<times> mem" where
  "apply_rel32 L reloc rel symtab [] m = (MON_OK, m)"
| "apply_rel32 L reloc rel symtab (i # is) m =
     (let r = rel + of_nat i * sz32 L Rel;
          target_addr = ucast (load32 m (r + off32 L Rel_offset) + reloc) :: addr;
          kind = ucast (load32 m (r + off32 L Rel_info) AND 0xFF)
      in if kind = K L R_386_32 then
           let m1 = store32 m target_addr (load32 m target_addr + reloc);
               symtab_idx = drop_bit 8 (load32 m1 (r + off32 L Rel_info)) :: u32;
               sym = symtab + scast symtab_idx * sz32 L Sym;
               m2 = store32 m1 target_addr (load32 m1 target_addr + load32 m1 (sym + off32 L St_value))
           in apply_rel32 L reloc rel symtab is m2
         else if kind = K L R_386_RELATIVE then
           apply_rel32 L reloc rel symtab is (store32 m target_addr (load32 m target_addr + reloc))
         else (MON_ERROR, m))"

definition table_count :: "u32 \<Rightarrow> u32 \<Rightarrow> nat" where
  "table_count size_of_table entry_size = nat (sint size_of_table sdiv sint entry_size)"

definition elf32_do_relocation ::
  "elf_abi \<Rightarrow> mem \<Rightarrow> mem_image_access \<Rightarrow> elf_load_info \<Rightarrow> addr \<Rightarrow> mon_status \<times> mem" where
  "elf32_do_relocation L m img info phdr_dyn =
     (let dyn_section_sz = load32 m (phdr_dyn + off32 L P_filesz);
          reloc = ucast (relocation_offset info) :: u32;
          (n, dyn_section) = mem_image_map_to_mem img (ucast (load32 m (phdr_dyn + off32 L P_offset)))
                               (scast dyn_section_sz)
      in if n \<noteq> scast dyn_section_sz then (MON_ERROR, m)
      else
      let count = unat ((scast dyn_section_sz :: u64) div sz32 L Dyn);
          d = scan_dynamic32 L m (start_addr info) dyn_section [0..<count]
                \<lparr>rela32 = 0, rela_sz32 = 0, rela_entsz32 = 0, symtab32 = 0, symtab_entsz32 = 0,
                 rel32 = 0, rel_sz32 = 0, rel_entsz32 = 0\<rparr>
      in if rela32 d \<noteq> 0 \<and> rela_sz32 d \<noteq> 0 \<and> symtab32 d \<noteq> 0 \<and>
            sz32 L Rela = scast (rela_entsz32 d) \<and> sz32 L Sym = scast (symtab_entsz32 d)
         then apply_rela32 L reloc (rela32 d) (symtab32 d)
                [0..<table_count (rela_sz32 d) (rela_entsz32 d)] m
         else if rel32 d \<noteq> 0 \<and> symtab32 d \<noteq> 0 \<and> rel_sz32 d \<noteq> 0 \<and>
                 sz32 L Rel = scast (rel_entsz32 d)
         then apply_rel32 L reloc (rel32 d) (symtab32 d)
                [0..<table_count (rel_sz32 d) (rel_entsz32 d)] m
         else (MON_ERROR, m))"

section \<open>Optional section tables\<close>

definition elf32_copy_section_header_table ::
  "elf_abi \<Rightarrow> mem \<Rightarrow> mem_image_access \<Rightarrow> elf_load_info \<Rightarrow> mon_status \<times> mem" where
  "elf32_copy_section_header_table L m img info =
     (let ehdr = start_addr info;
          shdrtab = sections_addr info;
          section_hdr_tabsiz = ucast (load16 m (ehdr + off32 L E_shentsize)) *
                               ucast (load16 m (ehdr + off32 L E_shnum)) :: u32
      in if \<not> elf32_header_is_valid L m ehdr then (MON_ERROR, m)
      else let (n, m') = mem_image_read m img shdrtab (ucast (load32 m (ehdr + off32 L E_shoff)))
                           (ucast section_hdr_tabsiz)
      in if n \<noteq> ucast section_hdr_tabsiz then (MON_ERROR, m')
      else (MON_OK, store32 m' (ehdr + off32 L E_shoff) (ucast (sections_addr info - start_addr info))))"

partial_function (option) copy_sections32_loop ::
  "elf_abi \<Rightarrow> mem_image_access \<Rightarrow> elf_load_info \<Rightarrow> u16 \<Rightarrow> u32 \<Rightarrow> mem \<Rightarrow> (mon_status \<times> mem) option" where
  "copy_sections32_loop L img info i curr_addr m =
     (let ehdr = start_addr info in
      if sint i < uint (load16 m (ehdr + off32 L E_shnum)) then
        let shdr = GET_SHDR_LOADER (load16 m (ehdr + off32 L E_shentsize)) (sections_addr info) i;
            sh_addr = load32 m (shdr + off32 L Sh_addr);
            sh_size = load32 m (shdr + off32 L Sh_size)
        in if sh_addr \<noteq> 0 then
             copy_sections32_loop L img info (i + 1) curr_addr
               (store32 m (shdr + off32 L Sh_addr) (sh_addr + ucast (relocation_offset info)))
           else if sh_size = 0 then copy_sections32_loop L img info (i + 1) curr_addr m
           else
             let curr_addr = align_section curr_addr (load32 m (shdr + off32 L Sh_addralign));
                 r = mem_image_read m img (ucast curr_addr) (ucast (load32 m (shdr + off32 L Sh_offset)))
                       (ucast sh_size)
             in if fst r \<noteq> ucast (load32 (snd r) (shdr + off32 L Sh_size)) then Some (MON_ERROR, snd r)
                else
                  let m2 = store32 (snd r) (shdr + off32 L Sh_addr) curr_addr
                  in copy_sections32_loop L img info (i + 1)
                       (curr_addr + load32 m2 (shdr + off32 L Sh_size)) m2
      else Some (MON_OK, m))"

definition elf32_copy_sections ::
  "elf_abi \<Rightarrow> mem \<Rightarrow> mem_image_access \<Rightarrow> elf_load_info \<Rightarrow> (mon_status \<times> mem) option" where
  "elf32_copy_sections L m img info =
     (let ehdr = start_addr info;
          section_hdr_tabsiz = ucast (load16 m (ehdr + off32 L E_shentsize)) *
                               ucast (load16 m (ehdr + off32 L E_shnum)) :: u32
      in copy_sections32_loop L img info 0 (ucast (sections_addr info + ucast section_hdr_tabsiz)) m)"

definition copy_tables32 ::
  "elf_abi \<Rightarrow> mem_image_access \<Rightarrow> elf_load_info \<Rightarrow> mem \<Rightarrow> (mon_status \<times> mem) option" where
  "copy_tables32 L img info m =
     (let (status, m) = (if copy_section_headers info \<or> copy_symbol_tables info
                         then elf32_copy_section_header_table L m img info else (MON_OK, m))
      in if copy_symbol_tables info then elf32_copy_sections L m img info else Some (status, m))"

definition elf32_load_executable ::
  "elf_abi \<Rightarrow> mem \<Rightarrow> mem_image_access \<Rightarrow> elf_load_info \<Rightarrow> (mon_status \<times> mem) option" where
  "elf32_load_executable L m img info =
     (let (n, ehdr) = mem_image_map_to_mem img 0 (sz32 L Ehdr) in
      if n \<noteq> sz32 L Ehdr then Some (MON_ERROR, m)
      else
      let phsize = ucast (load16 m (ehdr + off32 L E_phnum)) *
                   ucast (load16 m (ehdr + off32 L E_phentsize)) :: u32;
          (n, phdrtab) = mem_image_map_to_mem img (ucast (load32 m (ehdr + off32 L E_phoff))) (ucast phsize)
      in if n \<noteq> ucast phsize then Some (MON_ERROR, m)
      else
      let (status, m1, phdr_dyn) =
            load_segments32 L img (relocation_offset info) ehdr phdrtab 0 m 0
      in if status \<noteq> MON_OK then Some (status, m1)
      else
      let ehdr = start_addr info;
          phdrtab = start_addr info + ucast (load32 m1 (ehdr + off32 L E_phoff));
          m2 = update_phdrs32 L (relocation_offset info) ehdr phdrtab 0 m1;
          (status, m3) = (if phdr_dyn \<noteq> 0 then elf32_do_relocation L m2 img info phdr_dyn
                          else (MON_OK, m2))
      in if status \<noteq> MON_OK then Some (status, m3)
         else copy_tables32 L img info m3)"

end
