(* ===== verification/Elf_Loader.thy ===== *)
theory Elf_Loader
  imports Elf64_Span Elf32_Loader
begin

text \<open>
  The loader's entry points, \<open>common/ld/elf_ld/elf_ld.c\<close>: the choice between the two formats, the
  relocation offset, and the exported \<open>get_image_info\<close> and \<open>load_image\<close>. The local
  \<open>elf_load_info_t\<close> is not initialised in the source, so its first contents are an argument,
  \<open>info0\<close>. The types of \<open>image_loader.h\<close> (outside the repository) appear by the constants and
  fields the code uses; \<open>load_size\<close> has the width of the difference assigned to it.
\<close>

datatype image_info_status = IMAGE_INFO_OK | IMAGE_INFO_WRONG_FORMAT | IMAGE_INFO_WRONG_PARAMS
datatype image_machine_type = IMAGE_MACHINE_X86 | IMAGE_MACHINE_EM64T

record image_info =
  load_size :: u64
  image_machine :: "image_machine_type option"

definition elf_get_load_info ::
  "elf_abi \<Rightarrow> mem \<Rightarrow> mem_image_access \<Rightarrow> elf_load_info \<Rightarrow> (mon_status \<times> elf_load_info) option" where
  "elf_get_load_info L m img info =
     (let (n, p_buffer) = mem_image_map_to_mem img 0 (sz64 L Ehdr)
      in if n \<noteq> sz64 L Ehdr then Some (MON_ERROR, info)
         else if elf32_header_is_valid L m p_buffer
         then elf32_get_load_info L m img (info\<lparr>machine_type := K L EM_386\<rparr>)
         else if elf64_header_is_valid L m p_buffer
         then elf64_get_load_info L m img (info\<lparr>machine_type := K L EM_X86_64\<rparr>)
         else Some (MON_ERROR, info))"

definition relocate_info :: "elf_load_info \<Rightarrow> addr \<Rightarrow> elf_load_info" where
  "relocate_info info p_dest =
     (let reloc = p_dest - start_addr info
      in info\<lparr>relocation_offset := reloc, start_addr := start_addr info + reloc,
              end_addr := end_addr info + reloc, entry_addr := entry_addr info + reloc,
              sections_addr := sections_addr info + reloc\<rparr>)"

definition elf_load_executable ::
  "elf_abi \<Rightarrow> mem \<Rightarrow> mem_image_access \<Rightarrow> elf_load_info \<Rightarrow> addr
     \<Rightarrow> (cpu_fault + mon_status \<times> elf_load_info \<times> mem) option" where
  "elf_load_executable L m img info p_dest =
     (let info = relocate_info info p_dest in
      if machine_type info = K L EM_386 then
        map_option (\<lambda>(st, m). Inr (st, info, m)) (elf32_load_executable L m img info)
      else if machine_type info = K L EM_X86_64 then
        map_option (\<lambda>r. case r of Inl e \<Rightarrow> Inl e | Inr (st, m) \<Rightarrow> Inr (st, info, m))
          (elf64_load_executable L m img info)
      else Some (Inr (MON_ERROR, info, m)))"

definition load_elf_image ::
  "elf_abi \<Rightarrow> mem \<Rightarrow> elf_load_info \<Rightarrow> addr \<Rightarrow> addr \<Rightarrow> u64 \<Rightarrow> u64 \<Rightarrow> (cpu_fault + bool \<times> u64 \<times> mem) option" where
  "load_elf_image L m info0 p_image p_target img_size entry_point_address =
     (case mem_image_create_ex p_image img_size of
        None \<Rightarrow> Some (Inr (False, entry_point_address, m))
      | Some img \<Rightarrow>
          let load_info = info0\<lparr>copy_section_headers := False, copy_symbol_tables := False\<rparr> in
          Option.bind (elf_get_load_info L m img load_info) (\<lambda>(status, load_info).
            if status \<noteq> MON_OK then Some (Inr (False, entry_point_address, m))
            else map_option (\<lambda>r. case r of
                     Inl e \<Rightarrow> Inl e
                   | Inr (status, load_info, m) \<Rightarrow>
                       if status \<noteq> MON_OK then Inr (False, entry_point_address, m)
                       else Inr (True, entry_addr load_info, m))
                 (elf_load_executable L m img load_info p_target)))"

definition get_image_info ::
  "elf_abi \<Rightarrow> mem \<Rightarrow> elf_load_info \<Rightarrow> addr \<Rightarrow> u32 \<Rightarrow> image_info
     \<Rightarrow> (image_info_status \<times> image_info) option" where
  "get_image_info L m info0 file allocated_size p_image_info =
     (case mem_image_create_ex file (ucast allocated_size) of
        None \<Rightarrow> Some (IMAGE_INFO_WRONG_PARAMS, p_image_info)
      | Some img \<Rightarrow>
          map_option (\<lambda>(status, load_info).
              if status \<noteq> MON_OK then (IMAGE_INFO_WRONG_FORMAT, p_image_info)
              else
                let ii = p_image_info\<lparr>load_size := end_addr load_info - start_addr load_info\<rparr>;
                    ii = (if K L EM_386 = machine_type load_info
                          then ii\<lparr>image_machine := Some IMAGE_MACHINE_X86\<rparr> else ii);
                    ii = (if K L EM_X86_64 = machine_type load_info
                          then ii\<lparr>image_machine := Some IMAGE_MACHINE_EM64T\<rparr> else ii)
                in (IMAGE_INFO_OK, ii))
            (elf_get_load_info L m img
               (info0\<lparr>copy_section_headers := False, copy_symbol_tables := False\<rparr>)))"

definition load_image ::
  "elf_abi \<Rightarrow> mem \<Rightarrow> elf_load_info \<Rightarrow> addr \<Rightarrow> addr \<Rightarrow> u32 \<Rightarrow> u64
     \<Rightarrow> (cpu_fault + bool \<times> u64 \<times> mem) option" where
  "load_image L m info0 file image_base_address allocated_size entry_point_address =
     load_elf_image L m info0 file image_base_address (ucast allocated_size) entry_point_address"

section \<open>The window promised by the load information\<close>

definition segment_high :: "segment list \<Rightarrow> u64" where
  "segment_high ss = Max ((\<lambda>s. seg_paddr s + seg_memsz s) ` set ss)"

definition no_wrap :: "segment list \<Rightarrow> bool" where
  "no_wrap ss \<longleftrightarrow> (\<forall>s \<in> set ss. unat (seg_paddr s) + unat (seg_memsz s) < 2 ^ 64)"

lemma window_in_load_range:
  assumes s: "s \<in> set ss" and wrap: "no_wrap ss" and w: "window (dest - segment_low ss) s x"
  shows "in_range dest (unat (segment_high ss - segment_low ss)) x"
proof -
  let ?lo = "segment_low ss" and ?hi = "segment_high ss"
  have lo: "unat ?lo \<le> unat (seg_paddr s)"
    using s by (simp add: segment_low_def word_le_nat_alt [symmetric])
  have "seg_paddr s + seg_memsz s \<le> ?hi" using s by (simp add: segment_high_def)
  moreover have "unat (seg_paddr s + seg_memsz s) = unat (seg_paddr s) + unat (seg_memsz s)"
    using wrap s by (simp add: no_wrap_def unat_add64)
  ultimately have hi: "unat (seg_paddr s) + unat (seg_memsz s) \<le> unat ?hi"
    by (simp add: word_le_nat_alt)
  have v: "unat (seg_paddr s - ?lo) = unat (seg_paddr s) - unat ?lo"
    using lo by (simp add: unat_sub_if_size)
  have len: "unat (?hi - ?lo) = unat ?hi - unat ?lo"
    using lo hi by (simp add: unat_sub_if_size)
  have "in_range (dest + (seg_paddr s - ?lo)) (unat (seg_memsz s)) x"
    using w by (simp add: window_def algebra_simps)
  moreover have "unat (seg_paddr s - ?lo) + unat (seg_memsz s) \<le> unat (?hi - ?lo)"
    using lo hi v len by linarith
  ultimately show ?thesis by (rule in_range_sub) simp
qed

definition headers_loaded :: "elf_abi \<Rightarrow> mem \<Rightarrow> mem_image_access \<Rightarrow> bool" where
  "headers_loaded L m img \<longleftrightarrow>
     (let ehdr = image_ptr img; ss = loaded_segments64 L m img;
          off = unat (load64 m (ehdr + off64 L E_phoff))
      in unat (sz64 L Ehdr) \<le> off \<and>
         (\<exists>s \<in> set ss. seg_offset s = 0 \<and> seg_paddr s = segment_low ss \<and>
            off + table_size64 L m ehdr \<le> unat (file_part s)))"

text \<open>A 64-bit file as the loader's clients hand it over.\<close>

definition loadable_elf64 :: "elf_abi \<Rightarrow> mem \<Rightarrow> addr \<Rightarrow> u32 \<Rightarrow> bool" where
  "loadable_elf64 L m file sz \<longleftrightarrow>
     (let img = \<lparr>gen = Mem_Image_Ops, image_ptr = file, image_size = ucast sz\<rparr>;
          ss = loaded_segments64 L m img
      in \<not> elf32_header_is_valid L m file \<and> elf64_header_is_valid L m file \<and>
         elf64_image_ok L m img \<and> relocatable64 L m img \<and> headers_loaded L m img \<and>
         windows_disjoint 0 ss \<and> no_wrap ss)"

definition file_segments64 :: "elf_abi \<Rightarrow> mem \<Rightarrow> addr \<Rightarrow> u32 \<Rightarrow> segment list" where
  "file_segments64 L m file sz =
     loaded_segments64 L m \<lparr>gen = Mem_Image_Ops, image_ptr = file, image_size = ucast sz\<rparr>"

definition file_relocations64 :: "elf_abi \<Rightarrow> mem \<Rightarrow> addr \<Rightarrow> u32 \<Rightarrow> reloc list" where
  "file_relocations64 L m file sz =
     relocations64 L m \<lparr>gen = Mem_Image_Ops, image_ptr = file, image_size = ucast sz\<rparr>"

lemma elf_get_load_info_64:
  assumes "loadable_elf64 L m file sz" and "elf64_abi_ok L"
  defines "img \<equiv> \<lparr>gen = Mem_Image_Ops, image_ptr = file, image_size = ucast sz\<rparr>"
  shows "elf_get_load_info L m img info = elf64_get_load_info L m img (info\<lparr>machine_type := K L EM_X86_64\<rparr>)"
proof -
  have "elf64_headers_ok L m img"
    using assms(1) by (simp add: loadable_elf64_def elf64_image_ok_def Let_def img_def)
  from headers64_granted(1) [OF this] show ?thesis
    using assms(1) by (simp add: elf_get_load_info_def loadable_elf64_def Let_def img_def)
qed

lemma get_image_info_64:
  assumes abi: "elf64_abi_ok L" and plain: "loadable_elf64 L m file sz"
    and ii: "get_image_info L m info0 file sz ii0 = Some (IMAGE_INFO_OK, ii)"
  defines "img \<equiv> \<lparr>gen = Mem_Image_Ops, image_ptr = file, image_size = ucast sz\<rparr>"
  defines "ss \<equiv> file_segments64 L m file sz"
  defines "info1 \<equiv> info0\<lparr>copy_section_headers := False, copy_symbol_tables := False,
                     machine_type := K L EM_X86_64\<rparr>"
  shows "elf64_get_load_info L m img info1 =
           Some (MON_OK, info1\<lparr>start_addr := segment_low ss, end_addr := segment_high ss,
                   entry_addr := load64 m (file + off64 L E_entry)\<rparr>)"
    and "load_size ii = segment_high ss - segment_low ss"
    and "image_machine ii = Some IMAGE_MACHINE_EM64T"
proof -
  have get: "elf_get_load_info L m img (info0\<lparr>copy_section_headers := False, copy_symbol_tables := False\<rparr>)
        = elf64_get_load_info L m img info1"
    using elf_get_load_info_64 [OF plain abi] by (simp add: img_def info1_def)
  then obtain info2 where i2: "elf64_get_load_info L m img info1 = Some (MON_OK, info2)"
    and l: "load_size ii = end_addr info2 - start_addr info2"
    and mt: "image_machine ii = (if K L EM_X86_64 = machine_type info2 then Some IMAGE_MACHINE_EM64T
               else image_machine (if K L EM_386 = machine_type info2
                                   then ii0\<lparr>image_machine := Some IMAGE_MACHINE_X86\<rparr> else ii0))"
    using ii by (auto simp: get_image_info_def mem_image_create_ex_def img_def Let_def split: if_splits)
  have "info2 = info1\<lparr>start_addr := segment_low ss, end_addr := segment_high ss,
                  entry_addr := load64 m (file + off64 L E_entry)\<rparr>"
    using elf64_load_info_accepted(3) [OF abi64_consts(4) [OF abi] _ _ i2]
    by (simp add: info1_def img_def ss_def file_segments64_def segment_low_def segment_high_def)
  then show "elf64_get_load_info L m img info1 =
           Some (MON_OK, info1\<lparr>start_addr := segment_low ss, end_addr := segment_high ss,
                   entry_addr := load64 m (file + off64 L E_entry)\<rparr>)"
    and "load_size ii = segment_high ss - segment_low ss"
    and "image_machine ii = Some IMAGE_MACHINE_EM64T"
    using i2 l mt by (simp_all add: info1_def)
qed

text \<open>The two conditions of \<open>elf64_load_executable\<close> on where the segments go, from the load range of the image.\<close>

lemma relocated_off_image:
  assumes "\<And>s x. s \<in> set (loaded_segments64 L m img) \<Longrightarrow> window reloc s x \<Longrightarrow> in_range dest n x"
    and "disjoint_ranges dest n (image_ptr img) (unat (image_size img))"
  shows "targets_off_image L m img reloc"
proof -
  have "off_image img reloc s" if "s \<in> set (loaded_segments64 L m img)" for s
    unfolding off_image_def
    using assms(1) [OF that] disjoint_ranges_not_both [OF assms(2)] by (intro disjoint_rangesI) (auto simp: window_def)
  then show ?thesis by (auto simp: targets_off_image_def loaded_segments64_def)
qed

lemma header_segment_exists:
  assumes "headers_loaded L m img"
    and "start_addr info = segment_low (loaded_segments64 L m img) + relocation_offset info"
  shows "\<exists>s. header_segment L m img info s"
  using assms by (fastforce simp: headers_loaded_def header_segment_def Let_def table_size64_def)

lemma load_image_64:
  assumes abi: "elf64_abi_ok L" "get_phdr64_ok L" "pie64_abi_ok L" and plain: "loadable_elf64 L m file sz"
    and ii: "get_image_info L m info0 file sz ii0 = Some (IMAGE_INFO_OK, ii)"
    and apart: "disjoint_ranges dest (unat (load_size ii)) file (unat sz)"
  defines "ss \<equiv> file_segments64 L m file sz"
  defines "reloc \<equiv> dest - segment_low ss"
  shows "\<exists>m2. load_image L m info0 file dest sz entry =
      Some (Inr (True, load64 m (file + off64 L E_entry) + reloc, m2)) \<and>
    (\<forall>x. \<not> in_range dest (unat (load_size ii)) x \<longrightarrow> m2 x = m x) \<and>
    (\<forall>s \<in> set ss. \<forall>x. window reloc s x \<and>
       \<not> in_range (dest + load64 m (file + off64 L E_phoff)) (table_size64 L m file) x \<and>
       (\<forall>e \<in> set (file_relocations64 L m file sz). \<not> reloc_target e (x - reloc)) \<longrightarrow>
       m2 x = segment_byte m (file_at file (ucast sz)) s (x - (seg_paddr s + reloc))) \<and>
    (\<forall>t v. Reloc_Relative t v \<in> set (file_relocations64 L m file sz) \<longrightarrow> load64 m2 (t + reloc) = v + reloc)"
proof -
  let ?img = "\<lparr>gen = Mem_Image_Ops, image_ptr = file, image_size = ucast sz\<rparr>"
  let ?info1 = "info0\<lparr>copy_section_headers := False, copy_symbol_tables := False,
                     machine_type := K L EM_X86_64\<rparr>"
  let ?info2 = "?info1\<lparr>start_addr := segment_low ss, end_addr := segment_high ss,
                   entry_addr := load64 m (file + off64 L E_entry)\<rparr>"
  let ?info3 = "relocate_info ?info2 dest"
  note info = get_image_info_64 [OF abi(1) plain ii, folded ss_def]
  have ss: "loaded_segments64 L m ?img = ss" by (simp add: ss_def file_segments64_def)
  have sz: "unat (ucast sz :: u64) = unat sz" by (simp add: unat_ucast_up)
  have info3: "start_addr ?info3 = dest" "relocation_offset ?info3 = reloc"
    "entry_addr ?info3 = load64 m (file + off64 L E_entry) + reloc"
    "\<not> copy_section_headers ?info3" "\<not> copy_symbol_tables ?info3" "machine_type ?info3 = K L EM_X86_64"
    by (simp_all add: relocate_info_def Let_def reloc_def)
  have facts: "elf64_image_ok L m ?img" "relocatable64 L m ?img" "headers_loaded L m ?img"
    "windows_disjoint 0 ss" "no_wrap ss"
    using plain by (simp_all add: loadable_elf64_def Let_def ss)
  have window_in: "in_range dest (unat (load_size ii)) x" if "s \<in> set ss" "window reloc s x" for s x
    using window_in_load_range [OF that(1) facts(5)] that(2) by (simp add: reloc_def info(2))
  have away: "targets_off_image L m ?img reloc"
    using window_in apart sz by (intro relocated_off_image [of L m ?img reloc dest "unat (load_size ii)"]) (simp_all add: ss)
  obtain hs where hs: "header_segment L m ?img ?info3 hs"
    using header_segment_exists [OF facts(3), of ?info3] unfolding info3 ss reloc_def by auto
  have "windows_disjoint reloc ss" using windows_disjoint_shift [of reloc ss] facts(4) by simp
  moreover have "dest = segment_low ss + reloc" by (simp add: reloc_def)
  ultimately obtain m2 where m2: "elf64_load_executable L m ?img ?info3 = Some (Inr (MON_OK, m2))"
    and loaded: "image_loaded64 L m ?img ?info3 m2"
    using elf64_load_executable_loads [OF abi facts(1) _ facts(2) info3(4,5) _ hs] away
    unfolding info3 ss by blast
  have tab: "phdrtab64 L m2 dest = dest + load64 m (file + off64 L E_phoff)"
    and inside: "\<forall>s \<in> set ss. \<forall>x. window reloc s x \<and>
       \<not> in_range (phdrtab64 L m2 dest) (table_size64 L m file) x \<and>
       (\<forall>e \<in> set (file_relocations64 L m file sz). \<not> reloc_target e (x - reloc)) \<longrightarrow>
       m2 x = segment_byte m ?img s (x - (seg_paddr s + reloc))"
    and stored: "\<forall>t v. Reloc_Relative t v \<in> set (file_relocations64 L m file sz) \<longrightarrow> load64 m2 (t + reloc) = v + reloc"
    and outside: "\<forall>x. (\<forall>s \<in> set ss. \<not> window reloc s x) \<longrightarrow> m2 x = m x"
    using loaded unfolding image_loaded64_def Let_def info3 ss file_relocations64_def by simp_all
  have "elf_get_load_info L m ?img (info0\<lparr>copy_section_headers := False, copy_symbol_tables := False\<rparr>)
        = Some (MON_OK, ?info2)"
    using elf_get_load_info_64 [OF plain abi(1)] info(1) by simp
  moreover have "elf_load_executable L m ?img ?info2 dest = Some (Inr (MON_OK, ?info3, m2))"
    using m2 abi64_consts(2) [OF abi(1)] by (simp add: elf_load_executable_def Let_def info3(6))
  ultimately have "load_image L m info0 file dest sz entry =
      Some (Inr (True, load64 m (file + off64 L E_entry) + reloc, m2))"
    by (simp add: load_image_def load_elf_image_def mem_image_create_ex_def Let_def info3(3))
  moreover have "m2 x = m x" if "\<not> in_range dest (unat (load_size ii)) x" for x
    using that outside window_in by blast
  ultimately show ?thesis using inside stored unfolding tab by blast
qed

text \<open>
  The file size passed to the accessor does not matter as long as the file is well formed within it:
  the callers ask \<open>get_image_info\<close> with the size of the file and \<open>load_image\<close> with the load size.
\<close>

lemma elf64_get_load_info_resize:
  assumes ok: "elf64_headers_ok L m img'" and ptr: "image_ptr img' = image_ptr img"
    and plain: "\<not> copy_section_headers info" "\<not> copy_symbol_tables info"
    and page: "K L PAGE_4KB_MASK = 0xFFF"
    and acc: "elf64_get_load_info L m img info = Some (MON_OK, info')"
  shows "elf64_get_load_info L m img' info = Some (MON_OK, info')"
proof -
  let ?phsize = "ucast (load16 m (image_ptr img + off64 L E_phnum)) *
                 ucast (load16 m (image_ptr img + off64 L E_phentsize)) :: u32"
  have hd: "fst (mem_image_map_to_mem img 0 (sz64 L Ehdr)) = sz64 L Ehdr"
    and ty: "ucast (load16 m (image_ptr img + off64 L E_type)) \<in> {K L ET_EXEC, K L ET_DYN}"
    and tab: "fst (mem_image_map_to_mem img (load64 m (image_ptr img + off64 L E_phoff)) (ucast ?phsize))
           = ucast ?phsize"
    using acc by (auto simp: elf64_get_load_info_def mem_image_map_to_mem_def Let_def split: if_splits)
  note granted = headers64_granted [OF ok, unfolded ptr, THEN arg_cong [where f = fst], unfolded fst_conv]
  have "loaded_segments64 L m img' = loaded_segments64 L m img"
    by (simp add: loaded_segments64_def ptr)
  then have "elf64_get_load_info L m img' info = elf64_get_load_info L m img info"
    using elf64_get_load_info_plain [OF plain page hd tab refl ty]
      elf64_get_load_info_plain [OF plain page, where img = img' and m = m, unfolded ptr, OF granted refl ty]
    by simp
  then show ?thesis using acc by simp
qed

lemma get_image_info_resize:
  assumes abi: "elf64_abi_ok L" and plain: "loadable_elf64 L m file sz" "loadable_elf64 L m file sz'"
    and ii: "get_image_info L m info0 file sz ii0 = Some (IMAGE_INFO_OK, ii)"
  shows "get_image_info L m info0 file sz' ii0 = Some (IMAGE_INFO_OK, ii)"
proof -
  let ?img = "\<lambda>sz. \<lparr>gen = Mem_Image_Ops, image_ptr = file, image_size = ucast sz\<rparr>"
  let ?info0 = "info0\<lparr>copy_section_headers := False, copy_symbol_tables := False\<rparr>"
  let ?info1 = "?info0\<lparr>machine_type := K L EM_X86_64\<rparr>"
  note get = elf_get_load_info_64 [OF plain(1) abi, of ?info0] elf_get_load_info_64 [OF plain(2) abi, of ?info0]
  obtain info' where acc: "elf64_get_load_info L m (?img sz) ?info1 = Some (MON_OK, info')"
    using get_image_info_64(1) [OF abi plain(1) ii] by auto
  have "elf64_headers_ok L m (?img sz')"
    using plain(2) by (simp add: loadable_elf64_def elf64_image_ok_def Let_def)
  then have "elf64_get_load_info L m (?img sz') ?info1 = Some (MON_OK, info')"
    by (rule elf64_get_load_info_resize [OF _ _ _ _ abi64_consts(4) [OF abi] acc]) simp_all
  then show ?thesis using ii get acc by (simp add: get_image_info_def mem_image_create_ex_def)
qed

section \<open>Properties\<close>

text \<open>
  C10: Whenever \<open>get_image_info\<close> accepts a loadable 64-bit file (headers and segments in the file, apart and without wrap,
  the lowest segment carrying the headers, either no dynamic segment or one of a position-independent image with relative
  relocations behind the headers), \<open>load_image\<close> to a buffer of the reported size that does not overlap the file succeeds,
  returns the relocated entry point, writes nothing outside that buffer, leaves every segment there as the file has it (zero
  past its file part) but for the copied program header table and the relocation targets, and leaves at every target its
  addend plus the relocation offset.
\<close>

theorem load_image_within_load_size:
  assumes "elf64_abi_ok L" and "get_phdr64_ok L" and "pie64_abi_ok L" and "loadable_elf64 L m file sz"
    and "get_image_info L m info0 file sz ii0 = Some (IMAGE_INFO_OK, ii)"
    and "disjoint_ranges dest (unat (load_size ii)) file (unat sz)"
    and "reloc = dest - segment_low (file_segments64 L m file sz)"
  shows "\<exists>m2. load_image L m info0 file dest sz entry =
      Some (Inr (True, load64 m (file + off64 L E_entry) + reloc, m2)) \<and>
    (\<forall>x. \<not> in_range dest (unat (load_size ii)) x \<longrightarrow> m2 x = m x) \<and>
    (\<forall>s \<in> set (file_segments64 L m file sz). \<forall>x. window reloc s x \<and>
       \<not> in_range (dest + load64 m (file + off64 L E_phoff)) (table_size64 L m file) x \<and>
       (\<forall>e \<in> set (file_relocations64 L m file sz). \<not> reloc_target e (x - reloc)) \<longrightarrow>
       m2 x = segment_byte m (file_at file (ucast sz)) s (x - (seg_paddr s + reloc))) \<and>
    (\<forall>t v. Reloc_Relative t v \<in> set (file_relocations64 L m file sz) \<longrightarrow> load64 m2 (t + reloc) = v + reloc)"
  using load_image_64 [OF assms(1-6)] assms(7) by simp

lemma demo_ident:
  "demo_mem 0x100000 = 0x7F" "demo_mem 0x100001 = 0x45" "demo_mem 0x100002 = 0x4C"
  "demo_mem 0x100003 = 0x46" "demo_mem 0x100004 = 2" "demo_mem 0x100005 = 1"
  by (simp_all add: demo_eval)

lemma at_headers:
  assumes "demo_at m p"
  shows "elf64_header_is_valid elf_std m p" "\<not> elf32_header_is_valid elf_std m p"
proof -
  have "m p = 0x7F" "m (p + 1) = 0x45" "m (p + 2) = 0x4C" "m (p + 3) = 0x46" "m (p + 4) = 2" "m (p + 5) = 1"
    using at_byte [OF assms, of 0] by (simp_all add: at_byte [OF assms] demo_ident)
  then show "elf64_header_is_valid elf_std m p" "\<not> elf32_header_is_valid elf_std m p"
    using at_ehdr [OF assms]
    by (simp_all add: elf32_header_is_valid_def elf64_header_is_valid_def ident_byte_def)
qed

lemma at_loadable:
  assumes "demo_at m p" and "260 \<le> unat sz" and "unat p + 260 < 2 ^ 64"
  shows "loadable_elf64 elf_std m p sz"
proof -
  have "headers_loaded elf_std m (file_at p (ucast sz))"
    using at_ehdr [OF assms(1)] by (simp add: headers_loaded_def at_loaded [OF assms(1)] segment_low_def table_size64_def)
  moreover have "260 \<le> unat (ucast sz :: u64)" using assms(2) by (simp add: unat_ucast_up)
  ultimately show ?thesis
    using at_headers [OF assms(1)] at_image_ok [OF assms(1)] at_relocatable [OF assms(1) _ assms(3)]
    by (simp add: loadable_elf64_def at_loaded [OF assms(1)] no_wrap_def)
qed

lemma at_get_image_info:
  assumes "demo_at m p" and "260 \<le> unat sz" and "unat p + 260 < 2 ^ 64"
  shows "get_image_info elf_std m info p sz ii0
     = Some (IMAGE_INFO_OK, ii0\<lparr>load_size := 0x108, image_machine := Some IMAGE_MACHINE_EM64T\<rparr>)"
proof -
  let ?img = "file_at p (ucast sz)"
  let ?info = "info\<lparr>copy_section_headers := False, copy_symbol_tables := False, machine_type := 62\<rparr>"
  have "elf64_headers_ok elf_std m ?img"
    using at_loadable [OF assms] by (simp add: loadable_elf64_def elf64_image_ok_def Let_def)
  note granted = headers64_granted [OF this, THEN arg_cong [where f = fst], unfolded fst_conv]
  have "elf64_get_load_info elf_std m ?img ?info =
    Some (MON_OK, ?info\<lparr>start_addr := 0, end_addr := 0x108, entry_addr := 16\<rparr>)"
    using at_ehdr [OF assms(1)]
    by (subst elf64_get_load_info_plain [OF _ _ _ granted refl]) (simp_all add: at_loaded [OF assms(1)])
  then show ?thesis
    using elf_get_load_info_64 [OF at_loadable [OF assms] elf_std_ok,
        of "info\<lparr>copy_section_headers := False, copy_symbol_tables := False\<rparr>"]
    by (simp add: get_image_info_def mem_image_create_ex_def Let_def)
qed

lemma at_file:
  assumes "demo_at m p"
  shows "file_segments64 elf_std m p sz = [demo_segment]" "file_relocations64 elf_std m p sz = [Reloc_Relative 248 16]"
  by (simp_all add: file_segments64_def file_relocations64_def at_loaded [OF assms] at_relocations [OF assms])

theorem load_image_within_load_size_witness:
  "\<exists>m2. load_image elf_std demo_mem demo_info 0x100000 0x800000 260 0 = Some (Inr (True, 0x800010, m2)) \<and>
     m2 0x800103 = 0xEF \<and> m2 0x800108 = 0xFF \<and> load64 m2 0x8000F8 = 0x800010"
proof -
  note at = demo_at_demo_mem and parts = at_file [OF demo_at_demo_mem, of 260]
  have loadable: "loadable_elf64 elf_std demo_mem 0x100000 260"
    and info: "get_image_info elf_std demo_mem demo_info 0x100000 260 \<lparr>load_size = 0, image_machine = None\<rparr>
      = Some (IMAGE_INFO_OK, \<lparr>load_size = 0x108, image_machine = Some IMAGE_MACHINE_EM64T\<rparr>)"
    using at_loadable [OF at, of 260] at_get_image_info [OF at, of 260] by simp_all
  obtain m2 where m2: "load_image elf_std demo_mem demo_info 0x100000 0x800000 260 0 = Some (Inr (True, 0x800010, m2))"
    and outside: "\<forall>x. \<not> in_range 0x800000 264 x \<longrightarrow> m2 x = demo_mem x"
    and inside: "\<forall>x. window 0x800000 demo_segment x \<and> \<not> in_range 0x800040 (table_size64 elf_std demo_mem 0x100000) x \<and>
       \<not> in_range 0xF8 8 (x - 0x800000) \<longrightarrow> m2 x = segment_byte demo_mem demo_img demo_segment (x - 0x800000)"
    and stored: "load64 m2 0x8000F8 = 0x800010"
    using load_image_within_load_size [OF elf_std_ok elf_std_get_phdr elf_std_pie loadable info _ refl, of "0x800000" 0]
    by (auto simp: parts segment_low_def demo_ehdr disjoint_ranges_def demo_img_eq)
  have "window 0x800000 demo_segment 0x800103" "table_size64 elf_std demo_mem 0x100000 = 112"
    "demo_mem 0x800108 = 0xFF" "demo_mem 0x100103 = 0xEF"
    by (simp_all add: window_def in_range_def table_size64_def demo_ehdr demo_mem_def demo_elf_def)
  then have "m2 0x800103 = 0xEF \<and> m2 0x800108 = 0xFF"
    using inside outside by (simp add: in_range_def segment_byte_def)
  with m2 stored show ?thesis by blast
qed

end
