(* ===== verification/Xmon_Desc.thy ===== *)
theory Xmon_Desc
  imports Elf_Loader
begin

text \<open>
  The descriptor and the memory layouts that the loader's stages share
  (\<open>pre_os/starter/xmon_desc.h\<close>, \<open>startap/x32_init64.h\<close>, \<open>pre_os/common/include/ikgtboot.h\<close>).
  The layout structures are page-granular, so their offsets are computed here; the size of
  \<open>xmon_desc_t\<close> depends on structures of headers outside the repository and is a parameter.
\<close>

section \<open>Constants\<close>

definition STARTER_DEFAULT_LOAD_ADDR :: u64 where "STARTER_DEFAULT_LOAD_ADDR = 0x10000000"

definition LOADER_BIN_SIZE :: "bool \<Rightarrow> nat" where
  "LOADER_BIN_SIZE debug = (if debug then 0xE1000 else 0x7D000)"

definition XMON_LOADERBIN_FILE_MAPPING_HEADER_MAGIC0 :: u32 where
  "XMON_LOADERBIN_FILE_MAPPING_HEADER_MAGIC0 = 0x1B3D5F78"
definition XMON_LOADERBIN_FILE_MAPPING_HEADER_MAGIC1 :: u32 where
  "XMON_LOADERBIN_FILE_MAPPING_HEADER_MAGIC1 = 0x2A4C6E89"

definition LOADER_HEAP_SIZE :: nat where "LOADER_HEAP_SIZE = 0x2000000"
definition STARTAP_IMG_SIZE :: nat where "STARTAP_IMG_SIZE = 0x20000"
definition XMON_LOADER_IMG_SIZE :: nat where "XMON_LOADER_IMG_SIZE = 0xC000"
definition SG_RUNTIME_SIZE :: nat where "SG_RUNTIME_SIZE = 0x800000"
definition AP_WAKEUP_BOOTSTRAP_CODE_ADDR :: u64 where "AP_WAKEUP_BOOTSTRAP_CODE_ADDR = 0x90000"

definition XMON_DEFAULT_TOTAL_SIZE :: "bool \<Rightarrow> nat" where
  "XMON_DEFAULT_TOTAL_SIZE debug = (if debug then 0xD00000 else 0xA00000)"

definition NUM_OF_PAGE :: "nat \<Rightarrow> nat" where "NUM_OF_PAGE n = drop_bit 12 (n + 4095)"

datatype file_pack_index = XMON_LOADER_BIN_INDEX | STARTAP_BIN_INDEX | XMON_BIN_INDEX

fun file_index :: "file_pack_index \<Rightarrow> nat" where
  "file_index XMON_LOADER_BIN_INDEX = 0"
| "file_index STARTAP_BIN_INDEX = 1"
| "file_index XMON_BIN_INDEX = 2"

definition MAX_BIN_COUNT :: nat where "MAX_BIN_COUNT = 3"

definition INDEX_TO_BITMAP_FLAG :: "nat \<Rightarrow> u32" where "INDEX_TO_BITMAP_FLAG i = push_bit i 1"

section \<open>The file mapping header in memory\<close>

text \<open>Byte offsets of \<open>xmon_loaderbin_file_mapping_header_t\<close>: two magics, flags, three (offset, size).\<close>

definition hdr_magic0 :: "mem \<Rightarrow> addr \<Rightarrow> u32" where "hdr_magic0 m h = load32 m h"
definition hdr_magic1 :: "mem \<Rightarrow> addr \<Rightarrow> u32" where "hdr_magic1 m h = load32 m (h + 4)"
definition hdr_flags :: "mem \<Rightarrow> addr \<Rightarrow> u32" where "hdr_flags m h = load32 m (h + 8)"
definition hdr_file_offset :: "mem \<Rightarrow> addr \<Rightarrow> nat \<Rightarrow> u32" where
  "hdr_file_offset m h i = load32 m (h + 12 + of_nat (8 * i))"
definition hdr_file_size :: "mem \<Rightarrow> addr \<Rightarrow> nat \<Rightarrow> u32" where
  "hdr_file_size m h i = load32 m (h + 12 + of_nat (8 * i) + 4)"

text \<open>\<open>ikgt_platform_info_t\<close>\<close>

definition pi_memmap_addr :: "mem \<Rightarrow> addr \<Rightarrow> u32" where "pi_memmap_addr m p = load32 m p"
definition pi_memmap_size :: "mem \<Rightarrow> addr \<Rightarrow> u32" where "pi_memmap_size m p = load32 m (p + 4)"
definition pi_load_addr :: "mem \<Rightarrow> addr \<Rightarrow> u32" where "pi_load_addr m p = load32 m (p + 8)"
definition pi_run_addr :: "mem \<Rightarrow> addr \<Rightarrow> u32" where "pi_run_addr m p = load32 m (p + 12)"

section \<open>The descriptor\<close>

record initial_state =
  st_rax :: u64
  st_rbx :: u64
  st_rcx :: u64
  st_rdx :: u64
  st_rdi :: u64
  st_rsi :: u64
  st_rbp :: u64
  st_rsp :: u64
  st_rip :: u64
  st_rflags :: u64

record module_file_info =
  mod_addr :: u64
  mod_size :: u64

record init32_struct =
  i32_low_memory_page :: u32
  i32_num_of_aps :: u16
  i32_esp :: "u32 list"

record init64_struct =
  i64_cs :: u16
  i64_gdtr_base :: u32
  i64_gdtr_limit :: u16
  i64_efer :: u64
  i64_cr3 :: u32

record startap_info =
  sa_img_base :: u64
  sa_total_size :: u64
  sa_hdr_info :: image_info
  sa_entry_point :: u64
  sa_init32 :: init32_struct
  sa_init64 :: init64_struct

record xmon_info =
  xm_img_base :: u64
  xm_total_size :: u64
  xm_hdr_info :: image_info
  xm_entry_point :: u64

text \<open>The fields of \<open>mon_startup_struct_t\<close> (\<open>mon_startup.h\<close>) that the loader writes.\<close>

record mon_memory_layout =
  ml_base_address :: u64
  ml_entry_point :: u64
  ml_image_size :: u64
  ml_total_size :: u64

datatype debug_port_type = MON_DEBUG_PORT_NONE | MON_DEBUG_PORT_SERIAL
datatype debug_port_ident = MON_DEBUG_PORT_IDENT_DEFAULT | MON_DEBUG_PORT_IDENT_IO

record debug_params =
  dp_type :: debug_port_type
  dp_ident_type :: debug_port_ident
  dp_io_base :: u16
  dp_mask :: u64
  dp_verbosity :: u64
  dp_virt_mode :: u32
  dp_reserved_1 :: u32

record mon_startup =
  size_of_this_struct :: u64
  version_of_this_struct :: u64
  number_of_processors_at_install_time :: u32
  number_of_processors_at_boot_time :: u32
  number_of_secondary_guests :: u32
  size_of_mon_stack :: u64
  mon_flags :: u32
  primary_guest_startup_state :: u64
  physical_memory_layout_E820 :: u64
  mon_image_layout :: mon_memory_layout
  thunk_image_layout :: mon_memory_layout
  secondary_guests_startup_state_array :: u64
  mon_debug_params :: debug_params

record sguest_info =
  sg_img_base :: u64
  sg_total_size :: u64
  sg_entry_point :: u64
  sg_p_mbi :: u64

record xmon_desc =
  xd_initial_state :: initial_state
  xd_loader_mem_addr :: u64
  xd_runtime_mem_addr :: u64
  xd_xmon_loader_file :: module_file_info
  xd_startap_file :: module_file_info
  xd_xmon_file :: module_file_info
  xd_sguest_file :: module_file_info
  xd_mon_env :: mon_startup
  xd_startap :: startap_info
  xd_xmon :: xmon_info
  xd_sguest :: sguest_info

definition zero_image_info :: image_info where
  "zero_image_info = \<lparr>load_size = 0, image_machine = None\<rparr>"

text \<open>\<open>mon_memset(xmon_desc, 0, sizeof(xmon_desc_t))\<close>\<close>

definition zero_desc :: xmon_desc where
  "zero_desc = \<lparr>
     xd_initial_state = \<lparr>st_rax = 0, st_rbx = 0, st_rcx = 0, st_rdx = 0, st_rdi = 0, st_rsi = 0, st_rbp = 0,
        st_rsp = 0, st_rip = 0, st_rflags = 0\<rparr>,
     xd_loader_mem_addr = 0, xd_runtime_mem_addr = 0,
     xd_xmon_loader_file = \<lparr>mod_addr = 0, mod_size = 0\<rparr>,
     xd_startap_file = \<lparr>mod_addr = 0, mod_size = 0\<rparr>, xd_xmon_file = \<lparr>mod_addr = 0, mod_size = 0\<rparr>,
     xd_sguest_file = \<lparr>mod_addr = 0, mod_size = 0\<rparr>,
     xd_mon_env = \<lparr>size_of_this_struct = 0, version_of_this_struct = 0,
        number_of_processors_at_install_time = 0, number_of_processors_at_boot_time = 0,
        number_of_secondary_guests = 0, size_of_mon_stack = 0, mon_flags = 0,
        primary_guest_startup_state = 0, physical_memory_layout_E820 = 0,
        mon_image_layout = \<lparr>ml_base_address = 0, ml_entry_point = 0, ml_image_size = 0, ml_total_size = 0\<rparr>,
        thunk_image_layout = \<lparr>ml_base_address = 0, ml_entry_point = 0, ml_image_size = 0, ml_total_size = 0\<rparr>,
        secondary_guests_startup_state_array = 0,
        mon_debug_params = \<lparr>dp_type = MON_DEBUG_PORT_NONE, dp_ident_type = MON_DEBUG_PORT_IDENT_DEFAULT,
          dp_io_base = 0, dp_mask = 0, dp_verbosity = 0,
          dp_virt_mode = 0, dp_reserved_1 = 0\<rparr>\<rparr>,
     xd_startap = \<lparr>sa_img_base = 0, sa_total_size = 0, sa_hdr_info = zero_image_info, sa_entry_point = 0,
        sa_init32 = \<lparr>i32_low_memory_page = 0, i32_num_of_aps = 0, i32_esp = []\<rparr>,
        sa_init64 = \<lparr>i64_cs = 0, i64_gdtr_base = 0, i64_gdtr_limit = 0, i64_efer = 0, i64_cr3 = 0\<rparr>\<rparr>,
     xd_xmon = \<lparr>xm_img_base = 0, xm_total_size = 0, xm_hdr_info = zero_image_info, xm_entry_point = 0\<rparr>,
     xd_sguest = \<lparr>sg_img_base = 0, sg_total_size = 0, sg_entry_point = 0, sg_p_mbi = 0\<rparr>\<rparr>"

section \<open>Memory layouts\<close>

definition page_bytes :: "nat \<Rightarrow> nat" where "page_bytes n = 4096 * NUM_OF_PAGE n"

text \<open>Offsets in \<open>xmon_loader_memory_layout_t\<close>: package, loader image, heap, descriptor.\<close>

definition ldr_bin_off :: nat where "ldr_bin_off = 0"
definition xmon_loader_off :: "bool \<Rightarrow> nat" where
  "xmon_loader_off debug = page_bytes (LOADER_BIN_SIZE debug)"
definition ldr_heap_off :: "bool \<Rightarrow> nat" where
  "ldr_heap_off debug = xmon_loader_off debug + page_bytes XMON_LOADER_IMG_SIZE"
definition desc_off :: "bool \<Rightarrow> nat" where
  "desc_off debug = ldr_heap_off debug + page_bytes LOADER_HEAP_SIZE"
definition loader_layout_size :: "bool \<Rightarrow> nat \<Rightarrow> nat" where
  "loader_layout_size debug sizeof_desc = desc_off debug + page_bytes sizeof_desc"

text \<open>Offsets in \<open>xmon_runtime_memory_layout_t\<close>: startap image, secondary guest, xmon.\<close>

definition startap_img_off :: nat where "startap_img_off = 0"
definition sguest_img_off :: nat where "sguest_img_off = page_bytes STARTAP_IMG_SIZE"
definition xmon_img_off :: nat where "xmon_img_off = sguest_img_off + page_bytes SG_RUNTIME_SIZE"
definition runtime_layout_size :: "bool \<Rightarrow> nat" where
  "runtime_layout_size debug = xmon_img_off + page_bytes (XMON_DEFAULT_TOTAL_SIZE debug)"

lemma page_bytes_ge: "n \<le> page_bytes n"
proof -
  have "n + 4095 < 4096 * ((n + 4095) div 4096) + 4096"
    using div_mult_mod_eq [of "n + 4095" 4096] mod_less_divisor [of 4096 "n + 4095"] by linarith
  then show ?thesis by (simp add: page_bytes_def NUM_OF_PAGE_def drop_bit_eq_div)
qed

lemma layout_offsets:
  "xmon_loader_off False = 0x7D000" "xmon_loader_off True = 0xE1000"
  "ldr_heap_off False = 0x89000" "ldr_heap_off True = 0xED000"
  "desc_off False = 0x2089000" "desc_off True = 0x20ED000"
  "sguest_img_off = 0x20000" "xmon_img_off = 0x820000"
  "runtime_layout_size False = 0x1220000" "runtime_layout_size True = 0x1520000"
  by (simp_all add: xmon_loader_off_def ldr_heap_off_def desc_off_def sguest_img_off_def xmon_img_off_def
      runtime_layout_size_def page_bytes_def NUM_OF_PAGE_def drop_bit_eq_div LOADER_BIN_SIZE_def
      XMON_LOADER_IMG_SIZE_def LOADER_HEAP_SIZE_def STARTAP_IMG_SIZE_def SG_RUNTIME_SIZE_def
      XMON_DEFAULT_TOTAL_SIZE_def)

end
