(* ===== verification/Heap_Manager.thy ===== *)
theory Heap_Manager
  imports Common_Util
begin

text \<open>
  The loader heap of \<open>pre_os/xmon_loader/utils/memory/memory.c\<close>: three static 32-bit cursors and
  two bump allocators over them, \<open>allocate_memory\<close> (8-byte aligned blocks) and \<open>mon_page_alloc\<close>
  (page aligned). \<open>ALIGN_FORWARD\<close> comes from a header outside this repository; it is the
  parameter \<open>af\<close>, with the law \<open>aligns_forward\<close>, and \<open>align_forward_macro\<close> (the fallback
  definition that \<open>pre_os/tools/xmon_packer.c\<close> gives for the same macro) satisfies the law.

  The locale \<open>bump_allocator\<close> is the contract the loader's clients rely on; both allocators are
  interpreted in it, \<open>allocate_memory\<close> for requests that are multiples of 8 only, because it
  advances the cursor by the requested size and not by the aligned one: for other requests the
  contract fails, as the theorem at the end of this theory states.
\<close>

section \<open>State and operations\<close>

record heap =
  heap_base :: u32
  heap_current :: u32
  heap_tops :: u32

definition initialize_memory_manager :: "u64 \<Rightarrow> u64 \<Rightarrow> heap" where
  "initialize_memory_manager heap_base_address heap_bytes =
     (let base = ucast heap_base_address :: u32
      in \<lparr>heap_base = base, heap_current = base, heap_tops = ucast (ucast base + heap_bytes :: u64)\<rparr>)"

definition MEM_ALLOCATE_ALIGNMENT :: u64 where "MEM_ALLOCATE_ALIGNMENT = 8"
definition PAGE_SIZE :: u64 where "PAGE_SIZE = 1024 * 4"

definition allocate_memory ::
  "(u32 \<Rightarrow> u64 \<Rightarrow> u64) \<Rightarrow> mem \<Rightarrow> heap \<Rightarrow> u64 \<Rightarrow> addr \<times> heap \<times> mem" where
  "allocate_memory af m h size_request =
     (if ucast (heap_current h) + size_request > ucast (heap_tops h) then (0, h, m)
      else
        let address = af (heap_current h) MEM_ALLOCATE_ALIGNMENT;
            h' = h\<lparr>heap_current := ucast (ucast (heap_current h) + size_request :: u64)\<rparr>
        in (address, h', zero_mem m address size_request))"

definition mon_page_alloc ::
  "(u32 \<Rightarrow> u64 \<Rightarrow> u64) \<Rightarrow> mem \<Rightarrow> heap \<Rightarrow> u64 \<Rightarrow> addr \<times> heap \<times> mem" where
  "mon_page_alloc af m h pages =
     (let sz = pages * PAGE_SIZE;
          address = af (heap_current h) PAGE_SIZE
      in if address + sz > ucast (heap_tops h) then (0, h, m)
         else (address, h\<lparr>heap_current := ucast (address + sz)\<rparr>, zero_mem m address sz))"

definition align_forward_macro :: "u32 \<Rightarrow> u64 \<Rightarrow> u64" where
  "align_forward_macro x bytes = ucast (x + ucast bytes - 1) AND NOT (bytes - 1)"

text \<open>The documented behaviour of \<open>ALIGN_FORWARD\<close> for the two alignments used here.\<close>

definition aligns_forward :: "(u32 \<Rightarrow> u64 \<Rightarrow> u64) \<Rightarrow> bool" where
  "aligns_forward af \<longleftrightarrow>
     (\<forall>x. \<forall>b \<in> {MEM_ALLOCATE_ALIGNMENT, PAGE_SIZE}. unat x + unat b \<le> 2 ^ 32 \<longrightarrow>
        unat (af x b) = (unat x + unat b - 1) div unat b * unat b)"

section \<open>A sequence of allocations\<close>

fun alloc_run ::
  "(mem \<Rightarrow> heap \<Rightarrow> u64 \<Rightarrow> addr \<times> heap \<times> mem) \<Rightarrow> mem \<Rightarrow> heap \<Rightarrow> u64 list
     \<Rightarrow> (addr \<times> u64) list \<times> heap \<times> mem" where
  "alloc_run alloc m h [] = ([], h, m)"
| "alloc_run alloc m h (r # rs) =
     (let (p, h', m') = alloc m h r in
      if p = 0 then ([], h', m')
      else let (bs, h'', m'') = alloc_run alloc m' h' rs in ((p, r) # bs, h'', m''))"

text \<open>
  \<open>blocks_between len lo bs hi\<close>: the blocks \<open>bs\<close> lie one after the other between \<open>lo\<close> and \<open>hi\<close>,
  where \<open>len r\<close> is the byte length of a block requested by \<open>r\<close>.
\<close>

fun blocks_between :: "(u64 \<Rightarrow> nat) \<Rightarrow> nat \<Rightarrow> (addr \<times> u64) list \<Rightarrow> nat \<Rightarrow> bool" where
  "blocks_between len lo [] hi \<longleftrightarrow> lo \<le> hi"
| "blocks_between len lo ((a, r) # bs) hi \<longleftrightarrow>
     lo \<le> unat a \<and> blocks_between len (unat a + len r) bs hi"

lemma blocks_between_le: "blocks_between len lo bs hi \<Longrightarrow> lo \<le> hi"
  by (induction len lo bs hi rule: blocks_between.induct) auto

lemma blocks_between_mem:
  "blocks_between len lo bs hi \<Longrightarrow> (a, r) \<in> set bs \<Longrightarrow> lo \<le> unat a \<and> unat a + len r \<le> hi"
  by (induction len lo bs hi rule: blocks_between.induct)
     (auto dest: blocks_between_le)

lemma blocks_between_disjoint:
  "blocks_between len lo bs hi \<Longrightarrow> i < j \<Longrightarrow> j < length bs \<Longrightarrow>
   unat (fst (bs ! i)) + len (snd (bs ! i)) \<le> unat (fst (bs ! j))"
proof (induction len lo bs hi arbitrary: i j rule: blocks_between.induct)
  case 1
  then show ?case by simp
next
  case (2 len lo a r bs hi)
  then show ?case
  proof (cases i)
    case 0
    have "j - 1 < length bs" using 2 0 by auto
    then have "(fst (bs ! (j - 1)), snd (bs ! (j - 1))) \<in> set bs" by simp
    from blocks_between_mem [OF _ this] 2(2) have "unat a + len r \<le> unat (fst (bs ! (j - 1)))"
      by auto
    then show ?thesis using 2(3) 0 by (simp add: nth_Cons')
  next
    case (Suc k)
    then show ?thesis using "2.IH" [of k "j - 1"] 2(2,3,4) by (simp add: nth_Cons')
  qed
qed

lemma ordered_blocks_disjoint_ranges:
  assumes "unat a + n \<le> unat b" and "unat b + k \<le> 2 ^ 64"
  shows "disjoint_ranges a n b k"
  using assms by (intro disjoint_rangesI) (simp add: in_range_linear)

section \<open>The allocator contract\<close>

locale bump_allocator =
  fixes alloc :: "mem \<Rightarrow> heap \<Rightarrow> u64 \<Rightarrow> addr \<times> heap \<times> mem"
    and len :: "u64 \<Rightarrow> nat"
    and ok :: "u64 \<Rightarrow> bool"
    and inv :: "heap \<Rightarrow> bool"
  assumes below_tops: "inv h \<Longrightarrow> unat (heap_current h) \<le> unat (heap_tops h)"
    and alloc_fail: "inv h \<Longrightarrow> ok r \<Longrightarrow> alloc m h r = (0, h', m') \<Longrightarrow> h' = h \<and> m' = m"
    and alloc_inv: "inv h \<Longrightarrow> ok r \<Longrightarrow> alloc m h r = (p, h', m') \<Longrightarrow> inv h'"
    and alloc_tops: "inv h \<Longrightarrow> ok r \<Longrightarrow> alloc m h r = (p, h', m') \<Longrightarrow> heap_tops h' = heap_tops h"
    and alloc_block: "inv h \<Longrightarrow> ok r \<Longrightarrow> alloc m h r = (p, h', m') \<Longrightarrow> p \<noteq> 0 \<Longrightarrow>
        unat (heap_current h) \<le> unat p \<and> unat p + len r = unat (heap_current h')"
    and alloc_zero: "inv h \<Longrightarrow> ok r \<Longrightarrow> alloc m h r = (p, h', m') \<Longrightarrow> p \<noteq> 0 \<Longrightarrow>
        m' x = (if in_range p (len r) x then 0 else m x)"
begin

lemma alloc_current_mono:
  assumes "inv h" and "ok r" and "alloc m h r = (p, h', m')"
  shows "unat (heap_current h) \<le> unat (heap_current h')"
proof (cases "p = 0")
  case True
  with assms alloc_fail show ?thesis by blast
next
  case False
  with assms alloc_block show ?thesis by fastforce
qed

lemma run_blocks:
  "inv h \<Longrightarrow> list_all ok rs \<Longrightarrow> alloc_run alloc m h rs = (bs, h', m') \<Longrightarrow>
   inv h' \<and> heap_tops h' = heap_tops h \<and>
   blocks_between len (unat (heap_current h)) bs (unat (heap_current h'))"
proof (induction rs arbitrary: m h bs h' m')
  case Nil
  then show ?case by simp
next
  case (Cons r rs)
  obtain p h1 m1 where a: "alloc m h r = (p, h1, m1)" by (cases "alloc m h r") auto
  show ?case
  proof (cases "p = 0")
    case True
    with a Cons.prems alloc_fail [of h r m h1 m1] show ?thesis by auto
  next
    case False
    obtain bs1 where r: "alloc_run alloc m1 h1 rs = (bs1, h', m')" and bs: "bs = (p, r) # bs1"
      using a False Cons.prems by (auto split: prod.splits)
    have "inv h1" "heap_tops h1 = heap_tops h"
      using a Cons.prems alloc_inv alloc_tops by auto
    with Cons.IH [OF _ _ r] Cons.prems
    have "inv h' \<and> heap_tops h' = heap_tops h1 \<and>
          blocks_between len (unat (heap_current h1)) bs1 (unat (heap_current h'))" by simp
    with a bs False Cons.prems alloc_block [of h r m p h1 m1] \<open>heap_tops h1 = heap_tops h\<close>
    show ?thesis by simp
  qed
qed

lemma run_frame:
  "inv h \<Longrightarrow> list_all ok rs \<Longrightarrow> alloc_run alloc m h rs = (bs, h', m') \<Longrightarrow>
   unat x < unat (heap_current h) \<or> unat (heap_tops h) \<le> unat x \<Longrightarrow> m' x = m x"
proof (induction rs arbitrary: m h bs h' m')
  case Nil
  then show ?case by simp
next
  case (Cons r rs)
  obtain p h1 m1 where a: "alloc m h r = (p, h1, m1)" by (cases "alloc m h r") auto
  show ?case
  proof (cases "p = 0")
    case True
    with a Cons.prems alloc_fail [of h r m h1 m1] show ?thesis by auto
  next
    case False
    obtain bs1 where r: "alloc_run alloc m1 h1 rs = (bs1, h', m')"
      using a False Cons.prems by (auto split: prod.splits)
    have h1: "inv h1" "heap_tops h1 = heap_tops h"
      using a Cons.prems alloc_inv alloc_tops by auto
    have blk: "unat (heap_current h) \<le> unat p" "unat p + len r = unat (heap_current h1)"
      using a False Cons.prems alloc_block [of h r m p h1 m1] by simp_all
    have "unat p + len r \<le> unat (heap_tops h)" using blk below_tops [OF h1(1)] h1(2) by simp
    moreover from this have "unat p + len r \<le> 2 ^ 64" by (rule le_unat32_bound)
    ultimately have "\<not> in_range p (len r) x" using Cons.prems blk by (auto simp: in_range_linear)
    then have "m1 x = m x" using a False Cons.prems alloc_zero [of h r m p h1 m1 x] by simp
    moreover have "m' x = m1 x"
      using Cons.IH [OF h1(1) _ r] Cons.prems h1 blk by auto
    ultimately show ?thesis by simp
  qed
qed

lemma run_zero:
  "inv h \<Longrightarrow> list_all ok rs \<Longrightarrow> alloc_run alloc m h rs = (bs, h', m') \<Longrightarrow>
   (p, r) \<in> set bs \<Longrightarrow> in_range p (len r) x \<Longrightarrow> m' x = 0"
proof (induction rs arbitrary: m h bs h' m')
  case Nil
  then show ?case by simp
next
  case (Cons r0 rs)
  obtain p0 h1 m1 where a: "alloc m h r0 = (p0, h1, m1)" by (cases "alloc m h r0") auto
  show ?case
  proof (cases "p0 = 0")
    case True
    with a Cons.prems show ?thesis by simp
  next
    case False
    obtain bs1 where r: "alloc_run alloc m1 h1 rs = (bs1, h', m')" and bs: "bs = (p0, r0) # bs1"
      using a False Cons.prems by (auto split: prod.splits)
    have h1: "inv h1" using a Cons.prems alloc_inv by auto
    show ?thesis
    proof (cases "(p, r) \<in> set bs1")
      case True
      with Cons.IH [OF h1 _ r] Cons.prems show ?thesis by simp
    next
      case other: False
      with bs Cons.prems have pr: "p = p0" "r = r0" by auto
      have blk: "unat p0 + len r0 = unat (heap_current h1)"
        using a False Cons.prems alloc_block [of h r0 m p0 h1 m1] by simp
      have zero: "m1 x = 0" using a False pr Cons.prems alloc_zero [of h r0 m p0 h1 m1 x] by simp
      have "unat p0 + len r0 \<le> 2 ^ 64" using blk by (intro le_unat32_bound [of _ "heap_current h1"]) simp
      then have "unat x < unat (heap_current h1)" using blk pr Cons.prems by (simp add: in_range_linear)
      then show ?thesis using run_frame [OF h1 _ r] Cons.prems zero by simp
    qed
  qed
qed

lemma run_disjoint:
  assumes "inv h" and "list_all ok rs" and "alloc_run alloc m h rs = (bs, h', m')"
    and "i < j" and "j < length bs"
  shows "disjoint_ranges (fst (bs ! i)) (len (snd (bs ! i))) (fst (bs ! j)) (len (snd (bs ! j)))"
proof (rule ordered_blocks_disjoint_ranges)
  have b: "blocks_between len (unat (heap_current h)) bs (unat (heap_current h'))"
    using run_blocks assms by blast
  show "unat (fst (bs ! i)) + len (snd (bs ! i)) \<le> unat (fst (bs ! j))"
    using blocks_between_disjoint [OF b] assms by simp
  have "(fst (bs ! j), snd (bs ! j)) \<in> set bs" using assms by simp
  from blocks_between_mem [OF b this]
  show "unat (fst (bs ! j)) + len (snd (bs ! j)) \<le> 2 ^ 64" by (blast intro: le_unat32_bound)
qed

end

section \<open>Both allocators meet the contract\<close>

definition ok_bytes :: "u64 \<Rightarrow> bool" where
  "ok_bytes r \<longleftrightarrow> unat r mod 8 = 0 \<and> unat r < 2 ^ 63"

definition heap_inv8 :: "heap \<Rightarrow> bool" where
  "heap_inv8 h \<longleftrightarrow> 0 < unat (heap_current h) \<and> unat (heap_current h) mod 8 = 0 \<and>
     unat (heap_current h) \<le> unat (heap_tops h)"

definition ok_pages :: "u64 \<Rightarrow> bool" where
  "ok_pages r \<longleftrightarrow> unat r < 2 ^ 50"

definition heap_inv_page :: "heap \<Rightarrow> bool" where
  "heap_inv_page h \<longleftrightarrow> 0 < unat (heap_current h) \<and> unat (heap_current h) \<le> unat (heap_tops h) \<and>
     unat (heap_tops h) + 4096 \<le> 2 ^ 32"

lemma unat_ucast_u32_u64 [simp]: "unat (ucast (x :: u32) :: u64) = unat x"
  by (simp add: unsigned_ucast_eq unsigned_take_bit_eq take_bit_nat_eq_self)

lemma unat_ucast_u64_u32: "unat y < 2 ^ 32 \<Longrightarrow> unat (ucast (y :: u64) :: u32) = unat y"
  by (simp add: unsigned_ucast_eq unsigned_take_bit_eq take_bit_nat_eq_self)

lemma aligns_forward8:
  assumes "aligns_forward af" and "unat x mod 8 = 0"
  shows "unat (af x MEM_ALLOCATE_ALIGNMENT) = unat x"
proof -
  have "unat x < 4294967296" by simp
  then have "unat x + 8 \<le> 4294967296" using assms(2) by presburger
  then have "unat (af x MEM_ALLOCATE_ALIGNMENT) = (unat x + 8 - 1) div 8 * 8"
    using assms(1) by (simp add: aligns_forward_def MEM_ALLOCATE_ALIGNMENT_def)
  also have "\<dots> = unat x" using assms(2) by presburger
  finally show ?thesis .
qed

lemma aligns_forward_page:
  assumes "aligns_forward af" and "unat x + 4096 \<le> 2 ^ 32"
  shows "unat (af x PAGE_SIZE) = (unat x + 4095) div 4096 * 4096"
  using assms by (simp add: aligns_forward_def PAGE_SIZE_def)

text \<open>The cursor test and the cursor update, when nothing overflows.\<close>

lemma unat_current_plus:
  "unat r < 2 ^ 63 \<Longrightarrow> unat (ucast (x :: u32) + r :: u64) = unat x + unat r"
  using unat_less32 [of x] by (simp add: unat_add64 del: unat_less32 unat_bounds32)

lemma allocate_memory_success:
  assumes "ok_bytes r" and "heap_inv8 h" and "allocate_memory af m h r = (p, h', m')" and "p \<noteq> 0"
  shows "unat (heap_current h) + unat r \<le> unat (heap_tops h)"
    and "p = af (heap_current h) MEM_ALLOCATE_ALIGNMENT"
    and "unat (heap_current h') = unat (heap_current h) + unat r"
    and "heap_tops h' = heap_tops h" and "m' = zero_mem m p r"
proof -
  have cp: "unat (ucast (heap_current h) + r :: u64) = unat (heap_current h) + unat r"
    using assms(1) by (intro unat_current_plus) (simp add: ok_bytes_def)
  have not_full: "\<not> ucast (heap_current h) + r > ucast (heap_tops h)"
    using assms(3,4) by (auto simp: allocate_memory_def split: if_splits)
  then show le: "unat (heap_current h) + unat r \<le> unat (heap_tops h)"
    by (simp add: word_less_nat_alt cp)
  from not_full assms(3) show "p = af (heap_current h) MEM_ALLOCATE_ALIGNMENT"
    and "heap_tops h' = heap_tops h" and "m' = zero_mem m p r"
    by (auto simp: allocate_memory_def Let_def)
  have "unat (heap_current h) + unat r < 2 ^ 32"
    using le unat_less32 [of "heap_tops h"] by linarith
  with not_full assms(3) show "unat (heap_current h') = unat (heap_current h) + unat r"
    by (auto simp: allocate_memory_def Let_def unat_ucast_u64_u32 cp)
qed

lemma allocate_memory_bump:
  assumes af: "aligns_forward af"
  shows "bump_allocator (allocate_memory af) unat ok_bytes heap_inv8"
proof
  fix m h r p h' m' x
  assume inv: "heap_inv8 h"
  then show "unat (heap_current h) \<le> unat (heap_tops h)" by (simp add: heap_inv8_def)
  assume ok: "ok_bytes r"
  have base: "unat (af (heap_current h) MEM_ALLOCATE_ALIGNMENT) = unat (heap_current h)"
    using af inv by (simp add: aligns_forward8 heap_inv8_def)
  then have nonnull: "af (heap_current h) MEM_ALLOCATE_ALIGNMENT \<noteq> 0"
    using inv by (auto simp: heap_inv8_def unat_0_iff [symmetric])
  { assume "allocate_memory af m h r = (0, h', m')"
    with nonnull show "h' = h \<and> m' = m" by (auto simp: allocate_memory_def Let_def split: if_splits) }
  assume a: "allocate_memory af m h r = (p, h', m')"
  { assume "p \<noteq> 0"
    note s = allocate_memory_success [OF ok inv a this]
    show "unat (heap_current h) \<le> unat p \<and> unat p + unat r = unat (heap_current h')"
      using s base by simp
    show "m' x = (if in_range p (unat r) x then 0 else m x)"
      using s by (simp add: zero_mem_apply) }
  show "heap_inv8 h'"
  proof (cases "p = 0")
    case True
    with a inv nonnull show ?thesis by (auto simp: allocate_memory_def Let_def split: if_splits)
  next
    case False
    note s = allocate_memory_success [OF ok inv a this]
    have "(unat (heap_current h) + unat r) mod 8 = 0"
      using inv ok by (simp add: heap_inv8_def ok_bytes_def mod_0_imp_dvd dvd_imp_mod_0)
    with s inv show ?thesis by (simp add: heap_inv8_def)
  qed
  show "heap_tops h' = heap_tops h"
    using a by (auto simp: allocate_memory_def Let_def split: if_splits)
qed

lemma mon_page_alloc_success:
  assumes af: "aligns_forward af" and ok: "ok_pages r" and inv: "heap_inv_page h"
    and alloc: "mon_page_alloc af m h r = (p, h', m')" and nz: "p \<noteq> 0"
  shows "unat p = (unat (heap_current h) + 4095) div 4096 * 4096"
    and "unat (heap_current h') = unat p + unat r * 4096"
    and "unat p + unat r * 4096 \<le> unat (heap_tops h)"
    and "heap_tops h' = heap_tops h" and "m' = zero_mem m p (r * PAGE_SIZE)"
    and "unat (r * PAGE_SIZE) = unat r * 4096"
proof -
  let ?a = "af (heap_current h) PAGE_SIZE"
  have a: "unat ?a = (unat (heap_current h) + 4095) div 4096 * 4096"
    using inv af by (intro aligns_forward_page) (auto simp: heap_inv_page_def)
  have "unat ?a < 2 ^ 32 + 4096" using a unat_less32 [of "heap_current h"] by linarith
  moreover show sz: "unat (r * PAGE_SIZE) = unat r * 4096"
    using ok by (simp add: ok_pages_def PAGE_SIZE_def unat_word_ariths)
  moreover have "unat r * 4096 < 2 ^ 62" using ok by (simp add: ok_pages_def)
  ultimately have sum: "unat (?a + r * PAGE_SIZE) = unat ?a + unat r * 4096"
    by (simp add: unat_add64)
  have fits: "\<not> ?a + r * PAGE_SIZE > ucast (heap_tops h)" and pa: "p = ?a"
    and h': "h' = h\<lparr>heap_current := ucast (?a + r * PAGE_SIZE)\<rparr>"
    and "m' = zero_mem m ?a (r * PAGE_SIZE)"
    using alloc nz by (auto simp: mon_page_alloc_def Let_def split: if_splits)
  then show "unat p = (unat (heap_current h) + 4095) div 4096 * 4096"
    and "heap_tops h' = heap_tops h" and "m' = zero_mem m p (r * PAGE_SIZE)"
    using a by simp_all
  show le: "unat p + unat r * 4096 \<le> unat (heap_tops h)"
    using fits pa sum by (simp add: word_less_nat_alt)
  then have "unat (?a + r * PAGE_SIZE) < 2 ^ 32"
    using sum unat_less32 [of "heap_tops h"] unfolding pa by linarith
  then show "unat (heap_current h') = unat p + unat r * 4096"
    using h' sum pa by (simp add: unat_ucast_u64_u32)
qed

lemma page_round_up: "n \<le> (n + 4095) div 4096 * 4096" for n :: nat
  using div_mult_mod_eq [of "n + 4095" 4096] mod_less_divisor [of 4096 "n + 4095"] by linarith

lemma mon_page_alloc_bump:
  assumes af: "aligns_forward af"
  shows "bump_allocator (mon_page_alloc af) (\<lambda>r. unat r * 4096) ok_pages heap_inv_page"
proof
  fix m h r p h' m' x
  assume inv: "heap_inv_page h"
  then show "unat (heap_current h) \<le> unat (heap_tops h)" by (simp add: heap_inv_page_def)
  assume ok: "ok_pages r"
  have "unat (af (heap_current h) PAGE_SIZE) = (unat (heap_current h) + 4095) div 4096 * 4096"
    using inv af by (intro aligns_forward_page) (auto simp: heap_inv_page_def)
  also have "\<dots> \<noteq> 0" using inv by (simp add: heap_inv_page_def div_eq_0_iff)
  finally have nonnull: "af (heap_current h) PAGE_SIZE \<noteq> 0" by (metis unat_0)
  { assume "mon_page_alloc af m h r = (0, h', m')"
    with nonnull show "h' = h \<and> m' = m" by (auto simp: mon_page_alloc_def Let_def split: if_splits) }
  assume a: "mon_page_alloc af m h r = (p, h', m')"
  { assume "p \<noteq> 0"
    note s = mon_page_alloc_success [OF af ok inv a this]
    show "unat (heap_current h) \<le> unat p \<and> unat p + unat r * 4096 = unat (heap_current h')"
      using page_round_up [of "unat (heap_current h)"] s(1,2) by simp
    show "m' x = (if in_range p (unat r * 4096) x then 0 else m x)"
      using s by (simp add: zero_mem_apply) }
  show "heap_tops h' = heap_tops h"
    using a by (auto simp: mon_page_alloc_def Let_def split: if_splits)
  show "heap_inv_page h'"
  proof (cases "p = 0")
    case True
    then show ?thesis using a inv nonnull
      by (auto simp: mon_page_alloc_def Let_def split: if_splits)
  next
    case False
    note s = mon_page_alloc_success [OF af ok inv a this]
    have "0 < unat p" using False by (simp add: unat_gt_0)
    with s inv show ?thesis by (simp add: heap_inv_page_def)
  qed
qed

section \<open>The macro, and the interpretations\<close>

lemma align_macro_mask:
  assumes "align_forward_macro x b = ucast (x + c) AND NOT (mask k)"
    and "unat c = 2 ^ k - 1" and "unat x + 2 ^ k \<le> 2 ^ 32"
  shows "unat (align_forward_macro x b) = (unat x + 2 ^ k - 1) div 2 ^ k * 2 ^ k"
proof -
  have "unat x + unat c = unat x + 2 ^ k - 1" using assms(2) by simp
  moreover from this have "unat (x + c) = unat x + unat c"
    using assms(3) by (intro unat_add_lem [THEN iffD1]) (simp add: less_eq_Suc_le)
  ultimately show ?thesis by (simp add: assms(1) unat_and_not_mask)
qed

lemma align_forward_macro_law: "aligns_forward align_forward_macro"
proof -
  have "align_forward_macro x 8 = ucast (x + 7) AND NOT (mask 3)" for x
    by (simp add: align_forward_macro_def mask_eq_exp_minus_1 add_diff_eq [symmetric])
  from align_macro_mask [OF this]
  have "unat (align_forward_macro x 8) = (unat x + 8 - 1) div 8 * 8" if "unat x + 8 \<le> 2 ^ 32" for x
    using that by simp
  moreover have "align_forward_macro x 4096 = ucast (x + 4095) AND NOT (mask 12)" for x
    by (simp add: align_forward_macro_def mask_eq_exp_minus_1 add_diff_eq [symmetric])
  from align_macro_mask [OF this]
  have "unat (align_forward_macro x 4096) = (unat x + 4096 - 1) div 4096 * 4096"
    if "unat x + 4096 \<le> 2 ^ 32" for x
    using that by simp
  ultimately show ?thesis
    by (simp add: aligns_forward_def MEM_ALLOCATE_ALIGNMENT_def PAGE_SIZE_def)
qed

interpretation byte_heap:
  bump_allocator "allocate_memory align_forward_macro" unat ok_bytes heap_inv8
  by (rule allocate_memory_bump [OF align_forward_macro_law])

interpretation page_heap:
  bump_allocator "mon_page_alloc align_forward_macro" "\<lambda>r. unat r * 4096" ok_pages heap_inv_page
  by (rule mon_page_alloc_bump [OF align_forward_macro_law])

section \<open>Properties\<close>

lemma run_aligned8:
  assumes af: "aligns_forward af"
  shows "heap_inv8 h \<Longrightarrow> list_all ok_bytes rs \<Longrightarrow> alloc_run (allocate_memory af) m h rs = (bs, h', m') \<Longrightarrow>
         (p, r) \<in> set bs \<Longrightarrow> unat p mod 8 = 0"
proof (induction rs arbitrary: m h bs h' m')
  case Nil
  then show ?case by simp
next
  case (Cons r0 rs)
  obtain p0 h1 m1 where a: "allocate_memory af m h r0 = (p0, h1, m1)"
    by (cases "allocate_memory af m h r0") auto
  show ?case
  proof (cases "p0 = 0")
    case True
    with a Cons.prems show ?thesis by simp
  next
    case False
    obtain bs1 where r: "alloc_run (allocate_memory af) m1 h1 rs = (bs1, h', m')"
      and bs: "bs = (p0, r0) # bs1"
      using a False Cons.prems by (auto split: prod.splits)
    have "heap_inv8 h1"
      using bump_allocator.alloc_inv [OF allocate_memory_bump [OF af]] a Cons.prems by auto
    moreover have "unat p0 mod 8 = 0"
      using allocate_memory_success(2) [OF _ _ a False] aligns_forward8 [OF af, of "heap_current h"]
        Cons.prems by (simp add: heap_inv8_def)
    ultimately show ?thesis using Cons.IH [OF _ _ r] Cons.prems bs by auto
  qed
qed

text \<open>
  C14: For requests that are multiples of 8, a run of \<open>allocate_memory\<close> hands out 8-byte aligned
  blocks that are pairwise disjoint, lie between the cursor and the top of the heap, and read as
  zero after the whole run; no byte outside the heap is written.
\<close>

theorem allocate_memory_run:
  assumes "aligns_forward af" and "heap_inv8 h" and "list_all ok_bytes rs"
    and "alloc_run (allocate_memory af) m h rs = (bs, h', m')"
  shows "(\<forall>i j. i < j \<and> j < length bs \<longrightarrow>
            disjoint_ranges (fst (bs ! i)) (unat (snd (bs ! i))) (fst (bs ! j)) (unat (snd (bs ! j)))) \<and>
         (\<forall>(p, r) \<in> set bs. unat p mod 8 = 0 \<and> unat (heap_current h) \<le> unat p \<and>
            unat p + unat r \<le> unat (heap_tops h) \<and> (\<forall>x. in_range p (unat r) x \<longrightarrow> m' x = 0)) \<and>
         (\<forall>x. unat x < unat (heap_current h) \<or> unat (heap_tops h) \<le> unat x \<longrightarrow> m' x = m x)"
proof -
  note bump = allocate_memory_bump [OF assms(1)]
  have blocks: "blocks_between unat (unat (heap_current h)) bs (unat (heap_current h'))"
    and top: "unat (heap_current h') \<le> unat (heap_tops h)"
    using bump_allocator.run_blocks [OF bump assms(2-4)] bump_allocator.below_tops [OF bump, of h']
    by auto
  have "unat p mod 8 = 0 \<and> unat (heap_current h) \<le> unat p \<and> unat p + unat r \<le> unat (heap_tops h) \<and>
        (\<forall>x. in_range p (unat r) x \<longrightarrow> m' x = 0)" if "(p, r) \<in> set bs" for p r
    using that run_aligned8 [OF assms that] bump_allocator.run_zero [OF bump assms(2-4) that]
      blocks_between_mem [OF blocks that] top by auto
  then show ?thesis
    using bump_allocator.run_disjoint [OF bump assms(2-4)]
      bump_allocator.run_frame [OF bump assms(2-4)] by auto
qed


theorem allocate_memory_run_witness:
  "let h = initialize_memory_manager 0x100000 0x1000;
       (bs, h', m') = alloc_run (allocate_memory align_forward_macro) (\<lambda>_. 7) h [16, 24]
   in map fst bs = [0x100000, 0x100010] \<and>
      disjoint_ranges (fst (bs ! 0)) (unat (snd (bs ! 0))) (fst (bs ! 1)) (unat (snd (bs ! 1)))"
proof -
  define h where "h = initialize_memory_manager 0x100000 0x1000"
  obtain bs h' m' where
    run: "alloc_run (allocate_memory align_forward_macro) (\<lambda>_. 7) h [16, 24] = (bs, h', m')"
    by (cases "alloc_run (allocate_memory align_forward_macro) (\<lambda>_. 7) h [16, 24]") auto
  then have bs: "bs = [(0x100000, 16), (0x100010, 24)]"
    by (auto simp: h_def initialize_memory_manager_def allocate_memory_def align_forward_macro_def
        MEM_ALLOCATE_ALIGNMENT_def)
  have "heap_inv8 h" by (simp add: h_def initialize_memory_manager_def heap_inv8_def)
  moreover have "list_all ok_bytes [16, 24]" by (simp add: ok_bytes_def)
  ultimately have "disjoint_ranges (fst (bs ! 0)) (unat (snd (bs ! 0))) (fst (bs ! 1)) (unat (snd (bs ! 1)))"
    using allocate_memory_run [OF align_forward_macro_law _ _ run] bs by auto
  then show ?thesis using run bs by (simp add: h_def Let_def)
qed

lemma round_up8:
  fixes n :: nat
  assumes "n mod 8 \<noteq> 0"
  shows "(n + 7) div 8 = Suc (n div 8)" and "(n + 8) div 8 = Suc (n div 8)"
proof -
  define q where "q = n div 8"
  have "n mod 8 < 8" "1 \<le> n mod 8" using assms by simp_all
  then have "8 * q + 1 \<le> n" "n < 8 * q + 8"
    using div_mult_mod_eq [of n 8] unfolding q_def by linarith+
  then have "(n + 7) div 8 = Suc q" by (intro div_nat_eqI) simp_all
  then show "(n + 7) div 8 = Suc (n div 8)" by (simp add: q_def)
qed simp

text \<open>
  C37: \<open>allocate_memory\<close> advances its cursor by the requested size although it returns the aligned
  address: as soon as the cursor is not a multiple of 8, two consecutive one-byte requests get the
  same address.
\<close>

theorem allocate_memory_same_address:
  assumes "aligns_forward af" and "unat (heap_current h) mod 8 \<noteq> 0"
    and "unat (heap_current h) + 16 \<le> unat (heap_tops h)"
    and "allocate_memory af m h 1 = (p, h', m')" and "allocate_memory af m' h' 1 = (q, h'', m'')"
  shows "p \<noteq> 0 \<and> q = p"
proof -
  let ?c = "unat (heap_current h)"
  have c32: "?c + 16 < 2 ^ 32" using assms(3) unat_less32 [of "heap_tops h"] by linarith
  have s1: "unat (ucast (heap_current h) + 1 :: u64) = ?c + 1"
    using unat_current_plus [of 1 "heap_current h"] by simp
  have ok1: "\<not> ucast (heap_current h) + 1 > (ucast (heap_tops h) :: u64)"
    using assms(3) by (simp add: word_less_nat_alt s1)
  have p: "p = af (heap_current h) MEM_ALLOCATE_ALIGNMENT"
    and h': "h' = h\<lparr>heap_current := ucast (ucast (heap_current h) + 1 :: u64)\<rparr>"
    using ok1 assms(4) by (auto simp: allocate_memory_def Let_def)
  have c': "unat (heap_current h') = ?c + 1" using c32 by (simp add: h' unat_ucast_u64_u32 s1)
  have s2: "unat (ucast (heap_current h') + 1 :: u64) = ?c + 2"
    using unat_current_plus [of 1 "heap_current h'"] c' by simp
  have "\<not> ucast (heap_current h') + 1 > (ucast (heap_tops h') :: u64)"
    using assms(3) s2 by (simp add: word_less_nat_alt h')
  then have q: "q = af (heap_current h') MEM_ALLOCATE_ALIGNMENT"
    using assms(5) by (auto simp: allocate_memory_def Let_def)
  have up: "unat p = (?c + 7) div 8 * 8" "unat q = (?c + 8) div 8 * 8"
    using assms(1) c32 c' p q by (simp_all add: aligns_forward_def MEM_ALLOCATE_ALIGNMENT_def)
  then have "unat p = unat q" "0 < unat p" using round_up8 [OF assms(2)] by simp_all
  then show ?thesis by (auto simp: word_unat_eq_iff)
qed

theorem allocate_memory_same_address_witness:
  "\<exists>p h' m' q h'' m''.
     allocate_memory align_forward_macro (\<lambda>_. 0) \<lparr>heap_base = 0x1000, heap_current = 0x100F, heap_tops = 0x2000\<rparr> 1
       = (p, h', m') \<and>
     allocate_memory align_forward_macro m' h' 1 = (q, h'', m'') \<and> p \<noteq> 0 \<and> q = p"
proof -
  let ?h = "\<lparr>heap_base = 0x1000, heap_current = 0x100F, heap_tops = 0x2000\<rparr>"
  obtain p h' m' where 1: "allocate_memory align_forward_macro (\<lambda>_. 0) ?h 1 = (p, h', m')"
    by (cases "allocate_memory align_forward_macro (\<lambda>_. 0) ?h 1") auto
  obtain q h'' m'' where 2: "allocate_memory align_forward_macro m' h' 1 = (q, h'', m'')"
    by (cases "allocate_memory align_forward_macro m' h' 1") auto
  have "p \<noteq> 0 \<and> q = p"
    by (rule allocate_memory_same_address [OF align_forward_macro_law _ _ 1 2]) simp_all
  with 1 2 show ?thesis by blast
qed

end
