(* ===== verification/E820.thy ===== *)
theory E820
  imports Xmon_Desc Heap_Manager
begin

text \<open>
  The conversion of the EFI memory map to an E820 table, \<open>pre_os/xmon_loader/e820.c\<close>. The layout of
  \<open>int15_e820_memory_map_t\<close> and the macro \<open>PAGE_ALIGN_4K\<close> come from headers outside the repository:
  the parameters \<open>A\<close> and \<open>align4k\<close>.
\<close>

datatype efi_memory_type =
    EfiReservedMemoryType | EfiLoaderCode | EfiLoaderData | EfiBootServicesCode | EfiBootServicesData
  | EfiRuntimeServicesCode | EfiRuntimeServicesData | EfiConventionalMemory | EfiUnusableMemory
  | EfiACPIReclaimMemory | EfiACPIMemoryNVS | EfiMemoryMappedIO | EfiMemoryMappedIOPortSpace | EfiPalCode

text \<open>The enumeration's values, in the order of the source; a larger number is no enumerator.\<close>

definition efi_memory_types :: "efi_memory_type list" where
  "efi_memory_types =
     [EfiReservedMemoryType, EfiLoaderCode, EfiLoaderData, EfiBootServicesCode, EfiBootServicesData,
      EfiRuntimeServicesCode, EfiRuntimeServicesData, EfiConventionalMemory, EfiUnusableMemory,
      EfiACPIReclaimMemory, EfiACPIMemoryNVS, EfiMemoryMappedIO, EfiMemoryMappedIOPortSpace, EfiPalCode]"

definition EfiAcpiAddressRangeMemory :: u32 where "EfiAcpiAddressRangeMemory = 1"
definition EfiAcpiAddressRangeReserved :: u32 where "EfiAcpiAddressRangeReserved = 2"
definition EfiAcpiAddressRangeACPI :: u32 where "EfiAcpiAddressRangeACPI = 3"
definition EfiAcpiAddressRangeNVS :: u32 where "EfiAcpiAddressRangeNVS = 4"

definition EfiTypeToE820Type :: "u32 \<Rightarrow> u32" where
  "EfiTypeToE820Type t =
     (if unat t < length efi_memory_types then
        case efi_memory_types ! unat t of
          EfiLoaderCode \<Rightarrow> EfiAcpiAddressRangeMemory
        | EfiLoaderData \<Rightarrow> EfiAcpiAddressRangeMemory
        | EfiBootServicesCode \<Rightarrow> EfiAcpiAddressRangeMemory
        | EfiBootServicesData \<Rightarrow> EfiAcpiAddressRangeMemory
        | EfiConventionalMemory \<Rightarrow> EfiAcpiAddressRangeMemory
        | EfiACPIReclaimMemory \<Rightarrow> EfiAcpiAddressRangeACPI
        | EfiACPIMemoryNVS \<Rightarrow> EfiAcpiAddressRangeNVS
        | _ \<Rightarrow> EfiAcpiAddressRangeReserved
      else EfiAcpiAddressRangeReserved)"

record e820_abi =
  map_size_off :: u64
  entries_off :: u64
  entry_size :: u64
  base_address_off :: u64
  length_off :: u64
  range_type_off :: u64
  attributes_off :: u64

text \<open>The fields of an EFI memory descriptor (\<open>efi_memory_desc_t\<close>).\<close>

definition efi_type :: "mem \<Rightarrow> addr \<Rightarrow> u32" where "efi_type m d = load32 m d"
definition efi_phys_addr :: "mem \<Rightarrow> addr \<Rightarrow> u64" where "efi_phys_addr m d = load64 m (d + 8)"
definition efi_num_pages :: "mem \<Rightarrow> addr \<Rightarrow> u64" where "efi_num_pages m d = load64 m (d + 24)"

definition EFI_DESC_SIZE :: u32 where "EFI_DESC_SIZE = 40 + 8"

definition store_e820_entry :: "e820_abi \<Rightarrow> mem \<Rightarrow> addr \<Rightarrow> addr \<Rightarrow> mem" where
  "store_e820_entry A m e next =
     (let m1 = store64 m (e + base_address_off A) (efi_phys_addr m next);
          m2 = store64 m1 (e + length_off A) (efi_num_pages m1 next * 0x1000);
          m3 = store32 m2 (e + range_type_off A) (EfiTypeToE820Type (efi_type m2 next))
      in store32 m3 (e + attributes_off A) (load32 m3 (e + attributes_off A) OR 1))"

primrec fill_e820 :: "e820_abi \<Rightarrow> addr \<Rightarrow> addr \<Rightarrow> nat \<Rightarrow> u32 \<Rightarrow> mem \<Rightarrow> mem" where
  "fill_e820 A e820 efi_map 0 i m = m"
| "fill_e820 A e820 efi_map (Suc n) i m =
     fill_e820 A e820 efi_map n (i + 1)
       (store_e820_entry A m (e820 + entries_off A + ucast i * entry_size A)
          (efi_map + ucast (EFI_DESC_SIZE * i)))"

definition get_e820_table_from_ibh ::
  "e820_abi \<Rightarrow> (u32 \<Rightarrow> u64 \<Rightarrow> u64) \<Rightarrow> (u32 \<Rightarrow> u64) \<Rightarrow> mem \<Rightarrow> heap \<Rightarrow> xmon_desc
     \<Rightarrow> addr option \<times> heap \<times> mem" where
  "get_e820_table_from_ibh A af align4k m h xd =
     (let platform_info = st_rbx (xd_initial_state xd) in
      if platform_info = 0 then (None, h, m)
      else
      let map_size = pi_memmap_size m platform_info;
          count = map_size div EFI_DESC_SIZE;
          efi_map = ucast (pi_memmap_addr m platform_info) :: addr;
          (e820, h, m) = allocate_memory af m h (align4k map_size)
      in if e820 = 0 then (None, h, m)
         else
           let m = fill_e820 A e820 efi_map (unat count) 0 m
           in (Some e820, h, store32 m (e820 + map_size_off A) (count * ucast (entry_size A))))"

section \<open>The table a map is converted to\<close>

record e820_entry =
  e820_base :: u64
  e820_length :: u64
  e820_type :: u32

definition e820_entry_at :: "e820_abi \<Rightarrow> mem \<Rightarrow> addr \<Rightarrow> e820_entry" where
  "e820_entry_at A m e =
     \<lparr>e820_base = load64 m (e + base_address_off A), e820_length = load64 m (e + length_off A),
      e820_type = load32 m (e + range_type_off A)\<rparr>"

definition convert_efi :: "mem \<Rightarrow> addr \<Rightarrow> e820_entry" where
  "convert_efi m d =
     \<lparr>e820_base = efi_phys_addr m d, e820_length = efi_num_pages m d * 0x1000,
      e820_type = EfiTypeToE820Type (efi_type m d)\<rparr>"

text \<open>The documented layout: the fields of an entry one after the other, the entries packed.\<close>

definition e820_abi_ok :: "e820_abi \<Rightarrow> bool" where
  "e820_abi_ok A \<longleftrightarrow>
     map_size_off A = 0 \<and> entries_off A = 4 \<and> entry_size A = 24 \<and>
     base_address_off A = 0 \<and> length_off A = 8 \<and> range_type_off A = 16 \<and> attributes_off A = 20"

definition std_e820 :: e820_abi where
  "std_e820 = \<lparr>map_size_off = 0, entries_off = 4, entry_size = 24, base_address_off = 0, length_off = 8,
     range_type_off = 16, attributes_off = 20\<rparr>"

lemma std_e820_ok: "e820_abi_ok std_e820"
  by (simp add: e820_abi_ok_def std_e820_def)

lemma disjoint_fields:
  "unat u + a \<le> unat v \<or> unat v + b \<le> unat u \<Longrightarrow> unat u + a < 2 ^ 64 \<Longrightarrow> unat v + b < 2 ^ 64 \<Longrightarrow>
   disjoint_ranges (p + u) a (p + v) b"
  by (rule fields_disjoint)

lemma store_e820_entry_outside:
  assumes "e820_abi_ok A" and "\<not> in_range e 24 x"
  shows "store_e820_entry A m e d x = m x"
proof -
  have "\<not> in_range (e + v) n x" if "unat v + n \<le> 24" for v n
    using in_range_sub [of e v n x 24] assms(2) that by auto
  from this [of 0 8] this [of 8 8] this [of 16 4] this [of 20 4] show ?thesis
    using assms(1) by (simp add: store_e820_entry_def Let_def store_le_apply e820_abi_ok_def)
qed

lemma store_e820_entry_fields:
  assumes "e820_abi_ok A" and apart: "disjoint_ranges e 24 d 40"
  shows "e820_entry_at A (store_e820_entry A m e d) e = convert_efi m d"
proof -
  have src: "disjoint_ranges (e + v) n (d + w) k" if "unat v + n \<le> 24" "unat w + k \<le> 40" for v n w k
  proof -
    have "disjoint_ranges e 24 (d + w) k" using apart that(2) by (intro disjoint_ranges_sub) auto
    then have "disjoint_ranges (d + w) k e 24" by (simp add: disjoint_ranges_sym)
    then have "disjoint_ranges (d + w) k (e + v) n" using that(1) by (intro disjoint_ranges_sub) auto
    then show ?thesis by (simp add: disjoint_ranges_sym)
  qed
  have own: "disjoint_ranges (e + u) a (e + v) b"
    if "unat u + a \<le> unat v \<or> unat v + b \<le> unat u" "unat u + a \<le> 24" "unat v + b \<le> 24" for u v a b
    using that by (intro fields_disjoint) auto
  have ld: "load_le k (store_le n m' (e + v) w) (d + u) = load_le k m' (d + u)"
    if "unat v + n \<le> 24" "unat u + k \<le> 40" for v n u k m' and w :: "'a::len word"
    using src [OF that] that by (intro load_store_disjoint) simp_all
  have le: "load_le b (store_le a m' (e + u) w) (e + v) = load_le b m' (e + v)"
    if "unat u + a \<le> unat v \<or> unat v + b \<le> unat u" "unat u + a \<le> 24" "unat v + b \<le> 24"
    for u a v b m' and w :: "'a::len word"
    using own [OF that] that by (intro load_store_disjoint) simp_all
  note simps = ld [of 0 8 24 8, simplified] ld [of 0 8 0 4, simplified] ld [of 8 8 0 4, simplified]
    le [of 8 8 0 8, simplified] le [of 16 4 0 8, simplified] le [of 20 4 0 8, simplified]
    le [of 16 4 8 8, simplified] le [of 20 4 8 8, simplified] le [of 20 4 16 4, simplified]
  show ?thesis
    using assms(1)
    by (simp add: e820_entry_at_def store_e820_entry_def convert_efi_def Let_def e820_abi_ok_def
        efi_phys_addr_def efi_num_pages_def efi_type_def simps)
qed

section \<open>The filled table\<close>

definition e820_slot :: "addr \<Rightarrow> nat \<Rightarrow> addr" where "e820_slot e820 k = e820 + (4 + of_nat (24 * k))"
definition efi_slot :: "addr \<Rightarrow> nat \<Rightarrow> addr" where "efi_slot d k = d + of_nat (48 * k)"

lemma unat_slots:
  "k < 2 ^ 30 \<Longrightarrow> unat (4 + of_nat (24 * k) :: addr) = 4 + 24 * k"
  "k < 2 ^ 30 \<Longrightarrow> unat (of_nat (48 * k) :: addr) = 48 * k"
  by (simp_all add: unat_add64 unat_of_nat64 del: of_nat_mult)

lemma convert_efi_cong:
  assumes "\<And>x. in_range d 40 x \<Longrightarrow> m x = m' x"
  shows "convert_efi m d = convert_efi m' d"
proof -
  have "load_le n m (d + v) = load_le n m' (d + v)" if "unat v + n \<le> 40" for v n
    using that assms in_range_sub [of d v n _ 40] by (intro load_le_cong) auto
  note eqs = this [of 0 4, simplified] this [of 8 8, simplified] this [of 24 8, simplified]
  show ?thesis by (simp add: convert_efi_def efi_phys_addr_def efi_num_pages_def efi_type_def eqs)
qed

lemma e820_entry_at_cong:
  assumes "e820_abi_ok A" and "\<And>x. in_range e 24 x \<Longrightarrow> m x = m' x"
  shows "e820_entry_at A m e = e820_entry_at A m' e"
proof -
  have "load_le n m (e + v) = load_le n m' (e + v)" if "unat v + n \<le> 24" for v n
    using that assms(2) in_range_sub [of e v n _ 24] by (intro load_le_cong) auto
  note eqs = this [of 0 8, simplified] this [of 8 8, simplified] this [of 16 4, simplified]
  show ?thesis using assms(1) by (simp add: e820_entry_at_def e820_abi_ok_def eqs)
qed

lemma store_e820_entry_frame:
  assumes "e820_abi_ok A" and "disjoint_ranges e 24 y n" and "in_range y n x"
  shows "store_e820_entry A m e d x = m x"
  using assms by (intro store_e820_entry_outside) (auto dest: disjoint_ranges_not_both)

lemma slots_apart:
  assumes "disjoint_ranges e820 (4 + 24 * N) d (48 * N)" and "i < N" and "j < N" and "N < 2 ^ 30"
  shows "disjoint_ranges (e820_slot e820 i) 24 (efi_slot d j) 40"
proof -
  have "disjoint_ranges e820 (4 + 24 * N) (efi_slot d j) 40"
    unfolding efi_slot_def using assms by (intro disjoint_ranges_sub [OF assms(1)])
      (simp_all add: unat_slots(2) del: of_nat_mult)
  then have "disjoint_ranges (efi_slot d j) 40 e820 (4 + 24 * N)" by (simp add: disjoint_ranges_sym)
  then have "disjoint_ranges (efi_slot d j) 40 (e820_slot e820 i) 24"
    unfolding e820_slot_def using assms
    by (elim disjoint_ranges_sub) (simp_all add: unat_slots(1) del: of_nat_mult)
  then show ?thesis by (simp add: disjoint_ranges_sym)
qed

lemma slots_distinct:
  assumes "i \<noteq> j" and "i < 2 ^ 30" and "j < 2 ^ 30"
  shows "disjoint_ranges (e820_slot e820 i) 24 (e820_slot e820 j) 24"
proof -
  have "i < j \<or> j < i" using assms(1) by linarith
  then show ?thesis
    unfolding e820_slot_def using assms
    by (intro fields_disjoint) (auto simp: unat_slots(1) simp del: of_nat_mult)
qed

lemma fill_e820_step:
  assumes "e820_abi_ok A" and "48 * k < 2 ^ 32"
  shows "fill_e820 A e820 d (Suc n) (of_nat k) m =
     fill_e820 A e820 d n (of_nat (Suc k)) (store_e820_entry A m (e820_slot e820 k) (efi_slot d k))"
proof -
  have "unat (of_nat k :: u32) = k" "unat (48 * of_nat k :: u32) = 48 * k"
    using assms(2) by (simp_all add: unat_of_nat unat_word_ariths take_bit_eq_mod)
  then have "ucast (of_nat k :: u32) = (of_nat k :: addr)"
    "ucast (48 * of_nat k :: u32) = (of_nat (48 * k) :: addr)"
    by (metis of_nat_unat)+
  then show ?thesis
    using assms(1) by (simp add: e820_abi_ok_def EFI_DESC_SIZE_def e820_slot_def efi_slot_def
        add.commute mult.commute add.assoc)
qed

lemma fill_e820_result:
  assumes A: "e820_abi_ok A" and apart: "disjoint_ranges e820 (4 + 24 * N) d (48 * N)"
    and N: "48 * N < 2 ^ 32"
  shows "k + n = N \<Longrightarrow>
    (\<forall>x. (\<forall>j. k \<le> j \<and> j < N \<longrightarrow> \<not> in_range (e820_slot e820 j) 24 x) \<longrightarrow>
         fill_e820 A e820 d n (of_nat k) m x = m x) \<and>
    (\<forall>j. k \<le> j \<and> j < N \<longrightarrow>
         e820_entry_at A (fill_e820 A e820 d n (of_nat k) m) (e820_slot e820 j) = convert_efi m (efi_slot d j))"
proof (induction n arbitrary: k m)
  case 0
  then show ?case by auto
next
  case (Suc n)
  let ?m = "store_e820_entry A m (e820_slot e820 k) (efi_slot d k)"
  have k: "k < N" "48 * k < 2 ^ 32" and N30: "N < 2 ^ 30" using Suc.prems N by simp_all
  note step = fill_e820_step [OF A k(2), of e820 d n m]
  let ?r = "fill_e820 A e820 d n (of_nat (Suc k)) ?m"
  have IH: "\<And>x. (\<forall>j. Suc k \<le> j \<and> j < N \<longrightarrow> \<not> in_range (e820_slot e820 j) 24 x) \<Longrightarrow> ?r x = ?m x"
    "\<And>j. Suc k \<le> j \<Longrightarrow> j < N \<Longrightarrow>
        e820_entry_at A ?r (e820_slot e820 j) = convert_efi ?m (efi_slot d j)"
    using Suc.IH [of "Suc k" ?m] Suc.prems by simp_all
  have own: "?r x = ?m x" if "in_range (e820_slot e820 k) 24 x" for x
  proof (rule IH(1), intro allI impI)
    fix j assume "Suc k \<le> j \<and> j < N"
    then have "disjoint_ranges (e820_slot e820 k) 24 (e820_slot e820 j) 24"
      using k N30 by (intro slots_distinct) simp_all
    with that show "\<not> in_range (e820_slot e820 j) 24 x" by (meson disjoint_ranges_not_both)
  qed
  have "e820_entry_at A ?r (e820_slot e820 j) = convert_efi m (efi_slot d j)" if "k \<le> j" "j < N" for j
  proof (cases "j = k")
    case True
    have "e820_entry_at A ?r (e820_slot e820 k) = e820_entry_at A ?m (e820_slot e820 k)"
      using own by (intro e820_entry_at_cong [OF A])
    also have "\<dots> = convert_efi m (efi_slot d k)"
      using slots_apart [OF apart k(1) k(1) N30] by (rule store_e820_entry_fields [OF A])
    finally show ?thesis by (simp add: True)
  next
    case False
    have "convert_efi ?m (efi_slot d j) = convert_efi m (efi_slot d j)"
      using slots_apart [OF apart k(1) that(2) N30]
      by (intro convert_efi_cong store_e820_entry_frame [OF A])
    with IH(2) [of j] False that show ?thesis by simp
  qed
  moreover have "?r x = m x" if "\<forall>j. k \<le> j \<and> j < N \<longrightarrow> \<not> in_range (e820_slot e820 j) 24 x" for x
    using that k IH(1) [of x] by (simp add: store_e820_entry_outside [OF A])
  ultimately show ?case unfolding step by blast
qed

lemma convert_efi_zero_mem:
  assumes "disjoint_ranges p (unat n) d 40"
  shows "convert_efi (zero_mem m p n) d = convert_efi m d"
  using assms by (intro convert_efi_cong) (auto simp: zero_mem_apply dest: disjoint_ranges_not_both)

lemma get_e820_table_from_ibh_Some:
  assumes "get_e820_table_from_ibh A af align4k m h xd = (Some e820, h', m')"
  shows "let p = st_rbx (xd_initial_state xd); sz = pi_memmap_size m p in
     e820 \<noteq> 0 \<and>
     m' = store32 (fill_e820 A e820 (ucast (pi_memmap_addr m p)) (unat (sz div EFI_DESC_SIZE)) 0
                     (zero_mem m e820 (align4k sz)))
            (e820 + map_size_off A) (sz div EFI_DESC_SIZE * ucast (entry_size A))"
  using assms by (auto simp: get_e820_table_from_ibh_def allocate_memory_def Let_def split: if_splits)

text \<open>The macro \<open>PAGE_ALIGN_4K\<close> gives at least what it is given.\<close>

definition rounds_up4k :: "(u32 \<Rightarrow> u64) \<Rightarrow> bool" where
  "rounds_up4k al \<longleftrightarrow> (\<forall>x. unat x \<le> unat (al x) \<and> unat (al x) mod 4096 = 0)"

text \<open>
  C22: The table that \<open>get_e820_table_from_ibh\<close> returns has one entry per EFI descriptor, in order,
  each the conversion of its descriptor (base, length in bytes, mapped type), and its size field is
  the number of descriptors times the entry size. The table lies inside the block the heap handed
  out as soon as the map holds at least one descriptor.
\<close>

theorem get_e820_table_from_ibh_entries:
  assumes "e820_abi_ok A" and "rounds_up4k align4k"
    and run: "get_e820_table_from_ibh A af align4k m h xd = (Some e820, h', m')"
    and p: "p = st_rbx (xd_initial_state xd)"
    and N: "N = unat (pi_memmap_size m p) div 48" "0 < N"
    and d: "d = ucast (pi_memmap_addr m p)"
    and apart: "disjoint_ranges e820 (unat (align4k (pi_memmap_size m p))) d (48 * N)"
  shows "load32 m' e820 = of_nat (24 * N) \<and>
         (\<forall>j < N. e820_entry_at A m' (e820_slot e820 j) = convert_efi m (efi_slot d j) \<and>
           (\<forall>x. in_range (e820_slot e820 j) 24 x \<longrightarrow>
                in_range e820 (unat (align4k (pi_memmap_size m p))) x))"
proof -
  let ?sz = "pi_memmap_size m p"
  let ?L = "unat (align4k ?sz)"
  let ?m0 = "zero_mem m e820 (align4k ?sz)"
  let ?m1 = "fill_e820 A e820 d N 0 ?m0"
  have A: "map_size_off A = 0" "entry_size A = 24" using assms(1) by (simp_all add: e820_abi_ok_def)
  have count: "unat (?sz div EFI_DESC_SIZE) = N" by (simp add: N EFI_DESC_SIZE_def unat_div)
  have count32: "(?sz div EFI_DESC_SIZE) * 24 = of_nat (24 * N)"
  proof -
    have "?sz div EFI_DESC_SIZE = of_nat (unat (?sz div EFI_DESC_SIZE))" by simp
    then show ?thesis unfolding count by (simp add: mult.commute)
  qed
  have "e820 \<noteq> 0" and m': "m' = store32 ?m1 e820 (of_nat (24 * N))"
    using get_e820_table_from_ibh_Some [OF run, folded p] by (simp_all add: Let_def count A count32 d)
  have len: "48 * N \<le> unat ?sz" "unat ?sz \<le> ?L" using N assms(2) by (simp_all add: rounds_up4k_def)
  then have N32: "48 * N < 2 ^ 32" using unat_less32 [of ?sz] by linarith
  have fit: "4 + 24 * N \<le> ?L" using len N(2) by linarith
  have apart': "disjoint_ranges e820 (4 + 24 * N) d (48 * N)"
    using disjoint_ranges_sub [OF apart fit, of 0 "48 * N"] N32 by simp
  note res = fill_e820_result [OF assms(1) apart' N32, of 0 N ?m0, simplified]
  have "e820_entry_at A m' (e820_slot e820 j) = convert_efi m (efi_slot d j)" if j: "j < N" for j
  proof -
    have "disjoint_ranges (e820 + 0) 4 (e820_slot e820 j) 24"
      unfolding e820_slot_def using j N32
      by (intro fields_disjoint) (simp_all add: unat_slots(1) del: of_nat_mult)
    then have "m' x = ?m1 x" if "in_range (e820_slot e820 j) 24 x" for x
      using that by (auto simp: m' store_le_apply dest: disjoint_ranges_not_both)
    then have "e820_entry_at A m' (e820_slot e820 j) = e820_entry_at A ?m1 (e820_slot e820 j)"
      by (intro e820_entry_at_cong [OF assms(1)])
    also have "\<dots> = convert_efi ?m0 (efi_slot d j)" using res j by simp
    also have "\<dots> = convert_efi m (efi_slot d j)"
      unfolding efi_slot_def using j N32
      by (intro convert_efi_zero_mem disjoint_ranges_sub [OF apart])
        (simp_all add: unat_slots(2) del: of_nat_mult)
    finally show ?thesis .
  qed
  moreover have "in_range e820 ?L x" if "j < N" "in_range (e820_slot e820 j) 24 x" for j x
    using that(2) unfolding e820_slot_def
    by (rule in_range_sub) (use that(1) N32 fit in
        \<open>simp_all add: unat_slots(1) del: of_nat_mult\<close>)
  ultimately show ?thesis by (simp add: m')
qed

definition align4k_mask :: "u32 \<Rightarrow> u64" where
  "align4k_mask x = (ucast x + 4095) AND NOT (mask 12)"

lemma align4k_mask_law: "rounds_up4k align4k_mask"
proof -
  have "unat (ucast x + 4095 :: u64) = unat x + 4095" for x :: u32
    using unat_current_plus [of 4095 x] by simp
  then have "unat (align4k_mask x) = (unat x + 4095) div 4096 * 4096" for x
    by (simp add: align4k_mask_def unat_and_not_mask)
  then show ?thesis using page_round_up by (simp add: rounds_up4k_def)
qed

definition demo_map :: mem where
  "demo_map = store64 (store32 (store32 (\<lambda>_. 0) 0x1000 0x5000) 0x1004 48) 0x5018 3"

definition demo_state :: xmon_desc where
  "demo_state = zero_desc\<lparr>xd_initial_state := (xd_initial_state zero_desc)\<lparr>st_rbx := 0x1000\<rparr>\<rparr>"

lemma demo_map_fields: "pi_memmap_addr demo_map 0x1000 = 0x5000" "pi_memmap_size demo_map 0x1000 = 48"
proof -
  have "disjoint_ranges a n b k" if "unat a + n \<le> unat b \<or> unat b + k \<le> unat a"
    "unat a + n < 2 ^ 64" "unat b + k < 2 ^ 64" for a b n k
    using fields_disjoint [of a n b k 0] that by simp
  note d = load_store_disjoint [OF this]
  show "pi_memmap_addr demo_map 0x1000 = 0x5000" "pi_memmap_size demo_map 0x1000 = 48"
    by (simp_all add: pi_memmap_addr_def pi_memmap_size_def demo_map_def d)
qed

theorem get_e820_table_from_ibh_entries_witness:
  "\<exists>h' m'. get_e820_table_from_ibh std_e820 align_forward_macro align4k_mask demo_map
        (initialize_memory_manager 0x100000 0x10000) demo_state = (Some 0x100000, h', m') \<and>
      load32 m' 0x100000 = 24 \<and>
      e820_entry_at std_e820 m' (e820_slot 0x100000 0) = convert_efi demo_map (efi_slot 0x5000 0)"
proof -
  let ?h = "initialize_memory_manager 0x100000 0x10000"
  let ?g = "get_e820_table_from_ibh std_e820 align_forward_macro align4k_mask demo_map ?h demo_state"
  have rbx: "st_rbx (xd_initial_state demo_state) = 0x1000" by (simp add: demo_state_def)
  have size: "align4k_mask 48 = 0x1000" by (simp add: align4k_mask_def mask_eq_exp_minus_1)
  obtain h' m' where run: "?g = (Some 0x100000, h', m')"
    by (simp add: get_e820_table_from_ibh_def rbx demo_map_fields size allocate_memory_def
        initialize_memory_manager_def align_forward_macro_def MEM_ALLOCATE_ALIGNMENT_def Let_def)
  have "disjoint_ranges 0x100000 4096 0x5000 48" by (simp add: disjoint_ranges_def)
  then have "load32 m' 0x100000 = of_nat (24 * 1) \<and>
       (\<forall>j < 1. e820_entry_at std_e820 m' (e820_slot 0x100000 j) = convert_efi demo_map (efi_slot 0x5000 j) \<and>
          (\<forall>x. in_range (e820_slot 0x100000 j) 24 x \<longrightarrow>
             in_range 0x100000 (unat (align4k_mask (pi_memmap_size demo_map 0x1000))) x))"
    using size by (intro get_e820_table_from_ibh_entries [OF std_e820_ok align4k_mask_law run rbx [symmetric]])
      (simp_all add: demo_map_fields)
  with run show ?thesis by simp
qed

end
