(* ===== verification/Polling.thy ===== *)
theory Polling
  imports Main
begin

text \<open>
  The contract of a polling loop: it looks at the state, and either ends with a result or goes on
  with the next state. The serial port's wait for its transmitter, the wait for the status of the interrupt
  command register and the wait for the ready counter are instances.
\<close>

locale polling =
  fixes loop :: "'s \<Rightarrow> 'r option"
    and ready :: "'s \<Rightarrow> bool"
    and result :: "'s \<Rightarrow> 'r"
    and again :: "'s \<Rightarrow> 's"
  assumes unfold: "loop s = (if ready s then Some (result s) else loop (again s))"
begin

text \<open>The loop ends in the first ready state that it comes to.\<close>

lemma first_ready:
  assumes "ready ((again ^^ k) s)"
  shows "\<exists>j \<le> k. ready ((again ^^ j) s) \<and> (\<forall>i < j. \<not> ready ((again ^^ i) s)) \<and>
           loop s = Some (result ((again ^^ j) s))"
  using assms
proof (induction k arbitrary: s)
  case 0
  then show ?case by (simp add: unfold)
next
  case (Suc k)
  show ?case
  proof (cases "ready s")
    case True
    then show ?thesis by (intro exI [of _ 0]) (simp add: unfold)
  next
    case False
    have "ready ((again ^^ k) (again s))" using Suc.prems by (simp add: funpow_swap1)
    from Suc.IH [OF this] obtain j where j: "j \<le> k" "ready ((again ^^ j) (again s))"
      "\<forall>i < j. \<not> ready ((again ^^ i) (again s))" "loop (again s) = Some (result ((again ^^ j) (again s)))"
      by blast
    have "\<not> ready ((again ^^ i) s)" if "i < Suc j" for i
      using that j(3) False by (cases i) (simp_all add: funpow_swap1)
    then show ?thesis
      using j(1,2,4) False by (intro exI [of _ "Suc j"]) (simp add: funpow_swap1 unfold [of s])
  qed
qed

text \<open>What holds of a step that is not ready, and is closed under going on, relates start and end.\<close>

lemma returns:
  assumes "ready ((again ^^ k) s)" and "P s"
    and "\<And>s. P s \<Longrightarrow> \<not> ready s \<Longrightarrow> P (again s)"
  shows "\<exists>t. loop s = Some (result t) \<and> ready t \<and> P t"
proof -
  from first_ready [OF assms(1)] obtain j where j: "ready ((again ^^ j) s)"
    "\<forall>i < j. \<not> ready ((again ^^ i) s)" "loop s = Some (result ((again ^^ j) s))" by blast
  have "i \<le> j \<Longrightarrow> P ((again ^^ i) s)" for i
    by (induction i) (use assms(2,3) j(2) in auto)
  with j show ?thesis by blast
qed

end

end
