(* ===== verification/Serial.thy ===== *)
theory Serial
  imports C_Strings Polling
begin

text \<open>
  The debug port, \<open>pre_os/common/loader_serial/loader_serial.c\<close>: the initialisation of a 16550 UART
  and the output of characters, strings and hexadecimal numbers. The state is the static variable
  \<open>debug_port\<close>, the trace of port writes and the number of line status reads; what the device
  answers to the i-th of those reads is the argument \<open>lsr\<close>. A small model of the UART's registers
  gives the traces their meaning.
\<close>

section \<open>Registers\<close>

definition UART_REGISTER_THR :: u16 where "UART_REGISTER_THR = 0"
definition UART_REGISTER_DLL :: u16 where "UART_REGISTER_DLL = 0"
definition UART_REGISTER_DLM :: u16 where "UART_REGISTER_DLM = 1"
definition UART_REGISTER_IER :: u16 where "UART_REGISTER_IER = 1"
definition UART_REGISTER_FCR :: u16 where "UART_REGISTER_FCR = 2"
definition UART_REGISTER_LCR :: u16 where "UART_REGISTER_LCR = 3"
definition UART_REGISTER_MCR :: u16 where "UART_REGISTER_MCR = 4"
definition UART_REGISTER_LSR :: u16 where "UART_REGISTER_LSR = 5"
definition UART_REGISTER_SCR :: u16 where "UART_REGISTER_SCR = 7"

text \<open>The bit field unions: the fields from the lowest bit up, and the byte \<open>data\<close>.\<close>

definition pack_bits :: "(nat \<times> u8) list \<Rightarrow> u8" where
  "pack_bits fields = fst (foldl (\<lambda>(w, n) (width, v). (w OR push_bit n (take_bit width v), n + width)) (0, 0) fields)"

record uart_ier =
  ier_ravie :: u8
  ier_theie :: u8
  ier_rie :: u8
  ier_mie :: u8
  ier_reserved :: u8

definition ier_data :: "uart_ier \<Rightarrow> u8" where
  "ier_data b = pack_bits [(1, ier_ravie b), (1, ier_theie b), (1, ier_rie b), (1, ier_mie b), (4, ier_reserved b)]"

record uart_fcr =
  fcr_trfifoe :: u8
  fcr_resetrf :: u8
  fcr_resettf :: u8
  fcr_dms :: u8
  fcr_reserved :: u8
  fcr_rtb :: u8

definition fcr_data :: "uart_fcr \<Rightarrow> u8" where
  "fcr_data b = pack_bits [(1, fcr_trfifoe b), (1, fcr_resetrf b), (1, fcr_resettf b), (1, fcr_dms b),
     (2, fcr_reserved b), (2, fcr_rtb b)]"

record uart_lcr =
  lcr_serialdb :: u8
  lcr_stopb :: u8
  lcr_paren :: u8
  lcr_evenpar :: u8
  lcr_sticpar :: u8
  lcr_brcon :: u8
  lcr_dlab :: u8

definition lcr_data :: "uart_lcr \<Rightarrow> u8" where
  "lcr_data b = pack_bits [(2, lcr_serialdb b), (1, lcr_stopb b), (1, lcr_paren b), (1, lcr_evenpar b),
     (1, lcr_sticpar b), (1, lcr_brcon b), (1, lcr_dlab b)]"

record uart_mcr =
  mcr_dtrc :: u8
  mcr_rts :: u8
  mcr_out1 :: u8
  mcr_out2 :: u8
  mcr_lme :: u8
  mcr_reserved :: u8

definition mcr_data :: "uart_mcr \<Rightarrow> u8" where
  "mcr_data b = pack_bits [(1, mcr_dtrc b), (1, mcr_rts b), (1, mcr_out1 b), (1, mcr_out2 b), (1, mcr_lme b),
     (3, mcr_reserved b)]"

text \<open>The bit \<open>thre\<close> of \<open>uart_lsr_t\<close>.\<close>

definition lsr_thre :: "u8 \<Rightarrow> bool" where "lsr_thre data \<longleftrightarrow> bit data 5"

section \<open>State and operations\<close>

record serial =
  debug_port :: u16
  port_writes :: "(u16 \<times> u8) list"
  lsr_reads :: nat

definition hw_write_port_8 :: "u16 \<Rightarrow> u8 \<Rightarrow> serial \<Rightarrow> serial" where
  "hw_write_port_8 port val8 s = s\<lparr>port_writes := port_writes s @ [(port, val8)]\<rparr>"

definition hw_read_lsr :: "(nat \<Rightarrow> u8) \<Rightarrow> serial \<Rightarrow> u8 \<times> serial" where
  "hw_read_lsr lsr s = (lsr (lsr_reads s), s\<lparr>lsr_reads := lsr_reads s + 1\<rparr>)"

definition write_reg :: "u16 \<Rightarrow> u8 \<Rightarrow> serial \<Rightarrow> serial" where
  "write_reg reg v s = hw_write_port_8 (debug_port s + reg) v s"

definition loader_serial_init :: "u16 \<Rightarrow> serial \<Rightarrow> serial" where
  "loader_serial_init io_base s =
     (if io_base = 0 then s
      else
        let s = s\<lparr>debug_port := io_base\<rparr>;
            mcr = \<lparr>mcr_dtrc = 0, mcr_rts = 0, mcr_out1 = 0, mcr_out2 = 0, mcr_lme = 0, mcr_reserved = 0\<rparr>;
            s = write_reg UART_REGISTER_MCR (mcr_data mcr) s;
            lcr = \<lparr>lcr_serialdb = 0x03, lcr_stopb = 0, lcr_paren = 0, lcr_evenpar = 0, lcr_sticpar = 0,
                   lcr_brcon = 0, lcr_dlab = 0\<rparr>;
            s = write_reg UART_REGISTER_LCR (lcr_data lcr) s;
            ier = \<lparr>ier_ravie = 0, ier_theie = 0, ier_rie = 0, ier_mie = 0, ier_reserved = 0\<rparr>;
            s = write_reg UART_REGISTER_IER (ier_data ier) s;
            fcr = \<lparr>fcr_trfifoe = 0, fcr_resetrf = 0, fcr_resettf = 0, fcr_dms = 0, fcr_reserved = 0,
                   fcr_rtb = 0\<rparr>;
            s = write_reg UART_REGISTER_FCR (fcr_data fcr) s;
            s = write_reg UART_REGISTER_SCR 0x00 s;
            lcr = lcr\<lparr>lcr_dlab := 1\<rparr>;
            s = write_reg UART_REGISTER_LCR (lcr_data lcr) s;
            s = write_reg UART_REGISTER_DLL 0x01 s;
            s = write_reg UART_REGISTER_DLM 0x00 s;
            lcr = lcr\<lparr>lcr_dlab := 0\<rparr>;
            s = write_reg UART_REGISTER_LCR (lcr_data lcr) s;
            fcr = fcr\<lparr>fcr_trfifoe := 1, fcr_resetrf := 1, fcr_resettf := 1\<rparr>;
            s = write_reg UART_REGISTER_FCR (fcr_data fcr) s;
            mcr = mcr\<lparr>mcr_dtrc := 1, mcr_rts := 1\<rparr>
        in write_reg UART_REGISTER_MCR (mcr_data mcr) s)"

partial_function (option) wait_thre :: "(nat \<Rightarrow> u8) \<Rightarrow> serial \<Rightarrow> serial option" where
  "wait_thre lsr s =
     (let (data, s) = hw_read_lsr lsr s in if lsr_thre data then Some s else wait_thre lsr s)"

definition loader_serial_putc :: "(nat \<Rightarrow> u8) \<Rightarrow> u8 \<Rightarrow> serial \<Rightarrow> (u8 \<times> serial) option" where
  "loader_serial_putc lsr c s =
     (if debug_port s = 0 then Some (0, s)
      else map_option (\<lambda>s. (c, s)) (wait_thre lsr (write_reg UART_REGISTER_THR c s)))"

text \<open>A string is read by index, as the code does: \<open>str i\<close> is the byte \<open>s[i]\<close>.\<close>

partial_function (option) puts_loop :: "(nat \<Rightarrow> u8) \<Rightarrow> (u32 \<Rightarrow> u8) \<Rightarrow> u32 \<Rightarrow> serial \<Rightarrow> serial option" where
  "puts_loop lsr str i s =
     (if str i = 0 then Some s
      else Option.bind (loader_serial_putc lsr (str i) s) (\<lambda>(_, s). puts_loop lsr str (i + 1) s))"

definition loader_serial_puts :: "(nat \<Rightarrow> u8) \<Rightarrow> (u32 \<Rightarrow> u8) \<Rightarrow> serial \<Rightarrow> serial option" where
  "loader_serial_puts lsr str s = (if debug_port s = 0 then Some s else puts_loop lsr str 0 s)"

definition convert_to_hex_char :: "u8 \<Rightarrow> u8" where
  "convert_to_hex_char c =
     (let c = c AND 0x0f in if 10 \<le> c then 0x61 + c - 10 else 0x30 + c)"

text \<open>The first loop: the characters and the index of the highest digit that is not zero.\<close>

primrec hex_chars :: "nat \<Rightarrow> nat \<Rightarrow> u32 \<Rightarrow> nat \<Rightarrow> u8 list \<Rightarrow> u8 list \<times> nat" where
  "hex_chars 0 i hex highest ch = (ch, highest)"
| "hex_chars (Suc n) i hex highest ch =
     (let c = ucast (hex AND 0xf) :: u8
      in hex_chars n (i + 1) (drop_bit 4 hex) (if c \<noteq> 0 then i else highest)
           (ch[i := convert_to_hex_char c]))"

primrec put_down :: "(nat \<Rightarrow> u8) \<Rightarrow> u8 list \<Rightarrow> nat \<Rightarrow> serial \<Rightarrow> serial option" where
  "put_down lsr ch 0 s = Some s"
| "put_down lsr ch (Suc i) s = Option.bind (loader_serial_putc lsr (ch ! i) s) (\<lambda>(_, s). put_down lsr ch i s)"

definition literal :: "u8 list \<Rightarrow> u32 \<Rightarrow> u8" where
  "literal cs i = (cs @ [0]) ! unat i"

definition loader_serial_put_hex :: "(nat \<Rightarrow> u8) \<Rightarrow> u32 \<Rightarrow> bool \<Rightarrow> serial \<Rightarrow> serial option" where
  "loader_serial_put_hex lsr hex need_prefix s =
     (if debug_port s = 0 then Some s
      else
        let (ch, highest_valid_bit) = hex_chars 8 0 hex 0 (replicate 8 0)
        in Option.bind (loader_serial_puts lsr (literal [0x30, 0x78]) s) (\<lambda>s.
             let highest_valid_bit = if need_prefix then 7 else highest_valid_bit
             in put_down lsr ch (highest_valid_bit + 1) s))"

section \<open>What the UART makes of the writes\<close>

text \<open>The registers of the device; with the divisor latch bit set, registers 0 and 1 are the divisor.\<close>

record uart =
  u_sent :: "u8 list"
  u_dll :: u8
  u_dlm :: u8
  u_ier :: u8
  u_fcr :: u8
  u_lcr :: u8
  u_mcr :: u8
  u_scr :: u8

definition uart_write :: "u16 \<Rightarrow> uart \<Rightarrow> u16 \<times> u8 \<Rightarrow> uart" where
  "uart_write base u w =
     (let reg = fst w - base; v = snd w; dlab = bit (u_lcr u) 7 in
      if reg = 0 then if dlab then u\<lparr>u_dll := v\<rparr> else u\<lparr>u_sent := u_sent u @ [v]\<rparr>
      else if reg = 1 then if dlab then u\<lparr>u_dlm := v\<rparr> else u\<lparr>u_ier := v\<rparr>
      else if reg = 2 then u\<lparr>u_fcr := v\<rparr>
      else if reg = 3 then u\<lparr>u_lcr := v\<rparr>
      else if reg = 4 then u\<lparr>u_mcr := v\<rparr>
      else if reg = 7 then u\<lparr>u_scr := v\<rparr>
      else u)"

definition uart_after :: "u16 \<Rightarrow> uart \<Rightarrow> (u16 \<times> u8) list \<Rightarrow> uart" where
  "uart_after base = foldl (uart_write base)"

definition init_writes :: "u16 \<Rightarrow> (u16 \<times> u8) list" where
  "init_writes base = map (\<lambda>(r, v). (base + r, v))
     [(4, 0), (3, 3), (1, 0), (2, 0), (7, 0), (3, 0x83), (0, 1), (1, 0), (3, 3), (2, 7), (4, 3)]"

lemmas uart_registers = UART_REGISTER_THR_def UART_REGISTER_DLL_def UART_REGISTER_DLM_def
  UART_REGISTER_IER_def UART_REGISTER_FCR_def UART_REGISTER_LCR_def UART_REGISTER_MCR_def
  UART_REGISTER_LSR_def UART_REGISTER_SCR_def

lemma pack_demo:
  "pack_bits [(1, 0), (1, 0), (1, 0), (1, 0), (4, 0)] = 0"
  "pack_bits [(1, 0), (1, 0), (1, 0), (1, 0), (2, 0), (2, 0)] = 0"
  "pack_bits [(1, 1), (1, 1), (1, 1), (1, 0), (2, 0), (2, 0)] = 7"
  "pack_bits [(2, 3), (1, 0), (1, 0), (1, 0), (1, 0), (1, 0), (1, 0)] = 3"
  "pack_bits [(2, 3), (1, 0), (1, 0), (1, 0), (1, 0), (1, 0), (1, 1)] = 0x83"
  "pack_bits [(1, 0), (1, 0), (1, 0), (1, 0), (1, 0), (3, 0)] = 0"
  "pack_bits [(1, 1), (1, 1), (1, 0), (1, 0), (1, 0), (3, 0)] = 3"
  by code_simp+

lemma loader_serial_init_writes:
  "io_base \<noteq> 0 \<Longrightarrow> loader_serial_init io_base s =
     s\<lparr>debug_port := io_base, port_writes := port_writes s @ init_writes io_base\<rparr>"
  by (simp add: loader_serial_init_def write_reg_def hw_write_port_8_def mcr_data_def lcr_data_def ier_data_def
      fcr_data_def pack_demo uart_registers init_writes_def Let_def del: One_nat_def)

text \<open>
  C29: The initialisation leaves a UART in any state with divisor 1 (115200 baud), 8 data bits, no
  parity and one stop bit, the divisor latch closed, the FIFOs enabled, the interrupts off and DTR
  and RTS set, and it transmits nothing; without a port it does nothing.
\<close>

theorem loader_serial_init_uart:
  "(io_base = 0 \<longrightarrow> loader_serial_init io_base s = s) \<and>
   (io_base \<noteq> 0 \<longrightarrow> (\<exists>ws. loader_serial_init io_base s =
        s\<lparr>debug_port := io_base, port_writes := port_writes s @ ws\<rparr> \<and>
      uart_after io_base u ws =
        u\<lparr>u_dll := 1, u_dlm := 0, u_ier := 0, u_fcr := 7, u_lcr := 3, u_mcr := 3, u_scr := 0\<rparr>))"
proof -
  have "uart_after io_base u (init_writes io_base) =
      u\<lparr>u_dll := 1, u_dlm := 0, u_ier := 0, u_fcr := 7, u_lcr := 3, u_mcr := 3, u_scr := 0\<rparr>"
    by (simp add: uart_after_def init_writes_def uart_write_def Let_def bit_numeral_rec)
  moreover have "loader_serial_init 0 s = s" by (simp add: loader_serial_init_def)
  ultimately show ?thesis using loader_serial_init_writes by blast
qed

theorem loader_serial_init_uart_witness:
  "\<exists>ws. loader_serial_init 0x3F8 \<lparr>debug_port = 0, port_writes = [], lsr_reads = 0\<rparr> =
       \<lparr>debug_port = 0x3F8, port_writes = ws, lsr_reads = 0\<rparr> \<and>
     u_sent (uart_after 0x3F8 \<lparr>u_sent = [], u_dll = 9, u_dlm = 9, u_ier = 9, u_fcr = 9, u_lcr = 0xFF,
       u_mcr = 9, u_scr = 9\<rparr> ws) = []"
  using loader_serial_init_uart [of "0x3F8" "\<lparr>debug_port = 0, port_writes = [], lsr_reads = 0\<rparr>"
      "\<lparr>u_sent = [], u_dll = 9, u_dlm = 9, u_ier = 9, u_fcr = 9, u_lcr = 0xFF, u_mcr = 9, u_scr = 9\<rparr>"]
  by auto

section \<open>Output\<close>

text \<open>A device that gets ready again and again.\<close>

definition responsive :: "(nat \<Rightarrow> u8) \<Rightarrow> bool" where
  "responsive lsr \<longleftrightarrow> (\<forall>n. \<exists>k \<ge> n. lsr_thre (lsr k))"

lemma wait_thre_step:
  "wait_thre lsr s =
     (if lsr_thre (lsr (lsr_reads s)) then Some (s\<lparr>lsr_reads := lsr_reads s + 1\<rparr>)
      else wait_thre lsr (s\<lparr>lsr_reads := lsr_reads s + 1\<rparr>))"
  by (subst wait_thre.simps) (simp add: hw_read_lsr_def)

definition lsr_again :: "serial \<Rightarrow> serial" where "lsr_again s = s\<lparr>lsr_reads := lsr_reads s + 1\<rparr>"

lemma lsr_again_pow: "(lsr_again ^^ k) s = s\<lparr>lsr_reads := lsr_reads s + k\<rparr>"
  by (induction k) (simp_all add: lsr_again_def)

interpretation thre: polling "wait_thre lsr" "\<lambda>s. lsr_thre (lsr (lsr_reads s))" lsr_again lsr_again
  for lsr :: "nat \<Rightarrow> u8"
  by unfold_locales (subst wait_thre_step, simp add: lsr_again_def)

lemma wait_thre_ready:
  assumes "lsr_thre (lsr k)" and "lsr_reads s \<le> k"
  shows "\<exists>n. wait_thre lsr s = Some (s\<lparr>lsr_reads := n\<rparr>)"
proof -
  from assms have "lsr_thre (lsr (lsr_reads ((lsr_again ^^ (k - lsr_reads s)) s)))"
    by (simp add: lsr_again_pow)
  from thre.first_ready [of lsr, OF this] show ?thesis by (auto simp: lsr_again_pow lsr_again_def)
qed

lemma putc_ready:
  assumes "responsive lsr" and "debug_port s \<noteq> 0"
  shows "\<exists>n. loader_serial_putc lsr c s =
     Some (c, s\<lparr>port_writes := port_writes s @ [(debug_port s, c)], lsr_reads := n\<rparr>)"
proof -
  let ?s = "write_reg UART_REGISTER_THR c s"
  obtain k where k: "lsr_thre (lsr k)" "lsr_reads ?s \<le> k" using assms(1) unfolding responsive_def by blast
  show ?thesis
    using wait_thre_ready [of lsr k ?s] k assms(2) by (auto simp: loader_serial_putc_def write_reg_def hw_write_port_8_def uart_registers)
qed

text \<open>\<open>sends s cs s'\<close>: from \<open>s\<close> the transmitter was given the characters \<open>cs\<close>, leaving \<open>s'\<close>.\<close>

definition sends :: "serial \<Rightarrow> u8 list \<Rightarrow> serial \<Rightarrow> bool" where
  "sends s cs s' \<longleftrightarrow> debug_port s' = debug_port s \<and>
     port_writes s' = port_writes s @ map (\<lambda>c. (debug_port s, c)) cs"

lemma sends_refl [simp]: "sends s [] s" by (simp add: sends_def)

lemma sends_trans: "sends s cs s1 \<Longrightarrow> sends s1 ds s2 \<Longrightarrow> sends s (cs @ ds) s2"
  by (simp add: sends_def)

lemma putc_sends:
  assumes "responsive lsr" and "debug_port s \<noteq> 0"
  shows "\<exists>s'. loader_serial_putc lsr c s = Some (c, s') \<and> sends s [c] s'"
  using putc_ready [OF assms, of c] by (auto simp: sends_def)

lemma sends_port: "sends s cs s' \<Longrightarrow> debug_port s' = debug_port s" by (simp add: sends_def)

lemma puts_loop_sends:
  assumes "responsive lsr"
    and "\<And>k. k < length cs \<Longrightarrow> str (i + of_nat k) = cs ! k \<and> cs ! k \<noteq> 0"
    and "str (i + of_nat (length cs)) = 0" and "debug_port s \<noteq> 0"
  shows "\<exists>s'. puts_loop lsr str i s = Some s' \<and> sends s cs s'"
  using assms(2-)
proof (induction cs arbitrary: i s)
  case Nil
  then show ?case by (subst puts_loop.simps) simp
next
  case (Cons c cs)
  obtain s1 where s1: "loader_serial_putc lsr c s = Some (c, s1)" "sends s [c] s1"
    using putc_sends [OF assms(1) Cons.prems(3)] by blast
  have "str ((i + 1) + of_nat k) = cs ! k \<and> cs ! k \<noteq> 0" if "k < length cs" for k
    using Cons.prems(1) [of "Suc k"] that by (simp add: add.assoc)
  moreover have "str ((i + 1) + of_nat (length cs)) = 0" using Cons.prems(2) by (simp add: add.assoc)
  ultimately obtain s2 where s2: "puts_loop lsr str (i + 1) s1 = Some s2" "sends s1 cs s2"
    using Cons.IH [of "i + 1" s1] Cons.prems(3) sends_port [OF s1(2)] by auto
  have "str i = c" "c \<noteq> 0" using Cons.prems(1) [of 0] by simp_all
  then have "puts_loop lsr str i s = Some s2" using s1(1) s2(1) by (subst puts_loop.simps) simp
  then show ?case using sends_trans [OF s1(2) s2(2)] by auto
qed

text \<open>
  C30: With an open port and a device whose transmitter gets ready again and again,
  \<open>loader_serial_puts\<close> returns, and it has written exactly the characters of the string, in order,
  to the transmit register.
\<close>

theorem loader_serial_puts_sends:
  assumes "responsive lsr" and "debug_port s \<noteq> 0"
    and "\<And>k. k < length cs \<Longrightarrow> str (of_nat k) = cs ! k \<and> cs ! k \<noteq> 0" and "str (of_nat (length cs)) = 0"
  shows "\<exists>s'. loader_serial_puts lsr str s = Some s' \<and> debug_port s' = debug_port s \<and>
            port_writes s' = port_writes s @ map (\<lambda>c. (debug_port s, c)) cs"
  using puts_loop_sends [of lsr cs str 0 s] assms by (auto simp: loader_serial_puts_def sends_def)

theorem loader_serial_puts_sends_witness:
  "\<exists>s'. loader_serial_puts (\<lambda>n. if even n then 0 else 0x20) (literal [0x4F, 0x4B])
       \<lparr>debug_port = 0x3F8, port_writes = [], lsr_reads = 0\<rparr> = Some s' \<and>
     port_writes s' = [(0x3F8, 0x4F), (0x3F8, 0x4B)]"
proof -
  have "responsive (\<lambda>n. if even n then 0 else 0x20)"
    unfolding responsive_def
  proof
    fix n :: nat
    show "\<exists>k\<ge>n. lsr_thre (if even k then 0 else 0x20)"
      by (rule exI [of _ "2 * n + 1"]) (simp add: lsr_thre_def bit_numeral_rec)
  qed
  moreover have "literal [0x4F, 0x4B] (of_nat k) = [0x4F, 0x4B] ! k \<and> ([0x4F, 0x4B] ! k :: u8) \<noteq> 0"
    if "k < length [0x4F, 0x4B :: u8]" for k
  proof -
    have "k = 0 \<or> k = 1" using that by auto
    then show ?thesis by (auto simp: literal_def)
  qed
  moreover have "literal [0x4F, 0x4B] (of_nat (length [0x4F, 0x4B :: u8])) = 0" by (simp add: literal_def)
  ultimately show ?thesis
    using loader_serial_puts_sends [of _ "\<lparr>debug_port = 0x3F8, port_writes = [], lsr_reads = 0\<rparr>"
        "[0x4F, 0x4B]" "literal [0x4F, 0x4B]"] by auto
qed

lemma wait_thre_Some:
  assumes "wait_thre lsr s = Some s'"
  shows "\<exists>k \<ge> lsr_reads s. lsr_thre (lsr k)"
proof (rule wait_thre.raw_induct [where P = "\<lambda>lsr s s'. \<exists>k \<ge> lsr_reads s. lsr_thre (lsr k)", OF _ assms])
  fix wait :: "(nat \<Rightarrow> u8) \<Rightarrow> serial \<Rightarrow> serial option" and lsr s s'
  assume ih: "\<And>lsr s s'. wait lsr s = Some s' \<Longrightarrow> \<exists>k \<ge> lsr_reads s. lsr_thre (lsr k)"
    and body: "(let (data, s) = hw_read_lsr lsr s in if lsr_thre data then Some s else wait lsr s) = Some s'"
  show "\<exists>k \<ge> lsr_reads s. lsr_thre (lsr k)"
  proof (cases "lsr_thre (lsr (lsr_reads s))")
    case False
    then have "wait lsr (s\<lparr>lsr_reads := lsr_reads s + 1\<rparr>) = Some s'" using body by (simp add: hw_read_lsr_def)
    from ih [OF this] show ?thesis by (auto intro: Suc_leD)
  qed blast
qed

text \<open>
  \<open>loader_serial_putc\<close> waits without a bound: with an open port it returns if and only if the
  device reports its transmitter empty at one of the status reads from now on.
\<close>

lemma loader_serial_putc_returns_iff:
  assumes "debug_port s \<noteq> 0"
  shows "(\<exists>r. loader_serial_putc lsr c s = Some r) \<longleftrightarrow> (\<exists>k \<ge> lsr_reads s. lsr_thre (lsr k))"
proof -
  let ?s = "write_reg UART_REGISTER_THR c s"
  have "(\<exists>r. loader_serial_putc lsr c s = Some r) \<longleftrightarrow> (\<exists>s'. wait_thre lsr ?s = Some s')"
    using assms by (simp add: loader_serial_putc_def)
  also have "\<dots> \<longleftrightarrow> (\<exists>k \<ge> lsr_reads ?s. lsr_thre (lsr k))"
    using wait_thre_Some wait_thre_ready by blast
  finally show ?thesis by (simp add: write_reg_def hw_write_port_8_def)
qed

lemma loader_serial_putc_returns_iff_witness:
  "loader_serial_putc (\<lambda>_. 0x40) 0x41 \<lparr>debug_port = 0x3F8, port_writes = [], lsr_reads = 0\<rparr> = None"
  using loader_serial_putc_returns_iff
    [of "\<lparr>debug_port = 0x3F8, port_writes = [], lsr_reads = 0\<rparr>" "\<lambda>_. 0x40" "0x41"]
  by (cases "loader_serial_putc (\<lambda>_. 0x40) 0x41 \<lparr>debug_port = 0x3F8, port_writes = [], lsr_reads = 0\<rparr>")
    (auto simp: lsr_thre_def bit_numeral_rec)

section \<open>Hexadecimal numbers\<close>

definition nibble :: "u32 \<Rightarrow> nat \<Rightarrow> nat" where "nibble h j = unat h div 16 ^ j mod 16"

definition hex_digit :: "u32 \<Rightarrow> nat \<Rightarrow> u8" where "hex_digit h j = convert_to_hex_char (of_nat (nibble h j))"

lemma hex_digit_values:
  "list_all (\<lambda>k. digit_value (convert_to_hex_char (of_nat k)) = Some (of_nat k)) [0..<16]"
  by code_simp

lemma hex_digit_value: "is_digit_in 16 (hex_digit h j) \<and> digit_of (hex_digit h j) = nibble h j"
proof -
  have "nibble h j < 16" by (simp add: nibble_def)
  moreover from this have "digit_value (hex_digit h j) = Some (of_nat (nibble h j))"
    using hex_digit_values unfolding list_all_iff hex_digit_def by simp
  moreover have "unat (of_nat (nibble h j) :: u8) = nibble h j"
    using \<open>nibble h j < 16\<close> by (simp add: unat_of_nat)
  ultimately show ?thesis by (simp add: is_digit_in_def digit_of_def)
qed

lemma low_nibble: "(ucast (h AND 0xf) :: u8) = of_nat (nibble h 0)"
proof -
  have "h AND 0xf = take_bit 4 h" by (rule bit_word_eqI) (simp add: bit_simps take_bit_eq_mask mask_eq_exp_minus_1)
  moreover have "unat (take_bit 4 h) = nibble h 0" by (simp add: nibble_def unat_mod take_bit_eq_mod)
  ultimately show ?thesis by (metis of_nat_unat)
qed

lemma nibble_shift: "nibble (drop_bit 4 h) j = nibble h (Suc j)"
  by (simp add: nibble_def drop_bit_eq_div unat_div div_mult2_eq)

lemma hex_chars_digits:
  "i + n \<le> length ch \<Longrightarrow>
   fst (hex_chars n i h hi ch) = take i ch @ map (hex_digit h) [0..<n] @ drop (i + n) ch"
proof (induction n arbitrary: i h hi ch)
  case (Suc n)
  have "take (Suc i) (ch[i := hex_digit h 0]) = take i ch @ [hex_digit h 0]"
    using Suc.prems by (simp add: take_Suc_conv_app_nth)
  moreover have "map (hex_digit h) [0..<Suc n] = hex_digit h 0 # map (hex_digit (drop_bit 4 h)) [0..<n]"
    by (simp add: upt_conv_Cons map_Suc_upt [symmetric] hex_digit_def nibble_shift del: upt_Suc)
  ultimately show ?case
    using Suc by (simp add: Let_def low_nibble hex_digit_def [of h 0, symmetric] del: upt_Suc)
qed simp

lemma hex_chars_highest:
  "snd (hex_chars n i h hi ch) = hi \<and> (\<forall>j < n. nibble h j = 0) \<or>
   (\<exists>k < n. snd (hex_chars n i h hi ch) = i + k \<and> nibble h k \<noteq> 0 \<and> (\<forall>j. k < j \<and> j < n \<longrightarrow> nibble h j = 0))"
proof (induction n arbitrary: i h hi ch)
  case (Suc n)
  let ?hi = "if (of_nat (nibble h 0) :: u8) \<noteq> 0 then i else hi"
  let ?ch = "ch[i := convert_to_hex_char (of_nat (nibble h 0))]"
  have nz: "(of_nat (nibble h 0) :: u8) \<noteq> 0 \<longleftrightarrow> nibble h 0 \<noteq> 0"
  proof -
    have "unat (of_nat (nibble h 0) :: u8) = nibble h 0" by (simp add: unat_of_nat nibble_def)
    then show ?thesis by (metis unat_eq_zero)
  qed
  have step: "hex_chars (Suc n) i h hi ch = hex_chars n (i + 1) (drop_bit 4 h) ?hi ?ch"
    by (simp add: Let_def low_nibble)
  from Suc [of "i + 1" "drop_bit 4 h" ?hi ?ch] show ?case
    unfolding step nibble_shift
  proof (elim disjE exE conjE)
    assume a: "snd (hex_chars n (i + 1) (drop_bit 4 h) ?hi ?ch) = ?hi" "\<forall>j<n. nibble h (Suc j) = 0"
    then have z: "nibble h j = 0" if "0 < j" "j < Suc n" for j using that by (cases j) auto
    show "snd (hex_chars n (i + 1) (drop_bit 4 h) ?hi ?ch) = hi \<and> (\<forall>j<Suc n. nibble h j = 0) \<or>
      (\<exists>k<Suc n. snd (hex_chars n (i + 1) (drop_bit 4 h) ?hi ?ch) = i + k \<and> nibble h k \<noteq> 0 \<and>
        (\<forall>j. k < j \<and> j < Suc n \<longrightarrow> nibble h j = 0))"
      using a(1) z nz by (cases "nibble h 0 = 0") (auto intro: exI [of _ 0] simp: less_Suc_eq_0_disj)
  next
    fix k
    assume k: "k < n" "snd (hex_chars n (i + 1) (drop_bit 4 h) ?hi ?ch) = i + 1 + k" "nibble h (Suc k) \<noteq> 0"
      "\<forall>j. k < j \<and> j < n \<longrightarrow> nibble h (Suc j) = 0"
    have "nibble h j = 0" if "Suc k < j" "j < Suc n" for j using that k(4) by (cases j) auto
    then show "snd (hex_chars n (i + 1) (drop_bit 4 h) ?hi ?ch) = hi \<and> (\<forall>j<Suc n. nibble h j = 0) \<or>
      (\<exists>k<Suc n. snd (hex_chars n (i + 1) (drop_bit 4 h) ?hi ?ch) = i + k \<and> nibble h k \<noteq> 0 \<and>
        (\<forall>j. k < j \<and> j < Suc n \<longrightarrow> nibble h j = 0))"
      using k(1-3) by (intro disjI2 exI [of _ "Suc k"]) simp
  qed
qed simp

lemma put_down_sends:
  assumes "responsive lsr" and "debug_port s \<noteq> 0" and "n \<le> length ch"
  shows "\<exists>s'. put_down lsr ch n s = Some s' \<and> sends s (rev (take n ch)) s'"
  using assms(2,3)
proof (induction n arbitrary: s)
  case (Suc n)
  obtain s1 where s1: "loader_serial_putc lsr (ch ! n) s = Some (ch ! n, s1)" "sends s [ch ! n] s1"
    using putc_sends [OF assms(1) Suc.prems(1)] by blast
  obtain s2 where s2: "put_down lsr ch n s1 = Some s2" "sends s1 (rev (take n ch)) s2"
    using Suc.IH [of s1] Suc.prems sends_port [OF s1(2)] by auto
  have "rev (take (Suc n) ch) = [ch ! n] @ rev (take n ch)"
    using Suc.prems by (simp add: take_Suc_conv_app_nth)
  then show ?case using s1(1) s2(1) sends_trans [OF s1(2) s2(2)] by auto
qed simp

lemma number_from_digits:
  "number_from 16 a (rev (map (hex_digit h) [0..<n])) = a * 16 ^ n + unat h mod 16 ^ n"
proof (induction n arbitrary: a)
  case (Suc n)
  have "unat h mod 16 ^ Suc n = nibble h n * 16 ^ n + unat h mod 16 ^ n"
    by (simp only: nibble_def power_Suc2 mod_mult2_eq) (simp add: mult.commute)
  then show ?case by (simp add: Suc hex_digit_value algebra_simps)
qed simp

lemma above_highest:
  assumes "\<forall>j. k \<le> j \<and> j < n \<longrightarrow> nibble h j = 0" and "k \<le> n"
  shows "unat h mod 16 ^ n = unat h mod 16 ^ k"
  using assms
proof (induction n)
  case (Suc n)
  show ?case
  proof (cases "k = Suc n")
    case False
    then have "nibble h n = 0" "unat h mod 16 ^ n = unat h mod 16 ^ k" using Suc by auto
    then show ?thesis by (simp add: nibble_def mult.commute [of "16 :: nat"] mod_mult2_eq)
  qed simp
qed simp

lemma literal_0x: "k < length [0x30, 0x78 :: u8] \<Longrightarrow>
  literal [0x30, 0x78] (of_nat k) = [0x30, 0x78] ! k \<and> ([0x30, 0x78] ! k :: u8) \<noteq> 0"
proof -
  assume "k < length [0x30, 0x78 :: u8]"
  then have "k = 0 \<or> k = 1" by auto
  then show ?thesis by (auto simp: literal_def)
qed

text \<open>
  C32: \<open>loader_serial_put_hex\<close> writes \<open>0x\<close> and then hexadecimal digits whose value is the number: all
  eight with \<open>need_prefix\<close>, and without it no leading zero unless the number is zero (one digit).
\<close>

theorem loader_serial_put_hex_value:
  assumes "responsive lsr" and "debug_port s \<noteq> 0"
  shows "\<exists>s' ds. loader_serial_put_hex lsr hex need_prefix s = Some s' \<and>
     port_writes s' = port_writes s @ map (\<lambda>c. (debug_port s, c)) ([0x30, 0x78] @ ds) \<and>
     number_from 16 0 ds = unat hex \<and> (\<forall>d \<in> set ds. is_digit_in 16 d) \<and>
     (if need_prefix then length ds = 8 else length ds = 1 \<or> digit_of (hd ds) \<noteq> 0)"
proof -
  let ?ds = "map (hex_digit hex) [0..<8]"
  define hi where "hi = snd (hex_chars 8 0 hex 0 (replicate 8 0))"
  have chars: "hex_chars 8 0 hex 0 (replicate 8 0) = (?ds, hi)"
    using hex_chars_digits [of 0 8 "replicate 8 0" hex 0] by (simp add: hi_def prod_eq_iff)
  have hi: "hi < 8" "hi \<noteq> 0 \<Longrightarrow> nibble hex hi \<noteq> 0" "\<forall>j. hi + 1 \<le> j \<and> j < 8 \<longrightarrow> nibble hex j = 0"
    using hex_chars_highest [of 8 0 hex 0 "replicate 8 0"] unfolding hi_def [symmetric]
    by (elim disjE; auto)+
  define n where "n = (if need_prefix then 7 else hi) + 1"
  have n: "n \<le> 8" "\<forall>j. n \<le> j \<and> j < 8 \<longrightarrow> nibble hex j = 0" using hi by (auto simp: n_def)
  have cut: "take n ?ds = map (hex_digit hex) [0..<n]" using n(1) by (simp add: take_map)
  obtain s1 where s1: "loader_serial_puts lsr (literal [0x30, 0x78]) s = Some s1" "sends s [0x30, 0x78] s1"
    using loader_serial_puts_sends [of lsr s "[0x30, 0x78]" "literal [0x30, 0x78]"] assms literal_0x
    by (auto simp: sends_def literal_def)
  obtain s2 where s2: "put_down lsr ?ds n s1 = Some s2" "sends s1 (rev (map (hex_digit hex) [0..<n])) s2"
    using put_down_sends [of lsr s1 n ?ds] assms n(1) sends_port [OF s1(2)] cut by auto
  have "loader_serial_put_hex lsr hex need_prefix s = Some s2"
    using assms(2) s1(1) s2(1) by (simp add: loader_serial_put_hex_def chars n_def)
  moreover have "sends s ([0x30, 0x78] @ rev (map (hex_digit hex) [0..<n])) s2"
    by (rule sends_trans [OF s1(2) s2(2)])
  moreover have "number_from 16 0 (rev (map (hex_digit hex) [0..<n])) = unat hex"
    using above_highest [OF n(2,1)] unat_less32 [of hex] by (simp add: number_from_digits)
  moreover have "hd (rev (map (hex_digit hex) [0..<n])) = hex_digit hex (n - 1)"
    by (simp add: n_def hd_rev last_map)
  then have "if need_prefix then length (rev (map (hex_digit hex) [0..<n])) = 8
      else length (rev (map (hex_digit hex) [0..<n])) = 1 \<or> digit_of (hd (rev (map (hex_digit hex) [0..<n]))) \<noteq> 0"
    using hi(2) by (cases "hi = 0") (auto simp: n_def hex_digit_value)
  moreover have "\<forall>d \<in> set (rev (map (hex_digit hex) [0..<n])). is_digit_in 16 d" by (auto simp: hex_digit_value)
  ultimately show ?thesis unfolding sends_def by blast
qed

theorem loader_serial_put_hex_value_witness:
  "\<exists>s' ds. loader_serial_put_hex (\<lambda>_. 0x20) 0x2A False
       \<lparr>debug_port = 0x3F8, port_writes = [], lsr_reads = 0\<rparr> = Some s' \<and>
     port_writes s' = map (\<lambda>c. (0x3F8, c)) ([0x30, 0x78] @ ds) \<and> number_from 16 0 ds = 42"
proof -
  have "responsive (\<lambda>_. 0x20)" by (auto simp: responsive_def lsr_thre_def bit_numeral_rec)
  from loader_serial_put_hex_value [OF this, of "\<lparr>debug_port = 0x3F8, port_writes = [], lsr_reads = 0\<rparr>"
      "0x2A" False]
  show ?thesis by auto
qed

end
