(* ===== verification/Screen.thy ===== *)
theory Screen
  imports Serial
begin

text \<open>
  The text screen, \<open>pre_os/xmon_loader/utils/screen/screen.c\<close>: characters go to the even bytes of the
  VGA text buffer at the static variable \<open>cursor\<close>, and to the debug port. Strings are read from the
  memory the screen is part of; the literal of \<open>print_string_value\<close> is read at the address \<open>nl\<close>.
\<close>

section \<open>State and operations\<close>

definition MAX_ROWS :: nat where "MAX_ROWS = 49"
definition MAX_COLOUMNS :: nat where "MAX_COLOUMNS = 80"
definition VGA_BASE_ADDRESS :: addr where "VGA_BASE_ADDRESS = 0xB8000"

record console =
  cursor :: addr
  con_mem :: mem
  con_serial :: serial

definition put_cell :: "u8 \<Rightarrow> console \<Rightarrow> console" where
  "put_cell c s = s\<lparr>con_mem := (con_mem s)(cursor s := c), cursor := cursor s + 2\<rparr>"

definition clear_screen :: "console \<Rightarrow> console" where
  "clear_screen s =
     (let s = (put_cell 0x20 ^^ (MAX_COLOUMNS * MAX_ROWS)) (s\<lparr>cursor := VGA_BASE_ADDRESS\<rparr>)
      in s\<lparr>cursor := VGA_BASE_ADDRESS\<rparr>)"

definition new_line :: "console \<Rightarrow> console" where
  "new_line s =
     (let line_number = (cursor s - VGA_BASE_ADDRESS) div (of_nat MAX_COLOUMNS * 2) :: u64;
          line_number = line_number + 1
      in s\<lparr>cursor := line_number * of_nat MAX_COLOUMNS * 2 + VGA_BASE_ADDRESS\<rparr>)"

partial_function (option) print_loop :: "addr \<Rightarrow> u32 \<Rightarrow> console \<Rightarrow> console option" where
  "print_loop str index s =
     (let c = con_mem s (str + ucast index) in
      if c = 0 then Some s
      else print_loop str (index + 1) (if c = 0x0A then new_line s else put_cell c s))"

text \<open>\<open>loader_serial_puts\<close> and \<open>loader_serial_put_hex\<close> on the console's port.\<close>

definition con_puts :: "(nat \<Rightarrow> u8) \<Rightarrow> addr \<Rightarrow> console \<Rightarrow> console option" where
  "con_puts lsr str s =
     map_option (\<lambda>p. s\<lparr>con_serial := p\<rparr>)
       (loader_serial_puts lsr (\<lambda>i. con_mem s (str + ucast i)) (con_serial s))"

definition print_string :: "(nat \<Rightarrow> u8) \<Rightarrow> addr \<Rightarrow> console \<Rightarrow> console option" where
  "print_string lsr str s = Option.bind (print_loop str 0 s) (con_puts lsr str)"

definition value_char :: "u32 \<Rightarrow> nat \<Rightarrow> u8" where
  "value_char v index =
     (let character = (ucast (drop_bit ((7 - index) * 4) v) AND 0x0f) + 0x30 :: u8
      in if character > 0x39 then character - 0x30 - 10 + 0x41 else character)"

definition print_value :: "(nat \<Rightarrow> u8) \<Rightarrow> u32 \<Rightarrow> console \<Rightarrow> console option" where
  "print_value lsr v s =
     (let s = fold (\<lambda>index. put_cell (value_char v index)) [0..<8] s
      in map_option (\<lambda>p. s\<lparr>con_serial := p\<rparr>) (loader_serial_put_hex lsr v True (con_serial s)))"

definition print_string_value :: "(nat \<Rightarrow> u8) \<Rightarrow> addr \<Rightarrow> addr \<Rightarrow> u32 \<Rightarrow> console \<Rightarrow> console option" where
  "print_string_value lsr nl str v s =
     Option.bind (print_string lsr str s) (\<lambda>s. Option.bind (print_value lsr v s) (print_string lsr nl))"

section \<open>The screen as cells\<close>

text \<open>The address of the k-th cell, and the rows a text is laid out in.\<close>

definition vga :: "nat \<Rightarrow> addr" where "vga k = VGA_BASE_ADDRESS + of_nat (2 * k)"

fun type_text :: "nat \<Rightarrow> (nat \<Rightarrow> u8) \<Rightarrow> u8 list \<Rightarrow> nat \<times> (nat \<Rightarrow> u8)" where
  "type_text k scr [] = (k, scr)"
| "type_text k scr (c # cs) =
     (if c = 0x0A then type_text ((k div 80 + 1) * 80) scr cs else type_text (k + 1) (scr(k := c)) cs)"

lemma unat_vga: "k \<le> 2 ^ 32 \<Longrightarrow> unat (vga k) = 0xB8000 + 2 * k"
  by (simp add: vga_def VGA_BASE_ADDRESS_def unat_add64 unat_of_nat64 del: of_nat_mult)

lemma vga_inj: "j \<le> 2 ^ 32 \<Longrightarrow> k \<le> 2 ^ 32 \<Longrightarrow> vga j = vga k \<longleftrightarrow> j = k"
  using unat_vga [of j] unat_vga [of k] by (auto simp: word_unat_eq_iff)

lemma vga_Suc: "vga (Suc k) = vga k + 2" by (simp add: vga_def)

lemma new_line_vga:
  assumes "cursor s = vga k" and "k \<le> 2 ^ 32"
  shows "new_line s = s\<lparr>cursor := vga ((k div 80 + 1) * 80)\<rparr>"
proof -
  have "2 * k < 2 ^ 64" using assms(2) by simp
  then have "unat ((cursor s - VGA_BASE_ADDRESS) div 160) = k div 80"
    using assms(1) by (simp add: vga_def unat_div unat_of_nat64 del: of_nat_mult)
  then have "(cursor s - VGA_BASE_ADDRESS) div 160 = of_nat (k div 80)" by (metis of_nat_unat ucast_id)
  then show ?thesis by (simp add: new_line_def vga_def MAX_COLOUMNS_def algebra_simps)
qed

text \<open>The first \<open>n\<close> cells show \<open>scr\<close>, and everything else is as in \<open>m\<close>.\<close>

definition shows_cells :: "nat \<Rightarrow> mem \<Rightarrow> (nat \<Rightarrow> u8) \<Rightarrow> mem \<Rightarrow> bool" where
  "shows_cells n m scr m' \<longleftrightarrow> (\<forall>j < n. m' (vga j) = scr j) \<and> (\<forall>x. (\<forall>j < n. x \<noteq> vga j) \<longrightarrow> m' x = m x)"

lemma shows_cells_put:
  "shows_cells n m scr m' \<Longrightarrow> k < n \<Longrightarrow> n \<le> 2 ^ 32 \<Longrightarrow> shows_cells n m (scr(k := c)) (m'(vga k := c))"
  by (auto simp: shows_cells_def vga_inj)

lemma shows_cells_self: "shows_cells n m (\<lambda>j. m (vga j)) m"
  by (simp add: shows_cells_def)

lemma type_text_grows: "k \<le> fst (type_text k scr cs)"
proof (induction k scr cs rule: type_text.induct)
  case (2 k scr c cs)
  have "k \<le> (k div 80 + 1) * 80" using dividend_less_div_times [of 80 k] by simp
  then show ?case using 2 by (auto simp del: fun_upd_apply)
qed simp

lemma print_loop_text:
  assumes "n \<le> 2 ^ 32" and "\<forall>j \<le> length cs. \<forall>i < n. str + ucast (ix + of_nat j :: u32) \<noteq> vga i"
    and "\<forall>j < length cs. m (str + ucast (ix + of_nat j :: u32)) = cs ! j \<and> cs ! j \<noteq> 0"
    and "m (str + ucast (ix + of_nat (length cs) :: u32)) = 0"
    and "fst (type_text k scr cs) \<le> n" and "cursor s = vga k" and "shows_cells n m scr (con_mem s)"
  shows "\<exists>m'. print_loop str ix s = Some (s\<lparr>cursor := vga (fst (type_text k scr cs)), con_mem := m'\<rparr>) \<and>
           shows_cells n m (snd (type_text k scr cs)) m'"
  using assms(2-)
proof (induction cs arbitrary: ix k scr s)
  case Nil
  have "con_mem s (str + ucast ix) = 0" using Nil.prems(1,3,6) by (simp add: shows_cells_def)
  then show ?case using Nil.prems(5,6) by (subst print_loop.simps) (auto intro!: exI [of _ "con_mem s"])
next
  case (Cons c cs)
  have "\<forall>i < n. str + ucast ix \<noteq> vga i" using Cons.prems(1) [rule_format, of 0] by simp
  then have c: "con_mem s (str + ucast ix) = c" "c \<noteq> 0"
    using Cons.prems(2) [rule_format, of 0] Cons.prems(6) by (simp_all add: shows_cells_def)
  have suc: "ix + 1 + of_nat j = ix + (of_nat (Suc j) :: u32)" for j by simp
  have shift: "\<forall>j \<le> length cs. \<forall>i < n. str + ucast (ix + 1 + of_nat j :: u32) \<noteq> vga i"
    "\<forall>j < length cs. m (str + ucast (ix + 1 + of_nat j :: u32)) = cs ! j \<and> cs ! j \<noteq> 0"
    "m (str + ucast (ix + 1 + of_nat (length cs) :: u32)) = 0"
    unfolding suc using Cons.prems(1,2) [rule_format, of "Suc _"] Cons.prems(3) by (auto simp del: of_nat_Suc)
  show ?case
  proof (cases "c = 0x0A")
    case True
    have "k \<le> n" using Cons.prems(4) type_text_grows [of k scr "c # cs"] by linarith
    then have "new_line s = s\<lparr>cursor := vga ((k div 80 + 1) * 80)\<rparr>"
      using Cons.prems(5) assms(1) by (intro new_line_vga) simp_all
    then show ?thesis
      using Cons.IH [OF shift, of "(k div 80 + 1) * 80" scr "new_line s"] Cons.prems(4,6) True c
      by (subst print_loop.simps) simp
  next
    case False
    have "k < n" using Cons.prems(4) False type_text_grows [of "k + 1" "scr(k := c)" cs] by simp
    then have "shows_cells n m (scr(k := c)) (con_mem (put_cell c s))"
      using Cons.prems(5,6) assms(1) by (simp add: put_cell_def shows_cells_put)
    moreover have "cursor (put_cell c s) = vga (k + 1)" using Cons.prems(5) by (simp add: put_cell_def vga_Suc)
    ultimately show ?thesis
      using Cons.IH [OF shift, of "k + 1" "scr(k := c)" "put_cell c s"] Cons.prems(4) False c
      by (subst print_loop.simps) (simp add: put_cell_def del: fun_upd_apply)
  qed
qed

text \<open>
  C31: \<open>print_string\<close> lays a string out on the screen: starting at cell \<open>k\<close>, each character fills the
  next cell and a newline goes to the start of the next 80-column row; the attribute bytes and all
  memory outside the cells keep their value, and the same characters go to the debug port. (The code
  has no bound of its own: \<open>n\<close> is any number of cells that the text stays in and that the string
  itself does not lie on.)
\<close>

theorem print_string_cells:
  assumes "n \<le> 2 ^ 32" and "length cs < 2 ^ 32" and "cstr (con_mem s) str cs"
    and "\<forall>j \<le> length cs. \<forall>i < n. str + of_nat j \<noteq> vga i"
    and "type_text k (\<lambda>j. con_mem s (vga j)) cs = (k', scr)" and "k' \<le> n" and "cursor s = vga k"
    and "responsive lsr" and "debug_port (con_serial s) \<noteq> 0"
  shows "\<exists>s'. print_string lsr str s = Some s' \<and> cursor s' = vga k' \<and>
            shows_cells n (con_mem s) scr (con_mem s') \<and> sends (con_serial s) cs (con_serial s')"
proof -
  let ?m = "con_mem s"
  have ix: "(ucast (of_nat j :: u32) :: addr) = of_nat j" if "j \<le> length cs" for j
    using that assms(2) by (simp add: word_unat_eq_iff unat_ucast_up unat_of_nat take_bit_nat_eq_self)
  have str: "\<forall>j < length cs. ?m (str + ucast (of_nat j :: u32)) = cs ! j \<and> cs ! j \<noteq> 0"
    "?m (str + ucast (of_nat (length cs) :: u32)) = 0"
    using assms(3) cstr_nth [OF assms(3)] cstr_nonzero [OF assms(3)] cstr_end [OF assms(3)]
    by (auto simp: ix) (metis nth_mem)
  obtain m' where m': "print_loop str 0 s = Some (s\<lparr>cursor := vga k', con_mem := m'\<rparr>)"
      "shows_cells n ?m scr m'"
    using print_loop_text [OF assms(1), of cs str 0 ?m k "\<lambda>j. ?m (vga j)" s] str assms(4-7)
      shows_cells_self [of n ?m] by (auto simp: ix)
  have keep: "m' (str + of_nat j) = ?m (str + of_nat j)" if "j \<le> length cs" for j
    using m'(2) assms(4) that by (simp add: shows_cells_def)
  obtain p where p: "loader_serial_puts lsr (\<lambda>i. m' (str + ucast i)) (con_serial s) = Some p"
      "sends (con_serial s) cs p"
    using loader_serial_puts_sends [of lsr "con_serial s" cs "\<lambda>i. m' (str + ucast i)"] assms(8,9) str
    by (auto simp: sends_def ix keep)
  then show ?thesis using m' by (simp add: print_string_def con_puts_def)
qed

definition demo_console :: console where
  "demo_console = \<lparr>cursor = VGA_BASE_ADDRESS,
     con_mem = (\<lambda>x. if x = 0x1000 then 0x41 else if x = 0x1001 then 0x0A else if x = 0x1002 then 0x42 else 0),
     con_serial = \<lparr>debug_port = 0x3F8, port_writes = [], lsr_reads = 0\<rparr>\<rparr>"

lemma ready_device: "responsive (\<lambda>_. 0x20)" by (auto simp: responsive_def lsr_thre_def bit_numeral_rec)

theorem print_string_cells_witness:
  "\<exists>s'. print_string (\<lambda>_. 0x20) 0x1000 demo_console = Some s' \<and> cursor s' = vga 81 \<and>
     con_mem s' (vga 0) = 0x41 \<and> con_mem s' (vga 80) = 0x42 \<and>
     port_writes (con_serial s') = [(0x3F8, 0x41), (0x3F8, 0x0A), (0x3F8, 0x42)]"
proof -
  let ?cs = "[0x41, 0x0A, 0x42] :: u8 list" and ?f = "\<lambda>j. con_mem demo_console (vga j)"
  have "0x1000 + of_nat j \<noteq> vga i" if "j \<le> length ?cs" "i < 4000" for j i
  proof -
    have "unat (0x1000 + of_nat j :: addr) = 0x1000 + j"
      using that(1) by (simp add: unat_add64 unat_of_nat64)
    then show ?thesis using unat_vga [of i] that by (auto simp: word_unat_eq_iff)
  qed
  then obtain s' where "print_string (\<lambda>_. 0x20) 0x1000 demo_console = Some s'" "cursor s' = vga 81"
    "shows_cells 4000 (con_mem demo_console) (?f(0 := 0x41, 80 := 0x42)) (con_mem s')"
    "sends (con_serial demo_console) ?cs (con_serial s')"
    using print_string_cells [of 4000 ?cs demo_console "0x1000" 0 81 "?f(0 := 0x41, 80 := 0x42)", OF _ _ _ _ _ _ _ ready_device]
    by (auto simp: demo_console_def vga_def simp del: fun_upd_apply)
  then show ?thesis by (auto simp: shows_cells_def sends_def demo_console_def)
qed

section \<open>Values\<close>

lemma fold_put_cell:
  assumes "cursor s = vga k" and "k + n \<le> 2 ^ 32"
  shows "\<exists>m'. fold (\<lambda>i. put_cell (f i)) [0..<n] s = s\<lparr>cursor := vga (k + n), con_mem := m'\<rparr> \<and>
     (\<forall>j < n. m' (vga (k + j)) = f j) \<and> (\<forall>x. (\<forall>j < n. x \<noteq> vga (k + j)) \<longrightarrow> m' x = con_mem s x)"
  using assms(2)
proof (induction n)
  case 0
  then show ?case using assms(1) by (auto intro!: exI [of _ "con_mem s"])
next
  case (Suc n)
  then obtain m' where m': "fold (\<lambda>i. put_cell (f i)) [0..<n] s = s\<lparr>cursor := vga (k + n), con_mem := m'\<rparr>"
    "\<forall>j < n. m' (vga (k + j)) = f j" "\<forall>x. (\<forall>j < n. x \<noteq> vga (k + j)) \<longrightarrow> m' x = con_mem s x" by auto
  have apart: "vga (k + j) \<noteq> vga (k + n)" if "j < n" for j using that Suc.prems by (simp add: vga_inj)
  have step: "fold (\<lambda>i. put_cell (f i)) [0..<Suc n] s =
      s\<lparr>cursor := vga (k + Suc n), con_mem := m'(vga (k + n) := f n)\<rparr>"
    by (simp add: m'(1)) (simp add: put_cell_def vga_Suc)
  show ?case
    unfolding step
  proof (intro exI conjI)
    show "\<forall>j < Suc n. (m'(vga (k + n) := f n)) (vga (k + j)) = f j"
      using m'(2) apart by (auto simp: less_Suc_eq)
    show "\<forall>x. (\<forall>j < Suc n. x \<noteq> vga (k + j)) \<longrightarrow> (m'(vga (k + n) := f n)) x = con_mem s x"
      using m'(3) by (auto simp: less_Suc_eq)
  qed (rule refl)
qed

definition upper_hex :: "u8 \<Rightarrow> u8" where
  "upper_hex c = (if c + 0x30 > 0x39 then c + 0x30 - 0x30 - 10 + 0x41 else c + 0x30)"

lemma upper_hex_values:
  "list_all (\<lambda>k. digit_value (upper_hex (of_nat k)) = Some (of_nat k)) [0..<16]"
  by code_simp

lemma value_char_digit:
  assumes "i < 8"
  shows "digit_of (value_char v i) = nibble v (7 - i)"
proof -
  have "(ucast (drop_bit ((7 - i) * 4) v) AND 0x0f :: u8) = of_nat (nibble (drop_bit (4 * (7 - i)) v) 0)"
    using low_nibble [of "drop_bit (4 * (7 - i)) v"]
    by (simp add: mult.commute unsigned_and_eq)
  also have "nibble (drop_bit (4 * (7 - i)) v) 0 = nibble v (7 - i)"
    by (simp only: nibble_def unsigned_drop_bit_eq) (simp add: drop_bit_eq_div power_mult take_bit_nat_eq_self)
  finally have "value_char v i = upper_hex (of_nat (nibble v (7 - i)))"
    by (simp add: value_char_def upper_hex_def Let_def)
  moreover have "nibble v (7 - i) < 16" by (simp add: nibble_def)
  ultimately show ?thesis
    using upper_hex_values unfolding list_all_iff by (simp add: digit_of_def unat_of_nat)
qed

lemma upt8: "[0..<8] = [0, 1, 2, 3, 4, 5, 6, 7]" by (simp add: upt_rec eval_nat_numeral)

text \<open>
  \<open>print_value\<close> shows a number as exactly eight hexadecimal digits in the next eight cells, leaves
  all other memory alone, and sends it to the debug port as well.
\<close>

lemma print_value_digits:
  assumes "cursor s = vga k" and "k + 8 \<le> 2 ^ 32" and "responsive lsr" and "debug_port (con_serial s) \<noteq> 0"
  shows "\<exists>s'. print_value lsr v s = Some s' \<and> cursor s' = vga (k + 8) \<and>
     number_from 16 0 (map (\<lambda>j. con_mem s' (vga (k + j))) [0..<8]) = unat v \<and>
     (\<forall>x. (\<forall>j < 8. x \<noteq> vga (k + j)) \<longrightarrow> con_mem s' x = con_mem s x) \<and>
     length (port_writes (con_serial s')) = length (port_writes (con_serial s)) + 10"
proof -
  obtain m' where m': "fold (\<lambda>i. put_cell (value_char v i)) [0..<8] s = s\<lparr>cursor := vga (k + 8), con_mem := m'\<rparr>"
    "\<forall>j < 8. m' (vga (k + j)) = value_char v j" "\<forall>x. (\<forall>j < 8. x \<noteq> vga (k + j)) \<longrightarrow> m' x = con_mem s x"
    using fold_put_cell [OF assms(1,2), of "value_char v"] by auto
  obtain p ds where p: "loader_serial_put_hex lsr v True (con_serial s) = Some p"
    "port_writes p = port_writes (con_serial s) @ map (\<lambda>c. (debug_port (con_serial s), c)) ([0x30, 0x78] @ ds)"
    "length ds = 8"
    using loader_serial_put_hex_value [OF assms(3,4), of v True] by auto
  have "number_from 16 0 (map (value_char v) [0..<8]) = number_from 16 0 (rev (map (hex_digit v) [0..<8]))"
    by (simp add: value_char_digit hex_digit_value upt8)
  also have "\<dots> = unat v" using unat_less32 [of v] by (simp add: number_from_digits del: unat_less32)
  finally have "number_from 16 0 (map (value_char v) [0..<8]) = unat v" .
  moreover have "map (\<lambda>j. m' (vga (k + j))) [0..<8] = map (value_char v) [0..<8]"
    using m'(2) by (intro map_cong) auto
  ultimately have "number_from 16 0 (map (\<lambda>j. m' (vga (k + j))) [0..<8]) = unat v" by metis
  then show ?thesis using m' p by (simp add: print_value_def)
qed

lemma print_value_digits_witness:
  "\<exists>s'. print_value (\<lambda>_. 0x20) 0xC0FFEE demo_console = Some s' \<and>
     number_from 16 0 (map (\<lambda>j. con_mem s' (vga j)) [0..<8]) = 0xC0FFEE"
  using print_value_digits [of demo_console 0, OF _ _ ready_device, of "0xC0FFEE"]
  by (auto simp: demo_console_def vga_def)

end
