(* ===== verification/Linear_Scan.thy ===== *)
theory Linear_Scan
  imports Main
begin

text \<open>
  The contract of a search loop that looks at one candidate after the other, with early exit at the
  first hit: the header searches of the starter, the packer and the EFI loader are interpretations.
  \<open>loop k\<close> is what the loop returns when it is about to look at its \<open>k\<close>-th candidate; the options
  are there because the loops are loops in the source, with no structural bound.
\<close>

locale linear_scan =
  fixes loop :: "nat \<Rightarrow> 'r option"
    and hit :: "nat \<Rightarrow> bool"
    and found :: "nat \<Rightarrow> 'r"
    and missed :: 'r
    and bound :: nat
  assumes step: "k < bound \<Longrightarrow> loop k = (if hit k then Some (found k) else loop (Suc k))"
    and stop: "loop bound = Some missed"
begin

lemma loop_misses: "k \<le> j \<Longrightarrow> j \<le> bound \<Longrightarrow> (\<And>i. k \<le> i \<Longrightarrow> i < j \<Longrightarrow> \<not> hit i) \<Longrightarrow> loop k = loop j"
proof (induction "j - k" arbitrary: k)
  case 0
  then show ?case by simp
next
  case (Suc n)
  then have "k < j" by simp
  with Suc.prems have "loop k = loop (Suc k)" by (simp add: step)
  also have "\<dots> = loop j" using Suc \<open>k < j\<close> by simp
  finally show ?case .
qed

lemma scan_hit:
  assumes "k \<le> j" and "j < bound" and "hit j" and "\<And>i. k \<le> i \<Longrightarrow> i < j \<Longrightarrow> \<not> hit i"
  shows "loop k = Some (found j)"
  using loop_misses [of k j] assms step [of j] by simp

lemma scan_miss:
  assumes "k \<le> bound" and "\<And>i. k \<le> i \<Longrightarrow> i < bound \<Longrightarrow> \<not> hit i"
  shows "loop k = Some missed"
  using loop_misses [of k bound] assms stop by simp

lemma scan_cases:
  assumes "k \<le> bound"
  obtains (hit) j where "k \<le> j" "j < bound" "hit j" "\<And>i. k \<le> i \<Longrightarrow> i < j \<Longrightarrow> \<not> hit i"
      "loop k = Some (found j)"
  | (miss) "\<And>i. k \<le> i \<Longrightarrow> i < bound \<Longrightarrow> \<not> hit i" "loop k = Some missed"
proof (cases "\<exists>j. k \<le> j \<and> j < bound \<and> hit j")
  case True
  define j where "j = (LEAST j. k \<le> j \<and> j < bound \<and> hit j)"
  have j: "k \<le> j \<and> j < bound \<and> hit j" using LeastI_ex [OF True] by (simp add: j_def)
  moreover have "\<not> hit i" if "k \<le> i" "i < j" for i
    using not_less_Least [of i "\<lambda>j. k \<le> j \<and> j < bound \<and> hit j"] that j by (auto simp: j_def)
  ultimately show ?thesis using scan_hit [of k j] hit [of j] by simp
next
  case False
  then show ?thesis using scan_miss [OF assms] miss by blast
qed

lemma scan_total: "k \<le> bound \<Longrightarrow> \<exists>r. loop k = Some r"
  by (metis scan_cases)

end

end
