(* ===== verification/Starter.thy ===== *)
theory Starter
  imports Xmon_Desc Heap_Manager Linear_Scan Elf_Loader
begin

text \<open>
  The starter, \<open>pre_os/starter/starter_main.c\<close> and \<open>run_xmon_loader.c\<close>: the search for the file
  mapping header in the loaded package, the VMX check, the descriptor and the hand-over to
  xmon_loader. CPUID leaf 1 (its rcx output) and the feature control MSR are the arguments of the
  definitions, a call of the loaded image is the outcome \<open>Enter\<close>. The descriptor is kept apart
  from memory as a record; \<open>desc_addr\<close> is where the code keeps it.
\<close>

definition SCAN_MAX_IMAGE_SIZE :: u32 where "SCAN_MAX_IMAGE_SIZE = 0x100000"

definition STARTER_INVALID_XMON_LOADER_BIN_ADDR :: u32 where
  "STARTER_INVALID_XMON_LOADER_BIN_ADDR = 0xDEAD000D"
definition STARTER_FAILED_TO_GET_XMON_LOADER_IMG_INFO :: u32 where
  "STARTER_FAILED_TO_GET_XMON_LOADER_IMG_INFO = 0xDEAD0009"
definition STARTER_FAILED_TO_RELOCATE_XMON_LOADER :: u32 where
  "STARTER_FAILED_TO_RELOCATE_XMON_LOADER = 0xDEAD0008"

section \<open>Operations\<close>

definition check_vmx_support :: "u64 \<Rightarrow> u64 \<Rightarrow> int" where
  "check_vmx_support cpuid_rcx feature_control =
     (if cpuid_rcx AND 0x20 = 0 then -1
      else if feature_control AND 0x01 \<noteq> 0 \<and> feature_control AND 0x04 = 0 then -1
      else 0)"

definition file_hdr_magics :: "mem \<Rightarrow> addr \<Rightarrow> bool" where
  "file_hdr_magics m h \<longleftrightarrow>
     hdr_magic0 m h = XMON_LOADERBIN_FILE_MAPPING_HEADER_MAGIC0 \<and>
     hdr_magic1 m h = XMON_LOADERBIN_FILE_MAPPING_HEADER_MAGIC1"

partial_function (option) scan_file_hdr :: "mem \<Rightarrow> addr \<Rightarrow> addr \<Rightarrow> addr option" where
  "scan_file_hdr m limit tmpbuf =
     (if tmpbuf < limit then
        if file_hdr_magics m tmpbuf then Some tmpbuf else scan_file_hdr m limit (tmpbuf + 4)
      else Some 0)"

definition get_file_offsets_header :: "mem \<Rightarrow> u32 \<Rightarrow> u32 \<Rightarrow> addr option" where
  "get_file_offsets_header m start sz =
     (let starter_img_base = ucast start
      in scan_file_hdr m (starter_img_base + ucast sz - 4) starter_img_base)"

definition get_xmon_loader_img_base :: "bool \<Rightarrow> xmon_desc \<Rightarrow> u64" where
  "get_xmon_loader_img_base debug xd = xd_loader_mem_addr xd + of_nat (xmon_loader_off debug)"

text \<open>
  The result of loading: an error code, a fault, or the entry point to call and the memory it finds.
\<close>

datatype ldr_outcome = Ldr_Error u32 | Ldr_Fault cpu_fault | Ldr_Call addr mem

definition run_xmon_loader ::
  "elf_abi \<Rightarrow> bool \<Rightarrow> elf_load_info \<Rightarrow> image_info \<Rightarrow> mem \<Rightarrow> xmon_desc \<Rightarrow> ldr_outcome option" where
  "run_xmon_loader L debug info0 ii0 m xd =
     (let img = mod_addr (xd_xmon_loader_file xd) in
      if img = 0 then Some (Ldr_Error STARTER_INVALID_XMON_LOADER_BIN_ADDR)
      else Option.bind (get_image_info L m info0 img (ucast (mod_size (xd_xmon_loader_file xd))) ii0)
        (\<lambda>(status, img_info).
          if status \<noteq> IMAGE_INFO_OK \<or> image_machine img_info \<noteq> Some IMAGE_MACHINE_EM64T \<or>
             load_size img_info = 0 \<or> load_size img_info > of_nat XMON_LOADER_IMG_SIZE
          then Some (Ldr_Error STARTER_FAILED_TO_GET_XMON_LOADER_IMG_INFO)
          else map_option (\<lambda>r. case r of
                   Inl e \<Rightarrow> Ldr_Fault e
                 | Inr (ok, xmon_loader, m) \<Rightarrow>
                     if \<not> ok then Ldr_Error STARTER_FAILED_TO_RELOCATE_XMON_LOADER
                     else Ldr_Call xmon_loader m)
                 (load_image L m info0 img (get_xmon_loader_img_base debug xd)
                    (ucast (load_size img_info)) 0)))"

text \<open>The two ways the starter ends: it loops for ever, or it calls xmon_loader first.\<close>

datatype starter_outcome = Dead_Loop | Starter_Fault cpu_fault | Enter addr xmon_desc mem

definition module_present :: "mem \<Rightarrow> addr \<Rightarrow> file_pack_index \<Rightarrow> bool" where
  "module_present m file_hdr i \<longleftrightarrow>
     hdr_file_size m file_hdr (file_index i) \<noteq> 0 \<and>
     hdr_flags m file_hdr AND INDEX_TO_BITMAP_FLAG (file_index i) \<noteq> 0"

definition module_file :: "mem \<Rightarrow> addr \<Rightarrow> addr \<Rightarrow> file_pack_index \<Rightarrow> module_file_info" where
  "module_file m file_hdr loader_mem i =
     \<lparr>mod_addr = loader_mem + of_nat ldr_bin_off + ucast (hdr_file_offset m file_hdr (file_index i)),
      mod_size = ucast (hdr_file_size m file_hdr (file_index i))\<rparr>"

definition starter_desc ::
  "bool \<Rightarrow> mem \<Rightarrow> addr \<Rightarrow> addr \<Rightarrow> addr \<Rightarrow> u64 \<Rightarrow> u64 \<Rightarrow> u64 \<Rightarrow> u64 \<Rightarrow> u64 \<Rightarrow> xmon_desc" where
  "starter_desc debug m file_hdr loader_mem header magic rsp rbp rflags return_address =
     zero_desc\<lparr>
        xd_loader_mem_addr := loader_mem,
        xd_xmon := (xd_xmon zero_desc)\<lparr>xm_total_size := of_nat (XMON_DEFAULT_TOTAL_SIZE debug)\<rparr>,
        xd_runtime_mem_addr := ucast (pi_run_addr m header),
        xd_xmon_loader_file := module_file m file_hdr loader_mem XMON_LOADER_BIN_INDEX,
        xd_startap_file := module_file m file_hdr loader_mem STARTAP_BIN_INDEX,
        xd_xmon_file := module_file m file_hdr loader_mem XMON_BIN_INDEX,
        xd_initial_state :=
          \<lparr>st_rax = magic, st_rbx = header, st_rcx = 0, st_rdx = 0, st_rdi = 0, st_rsi = 0, st_rbp = rbp,
           st_rsp = rsp, st_rip = return_address, st_rflags = rflags\<rparr>\<rparr>"

definition starter_main ::
  "elf_abi \<Rightarrow> bool \<Rightarrow> u64 \<Rightarrow> u64 \<Rightarrow> u64 \<Rightarrow> elf_load_info \<Rightarrow> image_info \<Rightarrow> mem
     \<Rightarrow> u64 \<Rightarrow> u64 \<Rightarrow> u64 \<Rightarrow> u64 \<Rightarrow> u64 \<Rightarrow> u64 \<Rightarrow> starter_outcome option" where
  "starter_main L debug sizeof_desc cpuid_rcx feature_control info0 ii0 m
      header magic rsp rbp rflags return_address =
     Option.bind (get_file_offsets_header m (pi_load_addr m header) SCAN_MAX_IMAGE_SIZE) (\<lambda>file_hdr.
       if file_hdr = 0 then Some Dead_Loop
       else if check_vmx_support cpuid_rcx feature_control \<noteq> 0 then Some Dead_Loop
       else
         let loader_mem = ucast (pi_load_addr m header) :: addr;
             xmon_desc = loader_mem + of_nat (desc_off debug);
             m = mon_memset m xmon_desc 0 sizeof_desc
         in if \<not> (module_present m file_hdr XMON_LOADER_BIN_INDEX \<and>
                  module_present m file_hdr STARTAP_BIN_INDEX \<and>
                  module_present m file_hdr XMON_BIN_INDEX)
            then Some Dead_Loop
            else
              let xd = starter_desc debug m file_hdr loader_mem header magic rsp rbp rflags return_address
              in map_option (\<lambda>r. case r of
                     Ldr_Error err \<Rightarrow> Dead_Loop
                   | Ldr_Fault e \<Rightarrow> Starter_Fault e
                   | Ldr_Call entry m \<Rightarrow> Enter entry xd m)
                 (run_xmon_loader L debug info0 ii0 m xd))"

section \<open>The header search\<close>

definition scan_pos :: "u32 \<Rightarrow> nat \<Rightarrow> addr" where
  "scan_pos start k = ucast start + of_nat (4 * k)"

definition SCAN_STEPS :: nat where "SCAN_STEPS = 0x3FFFF"

lemma unat_scan_pos: "k \<le> SCAN_STEPS \<Longrightarrow> unat (scan_pos start k) = unat start + 4 * k"
  using unat_less32 [of start]
  by (simp add: scan_pos_def SCAN_STEPS_def unat_add64 unat_of_nat64 unat_ucast_up
      del: of_nat_mult unat_less32 unat_bounds32)

lemma unat_scan_limit:
  "unat (ucast start + ucast SCAN_MAX_IMAGE_SIZE - 4 :: addr) = unat start + 4 * SCAN_STEPS"
  for start :: u32
proof -
  have "ucast start + ucast SCAN_MAX_IMAGE_SIZE - 4 = scan_pos start SCAN_STEPS"
    by (simp add: scan_pos_def SCAN_STEPS_def SCAN_MAX_IMAGE_SIZE_def)
  then show ?thesis by (simp add: unat_scan_pos)
qed

interpretation file_hdr_scan: linear_scan
  "\<lambda>k. scan_file_hdr m (ucast start + ucast SCAN_MAX_IMAGE_SIZE - 4) (scan_pos start k)"
  "\<lambda>k. file_hdr_magics m (scan_pos start k)" "scan_pos start" 0 SCAN_STEPS
  for m :: mem and start :: u32
proof
  let ?l = "ucast start + ucast SCAN_MAX_IMAGE_SIZE - 4 :: addr"
  fix k
  assume k: "k < SCAN_STEPS"
  then have "scan_pos start k < ?l" by (simp add: word_less_nat_alt unat_scan_pos unat_scan_limit)
  moreover have "scan_pos start (Suc k) = scan_pos start k + 4" by (simp add: scan_pos_def)
  ultimately show "scan_file_hdr m ?l (scan_pos start k) =
      (if file_hdr_magics m (scan_pos start k) then Some (scan_pos start k)
       else scan_file_hdr m ?l (scan_pos start (Suc k)))"
    by (simp add: scan_file_hdr.simps)
next
  show "scan_file_hdr m (ucast start + ucast SCAN_MAX_IMAGE_SIZE - 4) (scan_pos start SCAN_STEPS) = Some 0"
    by (subst scan_file_hdr.simps) (simp add: word_less_nat_alt unat_scan_pos unat_scan_limit)
qed

lemma get_file_offsets_header_eq:
  "get_file_offsets_header m start SCAN_MAX_IMAGE_SIZE =
     scan_file_hdr m (ucast start + ucast SCAN_MAX_IMAGE_SIZE - 4) (scan_pos start 0)"
  by (simp add: get_file_offsets_header_def Let_def scan_pos_def)

lemma get_file_offsets_header_first:
  assumes "j < SCAN_STEPS" and "file_hdr_magics m (scan_pos start j)"
    and "\<And>i. i < j \<Longrightarrow> \<not> file_hdr_magics m (scan_pos start i)"
  shows "get_file_offsets_header m start SCAN_MAX_IMAGE_SIZE = Some (scan_pos start j)"
  using file_hdr_scan.scan_hit [of 0 j] assms by (simp add: get_file_offsets_header_eq)

text \<open>
  C36: The search for the file mapping header always returns: the first 4-byte aligned place of the
  scanned megabyte with both magics, or null when there is none.
\<close>

theorem get_file_offsets_header_search:
  "\<exists>h. get_file_offsets_header m start SCAN_MAX_IMAGE_SIZE = Some h \<and>
     ((\<exists>j < SCAN_STEPS. h = scan_pos start j \<and> file_hdr_magics m h \<and>
          (\<forall>i < j. \<not> file_hdr_magics m (scan_pos start i))) \<or>
      (h = 0 \<and> (\<forall>i < SCAN_STEPS. \<not> file_hdr_magics m (scan_pos start i))))"
proof -
  have "0 \<le> SCAN_STEPS" by simp
  then show ?thesis
    unfolding get_file_offsets_header_eq
    by (cases rule: file_hdr_scan.scan_cases [where m = m and start = start]) auto
qed

section \<open>Loading xmon_loader\<close>

definition mem_img :: "addr \<Rightarrow> u32 \<Rightarrow> mem_image_access" where
  "mem_img file sz = \<lparr>gen = Mem_Image_Ops, image_ptr = file, image_size = ucast sz\<rparr>"

text \<open>
  What the callers of the ELF loader need of a module: it is a plain 64-bit file within its own size
  and within its load size, and \<open>get_image_info\<close> accepts it with a load size that is not zero and
  at most the room there is.
\<close>

definition module_ok :: "elf_abi \<Rightarrow> elf_load_info \<Rightarrow> image_info \<Rightarrow> mem \<Rightarrow> module_file_info \<Rightarrow> nat \<Rightarrow> image_info \<Rightarrow> bool" where
  "module_ok L info0 ii0 m f room ii \<longleftrightarrow>
     mod_addr f \<noteq> 0 \<and> loadable_elf64 L m (mod_addr f) (ucast (mod_size f)) \<and>
     loadable_elf64 L m (mod_addr f) (ucast (load_size ii)) \<and>
     get_image_info L m info0 (mod_addr f) (ucast (mod_size f)) ii0 = Some (IMAGE_INFO_OK, ii) \<and>
     0 < unat (load_size ii) \<and> unat (load_size ii) \<le> room \<and> room < 2 ^ 32"

definition module_segments :: "elf_abi \<Rightarrow> mem \<Rightarrow> module_file_info \<Rightarrow> image_info \<Rightarrow> segment list" where
  "module_segments L m f ii = file_segments64 L m (mod_addr f) (ucast (load_size ii))"

definition module_entry :: "elf_abi \<Rightarrow> mem \<Rightarrow> module_file_info \<Rightarrow> image_info \<Rightarrow> addr \<Rightarrow> u64" where
  "module_entry L m f ii dest =
     load64 m (mod_addr f + off64 L E_entry) + (dest - segment_low (module_segments L m f ii))"

text \<open>\<open>module_loaded\<close>: the memory \<open>m2\<close> is \<open>m\<close> with the module's segments at \<open>dest\<close>, and nothing else.\<close>

definition module_loaded :: "elf_abi \<Rightarrow> mem \<Rightarrow> module_file_info \<Rightarrow> image_info \<Rightarrow> addr \<Rightarrow> mem \<Rightarrow> bool" where
  "module_loaded L m f ii dest m2 \<longleftrightarrow>
     (let file = mod_addr f; sz = ucast (load_size ii) :: u32; ss = module_segments L m f ii;
          reloc = dest - segment_low ss
      in (\<forall>x. \<not> in_range dest (unat (load_size ii)) x \<longrightarrow> m2 x = m x) \<and>
         (\<forall>s \<in> set ss. \<forall>x. window reloc s x \<and>
            \<not> in_range (dest + load64 m (file + off64 L E_phoff)) (table_size64 L m file) x \<and>
            (\<forall>e \<in> set (file_relocations64 L m file sz). \<not> reloc_target e (x - reloc)) \<longrightarrow>
            m2 x = segment_byte m (mem_img file sz) s (x - (seg_paddr s + reloc))) \<and>
         (\<forall>t v. Reloc_Relative t v \<in> set (file_relocations64 L m file sz) \<longrightarrow> load64 m2 (t + reloc) = v + reloc))"

lemma module_ok_machine:
  assumes "elf64_abi_ok L" and "module_ok L info0 ii0 m f room ii"
  shows "image_machine ii = Some IMAGE_MACHINE_EM64T"
  using assms(2) get_image_info_64(3) [OF assms(1)] by (auto simp: module_ok_def)

lemma load_module:
  assumes abi: "elf64_abi_ok L" "get_phdr64_ok L" "pie64_abi_ok L" and ok: "module_ok L info0 ii0 m f room ii"
    and apart: "disjoint_ranges dest (unat (load_size ii)) (mod_addr f) (unat (load_size ii))"
  shows "\<exists>m2. load_image L m info0 (mod_addr f) dest (ucast (load_size ii)) entry =
            Some (Inr (True, module_entry L m f ii dest, m2)) \<and> module_loaded L m f ii dest m2"
proof -
  have "unat (load_size ii) \<le> room" "room < 2 ^ 32" using ok by (simp_all add: module_ok_def)
  then have "unat (ucast (load_size ii) :: u32) = unat (load_size ii)"
    by (intro unat_ucast_u64_u32) simp
  then have "disjoint_ranges dest (unat (load_size ii)) (mod_addr f) (unat (ucast (load_size ii) :: u32))"
    using apart by simp
  moreover have "get_image_info L m info0 (mod_addr f) (ucast (load_size ii)) ii0 = Some (IMAGE_INFO_OK, ii)"
    using get_image_info_resize [OF abi(1)] ok unfolding module_ok_def by blast
  ultimately show ?thesis
    using load_image_64 [OF abi, of m "mod_addr f" "ucast (load_size ii)" info0 ii0 ii dest entry] ok
    by (simp add: module_ok_def module_entry_def module_loaded_def module_segments_def mem_img_def Let_def)
qed

lemma run_xmon_loader_enters:
  assumes abi: "elf64_abi_ok L" "get_phdr64_ok L" "pie64_abi_ok L"
    and ok: "module_ok L info0 ii0 m (xd_xmon_loader_file xd) XMON_LOADER_IMG_SIZE ii"
    and apart: "disjoint_ranges (get_xmon_loader_img_base debug xd) (unat (load_size ii))
                  (mod_addr (xd_xmon_loader_file xd)) (unat (load_size ii))"
  shows "\<exists>m2. run_xmon_loader L debug info0 ii0 m xd =
      Some (Ldr_Call (module_entry L m (xd_xmon_loader_file xd) ii (get_xmon_loader_img_base debug xd)) m2) \<and>
    module_loaded L m (xd_xmon_loader_file xd) ii (get_xmon_loader_img_base debug xd) m2"
proof -
  have "load_size ii \<noteq> 0" "\<not> load_size ii > of_nat XMON_LOADER_IMG_SIZE"
    using ok by (auto simp: module_ok_def word_less_nat_alt XMON_LOADER_IMG_SIZE_def)
  then show ?thesis
    using ok module_ok_machine [OF abi(1) ok] load_module [OF abi ok apart, of 0]
    by (auto simp: run_xmon_loader_def module_ok_def Let_def)
qed

section \<open>The whole starter\<close>

lemma layout_range_disjoint:
  assumes "u + a \<le> v" and "v + b \<le> 2 ^ 32"
  shows "disjoint_ranges (ucast (base :: u32) + of_nat u) a (ucast base + of_nat v :: addr) b"
proof (rule fields_disjoint)
  have uv: "u < 2 ^ 64" "v < 2 ^ 64" using assms by simp_all
  then have eq: "unat (of_nat u :: addr) = u" "unat (of_nat v :: addr) = v"
    by (simp_all only: unat_of_nat64)
  show "unat (of_nat u :: addr) + a \<le> unat (of_nat v :: addr) \<or> unat (of_nat v :: addr) + b \<le> unat (of_nat u :: addr)"
    and "unat (of_nat u :: addr) + a < 2 ^ 64" "unat (of_nat v :: addr) + b < 2 ^ 64"
    using assms eq by simp_all
qed

lemma package_apart:
  assumes "sizeof_desc \<le> 2 ^ 31"
  shows "disjoint_ranges (ucast (base :: u32) + of_nat ldr_bin_off) (LOADER_BIN_SIZE debug)
           (ucast base + of_nat (xmon_loader_off debug)) XMON_LOADER_IMG_SIZE"
    and "disjoint_ranges (ucast base + of_nat ldr_bin_off) (LOADER_BIN_SIZE debug)
           (ucast base + of_nat (desc_off debug)) sizeof_desc"
proof -
  have "LOADER_BIN_SIZE debug \<le> xmon_loader_off debug" "xmon_loader_off debug \<le> 0xE1000"
    "LOADER_BIN_SIZE debug \<le> desc_off debug" "desc_off debug \<le> 0x20ED000"
    by (cases debug; simp add: layout_offsets LOADER_BIN_SIZE_def)+
  then show "disjoint_ranges (ucast base + of_nat ldr_bin_off) (LOADER_BIN_SIZE debug)
           (ucast base + of_nat (xmon_loader_off debug)) XMON_LOADER_IMG_SIZE"
    and "disjoint_ranges (ucast base + of_nat ldr_bin_off) (LOADER_BIN_SIZE debug)
           (ucast base + of_nat (desc_off debug)) sizeof_desc"
    using assms by (intro layout_range_disjoint; simp add: ldr_bin_off_def XMON_LOADER_IMG_SIZE_def)+
qed

lemma starter_main_desc:
  assumes "starter_main L debug sizeof_desc cpuid_rcx feature_control info0 ii0 m
      header magic rsp rbp rflags return_address = Some (Enter entry xd m2)"
  shows "xd_initial_state xd = \<lparr>st_rax = magic, st_rbx = header, st_rcx = 0, st_rdx = 0, st_rdi = 0, st_rsi = 0,
      st_rbp = rbp, st_rsp = rsp, st_rip = return_address, st_rflags = rflags\<rparr>"
proof -
  obtain h where "get_file_offsets_header m (pi_load_addr m header) SCAN_MAX_IMAGE_SIZE = Some h"
    using assms by (cases "get_file_offsets_header m (pi_load_addr m header) SCAN_MAX_IMAGE_SIZE") (simp_all add: starter_main_def)
  with assms obtain m1 load r where "map_option (\<lambda>r. case r of Ldr_Error err \<Rightarrow> Dead_Loop | Ldr_Fault e \<Rightarrow> Starter_Fault e
       | Ldr_Call entry m \<Rightarrow> Enter entry (starter_desc debug m1 h load header magic rsp rbp rflags return_address) m) r = Some (Enter entry xd m2)"
    by (auto simp: starter_main_def Let_def simp del: map_option_eq_Some split: if_splits)
  then have "starter_desc debug m1 h load header magic rsp rbp rflags return_address = xd"
    by (cases r; cases "the r") auto
  then show ?thesis by (auto simp: starter_desc_def)
qed

text \<open>The proof of the property below, for the theories that build on it.\<close>

lemma starter_main_run:
  assumes "elf64_abi_ok L" and "get_phdr64_ok L" and "pie64_abi_ok L"
    and "load = ucast (pi_load_addr m header)"
    and "get_file_offsets_header m (pi_load_addr m header) SCAN_MAX_IMAGE_SIZE = Some h" and "h \<noteq> 0"
    and "check_vmx_support cpuid_rcx feature_control = 0"
    and "unat sizeof_desc \<le> 2 ^ 31"
    and "m1 = mon_memset m (load + of_nat (desc_off debug)) 0 sizeof_desc"
    and "\<And>i. module_present m1 h i"
    and "xd = starter_desc debug m1 h load header magic rsp rbp rflags return_address"
    and "module_ok L info0 ii0 m1 (xd_xmon_loader_file xd) XMON_LOADER_IMG_SIZE ii"
    and "unat (hdr_file_offset m1 h 0) + unat (load_size ii) \<le> LOADER_BIN_SIZE debug"
  shows "\<exists>m2. starter_main L debug sizeof_desc cpuid_rcx feature_control info0 ii0 m
                header magic rsp rbp rflags return_address =
           Some (Enter (module_entry L m1 (xd_xmon_loader_file xd) ii (load + of_nat (xmon_loader_off debug))) xd m2) \<and>
         module_loaded L m1 (xd_xmon_loader_file xd) ii (load + of_nat (xmon_loader_off debug)) m2 \<and>
         (\<forall>x. in_range load (LOADER_BIN_SIZE debug) x \<longrightarrow> m2 x = m x)"
proof -
  let ?f = "xd_xmon_loader_file xd" and ?dest = "load + of_nat (xmon_loader_off debug)"
  note apart = package_apart [OF assms(8), of "pi_load_addr m header" debug, folded assms(4),
      simplified ldr_bin_off_def, simplified]
  have dest: "get_xmon_loader_img_base debug xd = ?dest"
    by (simp add: assms(11) get_xmon_loader_img_base_def starter_desc_def)
  have f: "mod_addr ?f = load + ucast (hdr_file_offset m1 h 0)"
    by (simp add: assms(11) starter_desc_def module_file_def ldr_bin_off_def)
  have room: "unat (load_size ii) \<le> XMON_LOADER_IMG_SIZE" using assms(12) by (simp add: module_ok_def)
  have bin: "LOADER_BIN_SIZE debug \<le> 2 ^ 64" by (simp add: LOADER_BIN_SIZE_def)
  have "disjoint_ranges ?dest (unat (load_size ii)) (mod_addr ?f) (unat (load_size ii))"
    unfolding f using apart(1) assms(13) room bin
    by (intro disjoint_ranges_sub [of ?dest XMON_LOADER_IMG_SIZE load "LOADER_BIN_SIZE debug"])
      (simp_all add: disjoint_ranges_sym unat_ucast_up)
  then obtain m2 where run: "run_xmon_loader L debug info0 ii0 m1 xd =
      Some (Ldr_Call (module_entry L m1 ?f ii ?dest) m2)" and loaded: "module_loaded L m1 ?f ii ?dest m2"
    using run_xmon_loader_enters [OF assms(1-3,12), of debug] unfolding dest by blast
  have frame: "m2 x = m x" if x: "in_range load (LOADER_BIN_SIZE debug) x" for x
  proof -
    have "\<not> in_range ?dest (unat (load_size ii)) x"
      using disjoint_ranges_not_both [OF apart(1) x] in_range_mono [OF _ room] by blast
    then have "m2 x = m1 x" using loaded by (simp add: module_loaded_def Let_def)
    then show ?thesis
      using disjoint_ranges_not_both [OF apart(2) x] by (auto simp: assms(9) mon_memset_apply)
  qed
  have "starter_main L debug sizeof_desc cpuid_rcx feature_control info0 ii0 m
      header magic rsp rbp rflags return_address = Some (Enter (module_entry L m1 ?f ii ?dest) xd m2)"
    unfolding starter_main_def assms(5) Option.bind.simps Let_def
    using assms(6,7,10) run unfolding assms(4,9,11) by simp
  then show ?thesis using loaded frame by blast
qed

text \<open>
  C9: When the package at the load address has a file mapping header that lists all three modules, the
  processor supports VMX and xmon_loader's file is a 64-bit image that needs at most the reserved size and is either without
  a dynamic segment or position independent with relative relocations behind its headers, the starter calls xmon_loader's
  relocated entry point with the descriptor built from the header; the image is loaded and relocated at its place in the
  layout and every byte of the package is unchanged, the two modules still to be loaded included.
\<close>

theorem starter_main_enters:
  assumes "elf64_abi_ok L" and "get_phdr64_ok L" and "pie64_abi_ok L"
    and "load = ucast (pi_load_addr m header)"
    and "get_file_offsets_header m (pi_load_addr m header) SCAN_MAX_IMAGE_SIZE = Some h" and "h \<noteq> 0"
    and "check_vmx_support cpuid_rcx feature_control = 0"
    and "unat sizeof_desc \<le> 2 ^ 31"
    and "m1 = mon_memset m (load + of_nat (desc_off debug)) 0 sizeof_desc"
    and "\<And>i. module_present m1 h i"
    and "xd = starter_desc debug m1 h load header magic rsp rbp rflags return_address"
    and "module_ok L info0 ii0 m1 (xd_xmon_loader_file xd) XMON_LOADER_IMG_SIZE ii"
    and "unat (hdr_file_offset m1 h 0) + unat (load_size ii) \<le> LOADER_BIN_SIZE debug"
  shows "\<exists>m2. starter_main L debug sizeof_desc cpuid_rcx feature_control info0 ii0 m
                header magic rsp rbp rflags return_address =
           Some (Enter (module_entry L m1 (xd_xmon_loader_file xd) ii (load + of_nat (xmon_loader_off debug))) xd m2) \<and>
         module_loaded L m1 (xd_xmon_loader_file xd) ii (load + of_nat (xmon_loader_off debug)) m2 \<and>
         (\<forall>x. in_range load (LOADER_BIN_SIZE debug) x \<longrightarrow> m2 x = m x)"
  by (rule starter_main_run [OF assms])

text \<open>A package at 0x10000000 with one executable as all three modules; platform info at 0x500.\<close>

definition demo_hdr :: "u8 list" where
  "demo_hdr = [0x78, 0x5F, 0x3D, 0x1B, 0x89, 0x6E, 0x4C, 0x2A, 7, 0, 0, 0,
     64, 0, 0, 0, 4, 1, 0, 0, 64, 0, 0, 0, 4, 1, 0, 0, 64, 0, 0, 0, 4, 1, 0, 0]"

definition demo_platform :: "u8 list" where
  "demo_platform = [0, 0, 0, 0, 0, 0, 0, 0, 0, 0, 0, 0x10, 0, 0, 0xC0, 0x12]"

definition demo_pkg :: mem where
  "demo_pkg x =
     (let k = unat (x - 0x10000000); j = unat (x - 0x500) in
      if k < 36 then demo_hdr ! k else if 64 \<le> k \<and> k < 324 then demo_elf ! (k - 64)
      else if j < 16 then demo_platform ! j else 0)"

lemmas demo_pkg_eval = load_le_def read_bytes_def demo_pkg_def demo_hdr_def demo_platform_def upt_rec Let_def

lemma demo_pkg_fields:
  "hdr_magic0 demo_pkg 0x10000000 = 0x1B3D5F78" "hdr_magic1 demo_pkg 0x10000000 = 0x2A4C6E89"
  "hdr_flags demo_pkg 0x10000000 = 7"
  "hdr_file_offset demo_pkg 0x10000000 0 = 64" "hdr_file_size demo_pkg 0x10000000 0 = 260"
  "hdr_file_offset demo_pkg 0x10000000 (Suc 0) = 64" "hdr_file_size demo_pkg 0x10000000 (Suc 0) = 260"
  "hdr_file_offset demo_pkg 0x10000000 2 = 64" "hdr_file_size demo_pkg 0x10000000 2 = 260"
  "pi_load_addr demo_pkg 0x500 = 0x10000000" "pi_run_addr demo_pkg 0x500 = 0x12C00000"
  by (simp_all add: hdr_magic0_def hdr_magic1_def hdr_flags_def hdr_file_offset_def hdr_file_size_def
      pi_load_addr_def pi_run_addr_def demo_pkg_eval)

lemma demo_pkg_elf: "demo_at demo_pkg 0x10000040"
  unfolding demo_at_def
proof (intro allI impI)
  fix k :: nat assume k: "k < 260"
  have "(0x10000040 + of_nat k - 0x10000000 :: addr) = of_nat (64 + k)" by simp
  moreover have "unat (of_nat (64 + k) :: addr) = 64 + k" using k by (intro unat_of_nat64) simp
  ultimately have "unat (0x10000040 + of_nat k - 0x10000000 :: addr) = 64 + k" by metis
  then show "demo_pkg (0x10000040 + of_nat k) = demo_elf ! k" using k by (simp add: demo_pkg_def)
qed

lemma demo_pkg_desc: "mon_memset demo_pkg 0x12089000 0 0x1000 = demo_pkg"
proof
  fix x
  have "demo_pkg x = 0" if "in_range 0x12089000 0x1000 x"
  proof -
    have "0x12089000 \<le> unat x \<and> unat x < 0x1208A000" using that by (simp add: in_range_linear)
    then have "unat (x - 0x10000000) = unat x - 0x10000000" "unat (x - 0x500) = unat x - 0x500"
      by (simp_all add: unat_sub_if_size)
    with \<open>0x12089000 \<le> unat x \<and> unat x < 0x1208A000\<close> show ?thesis by (auto simp: demo_pkg_def Let_def)
  qed
  then show "mon_memset demo_pkg 0x12089000 0 0x1000 x = demo_pkg x" by (simp add: mon_memset_apply)
qed

lemma demo_pkg_present: "module_present demo_pkg 0x10000000 i"
  by (cases i) (simp_all add: module_present_def demo_pkg_fields INDEX_TO_BITMAP_FLAG_def)

theorem starter_main_enters_witness:
  "\<exists>xd m2. starter_main elf_std False 0x1000 0x20 5 demo_info zero_image_info demo_pkg 0x500 0x4857b815 0 0 0 0
       = Some (Enter 0x1007D010 xd m2) \<and> xd_runtime_mem_addr xd = 0x12C00000 \<and> m2 0x10000143 = 0xEF"
proof -
  let ?xd = "starter_desc False demo_pkg 0x10000000 0x10000000 0x500 0x4857b815 0 0 0 0"
  let ?ii = "\<lparr>load_size = 0x108, image_machine = Some IMAGE_MACHINE_EM64T\<rparr>"
  have hit: "file_hdr_magics demo_pkg (scan_pos 0x10000000 0)"
    by (simp add: scan_pos_def file_hdr_magics_def demo_pkg_fields
        XMON_LOADERBIN_FILE_MAPPING_HEADER_MAGIC0_def XMON_LOADERBIN_FILE_MAPPING_HEADER_MAGIC1_def)
  have found: "get_file_offsets_header demo_pkg (pi_load_addr demo_pkg 0x500) SCAN_MAX_IMAGE_SIZE = Some 0x10000000"
    using get_file_offsets_header_first [OF _ hit] by (simp add: demo_pkg_fields SCAN_STEPS_def scan_pos_def)
  have f: "xd_xmon_loader_file ?xd = \<lparr>mod_addr = 0x10000040, mod_size = 260\<rparr>"
    by (simp add: starter_desc_def module_file_def ldr_bin_off_def demo_pkg_fields)
  have ok: "module_ok elf_std demo_info zero_image_info demo_pkg (xd_xmon_loader_file ?xd) XMON_LOADER_IMG_SIZE ?ii"
    using at_loadable [OF demo_pkg_elf, of 260] at_loadable [OF demo_pkg_elf, of 264]
      at_get_image_info [OF demo_pkg_elf, of 260 demo_info zero_image_info]
    by (simp add: module_ok_def f zero_image_info_def XMON_LOADER_IMG_SIZE_def)
  have entry: "module_entry elf_std demo_pkg (xd_xmon_loader_file ?xd) ?ii 0x1007D000 = 0x1007D010"
    by (simp add: module_entry_def module_segments_def file_segments64_def f at_loaded [OF demo_pkg_elf]
        segment_low_def at_load [OF demo_pkg_elf, of 24, simplified] demo_ehdr)
  have m1: "demo_pkg = mon_memset demo_pkg (0x10000000 + of_nat (desc_off False)) 0 0x1000"
    by (simp add: layout_offsets demo_pkg_desc)
  have vmx: "check_vmx_support 0x20 5 = 0" by (simp add: check_vmx_support_def)
  obtain m2 where run: "starter_main elf_std False 0x1000 0x20 5 demo_info zero_image_info demo_pkg 0x500
        0x4857b815 0 0 0 0 = Some (Enter 0x1007D010 ?xd m2)"
    and intact: "\<forall>x. in_range 0x10000000 (LOADER_BIN_SIZE False) x \<longrightarrow> m2 x = demo_pkg x"
    using starter_main_enters [OF elf_std_ok elf_std_get_phdr elf_std_pie _ found _ vmx _ m1 demo_pkg_present refl ok] entry
    by (auto simp: demo_pkg_fields layout_offsets LOADER_BIN_SIZE_def)
  have "in_range 0x10000000 (LOADER_BIN_SIZE False) 0x10000143" by (simp add: in_range_def LOADER_BIN_SIZE_def)
  then have "m2 0x10000143 = 0xEF" using intact by (simp add: demo_pkg_def demo_elf_def)
  moreover have "xd_runtime_mem_addr ?xd = 0x12C00000" by (simp add: starter_desc_def demo_pkg_fields)
  ultimately show ?thesis using run by blast
qed

theorem get_file_offsets_header_search_witness:
  "\<exists>h. get_file_offsets_header demo_pkg 0x10000000 SCAN_MAX_IMAGE_SIZE = Some h"
  using get_file_offsets_header_search [of demo_pkg "0x10000000"] by blast

end
