(* ===== verification/Primary_Guest.thy ===== *)
theory Primary_Guest
  imports Xmon_Desc Heap_Manager
begin

text \<open>
  The start state of the primary guest, \<open>pre_os/xmon_loader/primary_guest.c\<close>: what the registers of
  the boot processor hold becomes the saved CPU state that xmon resumes. The registers are the
  argument \<open>bsp_regs\<close>; the two structures live beside memory as records, at the heap blocks the
  code allocates for them. Their headers (sizes, versions, flag values, and the bit fields of a
  segment descriptor) are outside the repository: the parameters \<open>guest_abi\<close> and \<open>desc_view\<close>.
\<close>

section \<open>Registers and their readers\<close>

datatype gp_reg = REG_RAX | REG_RBX | REG_RCX | REG_RDX | REG_RDI | REG_RSI | REG_RBP | REG_RSP
  | REG_RIP | REG_RFLAGS

datatype seg_reg = SEG_CS | SEG_DS | SEG_SS | SEG_ES | SEG_FS | SEG_GS | SEG_LDTR | SEG_TR

datatype ctrl_reg = CTRL_CR0 | CTRL_CR2 | CTRL_CR3 | CTRL_CR4

datatype msr_reg = MSR_SYSENTER_CS | MSR_SYSENTER_EIP | MSR_SYSENTER_ESP | MSR_EFER | MSR_PAT | MSR_DEBUGCTL

record bsp_regs =
  r_sel :: "seg_reg \<Rightarrow> u16"
  r_gdtr_base :: u64
  r_gdtr_limit :: u16
  r_idtr_base :: u64
  r_idtr_limit :: u16
  r_cr :: "ctrl_reg \<Rightarrow> u64"
  r_msr :: "msr_reg \<Rightarrow> u64"

text \<open>
  \<open>__readcr0\<close> to \<open>__readcr4\<close> move the whole register to rax but return \<open>uint32_t\<close>. \<open>__readmsr\<close>
  returns rax as \<open>rdmsr\<close> leaves it: the low half of the register, the high half being in rdx.
\<close>

definition readcr :: "bsp_regs \<Rightarrow> ctrl_reg \<Rightarrow> u32" where "readcr cpu c = ucast (r_cr cpu c)"

definition readmsr :: "bsp_regs \<Rightarrow> msr_reg \<Rightarrow> u64" where "readmsr cpu r = r_msr cpu r AND 0xFFFFFFFF"

text \<open>\<open>__readcs\<close> to \<open>__readss\<close> clear rax and move the selector to ax.\<close>

definition readsel :: "bsp_regs \<Rightarrow> seg_reg \<Rightarrow> u32" where "readsel cpu s = ucast (r_sel cpu s)"

section \<open>The saved state\<close>

record mon_segment =
  seg_base :: u64
  seg_limit :: u32
  seg_attributes :: u32
  seg_selector :: u16

record cpu_state =
  cs_size_of_this_struct :: u64
  cs_version_of_this_struct :: u64
  cs_gp :: "gp_reg \<Rightarrow> u64"
  cs_gdtr_base :: u64
  cs_gdtr_limit :: u32
  cs_idtr_base :: u64
  cs_idtr_limit :: u32
  cs_cr :: "ctrl_reg \<Rightarrow> u64"
  cs_msr_sysenter_cs :: u32
  cs_msr_sysenter_eip :: u64
  cs_msr_sysenter_esp :: u64
  cs_msr_efer :: u64
  cs_msr_pat :: u64
  cs_msr_debugctl :: u64
  cs_pending_exceptions :: u64
  cs_interruptibility_state :: u32
  cs_activity_state :: u32
  cs_smbase :: u32
  cs_segment :: "seg_reg \<Rightarrow> mon_segment"

record guest_startup =
  g_size_of_this_struct :: u64
  g_version_of_this_struct :: u64
  g_flags :: u32
  g_guest_magic_number :: u32
  g_cpu_affinity :: u32
  g_cpu_states_count :: u32
  g_devices_count :: u32
  g_image_size :: u32
  g_image_address :: u64
  g_physical_memory_size :: u64
  g_image_offset :: u64
  g_cpu_states_array :: u64
  g_devices_array :: u64

definition zero_segment :: mon_segment where
  "zero_segment = \<lparr>seg_base = 0, seg_limit = 0, seg_attributes = 0, seg_selector = 0\<rparr>"

text \<open>A structure in a block that \<open>allocate_memory\<close> has cleared.\<close>

definition zero_cpu_state :: cpu_state where
  "zero_cpu_state = \<lparr>cs_size_of_this_struct = 0, cs_version_of_this_struct = 0, cs_gp = (\<lambda>_. 0),
     cs_gdtr_base = 0, cs_gdtr_limit = 0, cs_idtr_base = 0, cs_idtr_limit = 0, cs_cr = (\<lambda>_. 0),
     cs_msr_sysenter_cs = 0, cs_msr_sysenter_eip = 0, cs_msr_sysenter_esp = 0, cs_msr_efer = 0,
     cs_msr_pat = 0, cs_msr_debugctl = 0, cs_pending_exceptions = 0, cs_interruptibility_state = 0,
     cs_activity_state = 0, cs_smbase = 0, cs_segment = (\<lambda>_. zero_segment)\<rparr>"

record guest_abi =
  sizeof_cpu_state :: u64
  CPU_STARTUP_STATE_VERSION :: u64
  sizeof_guest_startup :: u64
  GUEST_STARTUP_VERSION :: u64
  FLAG_LAUNCH_IMMEDIATELY :: u32
  FLAG_REAL_BIOS_ACCESS_ENABLE :: u32

section \<open>Segment descriptors\<close>

text \<open>
  The bit fields of \<open>ia32_segment_descriptor_t\<close>, as functions of the eight bytes of a descriptor.
  \<open>hi_bit d n\<close> is the one-bit field of \<open>hi\<close> at bit \<open>n\<close>: \<open>mbz_10\<close>, \<open>mbo_8\<close> and so on carry \<open>n\<close> in
  their names, \<open>s\<close> is bit 12, \<open>present\<close> bit 15, \<open>default_size\<close> and \<open>big\<close> bit 22, \<open>granularity\<close> bit 23.
\<close>

record desc_view =
  base_address_15_00 :: "u64 \<Rightarrow> u32"
  base_address_23_16 :: "u64 \<Rightarrow> u32"
  base_address_31_24 :: "u64 \<Rightarrow> u32"
  limit_15_00 :: "u64 \<Rightarrow> u32"
  limit_19_16 :: "u64 \<Rightarrow> u32"
  gen_attributes :: "u64 \<Rightarrow> u16"
  hi_bit :: "u64 \<Rightarrow> nat \<Rightarrow> bool"

text \<open>The layout of the processor manual, which the bit fields follow.\<close>

definition sdm_view :: desc_view where
  "sdm_view = \<lparr>base_address_15_00 = (\<lambda>d. ucast (take_bit 16 (drop_bit 16 d))),
     base_address_23_16 = (\<lambda>d. ucast (take_bit 8 (drop_bit 32 d))),
     base_address_31_24 = (\<lambda>d. ucast (take_bit 8 (drop_bit 56 d))),
     limit_15_00 = (\<lambda>d. ucast (take_bit 16 d)),
     limit_19_16 = (\<lambda>d. ucast (take_bit 4 (drop_bit 48 d))),
     gen_attributes = (\<lambda>d. ucast (drop_bit 40 d)),
     hi_bit = (\<lambda>d n. bit d (32 + n))\<rparr>"

definition validate_descriptor :: "desc_view \<Rightarrow> u64 \<Rightarrow> int" where
  "validate_descriptor V d =
     (if \<not> hi_bit V d 15 \<or> hi_bit V d 21 then -1
      else if \<not> hi_bit V d 12 then
        if \<not> hi_bit V d 8 \<or> hi_bit V d 10 \<or> \<not> hi_bit V d 11 \<or> hi_bit V d 12 \<or> hi_bit V d 21 \<or> hi_bit V d 22
        then -1 else 0
      else if gen_attributes V d AND 0x0008 \<noteq> 0 then
        if \<not> hi_bit V d 11 \<or> \<not> hi_bit V d 12 \<or> \<not> hi_bit V d 22 then -1 else 0
      else
        if hi_bit V d 11 \<or> \<not> hi_bit V d 12 \<or> \<not> hi_bit V d 22 then -1 else 0)"

text \<open>
  The three parts of a base are \<open>int\<close>s after promotion, so the conversion to \<open>uint64_t\<close> extends
  bit 31 of the result.
\<close>

definition save_segment_data ::
  "desc_view \<Rightarrow> bsp_regs \<Rightarrow> mem \<Rightarrow> u16 \<Rightarrow> mon_segment \<Rightarrow> mon_segment" where
  "save_segment_data V cpu m sel16 ss =
     (let max = unat (r_gdtr_limit cpu) div 8;
          index = drop_bit 3 sel16
      in if index = 0 \<or> unat index div 8 > max \<or> bit sel16 2 then ss
         else
           let desc = load64 m (r_gdtr_base cpu + 8 * ucast index) :: u64;
               limit = limit_15_00 V desc OR push_bit 16 (limit_19_16 V desc)
           in \<lparr>seg_base = scast (base_address_15_00 V desc OR push_bit 16 (base_address_23_16 V desc)
                                 OR push_bit 24 (base_address_31_24 V desc)),
               seg_limit = (if hi_bit V desc 23 then push_bit 12 limit OR 0x00000fff else limit),
               seg_attributes = ucast (gen_attributes V desc AND NOT 0x0F00),
               seg_selector = sel16\<rparr>)"

definition save_control_state :: "bsp_regs \<Rightarrow> cpu_state \<Rightarrow> cpu_state" where
  "save_control_state cpu s =
     s\<lparr>cs_gdtr_base := r_gdtr_base cpu, cs_gdtr_limit := ucast (r_gdtr_limit cpu),
       cs_idtr_base := r_idtr_base cpu, cs_idtr_limit := ucast (r_idtr_limit cpu),
       cs_cr := (\<lambda>c. ucast (readcr cpu c)),
       cs_msr_sysenter_cs := ucast (readmsr cpu MSR_SYSENTER_CS),
       cs_msr_sysenter_eip := readmsr cpu MSR_SYSENTER_EIP,
       cs_msr_sysenter_esp := readmsr cpu MSR_SYSENTER_ESP,
       cs_msr_efer := readmsr cpu MSR_EFER, cs_msr_pat := readmsr cpu MSR_PAT,
       cs_msr_debugctl := readmsr cpu MSR_DEBUGCTL,
       cs_pending_exceptions := 0, cs_interruptibility_state := 0, cs_activity_state := 0,
       cs_smbase := 0\<rparr>"

definition save_segment :: "desc_view \<Rightarrow> bsp_regs \<Rightarrow> mem \<Rightarrow> seg_reg \<Rightarrow> cpu_state \<Rightarrow> cpu_state" where
  "save_segment V cpu m r s =
     s\<lparr>cs_segment := (cs_segment s)(r := save_segment_data V cpu m (ucast (readsel cpu r)) (cs_segment s r))\<rparr>"

definition save_other_cpu_state :: "desc_view \<Rightarrow> bsp_regs \<Rightarrow> mem \<Rightarrow> cpu_state \<Rightarrow> cpu_state" where
  "save_other_cpu_state V cpu m s =
     (let s = save_control_state cpu s
      in if drop_bit 3 (r_sel cpu SEG_LDTR) \<noteq> 0 then s
         else
           let seg = cs_segment s;
               s = s\<lparr>cs_segment := seg(
                      SEG_LDTR := (seg SEG_LDTR)\<lparr>seg_attributes := 0x00010000\<rparr>,
                      SEG_TR := (seg SEG_TR)\<lparr>seg_attributes := 0x0000808b, seg_limit := 0xffffffff\<rparr>)\<rparr>
           in fold (save_segment V cpu m) [SEG_CS, SEG_DS, SEG_ES, SEG_FS, SEG_GS, SEG_SS] s)"

section \<open>Building the guest\<close>

text \<open>The ten general registers that the loader sets before it saves the rest.\<close>

definition guest_gp :: "addr \<Rightarrow> initial_state \<Rightarrow> gp_reg \<Rightarrow> u64" where
  "guest_gp xd_addr st r = (case r of
       REG_RIP \<Rightarrow> st_rip st | REG_RSP \<Rightarrow> st_rsp st | REG_RBX \<Rightarrow> st_rbx st | REG_RAX \<Rightarrow> st_rax st
     | REG_RFLAGS \<Rightarrow> st_rflags st | REG_RCX \<Rightarrow> xd_addr | REG_RDX \<Rightarrow> st_rdx st | REG_RBP \<Rightarrow> st_rbp st
     | REG_RSI \<Rightarrow> st_rsi st | REG_RDI \<Rightarrow> st_rdi st)"

definition bsp_cpu_state ::
  "desc_view \<Rightarrow> guest_abi \<Rightarrow> bsp_regs \<Rightarrow> mem \<Rightarrow> addr \<Rightarrow> initial_state \<Rightarrow> cpu_state" where
  "bsp_cpu_state V G cpu m xd_addr st =
     save_other_cpu_state V cpu m
       (zero_cpu_state\<lparr>cs_size_of_this_struct := sizeof_cpu_state G,
          cs_version_of_this_struct := CPU_STARTUP_STATE_VERSION G, cs_gp := guest_gp xd_addr st\<rparr>)"

definition primary_guest_startup :: "guest_abi \<Rightarrow> addr \<Rightarrow> guest_startup" where
  "primary_guest_startup G bsp_cpu =
     \<lparr>g_size_of_this_struct = sizeof_guest_startup G, g_version_of_this_struct = GUEST_STARTUP_VERSION G,
      g_flags = FLAG_LAUNCH_IMMEDIATELY G OR FLAG_REAL_BIOS_ACCESS_ENABLE G,
      g_guest_magic_number = 0, g_cpu_affinity = 0xFFFFFFFF, g_cpu_states_count = 1, g_devices_count = 0,
      g_image_size = 0, g_image_address = 0, g_physical_memory_size = 0, g_image_offset = 0,
      g_cpu_states_array = bsp_cpu, g_devices_array = 0\<rparr>"

record primary_guest =
  pg_addr :: addr
  pg_startup :: guest_startup
  pg_cpu_addr :: addr
  pg_cpu :: cpu_state

definition setup_primary_guest_env ::
  "desc_view \<Rightarrow> guest_abi \<Rightarrow> (u32 \<Rightarrow> u64 \<Rightarrow> u64) \<Rightarrow> bsp_regs \<Rightarrow> mem \<Rightarrow> heap \<Rightarrow> addr \<Rightarrow> xmon_desc
     \<Rightarrow> primary_guest option \<times> heap \<times> mem" where
  "setup_primary_guest_env V G af cpu m h xd_addr xd =
     (let num_of_cpu = 1;
          (bsp_cpu, h, m) = allocate_memory af m h (num_of_cpu * sizeof_cpu_state G)
      in if bsp_cpu = 0 then (None, h, m)
         else
           let s = bsp_cpu_state V G cpu m xd_addr (xd_initial_state xd);
               (guest, h, m) = allocate_memory af m h (sizeof_guest_startup G)
           in if guest = 0 then (None, h, m)
              else (Some \<lparr>pg_addr = guest, pg_startup = primary_guest_startup G bsp_cpu,
                         pg_cpu_addr = bsp_cpu, pg_cpu = s\<rparr>, h, m))"

section \<open>Segments\<close>

text \<open>
  A descriptor as the processor manual lays it out: a 32-bit base, a 20-bit limit and the attribute
  bits (access byte in bits 0 to 7, flags in bits 12 to 15; bits 8 to 11 are where the limit goes).
\<close>

definition gdt_entry :: "u32 \<Rightarrow> u32 \<Rightarrow> u16 \<Rightarrow> u64" where
  "gdt_entry base lim attr =
     take_bit 16 (ucast lim) OR push_bit 16 (take_bit 24 (ucast base))
     OR push_bit 40 (ucast (attr AND 0xF0FF)) OR push_bit 48 (take_bit 4 (drop_bit 16 (ucast lim)))
     OR push_bit 56 (drop_bit 24 (ucast base))"

lemma attr_masks: "(0x0F00 :: u16) = push_bit 8 (mask 4)" "(0xF0FF :: u16) = NOT (push_bit 8 (mask 4))"
  by (simp_all add: mask_eq_exp_minus_1)

lemma bit_gdt_entry:
  "bit (gdt_entry base lim attr) n \<longleftrightarrow>
     (if n < 16 then bit lim n
      else if n < 40 then bit base (n - 16)
      else if n < 48 then bit attr (n - 40)
      else if n < 52 then bit lim (n - 32)
      else if n < 56 then bit attr (n - 40)
      else n < 64 \<and> bit base (n - 32))"
proof -
  consider "n < 16" | "16 \<le> n" "n < 40" | "40 \<le> n" "n < 48" | "48 \<le> n" "n < 52" | "52 \<le> n" "n < 56"
    | "56 \<le> n" "n < 64" | "64 \<le> n" by linarith
  then show ?thesis
    by cases (simp_all add: gdt_entry_def attr_masks bit_simps bit_imp_le_length less_diff_conv2 le_diff_conv2)
qed

lemma gdt_entry_base:
  "base_address_15_00 sdm_view (gdt_entry base lim attr)
   OR push_bit 16 (base_address_23_16 sdm_view (gdt_entry base lim attr))
   OR push_bit 24 (base_address_31_24 sdm_view (gdt_entry base lim attr)) = base"
proof (rule bit_word_eqI)
  fix n assume "n < LENGTH(32)"
  then consider "n < 16" | "16 \<le> n" "n < 24" | "24 \<le> n" "n < 32" by fastforce
  then show "bit (base_address_15_00 sdm_view (gdt_entry base lim attr)
     OR push_bit 16 (base_address_23_16 sdm_view (gdt_entry base lim attr))
     OR push_bit 24 (base_address_31_24 sdm_view (gdt_entry base lim attr))) n = bit base n"
    by cases (simp_all add: sdm_view_def bit_simps bit_gdt_entry less_diff_conv2)
qed

lemma gdt_entry_limit:
  "limit_15_00 sdm_view (gdt_entry base lim attr)
   OR push_bit 16 (limit_19_16 sdm_view (gdt_entry base lim attr)) = take_bit 20 lim"
proof (rule bit_word_eqI)
  fix n assume "n < LENGTH(32)"
  then consider "n < 16" | "16 \<le> n" "n < 20" | "20 \<le> n" "n < 32" by fastforce
  then show "bit (limit_15_00 sdm_view (gdt_entry base lim attr)
     OR push_bit 16 (limit_19_16 sdm_view (gdt_entry base lim attr))) n = bit (take_bit 20 lim) n"
    by cases (simp_all add: sdm_view_def bit_simps bit_gdt_entry less_diff_conv2)
qed

lemma gdt_entry_attributes:
  "gen_attributes sdm_view (gdt_entry base lim attr) AND NOT 0x0F00 = attr AND 0xF0FF"
proof (rule bit_word_eqI)
  fix n assume "n < LENGTH(16)"
  then consider "n < 8" | "8 \<le> n" "n < 12" | "12 \<le> n" "n < 16" by fastforce
  then show "bit (gen_attributes sdm_view (gdt_entry base lim attr) AND NOT 0x0F00) n
     = bit (attr AND 0xF0FF) n"
    by cases (simp_all add: sdm_view_def attr_masks bit_simps bit_gdt_entry less_diff_conv2)
qed

lemma gdt_entry_hi_bit:
  "n \<in> {8..<16} \<union> {20..<24} \<Longrightarrow> hi_bit sdm_view (gdt_entry base lim attr) n = bit attr (n - 8)"
  by (auto simp: sdm_view_def bit_gdt_entry)

text \<open>
  C35: For a selector that the code accepts, with a descriptor of the processor's layout at its index,
  the saved segment has the descriptor's limit (scaled to bytes when the granularity bit is set) and
  attributes and the selector; its base is the descriptor's base with bit 31 extended, so exactly
  the bases below 2 GB come out right.
\<close>

theorem save_segment_data_descriptor:
  assumes "drop_bit 3 sel \<noteq> 0" and "\<not> bit sel 2"
    and "unat (drop_bit 3 sel) \<le> unat (r_gdtr_limit cpu)"
    and "load64 m (r_gdtr_base cpu + 8 * ucast (drop_bit 3 sel)) = gdt_entry base lim attr"
  shows "let s = save_segment_data sdm_view cpu m sel ss in
      seg_selector s = sel \<and> seg_attributes s = ucast (attr AND 0xF0FF) \<and>
      seg_limit s = (if bit attr 15 then push_bit 12 (take_bit 20 lim) OR 0xFFF else take_bit 20 lim) \<and>
      seg_base s = scast base \<and> (seg_base s = ucast base \<longleftrightarrow> unat base < 2 ^ 31)"
proof -
  have "unat (drop_bit 3 sel) div 8 \<le> unat (r_gdtr_limit cpu) div 8" using assms(3) by (rule div_le_mono)
  then have acc: "\<not> (drop_bit 3 sel = 0 \<or> unat (drop_bit 3 sel) div 8 > unat (r_gdtr_limit cpu) div 8 \<or> bit sel 2)"
    using assms(1,2) by simp
  have "(scast base :: u64) = ucast base \<longleftrightarrow> unat base < 2 ^ 31"
  proof
    assume "(scast base :: u64) = ucast base"
    then have "bit (scast base :: u64) 63 = bit (ucast base :: u64) 63" by simp
    then have "\<not> bit base 31" by (auto simp: bit_simps dest: bit_imp_le_length)
    then have "base = take_bit 31 base"
      by (intro bit_word_eqI) (auto simp: bit_simps less_Suc_eq numeral_eq_Suc)
    then show "unat base < 2 ^ 31" by (metis take_bit_nat_less_exp unsigned_take_bit_eq)
  next
    assume "unat base < 2 ^ 31"
    then have "\<not> bit (unat base) 31" by (simp add: bit_iff_odd)
    then have "0 \<le> sint base" by (simp add: sint_uint signed_take_bit_nonnegative_iff bit_uint_iff bit_unsigned_iff)
    then show "(scast base :: u64) = ucast base" by (rule scast_nonneg)
  qed
  then show ?thesis
    unfolding save_segment_data_def Let_def if_not_P [OF acc] assms(4)
    by (simp add: gdt_entry_base gdt_entry_limit gdt_entry_attributes [simplified] gdt_entry_hi_bit)
qed

text \<open>A flat code segment: base 0x80000000 with bit 31 set, 4 GB in pages, selector 8.\<close>

definition demo_cpu :: bsp_regs where
  "demo_cpu = \<lparr>r_sel = (\<lambda>s. if s = SEG_LDTR \<or> s = SEG_TR then 0 else 8), r_gdtr_base = 0x1000,
     r_gdtr_limit = 15, r_idtr_base = 0, r_idtr_limit = 0, r_cr = (\<lambda>_. 0x123456789),
     r_msr = (\<lambda>_. 0x0007040600070406)\<rparr>"

definition demo_gdt :: mem where
  "demo_gdt = store64 (\<lambda>_. 0) 0x1008 (gdt_entry 0x80000000 0xFFFFF 0xC09B)"

theorem save_segment_data_descriptor_witness:
  "let s = save_segment_data sdm_view demo_cpu demo_gdt 8 zero_segment
   in seg_selector s = 8 \<and> seg_attributes s = 0xC09B \<and> seg_limit s = 0xFFFFFFFF \<and>
      seg_base s = 0xFFFFFFFF80000000"
proof -
  have "drop_bit 3 (8 :: u16) = 1" by (simp add: drop_bit_eq_div)
  then show ?thesis
    using save_segment_data_descriptor [of 8 demo_cpu demo_gdt "0x80000000" "0xFFFFF" "0xC09B" zero_segment]
    by (simp add: demo_cpu_def demo_gdt_def Let_def bit_numeral_rec)
qed

text \<open>
  The bound on the selector's index is eight times too large. For every GDT limit up to 0x1FFF
  and every index with \<open>limit < 8 * index\<close> and \<open>index \<le> limit\<close>, the descriptor lies past the table
  and is used all the same: two memories that agree on the whole table give different segments.
\<close>

lemma save_segment_data_past_gdt:
  assumes "unat (r_gdtr_limit cpu) < 8 * unat (drop_bit 3 sel)"
    and "unat (drop_bit 3 sel) \<le> unat (r_gdtr_limit cpu)" and "\<not> bit sel 2"
  shows "\<exists>m1 m2. (\<forall>x. in_range (r_gdtr_base cpu) (unat (r_gdtr_limit cpu) + 1) x \<longrightarrow> m1 x = m2 x) \<and>
            save_segment_data sdm_view cpu m1 sel ss \<noteq> save_segment_data sdm_view cpu m2 sel ss"
proof -
  let ?a = "r_gdtr_base cpu + 8 * ucast (drop_bit 3 sel)"
  let ?m = "\<lambda>base. store64 (\<lambda>_. 0) ?a (gdt_entry base 0 0)"
  have ix: "drop_bit 3 sel \<noteq> 0" using assms(1) by (metis mult_0_right not_less_zero unat_0)
  have u: "unat (8 * ucast (drop_bit 3 sel) :: addr) = 8 * unat (drop_bit 3 sel)"
    using unat_less16 [of "drop_bit 3 sel"] by (simp add: unat_word_ariths unat_ucast_up del: unat_less16)
  have "disjoint_ranges (r_gdtr_base cpu + 0) (unat (r_gdtr_limit cpu) + 1) ?a 8"
    using assms(1) u unat_less16 [of "r_gdtr_limit cpu"] unat_less16 [of "drop_bit 3 sel"]
    by (intro fields_disjoint) (simp_all del: unat_less16)
  then have "?m 0 x = ?m 4096 x" if "in_range (r_gdtr_base cpu) (unat (r_gdtr_limit cpu) + 1) x" for x
    using that disjoint_ranges_not_both [of "r_gdtr_base cpu"] by (auto simp: store_le_apply)
  moreover have base: "seg_base (save_segment_data sdm_view cpu (?m base) sel ss) = scast base" for base
    using save_segment_data_descriptor [of sel cpu "?m base" base 0 0 ss] ix assms(2,3)
    by (simp add: Let_def)
  then have "save_segment_data sdm_view cpu (?m 0) sel ss \<noteq> save_segment_data sdm_view cpu (?m 4096) sel ss"
    using base [of 0] base [of 4096] by force
  ultimately show ?thesis by blast
qed

lemma save_segment_data_past_gdt_witness:
  "\<exists>m1 m2. (\<forall>x. in_range 0x1000 16 x \<longrightarrow> m1 x = m2 x) \<and>
     save_segment_data sdm_view demo_cpu m1 0x78 zero_segment
       \<noteq> save_segment_data sdm_view demo_cpu m2 0x78 zero_segment"
proof -
  have "drop_bit 3 (0x78 :: u16) = 15" by (simp add: drop_bit_eq_div)
  then show ?thesis
    using save_segment_data_past_gdt [of demo_cpu "0x78" zero_segment]
    by (simp add: demo_cpu_def bit_numeral_rec)
qed

text \<open>
  \<open>validate_descriptor\<close>, whose call is compiled out, would refuse the code segments of the mode
  the loader runs in: it requires the default size bit, and a 64-bit code segment has it clear.
\<close>

lemma validate_descriptor_refuses_long_mode:
  assumes "bit attr 4" and "bit attr 3" and "bit attr 13" and "\<not> bit attr 14"
  shows "validate_descriptor sdm_view (gdt_entry base lim attr) = -1"
proof -
  have "bit (gen_attributes sdm_view (gdt_entry base lim attr) AND 0x0008) 3"
    using assms(2) by (simp add: sdm_view_def bit_simps bit_gdt_entry bit_numeral_rec)
  then have "gen_attributes sdm_view (gdt_entry base lim attr) AND 0x0008 \<noteq> 0" by auto
  then show ?thesis using assms by (simp add: validate_descriptor_def gdt_entry_hi_bit)
qed

lemma validate_descriptor_refuses_long_mode_witness:
  "validate_descriptor sdm_view (gdt_entry 0 0xFFFFF 0xA09B) = -1"
  by (rule validate_descriptor_refuses_long_mode) (simp_all add: bit_numeral_rec)

section \<open>The guest\<close>

text \<open>What a request does in a good heap.\<close>

lemma allocate_memory_eval:
  assumes "aligns_forward af" and "heap_inv8 h" and "ok_bytes r"
  shows "allocate_memory af m h r =
     (if unat (heap_current h) + unat r \<le> unat (heap_tops h)
      then (ucast (heap_current h), h\<lparr>heap_current := heap_current h + ucast r\<rparr>,
            zero_mem m (ucast (heap_current h)) r)
      else (0, h, m))"
proof -
  have "unat (af (heap_current h) MEM_ALLOCATE_ALIGNMENT) = unat (heap_current h)"
    using assms by (simp add: aligns_forward8 heap_inv8_def)
  then have "af (heap_current h) MEM_ALLOCATE_ALIGNMENT = ucast (heap_current h)"
    by (metis unat_ucast_u32_u64 word_unat_eq_iff)
  moreover have "unat (ucast (heap_current h) + r :: u64) = unat (heap_current h) + unat r"
    using assms(3) by (intro unat_current_plus) (simp add: ok_bytes_def)
  moreover have "(ucast (ucast (heap_current h) + r :: u64) :: u32) = heap_current h + ucast r"
    by (simp add: ucast_add_down)
  ultimately show ?thesis by (simp add: allocate_memory_def word_less_nat_alt Let_def)
qed

text \<open>A good request that fits leaves a good heap.\<close>

lemma heap_inv8_advance:
  assumes "heap_inv8 h" and "ok_bytes r" and "unat (heap_current h) + unat r \<le> unat (heap_tops h)"
  shows "heap_inv8 (h\<lparr>heap_current := heap_current h + ucast r\<rparr>)"
    and "unat (heap_current h + ucast r) = unat (heap_current h) + unat r"
proof -
  have "unat (heap_current h) + unat r < 2 ^ 32"
    using assms(3) unat_less32 [of "heap_tops h"] by linarith
  moreover from this have "unat (ucast r :: u32) = unat r" by (intro unat_ucast_u64_u32) simp
  ultimately show sum: "unat (heap_current h + ucast r) = unat (heap_current h) + unat r"
    by (simp add: unat_word_ariths)
  show "heap_inv8 (h\<lparr>heap_current := heap_current h + ucast r\<rparr>)"
    using assms by (auto simp: heap_inv8_def ok_bytes_def sum)
qed

lemma save_segment_over:
  "save_segment V cpu m r (s\<lparr>cs_segment := g\<rparr>) =
     s\<lparr>cs_segment := g(r := save_segment_data V cpu m (ucast (readsel cpu r)) (g r))\<rparr>"
  by (simp add: save_segment_def)

lemma save_other_cpu_state_keeps:
  "\<exists>seg. save_other_cpu_state V cpu m s = (save_control_state cpu s)\<lparr>cs_segment := seg\<rparr>"
proof (cases "drop_bit 3 (r_sel cpu SEG_LDTR) = 0")
  case True
  then show ?thesis
    unfolding save_other_cpu_state_def Let_def fold_simps save_segment_over by auto
next
  case False
  then have "save_other_cpu_state V cpu m s =
      (save_control_state cpu s)\<lparr>cs_segment := cs_segment (save_control_state cpu s)\<rparr>"
    by (simp add: save_other_cpu_state_def Let_def)
  then show ?thesis by blast
qed

text \<open>The segments of the saved state: none with a local table, else six from their descriptors and two fixed ones.\<close>

lemma bsp_cpu_state_segments:
  "cs_segment (bsp_cpu_state V G cpu m xd_addr st) r =
     (if drop_bit 3 (r_sel cpu SEG_LDTR) \<noteq> 0 then zero_segment
      else case r of
        SEG_LDTR \<Rightarrow> zero_segment\<lparr>seg_attributes := 0x00010000\<rparr>
      | SEG_TR \<Rightarrow> zero_segment\<lparr>seg_attributes := 0x0000808b, seg_limit := 0xffffffff\<rparr>
      | _ \<Rightarrow> save_segment_data V cpu m (r_sel cpu r) zero_segment)"
proof -
  have sel: "(ucast (readsel cpu q) :: u16) = r_sel cpu q" for q
    by (rule bit_word_eqI) (simp add: readsel_def bit_simps)
  show ?thesis
  proof (cases "drop_bit 3 (r_sel cpu SEG_LDTR) = 0")
    case True
    then show ?thesis
      unfolding bsp_cpu_state_def save_other_cpu_state_def Let_def fold_simps save_segment_over sel
      by (cases r) (simp_all add: save_control_state_def zero_cpu_state_def)
  next
    case False
    then show ?thesis by (simp add: bsp_cpu_state_def save_other_cpu_state_def save_control_state_def zero_cpu_state_def Let_def)
  qed
qed

text \<open>Everything else in it.\<close>

lemma bsp_cpu_state_rest:
  "(bsp_cpu_state V G cpu m xd_addr st)\<lparr>cs_segment := \<lambda>_. zero_segment\<rparr> =
   \<lparr>cs_size_of_this_struct = sizeof_cpu_state G, cs_version_of_this_struct = CPU_STARTUP_STATE_VERSION G,
    cs_gp = (\<lambda>_. 0)(REG_RAX := st_rax st, REG_RBX := st_rbx st, REG_RCX := xd_addr, REG_RDX := st_rdx st,
      REG_RDI := st_rdi st, REG_RSI := st_rsi st, REG_RBP := st_rbp st, REG_RSP := st_rsp st,
      REG_RIP := st_rip st, REG_RFLAGS := st_rflags st),
    cs_gdtr_base = r_gdtr_base cpu, cs_gdtr_limit = ucast (r_gdtr_limit cpu),
    cs_idtr_base = r_idtr_base cpu, cs_idtr_limit = ucast (r_idtr_limit cpu),
    cs_cr = (\<lambda>c. r_cr cpu c AND 0xFFFFFFFF),
    cs_msr_sysenter_cs = ucast (r_msr cpu MSR_SYSENTER_CS),
    cs_msr_sysenter_eip = r_msr cpu MSR_SYSENTER_EIP AND 0xFFFFFFFF,
    cs_msr_sysenter_esp = r_msr cpu MSR_SYSENTER_ESP AND 0xFFFFFFFF,
    cs_msr_efer = r_msr cpu MSR_EFER AND 0xFFFFFFFF, cs_msr_pat = r_msr cpu MSR_PAT AND 0xFFFFFFFF,
    cs_msr_debugctl = r_msr cpu MSR_DEBUGCTL AND 0xFFFFFFFF,
    cs_pending_exceptions = 0, cs_interruptibility_state = 0, cs_activity_state = 0, cs_smbase = 0,
    cs_segment = (\<lambda>_. zero_segment)\<rparr>"
proof -
  obtain seg where cpu: "bsp_cpu_state V G cpu m xd_addr st =
      (save_control_state cpu (zero_cpu_state\<lparr>cs_size_of_this_struct := sizeof_cpu_state G,
          cs_version_of_this_struct := CPU_STARTUP_STATE_VERSION G, cs_gp := guest_gp xd_addr st\<rparr>))\<lparr>cs_segment := seg\<rparr>"
    unfolding bsp_cpu_state_def using save_other_cpu_state_keeps by blast
  have gp: "guest_gp xd_addr st = (\<lambda>_. 0)(REG_RAX := st_rax st, REG_RBX := st_rbx st, REG_RCX := xd_addr, REG_RDX := st_rdx st,
      REG_RDI := st_rdi st, REG_RSI := st_rsi st, REG_RBP := st_rbp st, REG_RSP := st_rsp st,
      REG_RIP := st_rip st, REG_RFLAGS := st_rflags st)"
  proof
    fix r show "guest_gp xd_addr st r = ((\<lambda>_. 0)(REG_RAX := st_rax st, REG_RBX := st_rbx st, REG_RCX := xd_addr,
      REG_RDX := st_rdx st, REG_RDI := st_rdi st, REG_RSI := st_rsi st, REG_RBP := st_rbp st, REG_RSP := st_rsp st,
      REG_RIP := st_rip st, REG_RFLAGS := st_rflags st)) r" by (cases r) (simp_all add: guest_gp_def)
  qed
  have "(ucast (r_msr cpu MSR_SYSENTER_CS AND 0xFFFFFFFF) :: u32) = ucast (r_msr cpu MSR_SYSENTER_CS)"
    unfolding ucast_low_half [symmetric] by simp
  then show ?thesis
    unfolding cpu by (simp add: save_control_state_def readcr_def readmsr_def gp zero_cpu_state_def ucast_low_half)
qed

lemma setup_primary_guest_env_result:
  assumes "aligns_forward af" and "heap_inv8 h"
    and "ok_bytes (sizeof_cpu_state G)" and "ok_bytes (sizeof_guest_startup G)"
    and "unat (heap_current h) + unat (sizeof_cpu_state G) + unat (sizeof_guest_startup G)
           \<le> unat (heap_tops h)"
  shows "\<exists>g h' m'. setup_primary_guest_env V G af cpu m h xd_addr xd = (Some g, h', m') \<and>
     unat (pg_cpu_addr g) = unat (heap_current h) \<and>
     unat (pg_addr g) = unat (heap_current h) + unat (sizeof_cpu_state G) \<and>
     unat (heap_current h') = unat (pg_addr g) + unat (sizeof_guest_startup G) \<and> heap_inv8 h' \<and> heap_tops h' = heap_tops h \<and>
     (\<forall>x. \<not> (unat (heap_current h) \<le> unat x \<and> unat x < unat (heap_current h')) \<longrightarrow> m' x = m x) \<and>
     g_cpu_states_array (pg_startup g) = pg_cpu_addr g \<and> g_cpu_states_count (pg_startup g) = 1 \<and>
     cs_gp (pg_cpu g) REG_RIP = st_rip (xd_initial_state xd) \<and> cs_gp (pg_cpu g) REG_RCX = xd_addr \<and>
     cs_cr (pg_cpu g) CTRL_CR3 = r_cr cpu CTRL_CR3 AND 0xFFFFFFFF \<and>
     cs_msr_pat (pg_cpu g) = r_msr cpu MSR_PAT AND 0xFFFFFFFF \<and>
     pg_startup g = primary_guest_startup G (pg_cpu_addr g) \<and>
     pg_cpu g = bsp_cpu_state V G cpu (zero_mem m (pg_cpu_addr g) (sizeof_cpu_state G)) xd_addr (xd_initial_state xd)"
proof -
  let ?c = "heap_current h" and ?a = "sizeof_cpu_state G" and ?b = "sizeof_guest_startup G"
  let ?h1 = "h\<lparr>heap_current := ?c + ucast ?a\<rparr>"
  let ?h2 = "?h1\<lparr>heap_current := heap_current ?h1 + ucast ?b\<rparr>"
  let ?m1 = "zero_mem m (ucast ?c) ?a"
  have fit1: "unat ?c + unat ?a \<le> unat (heap_tops h)" using assms(5) by simp
  note h1 = heap_inv8_advance [OF assms(2,3) fit1]
  have fit2: "unat (heap_current ?h1) + unat ?b \<le> unat (heap_tops ?h1)" using assms(5) h1(2) by simp
  note h2 = heap_inv8_advance [OF h1(1) assms(4) fit2]
  have nz: "(ucast ?c :: addr) \<noteq> 0" "(ucast (heap_current ?h1) :: addr) \<noteq> 0"
    using assms(2) h1(1) by (auto simp: heap_inv8_def unat_0_iff [symmetric])
  have run: "setup_primary_guest_env V G af cpu m h xd_addr xd =
     (Some \<lparr>pg_addr = ucast (heap_current ?h1), pg_startup = primary_guest_startup G (ucast ?c),
        pg_cpu_addr = ucast ?c, pg_cpu = bsp_cpu_state V G cpu ?m1 xd_addr (xd_initial_state xd)\<rparr>,
      ?h2, zero_mem ?m1 (ucast (heap_current ?h1)) ?b)"
    unfolding setup_primary_guest_env_def
    using nz fit1 fit2 allocate_memory_eval [OF assms(1,2,3), of m]
      allocate_memory_eval [OF assms(1) h1(1) assms(4), of ?m1]
    by (simp add: Let_def)
  note rest = bsp_cpu_state_rest [of V G cpu ?m1 xd_addr "xd_initial_state xd"]
  note parts = arg_cong [OF rest, of cs_gp] arg_cong [OF rest, of cs_cr] arg_cong [OF rest, of cs_msr_pat]
  have "zero_mem ?m1 (ucast (heap_current ?h1)) ?b x = m x"
    if "\<not> (unat ?c \<le> unat x \<and> unat x < unat (heap_current ?h2))" for x
  proof -
    have b: "unat ?c + unat ?a + unat ?b \<le> 2 ^ 64" using assms(5) by (rule le_unat32_bound)
    then have "in_range (ucast ?c) (unat ?a) x \<longleftrightarrow> unat ?c \<le> unat x \<and> unat x < unat ?c + unat ?a"
      by (subst in_range_linear) simp_all
    moreover have "in_range (ucast (heap_current ?h1)) (unat ?b) x \<longleftrightarrow>
        unat (heap_current ?h1) \<le> unat x \<and> unat x < unat (heap_current ?h1) + unat ?b"
      using b h1(2) by (subst in_range_linear) simp_all
    ultimately show ?thesis using that h1(2) h2(2) by (auto simp: zero_mem_apply)
  qed
  then show ?thesis
    using run h1(2) h2 parts by (simp add: primary_guest_startup_def)
qed

text \<open>
  C23: In a good heap with room for both structures \<open>setup_primary_guest_env\<close> succeeds: the CPU state
  and the guest lie one behind the other at the cursor and nothing else in memory changes. The guest is flagged to launch
  at once with real BIOS access and refers to this one CPU state, its other fields empty. The state has the ten general
  registers of the initial state but for rcx, which holds the descriptor's address; the bases and limits of GDT and IDT; the
  control registers and the six model-specific registers without their high halves; no pending event; and, when no local
  descriptor table is loaded, the six segments each from its own selector's descriptor, an unusable LDTR and a flat TR (with
  a local descriptor table, no segments at all).
\<close>

theorem setup_primary_guest_env_state:
  assumes "aligns_forward af" and "heap_inv8 h"
    and "ok_bytes (sizeof_cpu_state G)" and "ok_bytes (sizeof_guest_startup G)"
    and "unat (heap_current h) + unat (sizeof_cpu_state G) + unat (sizeof_guest_startup G)
           \<le> unat (heap_tops h)"
  shows "\<exists>g h' m'. setup_primary_guest_env V G af cpu m h xd_addr xd = (Some g, h', m') \<and>
     unat (pg_cpu_addr g) = unat (heap_current h) \<and>
     unat (pg_addr g) = unat (heap_current h) + unat (sizeof_cpu_state G) \<and>
     unat (heap_current h') = unat (pg_addr g) + unat (sizeof_guest_startup G) \<and> heap_inv8 h' \<and>
     (\<forall>x. \<not> (unat (heap_current h) \<le> unat x \<and> unat x < unat (heap_current h')) \<longrightarrow> m' x = m x) \<and>
     pg_startup g =
       \<lparr>g_size_of_this_struct = sizeof_guest_startup G, g_version_of_this_struct = GUEST_STARTUP_VERSION G,
        g_flags = FLAG_LAUNCH_IMMEDIATELY G OR FLAG_REAL_BIOS_ACCESS_ENABLE G, g_guest_magic_number = 0,
        g_cpu_affinity = 0xFFFFFFFF, g_cpu_states_count = 1, g_devices_count = 0, g_image_size = 0, g_image_address = 0,
        g_physical_memory_size = 0, g_image_offset = 0, g_cpu_states_array = pg_cpu_addr g, g_devices_array = 0\<rparr> \<and>
     (pg_cpu g)\<lparr>cs_segment := \<lambda>_. zero_segment\<rparr> =
       \<lparr>cs_size_of_this_struct = sizeof_cpu_state G, cs_version_of_this_struct = CPU_STARTUP_STATE_VERSION G,
        cs_gp = (\<lambda>_. 0)(REG_RAX := st_rax (xd_initial_state xd), REG_RBX := st_rbx (xd_initial_state xd), REG_RCX := xd_addr,
          REG_RDX := st_rdx (xd_initial_state xd), REG_RDI := st_rdi (xd_initial_state xd),
          REG_RSI := st_rsi (xd_initial_state xd), REG_RBP := st_rbp (xd_initial_state xd),
          REG_RSP := st_rsp (xd_initial_state xd), REG_RIP := st_rip (xd_initial_state xd),
          REG_RFLAGS := st_rflags (xd_initial_state xd)),
        cs_gdtr_base = r_gdtr_base cpu, cs_gdtr_limit = ucast (r_gdtr_limit cpu),
        cs_idtr_base = r_idtr_base cpu, cs_idtr_limit = ucast (r_idtr_limit cpu),
        cs_cr = (\<lambda>c. r_cr cpu c AND 0xFFFFFFFF),
        cs_msr_sysenter_cs = ucast (r_msr cpu MSR_SYSENTER_CS),
        cs_msr_sysenter_eip = r_msr cpu MSR_SYSENTER_EIP AND 0xFFFFFFFF,
        cs_msr_sysenter_esp = r_msr cpu MSR_SYSENTER_ESP AND 0xFFFFFFFF,
        cs_msr_efer = r_msr cpu MSR_EFER AND 0xFFFFFFFF, cs_msr_pat = r_msr cpu MSR_PAT AND 0xFFFFFFFF,
        cs_msr_debugctl = r_msr cpu MSR_DEBUGCTL AND 0xFFFFFFFF,
        cs_pending_exceptions = 0, cs_interruptibility_state = 0, cs_activity_state = 0, cs_smbase = 0,
        cs_segment = (\<lambda>_. zero_segment)\<rparr> \<and>
     (\<forall>r. cs_segment (pg_cpu g) r =
        (if drop_bit 3 (r_sel cpu SEG_LDTR) \<noteq> 0 then zero_segment
         else case r of
           SEG_LDTR \<Rightarrow> zero_segment\<lparr>seg_attributes := 0x00010000\<rparr>
         | SEG_TR \<Rightarrow> zero_segment\<lparr>seg_attributes := 0x0000808b, seg_limit := 0xffffffff\<rparr>
         | _ \<Rightarrow> save_segment_data V cpu (zero_mem m (pg_cpu_addr g) (sizeof_cpu_state G)) (r_sel cpu r) zero_segment))"
proof -
  obtain g h' m' where r: "setup_primary_guest_env V G af cpu m h xd_addr xd = (Some g, h', m')"
    "unat (pg_cpu_addr g) = unat (heap_current h)" "unat (pg_addr g) = unat (heap_current h) + unat (sizeof_cpu_state G)"
    "unat (heap_current h') = unat (pg_addr g) + unat (sizeof_guest_startup G)" "heap_inv8 h'"
    "\<forall>x. \<not> (unat (heap_current h) \<le> unat x \<and> unat x < unat (heap_current h')) \<longrightarrow> m' x = m x"
    and g: "pg_startup g = primary_guest_startup G (pg_cpu_addr g)"
      "pg_cpu g = bsp_cpu_state V G cpu (zero_mem m (pg_cpu_addr g) (sizeof_cpu_state G)) xd_addr (xd_initial_state xd)"
    using setup_primary_guest_env_result [OF assms, of V cpu m xd_addr xd] by blast
  show ?thesis
    by (rule exI [of _ g], rule exI [of _ h'], rule exI [of _ m'], intro conjI allI r [rule_format])
      (use r in \<open>simp_all add: g primary_guest_startup_def bsp_cpu_state_rest bsp_cpu_state_segments\<close>)
qed

definition demo_abi :: guest_abi where
  "demo_abi = \<lparr>sizeof_cpu_state = 0x200, CPU_STARTUP_STATE_VERSION = 1, sizeof_guest_startup = 0x60,
     GUEST_STARTUP_VERSION = 1, FLAG_LAUNCH_IMMEDIATELY = 8, FLAG_REAL_BIOS_ACCESS_ENABLE = 4\<rparr>"

definition demo_heap :: heap where
  "demo_heap = \<lparr>heap_base = 0x10089000, heap_current = 0x10089000, heap_tops = 0x12089000\<rparr>"

lemma demo_heap_inv: "heap_inv8 demo_heap" by (simp add: heap_inv8_def demo_heap_def)

definition demo_guest_desc :: xmon_desc where
  "demo_guest_desc = zero_desc\<lparr>xd_initial_state := (xd_initial_state zero_desc)\<lparr>st_rip := 0x77\<rparr>\<rparr>"

theorem setup_primary_guest_env_state_witness:
  "\<exists>g h' m'. setup_primary_guest_env sdm_view demo_abi align_forward_macro demo_cpu demo_gdt demo_heap 7
        demo_guest_desc = (Some g, h', m') \<and>
     unat (pg_addr g) = 0x10089200 \<and> cs_gp (pg_cpu g) REG_RIP = 0x77 \<and>
     cs_cr (pg_cpu g) CTRL_CR3 = 0x23456789 \<and> cs_msr_pat (pg_cpu g) = 0x00070406"
proof -
  have "ok_bytes (sizeof_cpu_state demo_abi)" "ok_bytes (sizeof_guest_startup demo_abi)"
    by (simp_all add: ok_bytes_def demo_abi_def)
  note ok = this
  have "unat (heap_current demo_heap) + unat (sizeof_cpu_state demo_abi) + unat (sizeof_guest_startup demo_abi)
      \<le> unat (heap_tops demo_heap)" by (simp add: demo_abi_def demo_heap_def)
  note setup_primary_guest_env_state [OF align_forward_macro_law demo_heap_inv ok this, of sdm_view demo_cpu demo_gdt 7
      demo_guest_desc]
  then obtain g h' m' where run: "setup_primary_guest_env sdm_view demo_abi align_forward_macro demo_cpu demo_gdt
      demo_heap 7 demo_guest_desc = (Some g, h', m')"
    and addr: "unat (pg_addr g) = unat (heap_current demo_heap) + unat (sizeof_cpu_state demo_abi)"
    and rest: "\<exists>R. (pg_cpu g)\<lparr>cs_segment := \<lambda>_. zero_segment\<rparr> = R \<and> cs_gp R REG_RIP = st_rip (xd_initial_state demo_guest_desc) \<and>
      cs_cr R CTRL_CR3 = r_cr demo_cpu CTRL_CR3 AND 0xFFFFFFFF \<and> cs_msr_pat R = r_msr demo_cpu MSR_PAT AND 0xFFFFFFFF"
    by (elim exE conjE) (rule that, assumption, assumption, intro exI conjI, assumption, simp_all)
  then show ?thesis by (auto simp: demo_abi_def demo_heap_def demo_cpu_def demo_guest_desc_def)
qed

text \<open>When the cursor leaves no room for both structures, the result is null.\<close>

lemma setup_primary_guest_env_no_room:
  assumes "aligns_forward af" and "heap_inv8 h"
    and "ok_bytes (sizeof_cpu_state G)" and "ok_bytes (sizeof_guest_startup G)"
    and "unat (heap_tops h)
           < unat (heap_current h) + unat (sizeof_cpu_state G) + unat (sizeof_guest_startup G)"
  shows "fst (setup_primary_guest_env V G af cpu m h xd_addr xd) = None"
proof (cases "unat (heap_current h) + unat (sizeof_cpu_state G) \<le> unat (heap_tops h)")
  case True
  note h1 = heap_inv8_advance [OF assms(2,3) True]
  have "\<not> unat (heap_current h + ucast (sizeof_cpu_state G)) + unat (sizeof_guest_startup G)
          \<le> unat (heap_tops h)" using assms(5) h1(2) by simp
  then show ?thesis
    using allocate_memory_eval [OF assms(1) h1(1) assms(4)] allocate_memory_eval [OF assms(1,2,3), of m] True
    by (simp add: setup_primary_guest_env_def Let_def)
next
  case False
  then show ?thesis
    using allocate_memory_eval [OF assms(1,2,3), of m] by (simp add: setup_primary_guest_env_def Let_def)
qed

lemma setup_primary_guest_env_no_room_witness:
  "fst (setup_primary_guest_env sdm_view demo_abi align_forward_macro demo_cpu demo_gdt
     \<lparr>heap_base = 0x1000, heap_current = 0x1000, heap_tops = 0x1258\<rparr> 7 demo_guest_desc) = None"
  by (rule setup_primary_guest_env_no_room)
    (simp_all add: align_forward_macro_law heap_inv8_def ok_bytes_def demo_abi_def)

end
