(* ===== verification/Xmon_Loader.thy ===== *)
theory Xmon_Loader
  imports Starter E820 Cmdline Primary_Guest Serial
begin

text \<open>
  The second stage, \<open>pre_os/xmon_loader/xmon_loader.c\<close> and \<open>boot_protocol_util.c\<close>: the choice of the
  boot protocol, the two images, the start-up structure and the call of startap. As in the starter,
  the descriptor is a record beside memory and the final call is an outcome. The option table is the
  static \<open>xmon_cmdline_options\<close> at the address \<open>opts\<close>, the name literal is read at \<open>lit\<close>; sizes and
  version numbers of headers outside the repository are the parameter \<open>startup_abi\<close>. The diagnostic
  messages of the error paths (modelled in Screen) are left out here.
\<close>

section \<open>The boot protocol\<close>

definition IKGT_BOOTLOADER_MAGIC :: u32 where "IKGT_BOOTLOADER_MAGIC = 0x4857b815"

record boot_protocol_ops =
  op_name :: string
  op_get_e820_table :: "(mem \<Rightarrow> heap \<Rightarrow> xmon_desc \<Rightarrow> addr option \<times> heap \<times> mem) option"
  op_hide_runtime_memory :: "(xmon_desc \<Rightarrow> u32 \<Rightarrow> u32 \<Rightarrow> bool) option"

definition default_ops :: boot_protocol_ops where
  "default_ops = \<lparr>op_name = ''default'', op_get_e820_table = None, op_hide_runtime_memory = None\<rparr>"

definition ibh_ops :: "e820_abi \<Rightarrow> (u32 \<Rightarrow> u64 \<Rightarrow> u64) \<Rightarrow> (u32 \<Rightarrow> u64) \<Rightarrow> boot_protocol_ops" where
  "ibh_ops A af align4k =
     \<lparr>op_name = ''ibh'', op_get_e820_table = Some (get_e820_table_from_ibh A af align4k),
      op_hide_runtime_memory = None\<rparr>"

definition protocol_ops_init ::
  "e820_abi \<Rightarrow> (u32 \<Rightarrow> u64 \<Rightarrow> u64) \<Rightarrow> (u32 \<Rightarrow> u64) \<Rightarrow> u32 \<Rightarrow> bool \<times> boot_protocol_ops" where
  "protocol_ops_init A af align4k boot_magic =
     (if boot_magic = IKGT_BOOTLOADER_MAGIC then (True, ibh_ops A af align4k) else (False, default_ops))"

definition loader_get_e820_table ::
  "boot_protocol_ops \<Rightarrow> mem \<Rightarrow> heap \<Rightarrow> xmon_desc \<Rightarrow> addr option \<times> heap \<times> mem" where
  "loader_get_e820_table ops m h xd =
     (case op_get_e820_table ops of Some f \<Rightarrow> f m h xd | None \<Rightarrow> (None, h, m))"

definition loader_hide_runtime_memory :: "boot_protocol_ops \<Rightarrow> xmon_desc \<Rightarrow> u32 \<Rightarrow> u32 \<Rightarrow> bool" where
  "loader_hide_runtime_memory ops xd hide_mem_addr hide_mem_size =
     (case op_hide_runtime_memory ops of Some f \<Rightarrow> f xd hide_mem_addr hide_mem_size | None \<Rightarrow> True)"

section \<open>Operations\<close>

definition XMON_LOADER_FAILED_TO_GET_XMON_IMG_INFO :: u32 where
  "XMON_LOADER_FAILED_TO_GET_XMON_IMG_INFO = 0xC000DEAD"
definition XMON_LOADER_FAILED_TO_LOAD_XMON_IMG :: u32 where
  "XMON_LOADER_FAILED_TO_LOAD_XMON_IMG = 0xC002DEAD"
definition XMON_LOADER_FAILED_TO_GET_STARTAP_IMG_INFO :: u32 where
  "XMON_LOADER_FAILED_TO_GET_STARTAP_IMG_INFO = 0xC003DEAD"
definition XMON_LOADER_FAILED_TO_LOAD_STARTAP_IMG :: u32 where
  "XMON_LOADER_FAILED_TO_LOAD_STARTAP_IMG = 0xC004DEAD"
definition XMON_LOADER_FAILED_TO_SETUP_STARTUP_ENV :: u32 where
  "XMON_LOADER_FAILED_TO_SETUP_STARTUP_ENV = 0xC005DEAD"
definition XMON_LOADER_FAILED_TO_INIT_PROTOCOL_OPS :: u32 where
  "XMON_LOADER_FAILED_TO_INIT_PROTOCOL_OPS = 0xC00DDEAD"
definition XMON_FAILED_TO_SETUP_PRIMARY_GUEST_ENV :: u32 where
  "XMON_FAILED_TO_SETUP_PRIMARY_GUEST_ENV = 0xC009DEAD"
definition XMON_FAILED_TO_HIDE_RUNTIME_MEMORY :: u32 where
  "XMON_FAILED_TO_HIDE_RUNTIME_MEMORY = 0xC00BDEAD"

record startup_abi =
  sizeof_startup_struct :: u64
  STARTUP_STRUCT_VERSION :: u64
  DEFAULT_STACK_SIZE_PAGES :: u64
  MAX_CPU_SUPPORTED :: u16
  DEBUG_PORT_VIRT_NONE :: u32
  page_align_4k :: "u64 \<Rightarrow> u64"

definition get_xmon_img_base :: "xmon_desc \<Rightarrow> u64" where
  "get_xmon_img_base xd = xd_runtime_mem_addr xd + of_nat xmon_img_off"

definition get_startap_img_base :: "xmon_desc \<Rightarrow> u64" where
  "get_startap_img_base xd = xd_runtime_mem_addr xd + of_nat startap_img_off"

text \<open>The table of options: each entry is 64 bytes of name and 64 bytes of value.\<close>

definition iobase_name :: "u8 list" where "iobase_name = [0x69, 0x6F, 0x62, 0x61, 0x73, 0x65, 0x3D]"

definition xmon_cmdline_options :: "u8 list" where
  "xmon_cmdline_options =
     (let field = (\<lambda>s. s @ replicate (MAX_CMDLINE_NAME_STRING_LEN - length s) 0)
      in field iobase_name @ field [0x30] @ field [] @ field [])"

definition get_io_base_from_cmdline_option :: "addr \<Rightarrow> addr \<Rightarrow> mem \<Rightarrow> u32 option" where
  "get_io_base_from_cmdline_option opts lit m =
     Option.bind (get_cmdline_value_str m opts lit) (\<lambda>iobasestr.
       map_option (\<lambda>io_base :: u16. ucast io_base)
         (if iobasestr = 0 then Some 0
          else map_option (\<lambda>(v, _). ucast v) (strtoul m iobasestr 0 16)))"

definition image_layout :: "startup_abi \<Rightarrow> u64 \<Rightarrow> u64 \<Rightarrow> u64 \<Rightarrow> u64 \<Rightarrow> mon_memory_layout" where
  "image_layout P base entry loaded total_bytes =
     \<lparr>ml_base_address = base, ml_entry_point = entry, ml_image_size = page_align_4k P loaded,
      ml_total_size = total_bytes\<rparr>"

definition debug_settings :: "startup_abi \<Rightarrow> u16 \<Rightarrow> debug_params" where
  "debug_settings P io_base =
     (if io_base = 0
      then \<lparr>dp_type = MON_DEBUG_PORT_NONE, dp_ident_type = MON_DEBUG_PORT_IDENT_DEFAULT, dp_io_base = 0,
            dp_mask = 0, dp_verbosity = 4, dp_virt_mode = DEBUG_PORT_VIRT_NONE P, dp_reserved_1 = 0\<rparr>
      else \<lparr>dp_type = MON_DEBUG_PORT_SERIAL, dp_ident_type = MON_DEBUG_PORT_IDENT_IO, dp_io_base = io_base,
            dp_mask = - 1, dp_verbosity = 4, dp_virt_mode = DEBUG_PORT_VIRT_NONE P, dp_reserved_1 = 0\<rparr>)"

definition startup_struct :: "startup_abi \<Rightarrow> xmon_desc \<Rightarrow> addr \<Rightarrow> addr \<Rightarrow> u32 \<Rightarrow> addr \<Rightarrow> u16 \<Rightarrow> mon_startup" where
  "startup_struct P xd primary_guest secondary_guest_array secondary_guest_count e820_addr io_base =
     \<lparr>size_of_this_struct = sizeof_startup_struct P, version_of_this_struct = STARTUP_STRUCT_VERSION P,
      number_of_processors_at_install_time = 1, number_of_processors_at_boot_time = 1,
      number_of_secondary_guests = secondary_guest_count, size_of_mon_stack = DEFAULT_STACK_SIZE_PAGES P,
      mon_flags = 0, primary_guest_startup_state = primary_guest, physical_memory_layout_E820 = e820_addr,
      mon_image_layout = image_layout P (xm_img_base (xd_xmon xd)) (xm_entry_point (xd_xmon xd))
         (load_size (xm_hdr_info (xd_xmon xd))) (xm_total_size (xd_xmon xd)),
      thunk_image_layout = image_layout P (sa_img_base (xd_startap xd)) (sa_entry_point (xd_startap xd))
         (load_size (sa_hdr_info (xd_startap xd))) (sa_total_size (xd_startap xd)),
      secondary_guests_startup_state_array = secondary_guest_array,
      mon_debug_params = debug_settings P io_base\<rparr>"

definition setup_startup_env ::
  "startup_abi \<Rightarrow> boot_protocol_ops \<Rightarrow> addr \<Rightarrow> addr \<Rightarrow> mem \<Rightarrow> heap \<Rightarrow> xmon_desc \<Rightarrow> addr \<Rightarrow> addr \<Rightarrow> u32
     \<Rightarrow> (bool \<times> xmon_desc \<times> heap \<times> mem) option" where
  "setup_startup_env P ops opts lit m h xd primary_guest secondary_guest_array secondary_guest_count =
     (case loader_get_e820_table ops m h xd of
        (None, h, m) \<Rightarrow> Some (False, xd, h, m)
      | (Some e820_addr, h, m) \<Rightarrow>
          map_option (\<lambda>io_base.
              (True,
               xd\<lparr>xd_mon_env := startup_struct P xd primary_guest secondary_guest_array
                    secondary_guest_count e820_addr (ucast io_base)\<rparr>, h, m))
            (get_io_base_from_cmdline_option opts lit m))"

definition heap_init :: "bool \<Rightarrow> xmon_desc \<Rightarrow> heap" where
  "heap_init debug xd =
     initialize_memory_manager (xd_loader_mem_addr xd + of_nat (ldr_heap_off debug)) (of_nat LOADER_HEAP_SIZE)"

text \<open>The state the guest set-up needs besides memory: the processor and what the headers fix.\<close>

record platform =
  pf_view :: desc_view
  pf_guest :: guest_abi
  pf_startup :: startup_abi
  pf_align :: "u32 \<Rightarrow> u64 \<Rightarrow> u64"
  pf_cpu :: bsp_regs

definition setup_env ::
  "platform \<Rightarrow> boot_protocol_ops \<Rightarrow> addr \<Rightarrow> addr \<Rightarrow> addr \<Rightarrow> mem \<Rightarrow> heap \<Rightarrow> xmon_desc
     \<Rightarrow> (u32 \<times> primary_guest option \<times> xmon_desc \<times> heap \<times> mem) option" where
  "setup_env F ops opts lit xd_addr m h xd =
     (case setup_primary_guest_env (pf_view F) (pf_guest F) (pf_align F) (pf_cpu F) m h xd_addr xd of
        (None, h, m) \<Rightarrow> Some (XMON_FAILED_TO_SETUP_PRIMARY_GUEST_ENV, None, xd, h, m)
      | (Some g, h, m) \<Rightarrow>
          map_option (\<lambda>(ok, xd, h, m).
              (if ok then XMON_LOADER_SUCCESS else XMON_LOADER_FAILED_TO_SETUP_STARTUP_ENV, Some g, xd, h, m))
            (setup_startup_env (pf_startup F) ops opts lit m h xd (pg_addr g) 0 0))"

text \<open>
  One module: its information must be good and fit \<open>room\<close>, then it is loaded. The result is an
  error code, a fault, or the header information, the entry point and the memory.
\<close>

datatype module_result = Mod_Error u32 | Mod_Fault cpu_fault | Mod_Ok image_info addr mem

definition load_module_file ::
  "elf_abi \<Rightarrow> elf_load_info \<Rightarrow> mem \<Rightarrow> module_file_info \<Rightarrow> image_info \<Rightarrow> u64 \<Rightarrow> addr \<Rightarrow> u64 \<Rightarrow> u32 \<Rightarrow> u32
     \<Rightarrow> module_result option" where
  "load_module_file L info0 m f ii0 room dest entry0 info_error load_error =
     Option.bind (get_image_info L m info0 (mod_addr f) (ucast (mod_size f)) ii0) (\<lambda>(status, ii).
       if status \<noteq> IMAGE_INFO_OK \<or> image_machine ii \<noteq> Some IMAGE_MACHINE_EM64T \<or>
          load_size ii = 0 \<or> load_size ii > room
       then Some (Mod_Error info_error)
       else map_option (\<lambda>r. case r of
                Inl e \<Rightarrow> Mod_Fault e
              | Inr (ok, entry, m) \<Rightarrow> if ok then Mod_Ok ii entry m else Mod_Error load_error)
              (load_image L m info0 (mod_addr f) dest (ucast (load_size ii)) entry0))"

text \<open>How xmon_loader ends: with an error code, a fault, or the call of startap's entry point.\<close>

record startap_call =
  sc_entry :: u64
  sc_desc :: xmon_desc
  sc_xmon_entry :: u64
  sc_guest :: "primary_guest option"
  sc_heap :: heap
  sc_mem :: mem
  sc_serial :: serial

datatype xmon_outcome = Xmon_Error u32 | Xmon_Fault cpu_fault | Call_Startap startap_call

definition with_xmon ::
  "xmon_desc \<Rightarrow> u64 \<Rightarrow> image_info \<Rightarrow> u64 \<Rightarrow> xmon_desc" where
  "with_xmon xd base ii entry =
     xd\<lparr>xd_xmon := (xd_xmon xd)\<lparr>xm_img_base := base, xm_hdr_info := ii, xm_entry_point := entry\<rparr>\<rparr>"

definition with_startap :: "xmon_desc \<Rightarrow> u64 \<Rightarrow> image_info \<Rightarrow> u64 \<Rightarrow> xmon_desc" where
  "with_startap xd base ii entry =
     xd\<lparr>xd_startap := (xd_startap xd)\<lparr>sa_img_base := base, sa_total_size := of_nat STARTAP_IMG_SIZE,
          sa_hdr_info := ii, sa_entry_point := entry\<rparr>\<rparr>"

definition with_init32 :: "startup_abi \<Rightarrow> xmon_desc \<Rightarrow> xmon_desc" where
  "with_init32 P xd =
     xd\<lparr>xd_startap := (xd_startap xd)\<lparr>sa_init32 := (sa_init32 (xd_startap xd))\<lparr>
          i32_low_memory_page := ucast AP_WAKEUP_BOOTSTRAP_CODE_ADDR,
          i32_num_of_aps := MAX_CPU_SUPPORTED P - 1\<rparr>\<rparr>\<rparr>"

definition xmon_loader ::
  "elf_abi \<Rightarrow> e820_abi \<Rightarrow> (u32 \<Rightarrow> u64) \<Rightarrow> platform \<Rightarrow> bool \<Rightarrow> elf_load_info \<Rightarrow> addr \<Rightarrow> addr \<Rightarrow> u64 \<Rightarrow> u64
     \<Rightarrow> mem \<Rightarrow> serial \<Rightarrow> addr \<Rightarrow> xmon_desc \<Rightarrow> xmon_outcome option" where
  "xmon_loader L A align4k F debug info0 opts lit entry0 entry1 m s xd_addr xd =
     (let (ok, ops) = protocol_ops_init A (pf_align F) align4k (ucast (st_rax (xd_initial_state xd))) in
      if \<not> ok then Some (Xmon_Error XMON_LOADER_FAILED_TO_INIT_PROTOCOL_OPS)
      else Option.bind (get_io_base_from_cmdline_option opts lit m) (\<lambda>io_base.
        let s = loader_serial_init (ucast io_base) s;
            h = heap_init debug xd;
            xmon_base = get_xmon_img_base xd
        in Option.bind (load_module_file L info0 m (xd_xmon_file xd) (xm_hdr_info (xd_xmon xd))
               (xm_total_size (xd_xmon xd)) xmon_base entry0
               XMON_LOADER_FAILED_TO_GET_XMON_IMG_INFO XMON_LOADER_FAILED_TO_LOAD_XMON_IMG)
          (\<lambda>r. case r of
             Mod_Error e \<Rightarrow> Some (Xmon_Error e)
           | Mod_Fault e \<Rightarrow> Some (Xmon_Fault e)
           | Mod_Ok ii call_xmon m \<Rightarrow>
               let xd = with_xmon xd xmon_base ii (ucast (ucast call_xmon :: u32));
                   startap_base = get_startap_img_base xd
               in Option.bind (load_module_file L info0 m (xd_startap_file xd) (sa_hdr_info (xd_startap xd))
                      (of_nat STARTAP_IMG_SIZE) startap_base entry1
                      XMON_LOADER_FAILED_TO_GET_STARTAP_IMG_INFO XMON_LOADER_FAILED_TO_LOAD_STARTAP_IMG)
                 (\<lambda>r. case r of
                    Mod_Error e \<Rightarrow> Some (Xmon_Error e)
                  | Mod_Fault e \<Rightarrow> Some (Xmon_Fault e)
                  | Mod_Ok ii call_startap m \<Rightarrow>
                      let xd = with_startap xd startap_base ii call_startap
                      in map_option (\<lambda>(ret, g, xd, h, m).
                           if ret \<noteq> XMON_LOADER_SUCCESS then Xmon_Error ret
                           else if \<not> loader_hide_runtime_memory ops xd (ucast (xd_runtime_mem_addr xd))
                                       (of_nat (runtime_layout_size debug))
                           then Xmon_Error XMON_FAILED_TO_HIDE_RUNTIME_MEMORY
                           else Call_Startap
                                  \<lparr>sc_entry = call_startap, sc_desc = with_init32 (pf_startup F) xd,
                                   sc_xmon_entry = call_xmon, sc_guest = g, sc_heap = h, sc_mem = m,
                                   sc_serial = s\<rparr>)
                         (setup_env F ops opts lit xd_addr m h xd)))))"

section \<open>The debug port option\<close>

text \<open>The bytes of the static table and of the name literal.\<close>

definition option_bytes_at :: "mem \<Rightarrow> addr \<Rightarrow> addr \<Rightarrow> bool" where
  "option_bytes_at m opts lit \<longleftrightarrow> opts \<noteq> 0 \<and> lit \<noteq> 0 \<and> cstr m lit iobase_name \<and>
     (\<forall>k < 256. m (opts + of_nat k) = xmon_cmdline_options ! k)"

lemma get_io_base_value:
  assumes "opts \<noteq> 0" and "lit \<noteq> 0" and "cstr m lit iobase_name" and "option_table m opts 0 [iobase_name]"
    and "opts + 64 \<noteq> 0" and "cstr m (opts + 64) (pre @ cs)" and "hex_prefix 16 pre" and "cs \<noteq> []"
    and "\<forall>x \<in> set cs. is_digit_in 16 x"
  shows "get_io_base_from_cmdline_option opts lit m =
     Some (ucast (if number_from 16 0 cs < 2 ^ 64 then of_nat (number_from 16 0 cs) else - 1 :: u16))"
proof -
  have slot: "get_cmdline_value_str m opts lit = Some (opts + 64)"
    using find_value_table [OF assms(4,3)] assms(1,2)
    by (simp add: get_cmdline_value_str_def def_val_str_def option_entry_def MAX_CMDLINE_NAME_STRING_LEN_def)
  have "(ucast ULONG_MAX :: u16) = - 1" by (simp add: ULONG_MAX_def)
  moreover have "(ucast (of_nat n :: u64) :: u16) = of_nat n" for n
    by (simp add: word_unat_eq_iff unsigned_ucast_eq unsigned_take_bit_eq unat_of_nat take_bit_eq_mod mod_mod_cancel)
  ultimately show ?thesis
    using strtoul_number [of 16 m "opts + 64" pre cs 0] assms(5-)
    by (auto simp: get_io_base_from_cmdline_option_def slot)
qed

lemma xmon_cmdline_options_bytes:
  "take 8 xmon_cmdline_options = iobase_name @ [0]" "xmon_cmdline_options ! 64 = 0x30"
  "xmon_cmdline_options ! 65 = 0" "xmon_cmdline_options ! 128 = 0"
  by code_simp+

lemma option_bytes_io_base:
  assumes "option_bytes_at m opts lit" and "opts + 64 \<noteq> 0"
  shows "get_io_base_from_cmdline_option opts lit m = Some 0"
proof -
  have at: "m (opts + of_nat k) = xmon_cmdline_options ! k" if "k < 256" for k
    using assms(1) that by (simp add: option_bytes_at_def)
  have "xmon_cmdline_options ! k = (iobase_name @ [0]) ! k" if "k < 8" for k
    using that xmon_cmdline_options_bytes(1) by (metis nth_take)
  then have "m (opts + of_nat k) = (iobase_name @ [0]) ! k" if "k < 8" for k using at that by simp
  from this [of 0] this [of 1] this [of 2] this [of 3] this [of 4] this [of 5] this [of 6] this [of 7]
  have "cstr m opts iobase_name" by (simp add: iobase_name_def add.assoc)
  moreover have "m (opts + 128) = 0" using at [of 128] xmon_cmdline_options_bytes(4) by simp
  ultimately have tab: "option_table m opts 0 [iobase_name]"
    by (simp add: option_entry_def MAX_CMDLINE_NAME_STRING_LEN_def MAX_CMDLINE_VALUE_STRING_LEN_def
        iobase_name_def)
  have "cstr m (opts + 64) ([] @ [0x30])"
    using at [of 64] at [of 65] xmon_cmdline_options_bytes(2,3) by (simp add: add.assoc)
  moreover have "is_digit_in 16 0x30 \<and> digit_of 0x30 = 0"
    by (simp add: is_digit_in_def digit_of_def digit_value_def isdigit_iff)
  ultimately show ?thesis
    using get_io_base_value [of opts lit m "[]" "[0x30]"] assms tab
    by (simp add: option_bytes_at_def hex_prefix_def)
qed

section \<open>The stages\<close>

lemma load_module_file_ok:
  assumes abi: "elf64_abi_ok L" "get_phdr64_ok L" "pie64_abi_ok L" and ok: "module_ok L info0 ii0 m f (unat room) ii"
    and apart: "disjoint_ranges dest (unat (load_size ii)) (mod_addr f) (unat (load_size ii))"
  shows "\<exists>m2. load_module_file L info0 m f ii0 room dest entry0 e1 e2 =
      Some (Mod_Ok ii (module_entry L m f ii dest) m2) \<and> module_loaded L m f ii dest m2"
proof -
  have "load_size ii \<noteq> 0" "\<not> load_size ii > room"
    using ok by (auto simp: module_ok_def word_less_nat_alt)
  then show ?thesis
    using ok module_ok_machine [OF abi(1) ok] load_module [OF abi ok apart, of entry0]
    by (auto simp: load_module_file_def module_ok_def)
qed

lemma module_loaded_frame:
  "module_loaded L m f ii dest m2 \<Longrightarrow> \<not> in_range dest (unat (load_size ii)) x \<Longrightarrow> m2 x = m x"
  by (simp add: module_loaded_def Let_def)

text \<open>The heap as \<open>heap_init\<close> leaves it, for a loader memory below 4 GB.\<close>

lemma heap_init_fields:
  assumes "xd_loader_mem_addr xd = ucast (base :: u32)" and "unat base mod 8 = 0"
    and "unat base + desc_off debug < 2 ^ 32"
  shows "unat (heap_current (heap_init debug xd)) = unat base + ldr_heap_off debug"
    and "unat (heap_tops (heap_init debug xd)) = unat base + desc_off debug"
    and "heap_inv8 (heap_init debug xd)"
proof -
  have off: "ldr_heap_off debug + LOADER_HEAP_SIZE = desc_off debug" "ldr_heap_off debug mod 8 = 0"
    "0 < ldr_heap_off debug"
    by (cases debug; simp add: layout_offsets LOADER_HEAP_SIZE_def)+
  have small: "ldr_heap_off debug < 2 ^ 64" "LOADER_HEAP_SIZE < 2 ^ 64" using off(1) assms(3) by simp_all
  have a: "unat (ucast base + of_nat (ldr_heap_off debug) :: u64) = unat base + ldr_heap_off debug"
    using small(1) off(1) assms(3) by (subst unat_add_offset) simp_all
  then have c: "unat (ucast (ucast base + of_nat (ldr_heap_off debug) :: u64) :: u32) = unat base + ldr_heap_off debug"
    using off(1) assms(3) by (subst unat_ucast_u64_u32) simp_all
  have "unat (ucast (ucast (ucast base + of_nat (ldr_heap_off debug) :: u64) :: u32) + of_nat LOADER_HEAP_SIZE :: u64)
      = unat base + desc_off debug"
    using c off(1) assms(3) by (subst unat_add_offset) simp_all
  then have t: "unat (ucast (ucast (ucast (ucast base + of_nat (ldr_heap_off debug) :: u64) :: u32)
      + of_nat LOADER_HEAP_SIZE :: u64) :: u32) = unat base + desc_off debug"
    using assms(3) by (subst unat_ucast_u64_u32) simp_all
  show "unat (heap_current (heap_init debug xd)) = unat base + ldr_heap_off debug"
    and "unat (heap_tops (heap_init debug xd)) = unat base + desc_off debug"
    using c t by (simp_all add: heap_init_def initialize_memory_manager_def assms(1) Let_def)
  then show "heap_inv8 (heap_init debug xd)"
    using off assms(2) by (simp add: heap_inv8_def) presburger
qed

text \<open>The E820 request in a good heap: it succeeds when there is room and writes only heap bytes.\<close>

lemma get_e820_table_room:
  assumes "aligns_forward af" and "heap_inv8 h" and "st_rbx (xd_initial_state xd) \<noteq> 0"
    and "sz = align4k (pi_memmap_size m (st_rbx (xd_initial_state xd)))" and "ok_bytes sz"
    and "unat (heap_current h) + unat sz \<le> unat (heap_tops h)"
  shows "\<exists>h' m'. get_e820_table_from_ibh A af align4k m h xd = (Some (ucast (heap_current h)), h', m')"
proof -
  have "(ucast (heap_current h) :: addr) \<noteq> 0" using assms(2) by (auto simp: heap_inv8_def unat_0_iff [symmetric])
  then show ?thesis
    using assms(3,6) allocate_memory_eval [OF assms(1,2,5), of m] assms(4)
    by (simp add: get_e820_table_from_ibh_def Let_def)
qed

lemma fill_e820_frame:
  assumes "e820_abi_ok A"
  shows "k + n = N \<Longrightarrow> 48 * N < 2 ^ 32 \<Longrightarrow> (\<forall>j. k \<le> j \<and> j < N \<longrightarrow> \<not> in_range (e820_slot e820 j) 24 x) \<Longrightarrow>
    fill_e820 A e820 d n (of_nat k) m x = m x"
proof (induction n arbitrary: k m)
  case (Suc n)
  then have k: "48 * k < 2 ^ 32" "k < N" by simp_all
  have "fill_e820 A e820 d n (of_nat (Suc k)) (store_e820_entry A m (e820_slot e820 k) (efi_slot d k)) x =
      store_e820_entry A m (e820_slot e820 k) (efi_slot d k) x"
    using Suc.prems by (intro Suc.IH) auto
  also have "\<dots> = m x" using Suc.prems k by (intro store_e820_entry_outside [OF assms]) auto
  finally show ?case unfolding fill_e820_step [OF assms k(1)] .
qed simp

lemma get_e820_table_frame:
  assumes "e820_abi_ok A" and "rounds_up4k align4k"
    and run: "get_e820_table_from_ibh A af align4k m h xd = (Some e820, h', m')"
    and sz: "sz = pi_memmap_size m (st_rbx (xd_initial_state xd))" "sz \<noteq> 0"
    and x: "\<not> in_range e820 (unat (align4k sz)) x"
  shows "m' x = m x"
proof -
  let ?N = "unat (sz div EFI_DESC_SIZE)" and ?d = "ucast (pi_memmap_addr m (st_rbx (xd_initial_state xd))) :: addr"
  have A: "map_size_off A = 0" "entry_size A = 24" using assms(1) by (simp_all add: e820_abi_ok_def)
  have m': "m' = store32 (fill_e820 A e820 ?d ?N 0 (zero_mem m e820 (align4k sz))) e820
      (sz div EFI_DESC_SIZE * ucast (entry_size A))"
    using get_e820_table_from_ibh_Some [OF run] by (simp add: Let_def A sz(1))
  have "unat sz \<le> unat (align4k sz)" "unat (align4k sz) mod 4096 = 0" "0 < unat sz"
    using assms(2) sz(2) by (simp_all add: rounds_up4k_def unat_gt_0)
  then have page: "4096 \<le> unat (align4k sz)" by (intro dvd_imp_le) (simp_all add: mod_0_imp_dvd)
  have N: "?N = unat sz div 48" by (simp add: EFI_DESC_SIZE_def unat_div)
  then have "48 * ?N \<le> unat sz" by simp
  then have N32: "48 * ?N < 2 ^ 32" using unat_less32 [of sz] by linarith
  have fit: "4 + 24 * ?N \<le> unat (align4k sz)"
    using page \<open>48 * ?N \<le> unat sz\<close> \<open>unat sz \<le> unat (align4k sz)\<close> by linarith
  have slot: "\<not> in_range (e820_slot e820 j) 24 x" if "j < ?N" for j
  proof
    assume "in_range (e820_slot e820 j) 24 x"
    then have "in_range e820 (unat (align4k sz)) x"
      unfolding e820_slot_def by (rule in_range_sub) (use that N32 fit in \<open>simp_all add: unat_slots(1) del: of_nat_mult\<close>)
    with x show False by blast
  qed
  have "\<not> in_range e820 4 x" using in_range_mono [of e820 4 x "unat (align4k sz)"] page x by linarith
  then have "m' x = fill_e820 A e820 ?d ?N (of_nat 0) (zero_mem m e820 (align4k sz)) x"
    unfolding m' by (simp add: store_le_apply)
  also have "\<dots> = zero_mem m e820 (align4k sz) x"
    using slot N32 by (intro fill_e820_frame [OF assms(1), of 0 ?N ?N]) simp_all
  finally show ?thesis using x by (simp add: zero_mem_apply)
qed

lemma option_bytes_cong:
  assumes "option_bytes_at m opts lit"
    and "\<And>x. in_range opts 256 x \<or> in_range lit 8 x \<Longrightarrow> m' x = m x"
  shows "option_bytes_at m' opts lit"
proof -
  have "cstr m' lit iobase_name = cstr m lit iobase_name"
  proof (rule cstr_cong)
    fix x assume "in_range lit (Suc (length iobase_name)) x"
    moreover have "Suc (length iobase_name) = 8" by (simp add: iobase_name_def)
    ultimately show "m' x = m x" using assms(2) by metis
  qed
  moreover have "m' (opts + of_nat k) = m (opts + of_nat k)" if "k < 256" for k
    using assms(2) that by (simp add: in_range_offset)
  ultimately show ?thesis using assms(1) by (simp add: option_bytes_at_def)
qed

lemma setup_env_ok:
  assumes laws: "aligns_forward (pf_align F)" "e820_abi_ok A" "rounds_up4k align4k"
    and sizes: "ok_bytes (sizeof_cpu_state (pf_guest F))" "ok_bytes (sizeof_guest_startup (pf_guest F))"
      "ok_bytes (align4k sz)"
    and heap: "heap_inv8 h"
    and p: "p = st_rbx (xd_initial_state xd)" "p \<noteq> 0" "sz = pi_memmap_size m p" "sz \<noteq> 0"
    and room: "unat (heap_current h) + unat (sizeof_cpu_state (pf_guest F)) +
       unat (sizeof_guest_startup (pf_guest F)) + unat (align4k sz) \<le> unat (heap_tops h)"
    and opts: "option_bytes_at m opts lit" "opts + 64 \<noteq> 0"
    and apart: "\<forall>x. in_range opts 256 x \<or> in_range lit 8 x \<or> in_range p 8 x \<longrightarrow>
       \<not> (unat (heap_current h) \<le> unat x \<and> unat x < unat (heap_tops h))"
  shows "\<exists>g e820 h' m'. setup_env F (ibh_ops A (pf_align F) align4k) opts lit xd_addr m h xd =
     Some (XMON_LOADER_SUCCESS, Some g,
       xd\<lparr>xd_mon_env := startup_struct (pf_startup F) xd (pg_addr g) 0 0 e820 0\<rparr>, h', m') \<and> e820 \<noteq> 0 \<and>
     cs_gp (pg_cpu g) REG_RIP = st_rip (xd_initial_state xd) \<and>
     (\<forall>x. \<not> (unat (heap_current h) \<le> unat x \<and> unat x < unat (heap_tops h)) \<longrightarrow> m' x = m x)"
proof -
  let ?G = "pf_guest F" and ?in = "\<lambda>x. unat (heap_current h) \<le> unat x \<and> unat x < unat (heap_tops h)"
  have fit: "unat (heap_current h) + unat (sizeof_cpu_state ?G) + unat (sizeof_guest_startup ?G) \<le> unat (heap_tops h)"
    using room by simp
  obtain g h1 m1 where g: "setup_primary_guest_env (pf_view F) ?G (pf_align F) (pf_cpu F) m h xd_addr xd = (Some g, h1, m1)"
    and cur1: "unat (heap_current h1) = unat (heap_current h) + unat (sizeof_cpu_state ?G) + unat (sizeof_guest_startup ?G)"
    and inv1: "heap_inv8 h1"
    and keep1: "\<And>x. \<not> (unat (heap_current h) \<le> unat x \<and> unat x < unat (heap_current h1)) \<Longrightarrow> m1 x = m x"
    and rip: "cs_gp (pg_cpu g) REG_RIP = st_rip (xd_initial_state xd)" and tops1: "heap_tops h1 = heap_tops h"
    using setup_primary_guest_env_result [OF laws(1) heap sizes(1,2) fit, of "pf_view F" "pf_cpu F" m xd_addr xd]
    by auto
  have in1: "?in x" if "unat (heap_current h) \<le> unat x" "unat x < unat (heap_current h1)" for x
    using that cur1 fit by simp
  have "load32 m1 (p + 4) = (load32 m (p + 4) :: u32)"
    using keep1 apart in1 in_range_sub [of p 4 4 _ 8] by (intro load_le_cong) auto
  then have sz1: "pi_memmap_size m1 p = sz" by (simp add: p(3) pi_memmap_size_def)
  have room1: "unat (heap_current h1) + unat (align4k sz) \<le> unat (heap_tops h1)" using cur1 tops1 room by simp
  obtain h2 m2 where e: "get_e820_table_from_ibh A (pf_align F) align4k m1 h1 xd =
      (Some (ucast (heap_current h1)), h2, m2)"
    using get_e820_table_room [OF laws(1) inv1, of xd "align4k sz" align4k m1 A] p(1,2) sizes(3) room1 sz1
    by auto
  have keep2: "m2 x = m1 x" if "\<not> ?in x" for x
  proof (rule get_e820_table_frame [OF laws(2,3) e, folded p(1), OF sz1 [symmetric] p(4)])
    have "unat (heap_current h1) + unat (align4k sz) \<le> 2 ^ 64" using room1 by (rule le_unat32_bound)
    then have "in_range (ucast (heap_current h1)) (unat (align4k sz)) x \<longleftrightarrow>
        unat (heap_current h1) \<le> unat x \<and> unat x < unat (heap_current h1) + unat (align4k sz)"
      by (subst in_range_linear) simp_all
    then show "\<not> in_range (ucast (heap_current h1)) (unat (align4k sz)) x"
      using that cur1 room1 tops1 by auto
  qed
  have keep: "m2 x = m x" if "\<not> ?in x" for x using keep2 [OF that] keep1 [of x] in1 that by auto
  have "option_bytes_at m2 opts lit" using option_bytes_cong [OF opts(1)] keep apart by blast
  then have "get_io_base_from_cmdline_option opts lit m2 = Some 0" using opts(2) by (rule option_bytes_io_base)
  then have "setup_env F (ibh_ops A (pf_align F) align4k) opts lit xd_addr m h xd =
     Some (XMON_LOADER_SUCCESS, Some g, xd\<lparr>xd_mon_env :=
       startup_struct (pf_startup F) xd (pg_addr g) 0 0 (ucast (heap_current h1)) 0\<rparr>, h2, m2)"
    by (simp add: setup_env_def g setup_startup_env_def loader_get_e820_table_def ibh_ops_def e)
  moreover have "(ucast (heap_current h1) :: addr) \<noteq> 0"
    using inv1 by (auto simp: heap_inv8_def unat_0_iff [symmetric])
  ultimately show ?thesis using rip keep by blast
qed

section \<open>The whole stage\<close>

lemma ibh_hides: "loader_hide_runtime_memory (ibh_ops A af align4k) xd a n"
  by (simp add: loader_hide_runtime_memory_def ibh_ops_def)

text \<open>
  What the loader may write before it calls startap: the places of the two images, the heap, and the descriptor in its
  \<open>desc_size\<close> bytes at \<open>xd_addr\<close> (here the record \<open>xd\<close>, not bytes of the memory).
\<close>

definition loader_writes :: "bool \<Rightarrow> nat \<Rightarrow> addr \<Rightarrow> xmon_desc \<Rightarrow> u32 \<Rightarrow> image_info \<Rightarrow> image_info \<Rightarrow> addr \<Rightarrow> bool" where
  "loader_writes debug desc_size xd_addr xd base ii1 ii2 x \<longleftrightarrow>
     in_range xd_addr desc_size x \<or>
     in_range (get_xmon_img_base xd) (unat (load_size ii1)) x \<or>
     in_range (get_startap_img_base xd) (unat (load_size ii2)) x \<or>
     (unat base + ldr_heap_off debug \<le> unat x \<and> unat x < unat base + desc_off debug)"

lemma heap_area:
  assumes mem: "xd_loader_mem_addr xd = ucast (base :: u32)" "unat base mod 8 = 0" "unat base + desc_off debug < 2 ^ 32"
    and "unat (heap_current (heap_init debug xd)) \<le> unat x \<and> unat x < unat (heap_tops (heap_init debug xd))"
  shows "loader_writes debug desc_size xd_addr xd base ii1 ii2 x"
  using assms(4) heap_init_fields(1,2) [OF mem] by (simp add: loader_writes_def)

text \<open>Both modules, one after the other; the second file is good also after the first is in place.\<close>

lemma load_both_modules:
  assumes abi: "elf64_abi_ok L" "get_phdr64_ok L" "pie64_abi_ok L"
    and xmon: "module_ok L info0 (xm_hdr_info (xd_xmon xd)) m (xd_xmon_file xd) (unat (xm_total_size (xd_xmon xd))) ii1"
      "disjoint_ranges (get_xmon_img_base xd) (unat (load_size ii1)) (mod_addr (xd_xmon_file xd)) (unat (load_size ii1))"
    and startap: "\<And>m1. (\<forall>x. \<not> in_range (get_xmon_img_base xd) (unat (load_size ii1)) x \<longrightarrow> m1 x = m x) \<Longrightarrow>
         module_ok L info0 (sa_hdr_info (xd_startap xd)) m1 (xd_startap_file xd) STARTAP_IMG_SIZE ii2"
      "disjoint_ranges (get_startap_img_base xd) (unat (load_size ii2)) (mod_addr (xd_startap_file xd)) (unat (load_size ii2))"
  shows "\<exists>m1 m2. load_module_file L info0 m (xd_xmon_file xd) (xm_hdr_info (xd_xmon xd)) (xm_total_size (xd_xmon xd))
        (get_xmon_img_base xd) entry0 e1 e2 = Some (Mod_Ok ii1 (module_entry L m (xd_xmon_file xd) ii1 (get_xmon_img_base xd)) m1) \<and>
      module_loaded L m (xd_xmon_file xd) ii1 (get_xmon_img_base xd) m1 \<and>
      load_module_file L info0 m1 (xd_startap_file xd) (sa_hdr_info (xd_startap xd)) (of_nat STARTAP_IMG_SIZE)
        (get_startap_img_base xd) entry1 e3 e4 = Some (Mod_Ok ii2 (module_entry L m1 (xd_startap_file xd) ii2 (get_startap_img_base xd)) m2) \<and>
      module_loaded L m1 (xd_startap_file xd) ii2 (get_startap_img_base xd) m2 \<and>
      (\<forall>x. \<not> loader_writes debug desc_size xd_addr xd base ii1 ii2 x \<longrightarrow> m2 x = m x)"
proof -
  obtain m1 where l1: "load_module_file L info0 m (xd_xmon_file xd) (xm_hdr_info (xd_xmon xd)) (xm_total_size (xd_xmon xd))
        (get_xmon_img_base xd) entry0 e1 e2 = Some (Mod_Ok ii1 (module_entry L m (xd_xmon_file xd) ii1 (get_xmon_img_base xd)) m1)"
      and m1: "module_loaded L m (xd_xmon_file xd) ii1 (get_xmon_img_base xd) m1"
    using load_module_file_ok [OF abi xmon] by blast
  have "unat (of_nat STARTAP_IMG_SIZE :: u64) = STARTAP_IMG_SIZE"
    by (rule unat_of_nat64) (simp add: STARTAP_IMG_SIZE_def)
  then have "module_ok L info0 (sa_hdr_info (xd_startap xd)) m1 (xd_startap_file xd) (unat (of_nat STARTAP_IMG_SIZE :: u64)) ii2"
    using startap(1) [of m1] module_loaded_frame [OF m1] by simp
  from load_module_file_ok [OF abi this startap(2)]
  obtain m2 where l2: "load_module_file L info0 m1 (xd_startap_file xd) (sa_hdr_info (xd_startap xd)) (of_nat STARTAP_IMG_SIZE)
        (get_startap_img_base xd) entry1 e3 e4 = Some (Mod_Ok ii2 (module_entry L m1 (xd_startap_file xd) ii2 (get_startap_img_base xd)) m2)"
      and m2: "module_loaded L m1 (xd_startap_file xd) ii2 (get_startap_img_base xd) m2"
    by blast
  have "m2 x = m x" if "\<not> loader_writes debug desc_size xd_addr xd base ii1 ii2 x" for x
    using that module_loaded_frame [OF m1, of x] module_loaded_frame [OF m2, of x] by (simp add: loader_writes_def)
  with l1 m1 l2 m2 show ?thesis by blast
qed

text \<open>
  C3: Called by the starter with the right boot magic, two acceptable modules (64-bit images without a dynamic segment or
  position independent with relative relocations behind their headers, at most as large as their room, off their places;
  startap acceptable also after xmon is in place), a memory map, and a heap area with room for the guest and the E820 table,
  \<open>xmon_loader\<close> loads and relocates both images where the runtime layout says, builds a guest that resumes at the
  starter's return address and calls startap's relocated entry with xmon's. Of the descriptor it changes the parts for the
  two images and the monitor's start-up structure only; outside the two images, the heap and the place of the descriptor no
  byte changes. The serial port stays closed: the option table still holds the value 0 that it has in the source, because
  nothing parses a command line.
\<close>

theorem xmon_loader_calls_startap:
  fixes base :: u32
  assumes laws: "elf64_abi_ok L" "get_phdr64_ok L" "pie64_abi_ok L" "e820_abi_ok A" "rounds_up4k align4k"
      "aligns_forward (pf_align F)"
    and sizes: "ok_bytes (sizeof_cpu_state (pf_guest F))" "ok_bytes (sizeof_guest_startup (pf_guest F))"
      "ok_bytes (align4k sz)"
    and magic: "(ucast (st_rax (xd_initial_state xd)) :: u32) = IKGT_BOOTLOADER_MAGIC"
    and p: "p = st_rbx (xd_initial_state xd)" "p \<noteq> 0" "sz = pi_memmap_size m p" "sz \<noteq> 0"
    and opts: "option_bytes_at m opts lit" "opts + 64 \<noteq> 0"
    and mem: "xd_loader_mem_addr xd = ucast base" "unat base mod 8 = 0" "unat base + desc_off debug < 2 ^ 32"
    and room: "unat (sizeof_cpu_state (pf_guest F)) + unat (sizeof_guest_startup (pf_guest F)) +
       unat (align4k sz) \<le> LOADER_HEAP_SIZE"
    and xmon: "module_ok L info0 (xm_hdr_info (xd_xmon xd)) m (xd_xmon_file xd)
         (unat (xm_total_size (xd_xmon xd))) ii1"
      "disjoint_ranges (get_xmon_img_base xd) (unat (load_size ii1)) (mod_addr (xd_xmon_file xd)) (unat (load_size ii1))"
    and startap: "\<And>m1. (\<forall>x. \<not> in_range (get_xmon_img_base xd) (unat (load_size ii1)) x \<longrightarrow> m1 x = m x) \<Longrightarrow>
         module_ok L info0 (sa_hdr_info (xd_startap xd)) m1 (xd_startap_file xd) STARTAP_IMG_SIZE ii2"
      "disjoint_ranges (get_startap_img_base xd) (unat (load_size ii2)) (mod_addr (xd_startap_file xd)) (unat (load_size ii2))"
    and apart: "\<And>x. in_range opts 256 x \<or> in_range lit 8 x \<or> in_range p 8 x \<Longrightarrow>
         \<not> loader_writes debug desc_size xd_addr xd base ii1 ii2 x"
  shows "\<exists>c g m1 m2. xmon_loader L A align4k F debug info0 opts lit entry0 entry1 m s xd_addr xd =
       Some (Call_Startap c) \<and>
     module_loaded L m (xd_xmon_file xd) ii1 (get_xmon_img_base xd) m1 \<and>
     module_loaded L m1 (xd_startap_file xd) ii2 (get_startap_img_base xd) m2 \<and>
     sc_xmon_entry c = module_entry L m (xd_xmon_file xd) ii1 (get_xmon_img_base xd) \<and>
     sc_entry c = module_entry L m1 (xd_startap_file xd) ii2 (get_startap_img_base xd) \<and>
     sc_desc c = xd\<lparr>xd_xmon := xd_xmon (sc_desc c), xd_startap := xd_startap (sc_desc c), xd_mon_env := xd_mon_env (sc_desc c)\<rparr> \<and>
     sc_guest c = Some g \<and> cs_gp (pg_cpu g) REG_RIP = st_rip (xd_initial_state xd) \<and>
     primary_guest_startup_state (xd_mon_env (sc_desc c)) = pg_addr g \<and>
     ml_base_address (mon_image_layout (xd_mon_env (sc_desc c))) = get_xmon_img_base xd \<and>
     ml_entry_point (mon_image_layout (xd_mon_env (sc_desc c))) = sc_xmon_entry c AND 0xFFFFFFFF \<and>
     ml_entry_point (thunk_image_layout (xd_mon_env (sc_desc c))) = sc_entry c \<and>
     physical_memory_layout_E820 (xd_mon_env (sc_desc c)) \<noteq> 0 \<and>
     dp_type (mon_debug_params (xd_mon_env (sc_desc c))) = MON_DEBUG_PORT_NONE \<and> sc_serial c = s \<and>
     (\<forall>x. \<not> loader_writes debug desc_size xd_addr xd base ii1 ii2 x \<longrightarrow> sc_mem c x = m x)"
proof -
  let ?f1 = "xd_xmon_file xd" and ?f2 = "xd_startap_file xd"
    and ?d1 = "get_xmon_img_base xd" and ?d2 = "get_startap_img_base xd"
    and ?ops = "ibh_ops A (pf_align F) align4k" and ?h = "heap_init debug xd"
    and ?W = "loader_writes debug desc_size xd_addr xd base ii1 ii2"
  note heap = heap_init_fields [OF mem]
  obtain m1 m2 where l1: "load_module_file L info0 m ?f1 (xm_hdr_info (xd_xmon xd)) (xm_total_size (xd_xmon xd)) ?d1
      entry0 XMON_LOADER_FAILED_TO_GET_XMON_IMG_INFO XMON_LOADER_FAILED_TO_LOAD_XMON_IMG
      = Some (Mod_Ok ii1 (module_entry L m ?f1 ii1 ?d1) m1)" and m1: "module_loaded L m ?f1 ii1 ?d1 m1"
    and l2: "load_module_file L info0 m1 ?f2 (sa_hdr_info (xd_startap xd)) (of_nat STARTAP_IMG_SIZE) ?d2
      entry1 XMON_LOADER_FAILED_TO_GET_STARTAP_IMG_INFO XMON_LOADER_FAILED_TO_LOAD_STARTAP_IMG
      = Some (Mod_Ok ii2 (module_entry L m1 ?f2 ii2 ?d2) m2)" and m2: "module_loaded L m1 ?f2 ii2 ?d2 m2"
    and keep2: "\<forall>x. \<not> ?W x \<longrightarrow> m2 x = m x"
    using load_both_modules [OF laws(1-3) xmon startap] by blast
  define xd1 where "xd1 = with_xmon xd ?d1 ii1 (ucast (ucast (module_entry L m ?f1 ii1 ?d1) :: u32))"
  define xd2 where "xd2 = with_startap xd1 ?d2 ii2 (module_entry L m1 ?f2 ii2 ?d2)"
  have same: "xd_startap_file xd1 = ?f2" "sa_hdr_info (xd_startap xd1) = sa_hdr_info (xd_startap xd)"
    "get_startap_img_base xd1 = ?d2" "xd_initial_state xd2 = xd_initial_state xd"
    by (simp_all add: xd1_def xd2_def with_xmon_def with_startap_def get_startap_img_base_def)
  have "load32 m2 (p + 4) = (load32 m (p + 4) :: u32)"
    using keep2 apart in_range_sub [of p 4 4 _ 8] by (intro load_le_cong) auto
  then have sz2: "sz = pi_memmap_size m2 p" using p(3) by (simp add: pi_memmap_size_def)
  have opts2: "option_bytes_at m2 opts lit" using option_bytes_cong [OF opts(1)] keep2 apart by blast
  have p2: "p = st_rbx (xd_initial_state xd2)" using p(1) same(4) by simp
  have "ldr_heap_off debug + LOADER_HEAP_SIZE = desc_off debug"
    by (cases debug; simp add: layout_offsets LOADER_HEAP_SIZE_def)
  then have room2: "unat (heap_current ?h) + unat (sizeof_cpu_state (pf_guest F)) +
      unat (sizeof_guest_startup (pf_guest F)) + unat (align4k sz) \<le> unat (heap_tops ?h)"
    using room heap by simp
  have apart_heap: "\<forall>x. in_range opts 256 x \<or> in_range lit 8 x \<or> in_range p 8 x \<longrightarrow>
      \<not> (unat (heap_current ?h) \<le> unat x \<and> unat x < unat (heap_tops ?h))"
    using apart heap_area [OF mem] by blast
  note env_ex = setup_env_ok [OF laws(6,4,5) sizes heap(3) p2 p(2) sz2 p(4) room2 opts2 opts(2) apart_heap,
      where xd_addr = xd_addr]
  obtain g e820 h' m' where env: "setup_env F ?ops opts lit xd_addr m2 ?h xd2 =
      Some (XMON_LOADER_SUCCESS, Some g,
        xd2\<lparr>xd_mon_env := startup_struct (pf_startup F) xd2 (pg_addr g) 0 0 e820 0\<rparr>, h', m')"
    "e820 \<noteq> 0" "cs_gp (pg_cpu g) REG_RIP = st_rip (xd_initial_state xd2)"
    "\<forall>x. \<not> (unat (heap_current ?h) \<le> unat x \<and> unat x < unat (heap_tops ?h)) \<longrightarrow> m' x = m2 x"
    using env_ex by (elim exE conjE) (rule that; assumption)
  have keep: "\<forall>x. \<not> ?W x \<longrightarrow> m' x = m x" using env(4) keep2 heap_area [OF mem] by metis
  define c where "c = \<lparr>sc_entry = module_entry L m1 ?f2 ii2 ?d2, sc_desc = with_init32 (pf_startup F)
      (xd2\<lparr>xd_mon_env := startup_struct (pf_startup F) xd2 (pg_addr g) 0 0 e820 0\<rparr>),
      sc_xmon_entry = module_entry L m ?f1 ii1 ?d1, sc_guest = Some g, sc_heap = h', sc_mem = m', sc_serial = s\<rparr>"
  have "xmon_loader L A align4k F debug info0 opts lit entry0 entry1 m s xd_addr xd = Some (Call_Startap c)"
    by (simp add: xmon_loader_def protocol_ops_init_def magic option_bytes_io_base [OF opts] l1 Let_def same l2 env(1) c_def
        loader_serial_init_def ibh_hides flip: xd1_def xd2_def)
  then show ?thesis
    using m1 m2 env(2,3) keep same
    by (intro exI [of _ c] exI [of _ g] exI [of _ m1] exI [of _ m2])
      (simp add: c_def with_init32_def startup_struct_def image_layout_def debug_settings_def xd2_def xd1_def
        with_startap_def with_xmon_def ucast_low_half)
qed

text \<open>
  The starter's package again, with a memory map of one descriptor, the option table at 0x1000 and
  the literal at 0x2000.
\<close>

definition demo_ldr :: mem where
  "demo_ldr x =
     (if in_range 0x1000 256 x then xmon_cmdline_options ! unat (x - 0x1000)
      else if in_range 0x2000 8 x then (iobase_name @ [0]) ! unat (x - 0x2000)
      else if x = 0x504 then 48 else demo_pkg x)"

definition demo_desc :: xmon_desc where
  "demo_desc = starter_desc False demo_pkg 0x10000000 0x10000000 0x500 0x4857b815 0 0 0 0"

definition demo_pf :: platform where
  "demo_pf = \<lparr>pf_view = sdm_view, pf_guest = demo_abi, pf_startup = \<lparr>sizeof_startup_struct = 0xA0,
     STARTUP_STRUCT_VERSION = 5, DEFAULT_STACK_SIZE_PAGES = 10, MAX_CPU_SUPPORTED = 80,
     DEBUG_PORT_VIRT_NONE = 0, page_align_4k = (\<lambda>x. (x + 4095) AND NOT 4095)\<rparr>,
     pf_align = align_forward_macro, pf_cpu = demo_cpu\<rparr>"

lemma demo_desc_fields:
  "st_rax (xd_initial_state demo_desc) = 0x4857b815" "st_rbx (xd_initial_state demo_desc) = 0x500"
  "xd_loader_mem_addr demo_desc = 0x10000000"
  "xd_xmon_file demo_desc = \<lparr>mod_addr = 0x10000040, mod_size = 260\<rparr>"
  "xd_startap_file demo_desc = \<lparr>mod_addr = 0x10000040, mod_size = 260\<rparr>"
  "unat (xm_total_size (xd_xmon demo_desc)) = 0xA00000"
  "get_xmon_img_base demo_desc = 0x13420000" "get_startap_img_base demo_desc = 0x12C00000"
  by (simp_all add: demo_desc_def starter_desc_def module_file_def ldr_bin_off_def demo_pkg_fields
      get_xmon_img_base_def get_startap_img_base_def layout_offsets startap_img_off_def
      XMON_DEFAULT_TOTAL_SIZE_def)

lemma demo_desc_infos:
  "xm_hdr_info (xd_xmon demo_desc) = zero_image_info" "sa_hdr_info (xd_startap demo_desc) = zero_image_info"
  by (simp_all add: demo_desc_def starter_desc_def) (simp_all add: zero_desc_def)

lemma demo_ldr_outside:
  assumes "0x2008 \<le> unat x"
  shows "demo_ldr x = demo_pkg x"
proof -
  have "\<not> in_range 0x1000 256 x" "\<not> in_range 0x2000 8 x" using assms by (simp_all add: in_range_linear)
  moreover have "x \<noteq> 0x504" using assms by auto
  ultimately show ?thesis by (simp add: demo_ldr_def)
qed

lemma demo_ldr_elf:
  assumes "\<forall>x. \<not> in_range 0x13420000 0x108 x \<longrightarrow> m x = demo_ldr x"
  shows "demo_at m 0x10000040"
  unfolding demo_at_def
proof (intro allI impI)
  fix k :: nat assume k: "k < 260"
  have u: "unat (0x10000040 + of_nat k :: addr) = 0x10000040 + k"
    using k by (simp add: unat_add64 unat_of_nat64)
  then have "\<not> in_range 0x13420000 0x108 (0x10000040 + of_nat k)" using k by (simp add: in_range_linear)
  moreover have "demo_ldr (0x10000040 + of_nat k) = demo_pkg (0x10000040 + of_nat k)"
    using u by (intro demo_ldr_outside) simp
  ultimately show "m (0x10000040 + of_nat k) = demo_elf ! k"
    using assms demo_pkg_elf k by (simp add: demo_at_def)
qed

lemma demo_ldr_module:
  assumes "demo_at m 0x10000040" and "264 \<le> room" and "room < 2 ^ 32"
  shows "module_ok elf_std demo_info zero_image_info m \<lparr>mod_addr = 0x10000040, mod_size = 260\<rparr> room
    \<lparr>load_size = 0x108, image_machine = Some IMAGE_MACHINE_EM64T\<rparr>"
  using at_loadable [OF assms(1), of 260] at_loadable [OF assms(1), of 264]
    at_get_image_info [OF assms(1), of 260 demo_info zero_image_info] assms(2,3)
  by (simp add: module_ok_def zero_image_info_def)

lemma demo_ldr_options: "option_bytes_at demo_ldr 0x1000 0x2000"
proof -
  have "demo_ldr (0x1000 + of_nat k) = xmon_cmdline_options ! k" if "k < 256" for k
  proof -
    have "unat (of_nat k :: addr) = k" using that by (intro unat_of_nat64) simp
    then show ?thesis using that by (simp add: demo_ldr_def in_range_def)
  qed
  moreover have "demo_ldr (0x2000 + of_nat k) = (iobase_name @ [0]) ! k" if "k < 8" for k
  proof -
    have "0x2000 + of_nat k - 0x1000 = (0x1000 :: addr) + of_nat k" by simp
    moreover have "unat (0x1000 + of_nat k :: addr) = 0x1000 + k" "unat (of_nat k :: addr) = k"
      using that by (simp_all add: unat_add_offset unat_of_nat64)
    ultimately show ?thesis using that by (simp add: demo_ldr_def in_range_def)
  qed
  from this [of 0] this [of 1] this [of 2] this [of 3] this [of 4] this [of 5] this [of 6] this [of 7]
  have "cstr demo_ldr 0x2000 iobase_name" by (simp add: iobase_name_def)
  ultimately show ?thesis by (simp add: option_bytes_at_def)
qed

lemma demo_ldr_memmap: "pi_memmap_size demo_ldr 0x500 = 48"
proof -
  have "demo_ldr 0x504 = 48" "demo_ldr 0x505 = 0" "demo_ldr 0x506 = 0" "demo_ldr 0x507 = 0"
    by (simp_all add: demo_ldr_def in_range_def demo_pkg_def demo_platform_def Let_def)
  then show ?thesis by (simp add: pi_memmap_size_def load_le_def read_bytes_def upt_rec)
qed

lemma demo_writes:
  assumes "in_range 0x1000 256 x \<or> in_range 0x2000 8 x \<or> in_range 0x500 8 x"
  shows "\<not> loader_writes False 0x1000 0x12089000 demo_desc 0x10000000 \<lparr>load_size = 0x108, image_machine = q\<rparr>
      \<lparr>load_size = 0x108, image_machine = r\<rparr> x"
  using assms by (auto simp: loader_writes_def demo_desc_fields layout_offsets in_range_linear)

theorem xmon_loader_calls_startap_witness:
  "\<exists>c. xmon_loader elf_std std_e820 align4k_mask demo_pf False demo_info 0x1000 0x2000 0 0 demo_ldr
       \<lparr>debug_port = 0, port_writes = [], lsr_reads = 0\<rparr> 0x12089000 demo_desc = Some (Call_Startap c) \<and>
     ml_base_address (mon_image_layout (xd_mon_env (sc_desc c))) = 0x13420000 \<and>
     sc_xmon_entry c = 0x13420010 \<and> sc_mem c 0x10000143 = 0xEF"
proof -
  let ?ii = "\<lparr>load_size = 0x108, image_machine = Some IMAGE_MACHINE_EM64T\<rparr>"
  note fields = demo_desc_fields demo_desc_infos demo_ldr_memmap
  have at: "demo_at demo_ldr 0x10000040" by (rule demo_ldr_elf) simp
  have entry: "module_entry elf_std demo_ldr \<lparr>mod_addr = 0x10000040, mod_size = 260\<rparr> ?ii 0x13420000 = 0x13420010"
    by (simp add: module_entry_def module_segments_def file_segments64_def at_loaded [OF at]
        segment_low_def at_load [OF at, of 24, simplified] demo_ehdr)
  have size: "align4k_mask 48 = 0x1000" by (simp add: align4k_mask_def mask_eq_exp_minus_1)
  have sizes: "aligns_forward (pf_align demo_pf)" "ok_bytes (sizeof_cpu_state (pf_guest demo_pf))"
    "ok_bytes (sizeof_guest_startup (pf_guest demo_pf))" "ok_bytes (align4k_mask 48)"
    by (simp_all add: demo_pf_def demo_abi_def align_forward_macro_law ok_bytes_def size)
  have magic: "(ucast (st_rax (xd_initial_state demo_desc)) :: u32) = IKGT_BOOTLOADER_MAGIC"
    by (simp add: fields IKGT_BOOTLOADER_MAGIC_def)
  have p: "0x500 = st_rbx (xd_initial_state demo_desc)" "(0x500 :: u64) \<noteq> 0"
    "48 = pi_memmap_size demo_ldr 0x500" "(48 :: u32) \<noteq> 0" "(0x1000 + 64 :: addr) \<noteq> 0"
    by (simp_all add: fields)
  have mem: "xd_loader_mem_addr demo_desc = ucast (0x10000000 :: u32)" "unat (0x10000000 :: u32) mod 8 = 0"
    "unat (0x10000000 :: u32) + desc_off False < 2 ^ 32"
    "unat (sizeof_cpu_state (pf_guest demo_pf)) + unat (sizeof_guest_startup (pf_guest demo_pf)) +
       unat (align4k_mask 48) \<le> LOADER_HEAP_SIZE"
    by (simp_all add: fields layout_offsets demo_pf_def demo_abi_def size LOADER_HEAP_SIZE_def)
  have xmon: "module_ok elf_std demo_info (xm_hdr_info (xd_xmon demo_desc)) demo_ldr (xd_xmon_file demo_desc)
      (unat (xm_total_size (xd_xmon demo_desc))) ?ii"
    using demo_ldr_module [OF at, of "0xA00000"] by (simp add: fields)
  have startap: "module_ok elf_std demo_info (sa_hdr_info (xd_startap demo_desc)) m1 (xd_startap_file demo_desc)
      STARTAP_IMG_SIZE ?ii"
    if "\<forall>x. \<not> in_range (get_xmon_img_base demo_desc) (unat (load_size ?ii)) x \<longrightarrow> m1 x = demo_ldr x" for m1
    using demo_ldr_module [OF demo_ldr_elf, of m1 STARTAP_IMG_SIZE] that by (simp add: fields STARTAP_IMG_SIZE_def)
  have apart: "disjoint_ranges (get_xmon_img_base demo_desc) (unat (load_size ?ii))
      (mod_addr (xd_xmon_file demo_desc)) (unat (load_size ?ii))"
    "disjoint_ranges (get_startap_img_base demo_desc) (unat (load_size ?ii))
      (mod_addr (xd_startap_file demo_desc)) (unat (load_size ?ii))"
    by (simp_all add: fields disjoint_ranges_def)
  have far: "\<not> loader_writes False 0x1000 0x12089000 demo_desc 0x10000000 ?ii ?ii 0x10000143"
    by (simp add: loader_writes_def fields layout_offsets in_range_linear)
  have byte: "demo_ldr 0x10000143 = 0xEF" by (simp add: demo_ldr_outside demo_pkg_def demo_elf_def)
  show ?thesis
    using xmon_loader_calls_startap [OF elf_std_ok elf_std_get_phdr elf_std_pie std_e820_ok align4k_mask_law sizes magic
        p(1-4) demo_ldr_options p(5) mem xmon apart(1) startap apart(2) demo_writes,
        where ?entry0.0 = 0 and ?entry1.0 = 0
          and s = "\<lparr>debug_port = 0, port_writes = [], lsr_reads = 0\<rparr>"]
      far byte entry
    by (auto simp: fields)
qed

end
