(* ===== verification/Byte_Lists.thy ===== *)
theory Byte_Lists
  imports Loader_Prelude
begin

text \<open>
  Byte lists and the words they spell: slices of files and of memory, overwriting a part of a list,
  and the relation \<open>patched\<close> between a list and a copy of it in which some aligned words were
  replaced. Used by the packer, the starter's view of a package and the EFI loader.
\<close>

section \<open>Words and their bytes\<close>

lemma le_word_bound:
  fixes bs :: "u8 list"
  shows "take_bit (8 * length bs) (le_word bs :: 'a::len word) = le_word bs"
proof (induction bs)
  case Nil
  then show ?case by simp
next
  case (Cons b bs)
  have "take_bit (8 * length (b # bs)) (ucast b :: 'a word) = ucast b"
    by (rule bit_word_eqI) (auto simp: bit_simps dest: bit_imp_le_length)
  moreover have "take_bit (8 * length (b # bs)) (push_bit 8 (le_word bs) :: 'a word)
      = push_bit 8 (take_bit (8 * length bs) (le_word bs))"
    by (rule bit_word_eqI) (auto simp: bit_simps)
  ultimately show ?case by (simp add: take_bit_or Cons.IH)
qed

lemma word_bytes_le_word:
  "8 * length bs \<le> LENGTH('a) \<Longrightarrow> word_bytes (length bs) (le_word bs :: 'a::len word) = bs"
proof (induction bs)
  case Nil
  then show ?case by simp
next
  case (Cons b bs)
  let ?w = "le_word bs :: 'a word"
  have low: "take_bit (LENGTH('a) - 8) ?w = ?w"
  proof -
    have "min (LENGTH('a) - 8) (8 * length bs) = 8 * length bs" using Cons.prems by simp
    then have "take_bit (LENGTH('a) - 8) (take_bit (8 * length bs) ?w) = take_bit (8 * length bs) ?w"
      by (simp only: take_bit_take_bit)
    then show ?thesis by (simp only: le_word_bound)
  qed
  have "drop_bit 8 ((ucast b :: 'a word) OR push_bit 8 ?w) = take_bit (LENGTH('a) - 8) ?w"
    by (rule bit_word_eqI) (auto simp: bit_simps dest: bit_imp_le_length)
  then have "drop_bit 8 (le_word (b # bs) :: 'a word) = ?w" using low by simp
  moreover have "(ucast (le_word (b # bs) :: 'a word) :: u8) = b"
    using Cons.prems by (intro ucast_le_word_Cons) simp
  ultimately show ?case using Cons by (simp del: le_word.simps)
qed

lemma le_word_eq_iff:
  assumes "8 * length bs = LENGTH('a)"
  shows "(le_word bs :: 'a::len word) = w \<longleftrightarrow> bs = word_bytes (length bs) w"
  using assms word_bytes_le_word [of bs, where 'a = 'a] le_word_word_bytes_id [of "length bs" w]
  by (metis order_refl)

lemma word_bytes_inject:
  assumes "LENGTH('a) \<le> 8 * n"
  shows "word_bytes n (v :: 'a::len word) = word_bytes n w \<longleftrightarrow> v = w"
  using le_word_word_bytes_id [OF assms, of v] le_word_word_bytes_id [OF assms, of w] by metis

lemma word_bytes_numeral:
  "word_bytes (numeral k) w = ucast w # word_bytes (pred_numeral k) (drop_bit 8 w)"
  by (simp add: numeral_eq_Suc)

section \<open>Slices\<close>

definition bslice :: "'b list \<Rightarrow> nat \<Rightarrow> nat \<Rightarrow> 'b list" where
  "bslice bs i n = take n (drop i bs)"

lemma length_bslice [simp]: "i + n \<le> length bs \<Longrightarrow> length (bslice bs i n) = n"
  by (simp add: bslice_def)

lemma nth_bslice: "i + n \<le> length bs \<Longrightarrow> j < n \<Longrightarrow> bslice bs i n ! j = bs ! (i + j)"
  by (simp add: bslice_def)

lemma bslice_eq_map: "i + n \<le> length bs \<Longrightarrow> bslice bs i n = map (\<lambda>j. bs ! (i + j)) [0..<n]"
  by (intro nth_equalityI) (simp_all add: nth_bslice)

lemma bslice_bslice: "j + k \<le> n \<Longrightarrow> bslice (bslice bs i n) j k = bslice bs (i + j) k"
  by (simp add: bslice_def take_drop min_def add.commute)

lemma bslice_append1: "i + n \<le> length xs \<Longrightarrow> bslice (xs @ ys) i n = bslice xs i n"
  by (simp add: bslice_def)

lemma bslice_append2: "length xs \<le> i \<Longrightarrow> bslice (xs @ ys) i n = bslice ys (i - length xs) n"
  by (simp add: bslice_def)

lemma bslice_all: "length bs = n \<Longrightarrow> bslice bs 0 n = bs"
  by (simp add: bslice_def)

lemma bslice_cong:
  assumes "i + n \<le> length bs" and "i + n \<le> length cs" and "\<And>j. j < n \<Longrightarrow> bs ! (i + j) = cs ! (i + j)"
  shows "bslice bs i n = bslice cs i n"
  using assms by (intro nth_equalityI) (simp_all add: nth_bslice)

section \<open>Overwriting\<close>

text \<open>Overwriting at an offset; a gap behind the end is filled with zeros.\<close>

definition splice :: "u8 list \<Rightarrow> nat \<Rightarrow> u8 list \<Rightarrow> u8 list" where
  "splice bs off data =
     take off bs @ replicate (off - length bs) 0 @ data @ drop (off + length data) bs"

lemma length_splice [simp]: "off + length d \<le> length bs \<Longrightarrow> length (splice bs off d) = length bs"
  by (simp add: splice_def)

lemma nth_splice:
  assumes "off + length d \<le> length bs" and "i < length bs"
  shows "splice bs off d ! i = (if off \<le> i \<and> i < off + length d then d ! (i - off) else bs ! i)"
  using assms by (auto simp: splice_def nth_append min_def)

lemma bslice_splice_apart:
  assumes "off + length d \<le> length bs" and "i + n \<le> length bs" and "i + n \<le> off \<or> off + length d \<le> i"
  shows "bslice (splice bs off d) i n = bslice bs i n"
  using assms by (intro bslice_cong) (auto simp: nth_splice)

lemma bslice_splice_inside:
  assumes "off + length d \<le> length bs" and "off \<le> i" and "i + n \<le> off + length d"
  shows "bslice (splice bs off d) i n = bslice d (i - off) n"
  using assms by (intro nth_equalityI) (simp_all add: nth_bslice nth_splice)

section \<open>Replacing aligned words\<close>

definition patched :: "u8 list set \<Rightarrow> u8 list \<Rightarrow> u8 list \<Rightarrow> bool" where
  "patched W bs bs' \<longleftrightarrow>
     length bs' = length bs \<and>
     (\<forall>k. 4 * k + 4 \<le> length bs \<longrightarrow> bslice bs' (4 * k) 4 = bslice bs (4 * k) 4 \<or> bslice bs' (4 * k) 4 \<in> W)"

lemma patched_refl: "patched W bs bs"
  by (simp add: patched_def)

lemma patched_trans: "patched W bs cs \<Longrightarrow> patched W cs ds \<Longrightarrow> patched W bs ds"
  unfolding patched_def by metis

lemma patched_mono: "patched W bs cs \<Longrightarrow> W \<subseteq> W' \<Longrightarrow> patched W' bs cs"
  by (auto simp: patched_def)

lemma patched_all:
  "length bs' = length bs \<Longrightarrow> (\<And>k. 4 * k + 4 \<le> length bs \<Longrightarrow> bslice bs' (4 * k) 4 \<in> W) \<Longrightarrow> patched W bs bs'"
  by (simp add: patched_def)

lemma patched_splice:
  assumes d: "patched W (bslice bs (4 * b) (length d)) d" and fit: "4 * b + length d \<le> length bs"
    and len: "4 dvd length d"
  shows "patched W bs (splice bs (4 * b) d)"
  unfolding patched_def
proof (intro conjI allI impI)
  show "length (splice bs (4 * b) d) = length bs" using fit by simp
  fix k assume k: "4 * k + 4 \<le> length bs"
  obtain n where n: "length d = 4 * n" using len by (elim dvdE)
  show "bslice (splice bs (4 * b) d) (4 * k) 4 = bslice bs (4 * k) 4 \<or> bslice (splice bs (4 * b) d) (4 * k) 4 \<in> W"
  proof (cases "b \<le> k \<and> k < b + n")
    case True
    then have "k - b < n" by linarith
    then have step: "4 * (k - b) + 4 \<le> length d" using n by linarith
    have "bslice (splice bs (4 * b) d) (4 * k) 4 = bslice d (4 * (k - b)) 4"
      using True fit n by (subst bslice_splice_inside) (simp_all add: diff_mult_distrib2)
    moreover have "bslice d (4 * (k - b)) 4 = bslice (bslice bs (4 * b) (length d)) (4 * (k - b)) 4
        \<or> bslice d (4 * (k - b)) 4 \<in> W"
    proof -
      have "4 * (k - b) + 4 \<le> length (bslice bs (4 * b) (length d))" using step fit by simp
      then show ?thesis using d unfolding patched_def by blast
    qed
    moreover have "4 * b + 4 * (k - b) = 4 * k" using True by (simp flip: distrib_left)
    then have "bslice (bslice bs (4 * b) (length d)) (4 * (k - b)) 4 = bslice bs (4 * k) 4"
      using bslice_bslice [OF step, of bs "4 * b"] by metis
    ultimately show ?thesis by metis
  next
    case False
    then have "bslice (splice bs (4 * b) d) (4 * k) 4 = bslice bs (4 * k) 4"
      using fit n k by (intro bslice_splice_apart) auto
    then show ?thesis by simp
  qed
qed

text \<open>A pair of words that the patches do not write is only found where it was.\<close>

lemma patched_pair:
  assumes "patched W bs bs'" and "4 * k + 8 \<le> length bs"
    and "bslice bs' (4 * k) 8 = a @ b" and "length a = 4" and "length b = 4" and "a \<notin> W" and "b \<notin> W"
  shows "bslice bs (4 * k) 8 = a @ b"
proof -
  have halves: "bslice cs (4 * k) 8 = bslice cs (4 * k) 4 @ bslice cs (4 * Suc k) 4" for cs :: "u8 list"
    by (simp add: bslice_def take_add [of 4 4, simplified] add.commute)
  have len: "length bs' = length bs" "4 * k + 4 \<le> length bs" "4 * Suc k + 4 \<le> length bs"
    using assms(1,2) by (simp_all add: patched_def)
  then have "bslice bs' (4 * k) 4 = a" "bslice bs' (4 * Suc k) 4 = b"
    using assms(3,4) halves [of bs'] by (simp_all add: append_eq_append_conv)
  then have "bslice bs (4 * k) 4 = a" "bslice bs (4 * Suc k) 4 = b"
    using assms(1,6,7) len unfolding patched_def by metis+
  then show ?thesis using halves [of bs] by simp
qed

end
