(* ===== verification/Ap_Code.thy ===== *)
theory Ap_Code
  imports Common_Util Byte_Lists
begin

text \<open>
  The start-up code of the application processors, the first half of \<open>startap/ap_procs_init.c\<close>: the
  byte template, the operands that \<open>setup_low_memory_ap_code\<close> patches into its copy in the low memory
  page, and the two tables behind it. The processor's registers are arguments; the layout of
  \<open>ia32_gdtr_t\<close> (a header outside the repository) is the parameter \<open>gdtr_abi\<close>. The second half of the
  theory decodes the page: it holds an instruction sequence, and executing that sequence takes a
  processor from real mode to 64-bit mode.
\<close>

section \<open>The template and its offsets\<close>

definition ap_start_up_code :: "u8 list" where
  "ap_start_up_code = [
     0xB8, 0x00, 0x00, 0x8E, 0xD8, 0x8D, 0x36, 0x00, 0x00, 0x0F, 0x01, 0x14, 0x0F, 0x20, 0xC0,
     0x0C, 0x01, 0x0F, 0x22, 0xC0, 0x66, 0xEA, 0x00, 0x00, 0x00, 0x00, 0x00, 0x00, 0xFA,
     0x66, 0xB8, 0x00, 0x00, 0x66, 0x8E, 0xD8, 0x66, 0xB8, 0x00, 0x00, 0x66, 0x8E, 0xC0,
     0x66, 0xB8, 0x00, 0x00, 0x66, 0x8E, 0xE8, 0x66, 0xB8, 0x00, 0x00, 0x66, 0x8E, 0xE0,
     0xB8, 0x00, 0x00, 0x00, 0x00, 0xFF, 0xE0, 0xB9, 0x1B, 0x00, 0x00, 0x00, 0x0F, 0x32,
     0x25, 0x00, 0xF0, 0xFF, 0xFF, 0x8B, 0x48, 0x20, 0xC1, 0xE9, 0x18,
     0xB8, 0x00, 0x00, 0x00, 0x00, 0x89, 0xCA, 0xC1, 0xE2, 0x04, 0x01, 0xD0, 0x89, 0xC4,
     0xB8, 0x00, 0x00, 0x00, 0x00, 0x0F, 0x01, 0x10, 0xB8, 0x00, 0x00, 0x00, 0x00,
     0x0F, 0x22, 0xD8, 0x0F, 0x20, 0xE0, 0x0F, 0xBA, 0xE8, 0x05, 0x0F, 0x22, 0xE0, 0x51,
     0xB9, 0x80, 0x00, 0x00, 0xC0, 0x0F, 0x32, 0x0F, 0xBA, 0xE8, 0x08, 0x0F, 0x30, 0x59,
     0x0F, 0x20, 0xC0, 0x0F, 0xBA, 0xE8, 0x1F, 0x0F, 0x22, 0xC0, 0x31, 0xC0,
     0xB8, 0x00, 0x00, 0x00, 0x00, 0x50, 0xB8, 0x00, 0x00, 0x00, 0x00, 0x50, 0xCB]"

definition AP_START_UP_SEGMENT_IN_CODE_OFFSET :: nat where "AP_START_UP_SEGMENT_IN_CODE_OFFSET = 1"
definition GDTR_OFFSET_IN_CODE :: nat where "GDTR_OFFSET_IN_CODE = 7"
definition CONT16_IN_CODE_OFFSET :: nat where "CONT16_IN_CODE_OFFSET = 22"
definition CONT16_VALUE_OFFSET :: nat where "CONT16_VALUE_OFFSET = 28"
definition CS_IN_CODE_OFFSET :: nat where "CS_IN_CODE_OFFSET = 26"
definition DS_IN_CODE_OFFSET :: nat where "DS_IN_CODE_OFFSET = 31"
definition ES_IN_CODE_OFFSET :: nat where "ES_IN_CODE_OFFSET = 38"
definition GS_IN_CODE_OFFSET :: nat where "GS_IN_CODE_OFFSET = 45"
definition FS_IN_CODE_OFFSET :: nat where "FS_IN_CODE_OFFSET = 52"
definition AP_MODE_SWITCH_CODE_IN_CODE_OFFSET :: nat where "AP_MODE_SWITCH_CODE_IN_CODE_OFFSET = 58"
definition AP_MODE_SWITCH_ADDR_OFFSET :: nat where "AP_MODE_SWITCH_ADDR_OFFSET = 64"
definition AP_SCRATCH_BASE_OFFSET :: nat where "AP_SCRATCH_BASE_OFFSET = 83"
definition AP_X32_TO_X64_GDTR_OFFSET :: nat where "AP_X32_TO_X64_GDTR_OFFSET = 97"
definition AP_CR3_X64_OFFSET :: nat where "AP_CR3_X64_OFFSET = 105"
definition AP_CS_X64_OFFSET :: nat where "AP_CS_X64_OFFSET = 150"
definition AP_CONTINUE_WAKEUP_CODE_IN_CODE_OFFSET :: nat where
  "AP_CONTINUE_WAKEUP_CODE_IN_CODE_OFFSET = 156"

definition GDTR_OFFSET_IN_PAGE :: nat where
  "GDTR_OFFSET_IN_PAGE = (length ap_start_up_code + 7) div 8 * 8"
definition GDT_OFFSET_IN_PAGE :: nat where "GDT_OFFSET_IN_PAGE = GDTR_OFFSET_IN_PAGE + 8"

definition AP_32_CS :: u16 where "AP_32_CS = 0x10"
definition AP_32_DS :: u16 where "AP_32_DS = 0x18"

definition gdt32_table :: "u64 list" where
  "gdt32_table = [0, 0, 0x00cf9a000000ffff, 0x00cf93000000ffff]"

definition gdt32_bytes :: "u8 list" where "gdt32_bytes = concat (map (word_bytes 8) gdt32_table)"

record gdtr_abi =
  gdtr_limit_off :: addr
  gdtr_base_off :: addr

text \<open>The layout that the processor reads: the limit, then the base.\<close>

definition gdtr_packed :: gdtr_abi where "gdtr_packed = \<lparr>gdtr_limit_off = 0, gdtr_base_off = 2\<rparr>"

definition store_gdtr :: "gdtr_abi \<Rightarrow> mem \<Rightarrow> addr \<Rightarrow> u16 \<Rightarrow> u32 \<Rightarrow> mem" where
  "store_gdtr G m p limit base = store32 (store16 m (p + gdtr_limit_off G) limit) (p + gdtr_base_off G) base"

section \<open>Writing the page\<close>

text \<open>
  What the code reads from the processor, and where the compiler put the template, the table, the
  local variable \<open>ap_gdtr_x32_for_x64\<close> and \<open>ap_continue_wakeup_code\<close>.
\<close>

record ap_setup =
  bsp_gdtr_limit :: u16
  bsp_gdtr_base :: u64
  bsp_cr3 :: u64
  bsp_cs :: u16
  at_template :: addr
  at_gdt32 :: addr
  at_gdtr_x64 :: addr
  at_wakeup :: addr

definition poke16 :: "addr \<Rightarrow> nat \<Rightarrow> u16 \<Rightarrow> mem \<Rightarrow> mem" where
  "poke16 code off v m = store16 m (code + of_nat off) v"

definition poke32 :: "addr \<Rightarrow> nat \<Rightarrow> u32 \<Rightarrow> mem \<Rightarrow> mem" where
  "poke32 code off v m = store32 m (code + of_nat off) v"

definition patch_operands :: "ap_setup \<Rightarrow> addr \<Rightarrow> mem \<Rightarrow> mem" where
  "patch_operands S code m =
     (let m = poke16 code AP_START_UP_SEGMENT_IN_CODE_OFFSET (ucast (drop_bit 4 code)) m;
          m = poke16 code GDTR_OFFSET_IN_CODE (of_nat GDTR_OFFSET_IN_PAGE) m;
          m = poke32 code CONT16_IN_CODE_OFFSET (ucast code + of_nat CONT16_VALUE_OFFSET) m;
          m = poke16 code CS_IN_CODE_OFFSET AP_32_CS m;
          m = poke16 code DS_IN_CODE_OFFSET AP_32_DS m;
          m = poke16 code ES_IN_CODE_OFFSET AP_32_DS m;
          m = poke16 code GS_IN_CODE_OFFSET AP_32_DS m;
          m = poke16 code FS_IN_CODE_OFFSET AP_32_DS m;
          m = poke32 code AP_CONTINUE_WAKEUP_CODE_IN_CODE_OFFSET (ucast (at_wakeup S)) m;
          m = poke32 code AP_X32_TO_X64_GDTR_OFFSET (ucast (at_gdtr_x64 S)) m;
          m = poke32 code AP_CR3_X64_OFFSET (ucast (bsp_cr3 S)) m;
          m = poke32 code AP_CS_X64_OFFSET (ucast (bsp_cs S)) m;
          m = poke32 code AP_SCRATCH_BASE_OFFSET (ucast code + 0x1000) m
      in poke32 code AP_MODE_SWITCH_CODE_IN_CODE_OFFSET (ucast code + of_nat AP_MODE_SWITCH_ADDR_OFFSET) m)"

definition setup_low_memory_ap_code :: "gdtr_abi \<Rightarrow> ap_setup \<Rightarrow> u64 \<Rightarrow> mem \<Rightarrow> mem" where
  "setup_low_memory_ap_code G S temp_low_memory_4K m =
     (let code = temp_low_memory_4K;
          m = store_gdtr G m (at_gdtr_x64 S) (bsp_gdtr_limit S) (ucast (bsp_gdtr_base S));
          gdt32_limit = of_nat (8 * length gdt32_table - 1) :: u16;
          gdt32_base = ucast (at_gdt32 S) :: u32;
          m = mon_memcpy m code (at_template S) (of_nat (length ap_start_up_code));
          m = patch_operands S code m;
          m = mon_memcpy m (code + of_nat GDT_OFFSET_IN_PAGE) (ucast gdt32_base) (ucast gdt32_limit + 1)
      in store_gdtr G m (code + of_nat GDTR_OFFSET_IN_PAGE) gdt32_limit
           (ucast code + of_nat GDT_OFFSET_IN_PAGE))"

section \<open>The page as a byte list\<close>

lemma read_bytes_splice:
  assumes "off + length d \<le> n" and "n < 2 ^ 64"
    and "\<And>k. k < n \<Longrightarrow> m' (p + of_nat k) =
      (if off \<le> k \<and> k < off + length d then d ! (k - off) else m (p + of_nat k))"
  shows "read_bytes m' p n = splice (read_bytes m p n) off d"
  using assms by (intro nth_equalityI) (simp_all add: nth_splice)

lemma in_range_page:
  assumes "k < 2 ^ 64" and "off < 2 ^ 64" and "off + n \<le> 2 ^ 64"
  shows "in_range (p + of_nat off) n (p + of_nat k) \<longleftrightarrow> off \<le> k \<and> k < off + n"
    and "off \<le> k \<Longrightarrow> unat (of_nat k - of_nat off :: addr) = k - off"
proof -
  have d: "p + of_nat k - (p + of_nat off) = (of_nat k - of_nat off :: addr)" by simp
  have le: "unat (of_nat k - of_nat off :: addr) = k - off" if "off \<le> k"
    using that assms(1) by (metis diff_le_self le_less_trans of_nat_diff unat_of_nat64)
  then show "off \<le> k \<Longrightarrow> unat (of_nat k - of_nat off :: addr) = k - off" .
  have "n \<le> unat (of_nat k - of_nat off :: addr)" if "k < off"
  proof -
    have u: "unat (of_nat (off - k) :: addr) = off - k"
      by (rule unat_of_nat64) (use assms(2) in linarith)
    then have nz: "(of_nat (off - k) :: addr) \<noteq> 0" using that by (metis unat_0 zero_less_diff less_irrefl)
    have eq: "(of_nat k - of_nat off :: addr) = - of_nat (off - k)" using that by (simp add: of_nat_diff)
    have "unat (of_nat k - of_nat off :: addr) = 2 ^ 64 - (off - k)"
      unfolding eq unat_minus_flip [OF nz] u ..
    then show ?thesis using assms(3) that by linarith
  qed
  then show "in_range (p + of_nat off) n (p + of_nat k) \<longleftrightarrow> off \<le> k \<and> k < off + n"
    unfolding in_range_def d using le by (cases "off \<le> k") auto
qed

lemma read_store_splice:
  assumes "off + n \<le> N" and "N < 2 ^ 64"
  shows "read_bytes (store_le n m (p + of_nat off) w) p N = splice (read_bytes m p N) off (word_bytes n w)"
proof (rule read_bytes_splice)
  fix k assume "k < N"
  then show "store_le n m (p + of_nat off) w (p + of_nat k) =
      (if off \<le> k \<and> k < off + length (word_bytes n w) then word_bytes n w ! (k - off) else m (p + of_nat k))"
    using in_range_page(1) [of k off n p] in_range_page(2) [of k off n] assms by (simp add: store_le_apply)
qed (use assms in simp_all)

lemma read_poke:
  "off + 2 \<le> N \<Longrightarrow> N < 2 ^ 64 \<Longrightarrow> read_bytes (poke16 p off v m) p N = splice (read_bytes m p N) off (word_bytes 2 v)"
  "off + 4 \<le> N \<Longrightarrow> N < 2 ^ 64 \<Longrightarrow> read_bytes (poke32 p off w m) p N = splice (read_bytes m p N) off (word_bytes 4 w)"
  by (simp_all add: poke16_def poke32_def read_store_splice)

lemma read_memcpy_splice:
  assumes "off + unat c \<le> N" and "N < 2 ^ 64" and "disjoint_ranges (p + of_nat off) (unat c) src (unat c)"
  shows "read_bytes (mon_memcpy m (p + of_nat off) src c) p N
    = splice (read_bytes m p N) off (read_bytes m src (unat c))"
proof (rule read_bytes_splice)
  fix k assume k: "k < N"
  have "p + of_nat k - (p + of_nat off) = (of_nat (k - off) :: addr)" if "off \<le> k"
    using that by (simp add: of_nat_diff)
  then show "mon_memcpy m (p + of_nat off) src c (p + of_nat k) =
      (if off \<le> k \<and> k < off + length (read_bytes m src (unat c))
       then read_bytes m src (unat c) ! (k - off) else m (p + of_nat k))"
    using k assms by (auto simp: mon_memcpy_disjoint in_range_page)
qed (use assms in simp_all)

section \<open>The instructions\<close>

datatype segment_register = Reg_DS | Reg_ES | Reg_GS | Reg_FS

fun modrm :: "segment_register \<Rightarrow> u8" where
  "modrm Reg_DS = 0xD8"
| "modrm Reg_ES = 0xC0"
| "modrm Reg_GS = 0xE8"
| "modrm Reg_FS = 0xE0"

text \<open>The instructions of the template; those before the far jump are 16-bit code.\<close>

datatype instr =
    Mov_Ax16 u16 | Mov_Ds_Ax16 | Lea_Si16 u16 | Lgdt_Si16 | Mov_Eax_Cr0 | Or_Al u8 | Mov_Cr0_Eax
  | Far_Jmp16 u32 u16
  | Cli | Mov_Ax u16 | Mov_Seg_Ax segment_register | Mov_Eax u32 | Jmp_Eax | Mov_Ecx u32 | Rdmsr | Wrmsr
  | And_Eax u32 | Mov_Ecx_At_Eax u8 | Shr_Ecx u8 | Mov_Edx_Ecx | Shl_Edx u8 | Add_Eax_Edx | Mov_Esp_Eax
  | Lgdt_At_Eax | Mov_Cr3_Eax | Mov_Eax_Cr4 | Bts_Eax u8 | Mov_Cr4_Eax | Push_Ecx | Pop_Ecx | Xor_Eax_Eax
  | Push_Eax | Far_Ret

fun encode :: "instr \<Rightarrow> u8 list" where
  "encode (Mov_Ax16 v) = 0xB8 # word_bytes 2 v"
| "encode Mov_Ds_Ax16 = [0x8E, 0xD8]"
| "encode (Lea_Si16 v) = [0x8D, 0x36] @ word_bytes 2 v"
| "encode Lgdt_Si16 = [0x0F, 0x01, 0x14]"
| "encode Mov_Eax_Cr0 = [0x0F, 0x20, 0xC0]"
| "encode (Or_Al b) = [0x0C, b]"
| "encode Mov_Cr0_Eax = [0x0F, 0x22, 0xC0]"
| "encode (Far_Jmp16 ip cs) = [0x66, 0xEA] @ word_bytes 4 ip @ word_bytes 2 cs"
| "encode Cli = [0xFA]"
| "encode (Mov_Ax v) = [0x66, 0xB8] @ word_bytes 2 v"
| "encode (Mov_Seg_Ax r) = [0x66, 0x8E, modrm r]"
| "encode (Mov_Eax v) = 0xB8 # word_bytes 4 v"
| "encode Jmp_Eax = [0xFF, 0xE0]"
| "encode (Mov_Ecx v) = 0xB9 # word_bytes 4 v"
| "encode Rdmsr = [0x0F, 0x32]"
| "encode Wrmsr = [0x0F, 0x30]"
| "encode (And_Eax v) = 0x25 # word_bytes 4 v"
| "encode (Mov_Ecx_At_Eax d) = [0x8B, 0x48, d]"
| "encode (Shr_Ecx n) = [0xC1, 0xE9, n]"
| "encode Mov_Edx_Ecx = [0x89, 0xCA]"
| "encode (Shl_Edx n) = [0xC1, 0xE2, n]"
| "encode Add_Eax_Edx = [0x01, 0xD0]"
| "encode Mov_Esp_Eax = [0x89, 0xC4]"
| "encode Lgdt_At_Eax = [0x0F, 0x01, 0x10]"
| "encode Mov_Cr3_Eax = [0x0F, 0x22, 0xD8]"
| "encode Mov_Eax_Cr4 = [0x0F, 0x20, 0xE0]"
| "encode (Bts_Eax n) = [0x0F, 0xBA, 0xE8, n]"
| "encode Mov_Cr4_Eax = [0x0F, 0x22, 0xE0]"
| "encode Push_Ecx = [0x51]"
| "encode Pop_Ecx = [0x59]"
| "encode Xor_Eax_Eax = [0x31, 0xC0]"
| "encode Push_Eax = [0x50]"
| "encode Far_Ret = [0xCB]"

text \<open>The three straight-line pieces of the program, each ending in its jump.\<close>

definition real_mode_part :: "u32 \<Rightarrow> instr list" where
  "real_mode_part page =
     [Mov_Ax16 (ucast (drop_bit 4 page)), Mov_Ds_Ax16, Lea_Si16 168, Lgdt_Si16, Mov_Eax_Cr0, Or_Al 1,
      Mov_Cr0_Eax, Far_Jmp16 (page + 28) 0x10]"

definition protected_mode_part :: "u32 \<Rightarrow> instr list" where
  "protected_mode_part page =
     [Cli, Mov_Ax 0x18, Mov_Seg_Ax Reg_DS, Mov_Ax 0x18, Mov_Seg_Ax Reg_ES, Mov_Ax 0x18, Mov_Seg_Ax Reg_GS,
      Mov_Ax 0x18, Mov_Seg_Ax Reg_FS, Mov_Eax (page + 64), Jmp_Eax]"

definition mode_switch_part :: "ap_setup \<Rightarrow> u32 \<Rightarrow> instr list" where
  "mode_switch_part S page =
     [Mov_Ecx 0x1B, Rdmsr, And_Eax 0xFFFFF000, Mov_Ecx_At_Eax 0x20, Shr_Ecx 0x18,
      Mov_Eax (page + 0x1000), Mov_Edx_Ecx, Shl_Edx 4, Add_Eax_Edx, Mov_Esp_Eax,
      Mov_Eax (ucast (at_gdtr_x64 S)), Lgdt_At_Eax, Mov_Eax (ucast (bsp_cr3 S)), Mov_Cr3_Eax,
      Mov_Eax_Cr4, Bts_Eax 5, Mov_Cr4_Eax,
      Push_Ecx, Mov_Ecx 0xC0000080, Rdmsr, Bts_Eax 8, Wrmsr, Pop_Ecx,
      Mov_Eax_Cr0, Bts_Eax 31, Mov_Cr0_Eax,
      Xor_Eax_Eax, Mov_Eax (ucast (bsp_cs S)), Push_Eax, Mov_Eax (ucast (at_wakeup S)), Push_Eax, Far_Ret]"

definition ap_program :: "ap_setup \<Rightarrow> u32 \<Rightarrow> instr list" where
  "ap_program S page = real_mode_part page @ protected_mode_part page @ mode_switch_part S page"

lemma template_length: "length ap_start_up_code = 162" by (simp add: ap_start_up_code_def)

lemmas page_offsets = AP_START_UP_SEGMENT_IN_CODE_OFFSET_def GDTR_OFFSET_IN_CODE_def CONT16_IN_CODE_OFFSET_def
  CONT16_VALUE_OFFSET_def CS_IN_CODE_OFFSET_def DS_IN_CODE_OFFSET_def ES_IN_CODE_OFFSET_def
  GS_IN_CODE_OFFSET_def FS_IN_CODE_OFFSET_def AP_MODE_SWITCH_CODE_IN_CODE_OFFSET_def
  AP_MODE_SWITCH_ADDR_OFFSET_def AP_SCRATCH_BASE_OFFSET_def AP_X32_TO_X64_GDTR_OFFSET_def
  AP_CR3_X64_OFFSET_def AP_CS_X64_OFFSET_def AP_CONTINUE_WAKEUP_CODE_IN_CODE_OFFSET_def

lemma page_layout: "GDTR_OFFSET_IN_PAGE = 168" "GDT_OFFSET_IN_PAGE = 176"
  by (simp_all add: GDTR_OFFSET_IN_PAGE_def GDT_OFFSET_IN_PAGE_def template_length)

section \<open>What the page holds\<close>

lemma word_bytes_2: "word_bytes 2 v = [ucast v, ucast (drop_bit 8 v)]" for v :: u16
  by (simp add: word_bytes_numeral)

lemma word_bytes_4:
  "word_bytes 4 w = [ucast w, ucast (drop_bit 8 w), ucast (drop_bit 16 w), ucast (drop_bit 24 w)]" for w :: u32
  by (simp add: word_bytes_numeral)

definition patch_bytes :: "(nat \<times> u8 list) list \<Rightarrow> u8 list \<Rightarrow> u8 list" where
  "patch_bytes ps bs = fold (\<lambda>(off, d) bs. splice bs off d) ps bs"

definition operand_patches :: "ap_setup \<Rightarrow> u32 \<Rightarrow> (nat \<times> u8 list) list" where
  "operand_patches S page =
     [(1, word_bytes 2 (ucast (drop_bit 4 page) :: u16)), (7, word_bytes 2 (168 :: u16)),
      (22, word_bytes 4 (page + 28)), (26, word_bytes 2 (0x10 :: u16)), (31, word_bytes 2 (0x18 :: u16)),
      (38, word_bytes 2 (0x18 :: u16)), (45, word_bytes 2 (0x18 :: u16)), (52, word_bytes 2 (0x18 :: u16)),
      (156, word_bytes 4 (ucast (at_wakeup S) :: u32)), (97, word_bytes 4 (ucast (at_gdtr_x64 S) :: u32)),
      (105, word_bytes 4 (ucast (bsp_cr3 S) :: u32)), (150, word_bytes 4 (ucast (bsp_cs S) :: u32)),
      (83, word_bytes 4 (page + 0x1000)), (58, word_bytes 4 (page + 64))]"

lemma template_patched:
  "patch_bytes (operand_patches S page) ap_start_up_code = concat (map encode (ap_program S page))"
  by (simp add: patch_bytes_def operand_patches_def ap_start_up_code_def splice_def word_bytes_2 word_bytes_4
      ap_program_def real_mode_part_def protected_mode_part_def mode_switch_part_def)

lemma page_casts:
  fixes page :: u32
  shows "(ucast (ucast page :: addr) :: u32) = page"
    and "(ucast (drop_bit 4 (ucast page :: addr)) :: u16) = ucast (drop_bit 4 page)"
  by (rule bit_word_eqI; simp add: bit_simps)+

lemma read_patch_operands:
  "read_bytes (patch_operands S (ucast page) m) (ucast page) 162
     = patch_bytes (operand_patches S page) (read_bytes m (ucast page) 162)"
  by (simp add: patch_operands_def Let_def page_offsets page_layout AP_32_CS_def AP_32_DS_def page_casts read_poke
      patch_bytes_def operand_patches_def)

lemma poke_outside:
  assumes "\<not> in_range code n x" and "off + 4 \<le> n" and "n < 2 ^ 64"
  shows "poke16 code off v m x = m x" "poke32 code off w m x = m x"
proof -
  have u: "unat (of_nat off :: addr) = off" using assms by (intro unat_of_nat64) linarith
  have "\<not> in_range (code + of_nat off) k x" if "k \<le> 4" for k
    using in_range_sub [of code "of_nat off" k x n] assms that u by auto
  then show "poke16 code off v m x = m x" "poke32 code off w m x = m x"
    by (simp_all add: poke16_def poke32_def store_le_apply)
qed

lemma patch_operands_outside:
  assumes "\<not> in_range code 162 x"
  shows "patch_operands S code m x = m x"
  using poke_outside [OF assms] by (simp add: patch_operands_def Let_def page_offsets)

lemma store_gdtr_apply:
  "store_gdtr gdtr_packed m p limit base x =
     (if in_range (p + 2) 4 x then word_bytes 4 base ! unat (x - (p + 2))
      else if in_range p 2 x then word_bytes 2 limit ! unat (x - p) else m x)"
  by (simp add: store_gdtr_def gdtr_packed_def store_le_apply)

lemma store_gdtr_outside: "\<not> in_range p 6 x \<Longrightarrow> store_gdtr gdtr_packed m p limit base x = m x"
  using in_range_sub [of p 2 4 x 6] in_range_mono [of p 2 x 6] by (auto simp: store_gdtr_apply)

lemma load_store_gdtr:
  "load16 (store_gdtr gdtr_packed m p limit base) p = limit"
  "load32 (store_gdtr gdtr_packed m p limit base) (p + 2) = base"
proof -
  have "disjoint_ranges (p + 2) 4 p 2" by (simp add: disjoint_ranges_def)
  then show "load16 (store_gdtr gdtr_packed m p limit base) p = limit"
    "load32 (store_gdtr gdtr_packed m p limit base) (p + 2) = base"
    by (simp_all add: store_gdtr_def gdtr_packed_def load_store_disjoint)
qed

lemma gdt32_bytes_length: "length gdt32_bytes = 32"
  by (simp add: gdt32_bytes_def gdt32_table_def)

text \<open>The parts of the page: \<open>in_range (page + off) n\<close> inside the first 208 bytes.\<close>

lemma page_part: "in_range (p + of_nat off) n x \<Longrightarrow> off + n \<le> 208 \<Longrightarrow> in_range p 208 x"
  using in_range_sub [of p "of_nat off" n x 208] by (simp add: unat_of_nat64)

lemma page_parts_apart:
  "off + n \<le> off' \<Longrightarrow> off' + n' \<le> 208 \<Longrightarrow> in_range (p + of_nat off) n x \<Longrightarrow> \<not> in_range (p + of_nat off') n' x"
proof -
  assume a: "off + n \<le> off'" "off' + n' \<le> 208" "in_range (p + of_nat off) n x"
  have "disjoint_ranges (p + of_nat off) n (p + of_nat off') n'"
    using a(1,2) by (intro fields_disjoint) (simp_all add: unat_of_nat64)
  then show ?thesis using a(3) disjoint_ranges_not_both by blast
qed

lemma read_page_copy:
  assumes "disjoint_ranges p 208 src n" and "off + n \<le> 208"
  shows "read_bytes (mon_memcpy m (p + of_nat off) src (of_nat n)) (p + of_nat off) n = read_bytes m src n"
proof -
  have n: "unat (of_nat n :: u64) = n" using assms(2) by (intro unat_of_nat64) simp
  have "disjoint_ranges (p + of_nat off) n src n"
    using disjoint_ranges_sub [of src n p 208 n "of_nat off" n] assms by (simp add: disjoint_ranges_sym unat_of_nat64)
  then have "mon_memcpy m (p + of_nat off) src (of_nat n) (p + of_nat off + of_nat k) = m (src + of_nat k)" if "k < n" for k
    using that assms(2) by (simp add: mon_memcpy_disjoint n in_range_def unat_of_nat64)
  then show ?thesis by (simp add: read_bytes_def)
qed

lemma gdtr_kept:
  assumes "\<And>x. in_range g 6 x \<Longrightarrow> m' x = m x"
  shows "load16 m' g = load16 m g" and "load32 m' (g + 2) = load32 m (g + 2)"
  using assms in_range_mono [of g 2 _ 6] in_range_sub [of g 2 4 _ 6] by (intro load_le_cong; simp)+

lemma setup_page:
  fixes page :: u32
  assumes tmpl: "read_bytes m (at_template S) 162 = ap_start_up_code"
    and gdt: "at_gdt32 S = ucast (g32 :: u32)" "read_bytes m (at_gdt32 S) 32 = gdt32_bytes"
    and apart: "disjoint_ranges (ucast page) 208 (at_template S) 162" "disjoint_ranges (ucast page) 208 (at_gdt32 S) 32"
      "disjoint_ranges (at_gdtr_x64 S) 6 (ucast page) 208" "disjoint_ranges (at_gdtr_x64 S) 6 (at_template S) 162"
      "disjoint_ranges (at_gdtr_x64 S) 6 (at_gdt32 S) 32"
    and m': "m' = setup_low_memory_ap_code gdtr_packed S (ucast page) m"
  shows "read_bytes m' (ucast page) 162 = concat (map encode (ap_program S page))"
    and "load16 m' (ucast page + 168) = 31" and "load32 m' (ucast page + 170) = page + 176"
    and "read_bytes m' (ucast page + 176) 32 = gdt32_bytes"
    and "load16 m' (at_gdtr_x64 S) = bsp_gdtr_limit S" and "load32 m' (at_gdtr_x64 S + 2) = ucast (bsp_gdtr_base S)"
    and "\<forall>x. \<not> in_range (ucast page) 208 x \<and> \<not> in_range (at_gdtr_x64 S) 6 x \<longrightarrow> m' x = m x"
proof -
  let ?p = "ucast page :: addr" and ?g = "at_gdtr_x64 S"
  define m0 where "m0 = store_gdtr gdtr_packed m ?g (bsp_gdtr_limit S) (ucast (bsp_gdtr_base S))"
  define m1 where "m1 = mon_memcpy m0 ?p (at_template S) 162"
  define m2 where "m2 = patch_operands S ?p m1"
  define m3 where "m3 = mon_memcpy m2 (?p + of_nat 176) (at_gdt32 S) 32"
  have m'_eq: "m' = store_gdtr gdtr_packed m3 (?p + of_nat 168) 31 (page + 176)"
    by (simp add: m' setup_low_memory_ap_code_def Let_def m3_def m2_def m1_def m0_def template_length page_layout
        gdt(1) gdt32_table_def)
  have f0: "m0 x = m x" if "\<not> in_range ?g 6 x" for x using that by (simp add: m0_def store_gdtr_outside)
  have f1: "m1 x = m0 x" if "\<not> in_range ?p 162 x" for x using that by (simp add: m1_def mon_memcpy_outside)
  have f2: "m2 x = m1 x" if "\<not> in_range ?p 162 x" for x using that by (simp add: m2_def patch_operands_outside)
  have f3: "m3 x = m2 x" if "\<not> in_range (?p + of_nat 176) 32 x" for x
    using that by (simp add: m3_def mon_memcpy_outside)
  have f4: "m' x = m3 x" if "\<not> in_range (?p + of_nat 168) 6 x" for x
    using that by (simp add: m'_eq store_gdtr_outside)
  have in208: "\<not> in_range ?p 162 x \<and> \<not> in_range (?p + of_nat 176) 32 x \<and> \<not> in_range (?p + of_nat 168) 6 x"
    if "\<not> in_range ?p 208 x" for x
    using that page_part [of ?p 176 32 x] page_part [of ?p 168 6 x] in_range_mono [of ?p 162 x 208] by auto
  show frame: "\<forall>x. \<not> in_range ?p 208 x \<and> \<not> in_range ?g 6 x \<longrightarrow> m' x = m x"
    using in208 f0 f1 f2 f3 f4 by metis
  have keep: "m' x = m0 x" if "\<not> in_range ?p 208 x" for x using in208 [OF that] f1 f2 f3 f4 by metis
  have src: "read_bytes m0 (at_template S) 162 = ap_start_up_code"
    unfolding tmpl [symmetric] using f0 disjoint_ranges_not_both [OF apart(4)]
    by (intro read_bytes_cong) auto
  have "read_bytes m1 ?p 162 = ap_start_up_code"
    using read_page_copy [OF apart(1), of 0 m0] by (simp add: m1_def src)
  then have code2: "read_bytes m2 ?p 162 = concat (map encode (ap_program S page))"
    by (simp add: m2_def read_patch_operands template_patched)
  have "m' x = m2 x" if "in_range ?p 162 x" for x
    using page_parts_apart [of 0 162 168 6 ?p x] page_parts_apart [of 0 162 176 32 ?p x] that f3 f4 by simp
  then have "read_bytes m' ?p 162 = read_bytes m2 ?p 162" by (intro read_bytes_cong) auto
  then show "read_bytes m' ?p 162 = concat (map encode (ap_program S page))" using code2 by simp
  show "load16 m' (?p + 168) = 31" "load32 m' (?p + 170) = page + 176"
    using load_store_gdtr [of m3 "?p + 168" 31 "page + 176"] by (simp_all add: m'_eq add.assoc)
  have "m2 x = m x" if "in_range (at_gdt32 S) 32 x" for x
  proof -
    have "\<not> in_range ?p 208 x" "\<not> in_range ?g 6 x"
      using that disjoint_ranges_not_both [OF apart(2)] disjoint_ranges_not_both [OF apart(5)] by blast+
    then show ?thesis using in208 [of x] f0 f1 f2 by simp
  qed
  then have src3: "read_bytes m2 (at_gdt32 S) 32 = gdt32_bytes"
    unfolding gdt(2) [symmetric] by (intro read_bytes_cong) auto
  have "read_bytes m3 (?p + of_nat 176) 32 = gdt32_bytes"
    using read_page_copy [OF apart(2), of 176 m2] by (simp add: m3_def src3)
  moreover have "read_bytes m' (?p + of_nat 176) 32 = read_bytes m3 (?p + of_nat 176) 32"
    using page_parts_apart [of 168 6 176 32 ?p] f4 by (intro read_bytes_cong) auto
  ultimately show "read_bytes m' (?p + 176) 32 = gdt32_bytes" by simp
  have same: "m' x = m0 x" if "in_range ?g 6 x" for x
    using keep disjoint_ranges_not_both [OF apart(3) that] by blast
  from gdtr_kept [OF same]
  show "load16 m' ?g = bsp_gdtr_limit S" "load32 m' (?g + 2) = ucast (bsp_gdtr_base S)"
    by (simp_all add: m0_def load_store_gdtr)
qed

section \<open>Executing the page\<close>

text \<open>
  The registers the program touches, as the processor manual describes its instructions. \<open>ax_cs\<close> and
  \<open>ax_ip\<close> hold the target of the last jump; \<open>lapic\<close> is the memory-mapped local APIC.
\<close>

record ap_cpu =
  ax_eax :: u32
  ax_ecx :: u32
  ax_edx :: u32
  ax_esp :: u32
  ax_si :: u16
  ax_seg :: "segment_register \<Rightarrow> u16"
  ax_cs :: u16
  ax_ip :: u32
  ax_cr0 :: u32
  ax_cr3 :: u32
  ax_cr4 :: u32
  ax_msr :: "u32 \<Rightarrow> u64"
  ax_gdtr_limit :: u16
  ax_gdtr_base :: u32
  ax_mem :: mem

definition set_ax :: "u16 \<Rightarrow> ap_cpu \<Rightarrow> ap_cpu" where
  "set_ax v s = s\<lparr>ax_eax := (ax_eax s AND 0xFFFF0000) OR ucast v\<rparr>"

definition push32 :: "u32 \<Rightarrow> ap_cpu \<Rightarrow> ap_cpu" where
  "push32 v s = s\<lparr>ax_esp := ax_esp s - 4, ax_mem := store32 (ax_mem s) (ucast (ax_esp s - 4)) v\<rparr>"

fun exec :: "(u32 \<Rightarrow> u32) \<Rightarrow> instr \<Rightarrow> ap_cpu \<Rightarrow> ap_cpu" where
  "exec lapic (Mov_Ax16 v) s = set_ax v s"
| "exec lapic Mov_Ds_Ax16 s = s\<lparr>ax_seg := (ax_seg s)(Reg_DS := ucast (ax_eax s))\<rparr>"
| "exec lapic (Lea_Si16 v) s = s\<lparr>ax_si := v\<rparr>"
| "exec lapic Lgdt_Si16 s =
     (let a = ucast (ax_seg s Reg_DS) * 16 + ucast (ax_si s) :: addr
      in s\<lparr>ax_gdtr_limit := load16 (ax_mem s) a, ax_gdtr_base := load32 (ax_mem s) (a + 2) AND 0xFFFFFF\<rparr>)"
| "exec lapic Mov_Eax_Cr0 s = s\<lparr>ax_eax := ax_cr0 s\<rparr>"
| "exec lapic (Or_Al b) s = s\<lparr>ax_eax := ax_eax s OR ucast b\<rparr>"
| "exec lapic Mov_Cr0_Eax s = s\<lparr>ax_cr0 := ax_eax s\<rparr>"
| "exec lapic (Far_Jmp16 ip cs) s = s\<lparr>ax_ip := ip, ax_cs := cs\<rparr>"
| "exec lapic Cli s = s"
| "exec lapic (Mov_Ax v) s = set_ax v s"
| "exec lapic (Mov_Seg_Ax r) s = s\<lparr>ax_seg := (ax_seg s)(r := ucast (ax_eax s))\<rparr>"
| "exec lapic (Mov_Eax v) s = s\<lparr>ax_eax := v\<rparr>"
| "exec lapic Jmp_Eax s = s\<lparr>ax_ip := ax_eax s\<rparr>"
| "exec lapic (Mov_Ecx v) s = s\<lparr>ax_ecx := v\<rparr>"
| "exec lapic Rdmsr s =
     s\<lparr>ax_eax := ucast (ax_msr s (ax_ecx s)), ax_edx := ucast (drop_bit 32 (ax_msr s (ax_ecx s)))\<rparr>"
| "exec lapic Wrmsr s =
     s\<lparr>ax_msr := (ax_msr s)(ax_ecx s := push_bit 32 (ucast (ax_edx s)) OR ucast (ax_eax s))\<rparr>"
| "exec lapic (And_Eax v) s = s\<lparr>ax_eax := ax_eax s AND v\<rparr>"
| "exec lapic (Mov_Ecx_At_Eax d) s = s\<lparr>ax_ecx := lapic (ax_eax s + scast d)\<rparr>"
| "exec lapic (Shr_Ecx n) s = s\<lparr>ax_ecx := drop_bit (unat n) (ax_ecx s)\<rparr>"
| "exec lapic Mov_Edx_Ecx s = s\<lparr>ax_edx := ax_ecx s\<rparr>"
| "exec lapic (Shl_Edx n) s = s\<lparr>ax_edx := push_bit (unat n) (ax_edx s)\<rparr>"
| "exec lapic Add_Eax_Edx s = s\<lparr>ax_eax := ax_eax s + ax_edx s\<rparr>"
| "exec lapic Mov_Esp_Eax s = s\<lparr>ax_esp := ax_eax s\<rparr>"
| "exec lapic Lgdt_At_Eax s =
     s\<lparr>ax_gdtr_limit := load16 (ax_mem s) (ucast (ax_eax s)),
       ax_gdtr_base := load32 (ax_mem s) (ucast (ax_eax s) + 2)\<rparr>"
| "exec lapic Mov_Cr3_Eax s = s\<lparr>ax_cr3 := ax_eax s\<rparr>"
| "exec lapic Mov_Eax_Cr4 s = s\<lparr>ax_eax := ax_cr4 s\<rparr>"
| "exec lapic (Bts_Eax n) s = s\<lparr>ax_eax := ax_eax s OR push_bit (unat n mod 32) 1\<rparr>"
| "exec lapic Mov_Cr4_Eax s = s\<lparr>ax_cr4 := ax_eax s\<rparr>"
| "exec lapic Push_Ecx s = push32 (ax_ecx s) s"
| "exec lapic Pop_Ecx s = s\<lparr>ax_ecx := load32 (ax_mem s) (ucast (ax_esp s)), ax_esp := ax_esp s + 4\<rparr>"
| "exec lapic Xor_Eax_Eax s = s\<lparr>ax_eax := 0\<rparr>"
| "exec lapic Push_Eax s = push32 (ax_eax s) s"
| "exec lapic Far_Ret s =
     s\<lparr>ax_ip := load32 (ax_mem s) (ucast (ax_esp s)),
       ax_cs := ucast (load32 (ax_mem s) (ucast (ax_esp s + 4)) :: u32), ax_esp := ax_esp s + 8\<rparr>"

definition run_part :: "(u32 \<Rightarrow> u32) \<Rightarrow> instr list \<Rightarrow> ap_cpu \<Rightarrow> ap_cpu" where
  "run_part lapic is s = fold (exec lapic) is s"

text \<open>Where the parts lie in the page: each ends in a jump to the next.\<close>

lemma part_offsets:
  "length (concat (map encode (real_mode_part page))) = 28"
  "length (concat (map encode (protected_mode_part page))) = 36"
  by (simp_all add: real_mode_part_def protected_mode_part_def)

lemma set_ax_low [simp]: "(ucast (ax_eax (set_ax v s)) :: u16) = v"
proof -
  have eq: "(0xFFFF0000 :: u32) = push_bit 16 (mask 16)" by (simp add: mask_eq_exp_minus_1)
  show ?thesis unfolding set_ax_def eq by (rule bit_word_eqI) (simp add: bit_simps)
qed

lemma set_ax_fields [simp]:
  "ax_seg (set_ax v s) = ax_seg s" "ax_ecx (set_ax v s) = ax_ecx s" "ax_edx (set_ax v s) = ax_edx s"
  "ax_esp (set_ax v s) = ax_esp s" "ax_si (set_ax v s) = ax_si s" "ax_cs (set_ax v s) = ax_cs s"
  "ax_ip (set_ax v s) = ax_ip s" "ax_cr0 (set_ax v s) = ax_cr0 s" "ax_cr3 (set_ax v s) = ax_cr3 s"
  "ax_cr4 (set_ax v s) = ax_cr4 s" "ax_msr (set_ax v s) = ax_msr s" "ax_mem (set_ax v s) = ax_mem s"
  "ax_gdtr_limit (set_ax v s) = ax_gdtr_limit s" "ax_gdtr_base (set_ax v s) = ax_gdtr_base s"
  "ap_cpu.more (set_ax v s) = ap_cpu.more s"
  by (simp_all add: set_ax_def)

lemma run_real_mode:
  assumes "load16 (ax_mem s) (ucast page + 168) = 31" and "load32 (ax_mem s) (ucast page + 170) = page + 176"
    and "unat page mod 4096 = 0" and "unat page < 2 ^ 20"
  shows "\<exists>eax. run_part lapic (real_mode_part page) s =
     s\<lparr>ax_eax := eax, ax_si := 168, ax_seg := (ax_seg s)(Reg_DS := ucast (drop_bit 4 page)),
       ax_cr0 := ax_cr0 s OR 1, ax_gdtr_limit := 31, ax_gdtr_base := page + 176, ax_ip := page + 28, ax_cs := 0x10\<rparr>"
proof -
  have "unat (drop_bit 4 page) = unat page div 16" by (simp add: drop_bit_eq_div unat_div)
  then have d: "unat (ucast (drop_bit 4 page) :: u16) = unat page div 16"
    using assms(4) by (simp add: unsigned_ucast_eq unsigned_take_bit_eq take_bit_nat_eq_self)
  have "unat (ucast (ucast (drop_bit 4 page) :: u16) * 16 :: addr) = unat page div 16 * 16"
    using assms(4) d by (simp add: unat_word_ariths unat_ucast_up)
  also have "\<dots> = unat page"
    using assms(3) dvd_trans [of 16 4096 "unat page"] by (simp add: mod_0_imp_dvd)
  finally have base: "ucast (ucast (drop_bit 4 page) :: u16) * 16 = (ucast page :: addr)"
    by (simp add: word_unat_eq_iff unat_ucast_up)
  have u: "unat (page + 176) = unat page + 176" using assms(4) by (simp add: unat_word_ariths)
  have eq: "(0xFFFFFF :: u32) = mask 24" by (simp add: mask_eq_exp_minus_1)
  have low: "(page + 176) AND 0xFFFFFF = page + 176"
    unfolding eq take_bit_eq_mask [symmetric] using u assms(4)
    by (simp add: word_unat_eq_iff unsigned_take_bit_eq take_bit_nat_eq_self)
  have "(ucast (168 :: u16) :: addr) = 168" by simp
  then show ?thesis
    using assms(1,2) low
    by (intro exI [of _ "ax_cr0 s OR 1"] ap_cpu.equality)
      (simp_all add: run_part_def real_mode_part_def Let_def base add.assoc)
qed

lemma run_protected_mode:
  "run_part lapic (protected_mode_part page) s =
     s\<lparr>ax_eax := page + 64, ax_seg := (\<lambda>_. 0x18), ax_ip := page + 64\<rparr>"
proof (rule ap_cpu.equality)
  show "ax_seg (run_part lapic (protected_mode_part page) s) =
      ax_seg (s\<lparr>ax_eax := page + 64, ax_seg := (\<lambda>_. 0x18), ax_ip := page + 64\<rparr>)"
  proof
    fix r
    show "ax_seg (run_part lapic (protected_mode_part page) s) r =
        ax_seg (s\<lparr>ax_eax := page + 64, ax_seg := (\<lambda>_. 0x18), ax_ip := page + 64\<rparr>) r"
      by (cases r) (simp_all add: run_part_def protected_mode_part_def)
  qed
qed (simp_all add: run_part_def protected_mode_part_def)

text \<open>The local APIC identity of a processor, as the program reads it.\<close>

definition lapic_id :: "(u32 \<Rightarrow> u32) \<Rightarrow> ap_cpu \<Rightarrow> u32" where
  "lapic_id lapic s = drop_bit 24 (lapic ((ucast (ax_msr s 0x1B) AND 0xFFFFF000) + 0x20))"

text \<open>The mode switch in three pieces: the identity and the scratch stack, the tables, the mode bits.\<close>

lemma run_part_append: "run_part lapic (is @ js) s = run_part lapic js (run_part lapic is s)"
  by (simp add: run_part_def)

lemma run_identity:
  "run_part lapic [Mov_Ecx 0x1B, Rdmsr, And_Eax 0xFFFFF000, Mov_Ecx_At_Eax 0x20, Shr_Ecx 0x18,
      Mov_Eax (page + 0x1000), Mov_Edx_Ecx, Shl_Edx 4, Add_Eax_Edx, Mov_Esp_Eax] s =
   (let id = lapic_id lapic s; e = page + 0x1000 + push_bit 4 id
    in s\<lparr>ax_eax := e, ax_ecx := id, ax_edx := push_bit 4 id, ax_esp := e\<rparr>)"
  by (rule ap_cpu.equality) (simp_all add: run_part_def lapic_id_def Let_def)

lemma run_tables:
  assumes "load16 (ax_mem s) (ucast g) = lim" and "load32 (ax_mem s) (ucast g + 2) = base"
  shows "run_part lapic [Mov_Eax g, Lgdt_At_Eax, Mov_Eax cr3, Mov_Cr3_Eax, Mov_Eax_Cr4, Bts_Eax 5, Mov_Cr4_Eax] s =
   s\<lparr>ax_gdtr_limit := lim, ax_gdtr_base := base, ax_cr3 := cr3, ax_eax := ax_cr4 s OR 0x20, ax_cr4 := ax_cr4 s OR 0x20\<rparr>"
  using assms by (intro ap_cpu.equality) (simp_all add: run_part_def)

lemma run_long_mode:
  "run_part lapic [Push_Ecx, Mov_Ecx 0xC0000080, Rdmsr, Bts_Eax 8, Wrmsr, Pop_Ecx,
      Mov_Eax_Cr0, Bts_Eax 31, Mov_Cr0_Eax] s =
   s\<lparr>ax_mem := store32 (ax_mem s) (ucast (ax_esp s - 4)) (ax_ecx s),
     ax_edx := ucast (drop_bit 32 (ax_msr s 0xC0000080)),
     ax_msr := (ax_msr s)(0xC0000080 :=
        push_bit 32 (ucast (ucast (drop_bit 32 (ax_msr s 0xC0000080)) :: u32)) OR
        ucast ((ucast (ax_msr s 0xC0000080) :: u32) OR 0x100)),
     ax_eax := ax_cr0 s OR 0x80000000, ax_cr0 := ax_cr0 s OR 0x80000000\<rparr>"
  by (rule ap_cpu.equality) (simp_all add: run_part_def push32_def)

lemma run_far_return:
  assumes "8 \<le> unat (ax_esp s)"
  shows "\<exists>m. run_part lapic [Xor_Eax_Eax, Mov_Eax cs, Push_Eax, Mov_Eax ip, Push_Eax, Far_Ret] s =
     s\<lparr>ax_eax := ip, ax_mem := m, ax_ip := ip, ax_cs := ucast cs\<rparr>"
proof -
  let ?e = "ax_esp s" and ?m = "store32 (ax_mem s) (ucast (ax_esp s - 4)) cs"
  have u: "unat (?e - 4) = unat ?e - 4" "unat (?e - 8) = unat ?e - 8"
    using assms by (simp_all add: unat_sub_if_size)
  have "disjoint_ranges (ucast (?e - 8)) 4 (ucast (?e - 4)) 4"
  proof (rule disjoint_rangesI)
    fix x :: addr assume "in_range (ucast (?e - 8)) 4 x" "in_range (ucast (?e - 4)) 4 x"
    moreover have "unat ?e \<le> 2 ^ 64" by (rule le_unat32_bound) (rule order_refl)
    ultimately show False
      using in_range_linear [of "ucast (?e - 8)" 4 x] in_range_linear [of "ucast (?e - 4)" 4 x] u assms
      by (simp add: unat_ucast_up)
  qed
  then have "load32 (store32 ?m (ucast (?e - 8)) ip) (ucast (?e - 4)) = load32 ?m (ucast (?e - 4))"
    by (rule load_store_disjoint) simp_all
  then show ?thesis
    by (intro exI [of _ "store32 ?m (ucast (?e - 8)) ip"] ap_cpu.equality)
      (simp_all add: run_part_def push32_def diff_diff_eq)
qed

lemma run_mode_switch:
  assumes "load16 (ax_mem s) (ucast (ucast (at_gdtr_x64 S) :: u32)) = lim"
    and "load32 (ax_mem s) (ucast (ucast (at_gdtr_x64 S) :: u32) + 2) = base"
    and "8 \<le> unat (page + 0x1000 + push_bit 4 (lapic_id lapic s))"
  shows "let t = run_part lapic (mode_switch_part S page) s in
     ax_cs t = bsp_cs S \<and> ax_ip t = ucast (at_wakeup S) \<and> ax_ecx t = lapic_id lapic s \<and>
     ax_esp t = page + 0x1000 + push_bit 4 (lapic_id lapic s) \<and>
     ax_cr3 t = ucast (bsp_cr3 S) \<and> bit (ax_cr4 t) 5 \<and> bit (ax_msr t 0xC0000080) 8 \<and>
     ax_cr0 t = ax_cr0 s OR 0x80000000 \<and> ax_gdtr_limit t = lim \<and> ax_gdtr_base t = base \<and>
     ax_seg t = ax_seg s"
proof -
  let ?id = "lapic_id lapic s"
  let ?e = "page + 0x1000 + push_bit 4 ?id"
  define a where "a = s\<lparr>ax_eax := ?e, ax_ecx := ?id, ax_edx := push_bit 4 ?id, ax_esp := ?e\<rparr>"
  define b where "b = a\<lparr>ax_gdtr_limit := lim, ax_gdtr_base := base, ax_cr3 := ucast (bsp_cr3 S),
      ax_eax := ax_cr4 a OR 0x20, ax_cr4 := ax_cr4 a OR 0x20\<rparr>"
  let ?c = "b\<lparr>ax_mem := store32 (ax_mem b) (ucast (ax_esp b - 4)) (ax_ecx b),
     ax_edx := ucast (drop_bit 32 (ax_msr b 0xC0000080)),
     ax_msr := (ax_msr b)(0xC0000080 :=
        push_bit 32 (ucast (ucast (drop_bit 32 (ax_msr b 0xC0000080)) :: u32)) OR
        ucast ((ucast (ax_msr b 0xC0000080) :: u32) OR 0x100)),
     ax_eax := ax_cr0 b OR 0x80000000, ax_cr0 := ax_cr0 b OR 0x80000000\<rparr>"
  have parts: "mode_switch_part S page =
      [Mov_Ecx 0x1B, Rdmsr, And_Eax 0xFFFFF000, Mov_Ecx_At_Eax 0x20, Shr_Ecx 0x18,
       Mov_Eax (page + 0x1000), Mov_Edx_Ecx, Shl_Edx 4, Add_Eax_Edx, Mov_Esp_Eax] @
      [Mov_Eax (ucast (at_gdtr_x64 S)), Lgdt_At_Eax, Mov_Eax (ucast (bsp_cr3 S)), Mov_Cr3_Eax,
       Mov_Eax_Cr4, Bts_Eax 5, Mov_Cr4_Eax] @
      [Push_Ecx, Mov_Ecx 0xC0000080, Rdmsr, Bts_Eax 8, Wrmsr, Pop_Ecx, Mov_Eax_Cr0, Bts_Eax 31, Mov_Cr0_Eax] @
      [Xor_Eax_Eax, Mov_Eax (ucast (bsp_cs S)), Push_Eax, Mov_Eax (ucast (at_wakeup S)), Push_Eax, Far_Ret]"
    by (simp add: mode_switch_part_def)
  have ab: "run_part lapic [Mov_Eax (ucast (at_gdtr_x64 S)), Lgdt_At_Eax, Mov_Eax (ucast (bsp_cr3 S)), Mov_Cr3_Eax,
       Mov_Eax_Cr4, Bts_Eax 5, Mov_Cr4_Eax] a = b"
    unfolding b_def by (rule run_tables) (use assms(1,2) in \<open>simp_all add: a_def\<close>)
  have "8 \<le> unat (ax_esp ?c)" using assms(3) by (simp add: b_def a_def)
  from run_far_return [OF this] obtain m where
    "run_part lapic (mode_switch_part S page) s =
       ?c\<lparr>ax_eax := ucast (at_wakeup S), ax_mem := m, ax_ip := ucast (at_wakeup S),
          ax_cs := ucast (ucast (bsp_cs S) :: u32)\<rparr>"
    unfolding parts run_part_append run_identity Let_def a_def [symmetric] ab run_long_mode by blast
  moreover have "(ucast (ucast (bsp_cs S) :: u32) :: u16) = bsp_cs S" by (rule bit_word_eqI) (simp add: bit_simps)
  ultimately show ?thesis by (simp add: Let_def b_def a_def bit_simps)
qed

section \<open>Properties\<close>

text \<open>
  Where the linker and the stack put the template, the 32-bit table and the local variable: the
  template and the table hold what the source says, and none of them touches the page.
\<close>

definition setup_ok :: "ap_setup \<Rightarrow> u32 \<Rightarrow> mem \<Rightarrow> bool" where
  "setup_ok S page m \<longleftrightarrow>
     read_bytes m (at_template S) 162 = ap_start_up_code \<and> at_gdt32 S = ucast (ucast (at_gdt32 S) :: u32) \<and>
     read_bytes m (at_gdt32 S) 32 = gdt32_bytes \<and>
     disjoint_ranges (ucast page) 208 (at_template S) 162 \<and> disjoint_ranges (ucast page) 208 (at_gdt32 S) 32 \<and>
     disjoint_ranges (at_gdtr_x64 S) 6 (ucast page) 208 \<and> disjoint_ranges (at_gdtr_x64 S) 6 (at_template S) 162 \<and>
     disjoint_ranges (at_gdtr_x64 S) 6 (at_gdt32 S) 32"

text \<open>
  C16: After \<open>setup_low_memory_ap_code\<close> the low page holds the encoding of \<open>ap_program\<close> (the template
  decoded as instructions, with every operand filled in), behind it a GDT register image that
  describes the copied 32-bit table; the local variable holds the 64-bit GDT register; no other byte
  changes.
\<close>

theorem setup_low_memory_ap_code_page:
  fixes page :: u32
  assumes "setup_ok S page m" and "m' = setup_low_memory_ap_code gdtr_packed S (ucast page) m"
  shows "read_bytes m' (ucast page) 162 = concat (map encode (ap_program S page)) \<and>
     load16 m' (ucast page + 168) = 31 \<and> load32 m' (ucast page + 170) = page + 176 \<and>
     read_bytes m' (ucast page + 176) 32 = gdt32_bytes \<and>
     load16 m' (at_gdtr_x64 S) = bsp_gdtr_limit S \<and> load32 m' (at_gdtr_x64 S + 2) = ucast (bsp_gdtr_base S) \<and>
     (\<forall>x. \<not> in_range (ucast page) 208 x \<and> \<not> in_range (at_gdtr_x64 S) 6 x \<longrightarrow> m' x = m x)"
  using setup_page [of m S "ucast (at_gdt32 S)" page m'] assms by (simp add: setup_ok_def)

definition demo_setup :: ap_setup where
  "demo_setup = \<lparr>bsp_gdtr_limit = 0x37, bsp_gdtr_base = 0x4000, bsp_cr3 = 0x5000, bsp_cs = 0x28,
     at_template = 0x1000, at_gdt32 = 0x2000, at_gdtr_x64 = 0x3000, at_wakeup = 0x12C00100\<rparr>"

definition demo_startap :: mem where
  "demo_startap x =
     (if in_range 0x1000 162 x then ap_start_up_code ! unat (x - 0x1000)
      else if in_range 0x2000 32 x then gdt32_bytes ! unat (x - 0x2000) else 0)"

lemma demo_setup_ok: "setup_ok demo_setup 0x90000 demo_startap"
proof -
  have u: "unat (of_nat k :: addr) = k" if "k < 4096" for k using that by (intro unat_of_nat64) simp
  have "read_bytes demo_startap 0x1000 162 = ap_start_up_code"
    by (intro nth_equalityI) (simp_all add: template_length demo_startap_def in_range_def u)
  moreover have "demo_startap (0x2000 + of_nat k) = gdt32_bytes ! k" if "k < 32" for k
  proof -
    have eq: "0x2000 + of_nat k - 0x1000 = (0x1000 :: addr) + of_nat k" by simp
    have "unat (0x1000 + of_nat k :: addr) = 0x1000 + k" using that by (intro trans [OF unat_add_offset]) simp_all
    then show ?thesis using that unfolding demo_startap_def in_range_def eq by (simp add: u)
  qed
  then have "read_bytes demo_startap 0x2000 32 = gdt32_bytes"
    by (intro nth_equalityI) (simp_all add: gdt32_bytes_length)
  ultimately show ?thesis
    by (simp add: setup_ok_def demo_setup_def disjoint_ranges_def)
qed

theorem setup_low_memory_ap_code_page_witness:
  "\<exists>m'. m' = setup_low_memory_ap_code gdtr_packed demo_setup 0x90000 demo_startap \<and>
     read_bytes m' 0x90000 162 = concat (map encode (ap_program demo_setup 0x90000)) \<and>
     load32 m' 0x900AA = 0x900B0"
  using setup_low_memory_ap_code_page [OF demo_setup_ok refl] by simp

text \<open>
  C13: Executing the page, from real mode at its start to its last instruction, a processor passes the
  three parts in order (each jumps to where the next one lies), and arrives at
  \<open>ap_continue_wakeup_code\<close> with protection, paging, PAE and the long mode enabled, the bootstrap
  processor's page tables, GDT and code segment, its local APIC identity in ecx and a stack of
  16 bytes of its own behind the page.
\<close>

theorem ap_program_reaches_long_mode:
  fixes page :: u32
  assumes "setup_ok S page m" and "ax_mem s = setup_low_memory_ap_code gdtr_packed S (ucast page) m"
    and "unat page mod 4096 = 0" and "unat page < 2 ^ 20"
    and "at_gdtr_x64 S = ucast (ucast (at_gdtr_x64 S) :: u32)"
    and "s1 = run_part lapic (real_mode_part page) s"
    and "s2 = run_part lapic (protected_mode_part page) s1"
    and "s3 = run_part lapic (mode_switch_part S page) s2"
    and "unat (lapic_id lapic s) < 256"
  shows "ax_ip s1 = page + of_nat (length (concat (map encode (real_mode_part page)))) \<and> ax_cs s1 = 0x10 \<and>
     bit (ax_cr0 s1) 0 \<and> ax_gdtr_base s1 = page + 176 \<and>
     ax_ip s2 = page + of_nat (length (concat (map encode (real_mode_part page @ protected_mode_part page)))) \<and>
     (\<forall>r. ax_seg s2 r = 0x18) \<and>
     ax_ip s3 = ucast (at_wakeup S) \<and> ax_cs s3 = bsp_cs S \<and> ax_cr3 s3 = ucast (bsp_cr3 S) \<and>
     ax_gdtr_base s3 = ucast (bsp_gdtr_base S) \<and> ax_gdtr_limit s3 = bsp_gdtr_limit S \<and>
     bit (ax_cr0 s3) 0 \<and> bit (ax_cr0 s3) 31 \<and> bit (ax_cr4 s3) 5 \<and> bit (ax_msr s3 0xC0000080) 8 \<and>
     ax_ecx s3 = lapic_id lapic s \<and>
     unat (ax_esp s3) = unat page + 0x1000 + 16 * unat (lapic_id lapic s)"
proof -
  note pg = setup_page [of m S "ucast (at_gdt32 S)" page "ax_mem s"]
  obtain eax where s1: "s1 = s\<lparr>ax_eax := eax, ax_si := 168, ax_seg := (ax_seg s)(Reg_DS := ucast (drop_bit 4 page)),
       ax_cr0 := ax_cr0 s OR 1, ax_gdtr_limit := 31, ax_gdtr_base := page + 176, ax_ip := page + 28, ax_cs := 0x10\<rparr>"
    using run_real_mode [of s page lapic] pg assms(1-4,6) by (auto simp: setup_ok_def)
  have s2: "s2 = s1\<lparr>ax_eax := page + 64, ax_seg := (\<lambda>_. 0x18), ax_ip := page + 64\<rparr>"
    by (simp add: assms(7) run_protected_mode)
  have id: "lapic_id lapic s2 = lapic_id lapic s" "ax_mem s2 = ax_mem s"
    by (simp_all add: s1 s2 lapic_id_def)
  have "unat (push_bit 4 (lapic_id lapic s)) = 16 * unat (lapic_id lapic s)"
    using assms(9) by (simp add: push_bit_eq_mult unat_word_ariths)
  then have e: "unat (page + 0x1000 + push_bit 4 (lapic_id lapic s)) = unat page + 0x1000 + 16 * unat (lapic_id lapic s)"
    using assms(4,9) by (simp add: unat_word_ariths)
  have tables: "load16 (ax_mem s2) (ucast (ucast (at_gdtr_x64 S) :: u32)) = bsp_gdtr_limit S"
    "load32 (ax_mem s2) (ucast (ucast (at_gdtr_x64 S) :: u32) + 2) = ucast (bsp_gdtr_base S)"
    using pg(5,6) assms(1,2,5) id by (simp_all add: setup_ok_def)
  have "8 \<le> unat (page + 0x1000 + push_bit 4 (lapic_id lapic s2))" using e id by simp
  note t = run_mode_switch [OF tables this, folded assms(8), unfolded Let_def]
  have cr0: "ax_cr0 s3 = (ax_cr0 s OR 1) OR 0x80000000" using t by (simp add: s1 s2)
  have "bit (ax_cr0 s3) 0" "bit (ax_cr0 s3) 31" by (simp_all add: cr0 bit_simps bit_numeral_rec)
  then show ?thesis
    using t e id by (simp add: s1 s2 part_offsets bit_simps del: concat.simps list.map)
qed

theorem ap_program_reaches_long_mode_witness:
  "\<exists>s3 :: ap_cpu. ax_ip s3 = 0x12C00100 \<and> ax_cs s3 = 0x28 \<and> bit (ax_cr0 s3) 31 \<and> ax_ecx s3 = 3 \<and>
     (\<exists>s lapic. s3 = run_part lapic (ap_program demo_setup 0x90000) s \<and>
        ax_mem s = setup_low_memory_ap_code gdtr_packed demo_setup 0x90000 demo_startap)"
proof -
  let ?lapic = "\<lambda>_. 0x03000000 :: u32"
  define s :: ap_cpu where "s = \<lparr>ax_eax = 0, ax_ecx = 0, ax_edx = 0, ax_esp = 0, ax_si = 0,
    ax_seg = (\<lambda>_. 0x9000), ax_cs = 0x9000, ax_ip = 0, ax_cr0 = 0x10, ax_cr3 = 0, ax_cr4 = 0,
    ax_msr = (\<lambda>_. 0xFEE00800), ax_gdtr_limit = 0, ax_gdtr_base = 0,
    ax_mem = setup_low_memory_ap_code gdtr_packed demo_setup 0x90000 demo_startap\<rparr>"
  have "lapic_id ?lapic s = 3" by (simp add: lapic_id_def drop_bit_eq_div)
  then show ?thesis
    using ap_program_reaches_long_mode [OF demo_setup_ok, of s, OF _ _ _ _ refl refl refl, of ?lapic]
    by (intro exI [of _ "run_part ?lapic (ap_program demo_setup 0x90000) s"])
      (auto simp: s_def demo_setup_def ap_program_def run_part_append)
qed

end
