(* ===== verification/Ap_Ipi.thy ===== *)
theory Ap_Ipi
  imports Loader_Prelude Polling
begin

text \<open>
  Delays and interprocessor interrupts, the middle of \<open>startap/ap_procs_init.c\<close>. The state is the
  calibration variable and what the code did to the hardware: the number of reads of the time-stamp
  counter, of the debug port and of the interrupt command register, and the trace of writes to it.
  The time-stamp counter is the argument \<open>clk\<close>: how many ticks have passed after so many reads of the counter, reads of
  the port and accesses of the local APIC; reading it gives the low 64 bits. What the n-th read of the register's delivery
  status gives is the argument \<open>pending\<close>. The register's bit fields come from a header outside the repository; a write is kept
  as the record of its fields.
\<close>

section \<open>State\<close>

datatype delivery_mode = LOCAL_APIC_DELIVERY_MODE_INIT | LOCAL_APIC_DELIVERY_MODE_SIPI

datatype shorthand = BROADCAST_MODE_SPECIFY_CPU | BROADCAST_MODE_ALL_EXCLUDING_SELF

record icr_low =
  icr_vector :: u8
  icr_delivery_mode :: delivery_mode
  icr_level :: bool
  icr_trigger_mode :: bool
  icr_destination_shorthand :: shorthand

datatype apic_write = Write_Icr_High u8 | Write_Icr_Low icr_low

record bsp_io =
  tsc_ticks_per_msec :: u64
  tsc_reads :: nat
  port80_reads :: nat
  icr_reads :: nat
  apic_writes :: "apic_write list"

type_synonym clock = "nat \<Rightarrow> nat \<Rightarrow> nat \<Rightarrow> nat"

definition clock_at :: "clock \<Rightarrow> bsp_io \<Rightarrow> nat" where
  "clock_at clk s = clk (tsc_reads s) (port80_reads s) (icr_reads s + length (apic_writes s))"

definition startap_rdtsc :: "clock \<Rightarrow> bsp_io \<Rightarrow> u64 \<times> bsp_io" where
  "startap_rdtsc clk s = (of_nat (clock_at clk s), s\<lparr>tsc_reads := tsc_reads s + 1\<rparr>)"

definition read_icr :: "(nat \<Rightarrow> bool) \<Rightarrow> bsp_io \<Rightarrow> bool \<times> bsp_io" where
  "read_icr pending s = (pending (icr_reads s), s\<lparr>icr_reads := icr_reads s + 1\<rparr>)"

definition write_apic :: "apic_write \<Rightarrow> bsp_io \<Rightarrow> bsp_io" where
  "write_apic w s = s\<lparr>apic_writes := apic_writes s @ [w]\<rparr>"

section \<open>Delays\<close>

text \<open>The loop reads the debug port once per round; the value is not used.\<close>

definition startap_stall :: "u32 \<Rightarrow> bsp_io \<Rightarrow> bsp_io" where
  "startap_stall stall_usec s = ((\<lambda>s. s\<lparr>port80_reads := port80_reads s + 1\<rparr>) ^^ unat stall_usec) s"

partial_function (option) calibrate_loop :: "clock \<Rightarrow> bsp_io \<Rightarrow> bsp_io option" where
  "calibrate_loop clk s =
     (let (start_tsc, s) = startap_rdtsc clk s;
          s = startap_stall 1000 s;
          (end_tsc, s) = startap_rdtsc clk s
      in if start_tsc > end_tsc then calibrate_loop clk s
         else Some (s\<lparr>tsc_ticks_per_msec := end_tsc - start_tsc\<rparr>))"

definition startap_calibrate_tsc_ticks_per_msec :: "clock \<Rightarrow> bsp_io \<Rightarrow> bsp_io option" where
  "startap_calibrate_tsc_ticks_per_msec clk s = calibrate_loop clk s"

partial_function (option) pick_end :: "clock \<Rightarrow> u64 \<Rightarrow> bsp_io \<Rightarrow> (u64 \<times> u64 \<times> bsp_io) option" where
  "pick_end clk stall_usec s =
     (let (now, s) = startap_rdtsc clk s;
          end_tsc = now + stall_usec * drop_bit 10 (tsc_ticks_per_msec s);
          (start_tsc, s) = startap_rdtsc clk s
      in if start_tsc > end_tsc then pick_end clk stall_usec s else Some (start_tsc, end_tsc, s))"

partial_function (option) wait_until :: "clock \<Rightarrow> u64 \<Rightarrow> u64 \<Rightarrow> bsp_io \<Rightarrow> bsp_io option" where
  "wait_until clk start_tsc end_tsc s =
     (if start_tsc < end_tsc
      then let (start_tsc, s) = startap_rdtsc clk s in wait_until clk start_tsc end_tsc s
      else Some s)"

definition startap_stall_using_tsc :: "clock \<Rightarrow> u64 \<Rightarrow> bsp_io \<Rightarrow> bsp_io option" where
  "startap_stall_using_tsc clk stall_usec s =
     Option.bind (if tsc_ticks_per_msec s = 0 then startap_calibrate_tsc_ticks_per_msec clk s else Some s)
       (\<lambda>s. Option.bind (pick_end clk stall_usec s) (\<lambda>(start_tsc, end_tsc, s). wait_until clk start_tsc end_tsc s))"

section \<open>Interrupts\<close>

partial_function (option) wait_icr :: "(nat \<Rightarrow> bool) \<Rightarrow> bsp_io \<Rightarrow> bsp_io option" where
  "wait_icr pending s = (let (busy, s) = read_icr pending s in if busy then wait_icr pending s else Some s)"

partial_function (option) wait_sent :: "clock \<Rightarrow> (nat \<Rightarrow> bool) \<Rightarrow> bsp_io \<Rightarrow> bsp_io option" where
  "wait_sent clk pending s =
     Option.bind (startap_stall_using_tsc clk 10 s) (\<lambda>s.
       let (busy, s) = read_icr pending s in if busy then wait_sent clk pending s else Some s)"

definition send_icr :: "clock \<Rightarrow> (nat \<Rightarrow> bool) \<Rightarrow> u8 \<Rightarrow> icr_low \<Rightarrow> bsp_io \<Rightarrow> bsp_io option" where
  "send_icr clk pending high low s =
     Option.bind (wait_icr pending s) (\<lambda>s.
       wait_sent clk pending (write_apic (Write_Icr_Low low) (write_apic (Write_Icr_High high) s)))"

definition send_ipi_to_all_excluding_self ::
  "clock \<Rightarrow> (nat \<Rightarrow> bool) \<Rightarrow> u32 \<Rightarrow> delivery_mode \<Rightarrow> bsp_io \<Rightarrow> bsp_io option" where
  "send_ipi_to_all_excluding_self clk pending vector_number mode s =
     send_icr clk pending 0
       \<lparr>icr_vector = ucast vector_number, icr_delivery_mode = mode, icr_level = True, icr_trigger_mode = False,
        icr_destination_shorthand = BROADCAST_MODE_ALL_EXCLUDING_SELF\<rparr> s"

definition send_ipi_to_specific_cpu ::
  "clock \<Rightarrow> (nat \<Rightarrow> bool) \<Rightarrow> u32 \<Rightarrow> delivery_mode \<Rightarrow> u8 \<Rightarrow> bsp_io \<Rightarrow> bsp_io option" where
  "send_ipi_to_specific_cpu clk pending vector_number mode dst s =
     send_icr clk pending dst
       \<lparr>icr_vector = ucast vector_number, icr_delivery_mode = mode, icr_level = True, icr_trigger_mode = False,
        icr_destination_shorthand = BROADCAST_MODE_SPECIFY_CPU\<rparr> s"

definition send_init_ipi :: "clock \<Rightarrow> (nat \<Rightarrow> bool) \<Rightarrow> bsp_io \<Rightarrow> bsp_io option" where
  "send_init_ipi clk pending s =
     send_ipi_to_all_excluding_self clk pending 0 LOCAL_APIC_DELIVERY_MODE_INIT s"

definition send_sipi_ipi :: "clock \<Rightarrow> (nat \<Rightarrow> bool) \<Rightarrow> addr \<Rightarrow> bsp_io \<Rightarrow> bsp_io option" where
  "send_sipi_ipi clk pending code_start s =
     send_ipi_to_all_excluding_self clk pending (drop_bit 12 (ucast code_start))
       LOCAL_APIC_DELIVERY_MODE_SIPI s"

definition send_broadcast_init_sipi :: "clock \<Rightarrow> (nat \<Rightarrow> bool) \<Rightarrow> u32 \<Rightarrow> bsp_io \<Rightarrow> bsp_io option" where
  "send_broadcast_init_sipi clk pending low_memory_page s =
     Option.bind (send_init_ipi clk pending s) (\<lambda>s.
     Option.bind (startap_stall_using_tsc clk 10000 s) (\<lambda>s.
     Option.bind (send_sipi_ipi clk pending (ucast low_memory_page) s) (\<lambda>s.
     Option.bind (startap_stall_using_tsc clk 200000 s) (\<lambda>s.
     Option.bind (send_sipi_ipi clk pending (ucast low_memory_page) s)
       (startap_stall_using_tsc clk 200000)))))"

text \<open>
  One round over the active processors: \<open>cpu_local_apic_ids[i + 1]\<close> for each of them but the first,
  where \<open>ids\<close> are the first \<open>number_of_processors_at_boot_time\<close> entries (at least one).
\<close>

primrec send_round ::
  "clock \<Rightarrow> (nat \<Rightarrow> bool) \<Rightarrow> u32 \<Rightarrow> delivery_mode \<Rightarrow> u8 list \<Rightarrow> bsp_io \<Rightarrow> bsp_io option" where
  "send_round clk pending vector mode [] s = Some s"
| "send_round clk pending vector mode (dst # ids) s =
     Option.bind (send_ipi_to_specific_cpu clk pending vector mode dst s) (send_round clk pending vector mode ids)"

definition send_targeted_init_sipi ::
  "clock \<Rightarrow> (nat \<Rightarrow> bool) \<Rightarrow> u32 \<Rightarrow> u8 list \<Rightarrow> bsp_io \<Rightarrow> bsp_io option" where
  "send_targeted_init_sipi clk pending low_memory_page ids s =
     Option.bind (send_round clk pending 0 LOCAL_APIC_DELIVERY_MODE_INIT (tl ids) s) (\<lambda>s.
     Option.bind (startap_stall_using_tsc clk 10000 s) (\<lambda>s.
     Option.bind (send_round clk pending (drop_bit 12 low_memory_page) LOCAL_APIC_DELIVERY_MODE_SIPI (tl ids) s) (\<lambda>s.
     Option.bind (startap_stall_using_tsc clk 200000 s) (\<lambda>s.
     Option.bind (send_round clk pending (drop_bit 12 low_memory_page) LOCAL_APIC_DELIVERY_MODE_SIPI (tl ids) s)
       (startap_stall_using_tsc clk 200000)))))"

section \<open>Clocks and devices\<close>

text \<open>
  The time-stamp counter counts while the program runs: a read of it takes at least one tick and at most \<open>g\<close>, a read of
  the debug port between \<open>l\<close> and \<open>h\<close> ticks, an access of the local APIC at most \<open>h\<close>. The local APIC has delivered
  an interrupt after fewer than \<open>d\<close> looks at its status.
\<close>

definition tsc_counts :: "nat \<Rightarrow> nat \<Rightarrow> nat \<Rightarrow> clock \<Rightarrow> bool" where
  "tsc_counts g l h clk \<longleftrightarrow> g \<le> h \<and>
     (\<forall>r p a. clk r p a < clk (Suc r) p a \<and> clk (Suc r) p a \<le> clk r p a + g \<and>
        clk r p a + l \<le> clk r (Suc p) a \<and> clk r (Suc p) a \<le> clk r p a + h \<and>
        clk r p a \<le> clk r p (Suc a) \<and> clk r p (Suc a) \<le> clk r p a + h)"

definition delivering :: "nat \<Rightarrow> (nat \<Rightarrow> bool) \<Rightarrow> bool" where
  "delivering d pending \<longleftrightarrow> (\<forall>n. \<exists>k < d. \<not> pending (n + k))"

text \<open>The calibration variable is still unset, or has a value that a measurement on such a clock gives.\<close>

definition calibrated :: "nat \<Rightarrow> nat \<Rightarrow> bsp_io \<Rightarrow> bool" where
  "calibrated l h s \<longleftrightarrow> tsc_ticks_per_msec s = 0 \<or>
     1000 * l \<le> unat (tsc_ticks_per_msec s) \<and> unat (tsc_ticks_per_msec s) \<le> 1001 * h"

lemma clock_steps:
  assumes "tsc_counts g l h clk"
  shows "clk r p a < clk (Suc r) p a" and "clk (Suc r) p a \<le> clk r p a + g"
    and "clk r p a + k * l \<le> clk r (p + k) a" and "clk r (p + k) a \<le> clk r p a + k * h"
    and "clk r p a \<le> clk r p (a + k)" and "clk r p (a + k) \<le> clk r p a + k * h" and "g \<le> h"
proof -
  note law = assms [unfolded tsc_counts_def]
  show "clk r p a < clk (Suc r) p a" "clk (Suc r) p a \<le> clk r p a + g" "g \<le> h" using law by blast+
  show "clk r p a + k * l \<le> clk r (p + k) a"
  proof (induction k)
    case (Suc k)
    moreover have "clk r (p + k) a + l \<le> clk r (Suc (p + k)) a" using law by blast
    ultimately show ?case by simp
  qed simp
  show "clk r (p + k) a \<le> clk r p a + k * h"
  proof (induction k)
    case (Suc k)
    moreover have "clk r (Suc (p + k)) a \<le> clk r (p + k) a + h" using law by blast
    ultimately show ?case by simp
  qed simp
  show "clk r p a \<le> clk r p (a + k)"
  proof (induction k)
    case (Suc k)
    moreover have "clk r p (a + k) \<le> clk r p (Suc (a + k))" using law by blast
    ultimately show ?case by simp
  qed simp
  show "clk r p (a + k) \<le> clk r p a + k * h"
  proof (induction k)
    case (Suc k)
    moreover have "clk r p (Suc (a + k)) \<le> clk r p (a + k) + h" using law by blast
    ultimately show ?case by simp
  qed simp
qed

text \<open>\<open>waited s s'\<close>: time passed, but the interrupt register was neither read nor written.\<close>

definition waited :: "bsp_io \<Rightarrow> bsp_io \<Rightarrow> bool" where
  "waited s s' \<longleftrightarrow> apic_writes s' = apic_writes s \<and> tsc_reads s \<le> tsc_reads s' \<and> icr_reads s' = icr_reads s"

lemma stall_effect: "startap_stall n s = s\<lparr>port80_reads := port80_reads s + unat n\<rparr>"
proof -
  have "((\<lambda>s. s\<lparr>port80_reads := port80_reads s + 1\<rparr>) ^^ k) s = s\<lparr>port80_reads := port80_reads s + k\<rparr>"
    for k and s :: bsp_io by (induction k) simp_all
  then show ?thesis by (simp add: startap_stall_def)
qed

section \<open>Delays end, and last long enough\<close>

text \<open>The calibration measures at its first try, unless the counter wraps.\<close>

lemma calibrate_returns:
  assumes law: "tsc_counts g l h clk" and room: "clock_at clk s + 1002 * h < 2 ^ 64"
  shows "\<exists>s'. calibrate_loop clk s = Some s' \<and> waited s s' \<and> tsc_ticks_per_msec s' \<noteq> 0 \<and> calibrated l h s' \<and>
    clock_at clk s \<le> clock_at clk s' \<and> clock_at clk s' \<le> clock_at clk s + 1002 * h"
proof -
  let ?a = "icr_reads s + length (apic_writes s)" and ?r = "tsc_reads s" and ?p = "port80_reads s"
  let ?t0 = "clk ?r ?p ?a" and ?t1 = "clk (Suc ?r) (?p + 1000) ?a" and ?t2 = "clk (Suc (Suc ?r)) (?p + 1000) ?a"
  note step = clock_steps [OF law]
  have t1: "?t0 + 1 + 1000 * l \<le> ?t1" "?t1 \<le> ?t0 + 1001 * h"
    using step(1,2) [of ?r ?p ?a] step(3) [of "Suc ?r" ?p ?a 1000] step(4) [of "Suc ?r" ?p 1000 ?a] step(7) by linarith+
  have t2: "?t1 \<le> ?t2" "?t2 \<le> ?t0 + 1002 * h" using t1 step(1,2) [of "Suc ?r" "?p + 1000" ?a] step(7) by linarith+
  have small: "?t0 < 2 ^ 64" "?t1 < 2 ^ 64" using room t1 t2 by (simp_all add: clock_at_def)
  define v0 v1 where "v0 = (of_nat ?t0 :: u64)" and "v1 = (of_nat ?t1 :: u64)"
  let ?v = "v1 - v0"
  have u: "unat v0 = ?t0" "unat v1 = ?t1" unfolding v0_def v1_def by (rule unat_of_nat64, rule small)+
  then have le: "\<not> v1 < v0" using t1 by (simp add: word_less_nat_alt)
  have "startap_rdtsc clk s = (v0, s\<lparr>tsc_reads := Suc ?r\<rparr>)"
    and "startap_rdtsc clk (s\<lparr>tsc_reads := Suc ?r, port80_reads := ?p + 1000\<rparr>) =
      (v1, s\<lparr>tsc_reads := Suc (Suc ?r), port80_reads := ?p + 1000\<rparr>)"
    by (simp_all add: startap_rdtsc_def clock_at_def v0_def v1_def)
  then have run: "calibrate_loop clk s = Some (s\<lparr>tsc_reads := Suc (Suc ?r), port80_reads := ?p + 1000, tsc_ticks_per_msec := ?v\<rparr>)"
    using le by (subst calibrate_loop.simps) (simp add: stall_effect)
  have v: "unat ?v = ?t1 - ?t0" using u t1 by (simp add: unat_sub_if_size)
  then have "unat ?v \<noteq> 0" using t1 by linarith
  then have "?v \<noteq> 0" by (metis unat_0)
  moreover have "1000 * l \<le> unat ?v" "unat ?v \<le> 1001 * h" unfolding v using t1 by linarith+
  moreover have "?t0 \<le> ?t2" using t1 t2 by linarith
  ultimately show ?thesis
    by (intro exI [of _ "s\<lparr>tsc_reads := Suc (Suc ?r), port80_reads := ?p + 1000, tsc_ticks_per_msec := ?v\<rparr>"] conjI run)
      (use t2 in \<open>simp_all add: waited_def calibrated_def clock_at_def\<close>)
qed

text \<open>The wait for the end: it ends at most \<open>g\<close> ticks late.\<close>

lemma wait_returns:
  assumes law: "tsc_counts g l h clk" and room: "unat e + g < 2 ^ 64"
  shows "\<lbrakk>v = of_nat (clk r p a); r + 1 = tsc_reads s; p = port80_reads s; a = icr_reads s + length (apic_writes s);
     clk r p a < unat e + g\<rbrakk> \<Longrightarrow>
   \<exists>n \<ge> r. wait_until clk v e s = Some (s\<lparr>tsc_reads := n + 1\<rparr>) \<and> unat e \<le> clk n p a \<and> clk n p a < unat e + g"
proof (induction "unat e - clk r p a" arbitrary: v r s rule: less_induct)
  case less
  have v: "unat v = clk r p a" using less.prems(1,5) room by (simp add: unat_of_nat64)
  show ?case
  proof (cases "e \<le> v")
    case True
    then have "wait_until clk v e s = Some (s\<lparr>tsc_reads := r + 1\<rparr>)"
      using less.prems(2) by (subst wait_until.simps) (simp add: not_le [symmetric])
    then show ?thesis using True v less.prems(5) by (intro exI [of _ r]) (simp add: word_le_nat_alt)
  next
    case False
    then have "clk r p a < unat e" using v by (simp add: word_le_nat_alt)
    moreover note clock_steps(1,2) [OF law, of r p a]
    ultimately have dec: "unat e - clk (Suc r) p a < unat e - clk r p a" and "clk (Suc r) p a < unat e + g" by linarith+
    from less.hyps [OF dec refl, of "s\<lparr>tsc_reads := tsc_reads s + 1\<rparr>"] less.prems this(2)
    obtain n where "n \<ge> Suc r" "wait_until clk (of_nat (clk (Suc r) p a)) e (s\<lparr>tsc_reads := tsc_reads s + 1\<rparr>) =
        Some (s\<lparr>tsc_reads := n + 1\<rparr>)" "unat e \<le> clk n p a" "clk n p a < unat e + g" by auto
    moreover have "wait_until clk v e s = wait_until clk (of_nat (clk (Suc r) p a)) e (s\<lparr>tsc_reads := tsc_reads s + 1\<rparr>)"
      using False less.prems by (subst wait_until.simps) (simp add: startap_rdtsc_def clock_at_def not_le [symmetric])
    ultimately show ?thesis by (intro exI [of _ n]) simp
  qed
qed

lemma unat_mult_ticks:
  fixes usec ticks :: u64
  assumes "unat ticks \<le> 1001 * h" and "unat usec * h < 2 ^ 64"
  shows "unat (usec * drop_bit 10 ticks) = unat usec * (unat ticks div 1024)" and "unat usec * (unat ticks div 1024) \<le> unat usec * h"
proof -
  have "unat ticks div 1024 \<le> 1001 * h div 1024" using assms(1) by (rule div_le_mono)
  also have "\<dots> \<le> h" by simp
  finally show le: "unat usec * (unat ticks div 1024) \<le> unat usec * h" by (rule mult_le_mono2)
  have "unat (drop_bit 10 ticks) = unat ticks div 1024" by (simp add: drop_bit_eq_div unat_div)
  then show "unat (usec * drop_bit 10 ticks) = unat usec * (unat ticks div 1024)"
  proof -
    have "unat usec * (unat ticks div 1024) < 2 ^ 64" using le assms(2) by linarith
    then show ?thesis using \<open>unat (drop_bit 10 ticks) = _\<close> by (simp add: unat_word_ariths)
  qed
qed

text \<open>
  A delay by a state whose calibration is set: the first pair of reads is close enough together, when a read takes no more
  ticks than the delay.
\<close>

lemma delay_returns:
  assumes law: "tsc_counts g l h clk" and cal: "calibrated l h s" "tsc_ticks_per_msec s \<noteq> 0"
    and short: "g \<le> unat usec * (1000 * l div 1024)" and room: "clock_at clk s + (unat usec + 4) * h < 2 ^ 64"
  shows "\<exists>s' \<in> {s\<lparr>tsc_reads := n\<rparr> | n. tsc_reads s \<le> n}.
    Option.bind (pick_end clk usec s) (\<lambda>(start_tsc, end_tsc, s). wait_until clk start_tsc end_tsc s) = Some s' \<and>
    clock_at clk s + unat usec * (unat (tsc_ticks_per_msec s) div 1024) \<le> clock_at clk s' \<and>
    clock_at clk s' \<le> clock_at clk s + (unat usec + 4) * h"
proof -
  let ?a = "icr_reads s + length (apic_writes s)" and ?r = "tsc_reads s" and ?p = "port80_reads s"
    and ?d = "unat usec * (unat (tsc_ticks_per_msec s) div 1024)"
  let ?t = "\<lambda>k. clk k ?p ?a"
  note step = clock_steps [OF law]
  have ticks: "1000 * l \<le> unat (tsc_ticks_per_msec s)" "unat (tsc_ticks_per_msec s) \<le> 1001 * h"
    using cal by (auto simp: calibrated_def)
  have "1000 * l div 1024 \<le> unat (tsc_ticks_per_msec s) div 1024" using ticks(1) by (rule div_le_mono)
  then have gd: "g \<le> ?d" using short by (meson le_trans mult_le_mono2)
  have room': "?t ?r + unat usec * h + 4 * h < 2 ^ 64" using room by (simp add: clock_at_def algebra_simps)
  then have uh: "unat usec * h < 2 ^ 64" by linarith
  note d = unat_mult_ticks [OF ticks(2) uh]
  define e where "e = (of_nat (?t ?r) + usec * drop_bit 10 (tsc_ticks_per_msec s) :: u64)"
  have e: "unat e = ?t ?r + ?d" 
  proof -
    have "?t ?r + ?d < 2 ^ 64" "?t ?r < 2 ^ 64" using d(2) room' by linarith+
    then show ?thesis unfolding e_def by (simp add: unat_add64 unat_of_nat64 d(1))
  qed
  have one: "?t (Suc ?r) \<le> ?t ?r + g" "?t ?r < ?t (Suc ?r)" using step(1,2) [of ?r ?p ?a] by simp_all
  have "?t (Suc ?r) < 2 ^ 64" using one gd room' d(2) by linarith
  then have "unat (of_nat (?t (Suc ?r)) :: u64) \<le> unat e" using e gd one by (simp add: unat_of_nat64)
  then have pick: "pick_end clk usec s = Some (of_nat (?t (Suc ?r)), e, s\<lparr>tsc_reads := ?r + 2\<rparr>)"
    by (subst pick_end.simps) (simp add: startap_rdtsc_def clock_at_def e_def word_less_nat_alt)
  have "?t (Suc ?r) < unat e + g" "unat e + g < 2 ^ 64" using e one gd room' d(2) step(7) by linarith+
  from wait_returns [OF law this(2) refl _ refl refl, of "Suc ?r" "s\<lparr>tsc_reads := ?r + 2\<rparr>"] this(1)
  obtain n where n: "n \<ge> Suc ?r" "wait_until clk (of_nat (?t (Suc ?r))) e (s\<lparr>tsc_reads := ?r + 2\<rparr>) = Some (s\<lparr>tsc_reads := n + 1\<rparr>)"
    "unat e \<le> ?t n" "?t n < unat e + g" by auto
  have "?t n < ?t (Suc n)" "?t (Suc n) \<le> ?t n + g" using step(1,2) [of n ?p ?a] by simp_all
  then have "?t ?r + ?d \<le> ?t (Suc n)" "?t (Suc n) \<le> ?t ?r + unat usec * h + 4 * h" using n(3,4) e d(2) step(7) by linarith+
  then show ?thesis
    using pick n(1,2) by (intro bexI [of _ "s\<lparr>tsc_reads := n + 1\<rparr>"]) (auto simp: clock_at_def algebra_simps)
qed

lemma stall_delays:
  assumes law: "tsc_counts g l h clk" and cal: "calibrated l h s"
    and short: "g \<le> unat usec * (1000 * l div 1024)" and room: "clock_at clk s + (unat usec + 1006) * h < 2 ^ 64"
  shows "\<exists>s'. startap_stall_using_tsc clk usec s = Some s' \<and> waited s s' \<and> calibrated l h s' \<and> tsc_ticks_per_msec s' \<noteq> 0 \<and>
    clock_at clk s + unat usec * (unat (tsc_ticks_per_msec s') div 1024) \<le> clock_at clk s' \<and>
    clock_at clk s' \<le> clock_at clk s + (unat usec + 1006) * h"
proof -
  have "clock_at clk s + 1002 * h < 2 ^ 64" using room by (simp add: algebra_simps)
  note calibrate = calibrate_returns [OF law this]
  obtain t where t: "(if tsc_ticks_per_msec s = 0 then startap_calibrate_tsc_ticks_per_msec clk s else Some s) = Some t"
    "waited s t" "calibrated l h t" "tsc_ticks_per_msec t \<noteq> 0" "clock_at clk s \<le> clock_at clk t" "clock_at clk t \<le> clock_at clk s + 1002 * h"
    using calibrate cal by (cases "tsc_ticks_per_msec s = 0") (auto simp: startap_calibrate_tsc_ticks_per_msec_def waited_def)
  have "clock_at clk t + (unat usec + 4) * h < 2 ^ 64" using t(6) room by (simp add: algebra_simps)
  from delay_returns [OF law t(3,4) short this] obtain n where n: "tsc_reads t \<le> n"
    "Option.bind (pick_end clk usec t) (\<lambda>(start_tsc, end_tsc, s). wait_until clk start_tsc end_tsc s) = Some (t\<lparr>tsc_reads := n\<rparr>)"
    "clock_at clk t + unat usec * (unat (tsc_ticks_per_msec t) div 1024) \<le> clock_at clk (t\<lparr>tsc_reads := n\<rparr>)"
    "clock_at clk (t\<lparr>tsc_reads := n\<rparr>) \<le> clock_at clk t + (unat usec + 4) * h" by auto
  have "startap_stall_using_tsc clk usec s = Some (t\<lparr>tsc_reads := n\<rparr>)" using t(1) n(2) by (simp add: startap_stall_using_tsc_def)
  moreover have "clock_at clk (t\<lparr>tsc_reads := n\<rparr>) \<le> clock_at clk s + (unat usec + 1006) * h"
    using n(4) t(6) by (simp add: algebra_simps)
  ultimately show ?thesis using t n(1,3) by (intro exI [of _ "t\<lparr>tsc_reads := n\<rparr>"]) (auto simp: waited_def calibrated_def)
qed

text \<open>
  With fewer than 1024 ticks per millisecond the delay is no ticks at all, so that a pair of reads is close enough together
  only where the counter has wrapped.
\<close>

lemma pick_end_wraps:
  assumes "tsc_counts g l h clk" and "drop_bit 10 (tsc_ticks_per_msec s) = 0" and "pick_end clk usec s = Some x"
  shows "2 ^ 64 \<le> clock_at clk (snd (snd x))"
proof -
  have "tsc_counts g l h clk \<longrightarrow> drop_bit 10 (tsc_ticks_per_msec s) = 0 \<longrightarrow> 2 ^ 64 \<le> clock_at clk (snd (snd x))"
    using assms(3)
  proof (rule pick_end.raw_induct [where P = "\<lambda>clk usec s x. tsc_counts g l h clk \<longrightarrow>
      drop_bit 10 (tsc_ticks_per_msec s) = 0 \<longrightarrow> 2 ^ 64 \<le> clock_at clk (snd (snd x))", rotated])
    fix f :: "clock \<Rightarrow> u64 \<Rightarrow> bsp_io \<Rightarrow> (u64 \<times> u64 \<times> bsp_io) option" and clk :: clock and usec :: u64 and s x
    assume IH: "\<And>clk usec s x. f clk usec s = Some x \<Longrightarrow> tsc_counts g l h clk \<longrightarrow>
        drop_bit 10 (tsc_ticks_per_msec s) = 0 \<longrightarrow> 2 ^ 64 \<le> clock_at clk (snd (snd x))"
      and run: "(let (now, s) = startap_rdtsc clk s; end_tsc = now + usec * drop_bit 10 (tsc_ticks_per_msec s);
          (start_tsc, s) = startap_rdtsc clk s
        in if end_tsc < start_tsc then f clk usec s else Some (start_tsc, end_tsc, s)) = Some x"
    let ?t = "\<lambda>k. clk k (port80_reads s) (icr_reads s + length (apic_writes s))" and ?r = "tsc_reads s"
    show "tsc_counts g l h clk \<longrightarrow> drop_bit 10 (tsc_ticks_per_msec s) = 0 \<longrightarrow> 2 ^ 64 \<le> clock_at clk (snd (snd x))"
    proof (intro impI)
      assume law: "tsc_counts g l h clk" and none: "drop_bit 10 (tsc_ticks_per_msec s) = 0"
      note step = clock_steps(1) [OF law]
      show "2 ^ 64 \<le> clock_at clk (snd (snd x))"
      proof (cases "(of_nat (?t ?r) :: u64) < of_nat (?t (Suc ?r))")
        case True
        then have "f clk usec (s\<lparr>tsc_reads := Suc (Suc ?r)\<rparr>) = Some x"
          using run none by (simp add: startap_rdtsc_def clock_at_def)
        from IH [OF this] law none show ?thesis by simp
      next
        case False
        then have x: "snd (snd x) = s\<lparr>tsc_reads := Suc (Suc ?r)\<rparr>"
          using run none by (auto simp: startap_rdtsc_def clock_at_def)
        have "\<not> ?t (Suc ?r) < 2 ^ 64"
        proof
          assume "?t (Suc ?r) < 2 ^ 64"
          then have "unat (of_nat (?t (Suc ?r)) :: u64) = ?t (Suc ?r)" "unat (of_nat (?t ?r) :: u64) = ?t ?r"
            using step [of ?r "port80_reads s" "icr_reads s + length (apic_writes s)"] by (simp_all add: unat_of_nat64)
          then show False
            using False step [of ?r "port80_reads s" "icr_reads s + length (apic_writes s)"] by (simp add: word_less_nat_alt)
        qed
        then show ?thesis
          using step [of "Suc ?r" "port80_reads s" "icr_reads s + length (apic_writes s)"] by (simp add: x clock_at_def)
      qed
    qed
  qed
  then show ?thesis using assms(1,2) by blast
qed

lemma wait_until_later:
  assumes "tsc_counts g l h clk" and "wait_until clk v e s = Some s'"
  shows "clock_at clk s \<le> clock_at clk s'"
proof -
  have "tsc_counts g l h clk \<longrightarrow> clock_at clk s \<le> clock_at clk s'"
    using assms(2)
  proof (rule wait_until.raw_induct [where P = "\<lambda>clk v e s s'. tsc_counts g l h clk \<longrightarrow> clock_at clk s \<le> clock_at clk s'", rotated])
    fix f :: "clock \<Rightarrow> u64 \<Rightarrow> u64 \<Rightarrow> bsp_io \<Rightarrow> bsp_io option" and clk :: clock and v e s s'
    assume IH: "\<And>clk v e s s'. f clk v e s = Some s' \<Longrightarrow> tsc_counts g l h clk \<longrightarrow> clock_at clk s \<le> clock_at clk s'"
      and run: "(if v < e then let (v, s) = startap_rdtsc clk s in f clk v e s else Some s) = Some s'"
    show "tsc_counts g l h clk \<longrightarrow> clock_at clk s \<le> clock_at clk s'"
    proof
      assume law: "tsc_counts g l h clk"
      have "clock_at clk s \<le> clock_at clk (s\<lparr>tsc_reads := tsc_reads s + 1\<rparr>)"
        using clock_steps(1) [OF law, of "tsc_reads s"] by (simp add: clock_at_def less_imp_le)
      moreover have "clock_at clk (s\<lparr>tsc_reads := tsc_reads s + 1\<rparr>) \<le> clock_at clk s'" if "v < e"
        using IH [of clk "of_nat (clock_at clk s)" e "s\<lparr>tsc_reads := tsc_reads s + 1\<rparr>" s'] run that law
        by (simp add: startap_rdtsc_def)
      ultimately show "clock_at clk s \<le> clock_at clk s'" using run by (cases "v < e") auto
    qed
  qed
  then show ?thesis using assms(1) by blast
qed

section \<open>What is sent\<close>

text \<open>
  \<open>yields clk l h m ws t\<close>: from every calibrated state that the counter's wrap is far enough from, \<open>m\<close> returns, has made
  the writes \<open>ws\<close>, and has taken at most \<open>t * h\<close> ticks.
\<close>

definition yields :: "clock \<Rightarrow> nat \<Rightarrow> nat \<Rightarrow> (bsp_io \<Rightarrow> bsp_io option) \<Rightarrow> apic_write list \<Rightarrow> nat \<Rightarrow> bool" where
  "yields clk l h m ws t \<longleftrightarrow> (\<forall>s. calibrated l h s \<and> clock_at clk s + t * h < 2 ^ 64 \<longrightarrow>
     (\<exists>s'. m s = Some s' \<and> apic_writes s' = apic_writes s @ ws \<and> calibrated l h s' \<and>
        clock_at clk s \<le> clock_at clk s' \<and> clock_at clk s' \<le> clock_at clk s + t * h))"

lemma yieldsD:
  "yields clk l h m ws t \<Longrightarrow> calibrated l h s \<Longrightarrow> clock_at clk s + t * h < 2 ^ 64 \<Longrightarrow>
   \<exists>s'. m s = Some s' \<and> apic_writes s' = apic_writes s @ ws \<and> calibrated l h s' \<and>
     clock_at clk s \<le> clock_at clk s' \<and> clock_at clk s' \<le> clock_at clk s + t * h"
  by (simp add: yields_def)

lemma yields_bind [intro]:
  assumes "yields clk l h m ws t" and "yields clk l h n vs u"
  shows "yields clk l h (\<lambda>s. Option.bind (m s) n) (ws @ vs) (t + u)"
  unfolding yields_def
proof (intro allI impI, elim conjE)
  fix s assume cal: "calibrated l h s" and room: "clock_at clk s + (t + u) * h < 2 ^ 64"
  then have "clock_at clk s + t * h < 2 ^ 64" by (simp add: algebra_simps)
  from yieldsD [OF assms(1) cal this] obtain s1 where s1: "m s = Some s1" "apic_writes s1 = apic_writes s @ ws" "calibrated l h s1"
    "clock_at clk s \<le> clock_at clk s1" "clock_at clk s1 \<le> clock_at clk s + t * h" by blast
  then have "clock_at clk s1 + u * h < 2 ^ 64" using room by (simp add: algebra_simps)
  from yieldsD [OF assms(2) s1(3) this] obtain s2 where "n s1 = Some s2" "apic_writes s2 = apic_writes s1 @ vs" "calibrated l h s2"
    "clock_at clk s1 \<le> clock_at clk s2" "clock_at clk s2 \<le> clock_at clk s1 + u * h" by blast
  with s1 show "\<exists>s'. Option.bind (m s) n = Some s' \<and> apic_writes s' = apic_writes s @ ws @ vs \<and> calibrated l h s' \<and>
      clock_at clk s \<le> clock_at clk s' \<and> clock_at clk s' \<le> clock_at clk s + (t + u) * h"
    by (intro exI [of _ s2]) (simp add: algebra_simps)
qed

text \<open>A clock and a local APIC on which the waits of an interrupt end: a read of the counter is shorter than 10 microseconds.\<close>

definition apic_timing :: "nat \<Rightarrow> nat \<Rightarrow> nat \<Rightarrow> nat \<Rightarrow> clock \<Rightarrow> (nat \<Rightarrow> bool) \<Rightarrow> bool" where
  "apic_timing g l h d clk pending \<longleftrightarrow>
     tsc_counts g l h clk \<and> g \<le> 10 * (1000 * l div 1024) \<and> delivering d pending"

lemma short_delay: "g \<le> 10 * (1000 * l div 1024) \<Longrightarrow> 10 \<le> u \<Longrightarrow> g \<le> u * (1000 * l div 1024)" for g l u :: nat
  by (meson le_trans mult_le_mono1)

lemma yields_stall:
  assumes "apic_timing g l h d clk pending" and "10 \<le> unat usec"
  shows "yields clk l h (startap_stall_using_tsc clk usec) [] (unat usec + 1006)"
  unfolding yields_def
proof (intro allI impI, elim conjE)
  fix s assume "calibrated l h s" "clock_at clk s + (unat usec + 1006) * h < 2 ^ 64"
  moreover have "tsc_counts g l h clk" "g \<le> unat usec * (1000 * l div 1024)"
    using assms(1) short_delay [OF _ assms(2)] unfolding apic_timing_def by blast+
  ultimately show "\<exists>s'. startap_stall_using_tsc clk usec s = Some s' \<and> apic_writes s' = apic_writes s @ [] \<and> calibrated l h s' \<and>
      clock_at clk s \<le> clock_at clk s' \<and> clock_at clk s' \<le> clock_at clk s + (unat usec + 1006) * h"
    using stall_delays [of g l h clk s usec] by (fastforce simp: waited_def)
qed

definition icr_again :: "bsp_io \<Rightarrow> bsp_io" where "icr_again s = s\<lparr>icr_reads := icr_reads s + 1\<rparr>"

lemma icr_again_pow: "(icr_again ^^ k) s = s\<lparr>icr_reads := icr_reads s + k\<rparr>"
  by (induction k) (simp_all add: icr_again_def)

interpretation icr: polling "wait_icr pending" "\<lambda>s. \<not> pending (icr_reads s)" icr_again icr_again
  for pending :: "nat \<Rightarrow> bool"
  by unfold_locales (subst wait_icr.simps, simp add: read_icr_def icr_again_def)

lemma icr_reads_clock:
  assumes "tsc_counts g l h clk"
  shows "clock_at clk s \<le> clock_at clk (s\<lparr>icr_reads := icr_reads s + k\<rparr>)"
    and "clock_at clk (s\<lparr>icr_reads := icr_reads s + k\<rparr>) \<le> clock_at clk s + k * h"
  using clock_steps(5,6) [OF assms, of "tsc_reads s" "port80_reads s" "icr_reads s + length (apic_writes s)" k]
  by (simp_all add: clock_at_def add.commute add.left_commute)

lemma yields_wait_icr:
  assumes "apic_timing g l h d clk pending"
  shows "yields clk l h (wait_icr pending) [] d"
  unfolding yields_def
proof (intro allI impI, elim conjE)
  fix s assume cal: "calibrated l h s"
  have law: "tsc_counts g l h clk" using assms by (simp add: apic_timing_def)
  obtain k where k: "k < d" "\<not> pending (icr_reads s + k)" using assms by (auto simp: apic_timing_def delivering_def)
  then have "\<not> pending (icr_reads ((icr_again ^^ k) s))" by (simp add: icr_again_pow)
  from icr.first_ready [of pending, OF this] obtain j where j: "j \<le> k"
    "wait_icr pending s = Some (s\<lparr>icr_reads := icr_reads s + Suc j\<rparr>)"
    by (auto simp: icr_again_pow) (auto simp: icr_again_def)
  have "Suc j * h \<le> d * h" using j(1) k(1) by (intro mult_le_mono1) simp
  then have "clock_at clk (s\<lparr>icr_reads := icr_reads s + Suc j\<rparr>) \<le> clock_at clk s + d * h"
    using icr_reads_clock(2) [OF law, of s "Suc j"] by linarith
  then show "\<exists>s'. wait_icr pending s = Some s' \<and> apic_writes s' = apic_writes s @ [] \<and> calibrated l h s' \<and>
      clock_at clk s \<le> clock_at clk s' \<and> clock_at clk s' \<le> clock_at clk s + d * h"
    using j(2) cal icr_reads_clock(1) [OF law, of s "Suc j"]
    by (intro exI [of _ "s\<lparr>icr_reads := icr_reads s + Suc j\<rparr>"]) (simp add: calibrated_def)
qed

lemma wait_sent_returns:
  assumes t: "apic_timing g l h d clk pending"
  shows "\<not> pending (icr_reads s + k) \<Longrightarrow> calibrated l h s \<Longrightarrow> clock_at clk s + Suc k * (1017 * h) < 2 ^ 64 \<Longrightarrow>
    \<exists>s'. wait_sent clk pending s = Some s' \<and> apic_writes s' = apic_writes s \<and> calibrated l h s' \<and>
      clock_at clk s \<le> clock_at clk s' \<and> clock_at clk s' \<le> clock_at clk s + Suc k * (1017 * h)"
proof (induction k arbitrary: s)
  let ?again = "\<lambda>t :: bsp_io. t\<lparr>icr_reads := icr_reads t + 1\<rparr>"
  have law: "tsc_counts g l h clk" and short: "g \<le> unat (10 :: u64) * (1000 * l div 1024)" using t by (simp_all add: apic_timing_def)
  have round: "\<exists>t. startap_stall_using_tsc clk 10 s = Some t \<and> apic_writes t = apic_writes s \<and> icr_reads t = icr_reads s \<and>
      calibrated l h (?again t) \<and> clock_at clk s \<le> clock_at clk (?again t) \<and>
      clock_at clk (?again t) \<le> clock_at clk s + 1017 * h"
    if "calibrated l h s" "clock_at clk s + 1017 * h < 2 ^ 64" for s
  proof -
    have "clock_at clk s + (unat (10 :: u64) + 1006) * h < 2 ^ 64" using that(2) by simp
    from stall_delays [OF law that(1) short this] obtain t where t: "startap_stall_using_tsc clk 10 s = Some t" "waited s t"
      "calibrated l h t" "clock_at clk s \<le> clock_at clk t" "clock_at clk t \<le> clock_at clk s + 1016 * h" by auto
    then show ?thesis using icr_reads_clock [OF law, of t 1] by (intro exI [of _ t]) (auto simp: waited_def calibrated_def)
  qed
  {
    case 0
    then have "clock_at clk s + 1017 * h < 2 ^ 64" by simp
    from round [OF 0(2) this] obtain t where "startap_stall_using_tsc clk 10 s = Some t" "apic_writes t = apic_writes s"
      "icr_reads t = icr_reads s" "calibrated l h (?again t)" "clock_at clk s \<le> clock_at clk (?again t)"
      "clock_at clk (?again t) \<le> clock_at clk s + 1017 * h" by blast
    then show ?case using 0(1) by (simp add: wait_sent.simps [of clk pending s] read_icr_def)
  next
    case (Suc k)
    then have "clock_at clk s + 1017 * h < 2 ^ 64" by simp
    from round [OF Suc.prems(2) this] obtain t where t: "startap_stall_using_tsc clk 10 s = Some t" "apic_writes t = apic_writes s"
      "icr_reads t = icr_reads s" "calibrated l h (?again t)" "clock_at clk s \<le> clock_at clk (?again t)"
      "clock_at clk (?again t) \<le> clock_at clk s + 1017 * h" by blast
    show ?case
    proof (cases "pending (icr_reads t)")
      case True
      have "\<exists>s'. wait_sent clk pending (?again t) = Some s' \<and> apic_writes s' = apic_writes (?again t) \<and> calibrated l h s' \<and>
          clock_at clk (?again t) \<le> clock_at clk s' \<and> clock_at clk s' \<le> clock_at clk (?again t) + Suc k * (1017 * h)"
        using Suc.prems t(3-6) by (intro Suc.IH) simp_all
      then show ?thesis using t True by (auto simp: wait_sent.simps [of clk pending s] read_icr_def)
    next
      case False
      then show ?thesis using t by (simp add: wait_sent.simps [of clk pending s] read_icr_def)
    qed
  }
qed

lemma yields_wait_sent:
  assumes "apic_timing g l h d clk pending"
  shows "yields clk l h (wait_sent clk pending) [] (1017 * d)"
  unfolding yields_def
proof (intro allI impI, elim conjE)
  fix s assume cal: "calibrated l h s" and room: "clock_at clk s + 1017 * d * h < 2 ^ 64"
  obtain k where k: "k < d" "\<not> pending (icr_reads s + k)" using assms by (auto simp: apic_timing_def delivering_def)
  have "Suc k * (1017 * h) \<le> d * (1017 * h)" using k(1) by (intro mult_le_mono1) simp
  then have le: "Suc k * (1017 * h) \<le> 1017 * d * h" by (simp only: mult.assoc mult.left_commute)
  then have "clock_at clk s + Suc k * (1017 * h) < 2 ^ 64" using room by linarith
  from wait_sent_returns [OF assms k(2) cal this] obtain s' where s': "wait_sent clk pending s = Some s'"
    "apic_writes s' = apic_writes s" "calibrated l h s'" "clock_at clk s \<le> clock_at clk s'"
    "clock_at clk s' \<le> clock_at clk s + Suc k * (1017 * h)" by blast
  then have "clock_at clk s' \<le> clock_at clk s + 1017 * d * h" using le by linarith
  with s' show "\<exists>s'. wait_sent clk pending s = Some s' \<and> apic_writes s' = apic_writes s @ [] \<and> calibrated l h s' \<and>
      clock_at clk s \<le> clock_at clk s' \<and> clock_at clk s' \<le> clock_at clk s + 1017 * d * h"
    by (intro exI [of _ s']) simp
qed

lemma yields_write:
  assumes "apic_timing g l h d clk pending"
  shows "yields clk l h (\<lambda>s. Some (write_apic w s)) [w] 1"
  using clock_steps(5,6) [of g l h clk _ _ _ 1] assms
  by (auto simp: yields_def write_apic_def calibrated_def clock_at_def apic_timing_def)

lemma yields_send_icr:
  assumes "apic_timing g l h d clk pending"
  shows "yields clk l h (send_icr clk pending high low) [Write_Icr_High high, Write_Icr_Low low] (1018 * d + 2)"
proof -
  note w = yields_write [OF assms]
  have "yields clk l h (\<lambda>s. Option.bind (wait_icr pending s) (\<lambda>s. Option.bind (Some (write_apic (Write_Icr_High high) s))
      (\<lambda>s. Option.bind (Some (write_apic (Write_Icr_Low low) s)) (wait_sent clk pending))))
      ([] @ [Write_Icr_High high] @ [Write_Icr_Low low] @ []) (d + (1 + (1 + 1017 * d)))"
    by (intro yields_bind yields_wait_icr [OF assms] w yields_wait_sent [OF assms])
  moreover have "send_icr clk pending high low = (\<lambda>s. Option.bind (wait_icr pending s)
      (\<lambda>s. Option.bind (Some (write_apic (Write_Icr_High high) s))
        (\<lambda>s. Option.bind (Some (write_apic (Write_Icr_Low low) s)) (wait_sent clk pending))))"
    by (simp add: fun_eq_iff send_icr_def)
  moreover have "d + (1 + (1 + 1017 * d)) = 1018 * d + 2" by simp
  ultimately show ?thesis by simp
qed

text \<open>The two writes of an interrupt, to all other processors or to one.\<close>

definition ipi :: "u8 \<Rightarrow> u8 \<Rightarrow> delivery_mode \<Rightarrow> shorthand \<Rightarrow> apic_write list" where
  "ipi dst vec mode to = [Write_Icr_High dst, Write_Icr_Low \<lparr>icr_vector = vec, icr_delivery_mode = mode,
     icr_level = True, icr_trigger_mode = False, icr_destination_shorthand = to\<rparr>]"

lemma yields_ipi_all:
  "apic_timing g l h d clk pending \<Longrightarrow>
   yields clk l h (send_ipi_to_all_excluding_self clk pending vec mode)
     (ipi 0 (ucast vec) mode BROADCAST_MODE_ALL_EXCLUDING_SELF) (1018 * d + 2)"
  unfolding send_ipi_to_all_excluding_self_def ipi_def by (rule yields_send_icr)

lemma yields_ipi_one:
  "apic_timing g l h d clk pending \<Longrightarrow>
   yields clk l h (send_ipi_to_specific_cpu clk pending vec mode dst)
     (ipi dst (ucast vec) mode BROADCAST_MODE_SPECIFY_CPU) (1018 * d + 2)"
  unfolding send_ipi_to_specific_cpu_def ipi_def by (rule yields_send_icr)

lemma yields_round:
  assumes "apic_timing g l h d clk pending"
  shows "yields clk l h (send_round clk pending vec mode ids)
     (concat (map (\<lambda>dst. ipi dst (ucast vec) mode BROADCAST_MODE_SPECIFY_CPU) ids)) (length ids * (1018 * d + 2))"
proof (induction ids)
  case Nil
  then show ?case by (simp add: yields_def)
next
  case (Cons a ids)
  from yields_bind [OF yields_ipi_one [OF assms] this] show ?case
    unfolding send_round.simps concat.simps list.map length_Cons mult_Suc .
qed

lemma sipi_vector:
  "ucast (drop_bit 12 (push_bit 12 (ucast (page :: u8) :: u32)) :: u32) = page"
  by (rule bit_word_eqI) (auto simp: bit_simps)

lemma broadcast_yields:
  assumes "apic_timing g l h d clk pending"
  shows "yields clk l h (send_broadcast_init_sipi clk pending (push_bit 12 (ucast page)))
    (ipi 0 0 LOCAL_APIC_DELIVERY_MODE_INIT BROADCAST_MODE_ALL_EXCLUDING_SELF @
     ipi 0 page LOCAL_APIC_DELIVERY_MODE_SIPI BROADCAST_MODE_ALL_EXCLUDING_SELF @
     ipi 0 page LOCAL_APIC_DELIVERY_MODE_SIPI BROADCAST_MODE_ALL_EXCLUDING_SELF) (3054 * d + 413024)"
proof -
  note all = yields_ipi_all [OF assms]
  note stall = yields_stall [OF assms]
  have "yields clk l h (send_broadcast_init_sipi clk pending (push_bit 12 (ucast page)))
      (ipi 0 (ucast (0 :: u32)) LOCAL_APIC_DELIVERY_MODE_INIT BROADCAST_MODE_ALL_EXCLUDING_SELF @ [] @
       ipi 0 page LOCAL_APIC_DELIVERY_MODE_SIPI BROADCAST_MODE_ALL_EXCLUDING_SELF @ [] @
       ipi 0 page LOCAL_APIC_DELIVERY_MODE_SIPI BROADCAST_MODE_ALL_EXCLUDING_SELF @ [])
      ((1018 * d + 2) + ((unat (10000 :: u64) + 1006) + ((1018 * d + 2) + ((unat (200000 :: u64) + 1006) +
        ((1018 * d + 2) + (unat (200000 :: u64) + 1006))))))"
    unfolding send_broadcast_init_sipi_def send_init_ipi_def send_sipi_ipi_def
    using all [of "drop_bit 12 (push_bit 12 (ucast page))"]
    by (intro yields_bind all stall) (simp_all add: sipi_vector)
  moreover have "(1018 * d + 2) + ((unat (10000 :: u64) + 1006) + ((1018 * d + 2) + ((unat (200000 :: u64) + 1006) +
      ((1018 * d + 2) + (unat (200000 :: u64) + 1006))))) = 3054 * d + 413024" by simp
  ultimately show ?thesis by (simp only: append_Nil append_Nil2 unsigned_0)
qed


lemma send_targeted_init_sipi_sends:
  assumes "apic_timing g l h d clk pending" and "calibrated l h s"
    and "clock_at clk s + (3 * (length ids * (1018 * d + 2)) + 413018) * h < 2 ^ 64"
  shows "\<exists>s'. send_targeted_init_sipi clk pending (push_bit 12 (ucast page)) (bsp # ids) s = Some s' \<and>
    apic_writes s' = apic_writes s @
      concat (map (\<lambda>dst. ipi dst 0 LOCAL_APIC_DELIVERY_MODE_INIT BROADCAST_MODE_SPECIFY_CPU) ids) @
      concat (map (\<lambda>dst. ipi dst page LOCAL_APIC_DELIVERY_MODE_SIPI BROADCAST_MODE_SPECIFY_CPU) ids) @
      concat (map (\<lambda>dst. ipi dst page LOCAL_APIC_DELIVERY_MODE_SIPI BROADCAST_MODE_SPECIFY_CPU) ids)"
proof -
  define n where "n = length ids * (1018 * d + 2)"
  note round = yields_round [OF assms(1), of _ _ ids, folded n_def]
  note stall = yields_stall [OF assms(1)]
  have "yields clk l h (send_targeted_init_sipi clk pending (push_bit 12 (ucast page)) (bsp # ids))
      (concat (map (\<lambda>dst. ipi dst (ucast (0 :: u32)) LOCAL_APIC_DELIVERY_MODE_INIT BROADCAST_MODE_SPECIFY_CPU) ids) @ [] @
       concat (map (\<lambda>dst. ipi dst page LOCAL_APIC_DELIVERY_MODE_SIPI BROADCAST_MODE_SPECIFY_CPU) ids) @ [] @
       concat (map (\<lambda>dst. ipi dst page LOCAL_APIC_DELIVERY_MODE_SIPI BROADCAST_MODE_SPECIFY_CPU) ids) @ [])
      (n + ((unat (10000 :: u64) + 1006) + (n + ((unat (200000 :: u64) + 1006) + (n + (unat (200000 :: u64) + 1006))))))"
    unfolding send_targeted_init_sipi_def list.sel
    using round [of "drop_bit 12 (push_bit 12 (ucast page))"]
    by (intro yields_bind round stall) (simp_all only: sipi_vector, simp_all)
  moreover have eq: "n + ((unat (10000 :: u64) + 1006) + (n + ((unat (200000 :: u64) + 1006) + (n + (unat (200000 :: u64) + 1006))))) =
      3 * n + 413018" by simp
  ultimately have "yields clk l h (send_targeted_init_sipi clk pending (push_bit 12 (ucast page)) (bsp # ids))
      (concat (map (\<lambda>dst. ipi dst 0 LOCAL_APIC_DELIVERY_MODE_INIT BROADCAST_MODE_SPECIFY_CPU) ids) @
       concat (map (\<lambda>dst. ipi dst page LOCAL_APIC_DELIVERY_MODE_SIPI BROADCAST_MODE_SPECIFY_CPU) ids) @
       concat (map (\<lambda>dst. ipi dst page LOCAL_APIC_DELIVERY_MODE_SIPI BROADCAST_MODE_SPECIFY_CPU) ids)) (3 * n + 413018)"
    by (simp only: append_Nil append_Nil2 unsigned_0)
  from yieldsD [OF this assms(2)] assms(3) show ?thesis by (auto simp: n_def)
qed

text \<open>
  C33: On a clock that counts, far enough from the wrap of the counter, a delay during which a read of the counter fits
  returns. It has lasted at least the delay times the calibrated rate (ticks per millisecond, divided by 1024), where the
  rate is the one set before or, if none was, one between 1000 and 1001 times what a read of the debug port takes at least
  and at most; and it has sent nothing.
\<close>

theorem startap_stall_using_tsc_delays:
  assumes "tsc_counts g l h clk" and "calibrated l h s" and "g \<le> unat usec * (1000 * l div 1024)"
    and "clock_at clk s + (unat usec + 1006) * h < 2 ^ 64"
  shows "\<exists>s'. startap_stall_using_tsc clk usec s = Some s' \<and> apic_writes s' = apic_writes s \<and>
    calibrated l h s' \<and> tsc_ticks_per_msec s' \<noteq> 0 \<and>
    clock_at clk s + unat usec * (unat (tsc_ticks_per_msec s') div 1024) \<le> clock_at clk s'"
  using stall_delays [OF assms] by (auto simp: waited_def)

text \<open>
  C38: When the calibration came out below 1024 ticks per millisecond, a delay does not return before the counter has
  counted past 64 bits: the delay is zero ticks, and of two successive reads of a counting clock the second is never at most
  the first.
\<close>

theorem startap_stall_using_tsc_hangs:
  assumes "tsc_counts g l h clk" and "tsc_ticks_per_msec s \<noteq> 0" and "unat (tsc_ticks_per_msec s) < 1024"
  shows "case startap_stall_using_tsc clk usec s of None \<Rightarrow> True | Some s' \<Rightarrow> 2 ^ 64 \<le> clock_at clk s'"
proof (cases "startap_stall_using_tsc clk usec s")
  case (Some s')
  have "unat (drop_bit 10 (tsc_ticks_per_msec s)) = 0" using assms(3) by (simp add: drop_bit_eq_div unat_div)
  then have none: "drop_bit 10 (tsc_ticks_per_msec s) = 0" by (simp only: unat_eq_zero)
  obtain v e t where t: "pick_end clk usec s = Some (v, e, t)" "wait_until clk v e t = Some s'"
    using Some assms(2) by (auto simp: startap_stall_using_tsc_def split: Option.bind_splits)
  have "2 ^ 64 \<le> clock_at clk t" using pick_end_wraps [OF assms(1) none t(1)] by simp
  also have "\<dots> \<le> clock_at clk s'" by (rule wait_until_later [OF assms(1) t(2)])
  finally show ?thesis by (simp add: Some)
qed simp

section \<open>A clock and a device\<close>

text \<open>
  A counter at 1.5 GHz, a read of it 10 ticks, of the debug port a microsecond, an access of the local APIC 100 ticks; a
  device that is busy two reads of three.
\<close>

definition demo_clock :: clock where "demo_clock r p a = 10 * r + 1500 * p + 100 * a"

definition busy_device :: "nat \<Rightarrow> bool" where "busy_device n \<longleftrightarrow> n mod 3 \<noteq> 0"

lemma demo_clock_counts: "tsc_counts 10 1500 1500 demo_clock"
  by (simp add: tsc_counts_def demo_clock_def)

lemma busy_device_delivers: "delivering 3 busy_device"
  unfolding delivering_def busy_device_def
proof
  fix n :: nat
  have "n mod 3 = 0 \<or> (n + 1) mod 3 = 0 \<or> (n + 2) mod 3 = 0" by presburger
  then show "\<exists>k < 3. \<not> (n + k) mod 3 \<noteq> 0" by (elim disjE) (rule exI [of _ 0], simp, rule exI [of _ 1], simp, rule exI [of _ 2], simp)
qed

lemma demo_timing: "apic_timing 10 1500 1500 3 demo_clock busy_device"
  by (simp add: apic_timing_def demo_clock_counts busy_device_delivers)

definition idle_io :: bsp_io where
  "idle_io = \<lparr>tsc_ticks_per_msec = 0, tsc_reads = 0, port80_reads = 0, icr_reads = 0, apic_writes = []\<rparr>"

lemma idle_clock: "clock_at demo_clock idle_io = 0" "calibrated l h idle_io"
  by (simp_all add: clock_at_def demo_clock_def idle_io_def calibrated_def)

theorem startap_stall_using_tsc_delays_witness:
  "\<exists>s'. startap_stall_using_tsc demo_clock 10 idle_io = Some s' \<and> apic_writes s' = [] \<and>
     10 * (unat (tsc_ticks_per_msec s') div 1024) \<le> clock_at demo_clock s'"
  using startap_stall_using_tsc_delays [OF demo_clock_counts idle_clock(2), of 10] by (auto simp: idle_clock) (auto simp: idle_io_def)

theorem startap_stall_using_tsc_hangs_witness:
  "case startap_stall_using_tsc demo_clock 10 (idle_io\<lparr>tsc_ticks_per_msec := 1000\<rparr>) of
     None \<Rightarrow> True | Some s' \<Rightarrow> 2 ^ 64 \<le> clock_at demo_clock s'"
  by (rule startap_stall_using_tsc_hangs [OF demo_clock_counts]) simp_all


end
