(* ===== verification/Ap_Enumeration.thy ===== *)
theory Ap_Enumeration
  imports Loader_Prelude
begin

text \<open>
  The hand-over between the boot processor and the application processors: \<open>bsp_enumerate_aps\<close>,
  \<open>mp_set_bootstrap_state\<close>, \<open>ap_procs_run\<close> and \<open>ap_continue_wakeup_code_C\<close> of
  \<open>startap/ap_procs_init.c\<close> with the two stages of \<open>startap/wakeup_init64.S\<close>, as a step relation over
  the shared variables, one step per access, in any order of the processors. When the boot processor's
  delay may end is the argument \<open>timeout_ok\<close>.
\<close>

section \<open>Enumeration\<close>

definition MON_MAX_CPU_SUPPORTED :: nat where "MON_MAX_CPU_SUPPORTED = 80"

definition enumerate_at :: "nat \<Rightarrow> u8 \<times> u8 list \<Rightarrow> u8 \<times> u8 list" where
  "enumerate_at i = (\<lambda>(ap_num, ap_presence_array).
     if ap_presence_array ! i \<noteq> 0 then (ap_num + 1, ap_presence_array[i := ap_num + 1])
     else (ap_num, ap_presence_array))"

definition bsp_enumerate_aps :: "u8 list \<Rightarrow> u8 \<times> u8 list" where
  "bsp_enumerate_aps ap_presence_array =
     fold enumerate_at [1 ..< length ap_presence_array] (0, ap_presence_array)"

text \<open>How many members of a set lie below a bound; the number of processor \<open>a\<close> is \<open>below cpus (Suc a)\<close>.\<close>

definition below :: "nat set \<Rightarrow> nat \<Rightarrow> nat" where "below A k = card (A \<inter> {..<k})"

lemma below_0 [simp]: "below A 0 = 0" by (simp add: below_def)

lemma below_Suc [simp]: "below A (Suc k) = below A k + (if k \<in> A then 1 else 0)"
  by (simp add: below_def lessThan_Suc Int_insert_right)

lemma below_mono: "j \<le> k \<Longrightarrow> below A j \<le> below A k"
  unfolding below_def by (intro card_mono) auto

lemma below_le: "below A k \<le> k"
  by (induction k) auto

lemma below_all: "A \<subseteq> {..<k} \<Longrightarrow> below A k = card A"
  unfolding below_def by (simp add: inf.absorb1)

lemma below_strict: "a \<in> A \<Longrightarrow> a < b \<Longrightarrow> below A (Suc a) < below A (Suc b)" if "b \<in> A" for b
  using that below_mono [of "Suc a" b A] by simp

lemma below_inj: "a \<in> A \<Longrightarrow> b \<in> A \<Longrightarrow> below A (Suc a) = below A (Suc b) \<Longrightarrow> a = b"
  by (metis below_strict less_irrefl linorder_neqE_nat)

definition present :: "u8 list \<Rightarrow> nat set" where
  "present a = {i. 0 < i \<and> i < length a \<and> a ! i \<noteq> 0}"

lemma enumerate_prefix:
  assumes "1 \<le> k" and "k \<le> length a"
  shows "fold enumerate_at [1 ..< k] (0, a) =
    (of_nat (below (present a) k),
     map (\<lambda>i. if i < k \<and> i \<in> present a then of_nat (below (present a) (Suc i)) else a ! i) [0 ..< length a])"
  using assms
proof (induction k rule: dec_induct)
  case base
  have "map (\<lambda>i. if i < 1 \<and> i \<in> present a then of_nat (below (present a) (Suc i)) else a ! i) [0 ..< length a] = a"
    by (rule nth_equalityI) (auto simp: present_def)
  moreover have "below (present a) 1 = 0" unfolding One_nat_def below_Suc by (simp add: present_def)
  ultimately show ?case by simp
next
  case (step k)
  let ?f = "\<lambda>k i. if i < k \<and> i \<in> present a then of_nat (below (present a) (Suc i)) else a ! i :: u8"
  have k: "k < length a" "0 < k" using step by auto
  have "(map (?f k) [0 ..< length a])[k := ?f (Suc k) k] = map (?f (Suc k)) [0 ..< length a]"
    using k by (intro nth_equalityI) (auto simp: nth_list_update less_Suc_eq)
  moreover have "map (?f k) [0 ..< length a] = map (?f (Suc k)) [0 ..< length a]" if "k \<notin> present a"
    using that by (intro map_cong) (auto simp: less_Suc_eq)
  moreover have "k \<in> present a \<longleftrightarrow> a ! k \<noteq> 0" using k by (simp add: present_def)
  ultimately show ?case using step k by (auto simp: enumerate_at_def add.commute)
qed

lemma enumerate_numbers:
  assumes "a \<noteq> []" and "i < length a"
  shows "fst (bsp_enumerate_aps a) = of_nat (card (present a))"
    and "length (snd (bsp_enumerate_aps a)) = length a"
    and "snd (bsp_enumerate_aps a) ! i =
      (if i \<in> present a then of_nat (below (present a) (Suc i)) else a ! i)"
proof -
  have "present a \<subseteq> {..<length a}" by (auto simp: present_def)
  then have "below (present a) (length a) = card (present a)" by (rule below_all)
  moreover have "1 \<le> length a" using assms(1) by (cases a) auto
  ultimately have "bsp_enumerate_aps a = (of_nat (card (present a)),
     map (\<lambda>i. if i < length a \<and> i \<in> present a then of_nat (below (present a) (Suc i)) else a ! i) [0 ..< length a])"
    unfolding bsp_enumerate_aps_def by (subst enumerate_prefix) simp_all
  with assms(2) show "fst (bsp_enumerate_aps a) = of_nat (card (present a))"
    "length (snd (bsp_enumerate_aps a)) = length a"
    "snd (bsp_enumerate_aps a) ! i = (if i \<in> present a then of_nat (below (present a) (Suc i)) else a ! i)"
    by simp_all
qed

text \<open>The enumeration returns how many entries after the first are set, numbers these in order from 1
  and leaves every other entry as it is.\<close>

lemma bsp_enumerate_aps_numbers:
  assumes "a \<noteq> []" and "i < length a"
  shows "fst (bsp_enumerate_aps a) = of_nat (card (present a)) \<and>
    length (snd (bsp_enumerate_aps a)) = length a \<and>
    snd (bsp_enumerate_aps a) ! i = (if i \<in> present a then of_nat (below (present a) (Suc i)) else a ! i)"
  using enumerate_numbers [OF assms] by blast

lemma bsp_enumerate_aps_numbers_witness:
  "bsp_enumerate_aps [0, 1, 0, 1, 1] = (3, [0, 1, 0, 2, 3]) \<and> fst (bsp_enumerate_aps [0, 1, 0, 1, 1]) = of_nat (card (present [0, 1, 0, 1, 1]))"
proof
  show "bsp_enumerate_aps [0, 1, 0, 1, 1] = (3, [0, 1, 0, 2, 3])" by code_simp
  show "fst (bsp_enumerate_aps [0, 1, 0, 1, 1]) = of_nat (card (present [0, 1, 0, 1, 1]))"
    using bsp_enumerate_aps_numbers [of "[0, 1, 0, 1, 1]" 0] by simp
qed

section \<open>Shared variables and processors\<close>

datatype mp_bootstrap_state_t = MP_BOOTSTRAP_STATE_INIT | MP_BOOTSTRAP_STATE_APS_ENUMERATED

text \<open>The state only goes forward, in the order of its constants.\<close>

instantiation mp_bootstrap_state_t :: linorder
begin

definition less_eq_mp_bootstrap_state_t :: "mp_bootstrap_state_t \<Rightarrow> mp_bootstrap_state_t \<Rightarrow> bool" where
  "a \<le> b \<longleftrightarrow> a = MP_BOOTSTRAP_STATE_INIT \<or> b = MP_BOOTSTRAP_STATE_APS_ENUMERATED"

definition less_mp_bootstrap_state_t :: "mp_bootstrap_state_t \<Rightarrow> mp_bootstrap_state_t \<Rightarrow> bool" where
  "a < b \<longleftrightarrow> a = MP_BOOTSTRAP_STATE_INIT \<and> b = MP_BOOTSTRAP_STATE_APS_ENUMERATED"

instance
proof
  fix a b c :: mp_bootstrap_state_t
  show "a < b \<longleftrightarrow> a \<le> b \<and> \<not> b \<le> a"
    by (cases a; cases b) (simp_all add: less_eq_mp_bootstrap_state_t_def less_mp_bootstrap_state_t_def)
  show "a \<le> a" "a \<le> b \<or> b \<le> a"
    by (cases a; cases b; simp add: less_eq_mp_bootstrap_state_t_def)+
  show "a \<le> c" if "a \<le> b" "b \<le> c" using that by (auto simp: less_eq_mp_bootstrap_state_t_def)
  show "a = b" if "a \<le> b" "b \<le> a" using that by (auto simp: less_eq_mp_bootstrap_state_t_def)
qed

end

lemmas mp_bootstrap_state_order = less_eq_mp_bootstrap_state_t_def less_mp_bootstrap_state_t_def

text \<open>
  Where a processor is. The boot processor waits out the timeout, enumerates (the loop's \<open>i\<close> and
  \<open>ap_num\<close>), publishes the function, signals, waits for the ready counter, and goes on. An application
  processor is off, woken by the interrupts, spinning on the state, in stage 2, knows its number, has
  counted itself, or runs the published function on the published data; \<open>Astray\<close> is one that wrote its
  mark past the array.
\<close>

datatype bsp_pc = Waiting | Enumerating nat u8 | Publishing | Signalling | Awaiting | Launched

datatype ap_pc = Off | Woken | Spinning | Stage2 | Numbered u8 | Counted u8 | Running u8 addr addr | Astray

record ap_system =
  ap_presence_array :: "u8 list"
  mp_bootstrap_state :: mp_bootstrap_state_t
  g_ready_counter :: u32
  g_aps_counter :: u32
  g_user_func :: addr
  g_any_data_for_user_func :: addr
  bsp :: bsp_pc
  ap :: "nat \<Rightarrow> ap_pc"

definition ap_intialize_environment :: "ap_system \<Rightarrow> ap_system" where
  "ap_intialize_environment s = s\<lparr>mp_bootstrap_state := MP_BOOTSTRAP_STATE_INIT, g_ready_counter := 0,
     g_user_func := 0, g_any_data_for_user_func := 0\<rparr>"

definition mp_set_bootstrap_state :: "mp_bootstrap_state_t \<Rightarrow> ap_system \<Rightarrow> ap_system" where
  "mp_set_bootstrap_state new_state s = s\<lparr>mp_bootstrap_state := new_state\<rparr>"

definition go :: "nat \<Rightarrow> ap_pc \<Rightarrow> ap_system \<Rightarrow> ap_system" where
  "go a pc s = s\<lparr>ap := (ap s)(a := pc)\<rparr>"

inductive ap_step :: "(ap_system \<Rightarrow> bool) \<Rightarrow> addr \<Rightarrow> addr \<Rightarrow> ap_system \<Rightarrow> ap_system \<Rightarrow> bool"
  for timeout_ok func data where
  timeout: "bsp s = Waiting \<Longrightarrow> timeout_ok s \<Longrightarrow> ap_step timeout_ok func data s (s\<lparr>bsp := Enumerating 1 0\<rparr>)"
| enumerate: "bsp s = Enumerating i n \<Longrightarrow> i < length (ap_presence_array s) \<Longrightarrow>
    enumerate_at i (n, ap_presence_array s) = (n', a') \<Longrightarrow>
    ap_step timeout_ok func data s (s\<lparr>ap_presence_array := a', bsp := Enumerating (i + 1) n'\<rparr>)"
| counted: "bsp s = Enumerating i n \<Longrightarrow> i \<ge> length (ap_presence_array s) \<Longrightarrow>
    ap_step timeout_ok func data s (s\<lparr>g_aps_counter := ucast n, bsp := if n = 0 then Launched else Publishing\<rparr>)"
| publish: "bsp s = Publishing \<Longrightarrow>
    ap_step timeout_ok func data s (s\<lparr>g_user_func := func, g_any_data_for_user_func := data, bsp := Signalling\<rparr>)"
| signal: "bsp s = Signalling \<Longrightarrow>
    ap_step timeout_ok func data s (mp_set_bootstrap_state MP_BOOTSTRAP_STATE_APS_ENUMERATED (s\<lparr>bsp := Awaiting\<rparr>))"
| all_ready: "bsp s = Awaiting \<Longrightarrow> g_ready_counter s = g_aps_counter s \<Longrightarrow>
    ap_step timeout_ok func data s (s\<lparr>bsp := Launched\<rparr>)"
| mark: "ap s a = Woken \<Longrightarrow> a < length (ap_presence_array s) \<Longrightarrow>
    ap_step timeout_ok func data s (go a Spinning (s\<lparr>ap_presence_array := (ap_presence_array s)[a := 1]\<rparr>))"
| stray: "ap s a = Woken \<Longrightarrow> a \<ge> length (ap_presence_array s) \<Longrightarrow>
    ap_step timeout_ok func data s (go a Astray s)"
| pass: "ap s a = Spinning \<Longrightarrow> mp_bootstrap_state s = MP_BOOTSTRAP_STATE_APS_ENUMERATED \<Longrightarrow>
    ap_step timeout_ok func data s (go a Stage2 s)"
| read_id: "ap s a = Stage2 \<Longrightarrow>
    ap_step timeout_ok func data s (go a (Numbered (ap_presence_array s ! a)) s)"
| count: "ap s a = Numbered num \<Longrightarrow>
    ap_step timeout_ok func data s (go a (Counted num) (s\<lparr>g_ready_counter := g_ready_counter s + 1\<rparr>))"
| call: "ap s a = Counted num \<Longrightarrow>
    ap_step timeout_ok func data s (go a (Running num (g_user_func s) (g_any_data_for_user_func s)) s)"

inductive_cases ap_stepE: "ap_step timeout_ok func data s s'"

text \<open>The state when the interrupts have been sent, with the processors of local APIC identifiers \<open>cpus\<close>.\<close>

definition boot_state :: "nat set \<Rightarrow> ap_system" where
  "boot_state cpus = ap_intialize_environment
     \<lparr>ap_presence_array = replicate MON_MAX_CPU_SUPPORTED 0, mp_bootstrap_state = MP_BOOTSTRAP_STATE_INIT,
      g_ready_counter = 0, g_aps_counter = 0, g_user_func = 0, g_any_data_for_user_func = 0,
      bsp = Waiting, ap = (\<lambda>a. if a \<in> cpus then Woken else Off)\<rparr>"

text \<open>The delay is long enough when it ends only after every woken processor has left its mark.\<close>

definition all_marked :: "ap_system \<Rightarrow> bool" where "all_marked s \<longleftrightarrow> (\<forall>a. ap s a \<noteq> Woken)"

abbreviation punctual :: "addr \<Rightarrow> addr \<Rightarrow> ap_system \<Rightarrow> ap_system \<Rightarrow> bool" where
  "punctual \<equiv> ap_step all_marked"

section \<open>The invariant\<close>

definition has_counted :: "ap_pc \<Rightarrow> bool" where
  "has_counted pc \<longleftrightarrow> (case pc of Counted _ \<Rightarrow> True | Running _ _ _ \<Rightarrow> True | _ \<Rightarrow> False)"

definition number :: "nat set \<Rightarrow> nat \<Rightarrow> u8" where "number cpus a = of_nat (below cpus (Suc a))"

definition mark_of :: "nat set \<Rightarrow> ap_system \<Rightarrow> nat \<Rightarrow> u8" where
  "mark_of cpus s a =
     (if a \<notin> cpus then 0
      else case bsp s of
        Waiting \<Rightarrow> if ap s a = Woken then 0 else 1
      | Enumerating i _ \<Rightarrow> if a < i then number cpus a else 1
      | _ \<Rightarrow> number cpus a)"

definition ap_ok :: "nat set \<Rightarrow> addr \<Rightarrow> addr \<Rightarrow> ap_system \<Rightarrow> nat \<Rightarrow> bool" where
  "ap_ok cpus func data s a \<longleftrightarrow>
     (case ap s a of
        Off \<Rightarrow> a \<notin> cpus
      | Woken \<Rightarrow> a \<in> cpus \<and> bsp s = Waiting
      | Spinning \<Rightarrow> a \<in> cpus
      | Stage2 \<Rightarrow> a \<in> cpus \<and> mp_bootstrap_state s = MP_BOOTSTRAP_STATE_APS_ENUMERATED
      | Numbered num \<Rightarrow> a \<in> cpus \<and> mp_bootstrap_state s = MP_BOOTSTRAP_STATE_APS_ENUMERATED \<and> num = number cpus a
      | Counted num \<Rightarrow> a \<in> cpus \<and> mp_bootstrap_state s = MP_BOOTSTRAP_STATE_APS_ENUMERATED \<and> num = number cpus a
      | Running num f d \<Rightarrow> a \<in> cpus \<and> mp_bootstrap_state s = MP_BOOTSTRAP_STATE_APS_ENUMERATED \<and>
          num = number cpus a \<and> f = func \<and> d = data
      | Astray \<Rightarrow> False)"

definition bsp_ok :: "nat set \<Rightarrow> addr \<Rightarrow> addr \<Rightarrow> ap_system \<Rightarrow> bool" where
  "bsp_ok cpus func data s \<longleftrightarrow>
     (case bsp s of
        Waiting \<Rightarrow> mp_bootstrap_state s = MP_BOOTSTRAP_STATE_INIT
      | Enumerating i n \<Rightarrow> mp_bootstrap_state s = MP_BOOTSTRAP_STATE_INIT \<and> 1 \<le> i \<and> i \<le> MON_MAX_CPU_SUPPORTED \<and>
          n = of_nat (below cpus i)
      | Publishing \<Rightarrow> mp_bootstrap_state s = MP_BOOTSTRAP_STATE_INIT \<and> g_aps_counter s = of_nat (card cpus)
      | Signalling \<Rightarrow> mp_bootstrap_state s = MP_BOOTSTRAP_STATE_INIT \<and> g_aps_counter s = of_nat (card cpus) \<and>
          g_user_func s = func \<and> g_any_data_for_user_func s = data
      | Awaiting \<Rightarrow> mp_bootstrap_state s = MP_BOOTSTRAP_STATE_APS_ENUMERATED \<and> g_aps_counter s = of_nat (card cpus) \<and>
          g_user_func s = func \<and> g_any_data_for_user_func s = data
      | Launched \<Rightarrow> g_aps_counter s = of_nat (card cpus) \<and> (\<forall>a \<in> cpus. has_counted (ap s a)) \<and>
          (cpus \<noteq> {} \<longrightarrow> mp_bootstrap_state s = MP_BOOTSTRAP_STATE_APS_ENUMERATED \<and>
             g_user_func s = func \<and> g_any_data_for_user_func s = data))"

definition proto_inv :: "nat set \<Rightarrow> addr \<Rightarrow> addr \<Rightarrow> ap_system \<Rightarrow> bool" where
  "proto_inv cpus func data s \<longleftrightarrow>
     length (ap_presence_array s) = MON_MAX_CPU_SUPPORTED \<and>
     (\<forall>a < MON_MAX_CPU_SUPPORTED. ap_presence_array s ! a = mark_of cpus s a) \<and>
     (\<forall>a. ap_ok cpus func data s a) \<and>
     bsp_ok cpus func data s \<and>
     g_ready_counter s = of_nat (card {a \<in> cpus. has_counted (ap s a)})"

lemmas proto_defs = proto_inv_def bsp_ok_def mark_of_def

lemma proto_inv_boot: "cpus \<subseteq> {1 ..< 80} \<Longrightarrow> proto_inv cpus func data (boot_state cpus)"
  by (auto simp: proto_defs ap_ok_def boot_state_def ap_intialize_environment_def MON_MAX_CPU_SUPPORTED_def has_counted_def)

text \<open>An application processor's step changes its own place; these are the facts about the others.\<close>

lemma ap_go: "ap (go a pc s) = (ap s)(a := pc)" by (simp add: go_def)

lemma go_simps [simp]:
  "ap_presence_array (go a pc s) = ap_presence_array s" "mp_bootstrap_state (go a pc s) = mp_bootstrap_state s"
  "g_ready_counter (go a pc s) = g_ready_counter s" "g_aps_counter (go a pc s) = g_aps_counter s"
  "g_user_func (go a pc s) = g_user_func s" "g_any_data_for_user_func (go a pc s) = g_any_data_for_user_func s"
  "bsp (go a pc s) = bsp s"
  by (simp_all add: go_def)

lemma has_counted_simps [simp]:
  "\<not> has_counted Off" "\<not> has_counted Woken" "\<not> has_counted Spinning" "\<not> has_counted Stage2"
  "\<not> has_counted (Numbered num)" "has_counted (Counted num)" "has_counted (Running num f d)" "\<not> has_counted Astray"
  by (simp_all add: has_counted_def)

lemma counted_set_same:
  assumes "has_counted pc = has_counted (p a)"
  shows "{x \<in> cpus. has_counted ((p(a := pc)) x)} = {x \<in> cpus. has_counted (p x)}"
  using assms by auto

lemma counted_set_more:
  assumes "finite cpus" "a \<in> cpus" "\<not> has_counted (p a)" "has_counted pc"
  shows "card {x \<in> cpus. has_counted ((p(a := pc)) x)} = Suc (card {x \<in> cpus. has_counted (p x)})"
proof -
  have "{x \<in> cpus. has_counted ((p(a := pc)) x)} = insert a {x \<in> cpus. has_counted (p x)}"
    using assms by auto
  with assms show ?thesis by simp
qed

lemma all_counted:
  fixes cpus :: "nat set"
  assumes "cpus \<subseteq> {1 ..< 80}" "(of_nat (card {a \<in> cpus. has_counted (p a)}) :: u32) = of_nat (card cpus)" "a \<in> cpus"
  shows "has_counted (p a)"
proof -
  have fin: "finite cpus" using assms(1) by (rule finite_subset) simp
  have "card cpus \<le> card {1 ..< 80 :: nat}" using assms(1) by (intro card_mono) simp_all
  moreover have le: "card {a \<in> cpus. has_counted (p a)} \<le> card cpus" using fin by (intro card_mono) auto
  ultimately have "card {a \<in> cpus. has_counted (p a)} = card cpus"
    using assms(2) by (simp add: of_nat_eq_iff word_of_nat_eq_iff take_bit_nat_eq_self)
  then have "{a \<in> cpus. has_counted (p a)} = cpus" using fin by (intro card_subset_eq) auto
  with assms(3) show ?thesis by blast
qed

lemma ap_ok_bsp:
  assumes "\<forall>a. ap_ok cpus func data s a" and "ap t = ap s"
    and "bsp s \<noteq> Waiting \<or> all_marked s"
    and "mp_bootstrap_state s = MP_BOOTSTRAP_STATE_APS_ENUMERATED \<longrightarrow> mp_bootstrap_state t = MP_BOOTSTRAP_STATE_APS_ENUMERATED"
  shows "ap_ok cpus func data t a"
  using spec [OF assms(1), of a] assms(2-4) by (auto simp: ap_ok_def all_marked_def split: ap_pc.splits)

lemma ap_ok_go:
  assumes "\<forall>x. ap_ok cpus func data s x" and "bsp t = bsp s" "mp_bootstrap_state t = mp_bootstrap_state s" "ap t = ap s"
    and "ap_ok cpus func data (go a pc t) a"
  shows "ap_ok cpus func data (go a pc t) x"
  using spec [OF assms(1), of x] assms(2-5) by (cases "x = a") (auto simp: ap_ok_def ap_go split: ap_pc.splits)

text \<open>What has to be shown for a step of processor \<open>a\<close> that otherwise changes at most the array and the counter.\<close>

lemma proto_inv_go:
  assumes "proto_inv cpus func data s"
    and "bsp t = bsp s" "mp_bootstrap_state t = mp_bootstrap_state s" "ap t = ap s"
      "g_aps_counter t = g_aps_counter s" "g_user_func t = g_user_func s"
      "g_any_data_for_user_func t = g_any_data_for_user_func s"
    and "length (ap_presence_array t) = MON_MAX_CPU_SUPPORTED"
    and "\<forall>b < MON_MAX_CPU_SUPPORTED. ap_presence_array t ! b = mark_of cpus (go a pc t) b"
    and "ap_ok cpus func data (go a pc t) a" and "bsp s = Launched \<longrightarrow> has_counted pc"
    and "g_ready_counter t = of_nat (card {x \<in> cpus. has_counted (((ap s)(a := pc)) x)})"
  shows "proto_inv cpus func data (go a pc t)"
proof -
  have "\<forall>x. ap_ok cpus func data (go a pc t) x"
    using assms(1) by (intro allI ap_ok_go [OF _ assms(2-4,10)]) (simp add: proto_inv_def)
  moreover have "bsp_ok cpus func data s" using assms(1) by (simp add: proto_inv_def)
  then have "bsp_ok cpus func data (go a pc t)"
    using assms(2-7,11) by (cases "bsp s") (simp_all add: bsp_ok_def ap_go)
  ultimately show ?thesis using assms(4,8,9,12)
    unfolding proto_inv_def go_simps ap_go by simp
qed

lemma mark_of_go:
  "bsp t = bsp s \<Longrightarrow> bsp s \<noteq> Waiting \<Longrightarrow> mark_of cpus (go a pc t) b = mark_of cpus s b"
  by (cases "bsp s") (simp_all add: mark_of_def)

lemma released:
  assumes "proto_inv cpus func data s" and "cpus \<subseteq> {1 ..< 80}" and "a \<in> cpus"
    and "mp_bootstrap_state s = MP_BOOTSTRAP_STATE_APS_ENUMERATED"
  shows "bsp s \<noteq> Waiting" and "ap_presence_array s ! a = number cpus a"
    and "g_user_func s = func" and "g_any_data_for_user_func s = data"
    and "bsp s = Launched \<Longrightarrow> has_counted (ap s a)"
proof -
  have boot: "bsp_ok cpus func data s" and a: "a < MON_MAX_CPU_SUPPORTED"
    and marks: "\<forall>b < MON_MAX_CPU_SUPPORTED. ap_presence_array s ! b = mark_of cpus s b"
    using assms by (auto simp: proto_inv_def MON_MAX_CPU_SUPPORTED_def)
  have "bsp s = Awaiting \<or> bsp s = Launched" using boot assms(4) by (cases "bsp s") (simp_all add: bsp_ok_def)
  then show "bsp s \<noteq> Waiting" "ap_presence_array s ! a = number cpus a" "g_user_func s = func"
    "g_any_data_for_user_func s = data" "bsp s = Launched \<Longrightarrow> has_counted (ap s a)"
    using boot assms(3) marks a by (auto simp: bsp_ok_def mark_of_def)
qed

text \<open>A step of a processor after the signal, which leaves the array alone.\<close>

lemma proto_inv_released_go:
  assumes "proto_inv cpus func data s" and "cpus \<subseteq> {1 ..< 80}" and "a \<in> cpus"
    and "mp_bootstrap_state s = MP_BOOTSTRAP_STATE_APS_ENUMERATED"
    and "ap_ok cpus func data (go a pc (s\<lparr>g_ready_counter := n\<rparr>)) a"
    and "has_counted (ap s a) \<longrightarrow> has_counted pc"
    and "n = of_nat (card {x \<in> cpus. has_counted (((ap s)(a := pc)) x)})"
  shows "proto_inv cpus func data (go a pc (s\<lparr>g_ready_counter := n\<rparr>))"
proof (rule proto_inv_go [OF assms(1)])
  show "\<forall>b < MON_MAX_CPU_SUPPORTED. ap_presence_array (s\<lparr>g_ready_counter := n\<rparr>) ! b =
      mark_of cpus (go a pc (s\<lparr>g_ready_counter := n\<rparr>)) b"
    using assms(1) released(1) [OF assms(1-4)] by (simp add: mark_of_go [of _ s] proto_inv_def)
  show "bsp s = Launched \<longrightarrow> has_counted pc" using released(5) [OF assms(1-4)] assms(6) by blast
qed (use assms(1,5,7) in \<open>simp_all add: proto_inv_def\<close>)

text \<open>The facts that every step of the protocol starts from.\<close>

lemma proto_invD:
  assumes "proto_inv cpus func data s"
  shows "ap_ok cpus func data s a" and "length (ap_presence_array s) = 80"
    and "\<forall>b < MON_MAX_CPU_SUPPORTED. ap_presence_array s ! b = mark_of cpus s b"
    and "g_ready_counter s = of_nat (card {a \<in> cpus. has_counted (ap s a)})"
    and "bsp_ok cpus func data s"
  using assms by (simp_all add: proto_inv_def MON_MAX_CPU_SUPPORTED_def)

section \<open>Steps of the boot processor\<close>

text \<open>The other processors stay as they are when the boot processor moves.\<close>

lemma ap_ok_bsp_moves:
  assumes "proto_inv cpus func data s" and "ap t = ap s" and "bsp s \<noteq> Waiting \<or> all_marked s"
    and "mp_bootstrap_state s \<le> mp_bootstrap_state t"
  shows "ap_ok cpus func data t a"
  using assms proto_invD(1) [OF assms(1)]
  by (intro ap_ok_bsp [of cpus func data s]) (auto simp: mp_bootstrap_state_order)

lemma proto_inv_enumerate:
  assumes "proto_inv cpus func data s" and "bsp s = Enumerating i n" and "i < length (ap_presence_array s)"
    and "enumerate_at i (n, ap_presence_array s) = (n', a')"
  shows "proto_inv cpus func data (s\<lparr>ap_presence_array := a', bsp := Enumerating (i + 1) n'\<rparr>)"
proof -
  have n: "n = of_nat (below cpus i)" "1 \<le> i" "i < 80" "length (ap_presence_array s) = 80"
    and idle: "mp_bootstrap_state s = MP_BOOTSTRAP_STATE_INIT"
    using assms by (auto simp: proto_defs MON_MAX_CPU_SUPPORTED_def)
  have a: "\<forall>a < 80. ap_presence_array s ! a = (if a \<notin> cpus then 0 else if a < i then number cpus a else 1)"
    using assms by (simp add: proto_defs MON_MAX_CPU_SUPPORTED_def)
  have n': "n' = of_nat (below cpus (Suc i))"
    and a': "\<forall>a < 80. a' ! a = (if a \<notin> cpus then 0 else if a < Suc i then number cpus a else 1)" "length a' = 80"
    using assms(4) n a by (auto simp: enumerate_at_def number_def nth_list_update less_Suc_eq add.commute split: if_splits)
  show ?thesis using assms n' a' n(2,3)
      ap_ok_bsp_moves [OF assms(1), of "s\<lparr>ap_presence_array := a', bsp := Enumerating (i + 1) n'\<rparr>"]
    by (auto simp: proto_defs MON_MAX_CPU_SUPPORTED_def)
qed

lemma proto_inv_enumerated:
  assumes "cpus \<subseteq> {1 ..< 80}" and "proto_inv cpus func data s" and "bsp s = Enumerating i n" and "i \<ge> length (ap_presence_array s)"
  shows "proto_inv cpus func data (s\<lparr>g_aps_counter := ucast n, bsp := if n = 0 then Launched else Publishing\<rparr>)"
proof -
  have i: "i = 80" "n = of_nat (below cpus 80)" using assms(2-4) by (auto simp: proto_defs MON_MAX_CPU_SUPPORTED_def)
  have "cpus \<subseteq> {..<80}" using assms(1) by auto
  then have n: "n = of_nat (card cpus)" using i by (simp add: below_all)
  have fin: "finite cpus" using assms(1) by (rule finite_subset) simp
  have "card cpus \<le> card {1 ..< 80 :: nat}" using assms(1) by (intro card_mono) simp_all
  then have un: "unat n = card cpus" "(ucast n :: u32) = of_nat (card cpus)"
    using n by (simp_all add: unsigned_of_nat take_bit_nat_eq_self)
  then have "n = 0 \<longleftrightarrow> cpus = {}" using fin by (metis card_0_eq unsigned_eq_0_iff)
  with un show ?thesis using assms(2-4) i(1)
      ap_ok_bsp_moves [OF assms(2), of "s\<lparr>g_aps_counter := ucast n, bsp := if n = 0 then Launched else Publishing\<rparr>"]
    by (auto simp: proto_defs MON_MAX_CPU_SUPPORTED_def)
qed

section \<open>Steps of an application processor\<close>

lemma proto_inv_mark:
  assumes "proto_inv cpus func data s" and "ap s a = Woken" and "a < length (ap_presence_array s)"
  shows "proto_inv cpus func data (go a Spinning (s\<lparr>ap_presence_array := (ap_presence_array s)[a := 1]\<rparr>))"
proof (rule proto_inv_go [OF assms(1)])
  note inv = proto_invD [OF assms(1)]
  have a: "a \<in> cpus" "bsp s = Waiting" using inv(1) [of a] assms(2) by (simp_all add: ap_ok_def)
  show "\<forall>b < MON_MAX_CPU_SUPPORTED. ap_presence_array (s\<lparr>ap_presence_array := (ap_presence_array s)[a := 1]\<rparr>) ! b =
      mark_of cpus (go a Spinning (s\<lparr>ap_presence_array := (ap_presence_array s)[a := 1]\<rparr>)) b"
    using inv(3) assms(3) a by (simp add: mark_of_def ap_go nth_list_update)
  show "ap_ok cpus func data (go a Spinning (s\<lparr>ap_presence_array := (ap_presence_array s)[a := 1]\<rparr>)) a"
    using a by (simp add: ap_ok_def ap_go)
  show "g_ready_counter (s\<lparr>ap_presence_array := (ap_presence_array s)[a := 1]\<rparr>) =
      of_nat (card {x \<in> cpus. has_counted (((ap s)(a := Spinning)) x)})"
    using inv(4) assms(2) counted_set_same [of Spinning "ap s" a cpus] by (simp del: fun_upd_apply)
  show "length (ap_presence_array (s\<lparr>ap_presence_array := (ap_presence_array s)[a := 1]\<rparr>)) = MON_MAX_CPU_SUPPORTED"
    using inv(2) by (simp add: MON_MAX_CPU_SUPPORTED_def)
  show "bsp s = Launched \<longrightarrow> has_counted Spinning" using a by simp
qed simp_all

text \<open>After the signal the array is not written; the steps before the count leave the counter alone.\<close>

lemma proto_inv_uncounted_go:
  assumes "cpus \<subseteq> {1 ..< 80}" and "proto_inv cpus func data s" and "a \<in> cpus"
    and "mp_bootstrap_state s = MP_BOOTSTRAP_STATE_APS_ENUMERATED"
    and "ap_ok cpus func data (go a pc s) a" and "has_counted (ap s a) = has_counted pc"
  shows "proto_inv cpus func data (go a pc s)"
proof -
  have "s\<lparr>g_ready_counter := g_ready_counter s\<rparr> = s" by simp
  note go = proto_inv_released_go [OF assms(2,1,3,4), of pc "g_ready_counter s", unfolded this]
  show ?thesis using assms(5,6) proto_invD(4) [OF assms(2)] counted_set_same [of pc "ap s" a cpus]
    by (intro go) (simp_all del: fun_upd_apply)
qed

lemma proto_inv_released_step:
  assumes "cpus \<subseteq> {1 ..< 80}" and "proto_inv cpus func data s"
  shows "ap s a = Spinning \<Longrightarrow> mp_bootstrap_state s = MP_BOOTSTRAP_STATE_APS_ENUMERATED \<Longrightarrow> proto_inv cpus func data (go a Stage2 s)"
    and "ap s a = Stage2 \<Longrightarrow> proto_inv cpus func data (go a (Numbered (ap_presence_array s ! a)) s)"
    and "ap s a = Numbered num \<Longrightarrow> proto_inv cpus func data (go a (Counted num) (s\<lparr>g_ready_counter := g_ready_counter s + 1\<rparr>))"
    and "ap s a = Counted num \<Longrightarrow> proto_inv cpus func data (go a (Running num (g_user_func s) (g_any_data_for_user_func s)) s)"
proof -
  note ok = proto_invD(1) [OF assms(2), of a] and now = released [OF assms(2,1)]
  show "proto_inv cpus func data (go a Stage2 s)" if "ap s a = Spinning" "mp_bootstrap_state s = MP_BOOTSTRAP_STATE_APS_ENUMERATED"
    using that ok by (intro proto_inv_uncounted_go [OF assms]) (simp_all add: ap_ok_def ap_go)
  show "proto_inv cpus func data (go a (Numbered (ap_presence_array s ! a)) s)" if "ap s a = Stage2"
    using that ok now(2) [of a] by (intro proto_inv_uncounted_go [OF assms]) (simp_all add: ap_ok_def ap_go)
  show "proto_inv cpus func data (go a (Running num (g_user_func s) (g_any_data_for_user_func s)) s)" if "ap s a = Counted num"
    using that ok now(3,4) [of a] by (intro proto_inv_uncounted_go [OF assms]) (simp_all add: ap_ok_def ap_go)
  have "finite cpus" using assms(1) by (rule finite_subset) simp
  then show "proto_inv cpus func data (go a (Counted num) (s\<lparr>g_ready_counter := g_ready_counter s + 1\<rparr>))" if "ap s a = Numbered num"
    using that ok proto_invD(4) [OF assms(2)] counted_set_more [of cpus a "ap s" "Counted num"]
    by (intro proto_inv_released_go [OF assms(2,1)]) (simp_all add: ap_ok_def ap_go del: fun_upd_apply, simp_all)
qed

lemma proto_inv_step:
  assumes "cpus \<subseteq> {1 ..< 80}" and "proto_inv cpus func data s" and "punctual func data s s'"
  shows "proto_inv cpus func data s'"
  using assms(3)
proof (cases rule: ap_step.cases)
  case timeout
  have "below cpus 1 = 0" using assms(1) unfolding One_nat_def below_Suc by auto
  then show ?thesis using assms(2) timeout ap_ok_bsp_moves [OF assms(2), of s']
    by (auto simp: proto_defs all_marked_def MON_MAX_CPU_SUPPORTED_def)
next
  case (stray a)
  then show ?thesis using proto_invD(1) [OF assms(2), of a] proto_invD(2) [OF assms(2)] assms(1) by (fastforce simp: ap_ok_def)
next
  case all_ready
  then have "has_counted (ap s a)" if "a \<in> cpus" for a
    using assms(2) that by (intro all_counted [OF assms(1)]) (auto simp: proto_defs)
  then show ?thesis using assms(2) all_ready ap_ok_bsp_moves [OF assms(2), of s'] by (auto simp: proto_defs)
qed (use assms proto_inv_enumerate [OF assms(2)] proto_inv_enumerated [OF assms(1,2)] proto_inv_mark [OF assms(2)]
    proto_inv_released_step [OF assms(1,2)] ap_ok_bsp_moves [OF assms(2), of s'] in \<open>auto simp: proto_defs mp_set_bootstrap_state_def mp_bootstrap_state_order\<close>)

end
