(* ===== verification/Transition_Systems.thy ===== *)
theory Transition_Systems
  imports Main
begin

text \<open>
  Two contracts of step relations: a property that the start states have and every step keeps, and a concrete relation
  whose steps are, seen through a view, steps of an abstract one or invisible. A refinement of a relation with an
  invariant has that invariant itself.
\<close>

locale step_invariant =
  fixes step :: "'s \<Rightarrow> 's \<Rightarrow> bool"
    and start :: "'s \<Rightarrow> bool"
    and inv :: "'s \<Rightarrow> bool"
  assumes inv_start: "start s \<Longrightarrow> inv s"
    and inv_step: "inv s \<Longrightarrow> step s t \<Longrightarrow> inv t"
begin

lemma inv_steps: "step\<^sup>*\<^sup>* s t \<Longrightarrow> inv s \<Longrightarrow> inv t"
  by (induction rule: rtranclp_induct) (blast intro: inv_step)+

lemma inv_reachable: "start s \<Longrightarrow> step\<^sup>*\<^sup>* s t \<Longrightarrow> inv t"
  using inv_steps inv_start by blast

end

locale step_refinement = abstract: step_invariant astep astart ainv
  for astep :: "'a \<Rightarrow> 'a \<Rightarrow> bool" and astart :: "'a \<Rightarrow> bool" and ainv :: "'a \<Rightarrow> bool" +
  fixes cstep :: "'c \<Rightarrow> 'c \<Rightarrow> bool"
    and cstart :: "'c \<Rightarrow> bool"
    and cinv :: "'c \<Rightarrow> bool"
    and view :: "'c \<Rightarrow> 'a"
  assumes start_view: "cstart s \<Longrightarrow> cinv s \<and> astart (view s)"
    and keeps_cinv: "cinv s \<Longrightarrow> ainv (view s) \<Longrightarrow> cstep s t \<Longrightarrow> cinv t"
    and step_view: "cinv s \<Longrightarrow> ainv (view s) \<Longrightarrow> cstep s t \<Longrightarrow> view t = view s \<or> astep (view s) (view t)"

sublocale step_refinement \<subseteq> concrete: step_invariant cstep cstart "\<lambda>s. cinv s \<and> ainv (view s)"
proof
  show "cinv s \<and> ainv (view s)" if "cstart s" for s
    using start_view [OF that] abstract.inv_start by blast
  show "cinv t \<and> ainv (view t)" if "cinv s \<and> ainv (view s)" "cstep s t" for s t
    using that keeps_cinv step_view abstract.inv_step by metis
qed

context step_refinement
begin

lemma run_view: "cstep\<^sup>*\<^sup>* s t \<Longrightarrow> cstart s \<Longrightarrow> astep\<^sup>*\<^sup>* (view s) (view t)"
proof (induction rule: rtranclp_induct)
  case (step t u)
  then have "cinv t \<and> ainv (view t)" using concrete.inv_reachable by blast
  then have "view u = view t \<or> astep (view t) (view u)" using step.hyps(2) step_view by blast
  with step show ?case by (metis rtranclp.rtrancl_into_rtrancl)
qed simp

end

end
