(* ===== verification/Ap_Handover.thy ===== *)
theory Ap_Handover
  imports Ap_Enumeration Transition_Systems
begin

text \<open>
  What the hand-over of \<open>Ap_Enumeration\<close> guarantees: the processors' numbers and stacks, the state in
  which the boot processor goes on, termination, and two runs outside the assumptions in which two
  processors get the same number.
\<close>

section \<open>What the protocol guarantees\<close>

definition proto_start :: "nat set \<Rightarrow> ap_system \<Rightarrow> bool" where
  "proto_start cpus s \<longleftrightarrow> cpus \<subseteq> {1 ..< 80} \<and> s = boot_state cpus"

interpretation protocol: step_invariant "punctual func data" "proto_start cpus"
  "\<lambda>s. cpus \<subseteq> {1 ..< 80} \<and> proto_inv cpus func data s"
proof
  show "cpus \<subseteq> {1 ..< 80} \<and> proto_inv cpus func data s" if "proto_start cpus s" for s
    using that proto_inv_boot unfolding proto_start_def by blast
  show "cpus \<subseteq> {1 ..< 80} \<and> proto_inv cpus func data t"
    if "cpus \<subseteq> {1 ..< 80} \<and> proto_inv cpus func data s" "punctual func data s t" for s t
    using that proto_inv_step by blast
qed

lemma proto_inv_reachable:
  assumes "cpus \<subseteq> {1 ..< 80}" and "(punctual func data)\<^sup>*\<^sup>* (boot_state cpus) s"
  shows "proto_inv cpus func data s"
  using protocol.inv_reachable [OF _ assms(2), of cpus] assms(1) by (simp add: proto_start_def)

text \<open>The stack of stage 2: \<open>apstack_start + (num << 10) - 4\<close>, growing down within 1024 bytes.\<close>

definition STARTAP_STACK_SIZE :: nat where "STARTAP_STACK_SIZE = 0x400"

definition ap_stack_pointer :: "addr \<Rightarrow> u8 \<Rightarrow> addr" where
  "ap_stack_pointer apstack_start num = apstack_start + ucast (push_bit 10 (ucast num :: u32)) - 4"

lemma number_inj:
  assumes "cpus \<subseteq> {1 ..< 80}" and "a \<in> cpus" "b \<in> cpus" "number cpus a = number cpus b"
  shows "a = b"
proof -
  have small: "below cpus (Suc x) < 256" if "x \<in> cpus" for x
    using assms(1) that below_le [of cpus "Suc x"] by force
  from assms(4) have "below cpus (Suc a) = below cpus (Suc b)"
    using small [OF assms(2)] small [OF assms(3)]
    by (simp only: number_def word_of_nat_eq_iff) (simp add: take_bit_nat_eq_self)
  with assms(2,3) show ?thesis by (rule below_inj)
qed

lemma number_range:
  assumes "cpus \<subseteq> {1 ..< 80}" and "a \<in> cpus"
  shows "1 \<le> unat (number cpus a)" and "unat (number cpus a) \<le> card cpus" and "unat (number cpus a) < 80"
proof -
  have le: "below cpus (Suc a) \<le> Suc a" "Suc a \<le> 80" using assms below_le [of cpus "Suc a"] by auto
  have fin: "finite cpus" using assms(1) by (rule finite_subset) simp
  then have card: "below cpus (Suc a) \<le> card cpus" unfolding below_def by (intro card_mono) auto
  have "card cpus \<le> card {1 ..< 80 :: nat}" using assms(1) by (intro card_mono) simp_all
  moreover have "unat (number cpus a) = below cpus (Suc a)"
    using le by (simp add: number_def unsigned_of_nat take_bit_nat_eq_self del: below_Suc)
  ultimately show "1 \<le> unat (number cpus a)" "unat (number cpus a) \<le> card cpus" "unat (number cpus a) < 80"
    using card assms(2) by simp_all
qed

lemma ap_stack_pointer_eq:
  "unat num < 80 \<Longrightarrow> ap_stack_pointer apstack_start num = apstack_start + of_nat (1024 * unat num) - 4"
proof -
  have "(ucast (push_bit 10 (ucast num :: u32)) :: addr) = push_bit 10 (ucast num)"
    by (rule bit_word_eqI) (auto simp: bit_simps dest: bit_imp_le_length)
  also have "\<dots> = of_nat (1024 * unat num)" by (simp add: push_bit_eq_mult mult.commute)
  finally show ?thesis by (simp add: ap_stack_pointer_def)
qed

lemma running_facts:
  assumes "cpus \<subseteq> {1 ..< 80}" and "(punctual func data)\<^sup>*\<^sup>* (boot_state cpus) s"
    and "ap s a = Running i f d"
  shows "a \<in> cpus" and "f = func" and "d = data" and "1 \<le> unat i" and "unat i \<le> card cpus"
    and "ap_stack_pointer base i = base + of_nat (1024 * unat i) - 4"
    and "\<And>b j f' d'. ap s b = Running j f' d' \<Longrightarrow> b \<noteq> a \<Longrightarrow> j \<noteq> i"
proof -
  have inv: "ap_ok cpus func data s x" for x using proto_inv_reachable [OF assms(1,2)] by (simp add: proto_inv_def)
  show a: "a \<in> cpus" "f = func" "d = data" using inv [of a] assms(3) by (simp_all add: ap_ok_def)
  have i: "i = number cpus a" using inv [of a] assms(3) by (simp add: ap_ok_def)
  show "1 \<le> unat i" "unat i \<le> card cpus" unfolding i using number_range [OF assms(1) a(1)] by auto
  show "ap_stack_pointer base i = base + of_nat (1024 * unat i) - 4"
    unfolding i using number_range(3) [OF assms(1) a(1)] by (rule ap_stack_pointer_eq)
  fix b j f' d'
  assume "ap s b = Running j f' d'" "b \<noteq> a"
  then show "j \<noteq> i" using inv [of b] i number_inj [OF assms(1) a(1), of b] by (auto simp: ap_ok_def)
qed

text \<open>C6: However the processors interleave, when they have identifiers from 1 to 79 and the delay ends only after all of
  them have marked themselves, every application processor that runs the published function runs it on the published
  data with its own number, between 1 and the number of processors; the top of its stack lies 1024 bytes per number
  above the stacks' start, and no two have the same number.\<close>

theorem ap_numbers_unique:
  assumes "cpus \<subseteq> {1 ..< 80}" and "(punctual func data)\<^sup>*\<^sup>* (boot_state cpus) s"
    and "ap s a = Running i f d"
  shows "a \<in> cpus \<and> f = func \<and> d = data \<and> 1 \<le> unat i \<and> unat i \<le> card cpus \<and>
    ap_stack_pointer base i = base + of_nat (1024 * unat i) - 4 \<and>
    (\<forall>b j f' d'. ap s b = Running j f' d' \<longrightarrow> b \<noteq> a \<longrightarrow> j \<noteq> i)"
  using running_facts(1-5,7) [OF assms] running_facts(6) [OF assms, of base] by blast

lemma launched_facts:
  assumes "cpus \<subseteq> {1 ..< 80}" and "(punctual func data)\<^sup>*\<^sup>* (boot_state cpus) s" and "bsp s = Launched"
  shows "g_aps_counter s = of_nat (card cpus)" and "g_ready_counter s = g_aps_counter s"
    and "\<forall>a \<in> cpus. \<exists>i f d. ap s a = Counted i \<or> ap s a = Running i f d"
proof -
  have inv: "proto_inv cpus func data s" by (rule proto_inv_reachable [OF assms(1,2)])
  then have ok: "g_aps_counter s = of_nat (card cpus)" "\<forall>a \<in> cpus. has_counted (ap s a)"
    using assms(3) by (auto simp: proto_inv_def bsp_ok_def)
  then show "g_aps_counter s = of_nat (card cpus)" by simp
  have "{a \<in> cpus. has_counted (ap s a)} = cpus" using ok(2) by blast
  then show "g_ready_counter s = g_aps_counter s" using inv ok(1) by (simp add: proto_inv_def)
  show "\<forall>a \<in> cpus. \<exists>i f d. ap s a = Counted i \<or> ap s a = Running i f d"
  proof
    fix a assume "a \<in> cpus"
    with ok(2) have "has_counted (ap s a)" by blast
    then show "\<exists>i f d. ap s a = Counted i \<or> ap s a = Running i f d" by (cases "ap s a") auto
  qed
qed

text \<open>C21: When the woken processors have identifiers from 1 to 79 and the delay ends only after all of them have marked
  themselves, then the boot processor, when it goes on, has counted exactly the processors that were woken, and every
  one of them has announced itself.\<close>

theorem launched_all_ready:
  assumes "cpus \<subseteq> {1 ..< 80}" and "(punctual func data)\<^sup>*\<^sup>* (boot_state cpus) s" and "bsp s = Launched"
  shows "g_aps_counter s = of_nat (card cpus) \<and> g_ready_counter s = g_aps_counter s \<and>
    (\<forall>a \<in> cpus. \<exists>i f d. ap s a = Counted i \<or> ap s a = Running i f d)"
  using launched_facts [OF assms] by blast

text \<open>What a punctual delay leaves in the array.\<close>

definition marks :: "nat set \<Rightarrow> u8 list" where
  "marks cpus = map (\<lambda>i. if i \<in> cpus then 1 else 0) [0 ..< MON_MAX_CPU_SUPPORTED]"

lemma marks_when_punctual:
  assumes "cpus \<subseteq> {1 ..< 80}" and "(punctual func data)\<^sup>*\<^sup>* (boot_state cpus) s"
    and "bsp s = Waiting" and "all_marked s"
  shows "ap_presence_array s = marks cpus"
  using proto_inv_reachable [OF assms(1,2)] assms(3,4)
  by (intro nth_equalityI) (auto simp: marks_def proto_inv_def mark_of_def all_marked_def)

lemma present_marks: "cpus \<subseteq> {1 ..< 80} \<Longrightarrow> present (marks cpus) = cpus"
  by (auto simp: present_def marks_def MON_MAX_CPU_SUPPORTED_def split: if_splits)

lemma enumerate_marks:
  assumes "cpus \<subseteq> {1 ..< 80}"
  shows "fst (bsp_enumerate_aps (marks cpus)) = of_nat (card cpus)"
    and "snd (bsp_enumerate_aps (marks cpus)) = map (\<lambda>i. if i \<in> cpus then number cpus i else 0) [0 ..< 80]"
proof -
  have len: "length (marks cpus) = 80" by (simp add: marks_def MON_MAX_CPU_SUPPORTED_def)
  have ps: "present (marks cpus) \<subseteq> {..<80}" and "1 \<le> length (marks cpus)" using len by (auto simp: present_def)
  then have "bsp_enumerate_aps (marks cpus) = (of_nat (below (present (marks cpus)) 80),
     map (\<lambda>i. if i < 80 \<and> i \<in> present (marks cpus) then of_nat (below (present (marks cpus)) (Suc i)) else marks cpus ! i) [0 ..< 80])"
    unfolding bsp_enumerate_aps_def len by (subst enumerate_prefix) (simp_all add: len)
  then show "fst (bsp_enumerate_aps (marks cpus)) = of_nat (card cpus)"
    "snd (bsp_enumerate_aps (marks cpus)) = map (\<lambda>i. if i \<in> cpus then number cpus i else 0) [0 ..< 80]"
    using below_all [OF ps]
    by (simp_all add: present_marks [OF assms] number_def)
      (simp add: marks_def MON_MAX_CPU_SUPPORTED_def)
qed

section \<open>The protocol ends\<close>

definition bsp_work :: "bsp_pc \<Rightarrow> nat" where
  "bsp_work pc = (case pc of Waiting \<Rightarrow> 84 | Enumerating i _ \<Rightarrow> 84 - i | Publishing \<Rightarrow> 3 | Signalling \<Rightarrow> 2 | Awaiting \<Rightarrow> 1 | Launched \<Rightarrow> 0)"

definition ap_work :: "ap_pc \<Rightarrow> nat" where
  "ap_work pc = (case pc of Off \<Rightarrow> 0 | Woken \<Rightarrow> 5 | Spinning \<Rightarrow> 4 | Stage2 \<Rightarrow> 3 | Numbered _ \<Rightarrow> 2 | Counted _ \<Rightarrow> 1 | _ \<Rightarrow> 0)"

definition work :: "nat set \<Rightarrow> ap_system \<Rightarrow> nat" where
  "work cpus s = bsp_work (bsp s) + (\<Sum>a \<in> cpus. ap_work (ap s a))"

definition all_running :: "nat set \<Rightarrow> ap_system \<Rightarrow> bool" where
  "all_running cpus s \<longleftrightarrow> bsp s = Launched \<and> (\<forall>a \<in> cpus. \<exists>i f d. ap s a = Running i f d)"

lemma work_go:
  assumes "finite cpus" "a \<in> cpus" "ap_work pc < ap_work (ap s a)" "bsp t = bsp s" "ap t = ap s"
  shows "work cpus (go a pc t) < work cpus s"
proof -
  have "(\<Sum>x \<in> cpus. ap_work (((ap s)(a := pc)) x)) < (\<Sum>x \<in> cpus. ap_work (ap s x))"
    using assms by (intro sum_strict_mono_ex1) auto
  with assms show ?thesis by (simp add: work_def ap_go)
qed

lemma work_decreases:
  assumes "cpus \<subseteq> {1 ..< 80}" and "proto_inv cpus func data s" and "punctual func data s s'"
  shows "work cpus s' < work cpus s"
proof -
  have here: "ap_ok cpus func data s a" for a using assms(2) by (simp add: proto_inv_def)
  have fin: "finite cpus" using assms(1) by (rule finite_subset) simp
  have len: "length (ap_presence_array s) = 80" using assms(2) by (simp add: proto_inv_def MON_MAX_CPU_SUPPORTED_def)
  have small: "a < 80" if "a \<in> cpus" for a using that assms(1) by auto
  have boot: "bsp_ok cpus func data s" using assms(2) by (simp add: proto_inv_def)
  show ?thesis using assms(3)
  proof (cases rule: ap_step.cases)
    case (stray a)
    then show ?thesis using here [of a] small len by (fastforce simp: ap_ok_def)
  next
    case (counted i n)
    then show ?thesis using boot by (auto simp: work_def bsp_work_def bsp_ok_def MON_MAX_CPU_SUPPORTED_def)
  next
    case (mark a)
    then show ?thesis using here [of a] by (auto simp: ap_ok_def ap_work_def intro!: work_go [OF fin])
  next
    case (pass a)
    then show ?thesis using here [of a] by (auto simp: ap_ok_def ap_work_def intro!: work_go [OF fin])
  next
    case (read_id a)
    then show ?thesis using here [of a] by (auto simp: ap_ok_def ap_work_def intro!: work_go [OF fin])
  next
    case (count a num)
    then show ?thesis using here [of a] by (auto simp: ap_ok_def ap_work_def intro!: work_go [OF fin])
  next
    case (call a num)
    then show ?thesis using here [of a] by (auto simp: ap_ok_def ap_work_def intro!: work_go [OF fin])
  qed (use len in \<open>auto simp: work_def bsp_work_def mp_set_bootstrap_state_def\<close>)
qed

text \<open>In a state where not everything runs, some step is possible.\<close>

lemma not_stuck:
  assumes "cpus \<subseteq> {1 ..< 80}" and "proto_inv cpus func data s" and "\<not> all_running cpus s"
  shows "\<exists>s'. punctual func data s s'"
proof (rule ccontr)
  assume "\<nexists>s'. punctual func data s s'"
  then have stuck: "\<not> punctual func data s s'" for s' by blast
  have here: "ap_ok cpus func data s a" for a using assms(2) by (simp add: proto_inv_def)
  have off: "ap s a = Off \<or> ap s a = Spinning \<and> mp_bootstrap_state s = MP_BOOTSTRAP_STATE_INIT \<or>
      (\<exists>i f d. ap s a = Running i f d)" for a
    using stuck ap_step.mark [of s a all_marked func data] ap_step.stray [of s a all_marked func data]
      ap_step.pass [of s a all_marked func data] ap_step.read_id [of s a all_marked func data]
      ap_step.count [of s a _ all_marked func data] ap_step.call [of s a _ all_marked func data] here [of a]
      le_less_linear [of "length (ap_presence_array s)" a]
    by (cases "ap s a"; cases "mp_bootstrap_state s") (auto simp: ap_ok_def)
  have running: "\<forall>a \<in> cpus. \<exists>i f d. ap s a = Running i f d"
    if "mp_bootstrap_state s = MP_BOOTSTRAP_STATE_APS_ENUMERATED"
  proof
    fix a assume "a \<in> cpus"
    with off [of a] here [of a] that show "\<exists>i f d. ap s a = Running i f d" by (auto simp: ap_ok_def)
  qed
  have boot: "bsp_ok cpus func data s" and ready: "g_ready_counter s = of_nat (card {a \<in> cpus. has_counted (ap s a)})"
    using assms(2) by (simp_all add: proto_inv_def)
  show False
  proof (cases "bsp s")
    case Waiting
    moreover have "all_marked s" unfolding all_marked_def
    proof
      fix a show "ap s a \<noteq> Woken" using off [of a] by auto
    qed
    ultimately show False using stuck ap_step.timeout by blast
  next
    case (Enumerating i n)
    then show False
      using stuck ap_step.enumerate [OF Enumerating] ap_step.counted [OF Enumerating]
        le_less_linear [of "length (ap_presence_array s)" i] by (metis surj_pair)
  next
    case Publishing
    then show False using stuck ap_step.publish by blast
  next
    case Signalling
    then show False using stuck ap_step.signal by blast
  next
    case Awaiting
    then have "\<forall>a \<in> cpus. \<exists>i f d. ap s a = Running i f d" using boot by (intro running) (simp add: bsp_ok_def)
    then have "{a \<in> cpus. has_counted (ap s a)} = cpus" by fastforce
    then have "g_ready_counter s = g_aps_counter s" using ready boot Awaiting by (simp add: bsp_ok_def)
    with Awaiting show False using stuck ap_step.all_ready by blast
  next
    case Launched
    then have "\<forall>a \<in> cpus. \<exists>i f d. ap s a = Running i f d"
      using boot running by (cases "cpus = {}") (simp_all add: bsp_ok_def)
    with Launched assms(3) show False by (simp add: all_running_def)
  qed
qed

lemma hand_over_reaches:
  assumes "cpus \<subseteq> {1 ..< 80}" and "proto_inv cpus func data s"
  shows "\<exists>s'. (punctual func data)\<^sup>*\<^sup>* s s' \<and> all_running cpus s'"
  using assms(2)
proof (induction "work cpus s" arbitrary: s rule: less_induct)
  case less
  show ?case
  proof (cases "all_running cpus s")
    case False
    then obtain t where t: "punctual func data s t" using not_stuck [OF assms(1) less.prems] by blast
    from less.hyps [OF work_decreases [OF assms(1) less.prems t] proto_inv_step [OF assms(1) less.prems t]]
    show ?thesis using t by (meson converse_rtranclp_into_rtranclp)
  qed blast
qed

lemma hand_over_facts:
  assumes "cpus \<subseteq> {1 ..< 80}" and "(punctual func data)\<^sup>*\<^sup>* (boot_state cpus) s"
  shows "all_running cpus s \<or> (\<exists>s'. punctual func data s s')"
    and "\<And>s'. punctual func data s s' \<Longrightarrow> work cpus s' < work cpus s"
    and "\<exists>s'. (punctual func data)\<^sup>*\<^sup>* s s' \<and> all_running cpus s'"
proof -
  have inv: "proto_inv cpus func data s" by (rule proto_inv_reachable [OF assms])
  then show "all_running cpus s \<or> (\<exists>s'. punctual func data s s')" using not_stuck [OF assms(1)] by blast
  show "\<And>s'. punctual func data s s' \<Longrightarrow> work cpus s' < work cpus s" by (rule work_decreases [OF assms(1) inv])
  show "\<exists>s'. (punctual func data)\<^sup>*\<^sup>* s s' \<and> all_running cpus s'" by (rule hand_over_reaches [OF assms(1) inv])
qed

text \<open>C12: When the woken processors have identifiers from 1 to 79 and the delay ends only after all of them have marked
  themselves, the hand-over cannot get stuck:
  from every state it can come to there is a step unless the boot processor has gone on and every
  processor runs, each step leaves less work, and such a final state can be reached.\<close>

theorem hand_over_completes:
  assumes "cpus \<subseteq> {1 ..< 80}" and "(punctual func data)\<^sup>*\<^sup>* (boot_state cpus) s"
  shows "(all_running cpus s \<or> (\<exists>s'. punctual func data s s')) \<and>
    (\<forall>s'. punctual func data s s' \<longrightarrow> work cpus s' < work cpus s) \<and>
    (\<exists>s'. (punctual func data)\<^sup>*\<^sup>* s s' \<and> all_running cpus s')"
  using hand_over_facts [OF assms] by blast

text \<open>Two processors, with the identifiers 3 and 5.\<close>

lemma demo_run: "\<exists>s. (punctual 0x1000 0x2000)\<^sup>*\<^sup>* (boot_state {3, 5}) s \<and> all_running {3, 5} s"
  by (rule hand_over_reaches) (simp_all add: proto_inv_boot)

theorem ap_numbers_unique_witness:
  "\<exists>s i j. (punctual 0x1000 0x2000)\<^sup>*\<^sup>* (boot_state {3, 5}) s \<and>
     ap s 3 = Running i 0x1000 0x2000 \<and> ap s 5 = Running j 0x1000 0x2000 \<and> j \<noteq> i"
proof -
  obtain s where s: "(punctual 0x1000 0x2000)\<^sup>*\<^sup>* (boot_state {3, 5}) s" "all_running {3, 5} s"
    using demo_run by blast
  then obtain i f d j f' d' where r: "ap s 3 = Running i f d" "ap s 5 = Running j f' d'"
    by (auto simp: all_running_def)
  have sub: "{3, 5} \<subseteq> {1 ..< 80 :: nat}" by simp
  have "(5 :: nat) \<noteq> 3" by simp
  then have "f = 0x1000" "d = 0x2000" "f' = 0x1000" "d' = 0x2000" "j \<noteq> i"
    using ap_numbers_unique [OF sub s(1) r(1), where base = 0] ap_numbers_unique [OF sub s(1) r(2), where base = 0] r(2)
    by blast+
  with s(1) r show ?thesis by blast
qed

theorem launched_all_ready_witness:
  "\<exists>s. (punctual 0x1000 0x2000)\<^sup>*\<^sup>* (boot_state {3, 5}) s \<and> bsp s = Launched \<and> g_ready_counter s = 2"
proof -
  obtain s where s: "(punctual 0x1000 0x2000)\<^sup>*\<^sup>* (boot_state {3, 5}) s" "bsp s = Launched"
    using demo_run by (auto simp: all_running_def)
  have sub: "{3, 5} \<subseteq> {1 ..< 80 :: nat}" by simp
  show ?thesis using launched_all_ready [OF sub s] s by auto
qed

theorem hand_over_completes_witness:
  "\<exists>s'. (punctual 0x1000 0x2000)\<^sup>*\<^sup>* (boot_state {3, 5}) s' \<and> all_running {3, 5} s'"
proof -
  have "{3, 5} \<subseteq> {1 ..< 80 :: nat}" by simp
  from hand_over_completes [OF this rtranclp.rtrancl_refl] show ?thesis by blast
qed

section \<open>When the assumptions fail\<close>

text \<open>Undisturbed, the boot processor's steps are the loop of \<open>bsp_enumerate_aps\<close>.\<close>

lemma enumerate_run:
  assumes "bsp s = Enumerating i n" and "i \<le> length (ap_presence_array s)"
  shows "(ap_step timeout_ok func data)\<^sup>*\<^sup>* s
    (s\<lparr>ap_presence_array := snd (fold enumerate_at [i ..< length (ap_presence_array s)] (n, ap_presence_array s)),
       bsp := Enumerating (length (ap_presence_array s))
         (fst (fold enumerate_at [i ..< length (ap_presence_array s)] (n, ap_presence_array s)))\<rparr>)"
  using assms
proof (induction "length (ap_presence_array s) - i" arbitrary: s i n)
  case 0
  then have "s\<lparr>bsp := Enumerating i n\<rparr> = s" by (cases s) simp
  then have "(ap_step timeout_ok func data)\<^sup>*\<^sup>* s (s\<lparr>bsp := Enumerating i n\<rparr>)" by (metis rtranclp.rtrancl_refl)
  with 0 show ?case by simp
next
  case (Suc k)
  let ?r = "enumerate_at i (n, ap_presence_array s)"
  let ?t = "s\<lparr>ap_presence_array := snd ?r, bsp := Enumerating (i + 1) (fst ?r)\<rparr>"
  have lt: "i < length (ap_presence_array s)" using Suc(2) by simp
  have len: "length (snd ?r) = length (ap_presence_array s)" by (simp add: enumerate_at_def)
  have "ap_step timeout_ok func data s ?t" using Suc.prems(1) lt by (rule ap_step.enumerate) simp
  moreover have "[i ..< length (ap_presence_array s)] = i # [Suc i ..< length (ap_presence_array s)]"
    using lt by (rule upt_conv_Cons)
  ultimately show ?case using Suc.hyps(1) [of ?t "i + 1" "fst ?r"] Suc(2) lt len
    by (simp add: converse_rtranclp_into_rtranclp)
qed

definition leads :: "(ap_system \<Rightarrow> bool) \<Rightarrow> ap_system \<Rightarrow> (ap_system \<Rightarrow> bool) \<Rightarrow> bool" where
  "leads timeout_ok s P \<longleftrightarrow> (\<exists>t. (ap_step timeout_ok 0x1000 0x2000)\<^sup>*\<^sup>* s t \<and> P t)"

lemma leads_step: "ap_step timeout_ok 0x1000 0x2000 s t \<Longrightarrow> leads timeout_ok t P \<Longrightarrow> leads timeout_ok s P"
  unfolding leads_def by (meson converse_rtranclp_into_rtranclp)

lemma leads_enumerate:
  assumes "bsp s = Enumerating 1 0" "ap_presence_array s \<noteq> []"
    and "bsp_enumerate_aps (ap_presence_array s) = (n, a)"
    and "leads timeout_ok (s\<lparr>ap_presence_array := a, bsp := Enumerating (length (ap_presence_array s)) n\<rparr>) P"
  shows "leads timeout_ok s P"
proof -
  have "1 \<le> length (ap_presence_array s)" using assms(2) by (cases "ap_presence_array s") auto
  from enumerate_run [OF assms(1) this, of timeout_ok "0x1000" "0x2000"] assms(3,4)
  show ?thesis unfolding leads_def bsp_enumerate_aps_def by (auto intro: rtranclp_trans)
qed

lemma leads_here: "P s \<Longrightarrow> leads timeout_ok s P"
  unfolding leads_def by blast

lemma two_marks: "bsp_enumerate_aps ((replicate 80 0)[0 := 1, 3 := 1]) = (1, (replicate 80 0)[0 := 1, 3 := 1])"
  by code_simp

lemma one_mark: "bsp_enumerate_aps ((replicate 80 0)[3 := 1]) = (1, (replicate 80 0)[3 := 1])"
  by code_simp

lemmas path_simps = go_def boot_state_def ap_intialize_environment_def mp_set_bootstrap_state_def MON_MAX_CPU_SUPPORTED_def

lemma zero_path: "leads all_marked (boot_state {0, 3}) (\<lambda>s. ap s 0 = Numbered 1 \<and> ap s 3 = Numbered 1)"
  apply (rule leads_step, rule ap_step.mark [where a = 0], (simp add: path_simps; fail)+)
  apply (rule leads_step, rule ap_step.mark [where a = 3], (simp add: path_simps; fail)+)
  apply (rule leads_step, rule ap_step.timeout, (simp add: path_simps all_marked_def; fail)+)
  apply (rule leads_enumerate, (simp add: path_simps two_marks; fail)+)
  apply (rule leads_step, rule ap_step.counted, (simp add: path_simps; fail)+)
  apply (rule leads_step, rule ap_step.publish, (simp add: path_simps; fail)+)
  apply (rule leads_step, rule ap_step.signal, (simp add: path_simps; fail)+)
  apply (rule leads_step, rule ap_step.pass [where a = 0], (simp add: path_simps; fail)+)
  apply (rule leads_step, rule ap_step.pass [where a = 3], (simp add: path_simps; fail)+)
  apply (rule leads_step, rule ap_step.read_id [where a = 0], (simp add: path_simps; fail)+)
  apply (rule leads_step, rule ap_step.read_id [where a = 3], (simp add: path_simps; fail)+)
  by (rule leads_here) (simp add: path_simps)

lemma late_path: "leads (\<lambda>_. True) (boot_state {3, 5}) (\<lambda>s. ap s 3 = Numbered 1 \<and> ap s 5 = Numbered 1)"
  apply (rule leads_step, rule ap_step.mark [where a = 3], (simp add: path_simps; fail)+)
  apply (rule leads_step, rule ap_step.timeout, (simp add: path_simps; fail)+)
  apply (rule leads_enumerate, (simp add: path_simps one_mark; fail)+)
  apply (rule leads_step, rule ap_step.counted, (simp add: path_simps; fail)+)
  apply (rule leads_step, rule ap_step.publish, (simp add: path_simps; fail)+)
  apply (rule leads_step, rule ap_step.signal, (simp add: path_simps; fail)+)
  apply (rule leads_step, rule ap_step.mark [where a = 5], (simp add: path_simps; fail)+)
  apply (rule leads_step, rule ap_step.pass [where a = 3], (simp add: path_simps; fail)+)
  apply (rule leads_step, rule ap_step.pass [where a = 5], (simp add: path_simps; fail)+)
  apply (rule leads_step, rule ap_step.read_id [where a = 3], (simp add: path_simps; fail)+)
  apply (rule leads_step, rule ap_step.read_id [where a = 5], (simp add: path_simps; fail)+)
  by (rule leads_here) (simp add: path_simps)

text \<open>Two runs outside these assumptions. The enumeration starts at entry 1, so the processor with the identifier 0
  keeps its mark in the first, and is number 1 like the one that is enumerated first;
  and so is the processor that marks itself after the enumeration in the second.\<close>

lemma ap_numbers_clash:
  "(\<exists>s. (punctual 0x1000 0x2000)\<^sup>*\<^sup>* (boot_state {0, 3}) s \<and> ap s 0 = Numbered 1 \<and> ap s 3 = Numbered 1) \<and>
   (\<exists>s. (ap_step (\<lambda>_. True) 0x1000 0x2000)\<^sup>*\<^sup>* (boot_state {3, 5}) s \<and> ap s 3 = Numbered 1 \<and> ap s 5 = Numbered 1)"
  using zero_path late_path by (simp_all add: leads_def)

end
