(* ===== verification/Ap_Turns.thy ===== *)
theory Ap_Turns
  imports Ap_Handover
begin

text \<open>
  The application processors as functions: one turn of a processor is its next step of the protocol, if it has one, and a
  schedule says which processors take turns. What a fair schedule leads to, from the wake-up to the full ready counter.
\<close>

section \<open>Turns\<close>

definition ap_turn :: "nat \<Rightarrow> ap_system \<Rightarrow> ap_system" where
  "ap_turn a s = (case ap s a of
     Woken \<Rightarrow> if a < length (ap_presence_array s)
       then go a Spinning (s\<lparr>ap_presence_array := (ap_presence_array s)[a := 1]\<rparr>) else go a Astray s
   | Spinning \<Rightarrow> if mp_bootstrap_state s = MP_BOOTSTRAP_STATE_APS_ENUMERATED then go a Stage2 s else s
   | Stage2 \<Rightarrow> go a (Numbered (ap_presence_array s ! a)) s
   | Numbered num \<Rightarrow> go a (Counted num) (s\<lparr>g_ready_counter := g_ready_counter s + 1\<rparr>)
   | Counted num \<Rightarrow> go a (Running num (g_user_func s) (g_any_data_for_user_func s)) s
   | _ \<Rightarrow> s)"

lemma ap_turn_step: "ap_turn a s = s \<or> ap_step timeout_ok func data s (ap_turn a s)"
  by (cases "ap s a") (auto simp: ap_turn_def intro: ap_step.intros)

lemma turns_reach: "(ap_step timeout_ok func data)\<^sup>*\<^sup>* s (fold ap_turn as s)"
proof (induction as arbitrary: s)
  case (Cons a as)
  then show ?case
    using ap_turn_step [of a s timeout_ok func data] by (metis converse_rtranclp_into_rtranclp fold_simps(2))
qed simp

lemma ap_turn_frame:
  "bsp (ap_turn a s) = bsp s" "mp_bootstrap_state (ap_turn a s) = mp_bootstrap_state s"
  "g_aps_counter (ap_turn a s) = g_aps_counter s" "g_user_func (ap_turn a s) = g_user_func s"
  "g_any_data_for_user_func (ap_turn a s) = g_any_data_for_user_func s"
  "b \<noteq> a \<Longrightarrow> ap (ap_turn a s) b = ap s b"
  by (cases "ap s a"; simp add: ap_turn_def go_def)+

lemma turns_frame [simp]:
  "bsp (fold ap_turn as s) = bsp s" "mp_bootstrap_state (fold ap_turn as s) = mp_bootstrap_state s"
  "g_aps_counter (fold ap_turn as s) = g_aps_counter s" "g_user_func (fold ap_turn as s) = g_user_func s"
  "g_any_data_for_user_func (fold ap_turn as s) = g_any_data_for_user_func s"
  by (induction as arbitrary: s) (simp_all add: ap_turn_frame)

lemma turns_woken: "ap (fold ap_turn as s) a = Woken \<Longrightarrow> a \<notin> set as \<and> ap s a = Woken"
proof (induction as arbitrary: s)
  case (Cons b as)
  then have "a \<notin> set as" "ap (ap_turn b s) a = Woken" by simp_all
  moreover have "ap (ap_turn a s) a \<noteq> Woken" by (cases "ap s a") (simp_all add: ap_turn_def go_def)
  ultimately show ?case using ap_turn_frame(6) [of a b s] by (cases "a = b") auto
qed simp

text \<open>After the signal every turn of a processor brings it nearer to the published function.\<close>

lemma ap_turn_work:
  assumes "mp_bootstrap_state s = MP_BOOTSTRAP_STATE_APS_ENUMERATED"
  shows "ap_work (ap (ap_turn b s) a) \<le> ap_work (ap s a) - (if b = a then 1 else 0)"
  using assms ap_turn_frame(6) [of a b s]
  by (cases "b = a"; cases "ap s a") (simp_all add: ap_turn_def go_def ap_work_def)

lemma turns_work:
  "mp_bootstrap_state s = MP_BOOTSTRAP_STATE_APS_ENUMERATED \<Longrightarrow>
   ap_work (ap (fold ap_turn as s) a) \<le> ap_work (ap s a) - count_list as a"
proof (induction as arbitrary: s)
  case (Cons b as)
  from Cons.IH [of "ap_turn b s"] Cons.prems ap_turn_work [OF Cons.prems, of b a] show ?case
    by (cases "b = a") (auto simp: ap_turn_frame)
qed simp

section \<open>Schedules\<close>

text \<open>\<open>turns k\<close> are the turns between the k-th look of the boot processor and the next; every processor has its turn again and again.\<close>

definition aps_run :: "(nat \<Rightarrow> nat list) \<Rightarrow> nat \<Rightarrow> ap_system \<Rightarrow> ap_system" where
  "aps_run turns n s = fold ap_turn (concat (map turns [0 ..< n])) s"

definition fair :: "nat set \<Rightarrow> (nat \<Rightarrow> nat list) \<Rightarrow> bool" where
  "fair cpus turns \<longleftrightarrow> (\<forall>a \<in> cpus. \<forall>n. \<exists>k \<ge> n. a \<in> set (turns k))"

lemma turns_upto: "n \<le> k \<Longrightarrow> concat (map turns [0 ..< k]) = concat (map turns [0 ..< n]) @ concat (map turns [n ..< k])"
  using upt_add_eq_append [of 0 n "k - n"] by simp

lemma count_turns_mono: "n \<le> k \<Longrightarrow> count_list (concat (map turns [0 ..< n])) a \<le> count_list (concat (map turns [0 ..< k])) a"
  by (simp add: turns_upto [of n k])

lemma fair_turns:
  assumes "fair cpus turns" and "a \<in> cpus"
  shows "\<exists>n. m \<le> count_list (concat (map turns [0 ..< n])) a"
proof (induction m)
  case (Suc m)
  then obtain n where n: "m \<le> count_list (concat (map turns [0 ..< n])) a" by blast
  obtain k where k: "k \<ge> n" "a \<in> set (turns k)" using assms by (auto simp: fair_def)
  have "count_list (turns k) a \<noteq> 0" using k(2) by (simp add: count_list_0_iff)
  then have "Suc m \<le> count_list (concat (map turns [0 ..< Suc k])) a"
    using n count_turns_mono [OF k(1), of turns a] by simp
  then show ?case by blast
qed simp

lemma fair_all:
  assumes "fair cpus turns" and "finite cpus"
  shows "\<exists>n. \<forall>a \<in> cpus. m \<le> count_list (concat (map turns [0 ..< n])) a"
proof -
  have "\<forall>a. \<exists>n. a \<in> cpus \<longrightarrow> m \<le> count_list (concat (map turns [0 ..< n])) a" using fair_turns [OF assms(1)] by blast
  then obtain f where f: "\<forall>a \<in> cpus. m \<le> count_list (concat (map turns [0 ..< f a])) a" by metis
  have "m \<le> count_list (concat (map turns [0 ..< Max (f ` cpus)])) a" if "a \<in> cpus" for a
    using f that assms(2) count_turns_mono [of "f a" "Max (f ` cpus)" turns a] by fastforce
  then show ?thesis by blast
qed

section \<open>From the wake-up to the full counter\<close>

definition wake :: "nat set \<Rightarrow> ap_system \<Rightarrow> ap_system" where
  "wake cpus s = s\<lparr>ap := (\<lambda>a. if a \<in> cpus then Woken else Off)\<rparr>"

text \<open>The variables as the loaded image has them, before the boot processor's first store.\<close>

definition fresh_system :: "ap_system \<Rightarrow> bool" where
  "fresh_system s \<longleftrightarrow> ap_presence_array s = replicate MON_MAX_CPU_SUPPORTED 0 \<and> g_aps_counter s = 0 \<and> bsp s = Waiting"

lemma wake_fresh: "fresh_system s \<Longrightarrow> wake cpus (ap_intialize_environment s) = boot_state cpus"
  by (simp add: fresh_system_def wake_def boot_state_def ap_intialize_environment_def)

lemma delay_marks:
  assumes "cpus \<subseteq> {1 ..< 80}" and "cpus \<subseteq> set delay"
  shows "all_marked (fold ap_turn delay (boot_state cpus))" and "ap_presence_array (fold ap_turn delay (boot_state cpus)) = marks cpus"
proof -
  show marked: "all_marked (fold ap_turn delay (boot_state cpus))"
    unfolding all_marked_def
  proof (intro allI notI)
    fix a assume "ap (fold ap_turn delay (boot_state cpus)) a = Woken"
    then have "a \<notin> set delay" "ap (boot_state cpus) a = Woken" using turns_woken by blast+
    then show False using assms(2) by (auto simp: boot_state_def ap_intialize_environment_def split: if_splits)
  qed
  have "bsp (boot_state cpus) = Waiting" by (simp add: boot_state_def ap_intialize_environment_def)
  then show "ap_presence_array (fold ap_turn delay (boot_state cpus)) = marks cpus"
    by (intro marks_when_punctual [OF assms(1) turns_reach _ marked]) simp
qed

text \<open>What the boot processor makes of that state: the processors numbered, the function published, the signal given.\<close>

definition enumerated :: "nat set \<Rightarrow> ap_system \<Rightarrow> ap_system" where
  "enumerated cpus s = s\<lparr>ap_presence_array := map (\<lambda>i. if i \<in> cpus then number cpus i else 0) [0 ..< 80],
     g_aps_counter := of_nat (card cpus)\<rparr>"

definition released_system :: "addr \<Rightarrow> addr \<Rightarrow> ap_system \<Rightarrow> ap_system" where
  "released_system func data s = mp_set_bootstrap_state MP_BOOTSTRAP_STATE_APS_ENUMERATED
     (s\<lparr>g_user_func := func, g_any_data_for_user_func := data, bsp := Awaiting\<rparr>)"

lemma card_cpus_word:
  fixes cpus :: "nat set"
  assumes "cpus \<subseteq> {1 ..< 80}"
  shows "(ucast (of_nat (card cpus) :: u8) :: u32) = of_nat (card cpus)" and "(of_nat (card cpus) :: u8) = 0 \<longleftrightarrow> cpus = {}"
    and "(of_nat (card cpus) :: u32) > 0 \<longleftrightarrow> cpus \<noteq> {}"
proof -
  have "finite cpus" using assms by (rule finite_subset) simp
  moreover have "card cpus \<le> card {1 ..< 80 :: nat}" using assms by (intro card_mono) simp_all
  ultimately show "(ucast (of_nat (card cpus) :: u8) :: u32) = of_nat (card cpus)" "(of_nat (card cpus) :: u8) = 0 \<longleftrightarrow> cpus = {}"
    "(of_nat (card cpus) :: u32) > 0 \<longleftrightarrow> cpus \<noteq> {}"
    by (simp_all add: unsigned_of_nat take_bit_nat_eq_self word_less_nat_alt card_gt_0_iff unat_eq_zero flip: unat_eq_zero)
qed

lemma released_reachable:
  assumes "cpus \<subseteq> {1 ..< 80}" and "cpus \<noteq> {}" and "cpus \<subseteq> set delay"
  shows "(punctual func data)\<^sup>*\<^sup>* (boot_state cpus)
    (released_system func data (enumerated cpus (fold ap_turn delay (boot_state cpus))))"
proof -
  let ?s = "fold ap_turn delay (boot_state cpus)" and ?R = "(punctual func data)\<^sup>*\<^sup>*"
  note marks = delay_marks [OF assms(1,3)]
  have wait: "bsp ?s = Waiting" by (simp add: boot_state_def ap_intialize_environment_def)
  let ?t = "?s\<lparr>bsp := Enumerating 1 0\<rparr>"
  have "punctual func data ?s ?t" using ap_step.timeout [of ?s all_marked func data] wait marks(1) by simp
  moreover have len: "length (marks cpus) = 80" by (simp add: marks_def MON_MAX_CPU_SUPPORTED_def)
  let ?a = "map (\<lambda>i. if i \<in> cpus then number cpus i else 0) [0 ..< 80]"
  have enum: "fold enumerate_at [1 ..< length (ap_presence_array ?t)] (0, ap_presence_array ?t) = (of_nat (card cpus), ?a)"
    using enumerate_marks [OF assms(1)] marks(2) len by (simp add: bsp_enumerate_aps_def prod_eq_iff)
  let ?u = "?t\<lparr>ap_presence_array := ?a, bsp := Enumerating 80 (of_nat (card cpus))\<rparr>"
  have "?R ?t ?u"
    using enumerate_run [of ?t 1 0 all_marked func data] marks(2) len unfolding enum by simp
  moreover have "punctual func data ?u (?u\<lparr>g_aps_counter := of_nat (card cpus), bsp := Publishing\<rparr>)"
    using ap_step.counted [of ?u 80 "of_nat (card cpus)" all_marked func data] card_cpus_word [OF assms(1)] assms(2) by simp
  moreover have "punctual func data (?u\<lparr>g_aps_counter := of_nat (card cpus), bsp := Publishing\<rparr>)
      (?u\<lparr>g_aps_counter := of_nat (card cpus), g_user_func := func, g_any_data_for_user_func := data, bsp := Signalling\<rparr>)"
    using ap_step.publish [of "?u\<lparr>g_aps_counter := of_nat (card cpus), bsp := Publishing\<rparr>" all_marked func data] by simp
  moreover have "punctual func data
      (?u\<lparr>g_aps_counter := of_nat (card cpus), g_user_func := func, g_any_data_for_user_func := data, bsp := Signalling\<rparr>)
      (released_system func data (enumerated cpus ?s))"
    using ap_step.signal [of "?u\<lparr>g_aps_counter := of_nat (card cpus), g_user_func := func,
        g_any_data_for_user_func := data, bsp := Signalling\<rparr>" all_marked func data]
    by (simp add: released_system_def enumerated_def mp_set_bootstrap_state_def)
  ultimately show ?thesis
    using turns_reach [of all_marked func data "boot_state cpus" delay] by (meson rtranclp.rtrancl_into_rtrancl rtranclp_trans)
qed

text \<open>A fair schedule fills the counter.\<close>

lemma fair_ready:
  assumes "cpus \<subseteq> {1 ..< 80}" and "(punctual func data)\<^sup>*\<^sup>* (boot_state cpus) s" and "bsp s = Awaiting" and "fair cpus turns"
  shows "\<exists>n. g_ready_counter (aps_run turns n s) = of_nat (card cpus)"
proof -
  have inv: "proto_inv cpus func data s" by (rule proto_inv_reachable [OF assms(1,2)])
  then have mp: "mp_bootstrap_state s = MP_BOOTSTRAP_STATE_APS_ENUMERATED" using assms(3) by (simp add: proto_inv_def bsp_ok_def)
  have "finite cpus" using assms(1) by (rule finite_subset) simp
  from fair_all [OF assms(4) this] obtain n where n: "\<forall>a \<in> cpus. 5 \<le> count_list (concat (map turns [0 ..< n])) a" by blast
  have "(punctual func data)\<^sup>*\<^sup>* (boot_state cpus) (aps_run turns n s)"
    using assms(2) turns_reach unfolding aps_run_def by (rule rtranclp_trans)
  then have inv2: "proto_inv cpus func data (aps_run turns n s)" by (rule proto_inv_reachable [OF assms(1)])
  have "has_counted (ap (aps_run turns n s) a)" if a: "a \<in> cpus" for a
  proof -
    have "ap_work (ap s a) \<le> 5" by (cases "ap s a") (simp_all add: ap_work_def)
    then have "ap_work (ap (aps_run turns n s) a) = 0"
      using turns_work [OF mp, of "concat (map turns [0 ..< n])" a] n a by (fastforce simp: aps_run_def)
    moreover have "ap_ok cpus func data (aps_run turns n s) a" using inv2 by (simp add: proto_inv_def)
    ultimately show ?thesis using a by (cases "ap (aps_run turns n s) a") (simp_all add: ap_work_def ap_ok_def)
  qed
  then have "{a \<in> cpus. has_counted (ap (aps_run turns n s) a)} = cpus" by blast
  then have "g_ready_counter (aps_run turns n s) = of_nat (card cpus)" using inv2 by (simp add: proto_inv_def)
  then show ?thesis by blast
qed

end
