(* ===== verification/Startap.thy ===== *)
theory Startap
  imports Ap_Code Ap_Ipi Ap_Turns Xmon_Desc
begin

text \<open>
  The program that wakes the application processors and enters xmon on all of them:
  \<open>startap/startap.c\<close> and \<open>ap_procs_startup\<close>, \<open>ap_procs_run\<close> of \<open>startap/ap_procs_init.c\<close>, composed of
  the code page, the interrupts and the enumeration. What happens outside the boot processor is in
  \<open>environment\<close>: the clock and the local APIC, the processors that the interrupts wake, and when these take their turns:
  during the delay (\<open>env_delay\<close>) and between the looks at the ready counter (\<open>env_turns\<close>). What a processor does in its
  turn is a step of the protocol (\<open>ap_turn\<close>). Between the delay and the signal they only spin. The field \<open>bsp\<close> of the
  protocol's state, where the boot processor is, is set to \<open>Awaiting\<close> and \<open>Launched\<close>. \<open>UNIPROC\<close> is not defined.
\<close>

record application_params_struct =
  any_data1 :: addr
  any_data2 :: addr
  any_data3 :: addr
  ep :: u64

record environment =
  env_clock :: clock
  env_pending :: "nat \<Rightarrow> bool"
  env_setup :: ap_setup
  env_post_os :: "u32 \<Rightarrow> bool"
  env_apic_ids :: "u8 list"
  env_cpus :: "nat set"
  env_delay :: "nat list"
  env_turns :: "nat \<Rightarrow> nat list"
  env_start_application :: addr
  env_params :: addr

record startap_state =
  st_mem :: mem
  st_io :: bsp_io
  st_sys :: ap_system
  gp_init32_data :: "init32_struct option"
  application_params :: application_params_struct

definition INITIAL_WAIT_FOR_APS_TIMEOUT_IN_MILIS :: u64 where "INITIAL_WAIT_FOR_APS_TIMEOUT_IN_MILIS = 750000"

definition ap_procs_startup ::
  "environment \<Rightarrow> init32_struct option \<Rightarrow> mon_startup \<Rightarrow> startap_state \<Rightarrow> (u32 \<times> startap_state) option" where
  "ap_procs_startup E p_init32_data p_startup s =
     (case p_init32_data of
        None \<Rightarrow> Some (-1, s)
      | Some d \<Rightarrow>
          if i32_low_memory_page d = 0 then Some (-1, s)
          else
            let s = s\<lparr>st_sys := ap_intialize_environment (st_sys s)\<rparr>;
                s = s\<lparr>gp_init32_data := Some d\<rparr>;
                s = s\<lparr>st_mem := setup_low_memory_ap_code gdtr_packed (env_setup E) (ucast (i32_low_memory_page d)) (st_mem s)\<rparr>
            in Option.bind
                 (if \<not> env_post_os E (mon_flags p_startup)
                  then send_broadcast_init_sipi (env_clock E) (env_pending E) (i32_low_memory_page d) (st_io s)
                  else send_targeted_init_sipi (env_clock E) (env_pending E) (i32_low_memory_page d)
                    (take (unat (number_of_processors_at_boot_time p_startup)) (env_apic_ids E)) (st_io s)) (\<lambda>io.
               Option.bind (startap_stall_using_tsc (env_clock E) INITIAL_WAIT_FOR_APS_TIMEOUT_IN_MILIS io) (\<lambda>io.
               let sys = fold ap_turn (env_delay E) (wake (env_cpus E) (st_sys s));
                   (ap_num, a) = bsp_enumerate_aps (ap_presence_array sys);
                   sys = sys\<lparr>ap_presence_array := a, g_aps_counter := ucast ap_num\<rparr>
               in Some (g_aps_counter sys, s\<lparr>st_io := io, st_sys := sys\<rparr>))))"

partial_function (option) wait_ready :: "(nat \<Rightarrow> u32) \<Rightarrow> u32 \<Rightarrow> nat \<Rightarrow> nat option" where
  "wait_ready ready aps n = (if ready n \<noteq> aps then wait_ready ready aps (n + 1) else Some n)"

definition ap_procs_run :: "environment \<Rightarrow> addr \<Rightarrow> addr \<Rightarrow> startap_state \<Rightarrow> startap_state option" where
  "ap_procs_run E continue_ap_boot_func any_data s =
     (let sys = (st_sys s)\<lparr>g_user_func := continue_ap_boot_func, g_any_data_for_user_func := any_data\<rparr>;
          sys = mp_set_bootstrap_state MP_BOOTSTRAP_STATE_APS_ENUMERATED (sys\<lparr>bsp := Awaiting\<rparr>)
      in map_option (\<lambda>n. s\<lparr>st_sys := (aps_run (env_turns E) n sys)\<lparr>bsp := Launched\<rparr>\<rparr>)
           (wait_ready (\<lambda>n. g_ready_counter (aps_run (env_turns E) n sys)) (g_aps_counter sys) 0))"

text \<open>The call of xmon's entry point, as \<open>call_xmon_entry\<close> is given it.\<close>

record xmon_call =
  xc_entry :: u64
  xc_local_apic_id :: u32
  xc_data :: "addr \<times> addr \<times> addr"

definition start_application :: "u32 \<Rightarrow> application_params_struct \<Rightarrow> xmon_call" where
  "start_application cpu_id params =
     \<lparr>xc_entry = ep params, xc_local_apic_id = cpu_id,
      xc_data = (any_data1 params, any_data2 params, any_data3 params)\<rparr>"

definition startap_main ::
  "environment \<Rightarrow> init32_struct option \<Rightarrow> addr \<Rightarrow> mon_startup \<Rightarrow> u32 \<Rightarrow> startap_state
     \<Rightarrow> (xmon_call \<times> mon_startup \<times> startap_state) option" where
  "startap_main E p_init32 startup_addr p_startup entry_point s =
     Option.bind (case p_init32 of None \<Rightarrow> Some (0, s) | Some _ \<Rightarrow> ap_procs_startup E p_init32 p_startup s)
       (\<lambda>(application_procesors, s).
          let p_startup = (if \<not> env_post_os E (mon_flags p_startup)
                           then p_startup\<lparr>number_of_processors_at_boot_time := application_procesors + 1\<rparr> else p_startup);
              s = s\<lparr>application_params :=
                \<lparr>any_data1 = startup_addr, any_data2 = 0, any_data3 = 0, ep = ucast entry_point\<rparr>\<rparr>
          in map_option (\<lambda>s. (start_application 0 (application_params s), p_startup, s))
               (if application_procesors > 0
                then ap_procs_run E (env_start_application E) (env_params E) s else Some s))"

section \<open>Waiting for the ready counter\<close>

interpretation ready: polling "wait_ready ready aps" "\<lambda>n. ready n = aps" "\<lambda>n. n" Suc
  for ready :: "nat \<Rightarrow> u32" and aps :: u32
  by unfold_locales (subst wait_ready.simps, simp)

lemma Suc_pow: "(Suc ^^ k) n = n + k" by (induction k) simp_all

lemma wait_ready_returns: "ready k = aps \<Longrightarrow> \<exists>n. wait_ready ready aps 0 = Some n \<and> ready n = aps"
  using ready.first_ready [where ready = ready and aps = aps and k = k and s = 0] by (auto simp: Suc_pow)

lemma ap_procs_run_returns:
  defines "sys \<equiv> \<lambda>E s. released_system (env_start_application E) (env_params E) (st_sys s)"
  assumes "g_ready_counter (aps_run (env_turns E) k (sys E s)) = g_aps_counter (st_sys s)"
  shows "\<exists>n. ap_procs_run E (env_start_application E) (env_params E) s =
      Some (s\<lparr>st_sys := (aps_run (env_turns E) n (sys E s))\<lparr>bsp := Launched\<rparr>\<rparr>) \<and>
    g_ready_counter (aps_run (env_turns E) n (sys E s)) = g_aps_counter (st_sys s)"
  using wait_ready_returns [of "\<lambda>n. g_ready_counter (aps_run (env_turns E) n (sys E s))" k, OF assms(2)]
  by (auto simp: ap_procs_run_def sys_def released_system_def mp_set_bootstrap_state_def)

section \<open>The whole start\<close>

text \<open>
  The processors that the interrupts wake have identifiers from 1 to 79, each has a turn during the delay, and each has a
  turn again and again afterwards.
\<close>

definition aps_take_turns :: "environment \<Rightarrow> bool" where
  "aps_take_turns E \<longleftrightarrow> env_cpus E \<subseteq> {1 ..< 80} \<and> env_cpus E \<subseteq> set (env_delay E) \<and> fair (env_cpus E) (env_turns E)"

lemma ap_procs_startup_wakes:
  assumes fresh: "fresh_system (st_sys s)" and turns: "aps_take_turns E"
    and timing: "apic_timing g l h q (env_clock E) (env_pending E)" "calibrated l h (st_io s)"
      "clock_at (env_clock E) (st_io s) + (3054 * q + 1164030) * h < 2 ^ 64"
    and "\<not> env_post_os E (mon_flags p_startup)"
    and "i32_low_memory_page d = push_bit 12 (ucast (page :: u8))" "i32_low_memory_page d \<noteq> 0"
  shows "\<exists>io. ap_procs_startup E (Some d) p_startup s = Some (of_nat (card (env_cpus E)), s\<lparr>st_io := io,
      gp_init32_data := Some d,
      st_mem := setup_low_memory_ap_code gdtr_packed (env_setup E) (ucast (i32_low_memory_page d)) (st_mem s),
      st_sys := enumerated (env_cpus E) (fold ap_turn (env_delay E) (boot_state (env_cpus E)))\<rparr>) \<and>
    apic_writes io = apic_writes (st_io s) @
      ipi 0 0 LOCAL_APIC_DELIVERY_MODE_INIT BROADCAST_MODE_ALL_EXCLUDING_SELF @
      ipi 0 page LOCAL_APIC_DELIVERY_MODE_SIPI BROADCAST_MODE_ALL_EXCLUDING_SELF @
      ipi 0 page LOCAL_APIC_DELIVERY_MODE_SIPI BROADCAST_MODE_ALL_EXCLUDING_SELF"
proof -
  let ?cpus = "env_cpus E"
  have sub: "?cpus \<subseteq> {1 ..< 80}" and delay: "?cpus \<subseteq> set (env_delay E)" using turns by (simp_all add: aps_take_turns_def)
  have "clock_at (env_clock E) (st_io s) + (3054 * q + 413024) * h < 2 ^ 64" using timing(3) by (simp add: algebra_simps)
  from yieldsD [OF broadcast_yields [OF timing(1)] timing(2) this, of page]
  obtain io where io: "send_broadcast_init_sipi (env_clock E) (env_pending E) (push_bit 12 (ucast page)) (st_io s) = Some io"
    "apic_writes io = apic_writes (st_io s) @
      ipi 0 0 LOCAL_APIC_DELIVERY_MODE_INIT BROADCAST_MODE_ALL_EXCLUDING_SELF @
      ipi 0 page LOCAL_APIC_DELIVERY_MODE_SIPI BROADCAST_MODE_ALL_EXCLUDING_SELF @
      ipi 0 page LOCAL_APIC_DELIVERY_MODE_SIPI BROADCAST_MODE_ALL_EXCLUDING_SELF" "calibrated l h io"
    "clock_at (env_clock E) io \<le> clock_at (env_clock E) (st_io s) + (3054 * q + 413024) * h" by blast
  have wait: "unat INITIAL_WAIT_FOR_APS_TIMEOUT_IN_MILIS = 750000" by (simp add: INITIAL_WAIT_FOR_APS_TIMEOUT_IN_MILIS_def)
  have "clock_at (env_clock E) io + (unat INITIAL_WAIT_FOR_APS_TIMEOUT_IN_MILIS + 1006) * h < 2 ^ 64"
    unfolding wait using io(4) timing(3) by (simp add: algebra_simps)
  from yieldsD [OF yields_stall [OF timing(1)] io(3) this] wait
  obtain io' where io': "startap_stall_using_tsc (env_clock E) INITIAL_WAIT_FOR_APS_TIMEOUT_IN_MILIS io = Some io'"
    "apic_writes io' = apic_writes io" by auto
  have "bsp_enumerate_aps (marks ?cpus) = (of_nat (card ?cpus), map (\<lambda>i. if i \<in> ?cpus then number ?cpus i else 0) [0 ..< 80])"
    using enumerate_marks [OF sub] by (intro prod_eqI) simp_all
  then show ?thesis
    using assms(6-8) io(1,2) io' card_cpus_word(1) [OF sub] wake_fresh [OF fresh, of ?cpus] delay_marks(2) [OF sub delay]
    by (intro exI [of _ io']) (simp add: ap_procs_startup_def Let_def enumerated_def)
qed

text \<open>The launched state: an end of the protocol's run, with every processor counted under its number.\<close>

lemma ap_procs_run_launches:
  assumes turns: "aps_take_turns E" and some: "env_cpus E \<noteq> {}"
    and sys: "st_sys s = enumerated (env_cpus E) (fold ap_turn (env_delay E) (boot_state (env_cpus E)))"
  shows "\<exists>t. ap_procs_run E (env_start_application E) (env_params E) s = Some (s\<lparr>st_sys := t\<rparr>) \<and>
    (punctual (env_start_application E) (env_params E))\<^sup>*\<^sup>* (boot_state (env_cpus E)) t \<and> bsp t = Launched \<and>
    (\<forall>a \<in> env_cpus E. ap_presence_array t ! a = number (env_cpus E) a)"
proof -
  let ?cpus = "env_cpus E" and ?f = "env_start_application E" and ?d = "env_params E"
  let ?r = "released_system ?f ?d (st_sys s)"
  have sub: "?cpus \<subseteq> {1 ..< 80}" and delay: "?cpus \<subseteq> set (env_delay E)" and fair: "fair ?cpus (env_turns E)"
    using turns by (simp_all add: aps_take_turns_def)
  have reach: "(punctual ?f ?d)\<^sup>*\<^sup>* (boot_state ?cpus) ?r" unfolding sys by (rule released_reachable [OF sub some delay])
  have "bsp ?r = Awaiting" by (simp add: released_system_def mp_set_bootstrap_state_def)
  from fair_ready [OF sub reach this fair] obtain k where "g_ready_counter (aps_run (env_turns E) k ?r) = of_nat (card ?cpus)" by blast
  then have "g_ready_counter (aps_run (env_turns E) k ?r) = g_aps_counter (st_sys s)" by (simp add: sys enumerated_def)
  from ap_procs_run_returns [OF this] obtain n where
    run: "ap_procs_run E ?f ?d s = Some (s\<lparr>st_sys := (aps_run (env_turns E) n ?r)\<lparr>bsp := Launched\<rparr>\<rparr>)"
    and n: "g_ready_counter (aps_run (env_turns E) n ?r) = g_aps_counter (st_sys s)" by blast
  let ?t = "(aps_run (env_turns E) n ?r)\<lparr>bsp := Launched\<rparr>"
  have "punctual ?f ?d (aps_run (env_turns E) n ?r) ?t"
    using n by (intro ap_step.all_ready) (simp_all add: aps_run_def released_system_def mp_set_bootstrap_state_def)
  moreover have "(punctual ?f ?d)\<^sup>*\<^sup>* ?r (aps_run (env_turns E) n ?r)" unfolding aps_run_def by (rule turns_reach)
  ultimately have t: "(punctual ?f ?d)\<^sup>*\<^sup>* (boot_state ?cpus) ?t" using reach by (meson rtranclp.rtrancl_into_rtrancl rtranclp_trans)
  then have "proto_inv ?cpus ?f ?d ?t" by (rule proto_inv_reachable [OF sub])
  then have "\<forall>a \<in> ?cpus. ap_presence_array ?t ! a = number ?cpus a"
    using sub by (auto simp: proto_inv_def mark_of_def MON_MAX_CPU_SUPPORTED_def)
  then show ?thesis using run t by (intro exI [of _ ?t]) simp
qed


text \<open>C39: Without a low memory page \<open>ap_procs_startup\<close> returns -1, which its caller does not check: it stores 0 as
  the number of processors, sends nothing, and goes on as if processors had been found, releasing
  them with the signal.\<close>

theorem startap_main_no_low_page:
  assumes "i32_low_memory_page d = 0" and "\<not> env_post_os E (mon_flags p_startup)"
    and "g_ready_counter (aps_run (env_turns E) k (released_system (env_start_application E) (env_params E) (st_sys s))) =
      g_aps_counter (st_sys s)"
  shows "\<exists>call startup' s'. startap_main E (Some d) startup_addr p_startup entry_point s = Some (call, startup', s') \<and>
    number_of_processors_at_boot_time startup' = 0 \<and> apic_writes (st_io s') = apic_writes (st_io s) \<and>
    mp_bootstrap_state (st_sys s') = MP_BOOTSTRAP_STATE_APS_ENUMERATED"
proof -
  let ?s = "s\<lparr>application_params := \<lparr>any_data1 = startup_addr, any_data2 = 0, any_data3 = 0, ep = ucast entry_point\<rparr>\<rparr>"
  have "g_ready_counter (aps_run (env_turns E) k (released_system (env_start_application E) (env_params E) (st_sys ?s))) =
      g_aps_counter (st_sys ?s)" using assms(3) by simp
  from ap_procs_run_returns [OF this]
  moreover have "(0 :: u32) < - 1" by (simp add: word_gt_0)
  ultimately show ?thesis using assms(1,2)
    by (auto simp: startap_main_def ap_procs_startup_def aps_run_def released_system_def mp_set_bootstrap_state_def)
qed

section \<open>A run\<close>

definition demo_env :: environment where
  "demo_env = \<lparr>env_clock = demo_clock, env_pending = busy_device, env_setup = demo_setup, env_post_os = (\<lambda>_. False),
     env_apic_ids = [], env_cpus = {3, 5}, env_delay = [5, 3], env_turns = (\<lambda>n. if even n then [3] else [5]),
     env_start_application = 0x1000, env_params = 0x2000\<rparr>"

definition demo_low_page :: "u32 \<Rightarrow> init32_struct" where
  "demo_low_page page = \<lparr>i32_low_memory_page = page, i32_num_of_aps = 0, i32_esp = []\<rparr>"

definition demo_start :: startap_state where
  "demo_start = \<lparr>st_mem = demo_startap, st_io = idle_io, st_sys = boot_state {}, gp_init32_data = None,
     application_params = \<lparr>any_data1 = 0, any_data2 = 0, any_data3 = 0, ep = 0\<rparr>\<rparr>"

lemma demo_turns: "aps_take_turns demo_env"
proof -
  have "3 \<in> set (env_turns demo_env (2 * n))" "5 \<in> set (env_turns demo_env (2 * n + 1))" for n by (simp_all add: demo_env_def)
  moreover have "n \<le> 2 * n" "n \<le> 2 * n + 1" for n :: nat by simp_all
  ultimately have "fair {3, 5} (env_turns demo_env)" unfolding fair_def by blast
  then show ?thesis by (simp add: aps_take_turns_def) (simp add: demo_env_def)
qed


theorem startap_main_no_low_page_witness:
  "\<exists>call startup' s'. startap_main demo_env (Some (demo_low_page 0)) 0x5000 (xd_mon_env zero_desc) 0x12C00000 demo_start =
      Some (call, startup', s') \<and> number_of_processors_at_boot_time startup' = 0"
proof -
  have "i32_low_memory_page (demo_low_page 0) = 0" "\<not> env_post_os demo_env (mon_flags (xd_mon_env zero_desc))"
    "g_ready_counter (aps_run (env_turns demo_env) 0 (released_system (env_start_application demo_env) (env_params demo_env)
       (st_sys demo_start))) = g_aps_counter (st_sys demo_start)"
    by (simp_all add: demo_low_page_def demo_env_def demo_start_def boot_state_def ap_intialize_environment_def aps_run_def
        released_system_def mp_set_bootstrap_state_def)
  from startap_main_no_low_page [OF this, of "0x5000" "0x12C00000"] show ?thesis by blast
qed

end
