(* ===== verification/Page_Tables.thy ===== *)
theory Page_Tables
  imports Heap_Manager
begin

text \<open>
  The page tables for 64-bit mode, \<open>pre_os/xmon_loader/utils/x64/x32_pt64.c\<close>: one PML4 table, one
  page-directory-pointer table and four page directories of 2 MB pages, on six pages of the loader's
  heap. The entries' bit fields come from a header outside the repository; how a record of fields
  becomes a 32-bit word is the parameter \<open>pt_layout\<close>, and \<open>sdm_layout\<close> is the processor manual's.
  An assertion that fails loops for ever: the result is \<open>None\<close>.
\<close>

section \<open>Entries\<close>

record table_entry =
  base_address_lo :: u32
  present :: bool
  rw :: bool
  us :: bool
  pwt :: bool
  pcd :: bool
  accessed :: bool
  dirty :: bool
  pse :: bool
  global_page :: bool
  pat :: bool
  avl :: u32

record pt_layout =
  pack_pml4e :: "table_entry \<Rightarrow> u32"
  pack_pdpe :: "table_entry \<Rightarrow> u32"
  pack_pde_2mb :: "table_entry \<Rightarrow> u32"
  pack_cr3 :: "table_entry \<Rightarrow> u32"

text \<open>The flags that all three kinds of entry get: present and writable, everything else clear.\<close>

definition mapped_entry :: "u32 \<Rightarrow> table_entry" where
  "mapped_entry base =
     \<lparr>base_address_lo = base, present = True, rw = True, us = False, pwt = False, pcd = False,
      accessed = False, dirty = False, pse = False, global_page = False, pat = False, avl = 0\<rparr>"

definition PAGE_2MB_SIZE :: u32 where "PAGE_2MB_SIZE = 0x200000"

definition pd_step :: "pt_layout \<Rightarrow> addr \<Rightarrow> nat \<Rightarrow> mem \<times> u32 \<Rightarrow> mem \<times> u32" where
  "pd_step V pd_table pdt_entry_id = (\<lambda>(m, address).
     (store32 m (pd_table + of_nat (8 * pdt_entry_id))
        (pack_pde_2mb V ((mapped_entry (drop_bit 21 address))\<lparr>pse := True\<rparr>)),
      address + PAGE_2MB_SIZE))"

definition fill_pd :: "pt_layout \<Rightarrow> addr \<Rightarrow> mem \<times> u32 \<Rightarrow> mem \<times> u32" where
  "fill_pd V pd_table = fold (pd_step V pd_table) [0 ..< 512]"

text \<open>\<open>mon_page_alloc(1)\<close> with the assertion and the \<open>mon_memset\<close> that follow it.\<close>

definition table_page :: "(u32 \<Rightarrow> u64 \<Rightarrow> u64) \<Rightarrow> mem \<Rightarrow> heap \<Rightarrow> (addr \<times> heap \<times> mem) option" where
  "table_page af m h =
     (let (p, h, m) = mon_page_alloc af m h 1 in if p = 0 then None else Some (p, h, mon_memset m p 0 4096))"

definition pdpt_step ::
  "pt_layout \<Rightarrow> (u32 \<Rightarrow> u64 \<Rightarrow> u64) \<Rightarrow> addr \<Rightarrow> nat \<Rightarrow> mem \<times> heap \<times> u32 \<Rightarrow> (mem \<times> heap \<times> u32) option" where
  "pdpt_step V af pdp_table pdpt_entry_id = (\<lambda>(m, h, address).
     let entry = pdp_table + of_nat (8 * pdpt_entry_id);
         m = store32 m entry (pack_pdpe V (mapped_entry 0))
     in map_option (\<lambda>(pd_table, h, m).
          let m = store32 m entry (pack_pdpe V (mapped_entry (drop_bit 12 (ucast pd_table))));
              (m, address) = fill_pd V pd_table (m, address)
          in (m, h, address)) (table_page af m h))"

primrec pdpt_loop ::
  "pt_layout \<Rightarrow> (u32 \<Rightarrow> u64 \<Rightarrow> u64) \<Rightarrow> addr \<Rightarrow> nat list \<Rightarrow> mem \<times> heap \<times> u32 \<Rightarrow> (mem \<times> heap \<times> u32) option" where
  "pdpt_loop V af pdp_table [] s = Some s"
| "pdpt_loop V af pdp_table (i # is) s = Option.bind (pdpt_step V af pdp_table i s) (pdpt_loop V af pdp_table is)"

text \<open>The result is the value of \<open>cr3_for_x64\<close>, which \<open>x32_pt64_get_cr3\<close> returns. The size is not used.\<close>

definition x32_pt64_setup_paging ::
  "pt_layout \<Rightarrow> (u32 \<Rightarrow> u64 \<Rightarrow> u64) \<Rightarrow> u64 \<Rightarrow> mem \<Rightarrow> heap \<Rightarrow> (u32 \<times> heap \<times> mem) option" where
  "x32_pt64_setup_paging V af memory_size m h =
     Option.bind (table_page af m h) (\<lambda>(pml4_table, h, m).
     Option.bind (table_page af m h) (\<lambda>(pdp_table, h, m).
       let m = store32 m pml4_table (pack_pml4e V (mapped_entry (drop_bit 12 (ucast pdp_table))))
       in map_option (\<lambda>(m, h, address).
            (pack_cr3 V ((mapped_entry (drop_bit 12 (ucast pml4_table)))\<lparr>present := False, rw := False\<rparr>), h, m))
          (pdpt_loop V af pdp_table [0, 1, 2, 3] (m, h, 0))))"

section \<open>The processor's walk\<close>

text \<open>
  The processor manual's layout: present in bit 0, writable in bit 1, the page size bit in bit 7, and
  the base from bit 12 (tables) or bit 21 (2 MB pages).
\<close>

definition flag :: "nat \<Rightarrow> bool \<Rightarrow> u32" where "flag n b = (if b then push_bit n 1 else 0)"

definition entry_flags :: "table_entry \<Rightarrow> u32" where
  "entry_flags e = flag 0 (present e) OR flag 1 (rw e) OR flag 2 (us e) OR flag 3 (pwt e) OR flag 4 (pcd e)
     OR flag 5 (accessed e) OR flag 6 (dirty e) OR flag 7 (pse e) OR flag 8 (global_page e) OR flag 12 (pat e)
     OR push_bit 9 (take_bit 3 (avl e))"

definition sdm_layout :: pt_layout where
  "sdm_layout =
     \<lparr>pack_pml4e = (\<lambda>e. entry_flags e OR push_bit 12 (base_address_lo e)),
      pack_pdpe = (\<lambda>e. entry_flags e OR push_bit 12 (base_address_lo e)),
      pack_pde_2mb = (\<lambda>e. entry_flags e OR push_bit 21 (base_address_lo e)),
      pack_cr3 = (\<lambda>e. flag 3 (pwt e) OR flag 4 (pcd e) OR push_bit 12 (base_address_lo e))\<rparr>"

definition table_base :: "u64 \<Rightarrow> addr" where "table_base e = push_bit 12 (take_bit 40 (drop_bit 12 e))"

definition table_index :: "nat \<Rightarrow> addr \<Rightarrow> nat" where "table_index n va = unat (take_bit 9 (drop_bit n va))"

text \<open>The physical address of a virtual one, for 2 MB pages; no value when an entry is not present or not writable.\<close>

definition usable :: "u64 \<Rightarrow> bool" where "usable e \<longleftrightarrow> bit e 0 \<and> bit e 1"

definition page_walk :: "mem \<Rightarrow> u64 \<Rightarrow> addr \<Rightarrow> addr option" where
  "page_walk m cr3 va =
     (let pml4e = load64 m (table_base cr3 + of_nat (8 * table_index 39 va)) in
      if \<not> usable pml4e then None else
      let pdpe = load64 m (table_base pml4e + of_nat (8 * table_index 30 va)) in
      if \<not> usable pdpe \<or> bit pdpe 7 then None else
      let pde = load64 m (table_base pdpe + of_nat (8 * table_index 21 va)) in
      if \<not> usable pde \<or> \<not> bit pde 7 then None
      else Some (push_bit 21 (take_bit 31 (drop_bit 21 pde)) OR take_bit 21 va))"

lemma load64_store32_low:
  fixes w :: u32
  assumes "load64 m a = ucast (v :: u32)"
  shows "load64 (store32 m a w) a = ucast w"
proof -
  have hi: "load32 m (a + 4) = 0"
  proof (rule bit_word_eqI)
    fix n assume n: "n < LENGTH(32)"
    have "bit (load32 m (a + 4)) n = bit (load64 m a) (n + 32)"
      unfolding load64_halves using n by (auto simp: bit_simps dest: bit_imp_le_length)
    then show "bit (load32 m (a + 4)) n = bit (0 :: u32) n"
      unfolding assms by (auto simp: bit_simps dest: bit_imp_le_length)
  qed
  have "disjoint_ranges (a + 0) 4 (a + 4) 4" by (rule fields_disjoint) simp_all
  then have "load32 (store32 m a w) (a + 4) = load32 m (a + 4)" by (simp add: load_store_disjoint)
  then show ?thesis by (simp add: load64_halves hi)
qed

section \<open>Tables\<close>

definition table :: "mem \<Rightarrow> addr \<Rightarrow> (nat \<Rightarrow> u32) \<Rightarrow> bool" where
  "table m p f \<longleftrightarrow> (\<forall>i < 512. load64 m (p + of_nat (8 * i)) = ucast (f i))"

lemma entry_in_page: "i < 512 \<Longrightarrow> in_range (p + of_nat (8 * i)) n x \<Longrightarrow> n \<le> 8 \<Longrightarrow> in_range p 4096 x"
  by (rule in_range_sub [where v = "of_nat (8 * i)" and j = n]) (simp_all add: unat_of_nat64 del: of_nat_mult)

lemma table_zero: "table (mon_memset m p 0 4096) p (\<lambda>_. 0)"
proof -
  have "load64 (mon_memset m p 0 4096) (p + of_nat (8 * i)) = 0" if "i < 512" for i
  proof -
    have "load64 (mon_memset m p 0 4096) (p + of_nat (8 * i)) = load64 (\<lambda>_. 0) (p + of_nat (8 * i))"
      using entry_in_page [OF that] by (intro load_le_cong) (auto simp: mon_memset_apply)
    also have "\<dots> = 0" by (simp add: load_le_def read_bytes_def numeral_eq_Suc)
    finally show ?thesis .
  qed
  then show ?thesis by (simp add: table_def)
qed

lemma table_frame:
  assumes "table m p f" and "\<And>x. in_range p 4096 x \<Longrightarrow> m' x = m x"
  shows "table m' p f"
proof -
  have "load64 m' (p + of_nat (8 * i)) = load64 m (p + of_nat (8 * i))" if "i < 512" for i
    using entry_in_page [OF that] assms(2) by (intro load_le_cong) auto
  with assms(1) show ?thesis by (simp add: table_def)
qed

lemma table_store:
  assumes "table m p f" and "i < 512"
  shows "table (store32 m (p + of_nat (8 * i)) w) p (f(i := w))"
  unfolding table_def
proof (intro allI impI)
  fix j :: nat assume j: "j < 512"
  show "load64 (store32 m (p + of_nat (8 * i)) w) (p + of_nat (8 * j)) = ucast ((f(i := w)) j)"
  proof (cases "j = i")
    case True
    have "load64 m (p + of_nat (8 * i)) = ucast (f i)" using assms unfolding table_def by blast
    from load64_store32_low [OF this] True show ?thesis by simp
  next
    case False
    have "8 * i + 4 \<le> 8 * j \<or> 8 * j + 8 \<le> 8 * i" using False by linarith
    then have "disjoint_ranges (p + of_nat (8 * i)) 4 (p + of_nat (8 * j)) 8"
      using assms(2) j by (intro fields_disjoint) (simp_all add: unat_of_nat64 del: of_nat_mult)
    then have "load64 (store32 m (p + of_nat (8 * i)) w) (p + of_nat (8 * j)) = load64 m (p + of_nat (8 * j))"
      by (simp add: load_store_disjoint)
    with assms(1) j False show ?thesis by (simp add: table_def)
  qed
qed

lemma store_entry_outside: "i < 512 \<Longrightarrow> \<not> in_range p 4096 x \<Longrightarrow> store32 m (p + of_nat (8 * i)) w x = m x"
  using entry_in_page [of i p 4 x] by (auto simp: store_le_apply)

section \<open>Building the tables\<close>

abbreviation (input) pde :: "pt_layout \<Rightarrow> u32 \<Rightarrow> u32" where
  "pde V a \<equiv> pack_pde_2mb V ((mapped_entry (drop_bit 21 a))\<lparr>pse := True\<rparr>)"

lemma fill_pd_prefix:
  assumes "table m p (\<lambda>_. 0)" and "k \<le> 512"
  shows "\<exists>m'. fold (pd_step V p) [0 ..< k] (m, a) = (m', a + of_nat k * PAGE_2MB_SIZE) \<and>
    table m' p (\<lambda>i. if i < k then pde V (a + of_nat i * PAGE_2MB_SIZE) else 0) \<and>
    (\<forall>x. \<not> in_range p 4096 x \<longrightarrow> m' x = m x)"
  using assms(2)
proof (induction k)
  case 0
  then show ?case using assms(1) by simp
next
  case (Suc k)
  then obtain m' where m': "fold (pd_step V p) [0 ..< k] (m, a) = (m', a + of_nat k * PAGE_2MB_SIZE)"
    "table m' p (\<lambda>i. if i < k then pde V (a + of_nat i * PAGE_2MB_SIZE) else 0)"
    "\<forall>x. \<not> in_range p 4096 x \<longrightarrow> m' x = m x" by auto
  let ?m = "store32 m' (p + of_nat (8 * k)) (pde V (a + of_nat k * PAGE_2MB_SIZE))"
  have "(\<lambda>i. if i < k then pde V (a + of_nat i * PAGE_2MB_SIZE) else 0)(k := pde V (a + of_nat k * PAGE_2MB_SIZE))
      = (\<lambda>i. if i < Suc k then pde V (a + of_nat i * PAGE_2MB_SIZE) else 0)"
    by (auto simp: less_Suc_eq)
  then have "table ?m p (\<lambda>i. if i < Suc k then pde V (a + of_nat i * PAGE_2MB_SIZE) else 0)"
    using table_store [OF m'(2), of k "pde V (a + of_nat k * PAGE_2MB_SIZE)"] Suc.prems by simp
  moreover have "\<forall>x. \<not> in_range p 4096 x \<longrightarrow> ?m x = m x" using m'(3) store_entry_outside [of k p] Suc.prems by simp
  moreover have "fold (pd_step V p) [0 ..< Suc k] (m, a) = (?m, a + of_nat (Suc k) * PAGE_2MB_SIZE)"
    using m'(1) by (simp add: pd_step_def algebra_simps)
  ultimately show ?case by blast
qed

lemma fill_pd_table:
  assumes "table m p (\<lambda>_. 0)"
  shows "\<exists>m'. fill_pd V p (m, a) = (m', a + 512 * PAGE_2MB_SIZE) \<and>
    table m' p (\<lambda>i. if i < 512 then pde V (a + of_nat i * PAGE_2MB_SIZE) else 0) \<and>
    (\<forall>x. \<not> in_range p 4096 x \<longrightarrow> m' x = m x)"
  using fill_pd_prefix [OF assms, of 512 V a] by (simp add: fill_pd_def)

lemma page_round_aligned: "n = 4096 * c \<Longrightarrow> (n + 4095) div 4096 * 4096 = n" for n :: nat
  by simp

text \<open>A heap whose cursor is at a page boundary gives the next page.\<close>

lemma table_page_next:
  assumes "aligns_forward af" and "heap_inv_page h" and "(unat (heap_current h) + 4095) div 4096 * 4096 = b"
    and "b + 4096 \<le> unat (heap_tops h)"
  shows "\<exists>h' m'. table_page af m h = Some (of_nat b, h', m') \<and> heap_inv_page h' \<and> unat (heap_current h') = b + 4096 \<and>
    heap_tops h' = heap_tops h \<and> table m' (of_nat b) (\<lambda>_. 0) \<and>
    (\<forall>x. \<not> in_range (of_nat b) 4096 x \<longrightarrow> m' x = m x)"
proof -
  have cur: "unat (heap_current h) + 4096 \<le> 2 ^ 32" "0 < unat (heap_current h)"
    using assms(2) by (auto simp: heap_inv_page_def)
  have b: "b < 2 ^ 32" using assms(4) unat_less32 [of "heap_tops h"] by linarith
  have "0 < b" using page_round_up [of "unat (heap_current h)"] cur(2) assms(3) by linarith
  then have nz: "(of_nat b :: addr) \<noteq> 0" using b using unat_of_nat64 [of b] by (intro notI) simp
  have "unat (af (heap_current h) PAGE_SIZE) = b" using aligns_forward_page [OF assms(1) cur(1)] assms(3) by simp
  then have a: "af (heap_current h) PAGE_SIZE = of_nat b" by (metis of_nat_unat ucast_id)
  obtain p h' m' where alloc: "mon_page_alloc af m h 1 = (p, h', m')" by (metis prod_cases3)
  have "unat (of_nat b + PAGE_SIZE) = b + 4096"
    using b by (subst unat_add64) (simp add: PAGE_SIZE_def unat_of_nat64)
  then have p: "p = of_nat b" using alloc assms(4) a
    by (simp add: mon_page_alloc_def Let_def word_less_nat_alt split: if_splits)
  with nz have "p \<noteq> 0" by simp
  have one: "ok_pages 1" by (simp add: ok_pages_def)
  note ok = mon_page_alloc_success [OF assms(1) one assms(2) alloc \<open>p \<noteq> 0\<close>]
  have up: "unat p = b" using ok(1) assms(3) by simp
  have "m' x = m x" if "\<not> in_range (of_nat b) 4096 x" for x
    using ok(5,6) that p by (simp add: zero_mem_apply)
  then have "\<forall>x. \<not> in_range (of_nat b) 4096 x \<longrightarrow> mon_memset m' (of_nat b) 0 4096 x = m x"
    by (simp add: mon_memset_apply)
  moreover have "heap_inv_page h'"
    using bump_allocator.alloc_inv [OF mon_page_alloc_bump [OF assms(1)] assms(2) one alloc] .
  moreover have "table_page af m h = Some (of_nat b, h', mon_memset m' (of_nat b) 0 4096)"
    using alloc nz p by (simp add: table_page_def)
  ultimately show ?thesis using ok(2,4) up table_zero [of m' "of_nat b"] by auto
qed

definition pg :: "nat \<Rightarrow> nat \<Rightarrow> addr" where "pg b k = of_nat (b + 4096 * k)"

lemma pg_apart:
  assumes "b + 4096 * 6 \<le> 2 ^ 32" and "j < 6" "k < 6" "j \<noteq> k" and "in_range (pg b j) 4096 x"
  shows "\<not> in_range (pg b k) 4096 x"
proof -
  have u: "unat (pg b i) = b + 4096 * i" if "i < 6" for i
    unfolding pg_def using assms(1) that by (intro unat_of_nat64) simp
  have lin: "in_range (pg b i) 4096 x \<longleftrightarrow> b + 4096 * i \<le> unat x \<and> unat x < b + 4096 * i + 4096" if "i < 6" for i
    using u [OF that] assms(1) that by (subst in_range_linear) simp_all
  show ?thesis using assms(2-5) lin [of j] lin [of k] by auto
qed

abbreviation (input) pdpe :: "pt_layout \<Rightarrow> addr \<Rightarrow> u32" where
  "pdpe V p \<equiv> pack_pdpe V (mapped_entry (drop_bit 12 (ucast p)))"

definition pdpt_done ::
  "pt_layout \<Rightarrow> nat \<Rightarrow> u32 \<Rightarrow> nat \<Rightarrow> mem \<Rightarrow> mem \<times> heap \<times> u32 \<Rightarrow> bool" where
  "pdpt_done V b tops k m1 = (\<lambda>(m, h, address).
     heap_inv_page h \<and> unat (heap_current h) = b + 4096 * (2 + k) \<and> heap_tops h = tops \<and>
     address = of_nat k * 0x40000000 \<and>
     table m (pg b 1) (\<lambda>i. if i < k then pdpe V (pg b (2 + i)) else 0) \<and>
     (\<forall>j < k. table m (pg b (2 + j))
        (\<lambda>i. if i < 512 then pde V (of_nat j * 0x40000000 + of_nat i * PAGE_2MB_SIZE) else 0)) \<and>
     (\<forall>x. \<not> in_range (pg b 1) 4096 x \<and> (\<forall>j < k. \<not> in_range (pg b (2 + j)) 4096 x) \<longrightarrow> m x = m1 x))"

text \<open>The next page of a heap whose cursor is at the page with index \<open>n\<close>.\<close>

lemma table_page_at:
  assumes "aligns_forward af" and "heap_inv_page h" and "4096 dvd b" and "unat (heap_current h) = b + 4096 * n"
    and "b + 4096 * (n + 1) \<le> unat (heap_tops h)"
  shows "\<exists>h' m'. table_page af m h = Some (pg b n, h', m') \<and> heap_inv_page h' \<and> unat (heap_current h') = b + 4096 * (n + 1) \<and>
    heap_tops h' = heap_tops h \<and> table m' (pg b n) (\<lambda>_. 0) \<and> (\<forall>x. \<not> in_range (pg b n) 4096 x \<longrightarrow> m' x = m x)"
proof -
  obtain c where c: "b = 4096 * c" using assms(3) by (elim dvdE)
  have "unat (heap_current h) = 4096 * (c + n)" using assms(4) c by simp
  from page_round_aligned [OF this] assms(4)
  have "(unat (heap_current h) + 4095) div 4096 * 4096 = b + 4096 * n" by (simp only:)
  from table_page_next [OF assms(1,2) this, of m] assms(5) show ?thesis unfolding pg_def by (simp add: algebra_simps)
qed

text \<open>The entry of the page directory pointer table that a step writes, first empty and then with its page.\<close>

lemma pdpt_entry_written:
  assumes "b + 4096 * 6 \<le> 2 ^ 32" and "k < 4" and "table m (pg b 1) (\<lambda>i. if i < k then E i else 0)"
    and "\<And>x. \<not> in_range (pg b (2 + k)) 4096 x \<Longrightarrow> m' x = store32 m (pg b 1 + of_nat (8 * k)) w x"
  shows "table (store32 m' (pg b 1 + of_nat (8 * k)) (E k)) (pg b 1) (\<lambda>i. if i < Suc k then E i else 0)"
proof -
  have "table (store32 m (pg b 1 + of_nat (8 * k)) w) (pg b 1) ((\<lambda>i. if i < k then E i else 0)(k := w))"
    using assms(2) by (intro table_store [OF assms(3)]) simp
  then have "table m' (pg b 1) ((\<lambda>i. if i < k then E i else 0)(k := w))"
    using assms(4) pg_apart [OF assms(1), of 1 "2 + k"] assms(2) by (elim table_frame) simp
  then have "table (store32 m' (pg b 1 + of_nat (8 * k)) (E k)) (pg b 1) (((\<lambda>i. if i < k then E i else 0)(k := w))(k := E k))"
    using assms(2) by (intro table_store) simp_all
  moreover have "((\<lambda>i. if i < k then E i else 0)(k := w))(k := E k) = (\<lambda>i. if i < Suc k then E i else 0)"
    by (auto simp: less_Suc_eq)
  ultimately show ?thesis by simp
qed

lemma pdpt_step_done:
  assumes "aligns_forward af" and "4096 dvd b" and "b + 4096 * 6 \<le> unat tops" and "k < 4"
    and "pdpt_done V b tops k m1 s"
  shows "\<exists>s'. pdpt_step V af (pg b 1) k s = Some s' \<and> pdpt_done V b tops (Suc k) m1 s'"
proof -
  obtain m h address where s: "s = (m, h, address)" by (cases s)
  have inv: "heap_inv_page h" "unat (heap_current h) = b + 4096 * (2 + k)" "heap_tops h = tops"
      "address = of_nat k * 0x40000000"
    and pdpt: "table m (pg b 1) (\<lambda>i. if i < k then pdpe V (pg b (2 + i)) else 0)"
    and pds: "\<And>j. j < k \<Longrightarrow> table m (pg b (2 + j))
        (\<lambda>i. if i < 512 then pde V (of_nat j * 0x40000000 + of_nat i * PAGE_2MB_SIZE) else 0)"
    and out: "\<And>x. \<not> in_range (pg b 1) 4096 x \<Longrightarrow> (\<forall>j < k. \<not> in_range (pg b (2 + j)) 4096 x) \<Longrightarrow> m x = m1 x"
    using assms(5) unfolding s pdpt_done_def by auto
  have small: "b + 4096 * 6 \<le> 2 ^ 32" using assms(3) unat_less32 [of tops] by linarith
  note apart = pg_apart [OF small]
  let ?e = "pg b 1 + of_nat (8 * k)" and ?p = "pg b (2 + k)"
  define m2 where "m2 = store32 m ?e (pack_pdpe V (mapped_entry 0))"
  have m2: "m2 x = m x" if "\<not> in_range (pg b 1) 4096 x" for x
    unfolding m2_def using store_entry_outside [of k "pg b 1" x] that assms(4) by simp
  have "b + 4096 * ((2 + k) + 1) \<le> unat (heap_tops h)" using assms(3,4) inv(3) by simp
  from table_page_at [OF assms(1) inv(1) assms(2) inv(2) this, of m2]
  obtain h' m3 where tp: "table_page af m2 h = Some (?p, h', m3)"
    and h': "heap_inv_page h'" "unat (heap_current h') = b + 4096 * (2 + Suc k)" "heap_tops h' = tops"
    and m3: "table m3 ?p (\<lambda>_. 0)" "\<And>x. \<not> in_range ?p 4096 x \<Longrightarrow> m3 x = m2 x"
    using inv(3) by auto
  define m4 where "m4 = store32 m3 ?e (pdpe V ?p)"
  have m4: "m4 x = m3 x" if "\<not> in_range (pg b 1) 4096 x" for x
    unfolding m4_def using store_entry_outside [of k "pg b 1" x] that assms(4) by simp
  have "table m4 ?p (\<lambda>_. 0)" using m3(1) apart [of "2 + k" 1] m4 assms(4) by (intro table_frame [OF m3(1)]) simp
  from fill_pd_table [OF this, of V address] obtain m5 where
    m5: "fill_pd V ?p (m4, address) = (m5, address + 512 * PAGE_2MB_SIZE)"
      "table m5 ?p (\<lambda>i. if i < 512 then pde V (address + of_nat i * PAGE_2MB_SIZE) else 0)"
      "\<And>x. \<not> in_range ?p 4096 x \<Longrightarrow> m5 x = m4 x" by blast
  have "pdpt_step V af (pg b 1) k s = Some (m5, h', address + 512 * PAGE_2MB_SIZE)"
    using tp m5(1) by (simp add: s pdpt_step_def m2_def m4_def Let_def)
  moreover have "pdpt_done V b tops (Suc k) m1 (m5, h', address + 512 * PAGE_2MB_SIZE)"
  proof -
    have "table m4 (pg b 1) (\<lambda>i. if i < Suc k then pdpe V (pg b (2 + i)) else 0)"
      unfolding m4_def using pdpt_entry_written [OF small assms(4) pdpt] m3(2) unfolding m2_def by blast
    then have 1: "table m5 (pg b 1) (\<lambda>i. if i < Suc k then pdpe V (pg b (2 + i)) else 0)"
      using m5(3) apart [of 1 "2 + k"] assms(4) by (elim table_frame) simp
    have 2: "table m5 (pg b (2 + j)) (\<lambda>i. if i < 512 then pde V (of_nat j * 0x40000000 + of_nat i * PAGE_2MB_SIZE) else 0)"
      if "j < Suc k" for j
    proof (cases "j = k")
      case True
      show ?thesis using m5(2) unfolding inv(4) True .
    next
      case False
      then have "j < k" using that by simp
      then show ?thesis
        using m5(3) m4 m3(2) m2 apart [of "2 + j" "2 + k"] apart [of "2 + j" 1] assms(4)
        by (intro table_frame [OF pds]) simp_all
    qed
    have 3: "m5 x = m1 x" if "\<not> in_range (pg b 1) 4096 x" "\<forall>j < Suc k. \<not> in_range (pg b (2 + j)) 4096 x" for x
      using that m5(3) m4 m3(2) m2 out [of x] by simp
    have "address + 512 * PAGE_2MB_SIZE = of_nat (Suc k) * 0x40000000"
      by (simp add: inv(4) PAGE_2MB_SIZE_def algebra_simps)
    with h' 1 2 3 show ?thesis by (simp add: pdpt_done_def)
  qed
  ultimately show ?thesis by blast
qed

lemma pdpt_loop_done:
  assumes "aligns_forward af" and "4096 dvd b" and "b + 4096 * 6 \<le> unat tops" and "pdpt_done V b tops 0 m1 s"
  shows "\<exists>s'. pdpt_loop V af (pg b 1) [0, 1, 2, 3] s = Some s' \<and> pdpt_done V b tops 4 m1 s'"
proof -
  note step = pdpt_step_done [OF assms(1-3)]
  obtain s1 where s1: "pdpt_step V af (pg b 1) 0 s = Some s1" "pdpt_done V b tops 1 m1 s1"
    using step [OF _ assms(4)] by auto
  obtain s2 where s2: "pdpt_step V af (pg b 1) 1 s1 = Some s2" "pdpt_done V b tops 2 m1 s2"
    using step [OF _ s1(2)] by (auto simp: numeral_2_eq_2)
  obtain s3 where s3: "pdpt_step V af (pg b 1) 2 s2 = Some s3" "pdpt_done V b tops 3 m1 s3"
    using step [OF _ s2(2)] by (auto simp: numeral_3_eq_3)
  obtain s4 where s4: "pdpt_step V af (pg b 1) 3 s3 = Some s4" "pdpt_done V b tops 4 m1 s4"
    using step [OF _ s3(2)] by auto
  from s1(1) s2(1) s3(1) s4 show ?thesis by simp
qed

text \<open>What a successful set-up leaves in memory.\<close>

definition tables_built :: "pt_layout \<Rightarrow> nat \<Rightarrow> mem \<Rightarrow> mem \<Rightarrow> bool" where
  "tables_built V b m m' \<longleftrightarrow>
     table m' (pg b 0) (\<lambda>i. if i = 0 then pack_pml4e V (mapped_entry (drop_bit 12 (ucast (pg b 1)))) else 0) \<and>
     table m' (pg b 1) (\<lambda>i. if i < 4 then pdpe V (pg b (2 + i)) else 0) \<and>
     (\<forall>j < 4. table m' (pg b (2 + j))
        (\<lambda>i. if i < 512 then pde V (of_nat j * 0x40000000 + of_nat i * PAGE_2MB_SIZE) else 0)) \<and>
     (\<forall>x. (\<forall>k < 6. \<not> in_range (pg b k) 4096 x) \<longrightarrow> m' x = m x)"

lemma setup_paging_tables:
  assumes "aligns_forward af" and "heap_inv_page h" and "b = (unat (heap_current h) + 4095) div 4096 * 4096"
    and "b + 4096 * 6 \<le> unat (heap_tops h)"
  shows "\<exists>h' m'. x32_pt64_setup_paging V af memory_size m h =
      Some (pack_cr3 V ((mapped_entry (drop_bit 12 (ucast (pg b 0))))\<lparr>present := False, rw := False\<rparr>), h', m') \<and>
    tables_built V b m m'"
proof -
  have small: "b + 4096 * 6 \<le> 2 ^ 32" using assms(4) unat_less32 [of "heap_tops h"] by linarith
  note apart = pg_apart [OF small]
  obtain h1 m1 where t1: "table_page af m h = Some (pg b 0, h1, m1)" "heap_inv_page h1"
      "unat (heap_current h1) = b + 4096" "heap_tops h1 = heap_tops h" "table m1 (pg b 0) (\<lambda>_. 0)"
      "\<And>x. \<not> in_range (pg b 0) 4096 x \<Longrightarrow> m1 x = m x"
    using table_page_next [OF assms(1,2) assms(3) [symmetric], of m] assms(4) unfolding pg_def by auto
  have b: "4096 dvd b" using assms(3) by simp
  from table_page_at [OF assms(1) t1(2) b, of 1 m1] assms(4) t1(3,4)
  obtain h2 m2 where t2: "table_page af m1 h1 = Some (pg b 1, h2, m2)" "heap_inv_page h2"
      "unat (heap_current h2) = b + 4096 * 2" "heap_tops h2 = heap_tops h" "table m2 (pg b 1) (\<lambda>_. 0)"
      "\<And>x. \<not> in_range (pg b 1) 4096 x \<Longrightarrow> m2 x = m1 x"
    by auto
  let ?w = "pack_pml4e V (mapped_entry (drop_bit 12 (ucast (pg b 1))))"
  define m3 where "m3 = store32 m2 (pg b 0) ?w"
  have m3: "m3 x = m2 x" if "\<not> in_range (pg b 0) 4096 x" for x
    unfolding m3_def using store_entry_outside [of 0 "pg b 0" x] that by simp
  have "table m2 (pg b 0) (\<lambda>_. 0)" using t2(6) apart [of 0 1] by (intro table_frame [OF t1(5)]) simp
  from table_store [OF this, of 0 ?w] have pml4: "table m3 (pg b 0) (\<lambda>i. if i = 0 then ?w else 0)"
    by (simp add: m3_def fun_upd_def del: One_nat_def)
  have "table m3 (pg b 1) (\<lambda>_. 0)" using m3 apart [of 1 0] by (intro table_frame [OF t2(5)]) simp
  then have start: "pdpt_done V b (heap_tops h) 0 m3 (m3, h2, 0)" using t2(2-4) by (simp add: pdpt_done_def)
  from pdpt_loop_done [OF assms(1) b assms(4) start] obtain m4 h4 a4 where
    loop: "pdpt_loop V af (pg b 1) [0, 1, 2, 3] (m3, h2, 0) = Some (m4, h4, a4)"
      "pdpt_done V b (heap_tops h) 4 m3 (m4, h4, a4)" by auto
  have out: "m4 x = m3 x" if "\<not> in_range (pg b 1) 4096 x" "\<forall>j < 4. \<not> in_range (pg b (2 + j)) 4096 x" for x
    using loop(2) that by (simp add: pdpt_done_def)
  have keep: "m4 x = m3 x" if "in_range (pg b 0) 4096 x" for x
  proof (rule out)
    show "\<not> in_range (pg b 1) 4096 x" using apart [of 0 1 x] that by simp
    show "\<forall>j < 4. \<not> in_range (pg b (2 + j)) 4096 x" using apart [of 0 _ x] that by simp
  qed
  have "table m4 (pg b 0) (\<lambda>i. if i = 0 then ?w else 0)" by (rule table_frame [OF pml4 keep])
  moreover have "m4 x = m x" if "\<forall>k < 6. \<not> in_range (pg b k) 4096 x" for x
  proof -
    have "\<not> in_range (pg b 0) 4096 x" "\<not> in_range (pg b 1) 4096 x" using that by auto
    moreover have "\<forall>j < 4. \<not> in_range (pg b (2 + j)) 4096 x" using that by auto
    ultimately show ?thesis using out [of x] m3 [of x] t2(6) [of x] t1(6) [of x] by simp
  qed
  ultimately have "tables_built V b m m4" using loop(2) by (simp add: tables_built_def pdpt_done_def)
  moreover have "x32_pt64_setup_paging V af memory_size m h =
      Some (pack_cr3 V ((mapped_entry (drop_bit 12 (ucast (pg b 0))))\<lparr>present := False, rw := False\<rparr>), h4, m4)"
    using t1(1) t2(1) loop(1) by (simp add: x32_pt64_setup_paging_def m3_def)
  ultimately show ?thesis by blast
qed

section \<open>The walk over the tables\<close>

lemma mapped_flags:
  "entry_flags (mapped_entry base) = 3" "entry_flags ((mapped_entry base)\<lparr>pse := True\<rparr>) = 0x83"
  by (simp_all add: entry_flags_def mapped_entry_def flag_def push_bit_eq_mult)

lemma three: "(3 :: u32) = mask 2" "(0x83 :: u32) = mask 2 OR push_bit 7 1"
  by (simp_all add: mask_eq_exp_minus_1 push_bit_eq_mult)

lemma bit_low: "bit (x :: u32) n \<Longrightarrow> n < 32"
  using bit_imp_le_length [of x n] by simp

text \<open>An aligned page below 4 GB is what its entry points to.\<close>

lemma pg_bits:
  assumes "4096 dvd b" and "b + 4096 * 6 \<le> 2 ^ 32" and "k < 6"
  shows "\<exists>q :: u32. pg b k = ucast (push_bit 12 q) \<and> drop_bit 12 (ucast (pg b k) :: u32) = q \<and> unat q < 2 ^ 20"
proof -
  obtain c where c: "b = 4096 * c" using assms(1) by (elim dvdE)
  let ?q = "of_nat (c + k) :: u32"
  have lt: "c + k < 2 ^ 20" using assms(2,3) c by simp
  then have uq: "unat ?q = c + k" by (simp add: unsigned_of_nat take_bit_nat_eq_self del: of_nat_add)
  have "b + 4096 * k = 4096 * (c + k)" using c by simp
  then have upg: "unat (pg b k) = 4096 * (c + k)" unfolding pg_def using lt by (subst unat_of_nat64) simp_all
  have "unat (push_bit 12 ?q) = 4096 * (c + k)"
    using lt uq by (simp add: unsigned_push_bit_eq push_bit_nat_def take_bit_nat_eq_self del: of_nat_add)
  then have eq: "pg b k = ucast (push_bit 12 ?q)" using upg by (metis unat_ucast_u32_u64 word_unat_eq_iff)
  have "unat (drop_bit 12 (push_bit 12 ?q)) = unat (push_bit 12 ?q) div 2 ^ 12"
    by (subst unat_drop_bit_eq) (rule drop_bit_eq_div)
  then have "unat (drop_bit 12 (push_bit 12 ?q)) = unat ?q"
    using \<open>unat (push_bit 12 ?q) = 4096 * (c + k)\<close> uq by simp
  then have "drop_bit 12 (ucast (pg b k) :: u32) = ?q" unfolding eq by (simp add: word_unat_eq_iff)
  with eq uq lt show ?thesis by (intro exI [of _ ?q]) simp
qed

lemma table_base_entry:
  assumes "unat (q :: u32) < 2 ^ 20" and "\<And>n. bit f n \<Longrightarrow> n < 12"
  shows "table_base (ucast (f OR push_bit 12 q :: u32)) = ucast (push_bit 12 q)"
proof (rule bit_word_eqI)
  fix n assume "n < LENGTH(64)"
  have "\<not> bit f n" if "12 \<le> n" for n using assms(2) [of n] that by auto
  then show "bit (table_base (ucast (f OR push_bit 12 q))) n = bit (ucast (push_bit 12 q) :: u64) n"
    by (auto simp: table_base_def bit_simps dest: bit_low)
qed

lemma three_low: "bit (3 :: u32) n \<Longrightarrow> n < 12" and flags_low: "bit (0x83 :: u32) n \<Longrightarrow> n < 12"
  unfolding three bit_or_iff bit_push_bit_iff bit_1_iff bit_mask_iff by auto

lemma usable_entry:
  "usable (ucast (3 OR push_bit 12 q :: u32))" "\<not> bit (ucast (3 OR push_bit 12 q :: u32) :: u64) 7"
  "usable (ucast (0x83 OR push_bit 21 q :: u32))" "bit (ucast (0x83 OR push_bit 21 q :: u32) :: u64) 7"
  "\<not> usable (ucast (0 :: u32))"
  unfolding usable_def three by (simp_all add: bit_simps)

lemma page_address:
  fixes va :: addr
  assumes "unat va < 2 ^ 32" and "drop_bit 21 a = (drop_bit 21 (ucast va) :: u32)"
  shows "push_bit 21 (take_bit 31 (drop_bit 21 (ucast (0x83 OR push_bit 21 (drop_bit 21 a) :: u32)))) OR take_bit 21 va = va"
proof (rule bit_word_eqI)
  fix n assume n: "n < LENGTH(64)"
  have "va = ucast (ucast va :: u32)" using assms(1) by (simp add: word_unat_eq_iff unat_ucast_u64_u32)
  moreover have "bit (ucast (x :: u32) :: addr) n \<Longrightarrow> n < 32" for x by (auto simp: bit_simps dest: bit_low)
  ultimately have hi: "bit va n \<Longrightarrow> n < 32" by metis
  show "bit (push_bit 21 (take_bit 31 (drop_bit 21 (ucast (0x83 OR push_bit 21 (drop_bit 21 a) :: u32)))) OR take_bit 21 va) n = bit va n"
    unfolding assms(2) using n hi flags_low [of n] by (cases "n < 32") (auto simp: bit_simps not_less)
qed

lemma table_load: "table m p f \<Longrightarrow> i < 512 \<Longrightarrow> load64 m (p + of_nat (8 * i)) = ucast (f i)"
  by (simp add: table_def)

lemma table_index_eq: "table_index n va = unat va div 2 ^ n mod 512"
  unfolding table_index_def unsigned_take_bit_eq unat_drop_bit_eq by (simp add: take_bit_eq_mod drop_bit_eq_div)

lemma sdm_entries:
  "pack_pml4e sdm_layout (mapped_entry x) = 3 OR push_bit 12 x"
  "pack_pdpe sdm_layout (mapped_entry x) = 3 OR push_bit 12 x"
  "pack_pde_2mb sdm_layout ((mapped_entry x)\<lparr>pse := True\<rparr>) = 0x83 OR push_bit 21 x"
  "pack_cr3 sdm_layout ((mapped_entry x)\<lparr>present := False, rw := False\<rparr>) = 0 OR push_bit 12 x"
  by (simp_all add: sdm_layout_def mapped_flags) (simp_all add: mapped_entry_def flag_def)

lemma not_usable_0: "\<not> usable 0"
  by (simp add: usable_def)

lemma mapped_address:
  fixes va :: addr
  assumes "unat va < 2 ^ 32"
  shows "drop_bit 21 (of_nat (unat va div 2 ^ 30) * 0x40000000 + of_nat (unat va div 2 ^ 21 mod 512) * PAGE_2MB_SIZE :: u32)
    = drop_bit 21 (ucast va)"
proof -
  define n where "n = unat va"
  have n: "n < 4294967296" "(2 :: nat) ^ 30 = 1073741824" "(2 :: nat) ^ 21 = 2097152" using assms by (simp_all add: n_def)
  define q where "q = n div 2097152"
  have "n div 1073741824 = q div 512" using div_mult2_eq [of n 2097152 512] by (simp add: q_def)
  then have "n div 2 ^ 30 * 1073741824 + n div 2 ^ 21 mod 512 * 2097152 = 2097152 * (n div 2097152)"
    using div_mult_mod_eq [of q 512] unfolding n(2,3) q_def [symmetric] by linarith
  moreover have "of_nat (n div 2 ^ 30) * 0x40000000 + of_nat (n div 2 ^ 21 mod 512) * PAGE_2MB_SIZE
      = (of_nat (n div 2 ^ 30 * 1073741824 + n div 2 ^ 21 mod 512 * 2097152) :: u32)"
    by (simp add: PAGE_2MB_SIZE_def)
  ultimately have "of_nat (n div 2 ^ 30) * 0x40000000 + of_nat (n div 2 ^ 21 mod 512) * PAGE_2MB_SIZE
      = (of_nat (2097152 * (n div 2097152)) :: u32)" by (simp only:)
  moreover have "unat (of_nat (2097152 * (n div 2097152)) :: u32) = 2097152 * (n div 2097152)"
    using n(1) div_times_less_eq_dividend [of n 2097152] by (intro unat_of_nat32) (simp add: mult.commute)
  ultimately have u: "unat (of_nat (n div 2 ^ 30) * 0x40000000 + of_nat (n div 2 ^ 21 mod 512) * PAGE_2MB_SIZE :: u32)
      = 2097152 * (n div 2097152)" by (simp only:)
  have v: "unat (ucast va :: u32) = n" using assms by (simp add: unat_ucast_u64_u32 n_def)
  show ?thesis unfolding n_def [symmetric]
    by (rule word_unat_eq_iff [THEN iffD2]) (simp only: unat_drop_bit_eq u v, simp add: drop_bit_eq_div)
qed

text \<open>What the processor reads on its walk through the tables that are built.\<close>

lemma base_of_entry:
  assumes "4096 dvd b" and "b + 4096 * 6 \<le> 2 ^ 32" and "k < 6" and "\<And>n. bit f n \<Longrightarrow> n < 12"
  shows "table_base (ucast (f OR push_bit 12 (drop_bit 12 (ucast (pg b k))) :: u32)) = pg b k"
  using pg_bits [OF assms(1-3)] table_base_entry [OF _ assms(4)] by auto

lemma walk_entries:
  fixes va :: addr
  assumes "tables_built sdm_layout b m m'"
  defines "i4 \<equiv> unat va div 2 ^ 39 mod 512" and "i3 \<equiv> unat va div 2 ^ 30 mod 512" and "i2 \<equiv> unat va div 2 ^ 21 mod 512"
  shows "load64 m' (pg b 0 + of_nat (8 * i4)) = ucast (if i4 = 0 then 3 OR push_bit 12 (drop_bit 12 (ucast (pg b 1))) else 0 :: u32)"
    and "load64 m' (pg b 1 + of_nat (8 * i3)) =
      ucast (if i3 < 4 then 3 OR push_bit 12 (drop_bit 12 (ucast (pg b (2 + i3)))) else 0 :: u32)"
    and "i3 < 4 \<Longrightarrow> load64 m' (pg b (2 + i3) + of_nat (8 * i2)) =
      ucast (0x83 OR push_bit 21 (drop_bit 21 (of_nat i3 * 0x40000000 + of_nat i2 * PAGE_2MB_SIZE)) :: u32)"
proof -
  have t4: "table m' (pg b 0) (\<lambda>i. if i = 0 then 3 OR push_bit 12 (drop_bit 12 (ucast (pg b 1))) else 0)"
    and t3: "table m' (pg b 1) (\<lambda>i. if i < 4 then 3 OR push_bit 12 (drop_bit 12 (ucast (pg b (2 + i)))) else 0)"
    and t2: "\<And>j. j < 4 \<Longrightarrow> table m' (pg b (2 + j)) (\<lambda>i. if i < 512
        then 0x83 OR push_bit 21 (drop_bit 21 (of_nat j * 0x40000000 + of_nat i * PAGE_2MB_SIZE)) else 0)"
    using assms(1) unfolding tables_built_def sdm_entries by blast+
  show "load64 m' (pg b 0 + of_nat (8 * i4)) = ucast (if i4 = 0 then 3 OR push_bit 12 (drop_bit 12 (ucast (pg b 1))) else 0 :: u32)"
    by (rule table_load [OF t4]) (simp add: i4_def)
  show "load64 m' (pg b 1 + of_nat (8 * i3)) =
      ucast (if i3 < 4 then 3 OR push_bit 12 (drop_bit 12 (ucast (pg b (2 + i3)))) else 0 :: u32)"
    by (rule table_load [OF t3]) (simp add: i3_def)
  assume "i3 < 4"
  from table_load [OF t2 [OF this], of i2]
  show "load64 m' (pg b (2 + i3) + of_nat (8 * i2)) =
      ucast (0x83 OR push_bit 21 (drop_bit 21 (of_nat i3 * 0x40000000 + of_nat i2 * PAGE_2MB_SIZE)) :: u32)"
    by (simp add: i2_def)
qed

lemma walk_low:
  assumes built: "tables_built sdm_layout b m m'" and page: "4096 dvd b" "b + 4096 * 6 \<le> 2 ^ 32" and va: "unat va < 2 ^ 32"
  shows "page_walk m' (ucast (0 OR push_bit 12 (drop_bit 12 (ucast (pg b 0))) :: u32)) va = Some va"
proof -
  let ?ix4 = "unat va div 2 ^ 39 mod 512" and ?ix3 = "unat va div 2 ^ 30 mod 512" and ?ix2 = "unat va div 2 ^ 21 mod 512"
  note e = walk_entries [OF built, of va] and base = base_of_entry [OF page]
  have ix: "?ix4 = 0" "?ix3 = unat va div 2 ^ 30" "unat va div 2 ^ 30 < 4" using va by (simp_all add: less_mult_imp_div_less)
  have ix3: "?ix3 < 4" "2 + ?ix3 < 6" using ix(2,3) by simp_all
  have e4: "load64 m' (pg b 0 + of_nat (8 * ?ix4)) = ucast (3 OR push_bit 12 (drop_bit 12 (ucast (pg b 1))) :: u32)"
    using e(1) unfolding if_P [OF ix(1)] .
  have e3: "load64 m' (pg b 1 + of_nat (8 * ?ix3)) = ucast (3 OR push_bit 12 (drop_bit 12 (ucast (pg b (2 + ?ix3)))) :: u32)"
    using e(2) unfolding if_P [OF ix3(1)] .
  let ?a = "of_nat ?ix3 * 0x40000000 + of_nat ?ix2 * PAGE_2MB_SIZE :: u32"
  have b0: "table_base (ucast (0 OR push_bit 12 (drop_bit 12 (ucast (pg b 0))) :: u32)) = pg b 0" by (rule base) simp_all
  have b4: "table_base (ucast (3 OR push_bit 12 (drop_bit 12 (ucast (pg b 1))) :: u32)) = pg b 1"
    using three_low by (intro base) simp_all
  have b3: "table_base (ucast (3 OR push_bit 12 (drop_bit 12 (ucast (pg b (2 + ?ix3)))) :: u32)) = pg b (2 + ?ix3)"
    using three_low ix3(2) by (intro base) simp_all
  have "drop_bit 21 ?a = (drop_bit 21 (ucast va) :: u32)" using mapped_address [OF va] unfolding ix(2) .
  note pa = page_address [OF va this]
  show ?thesis unfolding page_walk_def table_index_eq b0 e4 Let_def b4 e3 b3 e(3) [OF ix3(1)] pa by (simp add: usable_entry)
qed

lemma walk_high:
  assumes built: "tables_built sdm_layout b m m'" and page: "4096 dvd b" "b + 4096 * 6 \<le> 2 ^ 32"
    and va: "unat va < 2 ^ 48" "\<not> unat va < 2 ^ 32"
  shows "page_walk m' (ucast (0 OR push_bit 12 (drop_bit 12 (ucast (pg b 0))) :: u32)) va = None"
proof -
  let ?ix4 = "unat va div 2 ^ 39 mod 512" and ?ix3 = "unat va div 2 ^ 30 mod 512"
  note e = walk_entries [OF built, of va] and base = base_of_entry [OF page]
  have b0: "table_base (ucast (0 OR push_bit 12 (drop_bit 12 (ucast (pg b 0))) :: u32)) = pg b 0" by (rule base) simp_all
  show ?thesis
  proof (cases "?ix4 = 0")
    case True
    have "unat va div 2 ^ 39 < 512" using va(1) by (simp add: less_mult_imp_div_less)
    then have "unat va < 2 ^ 39" using True by (simp add: div_eq_0_iff)
    then have "unat va div 2 ^ 30 < 512" by (simp add: less_mult_imp_div_less)
    then have "\<not> ?ix3 < 4" using va(2) by (simp add: div_less_iff_less_mult)
    from e(2) [unfolded if_not_P [OF this]] have e3: "load64 m' (pg b 1 + of_nat (8 * ?ix3)) = ucast (0 :: u32)" .
    have e4: "load64 m' (pg b 0 + of_nat (8 * ?ix4)) = ucast (3 OR push_bit 12 (drop_bit 12 (ucast (pg b 1))) :: u32)"
      using e(1) unfolding if_P [OF True] .
    have b4: "table_base (ucast (3 OR push_bit 12 (drop_bit 12 (ucast (pg b 1))) :: u32)) = pg b 1"
      using three_low by (intro base) simp_all
    show ?thesis unfolding page_walk_def table_index_eq b0 e4 Let_def b4 e3 by (simp add: not_usable_0)
  next
    case False
    then have e4: "load64 m' (pg b 0 + of_nat (8 * ?ix4)) = ucast (0 :: u32)" using e(1) by simp
    show ?thesis unfolding page_walk_def table_index_eq b0 e4 Let_def by (simp add: not_usable_0)
  qed
qed

lemma walk_tables:
  assumes "tables_built sdm_layout b m m'" and "4096 dvd b" and "b + 4096 * 6 \<le> 2 ^ 32" and "unat va < 2 ^ 48"
  shows "page_walk m' (ucast (pack_cr3 sdm_layout ((mapped_entry (drop_bit 12 (ucast (pg b 0))))\<lparr>present := False, rw := False\<rparr>))) va =
    (if unat va < 2 ^ 32 then Some va else None)"
  unfolding sdm_entries using walk_low [OF assms(1-3)] walk_high [OF assms] by simp

text \<open>
  C11: on a heap with six free pages \<open>x32_pt64_setup_paging\<close> returns, and the tables it leaves in memory map
  the first 4 GB onto themselves, present and writable in every level, with nothing mapped above; no
  byte outside the six pages changes.
\<close>

theorem x32_pt64_setup_paging_identity:
  assumes "aligns_forward af" and "heap_inv_page h" and "b = (unat (heap_current h) + 4095) div 4096 * 4096"
    and "b + 4096 * 6 \<le> unat (heap_tops h)"
  shows "\<exists>cr3 h' m'. x32_pt64_setup_paging sdm_layout af memory_size m h = Some (cr3, h', m') \<and>
    (\<forall>va. unat va < 2 ^ 48 \<longrightarrow> page_walk m' (ucast cr3) va = (if unat va < 2 ^ 32 then Some va else None)) \<and>
    (\<forall>x. unat x < b \<or> b + 4096 * 6 \<le> unat x \<longrightarrow> m' x = m x)"
proof -
  have small: "b + 4096 * 6 \<le> 2 ^ 32" using assms(4) unat_less32 [of "heap_tops h"] by linarith
  obtain h' m' where run: "x32_pt64_setup_paging sdm_layout af memory_size m h =
      Some (pack_cr3 sdm_layout ((mapped_entry (drop_bit 12 (ucast (pg b 0))))\<lparr>present := False, rw := False\<rparr>), h', m')"
    and built: "tables_built sdm_layout b m m'"
    using setup_paging_tables [OF assms] by blast
  have "4096 dvd b" using assms(3) by simp
  note walk = walk_tables [OF built this small]
  have "m' x = m x" if "unat x < b \<or> b + 4096 * 6 \<le> unat x" for x
  proof -
    have "\<not> in_range (pg b k) 4096 x" if "k < 6" for k
    proof -
      have u: "unat (pg b k) = b + 4096 * k" unfolding pg_def using small that by (intro unat_of_nat64) simp
      have "in_range (pg b k) 4096 x \<longleftrightarrow> b + 4096 * k \<le> unat x \<and> unat x < b + 4096 * k + 4096"
        using u small that by (subst in_range_linear) simp_all
      then show ?thesis using \<open>unat x < b \<or> b + 4096 * 6 \<le> unat x\<close> that by auto
    qed
    then show ?thesis using built by (simp add: tables_built_def)
  qed
  then show ?thesis using run walk by blast
qed

lemma x32_pt64_setup_paging_identity_witness:
  "\<exists>cr3 h' m'. x32_pt64_setup_paging sdm_layout align_forward_macro 0 (\<lambda>_. 0xFF) \<lparr>heap_base = 0x1000,
        heap_current = 0x1001, heap_tops = 0x8000\<rparr> = Some (cr3, h', m') \<and>
    (\<forall>va. unat va < 2 ^ 48 \<longrightarrow> page_walk m' (ucast cr3) va = (if unat va < 2 ^ 32 then Some va else None)) \<and>
    (\<forall>x. unat x < 0x2000 \<or> 0x2000 + 4096 * 6 \<le> unat x \<longrightarrow> m' x = 0xFF)"
proof -
  show ?thesis
    by (rule x32_pt64_setup_paging_identity [OF align_forward_macro_law]) (simp_all add: heap_inv_page_def)
qed

end
