(* ===== verification/Long_Mode.thy ===== *)
theory Long_Mode
  imports Page_Tables Screen
begin

text \<open>
  The way into 64-bit mode beside the page tables: \<open>pre_os/xmon_loader/utils/x64/x32_gdt64.c\<close>, which clones
  the 32-bit GDT and appends a 64-bit code and a data descriptor, and \<open>startap/x32_init64.c\<close>, which loads
  the registers. The GDT register's value is a parameter, as are the bit positions of a descriptor's
  fields (\<open>put\<close>; \<open>sdm_descriptor\<close> is the processor manual's) and the addresses of the string literals
  (\<open>lit\<close>). Only the upper half of a descriptor is assigned; bits that no field covers keep their value.
\<close>

section \<open>The descriptor table\<close>

record gdtr =
  gdtr_limit :: u16
  gdtr_base :: u32

record descriptor_hi =
  seg_accessed :: bool
  seg_readable :: bool
  seg_conforming :: bool
  seg_mbo_11 :: bool
  seg_mbo_12 :: bool
  seg_dpl :: u32
  seg_present :: bool
  seg_long_mode :: bool
  seg_default_size :: bool
  seg_granularity :: bool

definition code_descriptor :: descriptor_hi where
  "code_descriptor =
     \<lparr>seg_accessed = False, seg_readable = True, seg_conforming = True, seg_mbo_11 = True, seg_mbo_12 = True,
      seg_dpl = 0, seg_present = True, seg_long_mode = True, seg_default_size = False, seg_granularity = True\<rparr>"

definition data_descriptor :: descriptor_hi where
  "data_descriptor =
     \<lparr>seg_accessed = False, seg_readable = True, seg_conforming = False, seg_mbo_11 = False, seg_mbo_12 = True,
      seg_dpl = 0, seg_present = True, seg_long_mode = True, seg_default_size = False, seg_granularity = True\<rparr>"

text \<open>The field assignments to \<open>p_gdt_64[index].hi\<close>.\<close>

definition set_descriptor :: "(descriptor_hi \<Rightarrow> u32 \<Rightarrow> u32) \<Rightarrow> addr \<Rightarrow> u32 \<Rightarrow> descriptor_hi \<Rightarrow> mem \<Rightarrow> mem" where
  "set_descriptor put p_gdt_64 index d m =
     (let hi = p_gdt_64 + 8 * ucast index + 4 in store32 m hi (put d (load32 m hi)))"

text \<open>
  The result: \<open>gdtr_64\<close> (\<open>x32_gdt64_get_gdtr\<close>), \<open>cs_64\<close> (\<open>x32_gdt64_get_cs\<close>), the heap and the memory.
\<close>

definition x32_gdt64_setup ::
  "(descriptor_hi \<Rightarrow> u32 \<Rightarrow> u32) \<Rightarrow> (u32 \<Rightarrow> u64 \<Rightarrow> u64) \<Rightarrow> gdtr \<Rightarrow> mem \<Rightarrow> heap \<Rightarrow> (gdtr \<times> u16 \<times> heap \<times> mem) option" where
  "x32_gdt64_setup put af gdtr_32 m h =
     map_option (\<lambda>(p_gdt_64, h, m).
       let m = mon_memcpy m p_gdt_64 (ucast (gdtr_base gdtr_32)) (ucast (gdtr_limit gdtr_32) + 1);
           last_index = ucast (gdtr_limit gdtr_32) div 8 :: u32;
           last_index = if load64 m (p_gdt_64 + 8 * ucast last_index) \<noteq> 0 then last_index + 1 else last_index;
           m = set_descriptor put p_gdt_64 last_index code_descriptor m;
           m = set_descriptor put p_gdt_64 (last_index + 1) data_descriptor m;
           gdtr_64 = \<lparr>gdtr_limit = gdtr_limit gdtr_32 + 8 * 2, gdtr_base = ucast p_gdt_64\<rparr>
       in (gdtr_64, ucast (last_index * 8), h, m)) (table_page af m h)"

text \<open>\<open>print_gdt\<close>: the loop's body and the loop.\<close>

definition print_gdt_entry :: "(nat \<Rightarrow> u8) \<Rightarrow> (string \<Rightarrow> addr) \<Rightarrow> addr \<Rightarrow> u16 \<Rightarrow> console \<Rightarrow> console option" where
  "print_gdt_entry lsr lit tab i s =
     Option.bind (print_value lsr (ucast i) s) (\<lambda>s.
     Option.bind (print_string lsr (lit ''....'') s) (\<lambda>s.
     Option.bind (print_value lsr (load32 (con_mem s) (tab + 4 * (2 * ucast i))) s) (\<lambda>s.
     Option.bind (print_string lsr (lit '' '') s) (\<lambda>s.
     Option.bind (print_value lsr (load32 (con_mem s) (tab + 4 * (2 * ucast i + 1))) s)
       (print_string lsr (lit ''\<newline>''))))))"

primrec print_gdt_loop :: "(nat \<Rightarrow> u8) \<Rightarrow> (string \<Rightarrow> addr) \<Rightarrow> addr \<Rightarrow> nat \<Rightarrow> u16 \<Rightarrow> console \<Rightarrow> console option" where
  "print_gdt_loop lsr lit tab 0 i s = Some s"
| "print_gdt_loop lsr lit tab (Suc n) i s =
     Option.bind (print_gdt_entry lsr lit tab i s) (print_gdt_loop lsr lit tab n (i + 1))"

definition print_gdt ::
  "(nat \<Rightarrow> u8) \<Rightarrow> (string \<Rightarrow> addr) \<Rightarrow> gdtr \<Rightarrow> u32 \<Rightarrow> u16 \<Rightarrow> console \<Rightarrow> console option" where
  "print_gdt lsr lit gdtr base limit s =
     (let (base, limit) = if base = 0 then (gdtr_base gdtr, gdtr_limit gdtr) else (base, limit)
      in Option.bind (print_string lsr (lit ''GDT BASE = '') s) (\<lambda>s.
         Option.bind (print_value lsr base s) (\<lambda>s.
         Option.bind (print_string lsr (lit ''GDT LIMIT = '') s) (\<lambda>s.
         Option.bind (print_value lsr (ucast limit) s) (\<lambda>s.
         Option.bind (print_string lsr (lit ''\<newline>'') s)
           (print_gdt_loop lsr lit (ucast base) ((unat limit + 1) div 8) 0))))))"

section \<open>The switch\<close>

record init64 =
  i64_cs :: u16
  i64_gdtr :: gdtr
  i64_cr3 :: u32
  i64_efer :: u64

datatype cpu_write = Write_gdtr gdtr | Write_cr3 u32 | Write_cr4 u32 | Write_msr u32 u64 | Start_64bit u32 u32

text \<open>\<open>start_64bit_mode\<close> is assembly and does not come back: the last write is the call with the code's
  address and segment. \<open>cr4\<close> is the value that \<open>ia32_read_cr4\<close> gives.\<close>

definition PSE_BIT :: u32 where "PSE_BIT = 0x10"
definition PAE_BIT :: u32 where "PAE_BIT = 0x20"

definition x32_init64_start :: "u32 \<Rightarrow> init64 \<Rightarrow> u32 \<Rightarrow> cpu_write list" where
  "x32_init64_start cr4 p_init64_data address_of_64bit_code =
     [Write_gdtr (i64_gdtr p_init64_data), Write_cr3 (i64_cr3 p_init64_data),
      Write_cr4 (cr4 OR (PAE_BIT OR PSE_BIT)), Write_msr 0xC0000080 (i64_efer p_init64_data),
      Start_64bit address_of_64bit_code (ucast (i64_cs p_init64_data))]"

section \<open>The entries after the set-up\<close>

definition sdm_descriptor :: "descriptor_hi \<Rightarrow> u32 \<Rightarrow> u32" where
  "sdm_descriptor d w = (w AND 0xFF1F00FF) OR
     flag 8 (seg_accessed d) OR flag 9 (seg_readable d) OR flag 10 (seg_conforming d) OR flag 11 (seg_mbo_11 d)
     OR flag 12 (seg_mbo_12 d) OR push_bit 13 (take_bit 2 (seg_dpl d)) OR flag 15 (seg_present d)
     OR flag 21 (seg_long_mode d) OR flag 22 (seg_default_size d) OR flag 23 (seg_granularity d)"

lemma sdm_new_descriptors:
  "sdm_descriptor code_descriptor 0 = 0x00A09E00" "sdm_descriptor data_descriptor 0 = 0x00A09200"
  by (simp_all add: sdm_descriptor_def code_descriptor_def data_descriptor_def flag_def)

text \<open>\<open>gdt m p g\<close>: the 512 descriptors of the page at \<open>p\<close> are those \<open>g\<close> gives.\<close>

definition gdt :: "mem \<Rightarrow> addr \<Rightarrow> (nat \<Rightarrow> u64) \<Rightarrow> bool" where
  "gdt m p g \<longleftrightarrow> (\<forall>i < 512. load64 m (p + of_nat (8 * i)) = g i)"

lemma load64_zero_high: "load64 m a = 0 \<Longrightarrow> load32 m (a + 4) = 0"
proof (rule bit_word_eqI)
  fix n assume z: "load64 m a = 0" and n: "n < LENGTH(32)"
  have "bit (load32 m (a + 4)) n = bit (load64 m a) (n + 32)"
    unfolding load64_halves using n by (auto simp: bit_simps dest: bit_imp_le_length)
  then show "bit (load32 m (a + 4)) n = bit (0 :: u32) n" unfolding z by simp
qed

lemma load64_zero_low: "load64 m a = 0 \<Longrightarrow> load32 m a = 0"
proof (rule bit_word_eqI)
  fix n assume z: "load64 m a = 0" and n: "n < LENGTH(32)"
  have "bit (load32 m a) n = bit (load64 m a) n"
    unfolding load64_halves using n by (auto simp: bit_simps dest: bit_imp_le_length)
  then show "bit (load32 m a) n = bit (0 :: u32) n" unfolding z by simp
qed

lemma gdt_set:
  assumes "gdt m p g" and index: "unat index = i" and "i < 512" and "g i = 0"
  shows "gdt (set_descriptor put p index d m) p (g(i := push_bit 32 (ucast (put d 0))))"
    and "\<not> in_range p 4096 x \<Longrightarrow> set_descriptor put p index d m x = m x"
proof -
  have at: "p + 8 * ucast index + 4 = p + of_nat (8 * i + 4)"
    unfolding index [symmetric] by (simp add: add.assoc)
  have e: "load64 m (p + of_nat (8 * i)) = 0" using assms(1,3,4) unfolding gdt_def by metis
  have split: "p + of_nat (8 * i + 4) = p + of_nat (8 * i) + 4" by simp
  have hi: "load32 m (p + of_nat (8 * i + 4)) = 0" unfolding split by (rule load64_zero_high [OF e])
  define w where "w = put d 0"
  have set: "set_descriptor put p index d m = store32 m (p + of_nat (8 * i + 4)) w"
    unfolding set_descriptor_def Let_def at hi w_def ..
  show "gdt (set_descriptor put p index d m) p (g(i := push_bit 32 (ucast (put d 0))))"
    unfolding gdt_def set w_def [symmetric]
  proof (intro allI impI)
    fix j :: nat assume j: "j < 512"
    show "load64 (store32 m (p + of_nat (8 * i + 4)) w) (p + of_nat (8 * j)) = (g(i := push_bit 32 (ucast w))) j"
    proof (cases "j = i")
      case True
      have "disjoint_ranges (p + of_nat (8 * i) + 4) 4 (p + of_nat (8 * i) + 0) 4" by (rule fields_disjoint) simp_all
      then have "load32 (store32 m (p + of_nat (8 * i + 4)) w) (p + of_nat (8 * i)) = load32 m (p + of_nat (8 * i))"
        unfolding split by (simp add: load_store_disjoint)
      then show ?thesis using load64_zero_low [OF e] True unfolding split by (simp add: load64_halves)
    next
      case False
      have "8 * i + 4 + 4 \<le> 8 * j \<or> 8 * j + 8 \<le> 8 * i + 4" using False by linarith
      then have "disjoint_ranges (p + of_nat (8 * i + 4)) 4 (p + of_nat (8 * j)) 8"
        using assms(3) j by (intro fields_disjoint) (simp_all add: unat_of_nat64 del: of_nat_mult of_nat_add)
      then have "load64 (store32 m (p + of_nat (8 * i + 4)) w) (p + of_nat (8 * j)) = load64 m (p + of_nat (8 * j))"
        by (simp add: load_store_disjoint del: of_nat_add)
      with assms(1) j False show ?thesis by (simp add: gdt_def)
    qed
  qed
  have "unat (of_nat (8 * i + 4) :: addr) = 8 * i + 4" using assms(3) by (intro unat_of_nat64) simp
  then have fits: "unat (of_nat (8 * i + 4) :: addr) + 4 \<le> 4096" using assms(3) by linarith
  have sub: "in_range p 4096 x" if "in_range (p + of_nat (8 * i + 4)) 4 x"
    by (rule in_range_sub [OF that fits]) simp
  show "set_descriptor put p index d m x = m x" if "\<not> in_range p 4096 x"
    using sub that unfolding set by (auto simp: store_le_apply)
qed

lemma gdt_clone:
  assumes "table m p (\<lambda>_. 0)" and "unat c = 8 * k" and "k \<le> 512"
    and "disjoint_ranges p 4096 s (8 * k)"
  shows "gdt (mon_memcpy m p s c) p (\<lambda>i. if i < k then load64 m (s + of_nat (8 * i)) else 0)"
proof -
  have d: "disjoint_ranges p (unat c) s (unat c)"
    using disjoint_ranges_sub [OF assms(4), of "8 * k" 0 "8 * k"] assms(2,3) by simp
  have "load64 (mon_memcpy m p s c) (p + of_nat (8 * i)) = load64 m (s + of_nat (8 * i))" if "i < k" for i
  proof (rule same_bytes_load [of _ _ _ _ "8 * k"])
    show "same_bytes m s (mon_memcpy m p s c) p (8 * k)"
      unfolding same_bytes_def by (simp add: mon_memcpy_disjoint [OF d] in_range_def assms(2))
  qed (use that assms(3) in \<open>simp_all add: unat_of_nat64 del: of_nat_mult\<close>)
  moreover have "load64 (mon_memcpy m p s c) (p + of_nat (8 * i)) = 0" if "k \<le> i" "i < 512" for i
  proof -
    have "load64 (mon_memcpy m p s c) (p + of_nat (8 * i)) = load64 m (p + of_nat (8 * i))"
    proof (rule load_le_cong)
      fix x assume x: "in_range (p + of_nat (8 * i)) 8 x"
      have "disjoint_ranges (p + 0) (8 * k) (p + of_nat (8 * i)) 8"
        using that by (intro fields_disjoint) (simp_all add: unat_of_nat64 del: of_nat_mult)
      then have "\<not> in_range p (8 * k) x" using x disjoint_ranges_not_both by force
      then show "mon_memcpy m p s c x = m x" by (simp add: mon_memcpy_outside assms(2))
    qed simp
    then show ?thesis using assms(1) that by (simp add: table_def)
  qed
  ultimately show ?thesis by (simp add: gdt_def)
qed

lemma gdt_copied:
  assumes "table m1 p (\<lambda>_. 0)" and "\<And>x. \<not> in_range p 4096 x \<Longrightarrow> m1 x = m x" and "unat c = 8 * k" and "k \<le> 512"
    and "disjoint_ranges p 4096 s (8 * k)"
  shows "gdt (mon_memcpy m1 p s c) p (\<lambda>i. if i < k then load64 m (s + of_nat (8 * i)) else 0)"
proof -
  have "load64 m1 (s + of_nat (8 * i)) = load64 m (s + of_nat (8 * i))" if "i < k" for i
  proof (rule load_le_cong)
    fix x assume x: "in_range (s + of_nat (8 * i)) 8 x"
    have "unat (of_nat (8 * i) :: addr) = 8 * i" using that assms(4) by (intro unat_of_nat64) simp
    then have "unat (of_nat (8 * i) :: addr) + 8 \<le> 8 * k" using that by linarith
    from in_range_sub [OF x this] assms(4) have "in_range s (8 * k) x" by simp
    then show "m1 x = m x" using disjoint_ranges_not_both [OF assms(5)] by (intro assms(2)) blast
  qed simp
  then have "(\<lambda>i. if i < k then load64 m1 (s + of_nat (8 * i)) else 0) = (\<lambda>i. if i < k then load64 m (s + of_nat (8 * i)) else 0)"
    by auto
  then show ?thesis using gdt_clone [OF assms(1,3-5)] by simp
qed

lemma gdt_appended:
  assumes "gdt m p g" and "unat index = i" and "i + 1 < 512" and "g i = 0" and "g (i + 1) = 0"
    and m': "m' = set_descriptor sdm_descriptor p (index + 1) data_descriptor (set_descriptor sdm_descriptor p index code_descriptor m)"
  shows "gdt m' p (g(i := 0x00A09E0000000000, i + 1 := 0x00A0920000000000))"
    and "\<not> in_range p 4096 x \<Longrightarrow> m' x = m x"
proof -
  have index: "unat (index + 1) = i + 1" using assms(2,3) by (simp add: unat_word_ariths)
  define m3 where "m3 = set_descriptor sdm_descriptor p index code_descriptor m"
  have g3: "gdt m3 p (g(i := 0x00A09E0000000000))"
    using gdt_set(1) [OF assms(1,2) _ assms(4), of sdm_descriptor code_descriptor] assms(3) sdm_new_descriptors
    unfolding m3_def by simp
  have z: "(g(i := 0x00A09E0000000000)) (i + 1) = 0" using assms(5) by simp
  show "gdt m' p (g(i := 0x00A09E0000000000, i + 1 := 0x00A0920000000000))"
    using gdt_set(1) [OF g3 index assms(3) z, of sdm_descriptor data_descriptor] sdm_new_descriptors
    unfolding m' m3_def by (simp add: fun_upd_def)
  show "m' x = m x" if "\<not> in_range p 4096 x"
    using gdt_set(2) [OF g3 index assms(3) z that] gdt_set(2) [OF assms(1,2) _ assms(4) that] assms(3)
    unfolding m' m3_def by simp
qed

text \<open>The index of the first new descriptor.\<close>

lemma last_index:
  assumes "unat (limit :: u16) + 1 = 8 * k" and "0 < k" and "k + 2 \<le> 512"
  shows "unat (ucast limit div 8 :: u32) = k - 1" and "8 * ucast (ucast limit div 8 :: u32) = (of_nat (8 * (k - 1)) :: addr)"
proof -
  obtain j where j: "k = Suc j" using assms(2) by (cases k) simp_all
  have "unat limit = 8 * j + 7" "8 * j + 7 < 2 ^ 32" using assms j by simp_all
  then have "unat (ucast limit div 8 :: u32) = (8 * j + 7) div 8"
    by (simp add: unat_div unsigned_ucast_eq take_bit_nat_eq_self)
  then show li: "unat (ucast limit div 8 :: u32) = k - 1" using j by simp
  define li where "li = (ucast limit div 8 :: u32)"
  show "8 * ucast (ucast limit div 8 :: u32) = (of_nat (8 * (k - 1)) :: addr)"
    using li assms(3) unfolding li_def [symmetric]
    by (simp add: word_unat_eq_iff unat_of_nat64 unat_word_ariths del: of_nat_mult of_nat_diff)
qed

text \<open>The new table, its entries as a function: the old ones, then the two new descriptors from \<open>pos\<close> on.\<close>

lemma x32_gdt64_setup_table:
  fixes m :: mem
  assumes "aligns_forward af" and "heap_inv_page h" and "b = (unat (heap_current h) + 4095) div 4096 * 4096"
    and "b + 4096 \<le> unat (heap_tops h)"
    and "unat (gdtr_limit g) + 1 = 8 * k" and "0 < k" and "k + 2 \<le> 512"
    and "disjoint_ranges (of_nat b) 4096 (ucast (gdtr_base g)) (8 * k)"
  defines "old \<equiv> \<lambda>i. load64 m (ucast (gdtr_base g) + of_nat (8 * i))"
  defines "pos \<equiv> if old (k - 1) = 0 then k - 1 else k"
  shows "\<exists>cs h' m'. x32_gdt64_setup sdm_descriptor af g m h =
      Some (\<lparr>gdtr_limit = gdtr_limit g + 16, gdtr_base = ucast (of_nat b :: addr)\<rparr>, cs, h', m') \<and> unat cs = 8 * pos \<and>
    gdt m' (of_nat b) ((\<lambda>i. if i < k then old i else 0)(pos := 0x00A09E0000000000, pos + 1 := 0x00A0920000000000)) \<and>
    (\<forall>x. unat x < b \<or> b + 4096 \<le> unat x \<longrightarrow> m' x = m x)"
proof -
  let ?p = "of_nat b :: addr" and ?s = "ucast (gdtr_base g) :: addr" and ?c = "ucast (gdtr_limit g) + 1 :: u64"
  have bs: "b + 4096 < 2 ^ 32" using assms(2,4) by (auto simp: heap_inv_page_def)
  obtain h1 m1 where t: "table_page af m h = Some (?p, h1, m1)" "table m1 ?p (\<lambda>_. 0)"
      "\<And>x. \<not> in_range ?p 4096 x \<Longrightarrow> m1 x = m x"
    using table_page_next [OF assms(1,2) assms(3) [symmetric] assms(4), of m] by blast
  have c: "unat ?c = 8 * k" using assms(5,7) by (simp add: unat_add64 unsigned_ucast_eq unsigned_take_bit_eq take_bit_nat_eq_self)
  define G where "G = (\<lambda>i. if i < k then old i else 0)"
  define m2 where "m2 = mon_memcpy m1 ?p ?s ?c"
  have g2: "gdt m2 ?p G" 
    unfolding m2_def G_def old_def
  proof (rule gdt_copied [OF t(2,3) c _ assms(8)])
    show "k \<le> 512" using assms(7) by simp
  qed
  define li where "li = (ucast (gdtr_limit g) div 8 :: u32)"
  note li = last_index [OF assms(5-7), folded li_def]
  have l2: "load64 m2 (?p + 8 * ucast li) = old (k - 1)"
    unfolding li(2) using g2 assms(6,7) by (simp add: gdt_def G_def del: of_nat_mult)
  define ix where "ix = (if load64 m2 (?p + 8 * ucast li) \<noteq> 0 then li + 1 else li)"
  have ix: "unat ix = pos" using li(1) assms(6,7) unfolding ix_def l2 pos_def by (simp add: unat_word_ariths)
  have pos: "pos + 1 < 512" "pos \<le> k" "G pos = 0" "G (pos + 1) = 0" using assms(6,7) by (auto simp: pos_def G_def)
  define m4 where "m4 = set_descriptor sdm_descriptor ?p (ix + 1) data_descriptor (set_descriptor sdm_descriptor ?p ix code_descriptor m2)"
  note g4 = gdt_appended [OF g2 ix pos(1,3,4) m4_def]
  define cs where "cs = (ucast (ix * 8) :: u16)"
  have cs: "unat cs = 8 * pos" using ix pos
    by (simp add: cs_def unsigned_ucast_eq unsigned_take_bit_eq take_bit_nat_eq_self unat_word_ariths)
  have run: "x32_gdt64_setup sdm_descriptor af g m h = Some (\<lparr>gdtr_limit = gdtr_limit g + 16, gdtr_base = ucast ?p\<rparr>, cs, h1, m4)"
    unfolding x32_gdt64_setup_def t(1) m4_def cs_def ix_def li_def m2_def by (simp add: Let_def)
  have b: "unat ?p = b" "unat (ucast ?p :: u32) = b" using bs by (simp_all add: unat_of_nat64 unat_ucast_u64_u32)
  have out: "m4 x = m x" if "unat x < b \<or> b + 4096 \<le> unat x" for x
  proof -
    have no: "\<not> in_range ?p 4096 x" using that bs b by (subst in_range_linear) auto
    then have "\<not> in_range ?p (unat ?c) x" using in_range_mono [of ?p "8 * k" x 4096] assms(7) unfolding c by auto
    then have "m2 x = m1 x" by (simp add: m2_def mon_memcpy_outside)
    moreover have "m4 x = m2 x" by (rule g4(2) [OF no])
    ultimately show ?thesis using t(3) [OF no] by simp
  qed
  show ?thesis using run cs g4(1) out unfolding G_def by blast
qed

text \<open>
  C24: on a 32-bit GDT of \<open>k\<close> whole descriptors that lies outside the loader's next page and leaves room for
  two more, \<open>x32_gdt64_setup\<close> returns a table on that page with every old descriptor at its old selector,
  except that a null last one is reused; \<open>cs_64\<close> selects a present conforming 64-bit code segment of ring
  0, the selector after it a writable data segment, and both lie inside the new limit. Memory outside the
  page does not change.
\<close>

theorem x32_gdt64_setup_clone:
  assumes "aligns_forward af" and "heap_inv_page h" and "b = (unat (heap_current h) + 4095) div 4096 * 4096"
    and "b + 4096 \<le> unat (heap_tops h)"
    and "unat (gdtr_limit g) + 1 = 8 * k" and "0 < k" and "k + 2 \<le> 512"
    and "disjoint_ranges (of_nat b) 4096 (ucast (gdtr_base g)) (8 * k)"
  shows "\<exists>g' cs h' m'. x32_gdt64_setup sdm_descriptor af g m h = Some (g', cs, h', m') \<and>
    unat (gdtr_base g') = b \<and> unat (gdtr_limit g') = 8 * k + 15 \<and>
    unat cs = (if load64 m (ucast (gdtr_base g) + of_nat (8 * (k - 1))) = 0 then 8 * (k - 1) else 8 * k) \<and>
    (\<forall>i < k. 8 * i \<noteq> unat cs \<longrightarrow>
       load64 m' (of_nat b + of_nat (8 * i)) = load64 m (ucast (gdtr_base g) + of_nat (8 * i))) \<and>
    load64 m' (of_nat b + ucast cs) = 0x00A09E0000000000 \<and>
    load64 m' (of_nat b + ucast cs + 8) = 0x00A0920000000000 \<and>
    (\<forall>x. unat x < b \<or> b + 4096 \<le> unat x \<longrightarrow> m' x = m x)"
proof -
  let ?old = "\<lambda>i. load64 m (ucast (gdtr_base g) + of_nat (8 * i))"
  define last where "last = (if ?old (k - 1) = 0 then k - 1 else k)"
  obtain cs h' m' where run: "x32_gdt64_setup sdm_descriptor af g m h =
      Some (\<lparr>gdtr_limit = gdtr_limit g + 16, gdtr_base = ucast (of_nat b :: addr)\<rparr>, cs, h', m')" and cs: "unat cs = 8 * last"
    and tab: "gdt m' (of_nat b) ((\<lambda>i. if i < k then ?old i else 0)(last := 0x00A09E0000000000, last + 1 := 0x00A0920000000000))"
    and out: "\<forall>x. unat x < b \<or> b + 4096 \<le> unat x \<longrightarrow> m' x = m x"
    using x32_gdt64_setup_table [OF assms] unfolding last_def by blast
  have last: "last + 1 < 512" "last \<le> k" using assms(6,7) by (auto simp: last_def)
  have b: "unat (ucast (of_nat b :: addr) :: u32) = b" using assms(2,4) by (auto simp: heap_inv_page_def unat_of_nat64 unat_ucast_u64_u32)
  have csa: "ucast cs = (of_nat (8 * last) :: addr)"
    using cs last by (simp add: word_unat_eq_iff unat_of_nat64 unsigned_ucast_eq take_bit_nat_eq_self del: of_nat_mult)
  then have csb: "of_nat b + ucast cs + 8 = (of_nat b + of_nat (8 * (last + 1)) :: addr)" by simp
  have entry: "load64 m' (of_nat b + of_nat (8 * i)) =
      ((\<lambda>i. if i < k then ?old i else 0)(last := 0x00A09E0000000000, last + 1 := 0x00A0920000000000)) i" if "i < 512" for i
    using tab that unfolding gdt_def by blast
  have "unat (gdtr_limit g + 16) = 8 * k + 15" using assms(5,7) by (simp add: unat_word_ariths)
  moreover have "load64 m' (of_nat b + of_nat (8 * i)) = ?old i" if "i < k" "8 * i \<noteq> unat cs" for i
    using entry [of i] that assms(7) last cs by (auto simp: last_def simp del: of_nat_mult split: if_splits)
  moreover have "unat cs = (if ?old (k - 1) = 0 then 8 * (k - 1) else 8 * k)" using cs by (simp add: last_def)
  moreover have "load64 m' (of_nat b + ucast cs) = 0x00A09E0000000000" using entry [of last] last unfolding csa by simp
  moreover have "load64 m' (of_nat b + ucast cs + 8) = 0x00A0920000000000" using entry [of "last + 1"] last unfolding csb by simp
  ultimately show ?thesis using run b out by auto
qed

definition gdt_demo_mem :: mem where "gdt_demo_mem = (\<lambda>x. if x = 0x508 then 0xFF else 0)"

lemma x32_gdt64_setup_clone_witness:
  "\<exists>g' cs h' m'. x32_gdt64_setup sdm_descriptor align_forward_macro \<lparr>gdtr_limit = 15, gdtr_base = 0x500\<rparr> gdt_demo_mem
      \<lparr>heap_base = 0x1000, heap_current = 0x1001, heap_tops = 0x8000\<rparr> = Some (g', cs, h', m') \<and>
    unat (gdtr_base g') = 0x2000 \<and> unat (gdtr_limit g') = 31 \<and> unat cs = 16 \<and>
    load64 m' 0x2008 = 0xFF \<and> load64 m' (0x2000 + ucast cs) = 0x00A09E0000000000"
proof -
  let ?h = "\<lparr>heap_base = 0x1000, heap_current = 0x1001, heap_tops = 0x8000\<rparr>"
  let ?g = "\<lparr>gdtr_limit = 15, gdtr_base = 0x500\<rparr>"
  have old: "load64 gdt_demo_mem 0x508 = 0xFF"
    by (simp add: load_le_def read_bytes_Suc numeral_eq_Suc) (simp add: gdt_demo_mem_def)
  have "heap_inv_page ?h" by (simp add: heap_inv_page_def)
  from x32_gdt64_setup_clone [OF align_forward_macro_law this, of "0x2000" ?g 2 gdt_demo_mem]
  obtain g' cs h' m' where run: "x32_gdt64_setup sdm_descriptor align_forward_macro ?g gdt_demo_mem ?h = Some (g', cs, h', m')"
    and r: "unat (gdtr_base g') = 0x2000" "unat (gdtr_limit g') = 31" "unat cs = 16"
      "\<forall>i < 2. 8 * i \<noteq> unat cs \<longrightarrow> load64 m' (0x2000 + of_nat (8 * i)) = load64 gdt_demo_mem (0x500 + of_nat (8 * i))"
      "load64 m' (0x2000 + ucast cs) = 0x00A09E0000000000"
    using old by (auto simp: disjoint_ranges_def)
  have "load64 m' 0x2008 = 0xFF" using r(4) [rule_format, of 1] r(3) old by simp
  with run r show ?thesis by blast
qed

end
