(* ===== verification/Idt.thy ===== *)
theory Idt
  imports Screen Heap_Manager
begin

text \<open>
  The interrupt descriptor table of xmon_loader, \<open>pre_os/xmon_loader/idt.c\<close>: the exception handlers, which
  report the fault on the screen and the debug port and then stop at \<open>MON_UP_BREAKPOINT\<close> (a macro
  outside the repository; the state given is the one it finds), and \<open>setup_idt\<close>. The addresses of the string
  literals, of the handlers and of the two variables are parameters. The structures have the C
  layout: a gate is 8 bytes, \<open>base\<close> is 4 bytes after \<open>limit\<close>.
\<close>

section \<open>Vectors and gates\<close>

datatype ia32_exception_vectors =
  IA32_EXCEPTION_VECTOR_DIVIDE_ERROR
| IA32_EXCEPTION_VECTOR_DEBUG_BREAK_POINT
| IA32_EXCEPTION_VECTOR_NMI
| IA32_EXCEPTION_VECTOR_BREAK_POINT
| IA32_EXCEPTION_VECTOR_OVERFLOW
| IA32_EXCEPTION_VECTOR_BOUND_RANGE_EXCEEDED
| IA32_EXCEPTION_VECTOR_UNDEFINED_OPCODE
| IA32_EXCEPTION_VECTOR_NO_MATH_COPROCESSOR
| IA32_EXCEPTION_VECTOR_DOUBLE_FAULT
| IA32_EXCEPTION_VECTOR_RESERVED_0X09
| IA32_EXCEPTION_VECTOR_INVALID_TASK_SEGMENT_SELECTOR
| IA32_EXCEPTION_VECTOR_SEGMENT_NOT_PRESENT
| IA32_EXCEPTION_VECTOR_STACK_SEGMENT_FAULT
| IA32_EXCEPTION_VECTOR_GENERAL_PROTECTION_FAULT
| IA32_EXCEPTION_VECTOR_PAGE_FAULT
| IA32_EXCEPTION_VECTOR_RESERVED_0X0F
| IA32_EXCEPTION_VECTOR_MATH_FAULT
| IA32_EXCEPTION_VECTOR_ALIGNMENT_CHECK
| IA32_EXCEPTION_VECTOR_MACHINE_CHECK
| IA32_EXCEPTION_VECTOR_SIMD_FLOATING_POINT_NUMERIC_ERROR
| IA32_EXCEPTION_VECTOR_RESERVED_SIMD_FLOATING_POINT_NUMEIC_ERROR
| IA32_EXCEPTION_VECTOR_RESERVED_0X14
| IA32_EXCEPTION_VECTOR_RESERVED_0X15
| IA32_EXCEPTION_VECTOR_RESERVED_0X16
| IA32_EXCEPTION_VECTOR_RESERVED_0X17
| IA32_EXCEPTION_VECTOR_RESERVED_0X18
| IA32_EXCEPTION_VECTOR_RESERVED_0X19
| IA32_EXCEPTION_VECTOR_RESERVED_0X1A
| IA32_EXCEPTION_VECTOR_RESERVED_0X1B
| IA32_EXCEPTION_VECTOR_RESERVED_0X1C
| IA32_EXCEPTION_VECTOR_RESERVED_0X1D
| IA32_EXCEPTION_VECTOR_RESERVED_0X1E
| IA32_EXCEPTION_VECTOR_RESERVED_0X1F

text \<open>The enumeration's constants are its members' positions.\<close>

definition exception_vectors :: "ia32_exception_vectors list" where
  "exception_vectors =
     [IA32_EXCEPTION_VECTOR_DIVIDE_ERROR,
      IA32_EXCEPTION_VECTOR_DEBUG_BREAK_POINT,
      IA32_EXCEPTION_VECTOR_NMI,
      IA32_EXCEPTION_VECTOR_BREAK_POINT,
      IA32_EXCEPTION_VECTOR_OVERFLOW,
      IA32_EXCEPTION_VECTOR_BOUND_RANGE_EXCEEDED,
      IA32_EXCEPTION_VECTOR_UNDEFINED_OPCODE,
      IA32_EXCEPTION_VECTOR_NO_MATH_COPROCESSOR,
      IA32_EXCEPTION_VECTOR_DOUBLE_FAULT,
      IA32_EXCEPTION_VECTOR_RESERVED_0X09,
      IA32_EXCEPTION_VECTOR_INVALID_TASK_SEGMENT_SELECTOR,
      IA32_EXCEPTION_VECTOR_SEGMENT_NOT_PRESENT,
      IA32_EXCEPTION_VECTOR_STACK_SEGMENT_FAULT,
      IA32_EXCEPTION_VECTOR_GENERAL_PROTECTION_FAULT,
      IA32_EXCEPTION_VECTOR_PAGE_FAULT,
      IA32_EXCEPTION_VECTOR_RESERVED_0X0F,
      IA32_EXCEPTION_VECTOR_MATH_FAULT,
      IA32_EXCEPTION_VECTOR_ALIGNMENT_CHECK,
      IA32_EXCEPTION_VECTOR_MACHINE_CHECK,
      IA32_EXCEPTION_VECTOR_SIMD_FLOATING_POINT_NUMERIC_ERROR,
      IA32_EXCEPTION_VECTOR_RESERVED_SIMD_FLOATING_POINT_NUMEIC_ERROR,
      IA32_EXCEPTION_VECTOR_RESERVED_0X14,
      IA32_EXCEPTION_VECTOR_RESERVED_0X15,
      IA32_EXCEPTION_VECTOR_RESERVED_0X16,
      IA32_EXCEPTION_VECTOR_RESERVED_0X17,
      IA32_EXCEPTION_VECTOR_RESERVED_0X18,
      IA32_EXCEPTION_VECTOR_RESERVED_0X19,
      IA32_EXCEPTION_VECTOR_RESERVED_0X1A,
      IA32_EXCEPTION_VECTOR_RESERVED_0X1B,
      IA32_EXCEPTION_VECTOR_RESERVED_0X1C,
      IA32_EXCEPTION_VECTOR_RESERVED_0X1D,
      IA32_EXCEPTION_VECTOR_RESERVED_0X1E,
      IA32_EXCEPTION_VECTOR_RESERVED_0X1F]"

primrec position :: "'a \<Rightarrow> 'a list \<Rightarrow> nat" where
  "position x [] = 0"
| "position x (y # ys) = (if x = y then 0 else Suc (position x ys))"

definition vector_number :: "ia32_exception_vectors \<Rightarrow> u32" where
  "vector_number v = of_nat (position v exception_vectors)"

definition IA32_IDT_GATE_TYPE_INTERRUPT_32 :: u8 where "IA32_IDT_GATE_TYPE_INTERRUPT_32 = 0x8E"
definition IDT_VECTOR_COUNT :: nat where "IDT_VECTOR_COUNT = 256"
definition XMON_CS_SELECTOR :: u16 where "XMON_CS_SELECTOR = 0x10"
definition ERROR_CODE_EXT_BIT :: u32 where "ERROR_CODE_EXT_BIT = 0x1"
definition ERROR_CODE_IN_IDT :: u32 where "ERROR_CODE_IN_IDT = 0x2"
definition ERROR_CODE_TI :: u32 where "ERROR_CODE_TI = 0x4"

section \<open>The handlers\<close>

record device =
  dev_lsr :: "nat \<Rightarrow> u8"
  dev_literal :: "string \<Rightarrow> addr"

definition say :: "device \<Rightarrow> string \<Rightarrow> console \<Rightarrow> console option" where
  "say D s = print_string (dev_lsr D) (dev_literal D s)"

definition hex :: "device \<Rightarrow> u32 \<Rightarrow> console \<Rightarrow> console option" where
  "hex D v = print_value (dev_lsr D) v"

primrec steps :: "(console \<Rightarrow> console option) list \<Rightarrow> console \<Rightarrow> console option" where
  "steps [] s = Some s"
| "steps (f # fs) s = Option.bind (f s) (steps fs)"

definition print_exception_header :: "device \<Rightarrow> u32 \<Rightarrow> u32 \<Rightarrow> console \<Rightarrow> console option" where
  "print_exception_header D cs eip =
     steps
       [say D ''****************************************************************\<newline>'',
        say D ''*                                                              *\<newline>'',
        say D ''*       Intel Lightweight Virtual Machine Monitor (TM)         *\<newline>'',
        say D ''*                                                              *\<newline>'',
        say D ''****************************************************************\<newline>'',
        say D ''\<newline>Fatal error has occured at 0x'', hex D cs, say D '':0x'', hex D eip, say D ''\<newline>'',
        say D ''Error type: '']"

definition print_error_code_generic :: "device \<Rightarrow> u32 \<Rightarrow> console \<Rightarrow> console option" where
  "print_error_code_generic D error_code =
     steps
       [say D ''Error code: 0x'', hex D error_code, say D '', index 0x'', hex D (drop_bit 3 error_code),
        say D ''\<newline>'',
        (if error_code AND ERROR_CODE_EXT_BIT \<noteq> 0 then say D ''External event\<newline>'' else say D ''Internal event\<newline>''),
        (if error_code AND ERROR_CODE_IN_IDT \<noteq> 0 then say D ''index is in IDT\<newline>''
         else if error_code AND ERROR_CODE_TI \<noteq> 0 then say D ''index is in LDT\<newline>''
         else say D ''index is in GDT\<newline>'')]"

definition exception_handler_reserved :: "device \<Rightarrow> u32 \<Rightarrow> u32 \<Rightarrow> console \<Rightarrow> console option" where
  "exception_handler_reserved D cs eip = steps [print_exception_header D cs eip, say D ''reserved exception\<newline>'']"

definition exception_handler_divide_error :: "device \<Rightarrow> u32 \<Rightarrow> u32 \<Rightarrow> console \<Rightarrow> console option" where
  "exception_handler_divide_error D cs eip = steps [print_exception_header D cs eip, say D ''Divide error\<newline>'']"

definition exception_handler_debug_break_point :: "device \<Rightarrow> u32 \<Rightarrow> u32 \<Rightarrow> console \<Rightarrow> console option" where
  "exception_handler_debug_break_point D cs eip = steps [print_exception_header D cs eip, say D ''Debug breakpoint\<newline>'']"

definition exception_handler_nmi :: "device \<Rightarrow> u32 \<Rightarrow> u32 \<Rightarrow> console \<Rightarrow> console option" where
  "exception_handler_nmi D cs eip = steps [print_exception_header D cs eip, say D ''nmi\<newline>'']"

definition exception_handler_break_point :: "device \<Rightarrow> u32 \<Rightarrow> u32 \<Rightarrow> console \<Rightarrow> console option" where
  "exception_handler_break_point D cs eip = steps [print_exception_header D cs eip, say D ''Breakpoint\<newline>'']"

definition exception_handler_overflow :: "device \<Rightarrow> u32 \<Rightarrow> u32 \<Rightarrow> console \<Rightarrow> console option" where
  "exception_handler_overflow D cs eip = steps [print_exception_header D cs eip, say D ''Overflow\<newline>'']"

definition exception_handler_bound_range_exceeded :: "device \<Rightarrow> u32 \<Rightarrow> u32 \<Rightarrow> console \<Rightarrow> console option" where
  "exception_handler_bound_range_exceeded D cs eip = steps [print_exception_header D cs eip, say D ''Bound range exceeded\<newline>'']"

definition exception_handler_undefined_opcode :: "device \<Rightarrow> u32 \<Rightarrow> u32 \<Rightarrow> console \<Rightarrow> console option" where
  "exception_handler_undefined_opcode D cs eip = steps [print_exception_header D cs eip, say D ''Undefined opcode\<newline>'']"

definition exception_handler_no_math_coprocessor :: "device \<Rightarrow> u32 \<Rightarrow> u32 \<Rightarrow> console \<Rightarrow> console option" where
  "exception_handler_no_math_coprocessor D cs eip = steps [print_exception_header D cs eip, say D ''No math coprocessor\<newline>'']"

text \<open>The error code of a double fault is always zero and is not printed.\<close>

definition exception_handler_double_fault :: "device \<Rightarrow> u32 \<Rightarrow> u32 \<Rightarrow> u32 \<Rightarrow> console \<Rightarrow> console option" where
  "exception_handler_double_fault D cs eip error_code = steps [print_exception_header D cs eip, say D ''Double fault\<newline>'']"

definition exception_handler_invalid_task_segment_selector :: "device \<Rightarrow> u32 \<Rightarrow> u32 \<Rightarrow> u32 \<Rightarrow> console \<Rightarrow> console option" where
  "exception_handler_invalid_task_segment_selector D cs eip error_code =
     steps [print_exception_header D cs eip, say D ''Invalid task segment selector\<newline>'', print_error_code_generic D error_code]"

definition exception_handler_segment_not_present :: "device \<Rightarrow> u32 \<Rightarrow> u32 \<Rightarrow> u32 \<Rightarrow> console \<Rightarrow> console option" where
  "exception_handler_segment_not_present D cs eip error_code =
     steps [print_exception_header D cs eip, say D ''segment not present\<newline>'', print_error_code_generic D error_code]"

definition exception_handler_stack_segment_fault :: "device \<Rightarrow> u32 \<Rightarrow> u32 \<Rightarrow> u32 \<Rightarrow> console \<Rightarrow> console option" where
  "exception_handler_stack_segment_fault D cs eip error_code =
     steps [print_exception_header D cs eip, say D ''Stack segment fault\<newline>'', print_error_code_generic D error_code]"

definition exception_handler_general_protection_fault :: "device \<Rightarrow> u32 \<Rightarrow> u32 \<Rightarrow> u32 \<Rightarrow> console \<Rightarrow> console option" where
  "exception_handler_general_protection_fault D cs eip error_code =
     steps [print_exception_header D cs eip, say D ''General protection fault\<newline>'', print_error_code_generic D error_code]"

text \<open>The register CR2 is an argument; its low half is what is printed.\<close>

definition exception_handler_page_fault :: "device \<Rightarrow> u64 \<Rightarrow> u32 \<Rightarrow> u32 \<Rightarrow> u32 \<Rightarrow> console \<Rightarrow> console option" where
  "exception_handler_page_fault D cr2 cs eip error_code =
     steps [print_exception_header D cs eip, say D ''Page fault\<newline>'', say D ''Faulting address 0x'',
            hex D (ucast cr2), say D ''\<newline>'']"

definition exception_handler_math_fault :: "device \<Rightarrow> u32 \<Rightarrow> u32 \<Rightarrow> console \<Rightarrow> console option" where
  "exception_handler_math_fault D cs eip = steps [print_exception_header D cs eip, say D ''Math fault\<newline>'']"

definition exception_handler_alignment_check :: "device \<Rightarrow> u32 \<Rightarrow> u32 \<Rightarrow> console \<Rightarrow> console option" where
  "exception_handler_alignment_check D cs eip = steps [print_exception_header D cs eip, say D ''Alignment check\<newline>'']"

definition exception_handler_machine_check :: "device \<Rightarrow> u32 \<Rightarrow> u32 \<Rightarrow> console \<Rightarrow> console option" where
  "exception_handler_machine_check D cs eip = steps [print_exception_header D cs eip, say D ''Machine check\<newline>'']"

definition exception_handler_simd_floating_point_numeric_error :: "device \<Rightarrow> u32 \<Rightarrow> u32 \<Rightarrow> console \<Rightarrow> console option" where
  "exception_handler_simd_floating_point_numeric_error D cs eip = steps [print_exception_header D cs eip, say D ''SIMD floating point numeric error\<newline>'']"

definition exception_handler_reserved_simd_floating_point_numeric_error :: "device \<Rightarrow> u32 \<Rightarrow> u32 \<Rightarrow> console \<Rightarrow> console option" where
  "exception_handler_reserved_simd_floating_point_numeric_error D cs eip = steps [print_exception_header D cs eip, say D ''reserved SIMD floating point numeric error\<newline>'']"

section \<open>The table\<close>

text \<open>The handlers as names of functions; \<open>fn\<close> below gives their addresses.\<close>

datatype handler =
  H_reserved
| H_divide_error
| H_debug_break_point
| H_nmi
| H_break_point
| H_overflow
| H_bound_range_exceeded
| H_undefined_opcode
| H_no_math_coprocessor
| H_double_fault
| H_invalid_task_segment_selector
| H_segment_not_present
| H_stack_segment_fault
| H_general_protection_fault
| H_page_fault
| H_math_fault
| H_alignment_check
| H_machine_check
| H_simd_floating_point_numeric_error
| H_reserved_simd_floating_point_numeric_error

text \<open>\<open>offset_low\<close> is at the start of a gate and \<open>offset_high\<close> at its byte 6; \<open>idt\<close> is the address of \<open>xmon_idt\<close>.\<close>

definition install_exception_handler :: "addr \<Rightarrow> u32 \<Rightarrow> u64 \<Rightarrow> mem \<Rightarrow> mem" where
  "install_exception_handler idt exception_index handler_addr m =
     (let g = idt + 8 * ucast exception_index;
          m = store16 m g (ucast (handler_addr AND 0xFFFF))
      in store16 m (g + 6) (ucast (drop_bit 16 handler_addr)))"

text \<open>The first loop's body: \<open>gate_type\<close>, \<open>selector\<close>, \<open>reserved_0\<close> and the reserved handler.\<close>

definition init_gate :: "addr \<Rightarrow> (handler \<Rightarrow> u64) \<Rightarrow> nat \<Rightarrow> mem \<Rightarrow> mem" where
  "init_gate idt fn i m =
     (let g = idt + 8 * of_nat i;
          m = m(g + 5 := IA32_IDT_GATE_TYPE_INTERRUPT_32);
          m = store16 m (g + 2) XMON_CS_SELECTOR;
          m = m(g + 4 := 0)
      in install_exception_handler idt (of_nat i) (fn H_reserved) m)"

definition installed_handlers :: "(ia32_exception_vectors \<times> handler) list" where
  "installed_handlers =
     [(IA32_EXCEPTION_VECTOR_DIVIDE_ERROR, H_divide_error),
      (IA32_EXCEPTION_VECTOR_DEBUG_BREAK_POINT, H_debug_break_point),
      (IA32_EXCEPTION_VECTOR_NMI, H_nmi),
      (IA32_EXCEPTION_VECTOR_BREAK_POINT, H_break_point),
      (IA32_EXCEPTION_VECTOR_OVERFLOW, H_overflow),
      (IA32_EXCEPTION_VECTOR_BOUND_RANGE_EXCEEDED, H_bound_range_exceeded),
      (IA32_EXCEPTION_VECTOR_UNDEFINED_OPCODE, H_undefined_opcode),
      (IA32_EXCEPTION_VECTOR_NO_MATH_COPROCESSOR, H_no_math_coprocessor),
      (IA32_EXCEPTION_VECTOR_DOUBLE_FAULT, H_double_fault),
      (IA32_EXCEPTION_VECTOR_INVALID_TASK_SEGMENT_SELECTOR, H_invalid_task_segment_selector),
      (IA32_EXCEPTION_VECTOR_SEGMENT_NOT_PRESENT, H_segment_not_present),
      (IA32_EXCEPTION_VECTOR_STACK_SEGMENT_FAULT, H_stack_segment_fault),
      (IA32_EXCEPTION_VECTOR_GENERAL_PROTECTION_FAULT, H_general_protection_fault),
      (IA32_EXCEPTION_VECTOR_PAGE_FAULT, H_page_fault),
      (IA32_EXCEPTION_VECTOR_MATH_FAULT, H_math_fault),
      (IA32_EXCEPTION_VECTOR_ALIGNMENT_CHECK, H_alignment_check),
      (IA32_EXCEPTION_VECTOR_MACHINE_CHECK, H_machine_check),
      (IA32_EXCEPTION_VECTOR_SIMD_FLOATING_POINT_NUMERIC_ERROR, H_simd_floating_point_numeric_error),
      (IA32_EXCEPTION_VECTOR_RESERVED_SIMD_FLOATING_POINT_NUMEIC_ERROR, H_reserved_simd_floating_point_numeric_error)]"

definition idt_gates :: "addr \<Rightarrow> (handler \<Rightarrow> u64) \<Rightarrow> mem \<Rightarrow> mem" where
  "idt_gates idt fn m =
     (let m = zero_mem m idt (of_nat (8 * IDT_VECTOR_COUNT));
          m = fold (init_gate idt fn) [0 ..< 32] m
      in fold (\<lambda>(v, h). install_exception_handler idt (vector_number v) (fn h)) installed_handlers m)"

text \<open>\<open>setup_idt\<close>: the console afterwards and the address that \<open>lidt\<close> is given; \<open>d\<close> is \<open>&idt_descriptor\<close>.\<close>

definition setup_idt :: "device \<Rightarrow> (handler \<Rightarrow> u64) \<Rightarrow> addr \<Rightarrow> addr \<Rightarrow> console \<Rightarrow> (u32 \<times> console) option" where
  "setup_idt D fn idt d s =
     map_option (\<lambda>s.
       let m = idt_gates idt fn (con_mem s);
           m = store32 m (d + 4) (ucast idt);
           m = store16 m d (8 * 32 - 1)
       in (ucast d, s\<lparr>con_mem := m\<rparr>)) (say D ''SetupIdt called\<newline>'' s)"

section \<open>The gates\<close>

definition gate_bytes :: "u64 \<Rightarrow> u8 list" where
  "gate_bytes a = word_bytes 2 (ucast a :: u16) @ [0x10, 0, 0, 0x8E] @ word_bytes 2 (ucast (drop_bit 16 a) :: u16)"

text \<open>\<open>gates m idt f\<close>: vector \<open>v\<close> has the interrupt gate for the address \<open>f v\<close>, or a gate of zeros.\<close>

definition gates :: "mem \<Rightarrow> addr \<Rightarrow> (nat \<Rightarrow> u64 option) \<Rightarrow> bool" where
  "gates m idt f \<longleftrightarrow> (\<forall>v < IDT_VECTOR_COUNT.
     read_bytes m (idt + of_nat (8 * v)) 8 = (case f v of None \<Rightarrow> replicate 8 0 | Some a \<Rightarrow> gate_bytes a))"

lemma read8: "read_bytes m g 8 = [m g, m (g + 1), m (g + 2), m (g + 3), m (g + 4), m (g + 5), m (g + 6), m (g + 7)]"
  by (simp add: read_bytes_def upt_rec)

lemma word_bytes2: "word_bytes 2 w = [ucast w, ucast (drop_bit 8 w)]" for w :: u16
  by (simp add: numeral_eq_Suc)

lemma store16_apply: "store16 m g w x = (if x = g then ucast w else if x = g + 1 then ucast (drop_bit 8 w) else m x)"
  by (simp add: store_le_def word_bytes2)

lemma install_own:
  assumes "read_bytes m g 8 = b0 # b1 # bs" and "length bs = 6" and "g = idt + 8 * ucast i"
  shows "read_bytes (install_exception_handler idt i a m) g 8 =
    word_bytes 2 (ucast a :: u16) @ take 4 bs @ word_bytes 2 (ucast (drop_bit 16 a) :: u16)"
proof -
  have "a AND 0xFFFF = take_bit 16 a" by (simp add: take_bit_eq_mask mask_eq_exp_minus_1)
  moreover have "(ucast (take_bit 16 a) :: u16) = ucast a" by (rule bit_word_eqI) (auto simp: bit_simps)
  ultimately have low: "(ucast (a AND 0xFFFF) :: u16) = ucast a" by simp
  show ?thesis using assms(1,2)
    unfolding install_exception_handler_def Let_def assms(3) [symmetric] low read8
    by (auto simp: store16_apply word_bytes2)
qed

lemma byte_in_gate: "k < 8 \<Longrightarrow> in_range g 8 (g + of_nat k)"
  by (simp add: in_range_def unat_of_nat64)

lemma outside_gate: "\<not> in_range g 8 x \<Longrightarrow> x \<noteq> g \<and> x \<noteq> g + 1 \<and> x \<noteq> g + 2 \<and> x \<noteq> g + 2 + 1 \<and> x \<noteq> g + 4 \<and> x \<noteq> g + 5 \<and> x \<noteq> g + 6 \<and> x \<noteq> g + 6 + 1"
  using byte_in_gate [of 0 g] byte_in_gate [of 1 g] byte_in_gate [of 2 g] byte_in_gate [of 3 g] byte_in_gate [of 4 g]
    byte_in_gate [of 5 g] byte_in_gate [of 6 g] byte_in_gate [of 7 g] by (auto simp: add.assoc)

lemma install_outside: "\<not> in_range (idt + 8 * ucast i) 8 x \<Longrightarrow> install_exception_handler idt i a m x = m x"
  using outside_gate by (simp add: install_exception_handler_def Let_def store16_apply)

lemma gates_update:
  assumes "gates m idt f" and "v < IDT_VECTOR_COUNT"
    and "read_bytes m' (idt + of_nat (8 * v)) 8 = gate_bytes a"
    and "\<And>x. \<not> in_range (idt + of_nat (8 * v)) 8 x \<Longrightarrow> m' x = m x"
  shows "gates m' idt (f(v := Some a))"
proof -
  have "read_bytes m' (idt + of_nat (8 * w)) 8 = read_bytes m (idt + of_nat (8 * w)) 8" if "w < 256" "w \<noteq> v" for w
  proof (rule read_bytes_cong)
    fix x assume x: "in_range (idt + of_nat (8 * w)) 8 x"
    have "8 * w + 8 \<le> 8 * v \<or> 8 * v + 8 \<le> 8 * w" using that(2) by linarith
    then have "disjoint_ranges (idt + of_nat (8 * w)) 8 (idt + of_nat (8 * v)) 8"
      using that(1) assms(2) by (intro fields_disjoint) (simp_all add: unat_of_nat64 IDT_VECTOR_COUNT_def del: of_nat_mult)
    then show "m' x = m x" using x disjoint_ranges_not_both by (intro assms(4)) blast
  qed simp
  then show ?thesis using assms(1,3) by (simp add: gates_def IDT_VECTOR_COUNT_def)
qed

lemma index_address: "unat i = v \<Longrightarrow> idt + 8 * ucast i = idt + of_nat (8 * v)" for i :: u32 and idt :: addr
  by auto

lemma gates_install:
  assumes "gates m idt f" and "unat i = v" and "v < IDT_VECTOR_COUNT" and "f v = Some b"
  shows "gates (install_exception_handler idt i a m) idt (f(v := Some a))"
proof (rule gates_update [OF assms(1,3)])
  note at = index_address [OF assms(2), of idt]
  have "read_bytes m (idt + of_nat (8 * v)) 8 = gate_bytes b" using assms(1,3,4) by (simp add: gates_def)
  then show "read_bytes (install_exception_handler idt i a m) (idt + of_nat (8 * v)) 8 = gate_bytes a"
    by (subst install_own [of _ _ _ _ "[0x10, 0, 0, 0x8E] @ word_bytes 2 (ucast (drop_bit 16 b) :: u16)"])
      (simp_all add: gate_bytes_def word_bytes2 at)
  show "install_exception_handler idt i a m x = m x" if "\<not> in_range (idt + of_nat (8 * v)) 8 x" for x
    using install_outside that unfolding at [symmetric] by blast
qed

lemma gates_init:
  assumes "gates m idt f" and "v < IDT_VECTOR_COUNT" and "f v = None"
  shows "gates (init_gate idt fn v m) idt (f(v := Some (fn H_reserved)))"
proof (rule gates_update [OF assms(1,2)])
  define g where "g = idt + of_nat (8 * v)"
  have i: "unat (of_nat v :: u32) = v" using assms(2) by (simp add: IDT_VECTOR_COUNT_def unat_of_nat32)
  note at = index_address [OF i, of idt, folded g_def]
  have at': "idt + 8 * of_nat v = g" by (simp add: g_def)
  define m1 where "m1 = (store16 (m(g + 5 := IA32_IDT_GATE_TYPE_INTERRUPT_32)) (g + 2) XMON_CS_SELECTOR)(g + 4 := 0)"
  have init: "init_gate idt fn v m = install_exception_handler idt (of_nat v) (fn H_reserved) m1"
    by (simp add: init_gate_def Let_def at' m1_def)
  have "read_bytes m g 8 = [0, 0, 0, 0, 0, 0, 0, 0]" using assms by (simp add: gates_def g_def numeral_eq_Suc)
  then have m1: "read_bytes m1 g 8 = [0, 0, 0x10, 0, 0, 0x8E, 0, 0]"
    unfolding m1_def read8 by (auto simp: store16_apply IA32_IDT_GATE_TYPE_INTERRUPT_32_def XMON_CS_SELECTOR_def)
  show "read_bytes (init_gate idt fn v m) (idt + of_nat (8 * v)) 8 = gate_bytes (fn H_reserved)"
    unfolding init g_def [symmetric]
    by (subst install_own [OF m1]) (simp_all add: gate_bytes_def word_bytes2 at)
  fix x assume x: "\<not> in_range (idt + of_nat (8 * v)) 8 x"
  then have "install_exception_handler idt (of_nat v) (fn H_reserved) m1 x = m1 x"
    using install_outside at unfolding g_def [symmetric] by metis
  moreover have "m1 x = m x" using outside_gate x unfolding g_def [symmetric] by (simp add: m1_def store16_apply)
  ultimately show "init_gate idt fn v m x = m x" by (simp add: init)
qed

lemma gates_reserved:
  assumes "gates m idt (\<lambda>_. None)" and "k \<le> IDT_VECTOR_COUNT"
  shows "gates (fold (init_gate idt fn) [0 ..< k] m) idt (\<lambda>v. if v < k then Some (fn H_reserved) else None)"
  using assms(2)
proof (induction k)
  case 0
  then show ?case using assms(1) by simp
next
  case (Suc k)
  then have "gates (init_gate idt fn k (fold (init_gate idt fn) [0 ..< k] m)) idt
      ((\<lambda>v. if v < k then Some (fn H_reserved) else None)(k := Some (fn H_reserved)))"
    by (intro gates_init) simp_all
  moreover have "(\<lambda>v. if v < k then Some (fn H_reserved) else None)(k := Some (fn H_reserved)) =
      (\<lambda>v. if v < Suc k then Some (fn H_reserved) else None)" by (auto simp: less_Suc_eq)
  ultimately show ?case by simp
qed

lemma gates_installed:
  assumes "gates m idt f" and "\<forall>(v, h) \<in> set hs. f (unat (vector_number v)) \<noteq> None \<and> unat (vector_number v) < IDT_VECTOR_COUNT"
  shows "gates (fold (\<lambda>(v, h). install_exception_handler idt (vector_number v) (fn h)) hs m) idt
    (fold (\<lambda>(v, h) f. f(unat (vector_number v) := Some (fn h))) hs f)"
  using assms
proof (induction hs arbitrary: m f)
  case Nil
  then show ?case by simp
next
  case (Cons x hs)
  obtain v h where x: "x = (v, h)" by fastforce
  obtain b where b: "f (unat (vector_number v)) = Some b" using Cons.prems(2) x by auto
  have "gates (install_exception_handler idt (vector_number v) (fn h) m) idt (f(unat (vector_number v) := Some (fn h)))"
    by (rule gates_install [OF Cons.prems(1) refl _ b]) (use Cons.prems(2) x in auto)
  then have "gates (fold (\<lambda>(v, h). install_exception_handler idt (vector_number v) (fn h)) hs
        (install_exception_handler idt (vector_number v) (fn h) m)) idt
      (fold (\<lambda>(v, h) f. f(unat (vector_number v) := Some (fn h))) hs (f(unat (vector_number v) := Some (fn h))))"
    by (rule Cons.IH) (use Cons.prems(2) in auto)
  then show ?case by (simp only: x fold_simps case_prod_conv)
qed

section \<open>The finished table\<close>

text \<open>The processor manual's vectors and the handlers that are meant for them.\<close>

definition exceptions :: "(nat \<times> handler) list" where
  "exceptions =
     [(0, H_divide_error), (1, H_debug_break_point), (2, H_nmi),
      (3, H_break_point), (4, H_overflow), (5, H_bound_range_exceeded),
      (6, H_undefined_opcode), (7, H_no_math_coprocessor), (8, H_double_fault),
      (10, H_invalid_task_segment_selector), (11, H_segment_not_present), (12, H_stack_segment_fault),
      (13, H_general_protection_fault), (14, H_page_fault), (16, H_math_fault),
      (17, H_alignment_check), (18, H_machine_check), (19, H_simd_floating_point_numeric_error),
      (20, H_reserved_simd_floating_point_numeric_error)]"

definition handled_by :: "nat \<Rightarrow> handler" where
  "handled_by v = (case map_of exceptions v of None \<Rightarrow> H_reserved | Some h \<Rightarrow> h)"

lemma installed_vectors: "map (\<lambda>(v, h). (unat (vector_number v), h)) installed_handlers = exceptions"
  by code_simp

lemma fold_vectors:
  "fold (\<lambda>(v, h) f. f(unat (vector_number v) := Some (fn h))) hs f =
   fold (\<lambda>(n, h) f. f(n := Some (fn h))) (map (\<lambda>(v, h). (unat (vector_number v), h)) hs) f"
  by (induction hs arbitrary: f) (auto simp: fold_simps simp del: fun_upd_apply)

lemma fold_exceptions:
  assumes "v < 256"
  shows "fold (\<lambda>(n, h) f. f(n := Some (fn h))) exceptions (\<lambda>v. if v < 32 then Some (fn H_reserved) else None) v =
    (if v < 32 then Some (fn (handled_by v)) else None)"
proof -
  let ?f = "fold (\<lambda>(n, h) f. f(n := Some (fn h))) exceptions (\<lambda>v. if v < 32 then Some (fn H_reserved) else None)"
  have "list_all (\<lambda>v. ?f v = Some (fn (handled_by v))) [0 ..< 32]"
    by (simp add: exceptions_def handled_by_def upt_rec)
  then have "v < 32 \<Longrightarrow> ?f v = Some (fn (handled_by v))" by (simp add: list_all_iff)
  moreover have "\<not> v < 32 \<Longrightarrow> ?f v = None" by (simp add: exceptions_def)
  ultimately show ?thesis by auto
qed

lemma fold_outside: "(\<And>i m. i \<in> set xs \<Longrightarrow> f i m x = m x) \<Longrightarrow> fold f xs m x = m x"
  by (induction xs arbitrary: m) auto

lemma vectors_small: "\<forall>(v, h) \<in> set installed_handlers. unat (vector_number v) < 32"
proof -
  have "list_all (\<lambda>(v, h). unat (vector_number v) < 32) installed_handlers" by code_simp
  then show ?thesis by (simp add: list_all_iff)
qed

lemma gate_in_table: "v < 256 \<Longrightarrow> in_range (idt + of_nat (8 * v)) 8 x \<Longrightarrow> in_range idt 2048 x"
  by (rule in_range_sub [of idt "of_nat (8 * v)" 8]) (simp_all add: unat_of_nat64 del: of_nat_mult)

lemma idt_gates_outside:
  assumes "\<not> in_range idt 2048 x"
  shows "idt_gates idt fn m x = m x"
proof -
  have inst: "install_exception_handler idt i a m x = m x" if "unat i < 256" for i a m
    using gate_in_table [OF that, of idt x] assms index_address [OF refl, of idt i] by (intro install_outside) metis
  have init: "init_gate idt fn i m x = m x" if "i < 256" for i m
  proof -
    have "unat (of_nat i :: u32) = i" using that by (simp add: unat_of_nat32)
    moreover have "\<not> in_range (idt + 8 * of_nat i) 8 x" using gate_in_table [OF that, of idt x] assms by auto
    ultimately show ?thesis using inst [of "of_nat i"] outside_gate that
      by (simp add: init_gate_def Let_def store16_apply)
  qed
  have "fold (\<lambda>(v, h). install_exception_handler idt (vector_number v) (fn h)) installed_handlers m x = m x" for m
    using vectors_small inst by (intro fold_outside) fastforce
  moreover have "fold (init_gate idt fn) [0 ..< 32] m x = m x" for m
    using init by (intro fold_outside) simp
  ultimately show ?thesis using assms by (simp add: idt_gates_def Let_def zero_mem_apply IDT_VECTOR_COUNT_def)
qed

lemma idt_gates_table: "gates (idt_gates idt fn m) idt (\<lambda>v. if v < 32 then Some (fn (handled_by v)) else None)"
proof -
  define m0 where "m0 = zero_mem m idt (of_nat (8 * IDT_VECTOR_COUNT))"
  have "read_bytes m0 (idt + of_nat (8 * v)) 8 = replicate 8 0" if "v < 256" for v
  proof -
    have "m0 (idt + of_nat (8 * v) + of_nat k) = 0" if k: "k < 8" for k
      using gate_in_table [OF \<open>v < 256\<close> byte_in_gate [OF k]] by (simp add: m0_def zero_mem_apply IDT_VECTOR_COUNT_def)
    then show ?thesis by (intro nth_equalityI) simp_all
  qed
  then have "gates m0 idt (\<lambda>_. None)" by (simp add: gates_def IDT_VECTOR_COUNT_def)
  from gates_reserved [OF this, of 32 fn]
  have "gates (fold (init_gate idt fn) [0 ..< 32] m0) idt (\<lambda>v. if v < 32 then Some (fn H_reserved) else None)"
    by (simp add: IDT_VECTOR_COUNT_def)
  from gates_installed [OF this, of installed_handlers fn] vectors_small
  have "gates (idt_gates idt fn m) idt
      (fold (\<lambda>(n, h) f. f(n := Some (fn h))) exceptions (\<lambda>v. if v < 32 then Some (fn H_reserved) else None))"
    unfolding fold_vectors installed_vectors idt_gates_def Let_def m0_def by (fastforce simp: IDT_VECTOR_COUNT_def)
  then show ?thesis by (simp add: gates_def IDT_VECTOR_COUNT_def fold_exceptions)
qed

text \<open>
  C26: once its message is printed, \<open>setup_idt\<close> leaves for each of the 32 processor exceptions the present 32-bit
  interrupt gate of ring 0 on the selector 0x10 with the address of the handler that is meant for it
  (bits above 32 are dropped), zeros for every other vector, and the descriptor; nothing else changes.
\<close>

theorem setup_idt_gates:
  assumes "say D ''SetupIdt called\<newline>'' s = Some s1" and "disjoint_ranges idt 2048 d 8"
  shows "\<exists>s'. setup_idt D fn idt d s = Some (ucast d, s') \<and>
    (\<forall>v < 32. read_bytes (con_mem s') (idt + of_nat (8 * v)) 8 = gate_bytes (fn (handled_by v))) \<and>
    (\<forall>v < 256. 32 \<le> v \<longrightarrow> read_bytes (con_mem s') (idt + of_nat (8 * v)) 8 = replicate 8 0) \<and>
    load16 (con_mem s') d = 255 \<and> load32 (con_mem s') (d + 4) = ucast idt \<and>
    (\<forall>x. \<not> in_range idt 2048 x \<and> \<not> in_range d 8 x \<longrightarrow> con_mem s' x = con_mem s1 x)"
proof -
  define m0 where "m0 = idt_gates idt fn (con_mem s1)"
  define m1 where "m1 = store16 (store32 m0 (d + 4) (ucast idt)) d 255"
  have run: "setup_idt D fn idt d s = Some (ucast d, s1\<lparr>con_mem := m1\<rparr>)"
    using assms(1) by (simp add: setup_idt_def Let_def m1_def m0_def)
  have out: "m1 x = m0 x" if "\<not> in_range d 8 x" for x
    using that in_range_mono [of d 2 x 8] in_range_sub [of d 4 4 x 8] by (auto simp: m1_def store_le_apply)
  have "disjoint_ranges (d + 0) 2 (d + 4) 4" by (rule fields_disjoint) simp_all
  then have desc: "load16 m1 d = 255" "load32 m1 (d + 4) = ucast idt" by (simp_all add: m1_def load_store_disjoint)
  have gate: "read_bytes m1 (idt + of_nat (8 * v)) 8 = read_bytes m0 (idt + of_nat (8 * v)) 8" if "v < 256" for v
    using gate_in_table [OF that] assms(2) disjoint_ranges_not_both by (intro read_bytes_cong out) (blast, simp)
  have table: "gates m0 idt (\<lambda>v. if v < 32 then Some (fn (handled_by v)) else None)"
    unfolding m0_def by (rule idt_gates_table)
  have "read_bytes m1 (idt + of_nat (8 * v)) 8 = gate_bytes (fn (handled_by v))" if "v < 32" for v
    using table gate [of v] that by (simp add: gates_def IDT_VECTOR_COUNT_def)
  moreover have "read_bytes m1 (idt + of_nat (8 * v)) 8 = replicate 8 0" if "v < 256" "32 \<le> v" for v
    using table gate [of v] that by (simp add: gates_def IDT_VECTOR_COUNT_def)
  moreover have "m1 x = con_mem s1 x" if "\<not> in_range idt 2048 x" "\<not> in_range d 8 x" for x
    using out [OF that(2)] idt_gates_outside [OF that(1)] by (simp add: m0_def)
  ultimately show ?thesis using run desc by (intro exI [of _ "s1\<lparr>con_mem := m1\<rparr>"]) simp
qed

text \<open>
  The processor runs in 64-bit mode here: \<open>lidt\<close> takes the base from the byte after the 16-bit limit, 8 bytes. It
  reads the two bytes between the fields, \<open>base\<close>, and two bytes behind the descriptor.
\<close>

lemma lidt_base:
  "load64 m (d + 2) = ucast (load16 m (d + 2)) OR push_bit 16 (ucast (load32 m (d + 4))) OR push_bit 48 (ucast (load16 m (d + 8)))"
proof -
  have "read_bytes m (d + 2) (2 + 6) = read_bytes m (d + 2) 2 @ read_bytes m (d + 2 + of_nat 2) 6" by (rule read_bytes_add)
  moreover have "read_bytes m (d + 4) (4 + 2) = read_bytes m (d + 4) 4 @ read_bytes m (d + 4 + of_nat 4) 2" by (rule read_bytes_add)
  ultimately have "read_bytes m (d + 2) 8 = read_bytes m (d + 2) 2 @ read_bytes m (d + 4) 4 @ read_bytes m (d + 8) 2"
    by (simp add: add.assoc)
  then show ?thesis by (simp add: load_le_def le_word_append le_word_wide push_bit_or or.assoc)
qed

definition idt_message :: "u8 list" where
  "idt_message = [0x53, 0x65, 0x74, 0x75, 0x70, 0x49, 0x64, 0x74, 0x20, 0x63, 0x61, 0x6C, 0x6C, 0x65, 0x64, 0x0A]"

definition idt_console :: console where
  "idt_console = \<lparr>cursor = VGA_BASE_ADDRESS, con_mem = store_bytes (\<lambda>_. 0) 0x1000 idt_message,
     con_serial = \<lparr>debug_port = 0, port_writes = [], lsr_reads = 0\<rparr>\<rparr>"

definition idt_device :: device where
  "idt_device = \<lparr>dev_lsr = (\<lambda>_. 0x20), dev_literal = (\<lambda>_. 0x1000)\<rparr>"

lemma idt_message_said: "\<exists>s1. say idt_device ''SetupIdt called\<newline>'' idt_console = Some s1"
proof -
  let ?m = "con_mem idt_console"
  have len: "length idt_message = 16" by (simp add: idt_message_def)
  have at: "?m (0x1000 + of_nat j) = (if j < 16 then idt_message ! j else 0)" if "j \<le> 16" for j
    using that by (simp add: idt_console_def len store_bytes_apply in_range_def unat_of_nat64)
  have ix: "(ucast (of_nat j :: u32) :: addr) = of_nat j" if "j \<le> 16" for j
    using that by (simp add: word_unat_eq_iff unat_of_nat64 unat_of_nat32)
  have apart: "0x1000 + of_nat j \<noteq> vga i" if "j \<le> 16" "i < 4000" for i j
  proof
    assume "0x1000 + of_nat j = vga i"
    then have "unat (0x1000 + of_nat j :: addr) = 0xB8000 + 2 * i" using unat_vga [of i] that by simp
    then show False using that by (simp add: unat_add64 unat_of_nat64)
  qed
  have nz: "list_all (\<lambda>c. c \<noteq> 0) idt_message" by (simp add: idt_message_def)
  have fits: "fst (type_text 0 (\<lambda>j. ?m (vga j)) idt_message) \<le> 4000" by (simp add: idt_message_def)
  have c1: "\<forall>j \<le> length idt_message. \<forall>i < 4000. 0x1000 + ucast (0 + of_nat j :: u32) \<noteq> vga i"
    using apart ix unfolding len by simp
  have c2: "\<forall>j < length idt_message. ?m (0x1000 + ucast (0 + of_nat j :: u32)) = idt_message ! j \<and> idt_message ! j \<noteq> 0"
    using at ix nz unfolding len by (simp add: list_all_length len)
  have c3: "?m (0x1000 + ucast (0 + of_nat (length idt_message) :: u32)) = 0"
    using at [of 16] ix [of 16] unfolding len by simp
  have c4: "cursor idt_console = vga 0" by (simp add: idt_console_def vga_def)
  obtain m' where "print_loop 0x1000 0 idt_console = Some (idt_console\<lparr>cursor := vga (fst (type_text 0 (\<lambda>j. ?m (vga j)) idt_message)),
      con_mem := m'\<rparr>)"
    using print_loop_text [OF _ c1 c2 c3 fits c4 shows_cells_self] by auto
  then show ?thesis
    by (simp add: say_def print_string_def idt_device_def con_puts_def loader_serial_puts_def idt_console_def)
qed

theorem setup_idt_gates_witness:
  "\<exists>s'. setup_idt idt_device (\<lambda>h. if h = H_page_fault then 0x12345678 else 0) 0x2000 0x3000 idt_console = Some (0x3000, s') \<and>
    read_bytes (con_mem s') 0x2070 8 = [0x78, 0x56, 0x10, 0, 0, 0x8E, 0x34, 0x12] \<and> load16 (con_mem s') 0x3000 = 255"
proof -
  obtain s1 where "say idt_device ''SetupIdt called\<newline>'' idt_console = Some s1" using idt_message_said by blast
  from setup_idt_gates [OF this, of "0x2000" "0x3000" "\<lambda>h. if h = H_page_fault then 0x12345678 else 0"]
  obtain s' where r: "setup_idt idt_device (\<lambda>h. if h = H_page_fault then 0x12345678 else 0) 0x2000 0x3000 idt_console = Some (0x3000, s')"
    "\<forall>v < 32. read_bytes (con_mem s') (0x2000 + of_nat (8 * v)) 8 =
      gate_bytes (if handled_by v = H_page_fault then 0x12345678 else 0)" "load16 (con_mem s') 0x3000 = 255"
    by (auto simp: disjoint_ranges_def)
  have "handled_by 14 = H_page_fault" by code_simp
  then have "read_bytes (con_mem s') 0x2070 8 = gate_bytes 0x12345678" using r(2) [rule_format, of 14] by simp
  moreover have "gate_bytes 0x12345678 = [0x78, 0x56, 0x10, 0, 0, 0x8E, 0x34, 0x12]" by code_simp
  ultimately show ?thesis using r by auto
qed

end
