(* ===== verification/Image_File.thy ===== *)
theory Image_File
  imports Image_Access
begin

text \<open>
  The file-backed image accessor, \<open>common/ld/image_accessors/image_access_file.c\<close>. A file is the list of
  its bytes. The chunk list is a list of records, the newest first; the bytes of a chunk's buffer are in
  memory, 24 bytes after the chunk's address. \<open>malloc\<close> is a parameter: it is given the blocks that are
  in use. A result \<open>None\<close> is a write through the null pointer that an unchecked \<open>malloc\<close> returned.
\<close>

section \<open>State and operations\<close>

record mem_chunk =
  chunk_ptr :: addr
  chunk_offset :: u64
  chunk_length :: u64

record file_image_access =
  fia_gen :: gen_image_access
  fia_file :: "u8 list"
  memory_list :: "mem_chunk list"

type_synonym allocator = "(addr \<times> nat) list \<Rightarrow> u64 \<Rightarrow> addr"

text \<open>The argument is what \<open>fopen\<close> gave; \<open>sizeof(file_image_access_t)\<close> is 40.\<close>

definition file_image_create :: "allocator \<Rightarrow> u8 list option \<Rightarrow> file_image_access option option" where
  "file_image_create malloc file =
     (case file of None \<Rightarrow> Some None
      | Some file \<Rightarrow>
          if malloc [] 40 = 0 then None
          else Some (Some \<lparr>fia_gen = File_Image_Ops, fia_file = file, memory_list = []\<rparr>))"

text \<open>\<open>file_image_close\<close>: the pointers it frees, in order; \<open>fia\<close> is the accessor's own address.\<close>

primrec free_chunks :: "mem_chunk list \<Rightarrow> addr list" where
  "free_chunks [] = []"
| "free_chunks (chunk # chunks) = chunk_ptr chunk # free_chunks chunks"

definition file_image_close :: "addr \<Rightarrow> file_image_access \<Rightarrow> addr list" where
  "file_image_close fia ia = free_chunks (memory_list ia) @ [fia]"

text \<open>\<open>fseek\<close> takes a signed offset and fails on a negative one; \<open>fread\<close> stops at the end of the file.\<close>

definition file_image_read :: "mem \<Rightarrow> file_image_access \<Rightarrow> addr \<Rightarrow> u64 \<Rightarrow> u64 \<Rightarrow> u64 \<times> mem" where
  "file_image_read m ia dest src_offset bytes =
     (if sint src_offset < 0 then (0, m)
      else
        let data = take (unat bytes) (drop (unat src_offset) (fia_file ia))
        in (of_nat (length data), store_bytes m dest data))"

fun find_chunk :: "mem_chunk list \<Rightarrow> u64 \<Rightarrow> u64 \<Rightarrow> mem_chunk option" where
  "find_chunk [] src_offset bytes = None"
| "find_chunk (chunk # chunks) src_offset bytes =
     (if chunk_offset chunk = src_offset \<and> chunk_length chunk = bytes then Some chunk
      else find_chunk chunks src_offset bytes)"

text \<open>\<open>sizeof(mem_chunk_t) - sizeof(chunk->buffer)\<close> is 31, and \<open>buffer\<close> is at offset 24.\<close>

definition chunk_buffer :: "mem_chunk \<Rightarrow> addr" where "chunk_buffer c = chunk_ptr c + 24"

definition chunk_block :: "mem_chunk \<Rightarrow> addr \<times> nat" where
  "chunk_block c = (chunk_ptr c, unat (31 + chunk_length c))"

definition file_image_map_to_mem ::
  "allocator \<Rightarrow> mem \<Rightarrow> file_image_access \<Rightarrow> u64 \<Rightarrow> u64 \<Rightarrow> (u64 \<times> addr \<times> file_image_access \<times> mem) option" where
  "file_image_map_to_mem malloc m ia src_offset bytes =
     (case find_chunk (memory_list ia) src_offset bytes of
        Some chunk \<Rightarrow> Some (bytes, chunk_buffer chunk, ia, m)
      | None \<Rightarrow>
          let bytes_to_alloc = 31 + bytes;
              p = malloc (map chunk_block (memory_list ia)) bytes_to_alloc
          in if p = 0 then None
             else
               let chunk = \<lparr>chunk_ptr = p, chunk_offset = src_offset, chunk_length = bytes\<rparr>;
                   ia = ia\<lparr>memory_list := chunk # memory_list ia\<rparr>;
                   (bytes_mapped, m) = file_image_read m ia (chunk_buffer chunk) src_offset bytes
               in Some (bytes_mapped, chunk_buffer chunk, ia, m))"

section \<open>What the chunks hold\<close>

text \<open>The documented behaviour of \<open>malloc\<close>: a block it returns shares no byte with a block in use.\<close>

definition allocates :: "allocator \<Rightarrow> bool" where
  "allocates malloc \<longleftrightarrow>
     (\<forall>live n. malloc live n \<noteq> 0 \<longrightarrow> (\<forall>b \<in> set live. disjoint_ranges (malloc live n) (unat n) (fst b) (snd b)))"

definition chunk_holds :: "u8 list \<Rightarrow> mem \<Rightarrow> mem_chunk \<Rightarrow> bool" where
  "chunk_holds file m c \<longleftrightarrow>
     (\<forall>i < unat (chunk_length c). unat (chunk_offset c) + i < length file \<longrightarrow>
        m (chunk_buffer c + of_nat i) = file ! (unat (chunk_offset c) + i))"

text \<open>Every chunk is shorter than half the address space and holds its part of the file.\<close>

definition fia_inv :: "file_image_access \<Rightarrow> mem \<Rightarrow> bool" where
  "fia_inv ia m \<longleftrightarrow> length (fia_file ia) < 2 ^ 63 \<and>
     (\<forall>c \<in> set (memory_list ia). unat (chunk_length c) < 2 ^ 63 \<and> chunk_holds (fia_file ia) m c)"

lemma block_size: "unat (len :: u64) < 2 ^ 63 \<Longrightarrow> unat (31 + len) = 31 + unat len"
  by (simp add: unat_add64)

lemma find_chunk_Some:
  "find_chunk cs off n = Some c \<Longrightarrow> c \<in> set cs \<and> chunk_offset c = off \<and> chunk_length c = n"
  by (induction cs off n rule: find_chunk.induct) (auto split: if_splits)

lemma sint_small:
  assumes "unat (x :: u64) < 2 ^ 63"
  shows "\<not> sint x < 0"
proof -
  have "uint x = int (unat x)" by simp
  moreover have "int (unat x) < 2 ^ 63" using assms by (simp only: of_nat_less_numeral_power_cancel_iff)
  ultimately have "uint x < 2 ^ 63" by (simp only:)
  then have "take_bit 63 (uint x) = uint x" by (intro take_bit_int_eq_self) simp_all
  then have "\<not> bit (uint x) 63" by (metis bit_take_bit_iff less_irrefl)
  then have "signed_take_bit 63 (uint x) = take_bit 63 (uint x)" by (rule signed_take_bit_eq_if_positive)
  moreover have "sint x = signed_take_bit (LENGTH(64) - 1) (uint x)" by (simp only: sint_uint One_nat_def)
  ultimately have "sint x = take_bit 63 (uint x)" by simp
  then show ?thesis by (simp only: not_less take_bit_nonnegative)
qed

text \<open>A new block: the file's bytes are stored in it, and the blocks in use keep theirs.\<close>

lemma store_in_block:
  assumes "length data \<le> n" and "n < 2 ^ 63" and "d = p + 24"
  shows "i < length data \<Longrightarrow> store_bytes m d data (d + of_nat i) = data ! i"
    and "\<not> in_range p (31 + n) x \<Longrightarrow> store_bytes m d data x = m x"
proof -
  have len: "length data \<le> 2 ^ 64" using assms by simp
  show "store_bytes m d data (d + of_nat i) = data ! i" if "i < length data"
    using that assms(1,2) by (simp add: store_bytes_apply [OF len] in_range_def unat_of_nat64)
  have "unat (24 :: addr) + length data \<le> 31 + n" using assms(1) by simp
  then have "in_range d (length data) x \<Longrightarrow> in_range p (31 + n) x"
    unfolding assms(3) using assms(2) by (intro in_range_sub [of p 24 "length data"]) simp_all
  then show "store_bytes m d data x = m x" if "\<not> in_range p (31 + n) x"
    using that by (auto simp: store_bytes_apply [OF len])
qed

lemma file_image_read_data:
  assumes "length (fia_file ia) < 2 ^ 63"
  shows "file_image_read m ia d off n =
    (of_nat (length (take (unat n) (drop (unat off) (fia_file ia)))), store_bytes m d (take (unat n) (drop (unat off) (fia_file ia))))"
proof (cases "unat off < 2 ^ 63")
  case True
  from sint_small [OF this] show ?thesis by (simp add: file_image_read_def Let_def)
next
  case False
  then have "drop (unat off) (fia_file ia) = []" using assms by simp
  then show ?thesis by (simp add: file_image_read_def Let_def)
qed

lemma map_new_chunk:
  assumes "allocates malloc" and "fia_inv ia m" and "unat bytes < 2 ^ 63"
    and "find_chunk (memory_list ia) src_offset bytes = None"
    and "file_image_map_to_mem malloc m ia src_offset bytes = Some (n, dest, ia', m')"
  defines "data \<equiv> take (unat bytes) (drop (unat src_offset) (fia_file ia))"
  obtains c where "memory_list ia' = c # memory_list ia" and "fia_file ia' = fia_file ia" and "dest = chunk_buffer c"
    and "chunk_offset c = src_offset" and "chunk_length c = bytes"
    and "n = of_nat (length data)" and "m' = store_bytes m dest data"
    and "\<And>d i. d \<in> set (memory_list ia) \<Longrightarrow> i < unat (chunk_length d) \<Longrightarrow> m' (chunk_buffer d + of_nat i) = m (chunk_buffer d + of_nat i)"
proof -
  define p where "p = malloc (map chunk_block (memory_list ia)) (31 + bytes)"
  define c where "c = \<lparr>chunk_ptr = p, chunk_offset = src_offset, chunk_length = bytes\<rparr>"
  have fl: "length (fia_file ia) < 2 ^ 63" using assms(2) by (simp add: fia_inv_def)
  have p: "p \<noteq> 0" "dest = chunk_buffer c" "ia' = ia\<lparr>memory_list := c # memory_list ia\<rparr>"
    "n = of_nat (length data)" "m' = store_bytes m dest data"
    using assms(4,5) fl
    by (auto simp: file_image_map_to_mem_def Let_def file_image_read_data data_def p_def [symmetric] c_def split: if_splits)
  have dest: "dest = p + 24" using p(2) by (simp add: c_def chunk_buffer_def)
  have len: "length data \<le> unat bytes" by (simp add: data_def)
  have keep: "m' (chunk_buffer d + of_nat i) = m (chunk_buffer d + of_nat i)"
    if d: "d \<in> set (memory_list ia)" "i < unat (chunk_length d)" for d i
  proof -
    have dl: "unat (chunk_length d) < 2 ^ 63" using assms(2) d(1) by (simp add: fia_inv_def)
    have "disjoint_ranges p (unat (31 + bytes)) (chunk_ptr d) (31 + unat (chunk_length d))"
      using assms(1) p(1) d(1) block_size [OF dl] unfolding allocates_def p_def by (fastforce simp: chunk_block_def)
    then have dis: "disjoint_ranges p (31 + unat bytes) (chunk_ptr d) (31 + unat (chunk_length d))"
      unfolding block_size [OF assms(3)] .
    have "unat (24 + of_nat i :: addr) = 24 + i" using d(2) dl by (simp add: unat_add64 unat_of_nat64)
    then have "in_range (chunk_ptr d) (31 + unat (chunk_length d)) (chunk_buffer d + of_nat i)"
      using d(2) by (simp add: in_range_def chunk_buffer_def add.assoc)
    then have "\<not> in_range p (31 + unat bytes) (chunk_buffer d + of_nat i)" using dis disjoint_ranges_not_both by blast
    then show ?thesis using store_in_block(2) [OF len assms(3) dest] p(5) by simp
  qed
  show ?thesis by (rule that [of c]) (use p keep in \<open>simp_all add: c_def\<close>)
qed

text \<open>
  C25: on an accessor whose chunks hold their part of the file, \<open>file_image_map_to_mem\<close> either finds no
  memory or hands out a buffer that holds the file's bytes from the offset, keeps every buffer it handed out before as it was,
  and leaves every chunk holding its part; a request inside the file is granted in full.
\<close>

theorem file_image_map_to_mem_holds:
  assumes "allocates malloc" and "fia_inv ia m" and "unat bytes < 2 ^ 63"
    and "file_image_map_to_mem malloc m ia src_offset bytes = Some (n, dest, ia', m')"
  shows "fia_inv ia' m' \<and> fia_file ia' = fia_file ia \<and>
    (\<forall>i < unat bytes. unat src_offset + i < length (fia_file ia) \<longrightarrow> m' (dest + of_nat i) = fia_file ia ! (unat src_offset + i)) \<and>
    (\<forall>d \<in> set (memory_list ia). \<forall>i < unat (chunk_length d). m' (chunk_buffer d + of_nat i) = m (chunk_buffer d + of_nat i)) \<and>
    (unat src_offset + unat bytes \<le> length (fia_file ia) \<longrightarrow> n = bytes)"
proof (cases "find_chunk (memory_list ia) src_offset bytes")
  case (Some c)
  then have "n = bytes" "dest = chunk_buffer c" "ia' = ia" "m' = m"
    using assms(4) by (simp_all add: file_image_map_to_mem_def)
  moreover have "chunk_holds (fia_file ia) m c" using find_chunk_Some [OF Some] assms(2) by (simp add: fia_inv_def)
  ultimately show ?thesis using find_chunk_Some [OF Some] assms(2) by (auto simp: chunk_holds_def)
next
  case None
  define data where "data = take (unat bytes) (drop (unat src_offset) (fia_file ia))"
  obtain c where c: "memory_list ia' = c # memory_list ia" "fia_file ia' = fia_file ia" "dest = chunk_buffer c"
    "chunk_offset c = src_offset" "chunk_length c = bytes" "n = of_nat (length data)" "m' = store_bytes m dest data"
    and keep: "\<And>d i. d \<in> set (memory_list ia) \<Longrightarrow> i < unat (chunk_length d) \<Longrightarrow> m' (chunk_buffer d + of_nat i) = m (chunk_buffer d + of_nat i)"
    using map_new_chunk [OF assms(1-3) None assms(4)] unfolding data_def by metis
  have len: "length data \<le> unat bytes" by (simp add: data_def)
  have new: "m' (dest + of_nat i) = fia_file ia ! (unat src_offset + i)"
    if "i < unat bytes" "unat src_offset + i < length (fia_file ia)" for i
  proof -
    have "i < length data" using that by (simp add: data_def)
    from store_in_block(1) [OF len assms(3) _ this, of dest "dest - 24" m] show ?thesis
      using that by (simp add: c(7)) (simp add: data_def)
  qed
  then have "chunk_holds (fia_file ia) m' c" unfolding chunk_holds_def c(4,5) c(3) [symmetric] by blast
  moreover have "chunk_holds (fia_file ia) m' d" if "d \<in> set (memory_list ia)" for d
    using that keep [OF that] assms(2) by (simp add: fia_inv_def chunk_holds_def)
  ultimately have inv: "fia_inv ia' m'" using assms(2,3) c(1,2,5) by (simp add: fia_inv_def)
  have "n = bytes" if "unat src_offset + unat bytes \<le> length (fia_file ia)"
  proof -
    have "length data = unat bytes" using that by (simp add: data_def)
    then show ?thesis using c(6) by simp
  qed
  with inv c(2) new keep show ?thesis by blast
qed

text \<open>An allocator with the law: every block after the end of those in use.\<close>

definition bump_malloc :: allocator where
  "bump_malloc live n =
     (let t = foldr (\<lambda>b t. max (unat (fst b) + snd b) t) live 0x1000 in if t + unat n < 2 ^ 64 then of_nat t else 0)"

lemma bump_malloc_allocates: "allocates bump_malloc"
  unfolding allocates_def
proof (intro allI impI ballI)
  fix live n b assume nz: "bump_malloc live n \<noteq> 0" and b: "b \<in> set live"
  define t where "t = foldr (\<lambda>b t. max (unat (fst b) + snd b) t) live 0x1000"
  have "unat (fst b) + snd b \<le> t" using b unfolding t_def by (induction live) auto
  moreover have t: "bump_malloc live n = of_nat t" "t + unat n < 2 ^ 64"
    using nz by (simp_all add: bump_malloc_def Let_def t_def split: if_splits)
  ultimately show "disjoint_ranges (bump_malloc live n) (unat n) (fst b) (snd b)"
    unfolding t(1) using t(2) by (intro disjoint_rangesI) (simp add: in_range_linear unat_of_nat64)
qed

definition demo_file :: file_image_access where
  "demo_file = \<lparr>fia_gen = File_Image_Ops, fia_file = [0x11, 0x22, 0x33, 0x44, 0x55], memory_list = []\<rparr>"

lemma demo_file_map:
  "file_image_map_to_mem bump_malloc m demo_file 1 3 =
     Some (3, 0x1018, demo_file\<lparr>memory_list := [\<lparr>chunk_ptr = 0x1000, chunk_offset = 1, chunk_length = 3\<rparr>]\<rparr>,
       store_bytes m 0x1018 [0x22, 0x33, 0x44])"
  by (simp add: file_image_map_to_mem_def demo_file_def bump_malloc_def Let_def chunk_buffer_def file_image_read_def)

lemma file_image_map_to_mem_holds_witness:
  "\<exists>ia' m'. file_image_map_to_mem bump_malloc (\<lambda>_. 0) demo_file 1 3 = Some (3, 0x1018, ia', m') \<and>
     fia_inv ia' m' \<and> m' 0x1019 = 0x33"
proof -
  have "fia_inv demo_file (\<lambda>_. 0)" by (simp add: fia_inv_def demo_file_def)
  note holds = file_image_map_to_mem_holds [OF bump_malloc_allocates this _ demo_file_map]
  then show ?thesis using demo_file_map [of "\<lambda>_. 0"] spec [OF conjunct1 [OF conjunct2 [OF conjunct2 [OF holds]]], of 1]
    by (simp add: demo_file_def)
qed

text \<open>
  A request that runs past the end of the file is granted in part the first time and, with no new byte
  read, in full the second time.
\<close>

lemma map_short_then_full:
  assumes "allocates malloc" and "fia_inv ia m" and "unat bytes < 2 ^ 63"
    and "find_chunk (memory_list ia) src_offset bytes = None"
    and "length (fia_file ia) < unat src_offset + unat bytes" and "0 < unat bytes"
    and "file_image_map_to_mem malloc m ia src_offset bytes = Some (n, dest, ia', m')"
  shows "n < bytes \<and> file_image_map_to_mem malloc m' ia' src_offset bytes = Some (bytes, dest, ia', m')"
proof -
  obtain c where c: "memory_list ia' = c # memory_list ia" "dest = chunk_buffer c" "chunk_offset c = src_offset"
      "chunk_length c = bytes"
      "n = of_nat (length (take (unat bytes) (drop (unat src_offset) (fia_file ia))))"
    using map_new_chunk [OF assms(1-4,7)] by metis
  have "length (take (unat bytes) (drop (unat src_offset) (fia_file ia))) < unat bytes" using assms(5,6) by simp
  then have "unat n < unat bytes" unfolding c(5) using assms(3) by (subst unat_of_nat64) simp_all
  then show ?thesis using c by (simp add: file_image_map_to_mem_def word_less_nat_alt)
qed

text \<open>Closing frees every chunk and the accessor, each of them once.\<close>

lemma free_chunks_all: "free_chunks cs = map chunk_ptr cs"
  by (induction cs) simp_all

lemma file_image_close_once:
  "distinct (map chunk_ptr (memory_list ia)) \<Longrightarrow> fia \<notin> chunk_ptr ` set (memory_list ia) \<Longrightarrow>
   distinct (file_image_close fia ia) \<and> set (file_image_close fia ia) = insert fia (chunk_ptr ` set (memory_list ia))"
  by (auto simp: file_image_close_def free_chunks_all)

end
