(* ===== verification/Packer.thy ===== *)
theory Packer
  imports Xmon_Desc Heap_Manager Linear_Scan Byte_Lists
begin

text \<open>
  The host tool \<open>pre_os/tools/xmon_packer.c\<close>, which concatenates the starter and the three modules
  into one package, writes the file mapping header into the starter's part and completes the boot
  header. Files are byte lists by name; what the C library may refuse (removing, opening, reading,
  writing a file, allocating memory) is the parameter record \<open>host\<close>, and so are the bytes behind an
  allocated buffer, which the searches may read. Messages are not modelled.
\<close>

section \<open>The host\<close>

type_synonym files = "string \<Rightarrow> u8 list option"

record host =
  remove_error :: bool
  fopen_ok :: "string \<Rightarrow> bool"
  malloc_ok :: "u32 \<Rightarrow> bool"
  fread_ok :: "string \<Rightarrow> bool"
  written :: "u8 list \<Rightarrow> u8 list"
  behind :: "nat \<Rightarrow> u8"

text \<open>A refusal is the return value -1; handing a null pointer to \<open>strncmp\<close> is a fault.\<close>

datatype packer_error = Packer_Refuses | Packer_Null_Pointer

definition XMON_PKG_BIN_NAME :: string where "XMON_PKG_BIN_NAME = ''ikgt_pkg.bin''"

definition get_file_size :: "files \<Rightarrow> string \<Rightarrow> u64" where
  "get_file_size fs name = (case fs name of Some bs \<Rightarrow> of_nat (length bs) | None \<Rightarrow> - 1)"

definition read_file_to_buf :: "host \<Rightarrow> files \<Rightarrow> string \<Rightarrow> u32 \<Rightarrow> u8 list option" where
  "read_file_to_buf H fs fname buf_size =
     (case fs fname of
        None \<Rightarrow> None
      | Some bs \<Rightarrow>
          if \<not> fopen_ok H fname \<or> \<not> malloc_ok H buf_size then None
          else if \<not> fread_ok H fname \<or> length bs < unat buf_size then None
          else Some (take (unat buf_size) bs))"

definition append_buf_to_file :: "host \<Rightarrow> files \<Rightarrow> string \<Rightarrow> u8 list \<Rightarrow> bool \<times> files" where
  "append_buf_to_file H fs f buf =
     (written H buf = buf, fs(f := Some (the (fs f) @ written H buf)))"

definition write_buf_to_file :: "host \<Rightarrow> files \<Rightarrow> string \<Rightarrow> nat \<Rightarrow> u8 list \<Rightarrow> bool \<times> files" where
  "write_buf_to_file H fs f f_offset buf =
     (written H buf = buf, fs(f := Some (splice (the (fs f)) f_offset (written H buf))))"

section \<open>The file options\<close>

record file_option =
  must_exist :: bool
  option_name :: string
  file_name :: "string option"
  fo_flag :: u32
  fo_offset :: u32
  fo_fsize :: u32

definition STARTER_FILE_OPTION :: string where "STARTER_FILE_OPTION = ''--starter''"

definition files_options :: "file_option list" where
  "files_options =
     [\<lparr>must_exist = True, option_name = STARTER_FILE_OPTION, file_name = Some ''starter.bin'',
       fo_flag = 0, fo_offset = 0, fo_fsize = 0\<rparr>,
      \<lparr>must_exist = True, option_name = ''--xmon_loader'', file_name = Some ''xmon_loader.bin'',
       fo_flag = INDEX_TO_BITMAP_FLAG (file_index XMON_LOADER_BIN_INDEX), fo_offset = 0, fo_fsize = 0\<rparr>,
      \<lparr>must_exist = True, option_name = ''--startap'', file_name = Some ''startap.bin'',
       fo_flag = INDEX_TO_BITMAP_FLAG (file_index STARTAP_BIN_INDEX), fo_offset = 0, fo_fsize = 0\<rparr>,
      \<lparr>must_exist = True, option_name = ''--xmon'', file_name = Some ''xmon.bin'',
       fo_flag = INDEX_TO_BITMAP_FLAG (file_index XMON_BIN_INDEX), fo_offset = 0, fo_fsize = 0\<rparr>]"

definition check_file_array_assumptions :: "file_option list \<Rightarrow> packer_error + unit" where
  "check_file_array_assumptions fa =
     (if list_all (\<lambda>i. (i = 0 \<longrightarrow> option_name (fa ! i) = STARTER_FILE_OPTION) \<and>
                       (i \<noteq> 0 \<longrightarrow> INDEX_TO_BITMAP_FLAG (i - 1) = fo_flag (fa ! i))) [0..<length fa]
      then Inr () else Inl Packer_Refuses)"

primrec find_option :: "string \<Rightarrow> file_option list \<Rightarrow> nat option" where
  "find_option arg [] = None"
| "find_option arg (f # fa) =
     (if arg = option_name f then Some 0 else map_option Suc (find_option arg fa))"

text \<open>The arguments after \<open>argv[0]\<close>; behind the last one \<open>argv\<close> holds a null pointer.\<close>

fun parse_args :: "string list \<Rightarrow> file_option list \<Rightarrow> packer_error + file_option list" where
  "parse_args [] fa = Inr fa"
| "parse_args [arg] fa =
     (case find_option arg fa of None \<Rightarrow> Inl Packer_Refuses | Some _ \<Rightarrow> Inl Packer_Null_Pointer)"
| "parse_args (arg # val # args) fa =
     (case find_option arg fa of
        None \<Rightarrow> Inl Packer_Refuses
      | Some i \<Rightarrow>
          if take 2 val = ''--'' then Inl Packer_Refuses
          else parse_args args (fa[i := (fa ! i)\<lparr>file_name := Some val\<rparr>]))"

definition parse_packer_cmdline :: "string list \<Rightarrow> file_option list \<Rightarrow> packer_error + file_option list" where
  "parse_packer_cmdline argv fa = parse_args (tl argv) fa"

definition option_size :: "files \<Rightarrow> file_option \<Rightarrow> packer_error + u32" where
  "option_size fs f =
     (if must_exist f \<and> file_name f = None then Inl Packer_Refuses
      else case file_name f of
        None \<Rightarrow> Inr 0
      | Some fname \<Rightarrow>
          let fsize = get_file_size fs fname in
          if fsize = 0 \<or> fsize = - 1 then if must_exist f then Inl Packer_Refuses else Inr 0
          else Inr (ucast fsize))"

text \<open>\<open>prev\<close>: the entry before the current one, none for the first.\<close>

fun update_info :: "files \<Rightarrow> file_option option \<Rightarrow> file_option list \<Rightarrow> packer_error + file_option list" where
  "update_info fs prev [] = Inr []"
| "update_info fs prev (f # fa) =
     (case option_size fs f of
        Inl e \<Rightarrow> Inl e
      | Inr sz \<Rightarrow>
          let f = f\<lparr>fo_fsize := sz\<rparr>;
              f = (case prev of None \<Rightarrow> f | Some p \<Rightarrow> f\<lparr>fo_offset := fo_offset p + fo_fsize p\<rparr>)
          in case update_info fs (Some f) fa of Inl e \<Rightarrow> Inl e | Inr fa \<Rightarrow> Inr (f # fa))"

definition update_file_info :: "files \<Rightarrow> file_option list \<Rightarrow> packer_error + file_option list" where
  "update_file_info fs fa =
     (case update_info fs None fa of
        Inl e \<Rightarrow> Inl e
      | Inr fa \<Rightarrow> if list_ex (\<lambda>f. must_exist f \<and> fo_fsize f = 0) fa then Inl Packer_Refuses else Inr fa)"

definition get_total_file_size :: "file_option list \<Rightarrow> u32" where
  "get_total_file_size fa = fold (\<lambda>f total. total + fo_fsize f) fa 0"

definition total_file_size_check :: "bool \<Rightarrow> file_option list \<Rightarrow> packer_error + unit" where
  "total_file_size_check debug fa =
     (if get_total_file_size fa > of_nat (LOADER_BIN_SIZE debug) then Inl Packer_Refuses else Inr ())"

section \<open>Packing\<close>

fun pack_loop :: "host \<Rightarrow> file_option list \<Rightarrow> files \<Rightarrow> (packer_error + unit) \<times> files" where
  "pack_loop H [] fs = (Inr (), fs)"
| "pack_loop H (f # fa) fs =
     (if fo_fsize f = 0 then pack_loop H fa fs
      else case Option.bind (file_name f) (\<lambda>fname. read_file_to_buf H fs fname (fo_fsize f)) of
        None \<Rightarrow> (Inl Packer_Refuses, fs)
      | Some buf \<Rightarrow>
          let (ok, fs) = append_buf_to_file H fs XMON_PKG_BIN_NAME buf
          in if ok then pack_loop H fa fs else (Inl Packer_Refuses, fs))"

definition pack_files :: "host \<Rightarrow> file_option list \<Rightarrow> files \<Rightarrow> (packer_error + unit) \<times> files" where
  "pack_files H fa fs =
     (if remove_error H then (Inl Packer_Refuses, fs)
      else
        let fs = fs(XMON_PKG_BIN_NAME := None) in
        if \<not> fopen_ok H XMON_PKG_BIN_NAME then (Inl Packer_Refuses, fs)
        else pack_loop H fa (fs(XMON_PKG_BIN_NAME := Some [])))"

section \<open>The file mapping header\<close>

record file_hdr =
  fh_magic0 :: u32
  fh_magic1 :: u32
  fh_flags :: u32
  fh_files :: "(u32 \<times> u32) list"

definition file_hdr_bytes :: "file_hdr \<Rightarrow> u8 list" where
  "file_hdr_bytes h =
     word_bytes 4 (fh_magic0 h) @ word_bytes 4 (fh_magic1 h) @ word_bytes 4 (fh_flags h) @
     concat (map (\<lambda>(offset, sz). word_bytes 4 offset @ word_bytes 4 sz) (fh_files h))"

definition hdr_info_step :: "nat \<times> file_option \<Rightarrow> file_hdr \<Rightarrow> file_hdr" where
  "hdr_info_step = (\<lambda>(idx, f) h.
     let h = (if fo_fsize f \<noteq> 0 then h\<lparr>fh_flags := fh_flags h OR fo_flag f\<rparr> else h)
     in if idx \<noteq> 0 then h\<lparr>fh_files := (fh_files h)[idx - 1 := (fo_offset f, fo_fsize f)]\<rparr> else h)"

definition get_file_hdr_info :: "file_option list \<Rightarrow> file_hdr \<Rightarrow> packer_error + file_hdr" where
  "get_file_hdr_info fa h =
     (if length fa - 1 \<noteq> MAX_BIN_COUNT then Inl Packer_Refuses
      else Inr (fold hdr_info_step (enumerate 0 fa) (h\<lparr>fh_flags := 0\<rparr>)))"

definition buf_byte :: "host \<Rightarrow> u8 list \<Rightarrow> nat \<Rightarrow> u8" where
  "buf_byte H buf i = (if i < length buf then buf ! i else behind H (i - length buf))"

definition buf_word :: "host \<Rightarrow> u8 list \<Rightarrow> nat \<Rightarrow> nat \<Rightarrow> 'a::len word" where
  "buf_word H buf n i = le_word (map (\<lambda>j. buf_byte H buf (i + j)) [0..<n])"

text \<open>The 4-byte aligned searches: offsets below \<open>fsize - 4\<close>.\<close>

function scan_buf :: "(nat \<Rightarrow> bool) \<Rightarrow> nat \<Rightarrow> nat \<Rightarrow> nat option" where
  "scan_buf test fsize off =
     (if off + 4 < fsize then if test off then Some off else scan_buf test fsize (off + 4) else None)"
  by pat_completeness auto
termination by (relation "measure (\<lambda>(test, fsize, off). fsize - off)") auto

declare scan_buf.simps [simp del]

definition buf_hdr_magics :: "host \<Rightarrow> u8 list \<Rightarrow> nat \<Rightarrow> bool" where
  "buf_hdr_magics H buf i \<longleftrightarrow>
     buf_word H buf 4 i = XMON_LOADERBIN_FILE_MAPPING_HEADER_MAGIC0 \<and>
     buf_word H buf 4 (i + 4) = XMON_LOADERBIN_FILE_MAPPING_HEADER_MAGIC1"

text \<open>The result: the offset, or none when there is no header and \<open>hdr_offset\<close> keeps its -1.\<close>

definition get_file_header_location :: "host \<Rightarrow> files \<Rightarrow> file_option list \<Rightarrow> packer_error + nat option" where
  "get_file_header_location H fs fa =
     (case Option.bind (file_name (fa ! 0)) (\<lambda>fname. read_file_to_buf H fs fname (fo_fsize (fa ! 0))) of
        None \<Rightarrow> Inl Packer_Refuses
      | Some buf \<Rightarrow>
          (case scan_buf (buf_hdr_magics H buf) (unat (fo_fsize (fa ! 0))) 0 of
             None \<Rightarrow> Inr None
           | Some off \<Rightarrow>
               if buf_word H buf 4 (off + 8) \<noteq> (0 :: u32) then Inl Packer_Refuses else Inr (Some off)))"

definition update_file_header :: "host \<Rightarrow> file_option list \<Rightarrow> files \<Rightarrow> (packer_error + unit) \<times> files" where
  "update_file_header H fa fs =
     (case get_file_hdr_info fa
             \<lparr>fh_magic0 = XMON_LOADERBIN_FILE_MAPPING_HEADER_MAGIC0,
              fh_magic1 = XMON_LOADERBIN_FILE_MAPPING_HEADER_MAGIC1,
              fh_flags = 0, fh_files = replicate MAX_BIN_COUNT (0, 0)\<rparr> of
        Inl e \<Rightarrow> (Inl e, fs)
      | Inr hdr \<Rightarrow>
          (case get_file_header_location H fs fa of
             Inr (Some hdr_offset) \<Rightarrow>
               if \<not> fopen_ok H XMON_PKG_BIN_NAME \<or> fs XMON_PKG_BIN_NAME = None then (Inl Packer_Refuses, fs)
               else
                 let (ok, fs) = write_buf_to_file H fs XMON_PKG_BIN_NAME hdr_offset (file_hdr_bytes hdr)
                 in (if ok then Inr () else Inl Packer_Refuses, fs)
           | _ \<Rightarrow> (Inl Packer_Refuses, fs)))"

section \<open>The boot header\<close>

definition IKGT_BOOT_HEADER_MAGIC :: u64 where "IKGT_BOOT_HEADER_MAGIC = 0x6d6d76656967616d"
definition RT_MEM_BASE :: u32 where "RT_MEM_BASE = 0x12C00000"
definition LDR_MEM_BASE :: u32 where "LDR_MEM_BASE = 0x10000000"
definition BOOT_HDR_VERSION :: u32 where "BOOT_HDR_VERSION = 1"
definition BOOT_HDR_SIZE :: nat where "BOOT_HDR_SIZE = 56"

definition patch32 :: "u8 list \<Rightarrow> nat \<Rightarrow> u32 \<Rightarrow> u8 list" where
  "patch32 bs off w = splice bs off (word_bytes 4 w)"

text \<open>\<open>ALIGN_4K(fsize)\<close> with the tool's own macro.\<close>

definition align_4k :: "u32 \<Rightarrow> u64" where
  "align_4k fsize = align_forward_macro fsize 0x1000"

definition complete_boot_hdr :: "bool \<Rightarrow> nat \<Rightarrow> u32 \<Rightarrow> u8 list \<Rightarrow> u8 list" where
  "complete_boot_hdr debug sizeof_desc fsize h =
     (let h = patch32 h 36 (of_nat (runtime_layout_size debug));
          h = patch32 h 32 RT_MEM_BASE;
          h = patch32 h 44 (of_nat (loader_layout_size debug sizeof_desc));
          h = patch32 h 40 LDR_MEM_BASE;
          h = patch32 h 12 BOOT_HDR_VERSION
      in patch32 h 48 (ucast (align_4k fsize)))"

definition update_boot_header ::
  "host \<Rightarrow> bool \<Rightarrow> nat \<Rightarrow> file_option list \<Rightarrow> files \<Rightarrow> (packer_error + unit) \<times> files" where
  "update_boot_header H debug sizeof_desc fa fs =
     (let fsize = get_total_file_size fa in
      case read_file_to_buf H fs XMON_PKG_BIN_NAME fsize of
        None \<Rightarrow> (Inl Packer_Refuses, fs)
      | Some buf \<Rightarrow>
          (case scan_buf (\<lambda>i. buf_word H buf 8 i = IKGT_BOOT_HEADER_MAGIC) (unat fsize) 0 of
             None \<Rightarrow> (Inl Packer_Refuses, fs)
           | Some hdr_offset \<Rightarrow>
               let boot_hdr = complete_boot_hdr debug sizeof_desc fsize
                                (map (\<lambda>j. buf_byte H buf (hdr_offset + j)) [0..<BOOT_HDR_SIZE])
               in if \<not> fopen_ok H XMON_PKG_BIN_NAME then (Inl Packer_Refuses, fs)
                  else
                    let (ok, fs) = write_buf_to_file H fs XMON_PKG_BIN_NAME hdr_offset boot_hdr
                    in if \<not> ok then (Inl Packer_Refuses, fs)
                       else
                         let (ok, fs) = append_buf_to_file H fs XMON_PKG_BIN_NAME
                                          (replicate (unat (align_4k fsize - ucast fsize)) 0)
                         in (if ok then Inr () else Inl Packer_Refuses, fs)))"

section \<open>The tool\<close>

text \<open>\<open>main\<close>: the result of the run and the files it leaves.\<close>

definition packer_main ::
  "host \<Rightarrow> bool \<Rightarrow> nat \<Rightarrow> string list \<Rightarrow> files \<Rightarrow> (packer_error + unit) \<times> files" where
  "packer_main H debug sizeof_desc argv fs =
     (case check_file_array_assumptions files_options of Inl e \<Rightarrow> (Inl e, fs) | Inr _ \<Rightarrow>
      case parse_packer_cmdline argv files_options of Inl e \<Rightarrow> (Inl e, fs) | Inr fa \<Rightarrow>
      case update_file_info fs fa of Inl e \<Rightarrow> (Inl e, fs) | Inr fa \<Rightarrow>
      case total_file_size_check debug fa of Inl e \<Rightarrow> (Inl e, fs) | Inr _ \<Rightarrow>
      case pack_files H fa fs of (Inl e, fs) \<Rightarrow> (Inl e, fs) | (Inr _, fs) \<Rightarrow>
      case update_file_header H fa fs of (Inl e, fs) \<Rightarrow> (Inl e, fs) | (Inr _, fs) \<Rightarrow>
      update_boot_header H debug sizeof_desc fa fs)"

end
