(* ===== verification/Package.thy ===== *)
theory Package
  imports Packer Starter
begin

text \<open>
  What \<open>Packer\<close> builds: the four files one after the other, with the file mapping header and the boot
  header completed in the starter's part and zeros up to the next page; and what the starter finds in
  a memory that holds such a package.
\<close>

section \<open>Searching a buffer\<close>

interpretation buf_scan: linear_scan "\<lambda>k. Some (scan_buf test n (4 * k))" "\<lambda>k. test (4 * k)"
    "\<lambda>k. Some (4 * k)" None "(n - 1) div 4"
  for test :: "nat \<Rightarrow> bool" and n :: nat
proof
  fix k assume k: "k < (n - 1) div 4"
  then have "4 * (k + 1) \<le> n - 1" by (simp add: less_eq_div_iff_mult_less_eq [symmetric] mult.commute)
  then have "4 * k + 4 < n" using k by (cases n) auto
  then show "Some (scan_buf test n (4 * k)) =
      (if test (4 * k) then Some (Some (4 * k)) else Some (scan_buf test n (4 * Suc k)))"
    by (subst scan_buf.simps) (simp add: add.commute)
next
  have "n - 1 < 4 * ((n - 1) div 4) + 4" using div_mult_mod_eq [of "n - 1" 4] mod_less_divisor [of 4 "n - 1"] by linarith
  then have "\<not> 4 * ((n - 1) div 4) + 4 < n" by linarith
  then show "Some (scan_buf test n (4 * ((n - 1) div 4))) = Some None"
    by (subst scan_buf.simps) simp
qed

lemma scan_buf_first:
  assumes "test (4 * k)" and "4 * k + 4 < n" and "\<And>i. i < k \<Longrightarrow> \<not> test (4 * i)"
  shows "scan_buf test n 0 = Some (4 * k)"
proof -
  have "k < (n - 1) div 4" using assms(2) by linarith
  from buf_scan.scan_hit [OF _ this, of 0 test] assms(1,3) show ?thesis by simp
qed

lemma buf_word_eq:
  assumes "8 * n = LENGTH('a)" and "i + n \<le> length buf"
  shows "(buf_word H buf n i :: 'a::len word) = w \<longleftrightarrow> bslice buf i n = word_bytes n w"
proof -
  have "map (\<lambda>j. buf_byte H buf (i + j)) [0..<n] = bslice buf i n"
    using assms(2) by (auto simp: buf_byte_def bslice_eq_map)
  moreover have "length (bslice buf i n) = n" using assms(2) by simp
  ultimately show ?thesis
    using le_word_eq_iff [of "bslice buf i n" w] assms(1) by (simp add: buf_word_def)
qed

section \<open>A run on a host that refuses nothing\<close>

definition host_ok :: "host \<Rightarrow> bool" where
  "host_ok H \<longleftrightarrow> \<not> remove_error H \<and> (\<forall>n. fopen_ok H n \<and> fread_ok H n) \<and> (\<forall>n. malloc_ok H n) \<and>
     (\<forall>d. written H d = d)"

definition named_options :: "string list \<Rightarrow> file_option list" where
  "named_options nms = map2 (\<lambda>f nm. f\<lparr>file_name := Some nm\<rparr>) files_options nms"

text \<open>The options with the sizes and offsets of the file contents \<open>cs\<close>.\<close>

definition sized_options :: "string list \<Rightarrow> u8 list list \<Rightarrow> file_option list" where
  "sized_options nms cs =
     map (\<lambda>i. (named_options nms ! i)\<lparr>fo_offset := of_nat (length (concat (take i cs))),
                                     fo_fsize := of_nat (length (cs ! i))\<rparr>) [0..<4]"

text \<open>The inputs of a run: four different-from-the-package names of non-empty files that fit.\<close>

definition inputs_ok :: "bool \<Rightarrow> files \<Rightarrow> string list \<Rightarrow> u8 list list \<Rightarrow> bool" where
  "inputs_ok debug fs nms cs \<longleftrightarrow>
     length nms = 4 \<and> length cs = 4 \<and>
     (\<forall>i < 4. nms ! i \<noteq> XMON_PKG_BIN_NAME \<and> fs (nms ! i) = Some (cs ! i) \<and> cs ! i \<noteq> []) \<and>
     length (concat cs) \<le> LOADER_BIN_SIZE debug"

lemma list4E:
  assumes "length xs = 4"
  obtains a b c d where "xs = [a, b, c, d]"
  using assms by (auto simp: numeral_eq_Suc length_Suc_conv)

lemma inputs_okE:
  assumes "inputs_ok debug fs nms cs"
  obtains n0 n1 n2 n3 c0 c1 c2 c3 where "nms = [n0, n1, n2, n3]" "cs = [c0, c1, c2, c3]"
    "fs n0 = Some c0" "fs n1 = Some c1" "fs n2 = Some c2" "fs n3 = Some c3"
    "XMON_PKG_BIN_NAME \<notin> {n0, n1, n2, n3}" "[] \<notin> {c0, c1, c2, c3}"
    "length c0 + length c1 + length c2 + length c3 \<le> LOADER_BIN_SIZE debug"
proof -
  obtain n0 n1 n2 n3 where n: "nms = [n0, n1, n2, n3]" using assms by (auto simp: inputs_ok_def elim: list4E)
  obtain c0 c1 c2 c3 where c: "cs = [c0, c1, c2, c3]" using assms by (auto simp: inputs_ok_def elim: list4E)
  have "\<forall>i < 4. nms ! i \<noteq> XMON_PKG_BIN_NAME \<and> fs (nms ! i) = Some (cs ! i) \<and> cs ! i \<noteq> []"
    using assms by (simp add: inputs_ok_def)
  from this [rule_format, of 0] this [rule_format, of 1] this [rule_format, of 2] this [rule_format, of 3]
  show ?thesis using that [OF n c] assms n c by (auto simp: inputs_ok_def)
qed

lemma loader_bin_size_less: "n \<le> LOADER_BIN_SIZE debug \<Longrightarrow> n < 2 ^ 20"
  by (simp add: LOADER_BIN_SIZE_def split: if_splits)

lemma ucast_of_nat64: "n < 2 ^ 32 \<Longrightarrow> (ucast (of_nat n :: u64) :: u32) = of_nat n"
  by (simp add: word_unat_eq_iff unat_ucast_u64_u32 unat_of_nat64 unat_of_nat32)

lemma ucast_of_unat32: "unat y = k \<Longrightarrow> k < 2 ^ 32 \<Longrightarrow> (ucast (y :: u64) :: u32) = of_nat k"
  by (simp add: word_unat_eq_iff unat_ucast_u64_u32 unat_of_nat32)

lemma option_size_file:
  assumes "fs nm = Some c" and "c \<noteq> []" and "length c < 2 ^ 32" and "file_name f = Some nm"
  shows "option_size fs f = Inr (of_nat (length c))"
proof -
  have "unat (of_nat (length c) :: u64) = length c" using assms(3) by (intro unat_of_nat64) simp
  moreover have "unat (- 1 :: u64) = 2 ^ 64 - 1" using unat_minus_flip [of 1] by simp
  ultimately have "(of_nat (length c) :: u64) \<noteq> 0" "(of_nat (length c) :: u64) \<noteq> - 1"
    using assms(2,3) by auto
  then show ?thesis
    using assms by (simp add: option_size_def get_file_size_def ucast_of_nat64 Let_def)
qed

lemma update_file_info_sized:
  assumes "inputs_ok debug fs nms cs"
  shows "update_file_info fs (named_options nms) = Inr (sized_options nms cs)"
proof -
  from assms obtain n0 n1 n2 n3 c0 c1 c2 c3 where l: "nms = [n0, n1, n2, n3]" "cs = [c0, c1, c2, c3]"
    and f: "fs n0 = Some c0" "fs n1 = Some c1" "fs n2 = Some c2" "fs n3 = Some c3"
    and ne: "[] \<notin> {c0, c1, c2, c3}" and len: "length c0 + length c1 + length c2 + length c3 \<le> LOADER_BIN_SIZE debug"
    by (rule inputs_okE)
  have "length c0 < 2 ^ 32" "length c1 < 2 ^ 32" "length c2 < 2 ^ 32" "length c3 < 2 ^ 32"
    using loader_bin_size_less [OF len] by simp_all
  then have sz: "option_size fs g = Inr (of_nat (length c))"
    and nz: "(of_nat (length c) :: u32) \<noteq> 0"
    if "(nm, c) \<in> {(n0, c0), (n1, c1), (n2, c2), (n3, c3)}" "file_name g = Some nm" for g nm c
    using that f ne option_size_file [of fs nm c g] unat_of_nat32 [of "length c"] by (auto simp: word_unat_eq_iff)
  have "update_info fs None (named_options nms) = Inr (sized_options nms cs)"
    by (simp add: l named_options_def files_options_def sized_options_def sz [of n0 c0] sz [of n1 c1]
        sz [of n2 c2] sz [of n3 c3] Let_def upt_rec add.assoc)
  moreover have "\<not> list_ex (\<lambda>f. must_exist f \<and> fo_fsize f = 0) (sized_options nms cs)"
    using nz [of n0 c0 "named_options nms ! 0"] nz [of n1 c1 "named_options nms ! 1"]
      nz [of n2 c2 "named_options nms ! 2"] nz [of n3 c3 "named_options nms ! 3"]
    by (simp add: l named_options_def files_options_def sized_options_def upt_rec)
  ultimately show ?thesis by (simp add: update_file_info_def)
qed

lemma total_size_sized:
  assumes "inputs_ok debug fs nms cs"
  shows "get_total_file_size (sized_options nms cs) = of_nat (length (concat cs))"
    and "total_file_size_check debug (sized_options nms cs) = Inr ()"
proof -
  from assms obtain n0 n1 n2 n3 c0 c1 c2 c3 where l: "nms = [n0, n1, n2, n3]" "cs = [c0, c1, c2, c3]"
    and len: "length c0 + length c1 + length c2 + length c3 \<le> LOADER_BIN_SIZE debug"
    by (rule inputs_okE)
  show t: "get_total_file_size (sized_options nms cs) = of_nat (length (concat cs))"
    by (simp add: get_total_file_size_def sized_options_def l upt_rec add.assoc)
  have "unat (of_nat (length (concat cs)) :: u32) = length (concat cs)"
    "unat (of_nat (LOADER_BIN_SIZE debug) :: u32) = LOADER_BIN_SIZE debug"
    using loader_bin_size_less [OF len] loader_bin_size_less [OF order_refl, of debug] l
    by (simp_all add: unat_of_nat32 del: of_nat_add)
  then show "total_file_size_check debug (sized_options nms cs) = Inr ()"
    using len l unfolding total_file_size_check_def t by (simp add: word_less_nat_alt)
qed

lemma pack_loop_append:
  assumes "host_ok H" and "file_name f \<noteq> None" and "fs (the (file_name f)) = Some c" and "c \<noteq> []"
    and "length c < 2 ^ 32" and "fo_fsize f = of_nat (length c)" and "the (file_name f) \<noteq> XMON_PKG_BIN_NAME"
  shows "pack_loop H (f # fa) (fs(XMON_PKG_BIN_NAME := Some bs)) =
         pack_loop H fa (fs(XMON_PKG_BIN_NAME := Some (bs @ c)))"
proof -
  have sz: "unat (fo_fsize f) = length c" using assms(5,6) by (simp add: unat_of_nat32)
  then have "fo_fsize f \<noteq> 0" using assms(4) by auto
  then show ?thesis
    using assms sz by (auto simp: host_ok_def read_file_to_buf_def append_buf_to_file_def)
qed

lemma pack_files_sized:
  assumes "host_ok H" and "inputs_ok debug fs nms cs"
  shows "pack_files H (sized_options nms cs) fs = (Inr (), fs(XMON_PKG_BIN_NAME := Some (concat cs)))"
proof -
  from assms(2) obtain n0 n1 n2 n3 c0 c1 c2 c3 where l: "nms = [n0, n1, n2, n3]" "cs = [c0, c1, c2, c3]"
    and f: "fs n0 = Some c0" "fs n1 = Some c1" "fs n2 = Some c2" "fs n3 = Some c3"
    and pkg: "XMON_PKG_BIN_NAME \<notin> {n0, n1, n2, n3}" and ne: "[] \<notin> {c0, c1, c2, c3}"
    and len: "length c0 + length c1 + length c2 + length c3 \<le> LOADER_BIN_SIZE debug"
    by (rule inputs_okE)
  have sz: "length c0 < 2 ^ 32" "length c1 < 2 ^ 32" "length c2 < 2 ^ 32" "length c3 < 2 ^ 32"
    using loader_bin_size_less [OF len] by simp_all
  have apart: "n0 \<noteq> XMON_PKG_BIN_NAME" "n1 \<noteq> XMON_PKG_BIN_NAME" "n2 \<noteq> XMON_PKG_BIN_NAME"
    "n3 \<noteq> XMON_PKG_BIN_NAME" "c0 \<noteq> []" "c1 \<noteq> []" "c2 \<noteq> []" "c3 \<noteq> []"
    using pkg ne by auto
  have "pack_files H (sized_options nms cs) fs =
        pack_loop H (sized_options nms cs) (fs(XMON_PKG_BIN_NAME := Some []))"
    using assms(1) by (simp add: pack_files_def host_ok_def)
  also have "\<dots> = (Inr (), fs(XMON_PKG_BIN_NAME := Some ((([] @ c0) @ c1) @ c2 @ c3)))"
    using f apart sz
    by (simp add: l sized_options_def named_options_def files_options_def upt_rec
        pack_loop_append [OF assms(1), where c = c0] pack_loop_append [OF assms(1), where c = c1]
        pack_loop_append [OF assms(1), where c = c2] pack_loop_append [OF assms(1), where c = c3]
        del: pack_loop.simps(2))
  finally show ?thesis by (simp add: l)
qed

definition packed_hdr :: "u8 list list \<Rightarrow> file_hdr" where
  "packed_hdr cs =
     \<lparr>fh_magic0 = XMON_LOADERBIN_FILE_MAPPING_HEADER_MAGIC0,
      fh_magic1 = XMON_LOADERBIN_FILE_MAPPING_HEADER_MAGIC1, fh_flags = 7,
      fh_files = map (\<lambda>i. (of_nat (length (concat (take i cs))), of_nat (length (cs ! i)))) [1..<4]\<rparr>"

lemma get_file_hdr_info_sized:
  assumes "inputs_ok debug fs nms cs"
  shows "get_file_hdr_info (sized_options nms cs)
           \<lparr>fh_magic0 = XMON_LOADERBIN_FILE_MAPPING_HEADER_MAGIC0,
            fh_magic1 = XMON_LOADERBIN_FILE_MAPPING_HEADER_MAGIC1,
            fh_flags = 0, fh_files = replicate MAX_BIN_COUNT (0, 0)\<rparr> = Inr (packed_hdr cs)"
proof -
  from assms obtain n0 n1 n2 n3 c0 c1 c2 c3 where l: "nms = [n0, n1, n2, n3]" "cs = [c0, c1, c2, c3]"
    and ne: "[] \<notin> {c0, c1, c2, c3}"
    and len: "length c0 + length c1 + length c2 + length c3 \<le> LOADER_BIN_SIZE debug"
    by (rule inputs_okE)
  have "length c0 < 2 ^ 32" "length c1 < 2 ^ 32" "length c2 < 2 ^ 32" "length c3 < 2 ^ 32"
    using loader_bin_size_less [OF len] by simp_all
  then have nz: "(of_nat (length c) :: u32) \<noteq> 0" if "c \<in> {c0, c1, c2, c3}" for c
    using that ne unat_of_nat32 [of "length c"] by (auto simp: word_unat_eq_iff)
  show ?thesis
    using nz [of c0] nz [of c1] nz [of c2] nz [of c3]
    by (simp add: get_file_hdr_info_def packed_hdr_def hdr_info_step_def sized_options_def l upt_rec
        named_options_def files_options_def MAX_BIN_COUNT_def INDEX_TO_BITMAP_FLAG_def numeral_3_eq_3)
qed

section \<open>Where the headers are\<close>

definition file_magic_bytes :: "u8 list" where
  "file_magic_bytes = word_bytes 4 XMON_LOADERBIN_FILE_MAPPING_HEADER_MAGIC0 @
     word_bytes 4 XMON_LOADERBIN_FILE_MAPPING_HEADER_MAGIC1"

definition boot_magic_bytes :: "u8 list" where
  "boot_magic_bytes = word_bytes 4 (0x6967616d :: u32) @ word_bytes 4 (0x6d6d7665 :: u32)"

text \<open>
  The starter's file \<open>c\<close> has its file mapping header at the word \<open>kh\<close>, with no flags yet, and its boot
  header at the word \<open>kb\<close>; both are the first of their kind and do not overlap.
\<close>

definition starter_layout :: "u8 list \<Rightarrow> nat \<Rightarrow> nat \<Rightarrow> bool" where
  "starter_layout c kh kb \<longleftrightarrow>
     4 * kh + 36 \<le> length c \<and> 4 * kb + 56 \<le> length c \<and> (4 * kh + 36 \<le> 4 * kb \<or> 4 * kb + 56 \<le> 4 * kh) \<and>
     bslice c (4 * kh) 8 = file_magic_bytes \<and> (\<forall>i < kh. bslice c (4 * i) 8 \<noteq> file_magic_bytes) \<and>
     bslice c (4 * kh + 8) 4 = replicate 4 0 \<and>
     bslice c (4 * kb) 8 = boot_magic_bytes \<and> (\<forall>i < kb. bslice c (4 * i) 8 \<noteq> boot_magic_bytes)"

lemma bslice_split: "bslice bs i (n + k) = bslice bs i n @ bslice bs (i + n) k"
  by (simp only: bslice_def take_add drop_drop add.commute [of n i])

lemma buf_hdr_magics_iff:
  assumes "i + 8 \<le> length buf"
  shows "buf_hdr_magics H buf i \<longleftrightarrow> bslice buf i 8 = file_magic_bytes"
  using assms bslice_split [of buf i 4 4]
  by (simp add: buf_hdr_magics_def buf_word_eq file_magic_bytes_def append_eq_append_conv)

lemma boot_magic_word: "word_bytes 8 IKGT_BOOT_HEADER_MAGIC = boot_magic_bytes"
  by (simp add: IKGT_BOOT_HEADER_MAGIC_def boot_magic_bytes_def word_bytes_numeral)

lemma boot_magic_iff:
  "i + 8 \<le> length buf \<Longrightarrow>
   buf_word H buf 8 i = IKGT_BOOT_HEADER_MAGIC \<longleftrightarrow> bslice buf i 8 = boot_magic_bytes"
  by (simp add: buf_word_eq boot_magic_word)

lemma header_location:
  assumes "host_ok H" and "file_name (hd fa) = Some nm" and "fs nm = Some c" and "fa \<noteq> []"
    and "fo_fsize (hd fa) = of_nat (length c)" and "length c < 2 ^ 32" and "starter_layout c kh kb"
  shows "get_file_header_location H fs fa = Inr (Some (4 * kh))"
proof -
  note lay = assms(7) [unfolded starter_layout_def]
  have sz: "unat (fo_fsize (hd fa)) = length c" using assms(5,6) by (simp add: unat_of_nat32)
  have scan: "scan_buf (buf_hdr_magics H c) (length c) 0 = Some (4 * kh)"
  proof (rule scan_buf_first)
    show "buf_hdr_magics H c (4 * kh)" "4 * kh + 4 < length c" using lay by (simp_all add: buf_hdr_magics_iff)
    show "\<not> buf_hdr_magics H c (4 * i)" if "i < kh" for i
      using that lay buf_hdr_magics_iff [of "4 * i" c H] by auto
  qed
  have "buf_word H c 4 (4 * kh + 8) = (0 :: u32)"
    using lay by (simp add: buf_word_eq word_bytes_numeral numeral_eq_Suc)
  then show ?thesis
    using assms(1-4) scan sz
    by (simp add: get_file_header_location_def read_file_to_buf_def host_ok_def hd_conv_nth [symmetric])
qed

section \<open>The package\<close>

definition hdr_package :: "u8 list list \<Rightarrow> nat \<Rightarrow> u8 list" where
  "hdr_package cs kh = splice (concat cs) (4 * kh) (file_hdr_bytes (packed_hdr cs))"

definition boot_package :: "bool \<Rightarrow> nat \<Rightarrow> u8 list list \<Rightarrow> nat \<Rightarrow> nat \<Rightarrow> u8 list" where
  "boot_package debug sizeof_desc cs kh kb =
     splice (hdr_package cs kh) (4 * kb)
       (complete_boot_hdr debug sizeof_desc (of_nat (length (concat cs))) (bslice (hdr_package cs kh) (4 * kb) 56))"

definition page_padding :: "nat \<Rightarrow> nat" where
  "page_padding n = (n + 4095) div 4096 * 4096 - n"

definition package :: "bool \<Rightarrow> nat \<Rightarrow> u8 list list \<Rightarrow> nat \<Rightarrow> nat \<Rightarrow> u8 list" where
  "package debug sizeof_desc cs kh kb =
     boot_package debug sizeof_desc cs kh kb @ replicate (page_padding (length (concat cs))) 0"

lemma patched_patch32:
  assumes "4 * k + 4 \<le> length bs" and "word_bytes 4 w \<in> W"
  shows "patched W bs (patch32 bs (4 * k) w)"
  unfolding patch32_def
proof (rule patched_splice)
  show "patched W (bslice bs (4 * k) (length (word_bytes 4 w))) (word_bytes 4 w)"
  proof (rule patched_all)
    fix j assume "4 * j + 4 \<le> length (bslice bs (4 * k) (length (word_bytes 4 w)))"
    then have "j = 0" using assms(1) by simp
    then show "bslice (word_bytes 4 w) (4 * j) 4 \<in> W" using assms(2) by (simp add: bslice_all)
  qed (use assms in simp)
qed (use assms in simp_all)

definition boot_words :: "bool \<Rightarrow> nat \<Rightarrow> u32 \<Rightarrow> u32 set" where
  "boot_words debug sizeof_desc fsize =
     {of_nat (runtime_layout_size debug), RT_MEM_BASE, of_nat (loader_layout_size debug sizeof_desc),
      LDR_MEM_BASE, BOOT_HDR_VERSION, ucast (align_4k fsize)}"

lemma complete_boot_hdr_patched:
  assumes "length h = 56"
  shows "patched (word_bytes 4 ` boot_words debug sizeof_desc fsize) h (complete_boot_hdr debug sizeof_desc fsize h)"
    and "length (complete_boot_hdr debug sizeof_desc fsize h) = 56"
proof -
  let ?W = "word_bytes 4 ` boot_words debug sizeof_desc fsize"
  have step: "patched ?W h (patch32 h' (4 * k) w)"
    if "patched ?W h h'" "w \<in> boot_words debug sizeof_desc fsize" "k < 14" for h' k w
  proof (rule patched_trans [OF that(1)])
    have "length h' = 56" using that(1) assms by (simp add: patched_def)
    then show "patched ?W h' (patch32 h' (4 * k) w)" using that(2,3) by (intro patched_patch32) auto
  qed
  have "patched ?W h (patch32 h (4 * 9) (of_nat (runtime_layout_size debug)))" (is "patched ?W h ?h1")
    by (rule step [OF patched_refl]) (simp_all add: boot_words_def)
  from step [OF this, of RT_MEM_BASE 8]
  have "patched ?W h (patch32 ?h1 (4 * 8) RT_MEM_BASE)" (is "patched ?W h ?h2") by (simp add: boot_words_def)
  from step [OF this, of "of_nat (loader_layout_size debug sizeof_desc)" 11]
  have "patched ?W h (patch32 ?h2 (4 * 11) (of_nat (loader_layout_size debug sizeof_desc)))" (is "patched ?W h ?h3")
    by (simp add: boot_words_def)
  from step [OF this, of LDR_MEM_BASE 10]
  have "patched ?W h (patch32 ?h3 (4 * 10) LDR_MEM_BASE)" (is "patched ?W h ?h4") by (simp add: boot_words_def)
  from step [OF this, of BOOT_HDR_VERSION 3]
  have "patched ?W h (patch32 ?h4 (4 * 3) BOOT_HDR_VERSION)" (is "patched ?W h ?h5") by (simp add: boot_words_def)
  from step [OF this, of "ucast (align_4k fsize)" 12]
  show "patched ?W h (complete_boot_hdr debug sizeof_desc fsize h)"
    by (simp add: complete_boot_hdr_def boot_words_def)
  then show "length (complete_boot_hdr debug sizeof_desc fsize h) = 56" using assms by (simp add: patched_def)
qed

lemma packed_hdr_bytes:
  "file_hdr_bytes (packed_hdr [c0, c1, c2, c3]) =
     file_magic_bytes @ word_bytes 4 (7 :: u32) @
     word_bytes 4 (of_nat (length c0) :: u32) @ word_bytes 4 (of_nat (length c1) :: u32) @
     word_bytes 4 (of_nat (length c0 + length c1) :: u32) @ word_bytes 4 (of_nat (length c2) :: u32) @
     word_bytes 4 (of_nat (length c0 + length c1 + length c2) :: u32) @ word_bytes 4 (of_nat (length c3) :: u32)"
  by (simp add: file_hdr_bytes_def packed_hdr_def file_magic_bytes_def upt_rec add.assoc)

lemma length_packed_hdr [simp]: "length cs = 4 \<Longrightarrow> length (file_hdr_bytes (packed_hdr cs)) = 36"
  by (elim list4E) (simp add: packed_hdr_bytes file_magic_bytes_def)

definition hdr_words :: "u8 list list \<Rightarrow> u32 set" where
  "hdr_words cs =
     {XMON_LOADERBIN_FILE_MAPPING_HEADER_MAGIC0, XMON_LOADERBIN_FILE_MAPPING_HEADER_MAGIC1, 7} \<union>
     (\<lambda>i. of_nat (length (concat (take i cs)))) ` {1, 2, 3} \<union> (\<lambda>i. of_nat (length (cs ! i))) ` {1, 2, 3}"

lemma packed_hdr_words:
  assumes "length cs = 4" and "j < 9"
  shows "bslice (file_hdr_bytes (packed_hdr cs)) (4 * j) 4 \<in> word_bytes 4 ` hdr_words cs"
proof -
  obtain c0 c1 c2 c3 where cs: "cs = [c0, c1, c2, c3]" using assms(1) by (rule list4E)
  have "j \<in> {0, 1, 2, 3, 4, 5, 6, 7, 8}" using assms(2) by auto
  then show ?thesis
    unfolding cs packed_hdr_bytes file_magic_bytes_def hdr_words_def
    by (elim insertE; simp add: bslice_append2 bslice_append1 bslice_all) (simp_all add: add.assoc)
qed

lemma hdr_package_patched:
  assumes "length cs = 4" and "4 * kh + 36 \<le> length (concat cs)"
  shows "patched (word_bytes 4 ` hdr_words cs) (concat cs) (hdr_package cs kh)"
    and "length (hdr_package cs kh) = length (concat cs)"
proof -
  have "patched (word_bytes 4 ` hdr_words cs) (bslice (concat cs) (4 * kh) 36) (file_hdr_bytes (packed_hdr cs))"
    using assms packed_hdr_words [OF assms(1)] by (intro patched_all) auto
  then show "patched (word_bytes 4 ` hdr_words cs) (concat cs) (hdr_package cs kh)"
    unfolding hdr_package_def using assms by (intro patched_splice) simp_all
  then show "length (hdr_package cs kh) = length (concat cs)" by (simp add: patched_def)
qed

lemma bslice_concat_starter:
  "length cs = 4 \<Longrightarrow> i + n \<le> length (cs ! 0) \<Longrightarrow> bslice (concat cs) i n = bslice (cs ! 0) i n"
  by (elim list4E) (simp add: bslice_append1)

lemma concat_starter_le: "length cs = 4 \<Longrightarrow> length (cs ! 0) \<le> length (concat cs)"
  by (elim list4E) simp

text \<open>The words the packer writes are not those of the boot header's magic.\<close>

lemma hdr_words_not_boot_magic:
  assumes "length cs = 4" and "length (concat cs) \<le> LOADER_BIN_SIZE debug"
  shows "word_bytes 4 (0x6967616d :: u32) \<notin> word_bytes 4 ` hdr_words cs"
    and "word_bytes 4 (0x6d6d7665 :: u32) \<notin> word_bytes 4 ` hdr_words cs"
proof -
  have small: "(of_nat n :: u32) \<noteq> w" if "n \<le> length (concat cs)" "2 ^ 20 \<le> unat w" for n w
  proof -
    have "n < 2 ^ 20" using loader_bin_size_less [OF assms(2)] that(1) by linarith
    then have "unat (of_nat n :: u32) < 2 ^ 20" by (simp add: unat_of_nat32)
    then show ?thesis using that(2) by auto
  qed
  have "length (concat (take i cs)) \<le> length (concat cs)" for i
    by (metis append_take_drop_id concat_append le_add1 length_append)
  moreover have "length (cs ! i) \<le> length (concat cs)" if "i < 4" for i
    using that assms(1) by (metis (no_types, lifting) concat_append concat.simps(2) id_take_nth_drop le_add1 le_add2 le_trans length_append)
  ultimately have "(0x6967616d :: u32) \<notin> hdr_words cs" "(0x6d6d7665 :: u32) \<notin> hdr_words cs"
    using small [of _ "0x6967616d"] small [of _ "0x6d6d7665"]
    by (auto simp: hdr_words_def XMON_LOADERBIN_FILE_MAPPING_HEADER_MAGIC0_def
        XMON_LOADERBIN_FILE_MAPPING_HEADER_MAGIC1_def dest: sym)
  then show "word_bytes 4 (0x6967616d :: u32) \<notin> word_bytes 4 ` hdr_words cs"
    and "word_bytes 4 (0x6d6d7665 :: u32) \<notin> word_bytes 4 ` hdr_words cs"
    by (auto simp: word_bytes_inject)
qed

section \<open>The steps of the run\<close>

lemma inputs_ok_sizes:
  assumes "inputs_ok debug fs nms cs"
  shows "length cs = 4" "length (concat cs) < 2 ^ 32" "length (concat cs) \<le> LOADER_BIN_SIZE debug"
    "fs (nms ! 0) = Some (cs ! 0)" "nms ! 0 \<noteq> XMON_PKG_BIN_NAME"
  using assms loader_bin_size_less [of "length (concat cs)" debug] by (auto simp: inputs_ok_def)

lemma sized_options_hd:
  assumes "inputs_ok debug fs nms cs"
  shows "sized_options nms cs \<noteq> []" "file_name (hd (sized_options nms cs)) = Some (nms ! 0)"
    "fo_fsize (hd (sized_options nms cs)) = of_nat (length (cs ! 0))"
  by (rule inputs_okE [OF assms]; simp add: sized_options_def named_options_def files_options_def upt_rec)+

lemma update_file_header_sized:
  assumes H: "host_ok H" and inp: "inputs_ok debug fs nms cs" and lay: "starter_layout (cs ! 0) kh kb"
  shows "update_file_header H (sized_options nms cs) (fs(XMON_PKG_BIN_NAME := Some (concat cs))) =
         (Inr (), fs(XMON_PKG_BIN_NAME := Some (hdr_package cs kh)))"
proof -
  note i = inputs_ok_sizes [OF inp]
  let ?fs = "fs(XMON_PKG_BIN_NAME := Some (concat cs))"
  have "get_file_header_location H ?fs (sized_options nms cs) = Inr (Some (4 * kh))"
    using sized_options_hd [OF inp] i concat_starter_le [OF i(1)]
    by (intro header_location [OF H _ _ _ _ _ lay]) auto
  then show ?thesis
    using H get_file_hdr_info_sized [OF inp]
    by (simp add: update_file_header_def host_ok_def write_buf_to_file_def hdr_package_def)
qed

lemma boot_magic_in_package:
  assumes inp: "inputs_ok debug fs nms cs" and lay: "starter_layout (cs ! 0) kh kb"
  shows "bslice (hdr_package cs kh) (4 * kb) 8 = boot_magic_bytes"
    and "i < kb \<Longrightarrow> bslice (hdr_package cs kh) (4 * i) 8 \<noteq> boot_magic_bytes"
proof -
  note i = inputs_ok_sizes [OF inp]
  note l = lay [unfolded starter_layout_def]
  have fit: "4 * kh + 36 \<le> length (concat cs)" "4 * kb + 56 \<le> length (concat cs)"
    using l concat_starter_le [OF i(1)] by linarith+
  have "bslice (hdr_package cs kh) (4 * kb) 8 = bslice (concat cs) (4 * kb) 8"
    unfolding hdr_package_def using l fit i(1) by (intro bslice_splice_apart) auto
  then show "bslice (hdr_package cs kh) (4 * kb) 8 = boot_magic_bytes"
    using l by (simp add: bslice_concat_starter [OF i(1)])
  assume "i < kb"
  then have "4 * i + 8 \<le> length (cs ! 0)" "bslice (cs ! 0) (4 * i) 8 \<noteq> boot_magic_bytes"
    using l by simp_all
  then have "bslice (concat cs) (4 * i) 8 \<noteq> boot_magic_bytes" "4 * i + 8 \<le> length (concat cs)"
    using concat_starter_le [OF i(1)] by (simp_all add: bslice_concat_starter [OF i(1)])
  then show "bslice (hdr_package cs kh) (4 * i) 8 \<noteq> boot_magic_bytes"
    using patched_pair [OF hdr_package_patched(1) [OF i(1) fit(1)] _ _ _ _ hdr_words_not_boot_magic [OF i(1,3)],
        of i] unfolding boot_magic_bytes_def by auto
qed

lemma page_padding_align:
  assumes "n < 2 ^ 30"
  shows "unat (align_4k (of_nat n) - ucast (of_nat n :: u32)) = page_padding n"
    and "unat (align_4k (of_nat n)) = (n + 4095) div 4096 * 4096"
proof -
  have n: "unat (of_nat n :: u32) = n" using assms by (intro unat_of_nat32) simp
  show a: "unat (align_4k (of_nat n)) = (n + 4095) div 4096 * 4096"
    using aligns_forward_page [OF align_forward_macro_law, of "of_nat n"] assms
    by (simp add: align_4k_def PAGE_SIZE_def n)
  have "n \<le> (n + 4095) div 4096 * 4096" by (rule page_round_up)
  then show "unat (align_4k (of_nat n) - ucast (of_nat n :: u32)) = page_padding n"
    using a n by (simp add: page_padding_def unat_sub_if_size)
qed

lemma boot_package_length:
  assumes "length cs = 4" and "4 * kh + 36 \<le> length (concat cs)" and "4 * kb + 56 \<le> length (concat cs)"
  shows "length (boot_package debug sizeof_desc cs kh kb) = length (concat cs)"
  using assms hdr_package_patched(2) [OF assms(1,2)] complete_boot_hdr_patched(2)
  by (simp add: boot_package_def)

lemma update_boot_header_sized:
  assumes H: "host_ok H" and inp: "inputs_ok debug fs nms cs" and lay: "starter_layout (cs ! 0) kh kb"
  shows "update_boot_header H debug sizeof_desc (sized_options nms cs)
           (fs(XMON_PKG_BIN_NAME := Some (hdr_package cs kh))) =
         (Inr (), fs(XMON_PKG_BIN_NAME := Some (package debug sizeof_desc cs kh kb)))"
proof -
  note i = inputs_ok_sizes [OF inp]
  let ?p = "hdr_package cs kh" and ?n = "length (concat cs)"
  have fit: "4 * kh + 36 \<le> ?n" "4 * kb + 56 \<le> ?n"
    using lay concat_starter_le [OF i(1)] by (auto simp: starter_layout_def)
  note len = hdr_package_patched(2) [OF i(1) fit(1)]
  have n: "unat (of_nat ?n :: u32) = ?n" using i(2) by (rule unat_of_nat32)
  have read: "read_file_to_buf H (fs(XMON_PKG_BIN_NAME := Some ?p)) XMON_PKG_BIN_NAME (of_nat ?n) = Some ?p"
    using H by (simp add: read_file_to_buf_def host_ok_def n len del: length_concat)
  have scan: "scan_buf (\<lambda>i. buf_word H ?p 8 i = IKGT_BOOT_HEADER_MAGIC) ?n 0 = Some (4 * kb)"
  proof (rule scan_buf_first)
    show "buf_word H ?p 8 (4 * kb) = IKGT_BOOT_HEADER_MAGIC" "4 * kb + 4 < ?n"
      using fit len boot_magic_in_package(1) [OF inp lay] by (simp_all add: boot_magic_iff del: length_concat)
    fix j assume j: "j < kb"
    then have "4 * j + 8 \<le> length ?p" using fit len by linarith
    then show "buf_word H ?p 8 (4 * j) \<noteq> IKGT_BOOT_HEADER_MAGIC"
      using boot_magic_in_package(2) [OF inp lay j] by (simp add: boot_magic_iff)
  qed
  have hdr: "map (\<lambda>j. buf_byte H ?p (4 * kb + j)) [0..<BOOT_HDR_SIZE] = bslice ?p (4 * kb) 56"
    using fit len by (auto simp: bslice_eq_map buf_byte_def BOOT_HDR_SIZE_def simp del: length_concat)
  have pad: "unat (align_4k (of_nat ?n) - ucast (of_nat ?n :: u32)) = page_padding ?n"
    using loader_bin_size_less [OF i(3)] by (intro page_padding_align) simp
  show ?thesis
    using H scan read hdr pad
    by (simp add: update_boot_header_def total_size_sized [OF inp] n host_ok_def write_buf_to_file_def
        append_buf_to_file_def boot_package_def package_def del: length_concat)
qed

lemma files_options_ok: "check_file_array_assumptions files_options = Inr ()"
  by (simp add: check_file_array_assumptions_def files_options_def upt_rec numeral_2_eq_2)

lemma packer_main_run:
  assumes "host_ok H" and "parse_packer_cmdline argv files_options = Inr (named_options nms)"
    and "inputs_ok debug fs nms cs" and "starter_layout (cs ! 0) kh kb"
  shows "packer_main H debug sizeof_desc argv fs =
           (Inr (), fs(XMON_PKG_BIN_NAME := Some (package debug sizeof_desc cs kh kb)))"
  using assms
  by (simp add: packer_main_def files_options_ok update_file_info_sized total_size_sized pack_files_sized
      update_file_header_sized update_boot_header_sized)

section \<open>What the package holds\<close>

lemma package_length:
  assumes "inputs_ok debug fs nms cs" and "starter_layout (cs ! 0) kh kb"
  shows "length (package debug sizeof_desc cs kh kb) = (length (concat cs) + 4095) div 4096 * 4096"
proof -
  note i = inputs_ok_sizes [OF assms(1)]
  have "4 * kh + 36 \<le> length (concat cs)" "4 * kb + 56 \<le> length (concat cs)"
    using assms(2) concat_starter_le [OF i(1)] by (auto simp: starter_layout_def)
  then have "length (boot_package debug sizeof_desc cs kh kb) = length (concat cs)"
    by (rule boot_package_length [OF i(1)])
  then show ?thesis
    using page_round_up [of "length (concat cs)"] by (simp add: package_def page_padding_def del: length_concat)
qed

lemma package_slice:
  assumes "inputs_ok debug fs nms cs" and lay: "starter_layout (cs ! 0) kh kb"
    and "j + n \<le> length (concat cs)"
  shows "j + n \<le> 4 * kb \<or> 4 * kb + 56 \<le> j \<Longrightarrow>
      bslice (package debug sizeof_desc cs kh kb) j n = bslice (hdr_package cs kh) j n"
    and "j + n \<le> 4 * kh \<or> 4 * kh + 36 \<le> j \<Longrightarrow> bslice (hdr_package cs kh) j n = bslice (concat cs) j n"
    and "bslice (hdr_package cs kh) (4 * kh) 36 = file_hdr_bytes (packed_hdr cs)"
proof -
  note i = inputs_ok_sizes [OF assms(1)]
  have fit: "4 * kh + 36 \<le> length (concat cs)" "4 * kb + 56 \<le> length (concat cs)"
    using lay concat_starter_le [OF i(1)] by (auto simp: starter_layout_def)
  note len = hdr_package_patched(2) [OF i(1) fit(1)] boot_package_length [OF i(1) fit, of debug sizeof_desc]
  have hl: "length (bslice (hdr_package cs kh) (4 * kb) 56) = 56" using fit len by simp
  show "bslice (package debug sizeof_desc cs kh kb) j n = bslice (hdr_package cs kh) j n"
    if "j + n \<le> 4 * kb \<or> 4 * kb + 56 \<le> j"
  proof -
    have "bslice (package debug sizeof_desc cs kh kb) j n = bslice (boot_package debug sizeof_desc cs kh kb) j n"
      unfolding package_def using assms(3) len by (intro bslice_append1) simp
    also have "\<dots> = bslice (hdr_package cs kh) j n"
      unfolding boot_package_def using that assms(3) fit len complete_boot_hdr_patched(2) [OF hl]
      by (intro bslice_splice_apart) (simp_all del: length_concat)
    finally show ?thesis .
  qed
  show "bslice (hdr_package cs kh) j n = bslice (concat cs) j n" if "j + n \<le> 4 * kh \<or> 4 * kh + 36 \<le> j"
    unfolding hdr_package_def using that assms(3) fit i(1)
    by (intro bslice_splice_apart) (simp_all del: length_concat)
  show "bslice (hdr_package cs kh) (4 * kh) 36 = file_hdr_bytes (packed_hdr cs)"
    unfolding hdr_package_def using fit i(1)
    by (subst bslice_splice_inside) (simp_all add: bslice_all del: length_concat)
qed

lemma package_file_hdr:
  assumes "inputs_ok debug fs nms cs" and lay: "starter_layout (cs ! 0) kh kb"
  shows "bslice (package debug sizeof_desc cs kh kb) (4 * kh) 36 = file_hdr_bytes (packed_hdr cs)"
proof -
  note i = inputs_ok_sizes [OF assms(1)]
  have "4 * kh + 36 \<le> length (concat cs)"
    using lay concat_starter_le [OF i(1)] by (auto simp: starter_layout_def)
  from package_slice(1) [OF assms this] package_slice(3) [OF assms this] show ?thesis
    using lay by (auto simp: starter_layout_def)
qed

lemma package_module:
  assumes inp: "inputs_ok debug fs nms cs" and lay: "starter_layout (cs ! 0) kh kb" and i: "i \<in> {1, 2, 3}"
  shows "bslice (package debug sizeof_desc cs kh kb) (length (concat (take i cs))) (length (cs ! i)) = cs ! i"
    and "length (concat (take i cs)) + length (cs ! i) \<le> length (concat cs)"
proof -
  have 4: "length cs = 4" by (rule inputs_ok_sizes(1) [OF inp])
  have split: "concat cs = concat (take i cs) @ cs ! i @ concat (drop (Suc i) cs)"
    using arg_cong [where f = concat, OF id_take_nth_drop [of i cs]] i 4 by auto
  show fit: "length (concat (take i cs)) + length (cs ! i) \<le> length (concat cs)" by (subst split) simp
  have "length (cs ! 0) \<le> length (concat (take i cs))"
    using i 4 by (auto elim!: list4E)
  then have "4 * kb + 56 \<le> length (concat (take i cs))" "4 * kh + 36 \<le> length (concat (take i cs))"
    using lay by (auto simp: starter_layout_def)
  then have "bslice (package debug sizeof_desc cs kh kb) (length (concat (take i cs))) (length (cs ! i)) =
      bslice (concat cs) (length (concat (take i cs))) (length (cs ! i))"
    using package_slice(1,2) [OF inp lay fit] by simp
  also have "\<dots> = cs ! i" by (subst split) (simp add: bslice_append2 bslice_append1 bslice_all)
  finally show "bslice (package debug sizeof_desc cs kh kb) (length (concat (take i cs))) (length (cs ! i)) = cs ! i" .
qed

text \<open>The boot header in the package is the completed one.\<close>

lemma package_boot_hdr:
  assumes inp: "inputs_ok debug fs nms cs" and lay: "starter_layout (cs ! 0) kh kb" and "v + n \<le> 56"
  shows "bslice (package debug sizeof_desc cs kh kb) (4 * kb + v) n =
      bslice (complete_boot_hdr debug sizeof_desc (of_nat (length (concat cs))) (bslice (cs ! 0) (4 * kb) 56)) v n"
proof -
  note i = inputs_ok_sizes [OF inp]
  let ?n = "length (concat cs)"
  have fit: "4 * kh + 36 \<le> ?n" "4 * kb + 56 \<le> ?n"
    using lay concat_starter_le [OF i(1)] by (auto simp: starter_layout_def)
  note len = hdr_package_patched(2) [OF i(1) fit(1)] boot_package_length [OF i(1) fit, of debug sizeof_desc]
  have same: "bslice (hdr_package cs kh) (4 * kb) 56 = bslice (cs ! 0) (4 * kb) 56"
    using package_slice(2) [OF inp lay fit(2)] lay bslice_concat_starter [OF i(1), of "4 * kb" 56] by (auto simp: starter_layout_def)
  have hl: "length (bslice (cs ! 0) (4 * kb) 56) = 56" using lay by (simp add: starter_layout_def)
  have "bslice (package debug sizeof_desc cs kh kb) (4 * kb + v) n =
        bslice (boot_package debug sizeof_desc cs kh kb) (4 * kb + v) n"
    unfolding package_def using fit len assms(3) by (intro bslice_append1) simp
  then show ?thesis
    unfolding boot_package_def same using fit len complete_boot_hdr_patched(2) [OF hl] assms(3)
    by (simp add: bslice_splice_inside del: length_concat)
qed

lemma patch32_slice:
  assumes "v + 4 \<le> length h"
  shows "bslice (patch32 h v w) v 4 = word_bytes 4 w"
    and "i + n \<le> v \<or> v + 4 \<le> i \<Longrightarrow> i + n \<le> length h \<Longrightarrow> bslice (patch32 h v w) i n = bslice h i n"
    and "length (patch32 h v w) = length h"
  using assms by (simp_all add: patch32_def bslice_splice_inside bslice_all bslice_splice_apart)

lemma complete_boot_hdr_fields:
  assumes "length h = 56"
  shows "bslice (complete_boot_hdr debug sizeof_desc fsize h) 0 12 = bslice h 0 12"
    and "bslice (complete_boot_hdr debug sizeof_desc fsize h) 20 4 = bslice h 20 4"
    and "bslice (complete_boot_hdr debug sizeof_desc fsize h) 36 4 = word_bytes 4 (of_nat (runtime_layout_size debug) :: u32)"
    and "bslice (complete_boot_hdr debug sizeof_desc fsize h) 44 4 = word_bytes 4 (of_nat (loader_layout_size debug sizeof_desc) :: u32)"
    and "bslice (complete_boot_hdr debug sizeof_desc fsize h) 48 4 = word_bytes 4 (ucast (align_4k fsize) :: u32)"
  using assms by (simp_all add: complete_boot_hdr_def patch32_slice Let_def)

lemma package_image_size:
  assumes inp: "inputs_ok debug fs nms cs" and lay: "starter_layout (cs ! 0) kh kb"
  shows "bslice (package debug sizeof_desc cs kh kb) (4 * kb + 48) 4 =
         word_bytes 4 (of_nat (length (package debug sizeof_desc cs kh kb)) :: u32)"
proof -
  let ?n = "length (concat cs)"
  have small: "?n < 2 ^ 30" using loader_bin_size_less [OF inputs_ok_sizes(3) [OF inp]] by simp
  have "(?n + 4095) div 4096 * 4096 < 2 ^ 32"
    using small by (intro le_less_trans [OF div_times_less_eq_dividend]) (simp del: length_concat)
  then have word: "(ucast (align_4k (of_nat ?n)) :: u32) = of_nat (length (package debug sizeof_desc cs kh kb))"
    unfolding package_length [OF inp lay] using page_padding_align(2) [OF small] by (intro ucast_of_unat32)
  have "length (bslice (cs ! 0) (4 * kb) 56) = 56" using lay by (simp add: starter_layout_def)
  from complete_boot_hdr_fields(5) [OF this] package_boot_hdr [OF inp lay, of 48 4 sizeof_desc]
  show ?thesis by (simp add: word del: length_concat)
qed

section \<open>Parsing the arguments\<close>

lemma length_files_options: "length files_options = 4"
  by (simp add: files_options_def)

lemma parse_args_named:
  "parse_args args (named_options nms) = Inr fa \<Longrightarrow> length nms = 4 \<Longrightarrow>
   \<exists>nms'. length nms' = 4 \<and> fa = named_options nms'"
proof (induction args "named_options nms" arbitrary: nms rule: parse_args.induct)
  case (3 arg val args)
  then obtain i where i: "find_option arg (named_options nms) = Some i"
    and rest: "parse_args args ((named_options nms)[i := (named_options nms ! i)\<lparr>file_name := Some val\<rparr>]) = Inr fa"
    and ok: "take 2 val \<noteq> ''--''"
    by (auto split: option.splits if_splits)
  have "(named_options nms)[i := (named_options nms ! i)\<lparr>file_name := Some val\<rparr>] = named_options (nms[i := val])"
  proof (rule nth_equalityI)
    fix j assume "j < length ((named_options nms)[i := (named_options nms ! i)\<lparr>file_name := Some val\<rparr>])"
    then show "(named_options nms)[i := (named_options nms ! i)\<lparr>file_name := Some val\<rparr>] ! j =
               named_options (nms[i := val]) ! j"
      using "3.prems"(2) by (cases "j = i") (simp_all add: named_options_def length_files_options)
  qed (simp add: named_options_def)
  then show ?case using "3.hyps" [OF i ok] rest "3.prems"(2) by simp
qed (auto split: option.splits)

lemma parse_args_odd:
  "odd (length args) \<Longrightarrow> \<exists>e. parse_args args fa = Inl e"
  by (induction args fa rule: parse_args.induct) (auto split: option.splits)

section \<open>The package in memory\<close>

definition mem_holds :: "mem \<Rightarrow> addr \<Rightarrow> u8 list \<Rightarrow> bool" where
  "mem_holds m a bs \<longleftrightarrow> (\<forall>k < length bs. m (a + of_nat k) = bs ! k)"

lemma mem_holds_read:
  assumes "mem_holds m a bs" and "i + n \<le> length bs"
  shows "read_bytes m (a + of_nat i) n = bslice bs i n"
proof -
  have "m (a + of_nat i + of_nat j) = bs ! (i + j)" if "j < n" for j
    using assms that by (simp add: mem_holds_def add.assoc flip: of_nat_add)
  then show ?thesis using assms(2) by (simp add: read_bytes_def bslice_eq_map)
qed

lemma mem_holds_slice:
  assumes "mem_holds m a bs" and "i + n \<le> length bs" and "bslice bs i n = d"
  shows "mem_holds m (a + of_nat i) d"
  unfolding mem_holds_def
proof (intro allI impI)
  fix k assume "k < length d"
  then have "k < n" using assms(2,3) by auto
  then show "m (a + of_nat i + of_nat k) = d ! k"
    using mem_holds_read [OF assms(1,2)] assms(3) nth_read_bytes [of k n m "a + of_nat i"] by simp
qed

lemma file_hdr_magics_read: "file_hdr_magics m a \<longleftrightarrow> read_bytes m a 8 = file_magic_bytes"
proof -
  have "read_bytes m a 8 = read_bytes m a 4 @ read_bytes m (a + 4) 4"
    by (simp add: read_bytes_def upt_rec add_ac)
  then show ?thesis
    by (simp add: file_hdr_magics_def hdr_magic0_def hdr_magic1_def load_le_def le_word_eq_iff file_magic_bytes_def
        append_eq_append_conv)
qed

lemma hdr_words_not_file_magic:
  assumes inp: "inputs_ok debug fs nms cs" and "sizeof_desc < 2 ^ 20"
    and W: "W = boot_words debug sizeof_desc (of_nat (length (concat cs)))"
  shows "word_bytes 4 XMON_LOADERBIN_FILE_MAPPING_HEADER_MAGIC0 \<notin> word_bytes 4 ` W"
    and "word_bytes 4 XMON_LOADERBIN_FILE_MAPPING_HEADER_MAGIC1 \<notin> word_bytes 4 ` W"
proof -
  let ?n = "length (concat cs)"
  have small: "?n < 2 ^ 20" using loader_bin_size_less [OF inputs_ok_sizes(3) [OF inp]] .
  have "unat (ucast (align_4k (of_nat ?n)) :: u32) < 2 ^ 21"
  proof -
    have "(?n + 4095) div 4096 * 4096 < 2 ^ 21"
      using small by (intro le_less_trans [OF div_times_less_eq_dividend]) (simp del: length_concat)
    then have "unat (align_4k (of_nat ?n)) < 2 ^ 21"
      using small by (subst page_padding_align(2)) (simp_all del: length_concat)
    then show ?thesis by (simp add: unat_ucast_u64_u32)
  qed
  moreover have "unat (of_nat (loader_layout_size debug sizeof_desc) :: u32) < 0x3000000"
  proof -
    have "loader_layout_size debug sizeof_desc < 0x3000000"
      using assms(2) by (cases debug)
        (simp_all add: loader_layout_size_def layout_offsets page_bytes_def NUM_OF_PAGE_def drop_bit_eq_div)
    then show ?thesis by (simp add: unat_of_nat32)
  qed
  ultimately have "XMON_LOADERBIN_FILE_MAPPING_HEADER_MAGIC0 \<notin> W" "XMON_LOADERBIN_FILE_MAPPING_HEADER_MAGIC1 \<notin> W"
    by (cases debug; auto simp: W boot_words_def layout_offsets RT_MEM_BASE_def LDR_MEM_BASE_def BOOT_HDR_VERSION_def
        XMON_LOADERBIN_FILE_MAPPING_HEADER_MAGIC0_def XMON_LOADERBIN_FILE_MAPPING_HEADER_MAGIC1_def
        dest: arg_cong [where f = unat])+
  then show "word_bytes 4 XMON_LOADERBIN_FILE_MAPPING_HEADER_MAGIC0 \<notin> word_bytes 4 ` W"
    and "word_bytes 4 XMON_LOADERBIN_FILE_MAPPING_HEADER_MAGIC1 \<notin> word_bytes 4 ` W"
    by (auto simp: word_bytes_inject)
qed

lemma package_no_earlier_header:
  assumes inp: "inputs_ok debug fs nms cs" and lay: "starter_layout (cs ! 0) kh kb" and "sizeof_desc < 2 ^ 20"
    and "i < kh"
  shows "bslice (package debug sizeof_desc cs kh kb) (4 * i) 8 \<noteq> file_magic_bytes"
proof
  assume hit: "bslice (package debug sizeof_desc cs kh kb) (4 * i) 8 = file_magic_bytes"
  note s = inputs_ok_sizes [OF inp]
  let ?W = "boot_words debug sizeof_desc (of_nat (length (concat cs)))"
  have fit: "4 * kh + 36 \<le> length (concat cs)" "4 * kb + 56 \<le> length (concat cs)"
    using lay concat_starter_le [OF s(1)] by (auto simp: starter_layout_def)
  note len = hdr_package_patched(2) [OF s(1) fit(1)] boot_package_length [OF s(1) fit, of debug sizeof_desc]
  have hl: "length (bslice (hdr_package cs kh) (4 * kb) 56) = 56" using fit len by simp
  have patch: "patched (word_bytes 4 ` ?W) (hdr_package cs kh) (boot_package debug sizeof_desc cs kh kb)"
    unfolding boot_package_def using fit len complete_boot_hdr_patched [OF hl] by (intro patched_splice) simp_all
  have i8: "4 * i + 8 \<le> length (hdr_package cs kh)" using assms(4) fit len by linarith
  have "bslice (boot_package debug sizeof_desc cs kh kb) (4 * i) 8 = file_magic_bytes"
    using hit i8 len unfolding package_def by (subst (asm) bslice_append1) simp_all
  then have hdr: "bslice (hdr_package cs kh) (4 * i) 8 = file_magic_bytes"
    unfolding file_magic_bytes_def
    by (rule patched_pair [OF patch i8 _ _ _ hdr_words_not_file_magic [OF inp assms(3) refl]]) simp_all
  have same: "hdr_package cs kh ! j = concat cs ! j" if "j < 4 * kh + 8" for j
  proof (cases "j < 4 * kh")
    case True
    then show ?thesis using fit s(1) by (simp add: hdr_package_def nth_splice del: length_concat)
  next
    case False
    have "bslice (concat cs) (4 * kh) 8 = file_magic_bytes"
      using lay bslice_concat_starter [OF s(1)] by (simp add: starter_layout_def)
    moreover have "take 8 (file_hdr_bytes (packed_hdr cs)) = file_magic_bytes"
      using s(1) by (elim list4E) (simp add: packed_hdr_bytes file_magic_bytes_def)
    ultimately have "file_hdr_bytes (packed_hdr cs) ! (j - 4 * kh) = concat cs ! j"
      using False that fit nth_bslice [of "4 * kh" 8 "concat cs" "j - 4 * kh"]
        nth_take [of "j - 4 * kh" 8 "file_hdr_bytes (packed_hdr cs)"] by simp
    then show ?thesis using False that fit s(1) by (simp add: hdr_package_def nth_splice del: length_concat)
  qed
  have "bslice (hdr_package cs kh) (4 * i) 8 = bslice (concat cs) (4 * i) 8"
    using assms(4) fit len by (intro bslice_cong) (simp_all add: same del: length_concat)
  also have "\<dots> = bslice (cs ! 0) (4 * i) 8"
    using assms(4) lay by (intro bslice_concat_starter [OF s(1)]) (simp add: starter_layout_def)
  finally show False using hdr lay assms(4) unfolding starter_layout_def by metis
qed

lemma hdr_field_reads:
  assumes "read_bytes m h 36 = file_hdr_bytes (packed_hdr [c0, c1, c2, c3])"
  shows "hdr_flags m h = 7"
    and "hdr_file_offset m h 0 = of_nat (length c0)" "hdr_file_size m h 0 = of_nat (length c1)"
    and "hdr_file_offset m h 1 = of_nat (length c0 + length c1)" "hdr_file_size m h 1 = of_nat (length c2)"
    and "hdr_file_offset m h 2 = of_nat (length c0 + length c1 + length c2)"
    and "hdr_file_size m h 2 = of_nat (length c3)"
proof -
  have part: "read_bytes m (h + of_nat i) 4 = bslice (file_hdr_bytes (packed_hdr [c0, c1, c2, c3])) i 4" if "i + 4 \<le> 36" for i
    unfolding assms [symmetric] using that
    by (intro nth_equalityI) (simp_all add: nth_bslice add.assoc flip: of_nat_add)
  note parts = part [of 8] part [of 12] part [of 16] part [of 20] part [of 24] part [of 28] part [of 32]
  show "hdr_flags m h = 7"
    and "hdr_file_offset m h 0 = of_nat (length c0)" "hdr_file_size m h 0 = of_nat (length c1)"
    and "hdr_file_offset m h 1 = of_nat (length c0 + length c1)" "hdr_file_size m h 1 = of_nat (length c2)"
    and "hdr_file_offset m h 2 = of_nat (length c0 + length c1 + length c2)"
    and "hdr_file_size m h 2 = of_nat (length c3)"
    using parts
    by (simp_all add: hdr_flags_def hdr_file_offset_def hdr_file_size_def load_le_def packed_hdr_bytes
        file_magic_bytes_def bslice_append1 bslice_append2 bslice_all add.assoc)
qed

text \<open>
  What the starter needs of the memory at the load address: no file mapping header before the package's,
  the header, and the three modules at their offsets.
\<close>

definition package_view :: "mem \<Rightarrow> addr \<Rightarrow> u8 list list \<Rightarrow> nat \<Rightarrow> bool" where
  "package_view m load cs kh \<longleftrightarrow>
     (\<forall>i < kh. read_bytes m (load + of_nat (4 * i)) 8 \<noteq> file_magic_bytes) \<and>
     read_bytes m (load + of_nat (4 * kh)) 36 = file_hdr_bytes (packed_hdr cs) \<and>
     (\<forall>i \<in> {1, 2, 3}. mem_holds m (load + of_nat (length (concat (take i cs)))) (cs ! i))"

lemma layout_fits:
  assumes "inputs_ok debug fs nms cs" and "starter_layout (cs ! 0) kh kb"
  shows "4 * kh + 36 \<le> length (concat cs)" and "length (concat cs) \<le> length (package debug sizeof_desc cs kh kb)"
proof -
  show "4 * kh + 36 \<le> length (concat cs)"
    using assms(2) concat_starter_le [OF inputs_ok_sizes(1) [OF assms(1)]] by (auto simp: starter_layout_def)
  show "length (concat cs) \<le> length (package debug sizeof_desc cs kh kb)"
    unfolding package_length [OF assms] by (rule page_round_up)
qed

lemma package_viewI:
  assumes inp: "inputs_ok debug fs nms cs" and lay: "starter_layout (cs ! 0) kh kb"
    and "\<And>i. i < kh \<Longrightarrow> read_bytes m (load + of_nat (4 * i)) 8 \<noteq> file_magic_bytes"
    and "\<And>i n. 4 * kh \<le> i \<and> i + n \<le> 4 * kh + 36 \<or> length (cs ! 0) \<le> i \<and> i + n \<le> length (concat cs) \<Longrightarrow>
      read_bytes m (load + of_nat i) n = bslice (package debug sizeof_desc cs kh kb) i n"
  shows "package_view m load cs kh"
  unfolding package_view_def
proof (intro conjI ballI allI impI)
  note s = inputs_ok_sizes [OF inp]
  show "read_bytes m (load + of_nat (4 * kh)) 36 = file_hdr_bytes (packed_hdr cs)"
    using assms(4) [of "4 * kh" 36] package_file_hdr [OF inp lay] by simp
  fix i :: nat assume i: "i \<in> {1, 2, 3}"
  let ?o = "length (concat (take i cs))"
  have fit: "?o + length (cs ! i) \<le> length (concat cs)" by (rule package_module(2) [OF inp lay i])
  have "length (cs ! 0) \<le> ?o" using s(1) i by (elim list4E) auto
  then have bytes: "read_bytes m (load + of_nat ?o) (length (cs ! i)) = cs ! i"
    using assms(4) [of ?o "length (cs ! i)"] fit package_module(1) [OF inp lay i] by simp
  show "mem_holds m (load + of_nat ?o) (cs ! i)"
    unfolding mem_holds_def using bytes nth_read_bytes by metis
qed (use assms(3) in blast)

lemma mem_holds_view:
  assumes inp: "inputs_ok debug fs nms cs" and lay: "starter_layout (cs ! 0) kh kb" and "sizeof_desc < 2 ^ 20"
    and m: "mem_holds m load (package debug sizeof_desc cs kh kb)"
  shows "package_view m load cs kh"
proof (rule package_viewI [OF inp lay])
  note fit = layout_fits(1) [OF inp lay] layout_fits(2) [OF inp lay, of sizeof_desc]
  show "read_bytes m (load + of_nat (4 * i)) 8 \<noteq> file_magic_bytes" if "i < kh" for i
    using that package_no_earlier_header [OF inp lay assms(3) that] mem_holds_read [OF m, of "4 * i" 8] fit by simp
  show "read_bytes m (load + of_nat i) n = bslice (package debug sizeof_desc cs kh kb) i n"
    if "4 * kh \<le> i \<and> i + n \<le> 4 * kh + 36 \<or> length (cs ! 0) \<le> i \<and> i + n \<le> length (concat cs)" for i n
    using that fit by (intro mem_holds_read [OF m]) auto
qed

lemma view_header_found:
  assumes inp: "inputs_ok debug fs nms cs" and lay: "starter_layout (cs ! 0) kh kb"
    and view: "package_view m (ucast load) cs kh"
  shows "get_file_offsets_header m load SCAN_MAX_IMAGE_SIZE = Some (ucast load + of_nat (4 * kh))"
proof -
  have "read_bytes m (ucast load + of_nat (4 * kh)) 8 = take 8 (read_bytes m (ucast load + of_nat (4 * kh)) 36)"
    by (simp add: read_bytes_def take_map)
  also have "\<dots> = file_magic_bytes"
    using view inputs_ok_sizes(1) [OF inp]
    by (elim list4E) (simp add: package_view_def packed_hdr_bytes file_magic_bytes_def)
  finally have hit: "file_hdr_magics m (scan_pos load kh)" by (simp add: file_hdr_magics_read scan_pos_def)
  have "kh < SCAN_STEPS" using layout_fits(1) [OF inp lay] loader_bin_size_less [OF inputs_ok_sizes(3) [OF inp]] by (simp add: SCAN_STEPS_def)
  then show ?thesis
    using get_file_offsets_header_first [OF _ hit] view by (simp add: scan_pos_def package_view_def file_hdr_magics_read)
qed

text \<open>The file of the package that a module index stands for.\<close>

definition module_no :: "file_pack_index \<Rightarrow> nat" where "module_no i = Suc (file_index i)"

lemma view_modules_found:
  fixes load :: u32
  assumes inp: "inputs_ok debug fs nms cs" and view: "package_view m (ucast load) cs kh"
    and h: "h = ucast load + of_nat (4 * kh)"
  shows "module_present m h i" (is ?present)
    and "mod_size (module_file m h (ucast load) i) = of_nat (length (cs ! module_no i))" (is ?size)
    and "mod_addr (module_file m h (ucast load) i) = ucast load + of_nat (length (concat (take (module_no i) cs)))" (is ?addr)
    and "mem_holds m (mod_addr (module_file m h (ucast load) i)) (cs ! module_no i)" (is ?bytes)
    and "unat (hdr_file_offset m h 0) = length (cs ! 0)" (is ?first)
proof -
  from inp obtain n0 n1 n2 n3 c0 c1 c2 c3 where l: "nms = [n0, n1, n2, n3]" and cs: "cs = [c0, c1, c2, c3]"
    and ne: "[] \<notin> {c0, c1, c2, c3}"
    and len: "length c0 + length c1 + length c2 + length c3 \<le> LOADER_BIN_SIZE debug"
    by (rule inputs_okE)
  note small = loader_bin_size_less [OF len]
  have "read_bytes m h 36 = file_hdr_bytes (packed_hdr [c0, c1, c2, c3])"
    using view by (simp add: package_view_def h cs)
  note f = hdr_field_reads [OF this]
  have u: "unat (of_nat n :: u32) = n" "ucast (of_nat n :: u32) = (of_nat n :: u64)"
    if "n \<le> length c0 + length c1 + length c2 + length c3" for n
  proof -
    show n: "unat (of_nat n :: u32) = n" using that small by (intro unat_of_nat32) simp
    then show "ucast (of_nat n :: u32) = (of_nat n :: u64)" by (metis of_nat_unat)
  qed
  have nz: "(of_nat (length c) :: u32) \<noteq> 0" if "c \<in> {c1, c2, c3}" for c
    using that ne u(1) [of "length c"] by (auto simp: word_unat_eq_iff)
  have size: "hdr_file_size m h (file_index i) = of_nat (length (cs ! module_no i))"
    "hdr_file_offset m h (file_index i) = of_nat (length (concat (take (module_no i) cs)))"
    by (cases i; use f in \<open>simp add: cs module_no_def numeral_2_eq_2 add.assoc\<close>)+
  have no: "cs ! module_no i \<in> {c1, c2, c3}" "module_no i \<in> {1, 2, 3}"
    by (cases i; simp add: cs module_no_def)+
  show ?present
    unfolding module_present_def size f(1) using nz [OF no(1)]
    by (cases i) (simp_all add: INDEX_TO_BITMAP_FLAG_def)
  have le: "length (cs ! module_no i) \<le> length c0 + length c1 + length c2 + length c3"
    "length (concat (take (module_no i) cs)) \<le> length c0 + length c1 + length c2 + length c3"
    by (cases i; simp add: cs module_no_def)+
  show ?size using u(2) [OF le(1)] by (simp add: module_file_def size)
  show addr: ?addr using u(2) [OF le(2)] by (simp add: module_file_def size ldr_bin_off_def)
  show ?bytes using view no(2) unfolding addr package_view_def by blast
  show ?first using f(2) u(1) [of "length c0"] by (simp add: cs)
qed

section \<open>Properties\<close>

text \<open>
  C28: With four non-empty input files that fit and a starter that carries its two headers, the packer
  succeeds and leaves, in the package file only, the files one after the other, padded to whole
  pages, with the file mapping header filled in, each module at the recorded offset, and the boot
  header's image size equal to the length of the package.
\<close>

theorem packer_main_package:
  assumes "host_ok H" and "parse_packer_cmdline argv files_options = Inr (named_options nms)"
    and "inputs_ok debug fs nms cs" and "starter_layout (cs ! 0) kh kb"
  shows "\<exists>pkg. packer_main H debug sizeof_desc argv fs = (Inr (), fs(XMON_PKG_BIN_NAME := Some pkg)) \<and>
     length pkg = (length (concat cs) + 4095) div 4096 * 4096 \<and>
     (\<forall>i \<in> {1, 2, 3}. bslice pkg (length (concat (take i cs))) (length (cs ! i)) = cs ! i) \<and>
     bslice pkg (4 * kh) 36 = file_hdr_bytes (packed_hdr cs) \<and>
     bslice pkg (4 * kb + 48) 4 = word_bytes 4 (of_nat (length pkg) :: u32)"
  using packer_main_run [OF assms] package_length [OF assms(3,4)] package_module(1) [OF assms(3,4)]
    package_file_hdr [OF assms(3,4)] package_image_size [OF assms(3,4)]
  by (intro exI [of _ "package debug sizeof_desc cs kh kb"]) simp

text \<open>
  C2: Round trip from the packer to the starter: in a memory that holds the package file the packer
  produced, the starter's search returns the file mapping header, all three modules are present, and
  the address and size it derives for each of them give exactly the bytes of that input file.
\<close>

theorem package_starter_roundtrip:
  assumes "host_ok H" and "parse_packer_cmdline argv files_options = Inr (named_options nms)"
    and "inputs_ok debug fs nms cs" and "starter_layout (cs ! 0) kh kb" and "sizeof_desc < 2 ^ 20"
    and "packer_main H debug sizeof_desc argv fs = (r, fs')" and "fs' XMON_PKG_BIN_NAME = Some pkg"
    and "mem_holds m (ucast load) pkg"
  shows "\<exists>h. get_file_offsets_header m load SCAN_MAX_IMAGE_SIZE = Some h \<and>
     (\<forall>i. module_present m h i \<and>
        mod_size (module_file m h (ucast load) i) = of_nat (length (cs ! module_no i)) \<and>
        mem_holds m (mod_addr (module_file m h (ucast load) i)) (cs ! module_no i))"
proof -
  have "pkg = package debug sizeof_desc cs kh kb"
    using packer_main_run [OF assms(1-4), of sizeof_desc] assms(6,7) by auto
  with assms(8) have view: "package_view m (ucast load) cs kh" using mem_holds_view [OF assms(3-5)] by simp
  show ?thesis
    using view_header_found [OF assms(3,4) view] view_modules_found [OF assms(3) view refl] by blast
qed

text \<open>
  The packer never accepts an odd number of arguments; when the options before are known and have
  proper file names, a last option without its file name makes it hand a null pointer to
  \<open>strncmp\<close>.
\<close>

lemma parse_packer_cmdline_missing_value:
  shows "(odd (length args) \<longrightarrow> (\<exists>e. parse_packer_cmdline (prog # args) fa = Inl e)) \<and>
    (parse_packer_cmdline (prog # args) fa = Inr fa' \<and> find_option arg fa' \<noteq> None \<longrightarrow>
       parse_packer_cmdline (prog # args @ [arg]) fa = Inl Packer_Null_Pointer)"
proof -
  have "parse_args args fa = Inr fa' \<Longrightarrow> find_option arg fa' \<noteq> None \<Longrightarrow>
        parse_args (args @ [arg]) fa = Inl Packer_Null_Pointer"
    by (induction args fa rule: parse_args.induct) (auto split: option.splits if_splits)
  then show ?thesis using parse_args_odd [of args fa] by (auto simp: parse_packer_cmdline_def)
qed

section \<open>A small package for the witnesses\<close>

definition demo_host :: host where
  "demo_host = \<lparr>remove_error = False, fopen_ok = (\<lambda>_. True), malloc_ok = (\<lambda>_. True), fread_ok = (\<lambda>_. True),
     written = (\<lambda>d. d), behind = (\<lambda>_. 0)\<rparr>"

definition demo_starter :: "u8 list" where
  "demo_starter = [0x78, 0x5F, 0x3D, 0x1B, 0x89, 0x6E, 0x4C, 0x2A] @ replicate 28 0 @
     [0x6D, 0x61, 0x67, 0x69, 0x65, 0x76, 0x6D, 0x6D] @ replicate 48 0"

definition demo_names :: "string list" where
  "demo_names = [''starter.bin'', ''xmon_loader.bin'', ''startap.bin'', ''xmon.bin'']"

definition demo_contents :: "u8 list list" where
  "demo_contents = [demo_starter, demo_elf, demo_elf, demo_elf]"

definition demo_files :: files where
  "demo_files = map_of (zip demo_names demo_contents)"

lemma demo_host_ok: "host_ok demo_host"
  by (simp add: host_ok_def demo_host_def)

lemma demo_parse: "parse_packer_cmdline [''packer''] files_options = Inr (named_options demo_names)"
  by (simp add: parse_packer_cmdline_def named_options_def files_options_def demo_names_def)

lemma all_less4: "(\<forall>i < 4. P i) \<longleftrightarrow> P 0 \<and> P 1 \<and> P 2 \<and> P (3 :: nat)"
  by (auto simp: numeral_eq_Suc less_Suc_eq)

lemma demo_lengths: "length demo_starter = 92" "length demo_elf = 260" "demo_starter \<noteq> []" "demo_elf \<noteq> []"
  by (simp_all add: demo_starter_def demo_elf_def)

lemma demo_inputs_ok: "inputs_ok False demo_files demo_names demo_contents"
  by (simp add: inputs_ok_def all_less4 demo_files_def demo_names_def demo_contents_def XMON_PKG_BIN_NAME_def
      demo_lengths LOADER_BIN_SIZE_def)

lemma demo_starter_layout: "starter_layout (demo_contents ! 0) 0 9"
  by code_simp

theorem packer_main_package_witness:
  "\<exists>pkg. packer_main demo_host False 0x1000 [''packer''] demo_files = (Inr (), demo_files(XMON_PKG_BIN_NAME := Some pkg)) \<and>
     length pkg = 4096 \<and> bslice pkg 92 260 = demo_elf"
proof -
  have "\<exists>pkg. packer_main demo_host False 0x1000 [''packer''] demo_files = (Inr (), demo_files(XMON_PKG_BIN_NAME := Some pkg)) \<and>
     length pkg = (length (concat demo_contents) + 4095) div 4096 * 4096 \<and>
     (\<forall>i \<in> {1, 2, 3}. bslice pkg (length (concat (take i demo_contents))) (length (demo_contents ! i)) = demo_contents ! i) \<and>
     bslice pkg (4 * 0) 36 = file_hdr_bytes (packed_hdr demo_contents) \<and>
     bslice pkg (4 * 9 + 48) 4 = word_bytes 4 (of_nat (length pkg) :: u32)"
    by (rule packer_main_package [OF demo_host_ok demo_parse demo_inputs_ok demo_starter_layout])
  moreover have "length (concat demo_contents) = 872" "length demo_starter = 92" "length demo_elf = 260"
    by (simp_all add: demo_contents_def demo_starter_def demo_elf_def)
  ultimately show ?thesis by (auto simp: demo_contents_def)
qed

definition demo_package_mem :: mem where
  "demo_package_mem x =
     (case packer_main demo_host False 0x1000 [''packer''] demo_files of
        (r, fs) \<Rightarrow> the (fs XMON_PKG_BIN_NAME) ! unat (x - 0x10000000))"

theorem package_starter_roundtrip_witness:
  "\<exists>h. get_file_offsets_header demo_package_mem 0x10000000 SCAN_MAX_IMAGE_SIZE = Some h \<and>
     mem_holds demo_package_mem (mod_addr (module_file demo_package_mem h 0x10000000 XMON_BIN_INDEX)) demo_elf"
proof -
  obtain pkg where run: "packer_main demo_host False 0x1000 [''packer''] demo_files =
      (Inr (), demo_files(XMON_PKG_BIN_NAME := Some pkg))" and len: "length pkg = 4096"
    using packer_main_run [OF demo_host_ok demo_parse demo_inputs_ok demo_starter_layout, of "0x1000"]
      package_length [OF demo_inputs_ok demo_starter_layout, of "0x1000"]
    by (auto simp: demo_contents_def demo_starter_def demo_elf_def)
  have "mem_holds demo_package_mem (ucast (0x10000000 :: u32)) pkg"
    unfolding mem_holds_def
  proof (intro allI impI)
    fix k assume "k < length pkg"
    then have "unat (of_nat k :: addr) = k" using len by (intro unat_of_nat64) simp
    then show "demo_package_mem (ucast (0x10000000 :: u32) + of_nat k) = pkg ! k"
      by (simp add: demo_package_mem_def run)
  qed
  from package_starter_roundtrip [OF demo_host_ok demo_parse demo_inputs_ok demo_starter_layout _ run _ this]
  obtain h where "get_file_offsets_header demo_package_mem 0x10000000 SCAN_MAX_IMAGE_SIZE = Some h"
    "mem_holds demo_package_mem (mod_addr (module_file demo_package_mem h (ucast (0x10000000 :: u32)) XMON_BIN_INDEX))
       (demo_contents ! module_no XMON_BIN_INDEX)"
    by auto
  then show ?thesis by (auto simp: demo_contents_def module_no_def)
qed

lemma parse_packer_cmdline_missing_value_witness:
  "parse_packer_cmdline [''packer'', ''--xmon''] files_options = Inl Packer_Null_Pointer"
proof -
  have "parse_packer_cmdline [''packer''] files_options = Inr files_options"
    by (simp add: parse_packer_cmdline_def)
  moreover have "find_option ''--xmon'' files_options \<noteq> None"
    by (simp add: files_options_def STARTER_FILE_OPTION_def)
  ultimately show ?thesis
    using parse_packer_cmdline_missing_value [of "[]" "''packer''" files_options files_options "''--xmon''"] by simp
qed

end
