(* ===== verification/Preload.thy ===== *)
theory Preload
  imports Package
begin

text \<open>
  The UEFI application \<open>uefi_bootloader/preload.c\<close> with the wrappers of \<open>preload.h\<close>: it reads the package
  file, finds the boot header in it, allocates the load-time and run-time memory, copies the package,
  calls the starter and gives everything but the run-time memory returned. The firmware's services, CPUID, the feature
  control MSR and the called program are the parameter \<open>firmware\<close> (no memory from \<open>fw_loader\<close>: the called program does not
  come returned); \<open>efi_calls\<close> is the history
  of page allocations and of calls of the loader. The messages are left out. The magic number, which the file
  has its own copy of, is that of \<open>Packer\<close>.
\<close>

section \<open>The firmware\<close>

datatype allocate_type = AllocateAnyPages | AllocateMaxAddress | AllocateAddress

datatype memory_type = EfiLoaderData | EfiReservedMemoryType

text \<open>An allocation of pages with its result (no result when it failed), a release, a call of the loader.\<close>

datatype efi_call =
  Allocate_Pages allocate_type memory_type u64 u64 "u64 option"
| Free_Pages u64 u64
| Call_Loader addr addr mem

record efi =
  efi_mem :: mem
  efi_calls :: "efi_call list"

record firmware =
  fw_open_protocol :: "u64 \<times> bool"
  fw_open_root :: bool
  fw_open_file :: "u64 \<times> bool"
  fw_file_size :: u64
  fw_allocate :: "efi_call list \<Rightarrow> allocate_type \<Rightarrow> memory_type \<Rightarrow> u64 \<Rightarrow> u64 \<Rightarrow> u64 \<times> u64"
  fw_read :: "u64 \<Rightarrow> addr \<Rightarrow> mem \<Rightarrow> u64 \<times> mem"
  fw_free :: "efi_call list \<Rightarrow> mem \<Rightarrow> mem"
  fw_memory_map :: "efi_call list \<Rightarrow> mem \<Rightarrow> u64 \<times> u64 \<times> u64 \<times> mem"
  fw_copy_mem :: "mem \<Rightarrow> addr \<Rightarrow> addr \<Rightarrow> nat \<Rightarrow> mem"
  fw_cpuid_rcx :: u64
  fw_feature_control :: u64
  fw_loader :: "addr \<Rightarrow> addr \<Rightarrow> mem \<Rightarrow> mem option"

definition EFI_ERROR :: "u64 \<Rightarrow> bool" where "EFI_ERROR a \<longleftrightarrow> sint a < 0"

definition EFI_NOT_FOUND :: u64 where "EFI_NOT_FOUND = 0x8000000000000000 OR 14"

definition EFI_SIZE_TO_PAGES :: "u64 \<Rightarrow> u64" where
  "EFI_SIZE_TO_PAGES a = drop_bit 12 a + (if a AND 0xFFF \<noteq> 0 then 1 else 0)"

definition HIGH_ADDR :: u64 where "HIGH_ADDR = 0x3fffffff"

text \<open>\<open>allocate_pages\<close> on a variable of the caller: the status, the variable's new value and the state.\<close>

definition allocate_pages ::
  "firmware \<Rightarrow> allocate_type \<Rightarrow> memory_type \<Rightarrow> u64 \<Rightarrow> u64 \<Rightarrow> efi \<Rightarrow> u64 \<times> u64 \<times> efi" where
  "allocate_pages F atype mtype num_pages memory st =
     (let (status, out) = fw_allocate F (efi_calls st) atype mtype num_pages memory;
          ok = \<not> EFI_ERROR status
      in (status, if ok then out else memory,
          st\<lparr>efi_calls := efi_calls st @ [Allocate_Pages atype mtype num_pages memory (if ok then Some out else None)]\<rparr>))"

text \<open>\<open>allocate_pages\<close> on 8 bytes of memory.\<close>

definition allocate_pages_at ::
  "firmware \<Rightarrow> allocate_type \<Rightarrow> memory_type \<Rightarrow> u64 \<Rightarrow> addr \<Rightarrow> efi \<Rightarrow> u64 \<times> efi" where
  "allocate_pages_at F atype mtype num_pages p st =
     (let (status, out, st') = allocate_pages F atype mtype num_pages (load64 (efi_mem st) p) st
      in (status, if EFI_ERROR status then st' else st'\<lparr>efi_mem := store64 (efi_mem st') p out\<rparr>))"

definition free_pages :: "firmware \<Rightarrow> u64 \<Rightarrow> u64 \<Rightarrow> efi \<Rightarrow> efi" where
  "free_pages F memory num_pages st =
     (let calls = efi_calls st @ [Free_Pages memory num_pages]
      in st\<lparr>efi_mem := fw_free F calls (efi_mem st), efi_calls := calls\<rparr>)"

section \<open>Loading the image\<close>

text \<open>The status, \<open>*image_addr\<close>, \<open>*img_size\<close> and the state; no value when a null file handle is closed.\<close>

definition load_image_file :: "firmware \<Rightarrow> efi \<Rightarrow> (u64 \<times> u64 \<times> u32 \<times> efi) option" where
  "load_image_file F st =
     (let (err, handle) = fw_open_file F
      in if EFI_ERROR err \<or> \<not> handle then if handle then Some (err, HIGH_ADDR, 0, st) else None
         else
           let buflen = fw_file_size F + 1;
               (err, buf, st) = allocate_pages F AllocateMaxAddress EfiLoaderData (EFI_SIZE_TO_PAGES buflen) HIGH_ADDR st
           in if EFI_ERROR err then Some (err, HIGH_ADDR, 0, st)
              else
                let (err, m) = fw_read F buflen buf (efi_mem st); st = st\<lparr>efi_mem := m\<rparr>
                in if \<not> EFI_ERROR err
                   then Some (err, buf, ucast buflen, st\<lparr>efi_mem := (efi_mem st)(buf + buflen := 0)\<rparr>)
                   else Some (err, HIGH_ADDR, 0, free_pages F buf (EFI_SIZE_TO_PAGES buflen) st))"

partial_function (option) find_magic :: "mem \<Rightarrow> addr \<Rightarrow> addr \<Rightarrow> addr option" where
  "find_magic m limit magic =
     (if magic < limit then if load64 m magic = IKGT_BOOT_HEADER_MAGIC then Some magic else find_magic m limit (magic + 8)
      else Some 0)"

definition find_header :: "mem \<Rightarrow> addr \<Rightarrow> u32 \<Rightarrow> addr option" where
  "find_header m start sz = find_magic m (start + ucast sz) start"

section \<open>The boot header and the loader\<close>

text \<open>The header's fields that are used.\<close>

definition hdr_entry64_offset :: "mem \<Rightarrow> addr \<Rightarrow> u32" where "hdr_entry64_offset m h = load32 m (h + 20)"
definition hdr_rt_mem_base :: "mem \<Rightarrow> addr \<Rightarrow> u32" where "hdr_rt_mem_base m h = load32 m (h + 32)"
definition hdr_rt_mem_size :: "mem \<Rightarrow> addr \<Rightarrow> u32" where "hdr_rt_mem_size m h = load32 m (h + 36)"
definition hdr_ldr_mem_base :: "mem \<Rightarrow> addr \<Rightarrow> u32" where "hdr_ldr_mem_base m h = load32 m (h + 40)"
definition hdr_ldr_mem_size :: "mem \<Rightarrow> addr \<Rightarrow> u32" where "hdr_ldr_mem_size m h = load32 m (h + 44)"

text \<open>
  Memory for the base and size fields at \<open>off\<close>: first at the preferred base, then anywhere. Both the
  preferred address and the limit are read as 8 bytes, that is together with the size field, and the
  result is written over both fields.
\<close>

definition allocate_mem :: "firmware \<Rightarrow> memory_type \<Rightarrow> addr \<Rightarrow> addr \<Rightarrow> efi \<Rightarrow> u64 \<times> efi" where
  "allocate_mem F mtype off ikgt_header st =
     (let pages = (\<lambda>st. EFI_SIZE_TO_PAGES (ucast (load32 (efi_mem st) (ikgt_header + off + 4))));
          (err, st) = allocate_pages_at F AllocateAddress mtype (pages st) (ikgt_header + off) st
      in if EFI_ERROR err
         then let st = st\<lparr>efi_mem := store32 (efi_mem st) (ikgt_header + off) (ucast HIGH_ADDR)\<rparr>
              in allocate_pages_at F AllocateMaxAddress mtype (pages st) (ikgt_header + off) st
         else (err, st))"

definition allocate_ldr_mem :: "firmware \<Rightarrow> addr \<Rightarrow> efi \<Rightarrow> u64 \<times> efi" where
  "allocate_ldr_mem F = allocate_mem F EfiLoaderData 40"

definition allocate_rt_mem :: "firmware \<Rightarrow> addr \<Rightarrow> efi \<Rightarrow> u64 \<times> efi" where
  "allocate_rt_mem F = allocate_mem F EfiReservedMemoryType 32"

text \<open>\<open>check_vmx_support\<close> of this file.\<close>

definition vmx_support :: "firmware \<Rightarrow> int" where
  "vmx_support F =
     (if fw_cpuid_rcx F AND 0x00000020 = 0 then -1
      else if fw_feature_control F AND 0x01 \<noteq> 0 \<and> fw_feature_control F AND 0x04 = 0 then -1
      else 0)"

definition platform_info_at :: "mem \<Rightarrow> addr \<Rightarrow> u32 \<Rightarrow> u32 \<Rightarrow> u32 \<Rightarrow> u32 \<Rightarrow> mem" where
  "platform_info_at m p memmap_addr memmap_size load_addr run_addr =
     store32 (store32 (store32 (store32 m p memmap_addr) (p + 4) memmap_size) (p + 8) load_addr) (p + 12) run_addr"

text \<open>
  From the copy to the second VMX check: the status, \<open>platform_addr\<close>, whether control is back (the called loader
  may not return) and the state.
\<close>

definition run_loader :: "firmware \<Rightarrow> u64 \<Rightarrow> u32 \<Rightarrow> addr \<Rightarrow> efi \<Rightarrow> u64 \<times> u64 \<times> bool \<times> efi" where
  "run_loader F image_addr img_size ikgt_header st =
     (let st = st\<lparr>efi_mem := fw_copy_mem F (efi_mem st) (ucast (hdr_ldr_mem_base (efi_mem st) ikgt_header)) image_addr (unat img_size)\<rparr>;
          (err, platform_addr, st) = allocate_pages F AllocateMaxAddress EfiLoaderData (EFI_SIZE_TO_PAGES 16) HIGH_ADDR st
      in if EFI_ERROR err then (err, platform_addr, True, st)
         else
           let (memmap, nr_entries, desc_size, m) = fw_memory_map F (efi_calls st) (efi_mem st);
               m = platform_info_at m platform_addr (ucast memmap) (ucast (desc_size * nr_entries))
                     (hdr_ldr_mem_base m ikgt_header) (hdr_rt_mem_base m ikgt_header);
               st = st\<lparr>efi_mem := m\<rparr>;
               call_loader = ucast (hdr_ldr_mem_base m ikgt_header + hdr_entry64_offset m ikgt_header) :: addr
           in if vmx_support F \<noteq> 0 \<or> call_loader = 0
              then (err, platform_addr, True, st)
              else
                let st = st\<lparr>efi_calls := efi_calls st @ [Call_Loader call_loader platform_addr m]\<rparr>
                in case fw_loader F call_loader platform_addr m of
                     None \<Rightarrow> (err, platform_addr, False, st)
                   | Some m \<Rightarrow> (err, platform_addr, True, st\<lparr>efi_mem := m\<rparr>))"

section \<open>The application\<close>

text \<open>What the label \<open>out\<close> does with \<open>err\<close>, the addresses, \<open>alloc_flag\<close> and \<open>ikgt_header\<close>.\<close>

definition efi_out :: "firmware \<Rightarrow> u64 \<Rightarrow> u64 \<Rightarrow> u32 \<Rightarrow> u64 \<Rightarrow> bool \<Rightarrow> addr \<Rightarrow> efi \<Rightarrow> u64 \<times> efi" where
  "efi_out F err image_addr img_size platform_addr alloc_flag ikgt_header st =
     (let st = if image_addr \<noteq> HIGH_ADDR then free_pages F image_addr (EFI_SIZE_TO_PAGES (ucast img_size)) st else st;
          st = if platform_addr \<noteq> HIGH_ADDR then free_pages F platform_addr (EFI_SIZE_TO_PAGES 16) st else st;
          st = if alloc_flag
               then free_pages F (ucast (hdr_ldr_mem_base (efi_mem st) ikgt_header))
                      (EFI_SIZE_TO_PAGES (ucast (hdr_ldr_mem_size (efi_mem st) ikgt_header))) st
               else st
      in (if \<not> EFI_ERROR err then EFI_NOT_FOUND else err, st))"

text \<open>
  The end of the application: it returns a status, it calls through a null file handle, or it is in the called
  loader for ever.
\<close>

datatype efi_end = Returns u64 efi | Null_Handle | In_Loader efi

fun efi_return :: "u64 \<times> efi \<Rightarrow> efi_end" where "efi_return (err, st) = Returns err st"

definition boot_image :: "firmware \<Rightarrow> u64 \<Rightarrow> u64 \<Rightarrow> u32 \<Rightarrow> efi \<Rightarrow> efi_end option" where
  "boot_image F err image_addr img_size st =
     Option.bind (find_header (efi_mem st) image_addr img_size) (\<lambda>ikgt_header. Some (
       if ikgt_header = 0 then efi_return (efi_out F err image_addr img_size HIGH_ADDR False ikgt_header st)
       else
         let (err, st) = allocate_ldr_mem F ikgt_header st
         in if EFI_ERROR err then efi_return (efi_out F err image_addr img_size HIGH_ADDR False ikgt_header st)
            else
              let (err, st) = allocate_rt_mem F ikgt_header st
              in if EFI_ERROR err then efi_return (efi_out F err image_addr img_size HIGH_ADDR False ikgt_header st)
                 else
                   let (err, platform_addr, returned, st) = run_loader F image_addr img_size ikgt_header st
                   in if returned then efi_return (efi_out F err image_addr img_size platform_addr True ikgt_header st)
                      else In_Loader st))"

definition efi_main :: "firmware \<Rightarrow> efi \<Rightarrow> efi_end option" where
  "efi_main F st =
     (let (err, efi_loaded_image) = fw_open_protocol F
      in if EFI_ERROR err \<or> \<not> efi_loaded_image then Some (Returns err st)
         else if \<not> fw_open_root F then Some Null_Handle
         else case load_image_file F st of
           None \<Rightarrow> Some Null_Handle
         | Some (err, image_addr, img_size, st) \<Rightarrow>
             if EFI_ERROR err then Some (efi_return (efi_out F err image_addr img_size HIGH_ADDR False 0 st))
             else boot_image F err image_addr img_size st)"

text \<open>The history of a run, however it ends.\<close>

fun end_calls :: "efi_end \<Rightarrow> efi_call list" where
  "end_calls (Returns err st) = efi_calls st"
| "end_calls (In_Loader st) = efi_calls st"
| "end_calls Null_Handle = []"

section \<open>Every way out\<close>

fun loader_calls :: "efi_call list \<Rightarrow> (addr \<times> addr \<times> mem) list" where
  "loader_calls [] = []"
| "loader_calls (Call_Loader e p m # cs) = (e, p, m) # loader_calls cs"
| "loader_calls (_ # cs) = loader_calls cs"

lemma loader_calls_append [simp]: "loader_calls (xs @ ys) = loader_calls xs @ loader_calls ys"
  by (induction xs rule: loader_calls.induct) simp_all

lemma quiet_allocate: "allocate_pages F t mt n a st = (s, out, st') \<Longrightarrow> loader_calls (efi_calls st') = loader_calls (efi_calls st)"
  by (auto simp: allocate_pages_def Let_def split: prod.splits)

lemma quiet_allocate_at: "allocate_pages_at F t mt n p st = (s, st') \<Longrightarrow> loader_calls (efi_calls st') = loader_calls (efi_calls st)"
  by (auto simp: allocate_pages_at_def Let_def dest: quiet_allocate split: prod.splits if_splits)

lemma quiet_free [simp]: "loader_calls (efi_calls (free_pages F a n st)) = loader_calls (efi_calls st)"
  by (simp add: free_pages_def Let_def)

lemma quiet_allocate_mem: "allocate_mem F mt off h st = (s, st') \<Longrightarrow> loader_calls (efi_calls st') = loader_calls (efi_calls st)"
  by (auto simp: allocate_mem_def Let_def dest!: quiet_allocate_at split: prod.splits if_splits)

lemma quiet_out: "efi_out F err ia n pa fl h st = (s, st') \<Longrightarrow> loader_calls (efi_calls st') = loader_calls (efi_calls st)"
  by (auto simp: efi_out_def Let_def split: if_splits)

lemma quiet_load_image: "load_image_file F st = Some (err, a, n, st') \<Longrightarrow> loader_calls (efi_calls st') = loader_calls (efi_calls st)"
  by (auto simp: load_image_file_def Let_def dest: quiet_allocate split: prod.splits if_splits)

lemma efi_not_found: "EFI_ERROR EFI_NOT_FOUND"
  by (simp add: EFI_ERROR_def EFI_NOT_FOUND_def)

lemma out_error: "efi_out F err ia n pa fl h st = (s, st') \<Longrightarrow> EFI_ERROR s"
  by (auto simp: efi_out_def Let_def efi_not_found split: if_splits)

lemma run_loader_calls:
  assumes "run_loader F ia n h st = (err, pa, returned, st')"
  shows "returned \<and> loader_calls (efi_calls st') = loader_calls (efi_calls st) \<or>
    vmx_support F = 0 \<and>
    (\<exists>e p m. loader_calls (efi_calls st') = loader_calls (efi_calls st) @ [(e, p, m)] \<and> (returned \<longleftrightarrow> fw_loader F e p m \<noteq> None))"
  using assms by (auto simp: run_loader_def Let_def dest: quiet_allocate split: prod.splits if_splits option.splits)

lemmas quiet_boot = quiet_allocate_mem [of F EfiLoaderData 40, folded allocate_ldr_mem_def]
  quiet_allocate_mem [of F EfiReservedMemoryType 32, folded allocate_rt_mem_def] for F

lemma efi_return_eq: "efi_return r = Returns (fst r) (snd r)"
  by (cases r) simp

lemma boot_image_cases:
  assumes "boot_image F err ia n st = Some r"
  obtains (stop) e h st1 s st' where "efi_out F e ia n HIGH_ADDR False h st1 = (s, st')" and "r = Returns s st'"
      and "loader_calls (efi_calls st1) = loader_calls (efi_calls st)"
  | (run) h e1 s1 e2 s2 e3 pa returned s3 where "find_header (efi_mem st) ia n = Some h" and "h \<noteq> 0"
      and "allocate_ldr_mem F h st = (e1, s1)" and "\<not> EFI_ERROR e1"
      and "allocate_rt_mem F h s1 = (e2, s2)" and "\<not> EFI_ERROR e2"
      and "run_loader F ia n h s2 = (e3, pa, returned, s3)"
      and "r = (if returned then efi_return (efi_out F e3 ia n pa True h s3) else In_Loader s3)"
proof -
  obtain h where h: "find_header (efi_mem st) ia n = Some h"
    using assms by (auto simp: boot_image_def bind_eq_Some_conv)
  obtain e1 s1 where ldr: "allocate_ldr_mem F h st = (e1, s1)" by fastforce
  obtain e2 s2 where rt: "allocate_rt_mem F h s1 = (e2, s2)" by fastforce
  obtain e3 pa returned s3 where ldd: "run_loader F ia n h s2 = (e3, pa, returned, s3)" by (metis prod_cases4)
  note out = stop [where h = h, OF prod.collapse [symmetric]]
  consider "h = 0" | "h \<noteq> 0" "EFI_ERROR e1" | "h \<noteq> 0" "\<not> EFI_ERROR e1" "EFI_ERROR e2" | "h \<noteq> 0" "\<not> EFI_ERROR e1" "\<not> EFI_ERROR e2"
    by blast
  then show ?thesis
  proof cases
    case 1
    show ?thesis by (rule out [where e = err, OF _ refl]) (use assms h 1 in \<open>simp add: boot_image_def efi_return_eq\<close>)
  next
    case 2
    show ?thesis by (rule out [where e = e1, OF _ quiet_boot(1) [OF ldr]])
      (use assms h ldr 2 in \<open>simp add: boot_image_def efi_return_eq\<close>)
  next
    case 3
    have "loader_calls (efi_calls s2) = loader_calls (efi_calls st)" using quiet_boot(1) [OF ldr] quiet_boot(2) [OF rt] by simp
    from out [where e = e2, OF _ this] show ?thesis using assms h ldr rt 3 by (simp add: boot_image_def efi_return_eq)
  next
    case 4
    show ?thesis by (rule run [OF h 4(1) ldr 4(2) rt 4(3) ldd]) (use assms h ldr rt ldd 4 in \<open>simp add: boot_image_def\<close>)
  qed
qed

text \<open>What the application has done of the loader when it ends; \<open>before\<close> are the calls before it started.\<close>

definition ends_well :: "firmware \<Rightarrow> (addr \<times> addr \<times> mem) list \<Rightarrow> efi_end \<Rightarrow> bool" where
  "ends_well F before r \<longleftrightarrow>
     (case r of
        Returns err st \<Rightarrow> EFI_ERROR err \<and> (loader_calls (efi_calls st) = before \<or>
          vmx_support F = 0 \<and> (\<exists>e p m. loader_calls (efi_calls st) = before @ [(e, p, m)] \<and> fw_loader F e p m \<noteq> None))
      | In_Loader st \<Rightarrow> vmx_support F = 0 \<and> (\<exists>e p m. loader_calls (efi_calls st) = before @ [(e, p, m)] \<and> fw_loader F e p m = None)
      | Null_Handle \<Rightarrow> False)"

lemma boot_image_out:
  assumes "boot_image F err ia n st = Some r"
  shows "ends_well F (loader_calls (efi_calls st)) r"
  using assms
proof (cases rule: boot_image_cases)
  case stop
  then show ?thesis using out_error quiet_out by (fastforce simp: ends_well_def)
next
  case (run h e1 s1 e2 s2 e3 pa returned s3)
  have "loader_calls (efi_calls s2) = loader_calls (efi_calls st)" using quiet_boot(1) [OF run(3)] quiet_boot(2) [OF run(5)] by simp
  note called = run_loader_calls [OF run(7), unfolded this]
  show ?thesis
  proof (cases returned)
    case True
    obtain s st' where out: "efi_out F e3 ia n pa True h s3 = (s, st')" by fastforce
    then show ?thesis using called out_error [OF out] quiet_out [OF out] run(8) True by (auto simp: ends_well_def)
  next
    case False
    then show ?thesis using called run(8) by (auto simp: ends_well_def)
  qed
qed

section \<open>The header search\<close>

lemma le_low: "x < 2 ^ 32 \<Longrightarrow> x \<le> 2 ^ 33" for x :: nat
  by simp

lemma add_low: "x < 2 ^ 32 \<Longrightarrow> y \<le> 2 ^ 33 \<Longrightarrow> (x + y) mod 2 ^ 64 = x + y" for x y :: nat
  by simp

interpretation boot_hdr_scan: linear_scan
  "\<lambda>k. find_magic m (ucast start + ucast sz) (ucast start + of_nat (8 * k))"
  "\<lambda>k. load64 m (ucast start + of_nat (8 * k)) = IKGT_BOOT_HEADER_MAGIC" "\<lambda>k. ucast start + of_nat (8 * k)" 0
  "(unat sz + 7) div 8"
  for m :: mem and start :: u32 and sz :: u32
proof
  let ?l = "ucast start + ucast sz :: addr"
  have l: "unat ?l = unat start + unat sz"
    using add_low [OF unat_less32 [of start] le_low [OF unat_less32 [of sz]]] by (simp only: unat_add64 unat_ucast_u32_u64)
  have pos: "unat (ucast start + of_nat (8 * k) :: addr) = unat start + 8 * k" if "8 * k \<le> 2 ^ 33" for k
    using add_low [OF unat_less32 [of start] that] that
    by (simp only: unat_add64 unat_ucast_u32_u64, subst unat_of_nat64) simp_all
  fix k
  assume k: "k < (unat sz + 7) div 8"
  then have lt: "8 * k < unat sz" by linarith
  then have "ucast start + of_nat (8 * k) < ?l"
    using pos [OF order_trans [OF less_imp_le [OF lt] le_low [OF unat_less32]]] l
    by (simp add: word_less_nat_alt del: of_nat_mult)
  moreover have "ucast start + of_nat (8 * Suc k) = ucast start + of_nat (8 * k) + (8 :: addr)" by simp
  ultimately show "find_magic m ?l (ucast start + of_nat (8 * k)) =
      (if load64 m (ucast start + of_nat (8 * k)) = IKGT_BOOT_HEADER_MAGIC then Some (ucast start + of_nat (8 * k))
       else find_magic m ?l (ucast start + of_nat (8 * Suc k)))"
    by (subst find_magic.simps) (simp add: add.assoc del: of_nat_mult of_nat_Suc mult_Suc_right)
next
  let ?l = "ucast start + ucast sz :: addr" and ?n = "(unat sz + 7) div 8"
  have l: "unat ?l = unat start + unat sz"
    using add_low [OF unat_less32 [of start] le_low [OF unat_less32 [of sz]]] by (simp only: unat_add64 unat_ucast_u32_u64)
  have bound: "8 * ((x + 7) div 8) \<le> 2 ^ 33" if "x < 2 ^ 32" for x :: nat using that by simp
  have n: "unat sz \<le> 8 * ?n" "8 * ?n \<le> 2 ^ 33" using bound [OF unat_less32 [of sz]] by (linarith, simp only:)
  then have "unat (ucast start + of_nat (8 * ?n) :: addr) = unat start + 8 * ?n"
    using add_low [OF unat_less32 [of start] n(2)] n(2)
    by (simp only: unat_add64 unat_ucast_u32_u64, subst unat_of_nat64) simp_all
  then have "\<not> ucast start + of_nat (8 * ?n) < ?l" using l n by (simp add: word_less_nat_alt del: of_nat_mult)
  then show "find_magic m ?l (ucast start + of_nat (8 * ?n)) = Some 0" by (subst find_magic.simps) simp
qed

lemma find_header_scan: "find_header m (ucast start) sz = find_magic m (ucast start + ucast sz) (ucast start + of_nat (8 * 0))"
  for start :: u32
  by (simp add: find_header_def)

lemma find_header_total: "\<exists>h. find_header m (ucast (start :: u32)) sz = Some h"
  unfolding find_header_scan by (rule boot_hdr_scan.scan_total) simp

text \<open>An image with its first boot header, on an 8-byte boundary, at the \<open>k\<close>-th one.\<close>

definition boot_at :: "u8 list \<Rightarrow> nat \<Rightarrow> bool" where
  "boot_at pkg k \<longleftrightarrow> 8 * k + 56 \<le> length pkg \<and> bslice pkg (8 * k) 8 = boot_magic_bytes \<and>
     (\<forall>i < k. bslice pkg (8 * i) 8 \<noteq> boot_magic_bytes)"

lemma mem_holds_magic:
  assumes "mem_holds m a pkg" and "8 * i + 8 \<le> length pkg"
  shows "load64 m (a + of_nat (8 * i)) = IKGT_BOOT_HEADER_MAGIC \<longleftrightarrow> bslice pkg (8 * i) 8 = boot_magic_bytes"
proof -
  have "read_bytes m (a + of_nat (8 * i)) 8 = bslice pkg (8 * i) 8" by (rule mem_holds_read [OF assms])
  then show ?thesis using le_word_eq_iff [of "bslice pkg (8 * i) 8" IKGT_BOOT_HEADER_MAGIC] assms(2)
    by (simp add: load_le_def boot_magic_word)
qed

lemma find_header_first:
  assumes "mem_holds m (ucast (start :: u32)) pkg" and "boot_at pkg k" and "length pkg \<le> unat sz"
  shows "find_header m (ucast start) sz = Some (ucast start + of_nat (8 * k))"
  unfolding find_header_scan
proof (rule boot_hdr_scan.scan_hit)
  have fit: "8 * k + 56 \<le> length pkg" using assms(2) by (simp add: boot_at_def)
  show "k < (unat sz + 7) div 8" using fit assms(3) by linarith
  show "load64 m (ucast start + of_nat (8 * k)) = IKGT_BOOT_HEADER_MAGIC"
    using mem_holds_magic [OF assms(1), of k] fit assms(2) by (simp add: boot_at_def)
  show "load64 m (ucast start + of_nat (8 * i)) \<noteq> IKGT_BOOT_HEADER_MAGIC" if "i < k" for i
    using mem_holds_magic [OF assms(1), of i] fit that assms(2) by (simp add: boot_at_def)
qed simp

section \<open>The blocks the firmware grants\<close>

text \<open>The granted blocks of a history: address and pages.\<close>

fun blocks :: "efi_call list \<Rightarrow> (u64 \<times> u64) list" where
  "blocks [] = []"
| "blocks (Allocate_Pages t mt n a (Some p) # cs) = (p, n) # blocks cs"
| "blocks (_ # cs) = blocks cs"

lemma blocks_append [simp]: "blocks (xs @ ys) = blocks xs @ blocks ys"
  by (induction xs rule: blocks.induct) simp_all

text \<open>
  The documented behaviour of the services: a granted block has the address that was asked for, or its uppermost
  address is at most the limit (\<open>AllocatePages\<close> of the UEFI specification); it shares no byte with one granted before; a file is
  read to the buffer, a copy puts the source's bytes at the destination, and making the memory map leaves granted blocks alone.
\<close>

definition pages_as_asked :: "firmware \<Rightarrow> bool" where
  "pages_as_asked F \<longleftrightarrow> (\<forall>calls t mt n a s p. fw_allocate F calls t mt n a = (s, p) \<and> \<not> EFI_ERROR s \<longrightarrow>
     unat p + 4096 * unat n \<le> 2 ^ 64 \<and> (t = AllocateAddress \<longrightarrow> p = a) \<and>
     (t = AllocateMaxAddress \<longrightarrow> unat p + 4096 * unat n \<le> unat a + 1))"

definition pages_apart :: "firmware \<Rightarrow> bool" where
  "pages_apart F \<longleftrightarrow> (\<forall>calls t mt n a s p. fw_allocate F calls t mt n a = (s, p) \<and> \<not> EFI_ERROR s \<longrightarrow>
     (\<forall>b \<in> set (blocks calls). disjoint_ranges p (4096 * unat n) (fst b) (4096 * unat (snd b))))"

definition map_keeps_blocks :: "firmware \<Rightarrow> bool" where
  "map_keeps_blocks F \<longleftrightarrow> (\<forall>calls m. \<forall>b \<in> set (blocks calls). \<forall>x. in_range (fst b) (4096 * unat (snd b)) x \<longrightarrow>
     snd (snd (snd (fw_memory_map F calls m))) x = m x)"

definition copies :: "firmware \<Rightarrow> bool" where
  "copies F \<longleftrightarrow> (\<forall>m d s n x. fw_copy_mem F m d s n x = (if in_range d n x then m (s + (x - d)) else m x))"

definition delivers :: "firmware \<Rightarrow> u8 list \<Rightarrow> bool" where
  "delivers F pkg \<longleftrightarrow> fw_file_size F = of_nat (length pkg) \<and>
     (\<forall>n p m s m'. fw_read F n p m = (s, m') \<and> \<not> EFI_ERROR s \<longrightarrow> m' = store_bytes m p pkg)"

lemma pages_count: "unat (EFI_SIZE_TO_PAGES a) = (unat a + 4095) div 4096"
proof -
  have "a AND 0xFFF = take_bit 12 a" by (simp add: take_bit_eq_mask mask_eq_exp_minus_1)
  then have "unat (a AND 0xFFF) = take_bit 12 (unat a)" by (simp only: unsigned_take_bit_eq)
  then have "unat (a AND 0xFFF) = unat a mod 4096" by (simp add: take_bit_eq_mod)
  then have z: "a AND 0xFFF \<noteq> 0 \<longleftrightarrow> unat a mod 4096 \<noteq> 0" by (metis unat_0 word_unat_eq_iff)
  have d: "unat (drop_bit 12 a) = unat a div 4096" by (subst unat_drop_bit_eq) (simp add: drop_bit_eq_div)
  have "unat a div 4096 < 2 ^ 52" using unat_less64 [of a] by (intro less_mult_imp_div_less) simp
  then have "unat a div 4096 + 1 < 2 ^ 64" by simp
  then have "unat (EFI_SIZE_TO_PAGES a) = unat a div 4096 + (if unat a mod 4096 \<noteq> 0 then 1 else 0)"
    unfolding EFI_SIZE_TO_PAGES_def z by (simp add: unat_add64 d)
  moreover have "(n + 4095) div 4096 = n div 4096 + (if n mod 4096 \<noteq> 0 then 1 else 0)" for n :: nat
  proof -
    obtain q r where n: "n = 4096 * q + r" "r < 4096" by (rule that [of "n div 4096" "n mod 4096"]) simp_all
    then have "n div 4096 = q" "n mod 4096 = r" by simp_all
    moreover have "(n + 4095) div 4096 = q + (if r \<noteq> 0 then 1 else 0)" using n by (intro div_nat_eqI) auto
    ultimately show ?thesis by simp
  qed
  ultimately show ?thesis by simp
qed

lemma pages_cover: "unat a \<le> 4096 * unat (EFI_SIZE_TO_PAGES a)"
  unfolding pages_count by linarith

lemma allocate_pages_granted:
  assumes "allocate_pages F t mt n a st = (s, p, st')" and "\<not> EFI_ERROR s"
  shows "fw_allocate F (efi_calls st) t mt n a = (s, p) \<and> efi_mem st' = efi_mem st \<and>
    blocks (efi_calls st') = blocks (efi_calls st) @ [(p, n)]"
  using assms by (auto simp: allocate_pages_def Let_def split: prod.splits)

lemma allocate_pages_refused:
  assumes "allocate_pages F t mt n a st = (s, p, st')" and "EFI_ERROR s"
  shows "efi_mem st' = efi_mem st \<and> blocks (efi_calls st') = blocks (efi_calls st)"
  using assms by (auto simp: allocate_pages_def Let_def split: prod.splits)

lemma allocate_pages_at_granted:
  assumes "allocate_pages_at F t mt n q st = (s, st')" and "\<not> EFI_ERROR s"
  shows "\<exists>p. fw_allocate F (efi_calls st) t mt n (load64 (efi_mem st) q) = (s, p) \<and>
    efi_mem st' = store64 (efi_mem st) q p \<and> blocks (efi_calls st') = blocks (efi_calls st) @ [(p, n)]"
  using assms by (auto simp: allocate_pages_at_def Let_def dest: allocate_pages_granted split: prod.splits if_splits)

lemma allocate_pages_at_refused:
  assumes "allocate_pages_at F t mt n q st = (s, st')" and "EFI_ERROR s"
  shows "efi_mem st' = efi_mem st \<and> blocks (efi_calls st') = blocks (efi_calls st)"
  using assms by (auto simp: allocate_pages_at_def Let_def dest: allocate_pages_refused split: prod.splits if_splits)

text \<open>What a successful allocation for the two fields leaves: the 64-bit address over both fields, nothing else.\<close>

lemma allocate_mem_granted:
  assumes "pages_apart F"
    and "allocate_mem F mt off h st = (s, st')" and "\<not> EFI_ERROR s"
  defines "n \<equiv> EFI_SIZE_TO_PAGES (ucast (load32 (efi_mem st) (h + off + 4)))"
  shows "\<exists>p. blocks (efi_calls st') = blocks (efi_calls st) @ [(p, n)] \<and>
    (\<forall>b \<in> set (blocks (efi_calls st)). disjoint_ranges p (4096 * unat n) (fst b) (4096 * unat (snd b))) \<and>
    load64 (efi_mem st') (h + off) = p \<and> (\<forall>x. \<not> in_range (h + off) 8 x \<longrightarrow> efi_mem st' x = efi_mem st x)"
proof -
  obtain e1 s1 where a1: "allocate_pages_at F AllocateAddress mt n (h + off) st = (e1, s1)" by fastforce
  show ?thesis
  proof (cases "EFI_ERROR e1")
    case False
    then have "s = e1" "st' = s1" using assms(2) a1 by (simp_all add: allocate_mem_def n_def Let_def)
    then obtain p where p: "fw_allocate F (efi_calls st) AllocateAddress mt n (load64 (efi_mem st) (h + off)) = (s, p)"
      "efi_mem st' = store64 (efi_mem st) (h + off) p" "blocks (efi_calls st') = blocks (efi_calls st) @ [(p, n)]"
      using allocate_pages_at_granted [OF a1 False] by auto
    then show ?thesis using assms(1,3) unfolding pages_apart_def by (auto simp: store_le_apply)
  next
    case True
    note r = allocate_pages_at_refused [OF a1 True]
    let ?s2 = "s1\<lparr>efi_mem := store32 (efi_mem s1) (h + off) (ucast HIGH_ADDR)\<rparr>"
    have "disjoint_ranges (h + off + 0) 4 (h + off + 4) 4" by (rule fields_disjoint) simp_all
    then have "load32 (efi_mem ?s2) (h + off + 4) = load32 (efi_mem st) (h + off + 4)"
      using r by (simp add: load_store_disjoint)
    then have a2: "allocate_pages_at F AllocateMaxAddress mt n (h + off) ?s2 = (s, st')"
      using assms(2) a1 True by (simp add: allocate_mem_def n_def Let_def)
    from allocate_pages_at_granted [OF a2 assms(3)] r
    obtain p where p: "fw_allocate F (efi_calls s1) AllocateMaxAddress mt n (load64 (efi_mem ?s2) (h + off)) = (s, p)"
      "efi_mem st' = store64 (efi_mem ?s2) (h + off) p" "blocks (efi_calls st') = blocks (efi_calls st) @ [(p, n)]"
      by auto
    have "efi_mem st' x = efi_mem st x" if "\<not> in_range (h + off) 8 x" for x
      using p(2) r that in_range_mono [of "h + off" 4 x 8] by (auto simp: store_le_apply)
    moreover have "\<forall>b \<in> set (blocks (efi_calls st)). disjoint_ranges p (4096 * unat n) (fst b) (4096 * unat (snd b))"
      using assms(1,3) p(1) r unfolding pages_apart_def by metis
    ultimately show ?thesis using p by simp
  qed
qed

lemma low_address: "unat a < 2 ^ 32 \<Longrightarrow> a = ucast (ucast a :: u32)" for a :: u64
  by (simp add: word_unat_eq_iff unat_ucast_u64_u32)

lemma boot_image_total: "unat ia < 2 ^ 32 \<Longrightarrow> \<exists>r. boot_image F err ia n st = Some r"
  using find_header_total [of "efi_mem st" "ucast ia" n] by (auto simp: boot_image_def low_address [symmetric])

text \<open>What is asked for below \<open>HIGH_ADDR\<close> is granted below 1 GB.\<close>

lemma granted_below_high:
  assumes "pages_as_asked F" and "allocate_pages F AllocateMaxAddress mt n HIGH_ADDR st = (s, p, st')" and "\<not> EFI_ERROR s"
  shows "unat p < 2 ^ 32" and "unat p + 4096 * unat n \<le> 2 ^ 30"
proof -
  have "fw_allocate F (efi_calls st) AllocateMaxAddress mt n HIGH_ADDR = (s, p)" using allocate_pages_granted [OF assms(2,3)] by simp
  then have "unat p + 4096 * unat n \<le> unat HIGH_ADDR + 1" using assms(1,3) unfolding pages_as_asked_def by blast
  then show "unat p < 2 ^ 32" "unat p + 4096 * unat n \<le> 2 ^ 30" by (simp_all add: HIGH_ADDR_def)
qed

lemma load_image_low:
  assumes "pages_as_asked F" and "load_image_file F st = Some (err, ia, n, st')" and "\<not> EFI_ERROR err"
  shows "unat ia < 2 ^ 32"
proof -
  obtain e mt k s1 where "allocate_pages F AllocateMaxAddress mt k HIGH_ADDR st = (e, ia, s1)" "\<not> EFI_ERROR e"
    using assms(2,3) by (auto simp: load_image_file_def Let_def split: prod.splits if_splits)
  then show ?thesis by (rule granted_below_high(1) [OF assms(1)])
qed

text \<open>
  C20: on every firmware that grants memory as it is asked for, the application comes to an end of one of four kinds.
  It calls through a null handle, when the root directory or the file could not be opened; or it returns the status
  of the protocol call at once, which is an error or comes with no loaded image; or it returns an error status, so
  that the firmware goes on to the next boot option, having called the loader at most once; or the loader that it called
  never returns. It calls the loader only with VMX present and not locked off.
\<close>

theorem efi_main_always_error:
  assumes "pages_as_asked F"
  shows "efi_main F st = Some Null_Handle \<and> (\<not> fw_open_root F \<or> \<not> snd (fw_open_file F)) \<or>
    efi_main F st = Some (Returns (fst (fw_open_protocol F)) st) \<and>
      (EFI_ERROR (fst (fw_open_protocol F)) \<or> \<not> snd (fw_open_protocol F)) \<or>
    (\<exists>r. efi_main F st = Some r \<and> ends_well F (loader_calls (efi_calls st)) r)"
proof -
  obtain e i where p: "fw_open_protocol F = (e, i)" by fastforce
  consider "EFI_ERROR e \<or> \<not> i" | "\<not> EFI_ERROR e" "i" "\<not> fw_open_root F" | "\<not> EFI_ERROR e" "i" "fw_open_root F" "load_image_file F st = None"
    | e1 ia n s1 where "\<not> EFI_ERROR e" "i" "fw_open_root F" "load_image_file F st = Some (e1, ia, n, s1)"
    by (metis not_None_eq prod_cases4)
  then show ?thesis
  proof cases
    case 3
    then have "\<not> snd (fw_open_file F)" by (auto simp: load_image_file_def Let_def split: prod.splits if_splits)
    then show ?thesis using 3 p by (simp add: efi_main_def)
  next
    case 4
    note quiet = quiet_load_image [OF 4(4)]
    show ?thesis
    proof (cases "EFI_ERROR e1")
      case True
      obtain err st' where out: "efi_out F e1 ia n HIGH_ADDR False 0 s1 = (err, st')" by fastforce
      then show ?thesis using out_error [OF out] quiet_out [OF out] quiet 4 p True by (simp add: efi_main_def ends_well_def)
    next
      case False
      obtain r where b: "boot_image F e1 ia n s1 = Some r"
        using boot_image_total [OF load_image_low [OF assms 4(4) False]] by blast
      from boot_image_out [OF b] show ?thesis using quiet 4 p False b by (simp add: efi_main_def)
    qed
  qed (use p in \<open>auto simp: efi_main_def\<close>)
qed

section \<open>What the starter is given\<close>

lemma blocks_free [simp]: "blocks (efi_calls (free_pages F a n st)) = blocks (efi_calls st)"
  by (simp add: free_pages_def Let_def)

lemma blocks_out: "efi_out F err ia n pa fl h st = (s, st') \<Longrightarrow> blocks (efi_calls st') = blocks (efi_calls st)"
  by (auto simp: efi_out_def Let_def split: if_splits)

lemma load32_low: "load32 m a = ucast (load64 m a)"
  by (rule bit_word_eqI) (auto simp: load64_halves bit_simps dest: bit_imp_le_length)

lemma load_image_file_holds:
  assumes "pages_as_asked F" and "delivers F pkg" and "length pkg + 1 < 2 ^ 32"
    and "load_image_file F st = Some (err, ia, n, st')" and "\<not> EFI_ERROR err"
  shows "unat n = length pkg + 1 \<and> unat ia < 2 ^ 32 \<and>
    4096 * unat (EFI_SIZE_TO_PAGES (of_nat (length pkg + 1))) \<le> 2 ^ 32 \<and> mem_holds (efi_mem st') ia pkg \<and>
    blocks (efi_calls st') = blocks (efi_calls st) @ [(ia, EFI_SIZE_TO_PAGES (of_nat (length pkg + 1)))]"
proof -
  have size: "fw_file_size F + 1 = of_nat (length pkg + 1)" using assms(2) by (simp add: delivers_def)
  have ul: "unat (of_nat (length pkg + 1) :: u64) = length pkg + 1" using assms(3) by (intro unat_of_nat64) simp
  obtain e b s1 m where a: "allocate_pages F AllocateMaxAddress EfiLoaderData (EFI_SIZE_TO_PAGES (of_nat (length pkg + 1))) HIGH_ADDR st = (e, b, s1)"
    and ne: "\<not> EFI_ERROR e" and r: "fw_read F (of_nat (length pkg + 1)) b (efi_mem s1) = (err, m)"
    and res: "ia = b" "n = ucast (of_nat (length pkg + 1) :: u64)" "st' = s1\<lparr>efi_mem := m(b + of_nat (length pkg + 1) := 0)\<rparr>"
    using assms(4,5) unfolding load_image_file_def size Let_def by (auto split: prod.splits if_splits)
  note g = allocate_pages_granted [OF a ne]
  have m: "m = store_bytes (efi_mem s1) b pkg" using assms(2,5) r unfolding delivers_def by blast
  note low = granted_below_high [OF assms(1) a ne]
  have "length pkg \<le> 2 ^ 64" using assms(3) by simp
  then have byte: "m (b + of_nat i) = pkg ! i" if "i < length pkg" for i
    using that assms(3) by (simp add: m store_bytes_apply in_range_def unat_of_nat64)
  have "b + of_nat i \<noteq> b + of_nat (length pkg + 1)" if "i < length pkg" for i
  proof
    assume "b + of_nat i = b + of_nat (length pkg + 1)"
    then have "unat (of_nat i :: addr) = length pkg + 1" using ul by simp
    then show False using that assms(3) by (simp add: unat_of_nat64)
  qed
  then have "mem_holds (efi_mem st') ia pkg" using byte res by (simp add: mem_holds_def)
  moreover have "unat n = length pkg + 1" using ul assms(3) res(2) by (simp only: unat_ucast_u64_u32)
  ultimately show ?thesis using g low res by simp
qed

lemma platform_info_fields:
  "pi_load_addr (platform_info_at m p a b l r) p = l" "pi_run_addr (platform_info_at m p a b l r) p = r"
  "\<not> in_range p 16 x \<Longrightarrow> platform_info_at m p a b l r x = m x"
proof -
  have d: "disjoint_ranges (p + 12) 4 (p + 8) 4" by (rule fields_disjoint) simp_all
  show "pi_load_addr (platform_info_at m p a b l r) p = l"
    unfolding pi_load_addr_def platform_info_at_def by (subst load_store_disjoint [OF d]) simp_all
  show "pi_run_addr (platform_info_at m p a b l r) p = r"
    by (simp add: pi_run_addr_def platform_info_at_def)
  have sub: "in_range (p + v) 4 x \<Longrightarrow> unat v + 4 \<le> 16 \<Longrightarrow> in_range p 16 x" for v
    by (rule in_range_sub [of p v 4]) simp_all
  assume "\<not> in_range p 16 x"
  then show "platform_info_at m p a b l r x = m x"
    using sub [of 0] sub [of 4] sub [of 8] sub [of 12] by (auto simp: platform_info_at_def store_le_apply)
qed

lemma run_loader_refused:
  "run_loader F ia n h st = (err, pa, returned, st') \<Longrightarrow> EFI_ERROR err \<Longrightarrow> loader_calls (efi_calls st') = loader_calls (efi_calls st)"
  by (auto simp: run_loader_def Let_def dest: quiet_allocate split: prod.splits if_splits option.splits)

text \<open>A run that gets the platform information's page: the memory it copies, and what it appends to the history.\<close>

definition image_copied :: "firmware \<Rightarrow> u64 \<Rightarrow> u32 \<Rightarrow> addr \<Rightarrow> mem \<Rightarrow> mem" where
  "image_copied F ia n h m = fw_copy_mem F m (ucast (hdr_ldr_mem_base m h)) ia (unat n)"

lemma run_loader_page:
  assumes "run_loader F ia n h st = (err, pa, returned, st')" and "\<not> EFI_ERROR err"
  obtains s2 x y m2 m3 where
      "allocate_pages F AllocateMaxAddress EfiLoaderData (EFI_SIZE_TO_PAGES 16) HIGH_ADDR
         (st\<lparr>efi_mem := image_copied F ia n h (efi_mem st)\<rparr>) = (err, pa, s2)"
    and "m2 = snd (snd (snd (fw_memory_map F (efi_calls s2) (efi_mem s2))))"
    and "m3 = platform_info_at m2 pa x y (hdr_ldr_mem_base m2 h) (hdr_rt_mem_base m2 h)"
    and "efi_calls st' = efi_calls s2 @
      (let entry = ucast (hdr_ldr_mem_base m3 h + hdr_entry64_offset m3 h)
       in if vmx_support F \<noteq> 0 \<or> entry = 0 then [] else [Call_Loader entry pa m3])"
proof -
  obtain e b s2 where a: "allocate_pages F AllocateMaxAddress EfiLoaderData (EFI_SIZE_TO_PAGES 16) HIGH_ADDR
      (st\<lparr>efi_mem := image_copied F ia n h (efi_mem st)\<rparr>) = (e, b, s2)" by (metis prod_cases3)
  obtain mm ne ds m2 where mp: "fw_memory_map F (efi_calls s2) (efi_mem s2) = (mm, ne, ds, m2)" by (metis prod_cases4)
  have "e = err \<and> b = pa" using assms a mp by (auto simp: run_loader_def image_copied_def Let_def split: if_splits option.splits)
  then show ?thesis
    by (intro that [OF _ refl refl, of s2]) (use assms a mp in \<open>auto simp: run_loader_def image_copied_def Let_def split: if_splits option.splits\<close>)
qed

lemma run_loader_blocks:
  assumes "run_loader F ia n h st = (err, pa, returned, st')" and "\<not> EFI_ERROR err"
  shows "\<exists>s2. allocate_pages F AllocateMaxAddress EfiLoaderData (EFI_SIZE_TO_PAGES 16) HIGH_ADDR
       (st\<lparr>efi_mem := image_copied F ia n h (efi_mem st)\<rparr>) = (err, pa, s2) \<and>
    blocks (efi_calls st') = blocks (efi_calls s2) \<and> blocks (efi_calls s2) = blocks (efi_calls st) @ [(pa, EFI_SIZE_TO_PAGES 16)]"
proof (rule run_loader_page [OF assms])
  fix s2 x y m2 m3
  assume a: "allocate_pages F AllocateMaxAddress EfiLoaderData (EFI_SIZE_TO_PAGES 16) HIGH_ADDR
      (st\<lparr>efi_mem := image_copied F ia n h (efi_mem st)\<rparr>) = (err, pa, s2)"
    and "efi_calls st' = efi_calls s2 @ (let entry = ucast (hdr_ldr_mem_base m3 h + hdr_entry64_offset m3 h)
       in if vmx_support F \<noteq> 0 \<or> entry = 0 then [] else [Call_Loader entry pa m3])"
  then show ?thesis using allocate_pages_granted [OF a assms(2)] by (simp add: Let_def)
qed

text \<open>The page lies apart from the blocks granted before, so these keep what they hold.\<close>

lemma page_apart:
  assumes "pages_apart F" and a: "allocate_pages F t mt (EFI_SIZE_TO_PAGES 16) n st = (err, pa, s2)" and "\<not> EFI_ERROR err"
    and c: "c \<in> set (blocks (efi_calls st))"
  shows "disjoint_ranges pa 4096 (fst c) (4096 * unat (snd c))"
proof -
  have "unat (EFI_SIZE_TO_PAGES 16) = 1" by (simp add: pages_count)
  then show ?thesis
    using assms(1,3) allocate_pages_granted [OF a assms(3)] c unfolding pages_apart_def by (metis mult.right_neutral)
qed

lemma page_keeps_blocks:
  assumes "pages_apart F" and "map_keeps_blocks F"
    and a: "allocate_pages F AllocateMaxAddress EfiLoaderData (EFI_SIZE_TO_PAGES 16) HIGH_ADDR st = (err, pa, s2)" and "\<not> EFI_ERROR err"
    and m2: "m2 = snd (snd (snd (fw_memory_map F (efi_calls s2) (efi_mem s2))))"
    and m3: "m3 = platform_info_at m2 pa x y l r"
    and c: "c \<in> set (blocks (efi_calls st))" and x: "in_range (fst c) (4096 * unat (snd c)) z"
  shows "m3 z = efi_mem st z" and "m2 z = efi_mem st z"
proof -
  note g = allocate_pages_granted [OF a assms(4)]
  note page_apart [OF assms(1) a assms(4) c]
  then have "\<not> in_range pa 16 z" using disjoint_ranges_not_both [OF _ in_range_mono [of pa 16 z 4096] x] by auto
  moreover have "c \<in> set (blocks (efi_calls s2))" using g c by simp
  from assms(2) [unfolded map_keeps_blocks_def, rule_format, OF this x, of "efi_mem s2"]
  show "m2 z = efi_mem st z" using g by (simp add: m2)
  ultimately show "m3 z = efi_mem st z" by (simp add: m3 platform_info_fields(3))
qed

text \<open>
  The loader's call: it finds the header's load-time address and the run-time address in the platform
  information, and the image at the load-time address.
\<close>

lemma run_loader_enters:
  assumes "pages_apart F" and "map_keeps_blocks F" and cp: "copies F"
    and run: "run_loader F ia n h st = (err, pa, returned, st')" and ok: "\<not> EFI_ERROR err"
    and ia: "(ia, na) \<in> set (blocks (efi_calls st))" and ld: "(ucast L, nl) \<in> set (blocks (efi_calls st))"
    and apart: "disjoint_ranges ia (4096 * unat na) (ucast L) (4096 * unat nl)"
    and n: "unat n \<le> 4096 * unat na" "unat n \<le> 4096 * unat nl" "4096 * unat na \<le> 2 ^ 32"
    and h: "h = ia + of_nat (8 * k)" "8 * k + 56 \<le> unat n"
    and L: "L = hdr_ldr_mem_base (efi_mem st) h"
  shows "\<exists>m. pi_load_addr m pa = L \<and> pi_run_addr m pa = hdr_rt_mem_base (efi_mem st) h \<and>
    (\<forall>i < unat n. m (ucast L + of_nat i) = efi_mem st (ia + of_nat i)) \<and>
    (pa, EFI_SIZE_TO_PAGES 16) \<in> set (blocks (efi_calls st')) \<and>
    disjoint_ranges pa 4096 (ucast L) (4096 * unat nl) \<and>
    loader_calls (efi_calls st') = loader_calls (efi_calls st) @
      (if vmx_support F \<noteq> 0 \<or> L + hdr_entry64_offset (efi_mem st) h = 0 then []
       else [(ucast (L + hdr_entry64_offset (efi_mem st) h), pa, m)])"
proof -
  let ?M = "efi_mem st" and ?s1 = "st\<lparr>efi_mem := image_copied F ia n h (efi_mem st)\<rparr>"
  obtain s2 x y m2 m3 where a: "allocate_pages F AllocateMaxAddress EfiLoaderData (EFI_SIZE_TO_PAGES 16) HIGH_ADDR ?s1 = (err, pa, s2)"
    and m: "m2 = snd (snd (snd (fw_memory_map F (efi_calls s2) (efi_mem s2))))"
      "m3 = platform_info_at m2 pa x y (hdr_ldr_mem_base m2 h) (hdr_rt_mem_base m2 h)"
    and calls: "efi_calls st' = efi_calls s2 @ (let entry = ucast (hdr_ldr_mem_base m3 h + hdr_entry64_offset m3 h)
       in if vmx_support F \<noteq> 0 \<or> entry = 0 then [] else [Call_Loader entry pa m3])"
    by (rule run_loader_page [OF run ok])
  note keep = page_keeps_blocks [OF assms(1,2) a ok m]
  have copied: "image_copied F ia n h ?M z = (if in_range (ucast L) (unat n) z then ?M (ia + (z - ucast L)) else ?M z)" for z
    using cp by (simp add: image_copied_def copies_def L)
  have image: "m3 z = ?M z \<and> m2 z = ?M z" if "in_range ia (4096 * unat na) z" for z
    using keep [of "(ia, na)" z] ia that copied [of z]
      disjoint_ranges_not_both [OF apart that in_range_mono [of "ucast L" "unat n" z "4096 * unat nl"]] n(2) by auto
  have field: "load32 m3 (h + of_nat v) = load32 ?M (h + of_nat v) \<and> load32 m2 (h + of_nat v) = load32 ?M (h + of_nat v)"
    if "v + 4 \<le> 56" for v
  proof -
    have fit: "8 * k + v + 4 \<le> 4096 * unat na" using n(1) h(2) that by linarith
    then have "unat (of_nat (8 * k + v) :: addr) = 8 * k + v" using n(3) by (intro unat_of_nat64) simp
    then have "in_range ia (4096 * unat na) z" if "in_range (h + of_nat v) 4 z" for z
      using fit n(3) that by (intro in_range_sub [of ia "of_nat (8 * k + v)" 4]) (simp_all add: h(1) add.assoc)
    then show ?thesis using image by (intro conjI load_le_cong) auto
  qed
  have copy: "m3 (ucast L + of_nat i) = ?M (ia + of_nat i)" if i: "i < unat n" for i
  proof -
    have "i < 2 ^ 32" using i unat_less32 [of n] by (rule less_trans)
    then have u: "unat (of_nat i :: addr) = i" by (intro unat_of_nat64) simp
    then show ?thesis using keep(1) [of "(ucast L, nl)" "ucast L + of_nat i"] ld copied i n(2) by (simp add: in_range_def)
  qed
  have hdr: "hdr_ldr_mem_base m3 h = L" "hdr_ldr_mem_base m2 h = L" "hdr_rt_mem_base m2 h = hdr_rt_mem_base ?M h"
    "hdr_entry64_offset m3 h = hdr_entry64_offset ?M h"
    using field [of 40] field [of 32] field [of 20]
    by (simp_all add: L hdr_ldr_mem_base_def hdr_rt_mem_base_def hdr_entry64_offset_def)
  have "(ucast w :: addr) = 0 \<longleftrightarrow> w = 0" for w :: u32 by (metis unat_0 unat_ucast_u32_u64 word_unat_eq_iff)
  then have "loader_calls (efi_calls st') = loader_calls (efi_calls st) @
      (if vmx_support F \<noteq> 0 \<or> L + hdr_entry64_offset ?M h = 0 then [] else [(ucast (L + hdr_entry64_offset ?M h), pa, m3)])"
    using quiet_allocate [OF a] by (simp add: calls Let_def hdr(1,4))
  moreover have "(pa, EFI_SIZE_TO_PAGES 16) \<in> set (blocks (efi_calls st'))"
    using allocate_pages_granted [OF a ok] by (simp add: calls)
  moreover have "disjoint_ranges pa 4096 (ucast L) (4096 * unat nl)"
    using page_apart [OF assms(1) a ok, of "(ucast L, nl)"] ld by simp
  ultimately show ?thesis using copy hdr(2,3) by (intro exI [of _ m3]) (simp add: m(2) platform_info_fields(1,2))
qed

text \<open>The header's fields in the image file.\<close>

definition image_field :: "u8 list \<Rightarrow> nat \<Rightarrow> nat \<Rightarrow> u32" where
  "image_field pkg k v = le_word (bslice pkg (8 * k + v) 4)"

lemma mem_holds_field:
  assumes "mem_holds m a pkg" and "8 * k + v + 4 \<le> length pkg"
  shows "load32 m (a + of_nat (8 * k) + of_nat v) = image_field pkg k v"
  using mem_holds_read [OF assms] by (simp add: load_le_def image_field_def add.assoc)

lemma ldr_keeps_rt_size:
  assumes "pages_apart F" and "allocate_ldr_mem F h s1 = (e, s2)" and "\<not> EFI_ERROR e"
  shows "load32 (efi_mem s2) (h + 32 + 4) = load32 (efi_mem s1) (h + 36)"
proof -
  have "\<And>x. \<not> in_range (h + 40) 8 x \<Longrightarrow> efi_mem s2 x = efi_mem s1 x"
    using allocate_mem_granted [OF assms(1,2) [unfolded allocate_ldr_mem_def] assms(3)] by auto
  moreover have "disjoint_ranges (h + 40) 8 (h + 36) 4" by (rule fields_disjoint) simp_all
  ultimately have "load32 (efi_mem s2) (h + 36) = load32 (efi_mem s1) (h + 36)"
    using disjoint_ranges_not_both by (intro load_le_cong) (blast, simp)
  then show ?thesis by (simp add: add.assoc)
qed

text \<open>The memory and the blocks before the copy.\<close>

lemma boot_prepared:
  assumes "pages_apart F" and "boot_at pkg k" and "length pkg + 1 < 2 ^ 32"
    and m1: "mem_holds (efi_mem s1) ia pkg" and b1: "blocks (efi_calls s1) = [(ia, na)]" and h: "h = ia + of_nat (8 * k)"
    and ldr_ok: "allocate_ldr_mem F h s1 = (e1, s2)" "\<not> EFI_ERROR e1"
    and rt_ok: "allocate_rt_mem F h s2 = (e2, s3)" "\<not> EFI_ERROR e2"
  obtains p1 p2 where
      "blocks (efi_calls s3) = [(ia, na), (p1, EFI_SIZE_TO_PAGES (ucast (image_field pkg k 44))), (p2, EFI_SIZE_TO_PAGES (ucast (image_field pkg k 36)))]"
    and "disjoint_ranges p1 (4096 * unat (EFI_SIZE_TO_PAGES (ucast (image_field pkg k 44)))) ia (4096 * unat na)"
    and "hdr_ldr_mem_base (efi_mem s3) h = ucast p1" and "hdr_rt_mem_base (efi_mem s3) h = ucast p2"
    and "load64 (efi_mem s3) (h + 32) = p2" and "load64 (efi_mem s3) (h + 40) = p1"
    and "hdr_entry64_offset (efi_mem s3) h = image_field pkg k 20"
    and "\<And>i. i < length pkg \<Longrightarrow> i < 8 * k + 32 \<or> 8 * k + 48 \<le> i \<Longrightarrow> efi_mem s3 (ia + of_nat i) = pkg ! i"
proof -
  have fit: "8 * k + 56 \<le> length pkg" using assms(2) by (simp add: boot_at_def)
  define nl where "nl = EFI_SIZE_TO_PAGES (ucast (image_field pkg k 44))"
  define nr where "nr = EFI_SIZE_TO_PAGES (ucast (image_field pkg k 36))"
  have f44: "load32 (efi_mem s1) (h + 40 + 4) = image_field pkg k 44"
    using mem_holds_field [OF m1, of k 44] fit by (simp add: h add.assoc)
  obtain p1 where ldr: "blocks (efi_calls s2) = [(ia, na), (p1, nl)]"
      "disjoint_ranges p1 (4096 * unat nl) ia (4096 * unat na)" "load64 (efi_mem s2) (h + 40) = p1"
      "\<And>x. \<not> in_range (h + 40) 8 x \<Longrightarrow> efi_mem s2 x = efi_mem s1 x"
    using allocate_mem_granted [OF assms(1) ldr_ok(1) [unfolded allocate_ldr_mem_def] ldr_ok(2)] unfolding f44 nl_def b1 by auto
  have f36: "load32 (efi_mem s2) (h + 32 + 4) = image_field pkg k 36"
    using ldr_keeps_rt_size [OF assms(1) ldr_ok] mem_holds_field [OF m1, of k 36] fit by (simp add: h)
  obtain p2 where rt: "blocks (efi_calls s3) = [(ia, na), (p1, nl), (p2, nr)]"
      "load64 (efi_mem s3) (h + 32) = p2" "\<And>x. \<not> in_range (h + 32) 8 x \<Longrightarrow> efi_mem s3 x = efi_mem s2 x"
    using allocate_mem_granted [OF assms(1) rt_ok(1) [unfolded allocate_rt_mem_def] rt_ok(2)] unfolding f36 nr_def ldr(1) by auto
  define L where "L = hdr_ldr_mem_base (efi_mem s3) h"
  have keep: "load32 (efi_mem s3) (h + of_nat v) = load32 (efi_mem s2) (h + of_nat v)" if "v + 4 \<le> 32 \<or> 40 \<le> v" "v < 100" for v
  proof -
    have "disjoint_ranges (h + 32) 8 (h + of_nat v) 4" using that by (intro fields_disjoint) (auto simp: unat_of_nat64)
    then show ?thesis using rt(3) disjoint_ranges_not_both by (intro load_le_cong) (blast, simp)
  qed
  have L: "L = ucast p1"
    using keep [of 40] ldr(3) by (simp add: L_def hdr_ldr_mem_base_def load32_low)
  have "disjoint_ranges (h + 32) 8 (h + 40) 8" by (rule fields_disjoint) simp_all
  then have p1: "load64 (efi_mem s3) (h + 40) = p1"
    unfolding ldr(3) [symmetric] using rt(3) disjoint_ranges_not_both by (intro load_le_cong) (blast, simp)
  have R: "hdr_rt_mem_base (efi_mem s3) h = ucast p2"
    using rt(2) by (simp add: hdr_rt_mem_base_def load32_low)
  have E: "hdr_entry64_offset (efi_mem s3) h = image_field pkg k 20"
  proof -
    have "disjoint_ranges (h + 40) 8 (h + 20) 4" by (rule fields_disjoint) simp_all
    then have "load32 (efi_mem s2) (h + 20) = load32 (efi_mem s1) (h + 20)"
      using ldr(4) disjoint_ranges_not_both by (intro load_le_cong) (blast, simp)
    then show ?thesis using keep [of 20] mem_holds_field [OF m1, of k 20] fit by (simp add: hdr_entry64_offset_def h)
  qed
  have bytes: "efi_mem s3 (ia + of_nat i) = pkg ! i" if "i < length pkg" "i < 8 * k + 32 \<or> 8 * k + 48 \<le> i" for i
  proof -
    have "disjoint_ranges (ia + of_nat (8 * k + 32)) 16 (ia + of_nat i) 1"
      using that fit assms(3) by (intro fields_disjoint) (auto simp: unat_of_nat64 simp del: of_nat_add of_nat_mult)
    moreover have "in_range (ia + of_nat i) 1 (ia + of_nat i)" by (simp add: in_range_def)
    ultimately have out: "\<not> in_range (h + 32) 16 (ia + of_nat i)"
      using disjoint_ranges_not_both by (fastforce simp: h add.assoc)
    then have "\<not> in_range (h + 32) 8 (ia + of_nat i)" using in_range_mono by fastforce
    moreover have "\<not> in_range (h + 40) 8 (ia + of_nat i)"
      using out in_range_sub [of "h + 32" 8 8 "ia + of_nat i" 16] by (auto simp: add.assoc)
    ultimately show ?thesis using rt(3) ldr(4) m1 that(1) by (simp add: mem_holds_def)
  qed
  show ?thesis by (rule that [of p1 p2]) (use rt(1,2) ldr(2) L R E p1 bytes in \<open>simp_all add: nl_def nr_def L_def\<close>)
qed

text \<open>
  What a call of the loader with entry \<open>entry\<close>, platform information \<open>p\<close> and memory \<open>m\<close> finds, when the
  image \<open>pkg\<close> has its boot header at \<open>8 * k\<close> and the load-time and run-time memory were granted at \<open>p1\<close> and \<open>p2\<close>.
\<close>

definition ldr_pages :: "u8 list \<Rightarrow> nat \<Rightarrow> u64" where
  "ldr_pages pkg k = EFI_SIZE_TO_PAGES (ucast (image_field pkg k 44))"

definition rt_pages :: "u8 list \<Rightarrow> nat \<Rightarrow> u64" where
  "rt_pages pkg k = EFI_SIZE_TO_PAGES (ucast (image_field pkg k 36))"

definition loader_entered :: "u8 list \<Rightarrow> nat \<Rightarrow> u64 \<Rightarrow> u64 \<Rightarrow> addr \<Rightarrow> addr \<Rightarrow> mem \<Rightarrow> bool" where
  "loader_entered pkg k p1 p2 entry p m \<longleftrightarrow>
     ucast (pi_load_addr m p) = p1 \<and> pi_run_addr m p = ucast p2 \<and>
     entry = ucast (pi_load_addr m p + image_field pkg k 20) \<and>
     (\<forall>i < length pkg. i < 8 * k + 32 \<or> 8 * k + 48 \<le> i \<longrightarrow> m (p1 + of_nat i) = pkg ! i) \<and>
     load64 m (p1 + of_nat (8 * k + 32)) = p2 \<and> load64 m (p1 + of_nat (8 * k + 40)) = p1 \<and>
     disjoint_ranges p 4096 p1 (4096 * unat (ldr_pages pkg k))"

lemma call_page:
  assumes run: "run_loader F ia n h st = (err, pa, returned, st')" and none: "loader_calls (efi_calls st) = []"
    and c: "(entry, p, m) \<in> set (loader_calls (efi_calls st'))"
  shows "\<not> EFI_ERROR err" and "p = pa" and "vmx_support F = 0"
proof -
  show ok: "\<not> EFI_ERROR err" using run_loader_refused [OF run] none c by auto
  show "p = pa" "vmx_support F = 0"
    by (rule run_loader_page [OF run ok]; use none c quiet_allocate in \<open>fastforce simp: Let_def split: if_splits\<close>)+
qed

text \<open>An image in memory, both blocks granted: a call of the loader that follows.\<close>

lemma prepared_loader_call:
  assumes "pages_apart F" and "map_keeps_blocks F" and cp: "copies F"
    and "boot_at pkg k" and "length pkg + 1 < 2 ^ 32" and "length pkg + 1 \<le> unat (image_field pkg k 44)"
    and m1: "mem_holds (efi_mem s1) ia pkg" and b1: "blocks (efi_calls s1) = [(ia, na)]" and h: "h = ia + of_nat (8 * k)"
    and n: "unat n = length pkg + 1" and una: "length pkg + 1 \<le> 4096 * unat na" "4096 * unat na \<le> 2 ^ 32"
    and ldr: "allocate_ldr_mem F h s1 = (e1, s2)" "\<not> EFI_ERROR e1" and rt: "allocate_rt_mem F h s2 = (e2, s3)" "\<not> EFI_ERROR e2"
    and ldd: "run_loader F ia n h s3 = (e3, pa, returned, s4)"
    and c: "loader_calls (efi_calls s3) = []" "(entry, p, m) \<in> set (loader_calls (efi_calls s4))"
  shows "\<exists>p1 p2. blocks (efi_calls s4) = [(ia, na), (p1, ldr_pages pkg k), (p2, rt_pages pkg k), (p, EFI_SIZE_TO_PAGES 16)] \<and>
    (unat p1 < 2 ^ 32 \<longrightarrow> loader_entered pkg k p1 p2 entry p m)"
proof -
  have fit: "8 * k + 56 \<le> length pkg" using assms(4) by (simp add: boot_at_def)
  obtain p1 p2 where b3: "blocks (efi_calls s3) = [(ia, na), (p1, ldr_pages pkg k), (p2, rt_pages pkg k)]"
    and apart: "disjoint_ranges p1 (4096 * unat (ldr_pages pkg k)) ia (4096 * unat na)"
    and L: "hdr_ldr_mem_base (efi_mem s3) h = ucast p1" and R: "hdr_rt_mem_base (efi_mem s3) h = ucast p2"
    and W: "load64 (efi_mem s3) (h + 32) = p2" "load64 (efi_mem s3) (h + 40) = p1"
    and E: "hdr_entry64_offset (efi_mem s3) h = image_field pkg k 20"
    and bytes: "\<And>i. i < length pkg \<Longrightarrow> i < 8 * k + 32 \<or> 8 * k + 48 \<le> i \<Longrightarrow> efi_mem s3 (ia + of_nat i) = pkg ! i"
    using boot_prepared [OF assms(1,4,5) m1 b1 h ldr rt, folded ldr_pages_def rt_pages_def] by metis
  note page = call_page [OF ldd c]
  have blocks: "blocks (efi_calls s4) = [(ia, na), (p1, ldr_pages pkg k), (p2, rt_pages pkg k), (p, EFI_SIZE_TO_PAGES 16)]"
    using run_loader_blocks [OF ldd page(1)] b3 page(2) by auto
  have "loader_entered pkg k p1 p2 entry p m" if low: "unat p1 < 2 ^ 32"
  proof -
    let ?L = "ucast p1 :: u32"
    have L1: "ucast ?L = p1" using low_address [OF low] by simp
    have nl: "unat n \<le> 4096 * unat (ldr_pages pkg k)"
      using pages_cover [of "ucast (image_field pkg k 44)"] assms(6) n by (simp add: ldr_pages_def)
    have "\<exists>m. pi_load_addr m pa = ?L \<and> pi_run_addr m pa = hdr_rt_mem_base (efi_mem s3) h \<and>
      (\<forall>i < unat n. m (ucast ?L + of_nat i) = efi_mem s3 (ia + of_nat i)) \<and>
      (pa, EFI_SIZE_TO_PAGES 16) \<in> set (blocks (efi_calls s4)) \<and>
      disjoint_ranges pa 4096 (ucast ?L) (4096 * unat (ldr_pages pkg k)) \<and>
      loader_calls (efi_calls s4) = loader_calls (efi_calls s3) @
        (if vmx_support F \<noteq> 0 \<or> ?L + hdr_entry64_offset (efi_mem s3) h = 0 then []
         else [(ucast (?L + hdr_entry64_offset (efi_mem s3) h), pa, m)])"
      using b3 apart L L1 una n nl fit h
      by (intro run_loader_enters [OF assms(1,2) cp ldd page(1), of na ?L "ldr_pages pkg k" k]) (simp_all add: disjoint_ranges_sym)
    then have call: "entry = ucast (?L + image_field pkg k 20)" "pi_load_addr m p = ?L"
      "pi_run_addr m p = ucast p2" "\<forall>i < unat n. m (p1 + of_nat i) = efi_mem s3 (ia + of_nat i)"
      "disjoint_ranges p 4096 p1 (4096 * unat (ldr_pages pkg k))"
      using c L1 R unfolding E by (auto split: if_splits)
    have word: "load64 m (p1 + of_nat (8 * k + v)) = load64 (efi_mem s3) (h + of_nat v)" if "v + 8 \<le> 56" for v
    proof -
      have "m (p1 + of_nat (8 * k + v) + of_nat j) = efi_mem s3 (h + of_nat v + of_nat j)" if "j < 8" for j
      proof -
        have "8 * k + v + j < unat n" using that \<open>v + 8 \<le> 56\<close> fit n by simp
        then have "m (p1 + of_nat (8 * k + v + j)) = efi_mem s3 (ia + of_nat (8 * k + v + j))" using call(4) by blast
        then show ?thesis by (simp add: h add.assoc)
      qed
      then have "read_bytes m (p1 + of_nat (8 * k + v)) 8 = read_bytes (efi_mem s3) (h + of_nat v) 8"
        by (intro nth_equalityI) simp_all
      then show ?thesis by (simp add: load_le_def)
    qed
    show ?thesis using call bytes n L1 word [of 32] word [of 40] W by (simp add: loader_entered_def)
  qed
  then show ?thesis using blocks by blast
qed

text \<open>
  The calls of the loader in a run of the application, and the blocks that the firmware granted in it: for the file,
  the load-time memory, the run-time memory and the platform information. The file and the platform information lie below
  1 GB; where the other two lie is up to the firmware.
\<close>

lemma efi_main_loader_call:
  assumes "pages_as_asked F" and "pages_apart F" and "map_keeps_blocks F" and "delivers F pkg" and cp: "copies F"
    and "boot_at pkg k" and "length pkg + 1 < 2 ^ 32" and "length pkg + 1 \<le> unat (image_field pkg k 44)"
    and "efi_calls st = []" and "efi_main F st = Some r" and "(entry, p, m) \<in> set (loader_calls (end_calls r))"
  shows "vmx_support F = 0 \<and> (\<exists>ia na p1 p2.
    blocks (end_calls r) = [(ia, na), (p1, ldr_pages pkg k), (p2, rt_pages pkg k), (p, EFI_SIZE_TO_PAGES 16)] \<and>
    (unat p1 < 2 ^ 32 \<longrightarrow> loader_entered pkg k p1 p2 entry p m))"
proof -
  have none: "loader_calls (efi_calls st) = []" using assms(9) by simp
  obtain e ia n s1 where l: "load_image_file F st = Some (e, ia, n, s1)"
    and r: "(if EFI_ERROR e then Some (efi_return (efi_out F e ia n HIGH_ADDR False 0 s1)) else boot_image F e ia n s1) = Some r"
    using assms(10,11) none by (auto simp: efi_main_def split: prod.splits if_splits option.splits)
  have q1: "loader_calls (efi_calls s1) = []" using quiet_load_image [OF l] none by simp
  have ok: "\<not> EFI_ERROR e"
  proof
    assume e: "EFI_ERROR e"
    obtain s t where out: "efi_out F e ia n HIGH_ADDR False 0 s1 = (s, t)" by fastforce
    then have "r = Returns s t" using r e by simp
    then show False using quiet_out [OF out] q1 assms(11) by simp
  qed
  then have boot: "boot_image F e ia n s1 = Some r" using r by simp
  define na where "na = EFI_SIZE_TO_PAGES (of_nat (length pkg + 1))"
  note img = load_image_file_holds [OF assms(1,4,7) l ok, folded na_def]
  then have n: "unat n = length pkg + 1" and ia: "unat ia < 2 ^ 32" and m1: "mem_holds (efi_mem s1) ia pkg"
    and b1: "blocks (efi_calls s1) = [(ia, na)]" using assms(9) by simp_all
  have una: "length pkg + 1 \<le> 4096 * unat na" "4096 * unat na \<le> 2 ^ 32"
  proof -
    have "unat (of_nat (length pkg + 1) :: u64) = length pkg + 1" using assms(7) by (intro unat_of_nat64) simp
    then show "length pkg + 1 \<le> 4096 * unat na" unfolding na_def using pages_cover [of "of_nat (length pkg + 1)"] by simp
    show "4096 * unat na \<le> 2 ^ 32" using img by simp
  qed
  show ?thesis using boot
  proof (cases rule: boot_image_cases)
    case stop
    then show ?thesis using q1 quiet_out [OF stop(1)] assms(11) by simp
  next
    case (run h e1 s2 e2 s3 e3 pa returned s4)
    have "find_header (efi_mem s1) (ucast (ucast ia :: u32)) n = Some (ucast (ucast ia :: u32) + of_nat (8 * k))"
      by (rule find_header_first [OF _ assms(6)]) (use m1 low_address [OF ia] n in simp_all)
    then have h: "h = ia + of_nat (8 * k)" using run(1) low_address [OF ia] by simp
    have q3: "loader_calls (efi_calls s3) = []" using q1 quiet_boot(1) [OF run(3)] quiet_boot(2) [OF run(5)] by simp
    have same: "loader_calls (end_calls r) = loader_calls (efi_calls s4) \<and> blocks (end_calls r) = blocks (efi_calls s4)"
      using run(8) quiet_out blocks_out by (cases returned; cases "efi_out F e3 ia n pa True h s4") auto
    then have c: "(entry, p, m) \<in> set (loader_calls (efi_calls s4))" using assms(11) by simp
    from prepared_loader_call [OF assms(2,3) cp assms(6-8) m1 b1 h n una run(3-7) q3 c] call_page(3) [OF run(7) q3 c]
    show ?thesis using same by auto
  qed
qed

text \<open>
  C5: On firmware that grants pages as asked for and apart, keeps its blocks over the memory map, copies memory, and delivers
  a file with a boot header whose load-time size has room for it: whenever the loader is called, it has granted four blocks: for the file, a load-time block and a
  run-time block of the boot header's sizes, and the page of the platform information. If the load-time block was granted
  below 4 GB (which the code does not ask for: it passes the size field as the upper half of the address and of the limit),
  the platform information names it and the low half of the run-time block's address, the block holds
  the package, except the four words of the boot header that receive the two addresses, and the call goes
  to the header's 64-bit entry in it.
\<close>

theorem efi_main_enters_starter:
  assumes "pages_as_asked F" and "pages_apart F" and "map_keeps_blocks F" and "delivers F pkg" and cp: "copies F"
    and "boot_at pkg k" and "length pkg + 1 < 2 ^ 32" and "length pkg + 1 \<le> unat (image_field pkg k 44)"
    and "efi_calls st = []" and "efi_main F st = Some r" and "(entry, p, m) \<in> set (loader_calls (end_calls r))"
  shows "\<exists>ia na p1 p2.
    blocks (end_calls r) = [(ia, na), (p1, ldr_pages pkg k), (p2, rt_pages pkg k), (p, EFI_SIZE_TO_PAGES 16)] \<and>
    (unat p1 < 2 ^ 32 \<longrightarrow>
       ucast (pi_load_addr m p) = p1 \<and> pi_run_addr m p = ucast p2 \<and>
       entry = ucast (pi_load_addr m p + image_field pkg k 20) \<and>
       (\<forall>i < length pkg. i < 8 * k + 32 \<or> 8 * k + 48 \<le> i \<longrightarrow> m (p1 + of_nat i) = pkg ! i))"
  using efi_main_loader_call [OF assms] unfolding loader_entered_def by blast

section \<open>The size field is part of the address\<close>

text \<open>
  The fields are 32 bits wide, the service's parameter is 64 bits wide: the preferred address that the firmware gets
  has the size in its upper half, and a successful allocation sets the size to zero, so that the
  release at the end gives returned no page of the load-time memory.
\<close>

lemma load32_high: "load32 m (a + 4) = ucast (drop_bit 32 (load64 m a))"
  by (rule bit_word_eqI) (auto simp: load64_halves bit_simps dest: bit_imp_le_length)

lemma drop_bit_ucast_low: "drop_bit 32 (ucast (x :: u32) :: u64) = 0"
  by (rule bit_word_eqI) (auto simp: bit_simps dest: bit_imp_le_length)

lemma allocate_ldr_mem_request:
  "\<exists>r. hd (drop (length (efi_calls st)) (efi_calls (snd (allocate_ldr_mem F h st)))) =
    Allocate_Pages AllocateAddress EfiLoaderData (EFI_SIZE_TO_PAGES (ucast (hdr_ldr_mem_size (efi_mem st) h)))
      (ucast (hdr_ldr_mem_base (efi_mem st) h) OR push_bit 32 (ucast (hdr_ldr_mem_size (efi_mem st) h))) r"
  by (auto simp: allocate_ldr_mem_def allocate_mem_def allocate_pages_at_def allocate_pages_def Let_def load64_halves
      hdr_ldr_mem_base_def hdr_ldr_mem_size_def add.assoc split: prod.splits)

text \<open>The size field becomes the upper half of the granted address: zero for a block below 4 GB.\<close>

lemma ldr_size_lost:
  assumes "pages_apart F" and "allocate_ldr_mem F h st = (e, st')" and "\<not> EFI_ERROR e"
  shows "\<exists>p n. blocks (efi_calls st') = blocks (efi_calls st) @ [(p, n)] \<and> hdr_ldr_mem_size (efi_mem st') h = ucast (drop_bit 32 p) \<and>
    (unat p < 2 ^ 32 \<longrightarrow> EFI_SIZE_TO_PAGES (ucast (hdr_ldr_mem_size (efi_mem st') h)) = 0)"
proof -
  obtain p n where p: "blocks (efi_calls st') = blocks (efi_calls st) @ [(p, n)]" "load64 (efi_mem st') (h + 40) = p"
    using allocate_mem_granted [OF assms(1,2) [unfolded allocate_ldr_mem_def] assms(3)] by auto
  have size: "hdr_ldr_mem_size (efi_mem st') h = ucast (drop_bit 32 p)"
    using load32_high [of "efi_mem st'" "h + 40"] p(2) by (simp add: hdr_ldr_mem_size_def add.assoc)
  have "drop_bit 32 p = 0" if "unat p < 2 ^ 32"
    using low_address [OF that] drop_bit_ucast_low by metis
  then show ?thesis using p(1) size by (auto simp: EFI_SIZE_TO_PAGES_def)
qed

text \<open>
  The limit of the second attempt has the size in its upper half, so that a block at or above 4 GB is within it
  whenever the size is not zero; its address does not fit the field that the loader's address is taken from.
\<close>

lemma or_upper_half:
  "unat (ucast (x :: u32) OR push_bit 32 (ucast (y :: u32)) :: u64) = unat x + 2 ^ 32 * unat y"
proof -
  have "(ucast x OR push_bit 32 (ucast y) :: u64) = ucast x + push_bit 32 (ucast y)"
    by (rule disjunctive_add [symmetric]) (auto simp: bit_simps dest: bit_imp_le_length)
  moreover have "unat (push_bit 32 (ucast y) :: u64) = 2 ^ 32 * unat y"
    using unat_less32 [of y] by (simp add: push_bit_eq_mult unat_word_ariths unat_ucast_u32_u64)
  moreover have "a < 2 ^ 32 \<Longrightarrow> b < 2 ^ 32 \<Longrightarrow> a + 2 ^ 32 * b < 2 ^ 64" for a b :: nat by simp
  from this [OF unat_less32 [of x] unat_less32 [of y]] have "unat x + 2 ^ 32 * unat y < 2 ^ 64" .
  ultimately show ?thesis by (simp only: unat_add64 unat_ucast_u32_u64 mod_less)
qed

lemma max_address_limit:
  assumes "hdr_ldr_mem_size m h \<noteq> 0"
  shows "2 ^ 32 \<le> unat (load64 (store32 m (h + 40) (ucast HIGH_ADDR)) (h + 40))"
proof -
  have "disjoint_ranges (h + 40 + 0) 4 (h + 40 + 4) 4" by (rule fields_disjoint) simp_all
  then have "load32 (store32 m (h + 40) (ucast HIGH_ADDR)) (h + 40 + 4) = hdr_ldr_mem_size m h"
    by (simp add: load_store_disjoint hdr_ldr_mem_size_def add.assoc)
  moreover have "0 < unat (hdr_ldr_mem_size m h)" using assms by (simp add: unat_gt_0)
  moreover have "0 < b \<Longrightarrow> 2 ^ 32 \<le> a + 2 ^ 32 * b" for a b :: nat by simp
  ultimately show ?thesis unfolding load64_halves or_upper_half by metis
qed

section \<open>A small firmware\<close>

text \<open>Memory at 0x4000000, 0x8000000 and so on, at most 64 MB each and within the limit, and only where the application does not care.\<close>

definition demo_fw :: "u8 list \<Rightarrow> firmware" where
  "demo_fw pkg =
     \<lparr>fw_open_protocol = (0, True), fw_open_root = True, fw_open_file = (0, True), fw_file_size = of_nat (length pkg),
      fw_allocate = (\<lambda>calls t mt n a.
        let p = 0x4000000 * (of_nat (length (blocks calls)) + 1) in
        if t = AllocateMaxAddress \<and> n \<le> 0x4000 \<and> length (blocks calls) \<le> 4 \<and> unat p + 4096 * unat n \<le> unat a + 1 \<and>
           list_all (\<lambda>b. disjoint_ranges p (4096 * unat n) (fst b) (4096 * unat (snd b))) (blocks calls)
        then (0, p) else (0x8000000000000009, 0)),
      fw_read = (\<lambda>n p m. (0, store_bytes m p pkg)),
      fw_free = (\<lambda>calls m. m), fw_memory_map = (\<lambda>calls m. (0x5000, 4, 48, m)),
      fw_copy_mem = (\<lambda>m d s n x. if in_range d n x then m (s + (x - d)) else m x), fw_cpuid_rcx = 0x20, fw_feature_control = 5, fw_loader = (\<lambda>entry p m. Some m)\<rparr>"

lemma demo_parts:
  "fw_open_file (demo_fw pkg) = (0, True)" "fw_file_size (demo_fw pkg) = of_nat (length pkg)" "fw_open_root (demo_fw pkg)"
  "fw_open_protocol (demo_fw pkg) = (0, True)" "fw_read (demo_fw pkg) = (\<lambda>n p m. (0, store_bytes m p pkg))" "vmx_support (demo_fw pkg) = 0"
  by (simp_all add: demo_fw_def vmx_support_def)

lemma status_codes [simp]: "\<not> EFI_ERROR 0" "EFI_ERROR 0x8000000000000009" "EFI_ERROR 0x800000000000000E"
  by (simp_all add: EFI_ERROR_def)

definition demo_block :: "nat \<Rightarrow> u64" where "demo_block j = 0x4000000 * (of_nat j + 1)"

lemma demo_address: "j \<le> 4 \<Longrightarrow> unat (demo_block j) = 0x4000000 * (j + 1)"
proof -
  assume j: "j \<le> 4"
  have "demo_block j = of_nat (0x4000000 * (j + 1))" by (simp add: demo_block_def)
  moreover have "unat (of_nat (0x4000000 * (j + 1)) :: u64) = 0x4000000 * (j + 1)" using j by (intro unat_of_nat64) simp
  ultimately show ?thesis by (simp only:)
qed

lemma demo_grants:
  assumes "fw_allocate (demo_fw pkg) calls t mt n a = (s, p)" and "\<not> EFI_ERROR s"
  shows "p = demo_block (length (blocks calls))" and "n \<le> 0x4000" and "length (blocks calls) \<le> 4" and "t = AllocateMaxAddress"
    and "unat p + 4096 * unat n \<le> unat a + 1"
    and "list_all (\<lambda>b. disjoint_ranges p (4096 * unat n) (fst b) (4096 * unat (snd b))) (blocks calls)"
  using assms by (auto simp: demo_fw_def demo_block_def Let_def split: if_splits)

text \<open>The blocks in the order they are granted lie apart.\<close>

definition demo_blocks :: "u64 list \<Rightarrow> (u64 \<times> u64) list" where
  "demo_blocks ns = zip (map demo_block [0 ..< length ns]) ns"

lemma demo_blocks_snoc: "demo_blocks ns @ [(demo_block (length ns), n)] = demo_blocks (ns @ [n])"
  by (simp add: demo_blocks_def)

lemma length_demo_blocks [simp]: "length (demo_blocks ns) = length ns"
  by (simp add: demo_blocks_def)

lemma demo_block_apart:
  fixes n k :: u64
  assumes "i < j" and "j \<le> 4" and "n \<le> 0x4000" and "k \<le> 0x4000"
  shows "disjoint_ranges (demo_block j) (4096 * unat n) (demo_block i) (4096 * unat k)"
proof (rule disjoint_rangesI)
  have u: "unat n \<le> 0x4000" "unat k \<le> 0x4000" using assms(3,4) by (simp_all add: word_le_nat_alt)
  note a = demo_address [of i] demo_address [OF assms(2)]
  fix x assume "in_range (demo_block j) (4096 * unat n) x" "in_range (demo_block i) (4096 * unat k) x"
  then have "unat (demo_block j) \<le> unat x" "unat x < unat (demo_block i) + 4096 * unat k"
    using in_range_linear [of "demo_block j" "4096 * unat n" x] in_range_linear [of "demo_block i" "4096 * unat k" x] a u assms(1,2) by simp_all
  then show False using a u assms(1,2) by simp
qed

lemma demo_allocate:
  assumes "blocks (efi_calls st) = demo_blocks ns" and "length ns \<le> 4" and "\<forall>k \<in> set (n # ns). k \<le> 0x4000"
    and "unat HIGH_ADDR \<le> unat a"
  shows "\<exists>st'. allocate_pages (demo_fw pkg) AllocateMaxAddress mt n a st = (0, demo_block (length ns), st')"
proof -
  have "unat (demo_block (length ns)) \<le> 0x14000000" "unat n \<le> 0x4000"
    using demo_address [OF assms(2)] assms(2,3) by (simp_all add: word_le_nat_alt)
  then have limit: "unat (demo_block (length ns)) + 4096 * unat n \<le> unat a + 1" using assms(4) by (simp add: HIGH_ADDR_def)
  have "disjoint_ranges (demo_block (length ns)) (4096 * unat n) (fst b) (4096 * unat (snd b))" if "b \<in> set (demo_blocks ns)" for b
    using that assms(2,3) by (auto simp: demo_blocks_def set_zip intro!: demo_block_apart)
  then have "list_all (\<lambda>b. disjoint_ranges (demo_block (length ns)) (4096 * unat n) (fst b) (4096 * unat (snd b))) (demo_blocks ns)"
    by (simp add: list_all_iff)
  then show ?thesis using assms limit by (simp add: allocate_pages_def demo_fw_def demo_block_def Let_def)
qed

lemma demo_laws:
  "pages_as_asked (demo_fw pkg)" "pages_apart (demo_fw pkg)" "map_keeps_blocks (demo_fw pkg)" "copies (demo_fw pkg)" "delivers (demo_fw pkg) pkg"
proof -
  show "pages_as_asked (demo_fw pkg)"
    unfolding pages_as_asked_def
  proof (intro allI impI, elim conjE)
    fix calls t mt n a s p assume g: "fw_allocate (demo_fw pkg) calls t mt n a = (s, p)" "\<not> EFI_ERROR s"
    have "unat n \<le> 0x4000" using demo_grants(2) [OF g] by (simp add: word_le_nat_alt)
    then show "unat p + 4096 * unat n \<le> 2 ^ 64 \<and> (t = AllocateAddress \<longrightarrow> p = a) \<and>
        (t = AllocateMaxAddress \<longrightarrow> unat p + 4096 * unat n \<le> unat a + 1)"
      using demo_grants(1,3,4,5) [OF g] demo_address [of "length (blocks calls)"] by simp
  qed
  show "pages_apart (demo_fw pkg)" unfolding pages_apart_def using demo_grants(6) by (fastforce simp: list_all_iff)
  show "map_keeps_blocks (demo_fw pkg)" by (simp add: map_keeps_blocks_def demo_fw_def)
  show "copies (demo_fw pkg)" by (simp add: copies_def demo_fw_def)
  show "delivers (demo_fw pkg) pkg" by (simp add: delivers_def demo_fw_def)
qed

lemma demo_allocate_at:
  assumes "blocks (efi_calls st) = demo_blocks ns" and "length ns \<le> 4" and "\<forall>k \<in> set (n # ns). k \<le> 0x4000"
    and "load32 (efi_mem st) q = ucast HIGH_ADDR"
  shows "\<exists>st'. allocate_pages_at (demo_fw pkg) AllocateMaxAddress mt n q st = (0, st') \<and>
    blocks (efi_calls st') = demo_blocks (ns @ [n])"
proof -
  have limit: "unat HIGH_ADDR \<le> unat (load64 (efi_mem st) q)"
    unfolding load64_halves or_upper_half assms(4) by (simp add: HIGH_ADDR_def)
  obtain st' where a: "allocate_pages (demo_fw pkg) AllocateMaxAddress mt n (load64 (efi_mem st) q) st = (0, demo_block (length ns), st')"
    using demo_allocate [OF assms(1-3) limit] by blast
  then show ?thesis using allocate_pages_granted [OF a status_codes(1)] assms(1)
    by (simp add: allocate_pages_at_def demo_blocks_snoc)
qed

lemma demo_allocate_mem:
  assumes "n = EFI_SIZE_TO_PAGES (ucast (load32 (efi_mem st) (h + off + 4)))"
    and "blocks (efi_calls st) = demo_blocks ns" and "length ns \<le> 4" and "\<forall>k \<in> set (n # ns). k \<le> 0x4000"
  shows "\<exists>st'. allocate_mem (demo_fw pkg) mt off h st = (0, st') \<and> blocks (efi_calls st') = demo_blocks (ns @ [n])"
proof -
  obtain s1 where a: "allocate_pages_at (demo_fw pkg) AllocateAddress mt n (h + off) st = (0x8000000000000009, s1)"
    by (simp add: allocate_pages_at_def allocate_pages_def demo_fw_def)
  note r = allocate_pages_at_refused [OF a status_codes(2)]
  let ?s2 = "s1\<lparr>efi_mem := store32 (efi_mem s1) (h + off) (ucast HIGH_ADDR)\<rparr>"
  have "disjoint_ranges (h + off + 0) 4 (h + off + 4) 4" by (rule fields_disjoint) simp_all
  then have "load32 (efi_mem ?s2) (h + off + 4) = load32 (efi_mem st) (h + off + 4)" using r by (simp add: load_store_disjoint)
  moreover have "\<exists>st'. allocate_pages_at (demo_fw pkg) AllocateMaxAddress mt n (h + off) ?s2 = (0, st') \<and>
      blocks (efi_calls st') = demo_blocks (ns @ [n])"
    by (rule demo_allocate_at) (use r assms(2-4) in simp_all)
  ultimately show ?thesis using a assms(1) by (simp add: allocate_mem_def Let_def)
qed

definition demo_efi :: efi where "demo_efi = \<lparr>efi_mem = (\<lambda>_. 0), efi_calls = []\<rparr>"

text \<open>An image the small firmware boots.\<close>

definition demo_bootable :: "u8 list \<Rightarrow> nat \<Rightarrow> bool" where
  "demo_bootable pkg k \<longleftrightarrow> boot_at pkg k \<and> length pkg < 0x2000 \<and> length pkg + 1 \<le> unat (image_field pkg k 44) \<and>
     image_field pkg k 44 \<le> 0x4000000 \<and> image_field pkg k 36 \<le> 0x4000000 \<and> image_field pkg k 20 < 0x1000"

lemma pages_small: "v \<le> 0x4000000 \<Longrightarrow> EFI_SIZE_TO_PAGES (ucast (v :: u32)) \<le> 0x4000"
  by (simp add: word_le_nat_alt pages_count unat_ucast_u32_u64)

definition demo_pages :: "u8 list \<Rightarrow> nat \<Rightarrow> u64 list" where
  "demo_pages pkg k = [EFI_SIZE_TO_PAGES (of_nat (length pkg + 1)), EFI_SIZE_TO_PAGES (ucast (image_field pkg k 44)),
     EFI_SIZE_TO_PAGES (ucast (image_field pkg k 36))]"

lemma demo_pages_small:
  assumes "demo_bootable pkg k"
  shows "\<forall>n \<in> set (demo_pages pkg k). n \<le> 0x4000" and "unat (of_nat (length pkg + 1) :: u64) = length pkg + 1"
proof -
  note demo = assms [unfolded demo_bootable_def]
  show len: "unat (of_nat (length pkg + 1) :: u64) = length pkg + 1" using demo by (intro unat_of_nat64) simp
  then show "\<forall>n \<in> set (demo_pages pkg k). n \<le> 0x4000"
    using demo pages_small by (auto simp: demo_pages_def word_le_nat_alt pages_count unat_ucast_u32_u64)
qed

lemma demo_prepared:
  assumes "demo_bootable pkg k"
  defines "ns \<equiv> demo_pages pkg k"
  obtains n s1 s2 s3 where "load_image_file (demo_fw pkg) demo_efi = Some (0, demo_block 0, n, s1)"
    and "find_header (efi_mem s1) (demo_block 0) n = Some (demo_block 0 + of_nat (8 * k))"
    and "allocate_ldr_mem (demo_fw pkg) (demo_block 0 + of_nat (8 * k)) s1 = (0, s2)"
    and "allocate_rt_mem (demo_fw pkg) (demo_block 0 + of_nat (8 * k)) s2 = (0, s3)"
    and "blocks (efi_calls s3) = demo_blocks ns" and "unat n = length pkg + 1"
    and "hdr_ldr_mem_base (efi_mem s3) (demo_block 0 + of_nat (8 * k)) = ucast (demo_block 1)"
    and "hdr_entry64_offset (efi_mem s3) (demo_block 0 + of_nat (8 * k)) = image_field pkg k 20"
proof -
  note demo = assms(1) [unfolded demo_bootable_def]
  let ?ia = "demo_block 0" and ?h = "demo_block 0 + of_nat (8 * k)"
  note small = demo_pages_small(1) [OF assms(1), folded ns_def] and len = demo_pages_small(2) [OF assms(1)]
  obtain s0 where a: "allocate_pages (demo_fw pkg) AllocateMaxAddress EfiLoaderData (ns ! 0) HIGH_ADDR demo_efi = (0, ?ia, s0)"
    using demo_allocate [where st = demo_efi and ns = "[]" and n = "ns ! 0" and a = HIGH_ADDR] small
    by (fastforce simp: demo_efi_def demo_blocks_def ns_def demo_pages_def)
  obtain n s1 where l: "load_image_file (demo_fw pkg) demo_efi = Some (0, ?ia, n, s1)"
    using a by (simp add: load_image_file_def demo_parts Let_def ns_def demo_pages_def add.commute)
  have "length pkg + 1 < 2 ^ 32" using demo by simp
  note img = load_image_file_holds [OF demo_laws(1,5) this l status_codes(1)]
  have n: "unat n = length pkg + 1" and m1: "mem_holds (efi_mem s1) ?ia pkg" and b1: "blocks (efi_calls s1) = demo_blocks (take 1 ns)"
    using img by (simp_all add: demo_efi_def demo_blocks_def ns_def demo_pages_def)
  have low: "ucast (ucast ?ia :: u32) = ?ia" using low_address [of ?ia] demo_address [of 0] by simp
  have f: "find_header (efi_mem s1) ?ia n = Some ?h"
    using find_header_first [of "efi_mem s1" "ucast ?ia" pkg k n] m1 demo n by (simp add: low)
  have fit: "8 * k + 56 \<le> length pkg" using demo by (simp add: boot_at_def)
  have "load32 (efi_mem s1) (?h + 40 + 4) = image_field pkg k 44" "load32 (efi_mem s1) (?h + 36) = image_field pkg k 36"
    using mem_holds_field [OF m1, of k 44] mem_holds_field [OF m1, of k 36] fit by (simp_all add: add.assoc)
  note field = this
  obtain s2 where ldr: "allocate_ldr_mem (demo_fw pkg) ?h s1 = (0, s2)" and b2: "blocks (efi_calls s2) = demo_blocks (take 2 ns)"
    using demo_allocate_mem [OF _ b1, of "ns ! 1" ?h 40 pkg EfiLoaderData] field small
    by (auto simp: allocate_ldr_mem_def ns_def demo_pages_def)
  obtain s3 where rt: "allocate_rt_mem (demo_fw pkg) ?h s2 = (0, s3)" and b3: "blocks (efi_calls s3) = demo_blocks ns"
    using demo_allocate_mem [OF _ b2, of "ns ! 2" ?h 32 pkg EfiReservedMemoryType] small field(2)
      ldr_keeps_rt_size [OF demo_laws(2) ldr status_codes(1)]
    by (auto simp: allocate_rt_mem_def ns_def demo_pages_def)
  obtain p1 p2 where prep: "blocks (efi_calls s3) = [(?ia, ns ! 0), (p1, ns ! 1), (p2, ns ! 2)]"
      "hdr_ldr_mem_base (efi_mem s3) ?h = ucast p1" "hdr_entry64_offset (efi_mem s3) ?h = image_field pkg k 20"
    using boot_prepared [OF demo_laws(2) conjunct1 [OF demo] _ m1 _ refl ldr status_codes(1) rt status_codes(1), of "ns ! 0"]
      b1 demo by (auto simp: demo_blocks_def ns_def demo_pages_def)
  then have "p1 = demo_block 1" using b3 by (simp add: demo_blocks_def ns_def demo_pages_def)
  with prep(2,3) b3 show ?thesis using that [OF l f ldr rt] n by simp
qed

text \<open>The page for the platform information, the last block that the demonstration firmware grants.\<close>

lemma demo_loader_page:
  assumes "demo_bootable pkg k" and b3: "blocks (efi_calls s3) = demo_blocks (demo_pages pkg k)"
    and ldd: "run_loader (demo_fw pkg) img n h s3 = (e3, pa, returned, s4)"
  shows "e3 = 0" and "blocks (efi_calls s4) = demo_blocks (demo_pages pkg k @ [1])"
proof -
  let ?F = "demo_fw pkg"
  note small = demo_pages_small(1) [OF assms(1)]
  have b: "blocks (efi_calls (s3\<lparr>efi_mem := M\<rparr>)) = demo_blocks (demo_pages pkg k)" for M using b3 by simp
  have page: "EFI_SIZE_TO_PAGES 16 = 1" by (simp add: EFI_SIZE_TO_PAGES_def)
  have alloc: "\<exists>st'. allocate_pages ?F AllocateMaxAddress EfiLoaderData 1 HIGH_ADDR (s3\<lparr>efi_mem := M\<rparr>) = (0, demo_block 3, st')" for M
    using demo_allocate [OF b, of 1 HIGH_ADDR pkg EfiLoaderData] small by (simp add: demo_pages_def numeral_3_eq_3)
  obtain M b s' where "allocate_pages ?F AllocateMaxAddress EfiLoaderData (EFI_SIZE_TO_PAGES 16) HIGH_ADDR
      (s3\<lparr>efi_mem := M\<rparr>) = (e3, b, s')"
    using ldd by (auto simp: run_loader_def Let_def split: prod.splits if_splits option.splits)
  with alloc show e3: "e3 = 0" unfolding page by (metis prod.inject)
  then have "\<not> EFI_ERROR e3" by simp
  from run_loader_blocks [OF ldd this] obtain s5 where a: "allocate_pages ?F AllocateMaxAddress EfiLoaderData 1 HIGH_ADDR
      (s3\<lparr>efi_mem := image_copied ?F img n h (efi_mem s3)\<rparr>) = (0, pa, s5)"
    and calls: "blocks (efi_calls s4) = blocks (efi_calls s5)"
    by (auto simp: e3 page)
  from alloc [of "image_copied ?F img n h (efi_mem s3)"] a have "pa = demo_block (length (demo_pages pkg k))"
    by (simp add: demo_pages_def numeral_3_eq_3)
  then show "blocks (efi_calls s4) = demo_blocks (demo_pages pkg k @ [1])"
    using allocate_pages_granted [OF a] b calls demo_blocks_snoc by simp
qed

lemma demo_header_address:
  assumes "demo_bootable pkg k"
  shows "demo_block 0 + of_nat (8 * k) \<noteq> 0" and "ucast (demo_block 1) + image_field pkg k 20 \<noteq> 0"
proof -
  note demo = assms [unfolded demo_bootable_def]
  have "unat (of_nat (8 * k) :: u64) = 8 * k" using demo by (intro unat_of_nat64) (simp add: boot_at_def)
  moreover have "8 * k < 0x2000" using demo by (simp add: boot_at_def)
  ultimately show "demo_block 0 + of_nat (8 * k) \<noteq> 0"
    using demo_address [of 0] unat_add_offset [of "demo_block 0" "8 * k"] by (intro notI) simp
  have "unat (ucast (demo_block 1) :: u32) = 0x8000000" using demo_address [of 1] by (simp add: unat_ucast_u64_u32)
  moreover have "unat (image_field pkg k 20) < 0x1000" using demo by (simp add: word_less_nat_alt)
  ultimately have "unat (ucast (demo_block 1) + image_field pkg k 20 :: u32) \<noteq> 0" by (simp add: unat_word_ariths)
  then show "ucast (demo_block 1) + image_field pkg k 20 \<noteq> 0" by auto
qed

lemma demo_loader_called:
  assumes demo: "demo_bootable pkg k" and b3: "blocks (efi_calls s3) = demo_blocks (demo_pages pkg k)"
    and hdr: "hdr_ldr_mem_base (efi_mem s3) (demo_block 0 + of_nat (8 * k)) = ucast (demo_block 1)"
      "hdr_entry64_offset (efi_mem s3) (demo_block 0 + of_nat (8 * k)) = image_field pkg k 20"
    and quiet: "loader_calls (efi_calls s3) = []" and n: "unat n = length pkg + 1"
    and ldd: "run_loader (demo_fw pkg) (demo_block 0) n (demo_block 0 + of_nat (8 * k)) s3 = (e3, pa, returned, s4)"
  shows "returned" and "\<exists>m. loader_calls (efi_calls s4) = [(ucast (ucast (demo_block 1) + image_field pkg k 20 :: u32), pa, m)]"
proof -
  let ?F = "demo_fw pkg" and ?h = "demo_block 0 + of_nat (8 * k)" and ?ns = "demo_pages pkg k"
  note small = demo_pages_small [OF demo] and parts = demo [unfolded demo_bootable_def]
  have apart: "disjoint_ranges (demo_block 0) (4096 * unat (?ns ! 0)) (demo_block 1) (4096 * unat (?ns ! 1))"
    using demo_block_apart [of 0 1] small(1) by (simp add: demo_pages_def disjoint_ranges_sym)
  have ub: "ucast (ucast (demo_block 1) :: u32) = demo_block 1" using low_address [of "demo_block 1"] demo_address [of 1] by simp
  have "length pkg < 0x2000" using parts by simp
  then have "(4096 + length pkg) div 4096 \<le> 2" by linarith
  then have "unat (?ns ! 0) \<le> 2" using small(2) by (simp add: demo_pages_def pages_count)
  then have "unat n \<le> 4096 * unat (?ns ! 0)" "unat n \<le> 4096 * unat (?ns ! 1)" "4096 * unat (?ns ! 0) \<le> 2 ^ 32"
    using n small(2) parts pages_cover [of "of_nat (length pkg + 1)"] pages_cover [of "ucast (image_field pkg k 44)"]
    by (simp_all add: demo_pages_def)
  moreover have "8 * k + 56 \<le> unat n" using parts n by (simp add: boot_at_def)
  moreover have "(demo_block 0, ?ns ! 0) \<in> set (blocks (efi_calls s3))" "(ucast (ucast (demo_block 1) :: u32), ?ns ! 1) \<in> set (blocks (efi_calls s3))"
    unfolding ub b3 by (simp_all add: demo_blocks_def demo_pages_def)
  ultimately have "\<exists>m. loader_calls (efi_calls s4) = loader_calls (efi_calls s3) @
    (if vmx_support ?F \<noteq> 0 \<or> ucast (demo_block 1) + hdr_entry64_offset (efi_mem s3) ?h = 0 then []
     else [(ucast (ucast (demo_block 1) + hdr_entry64_offset (efi_mem s3) ?h :: u32), pa, m)])"
    using run_loader_enters [OF demo_laws(2-4) ldd, of "?ns ! 0" "ucast (demo_block 1)" "?ns ! 1" k] apart hdr(1)
      demo_loader_page(1) [OF demo b3 ldd]
    unfolding ub by fastforce
  then show "\<exists>m. loader_calls (efi_calls s4) = [(ucast (ucast (demo_block 1) + image_field pkg k 20 :: u32), pa, m)]"
    using demo_header_address(2) [OF demo] unfolding quiet hdr(2) demo_parts(6) by simp
  show "returned" using run_loader_calls [OF ldd] by (auto simp: demo_fw_def)
qed

lemma demo_boot:
  assumes "demo_bootable pkg k"
  obtains err st' entry p m where "efi_main (demo_fw pkg) demo_efi = Some (Returns err st')"
    and "loader_calls (efi_calls st') = [(entry, p, m)]"
    and "\<exists>ns. blocks (efi_calls st') = demo_blocks ns \<and> length ns = 4 \<and> (\<forall>n \<in> set ns. n \<le> 0x4000)"
proof -
  let ?F = "demo_fw pkg" and ?h = "demo_block 0 + of_nat (8 * k)"
  obtain n s1 s2 s3 where l: "load_image_file ?F demo_efi = Some (0, demo_block 0, n, s1)"
    and f: "find_header (efi_mem s1) (demo_block 0) n = Some ?h"
    and ldr: "allocate_ldr_mem ?F ?h s1 = (0, s2)" and rt: "allocate_rt_mem ?F ?h s2 = (0, s3)"
    and b3: "blocks (efi_calls s3) = demo_blocks (demo_pages pkg k)" and n: "unat n = length pkg + 1"
    and hdr: "hdr_ldr_mem_base (efi_mem s3) ?h = ucast (demo_block 1)" "hdr_entry64_offset (efi_mem s3) ?h = image_field pkg k 20"
    by (rule demo_prepared [OF assms])
  have quiet: "loader_calls (efi_calls s3) = []"
    using quiet_load_image [OF l] quiet_boot(1) [OF ldr] quiet_boot(2) [OF rt] by (simp add: demo_efi_def)
  obtain e3 pa returned s4 where ldd: "run_loader ?F (demo_block 0) n ?h s3 = (e3, pa, returned, s4)" by (metis prod_cases4)
  note page = demo_loader_page [OF assms b3 ldd]
  note called = demo_loader_called [OF assms b3 hdr quiet n ldd]
  then obtain c where c: "loader_calls (efi_calls s4) = [c]" by blast
  obtain err st' where out: "efi_out ?F e3 (demo_block 0) n pa True ?h s4 = (err, st')" by fastforce
  have "boot_image ?F 0 (demo_block 0) n s1 = Some (Returns err st')"
    using demo_header_address(1) [OF assms] f ldr rt ldd out called(1) by (simp add: boot_image_def)
  then have run: "efi_main ?F demo_efi = Some (Returns err st')" using l by (simp add: efi_main_def demo_parts)
  have "blocks (efi_calls st') = demo_blocks (demo_pages pkg k @ [1])" using page(2) blocks_out [OF out] by simp
  moreover have "length (demo_pages pkg k @ [1]) = 4" "\<forall>n \<in> set (demo_pages pkg k @ [1]). n \<le> 0x4000"
    using demo_pages_small(1) [OF assms] by (simp_all add: demo_pages_def)
  ultimately have "\<exists>ns. blocks (efi_calls st') = demo_blocks ns \<and> length ns = 4 \<and> (\<forall>n \<in> set ns. n \<le> 0x4000)" by blast
  with that [OF run] show ?thesis using quiet_out [OF out] c by (cases c) simp
qed

definition demo_image :: "u8 list" where
  "demo_image = boot_magic_bytes @ replicate 12 0 @ [56] @ replicate 15 0 @ [0, 0x20, 0, 0] @ replicate 4 0 @
     [0, 0x20, 0, 0] @ replicate 16 0"

lemma demo_slices:
  "bslice demo_image 0 8 = boot_magic_bytes" "bslice demo_image 20 4 = [56, 0, 0, 0]"
  "bslice demo_image 36 4 = [0, 0x20, 0, 0]" "bslice demo_image 44 4 = [0, 0x20, 0, 0]" "length demo_image = 64"
  by code_simp+

lemma demo_fields: "image_field demo_image 0 20 = 56" "image_field demo_image 0 36 = 0x2000" "image_field demo_image 0 44 = 0x2000"
    "boot_at demo_image 0"
  using demo_slices by (simp_all add: image_field_def boot_at_def)

lemma demo_image_bootable: "demo_bootable demo_image 0"
  using demo_fields by (simp add: demo_bootable_def demo_slices(5))

lemma demo_blocks_nth: "j < length ns \<Longrightarrow> demo_blocks ns ! j = (demo_block j, ns ! j)"
  by (simp add: demo_blocks_def)

theorem efi_main_enters_starter_witness:
  "\<exists>err st' entry p m. efi_main (demo_fw demo_image) demo_efi = Some (Returns err st') \<and> loader_calls (efi_calls st') = [(entry, p, m)] \<and>
     entry = ucast (pi_load_addr m p + 56) \<and> m (ucast (pi_load_addr m p)) = 0x6D"
proof -
  obtain err st' entry p m ns where run: "efi_main (demo_fw demo_image) demo_efi = Some (Returns err st')"
      "loader_calls (efi_calls st') = [(entry, p, m)]" and bs: "blocks (efi_calls st') = demo_blocks ns" "length ns = 4"
    using demo_boot [OF demo_image_bootable] by metis
  have "length demo_image + 1 < 2 ^ 32" "length demo_image + 1 \<le> unat (image_field demo_image 0 44)" "efi_calls demo_efi = []"
    "(entry, p, m) \<in> set (loader_calls (end_calls (Returns err st')))"
    using run(2) demo_fields by (simp_all add: demo_slices(5) demo_efi_def)
  from efi_main_enters_starter [OF demo_laws(1-3,5,4) demo_fields(4) this(1-3) run(1) this(4)]
  obtain ia na p1 p2 where b: "blocks (efi_calls st') = [(ia, na), (p1, ldr_pages demo_image 0), (p2, rt_pages demo_image 0), (p, EFI_SIZE_TO_PAGES 16)]"
    and enters: "unat p1 < 2 ^ 32 \<longrightarrow> ucast (pi_load_addr m p) = p1 \<and> entry = ucast (pi_load_addr m p + image_field demo_image 0 20) \<and>
       (\<forall>i < length demo_image. i < 8 * 0 + 32 \<or> 8 * 0 + 48 \<le> i \<longrightarrow> m (p1 + of_nat i) = demo_image ! i)"
    by auto
  have "demo_blocks ns ! 1 = (p1, ldr_pages demo_image 0)" unfolding bs(1) [symmetric] b by simp
  then have "p1 = demo_block 1" using demo_blocks_nth [of 1 ns] bs(2) by simp
  then have "unat p1 < 2 ^ 32" using demo_address [of 1] by simp
  then have at: "ucast (pi_load_addr m p) = p1" "entry = ucast (pi_load_addr m p + 56)"
    and "\<forall>i < length demo_image. i < 8 * 0 + 32 \<or> 8 * 0 + 48 \<le> i \<longrightarrow> m (p1 + of_nat i) = demo_image ! i"
    using enters demo_fields by simp_all
  from this(3) [rule_format, of 0] have "m p1 = demo_image ! 0" by (simp add: demo_slices(5))
  moreover have "demo_image ! 0 = 0x6D" by code_simp
  ultimately have "entry = ucast (pi_load_addr m p + 56)" "m (ucast (pi_load_addr m p)) = 0x6D" using at by simp_all
  then show ?thesis using run by blast
qed

theorem efi_main_always_error_witness:
  "\<exists>err st'. efi_main ((demo_fw demo_image)\<lparr>fw_open_file := (0x800000000000000E, True)\<rparr>) demo_efi = Some (Returns err st') \<and> EFI_ERROR err"
proof -
  let ?F = "(demo_fw demo_image)\<lparr>fw_open_file := (0x800000000000000E, True)\<rparr>"
  have "pages_as_asked ?F" using demo_laws(1) by (simp add: pages_as_asked_def)
  note cases = efi_main_always_error [OF this, of demo_efi]
  have facts: "fw_open_root ?F" "snd (fw_open_file ?F)" "fw_open_protocol ?F = (0, True)" "fw_loader ?F e p m = Some m" for e p m
    by (simp_all add: demo_fw_def)
  then obtain r where r: "efi_main ?F demo_efi = Some r" "ends_well ?F (loader_calls (efi_calls demo_efi)) r" using cases by auto
  then show ?thesis using facts(4) by (cases r) (auto simp: ends_well_def)
qed

end
