(* ===== verification/Asm_Machine.thy ===== *)
theory Asm_Machine
  imports Loader_Prelude
begin

text \<open>
  The 64-bit instructions of the repository's assembly files (\<open>starter.S\<close>, \<open>wakeup_init64.S\<close>) and what
  they do, as the processor manual describes them. A program is a list of instructions, the instruction
  pointer an index into it; jump targets are indices; \<open>at\<close> gives the address where the assembler puts an
  instruction, which only a call's return address shows. Of the flags the interrupt and the zero flag are kept
  exactly; the other arithmetic flags, which nothing here reads before they are set again, stay as they are.
\<close>

datatype reg = RAX | RBX | RCX | RDX | RSI | RDI | RBP | RSP | R8 | R9

record cpu64 =
  x_reg :: "reg \<Rightarrow> u64"
  x_flags :: u64
  x_ip :: nat

datatype asm =
  Cli | Sti | Pause | Ret
| Mov64 reg reg | Mov32 reg reg | Mov_Imm64 reg u64
| Lea64 reg addr | Lea32 reg addr
| Add64 reg reg | Add32 reg reg | Sub_Imm64 reg u64 | Shl32 reg nat
| Xor64 reg reg | Xor32 reg reg
| Store8_Imm u8 reg | Load8 reg reg
| Cmp32_Imm u32 reg | Je nat | Jmp nat
| Push_Imm u64 | Push_Flags | Pop reg | Pop_Flags
| Call addr | Call_Reg reg

text \<open>Bits of the flags register.\<close>

definition ZF :: nat where "ZF = 6"
definition IF :: nat where "IF = 9"

text \<open>The flags that \<open>popf\<close> can change at privilege level 0; bit 1 is always set.\<close>

definition popf_mask :: u64 where "popf_mask = 0x247FD5"

definition set_reg :: "reg \<Rightarrow> u64 \<Rightarrow> cpu64 \<Rightarrow> cpu64" where
  "set_reg r v c = c\<lparr>x_reg := (x_reg c)(r := v)\<rparr>"

text \<open>A 32-bit result clears the upper half of the register, an 8-bit one leaves the rest.\<close>

definition reg32 :: "reg \<Rightarrow> cpu64 \<Rightarrow> u32" where "reg32 r c = ucast (x_reg c r)"

definition set_reg32 :: "reg \<Rightarrow> u32 \<Rightarrow> cpu64 \<Rightarrow> cpu64" where "set_reg32 r v = set_reg r (ucast v)"

definition set_reg8 :: "reg \<Rightarrow> u8 \<Rightarrow> cpu64 \<Rightarrow> cpu64" where
  "set_reg8 r v c = set_reg r ((x_reg c r AND NOT 0xFF) OR ucast v) c"

definition set_zero :: "bool \<Rightarrow> cpu64 \<Rightarrow> cpu64" where
  "set_zero z c = c\<lparr>x_flags := if z then set_bit ZF (x_flags c) else unset_bit ZF (x_flags c)\<rparr>"

definition arith64 :: "reg \<Rightarrow> u64 \<Rightarrow> cpu64 \<Rightarrow> cpu64" where "arith64 r v c = set_zero (v = 0) (set_reg r v c)"
definition arith32 :: "reg \<Rightarrow> u32 \<Rightarrow> cpu64 \<Rightarrow> cpu64" where "arith32 r v c = set_zero (v = 0) (set_reg32 r v c)"

definition push64 :: "u64 \<Rightarrow> cpu64 \<Rightarrow> mem \<Rightarrow> cpu64 \<times> mem" where
  "push64 v c m = (set_reg RSP (x_reg c RSP - 8) c, store64 m (x_reg c RSP - 8) v)"

definition pop64 :: "cpu64 \<Rightarrow> mem \<Rightarrow> u64 \<times> cpu64" where
  "pop64 c m = (load64 m (x_reg c RSP), set_reg RSP (x_reg c RSP + 8) c)"

text \<open>The processor goes on in the program, calls a function outside it, or returns to its caller.\<close>

datatype asm_next = Goes cpu64 mem | Calls addr cpu64 mem | Returns_To addr cpu64 mem

definition next_ip :: "cpu64 \<Rightarrow> cpu64" where "next_ip c = c\<lparr>x_ip := x_ip c + 1\<rparr>"

text \<open>Instructions that only change registers and flags.\<close>

fun exec_reg :: "asm \<Rightarrow> cpu64 \<Rightarrow> cpu64" where
  "exec_reg Cli c = c\<lparr>x_flags := unset_bit IF (x_flags c)\<rparr>"
| "exec_reg Sti c = c\<lparr>x_flags := set_bit IF (x_flags c)\<rparr>"
| "exec_reg (Mov64 d s) c = set_reg d (x_reg c s) c"
| "exec_reg (Mov32 d s) c = set_reg32 d (reg32 s c) c"
| "exec_reg (Mov_Imm64 d v) c = set_reg d v c"
| "exec_reg (Lea64 d a) c = set_reg d a c"
| "exec_reg (Lea32 d a) c = set_reg32 d (ucast a) c"
| "exec_reg (Add64 d s) c = arith64 d (x_reg c d + x_reg c s) c"
| "exec_reg (Add32 d s) c = arith32 d (reg32 d c + reg32 s c) c"
| "exec_reg (Sub_Imm64 d v) c = arith64 d (x_reg c d - v) c"
| "exec_reg (Shl32 d n) c = arith32 d (push_bit n (reg32 d c)) c"
| "exec_reg (Xor64 d s) c = arith64 d (x_reg c d XOR x_reg c s) c"
| "exec_reg (Xor32 d s) c = arith32 d (reg32 d c XOR reg32 s c) c"
| "exec_reg i c = c"

fun exec_asm :: "(nat \<Rightarrow> addr) \<Rightarrow> asm \<Rightarrow> cpu64 \<Rightarrow> mem \<Rightarrow> asm_next" where
  "exec_asm at (Store8_Imm v r) c m = Goes (next_ip c) (m(ucast (reg32 r c) := v))"
| "exec_asm at (Load8 d r) c m = Goes (next_ip (set_reg8 d (m (ucast (reg32 r c))) c)) m"
| "exec_asm at (Cmp32_Imm v r) c m = Goes (next_ip (set_zero (load32 m (ucast (reg32 r c)) = v) c)) m"
| "exec_asm at (Je t) c m = Goes (if bit (x_flags c) ZF then c\<lparr>x_ip := t\<rparr> else next_ip c) m"
| "exec_asm at (Jmp t) c m = Goes (c\<lparr>x_ip := t\<rparr>) m"
| "exec_asm at (Push_Imm v) c m = (let (c, m) = push64 v c m in Goes (next_ip c) m)"
| "exec_asm at Push_Flags c m = (let (c, m) = push64 (x_flags c AND NOT 0x30000) c m in Goes (next_ip c) m)"
| "exec_asm at (Pop r) c m = (let (v, c) = pop64 c m in Goes (next_ip (set_reg r v c)) m)"
| "exec_asm at Pop_Flags c m =
     (let (v, c) = pop64 c m in Goes (next_ip (c\<lparr>x_flags := (x_flags c AND NOT popf_mask) OR (v AND popf_mask) OR 2\<rparr>)) m)"
| "exec_asm at (Call f) c m = (let (c', m) = push64 (at (x_ip c + 1)) c m in Calls f (next_ip c') m)"
| "exec_asm at (Call_Reg r) c m = (let (c', m) = push64 (at (x_ip c + 1)) c m in Calls (x_reg c r) (next_ip c') m)"
| "exec_asm at Ret c m = (let (v, c) = pop64 c m in Returns_To v (next_ip c) m)"
| "exec_asm at i c m = Goes (next_ip (exec_reg i c)) m"

text \<open>A run ends when the program calls or returns; past its last instruction there is nothing to execute.\<close>

partial_function (option) run_asm :: "(nat \<Rightarrow> addr) \<Rightarrow> asm list \<Rightarrow> cpu64 \<Rightarrow> mem \<Rightarrow> asm_next option" where
  "run_asm at prog c m =
     (if x_ip c < length prog
      then case exec_asm at (prog ! x_ip c) c m of Goes c m \<Rightarrow> run_asm at prog c m | r \<Rightarrow> Some r
      else None)"

section \<open>Registers\<close>

lemma set_reg_simps [simp]:
  "x_reg (set_reg r v c) = (x_reg c)(r := v)" "x_flags (set_reg r v c) = x_flags c" "x_ip (set_reg r v c) = x_ip c"
  by (simp_all add: set_reg_def)

lemma set_reg32_simps [simp]:
  "x_reg (set_reg32 r w c) = (x_reg c)(r := ucast w)" "x_flags (set_reg32 r w c) = x_flags c" "x_ip (set_reg32 r w c) = x_ip c"
  by (simp_all add: set_reg32_def)

lemma set_reg8_simps [simp]:
  "x_reg (set_reg8 r b c) = (x_reg c)(r := (x_reg c r AND NOT 0xFF) OR ucast b)"
  "x_flags (set_reg8 r b c) = x_flags c" "x_ip (set_reg8 r b c) = x_ip c"
  by (simp_all add: set_reg8_def)

lemma set_zero_simps [simp]:
  "x_reg (set_zero z c) = x_reg c" "x_ip (set_zero z c) = x_ip c"
  "bit (x_flags (set_zero z c)) ZF \<longleftrightarrow> z"
  by (auto simp: set_zero_def ZF_def bit_simps)

lemma next_ip_simps [simp]:
  "x_reg (next_ip c) = x_reg c" "x_flags (next_ip c) = x_flags c" "x_ip (next_ip c) = x_ip c + 1"
  by (simp_all add: next_ip_def)

lemma arith_simps [simp]:
  "x_reg (arith64 r v c) = (x_reg c)(r := v)" "x_ip (arith64 r v c) = x_ip c"
  "x_reg (arith32 r w c) = (x_reg c)(r := ucast w)" "x_ip (arith32 r w c) = x_ip c"
  by (simp_all add: arith64_def arith32_def)

lemma reg32_low: "unat (x_reg c r) < 2 ^ 32 \<Longrightarrow> (ucast (reg32 r c) :: u64) = x_reg c r"
  by (simp add: reg32_def word_unat_eq_iff unsigned_ucast_eq unsigned_take_bit_eq take_bit_nat_eq_self)

end
