(* ===== verification/Starter_Entry.thy ===== *)
theory Starter_Entry
  imports Asm_Machine Package
begin

text \<open>
  The entry of the loader, \<open>pre_os/starter/starter.S\<close>: the boot header as it is assembled, and \<open>start_x64\<close>,
  which the UEFI application calls. It passes the interrupted state to \<open>starter_main\<close>; behind that
  call, which never returns, stand \<open>sti\<close> and \<open>ret\<close>: the primary guest starts there, and so continues the
  UEFI application.
\<close>

section \<open>The boot header\<close>

definition IKGT_BOOTLOADER_MAGIC :: u64 where "IKGT_BOOTLOADER_MAGIC = 0x4857b815"

text \<open>\<open>start_x64 - _start\<close>: the code follows the header, which is at the start of the section.\<close>

definition start_x64_offset :: nat where "start_x64_offset = 52"

definition ikgt_boot_header :: "u8 list" where
  "ikgt_boot_header = word_bytes 8 IKGT_BOOT_HEADER_MAGIC @
     concat (map (word_bytes 4)
       [of_nat start_x64_offset, 0, 0xffffffff, of_nat start_x64_offset :: u32, 0, 0, 0, 0, 0, 0, 0])"

lemma length_ikgt_boot_header: "length ikgt_boot_header = start_x64_offset"
  by (simp add: ikgt_boot_header_def start_x64_offset_def)

section \<open>The code\<close>

text \<open>\<open>main\<close> is the address of \<open>starter_main\<close>.\<close>

definition start_x64 :: "addr \<Rightarrow> asm list" where
  "start_x64 main =
     [Cli, Mov64 RDI RDI, Mov_Imm64 RSI IKGT_BOOTLOADER_MAGIC, Mov64 RDX RSP, Mov64 RCX RBP,
      Push_Flags, Pop R8, Call main, Sti, Ret]"

definition saved_flags :: "u64 \<Rightarrow> u64" where
  "saved_flags f = unset_bit IF f AND NOT 0x30000"

text \<open>The arguments of \<open>starter_main\<close>, in the registers of its calling convention.\<close>

definition starter_args :: "(nat \<Rightarrow> addr) \<Rightarrow> cpu64 \<Rightarrow> cpu64 \<Rightarrow> bool" where
  "starter_args at c c' \<longleftrightarrow>
     x_reg c' RDI = x_reg c RDI \<and> x_reg c' RSI = IKGT_BOOTLOADER_MAGIC \<and> x_reg c' RDX = x_reg c RSP \<and>
     x_reg c' RCX = x_reg c RBP \<and> x_reg c' R8 = saved_flags (x_flags c) \<and> x_reg c' RSP = x_reg c RSP - 8"

lemma run_start_x64:
  assumes "x_ip c = 0"
  shows "\<exists>c' m'. run_asm at (start_x64 main) c m = Some (Calls main c' m') \<and> starter_args at c c' \<and>
    load64 m' (x_reg c' RSP) = at 8 \<and> (\<forall>x. \<not> in_range (x_reg c RSP - 8) 8 x \<longrightarrow> m' x = m x)"
proof -
  let ?sp = "x_reg c RSP - 8"
  let ?m1 = "store64 m ?sp (saved_flags (x_flags c))"
  have eight: "Suc (Suc (Suc (Suc (Suc (Suc (Suc (Suc 0))))))) = 8" by simp
  have "run_asm at (start_x64 main) c m = Some (Calls main c' m')" if
    "c' = next_ip (set_reg RSP ?sp (next_ip (set_reg R8 (saved_flags (x_flags c)) (set_reg RSP (?sp + 8) (next_ip (set_reg RSP ?sp
       (next_ip (set_reg RCX (x_reg c RBP) (next_ip (set_reg RDX (x_reg c RSP) (next_ip (set_reg RSI IKGT_BOOTLOADER_MAGIC
       (next_ip (set_reg RDI (x_reg c RDI) (next_ip (c\<lparr>x_flags := unset_bit IF (x_flags c)\<rparr>))))))))))))))))"
    "m' = store64 ?m1 ?sp (at 8)" for c' m'
    unfolding that
    by (simp add: run_asm.simps start_x64_def assms push64_def pop64_def saved_flags_def Let_def eight)
  then show ?thesis
    by (intro exI conjI) (auto simp: starter_args_def store_le_apply)
qed

text \<open>The two instructions behind the call.\<close>

lemma run_resume:
  assumes "x_ip c = 8"
  shows "\<exists>c'. run_asm at (start_x64 main) c m = Some (Returns_To (load64 m (x_reg c RSP)) c' m) \<and>
    x_reg c' = (x_reg c)(RSP := x_reg c RSP + 8) \<and> x_flags c' = set_bit IF (x_flags c)"
  by (simp add: run_asm.simps start_x64_def assms pop64_def Let_def)

end
