(* ===== verification/Boot_Chain.thy ===== *)
theory Boot_Chain
  imports Preload Starter_Entry Primary_Guest
begin

text \<open>
  The stages composed: the package that \<open>Packer\<close> makes, as \<open>Preload\<close> puts it in memory and calls it,
  through \<open>start_x64\<close> into \<open>starter_main\<close> and on to xmon_loader; and the way back, from the primary guest's
  first instruction to the UEFI application.
\<close>

section \<open>From the entry to \<open>starter_main\<close>\<close>

definition run_starter ::
  "elf_abi \<Rightarrow> bool \<Rightarrow> u64 \<Rightarrow> u64 \<Rightarrow> u64 \<Rightarrow> elf_load_info \<Rightarrow> image_info \<Rightarrow> addr \<Rightarrow> (nat \<Rightarrow> addr) \<Rightarrow> cpu64 \<Rightarrow> mem
     \<Rightarrow> starter_outcome option" where
  "run_starter L debug sizeof_desc cpuid_rcx feature_control info0 ii0 main at c m =
     (case run_asm at (start_x64 main) (c\<lparr>x_ip := 0\<rparr>) m of
        Some (Calls f c' m') \<Rightarrow>
          starter_main L debug sizeof_desc cpuid_rcx feature_control info0 ii0 m'
            (x_reg c' RDI) (x_reg c' RSI) (x_reg c' RDX) (x_reg c' RCX) (x_reg c' R8) (load64 m' (x_reg c' RSP))
      | _ \<Rightarrow> None)"

lemma run_starter_main:
  "\<exists>m'. run_starter L debug sizeof_desc cpuid_rcx feature_control info0 ii0 main at c m =
      starter_main L debug sizeof_desc cpuid_rcx feature_control info0 ii0 m'
        (x_reg c RDI) IKGT_BOOTLOADER_MAGIC (x_reg c RSP) (x_reg c RBP) (saved_flags (x_flags c)) (at 8) \<and>
    (\<forall>x. \<not> in_range (x_reg c RSP - 8) 8 x \<longrightarrow> m' x = m x)"
proof -
  obtain c' m' where "run_asm at (start_x64 main) (c\<lparr>x_ip := 0\<rparr>) m = Some (Calls main c' m')"
    and "starter_args at (c\<lparr>x_ip := 0\<rparr>) c'" and "load64 m' (x_reg c' RSP) = at 8"
    and "\<forall>x. \<not> in_range (x_reg c RSP - 8) 8 x \<longrightarrow> m' x = m x"
    using run_start_x64 [of "c\<lparr>x_ip := 0\<rparr>" at main m] by auto
  then show ?thesis by (intro exI [of _ m']) (simp add: run_starter_def starter_args_def)
qed

section \<open>The primary guest\<close>

text \<open>A processor that the hypervisor starts with the registers of the guest's first CPU.\<close>

definition loaded_from :: "(gp_reg \<Rightarrow> u64) \<Rightarrow> cpu64 \<Rightarrow> bool" where
  "loaded_from gp c \<longleftrightarrow>
     x_reg c RAX = gp REG_RAX \<and> x_reg c RBX = gp REG_RBX \<and> x_reg c RCX = gp REG_RCX \<and> x_reg c RDX = gp REG_RDX \<and>
     x_reg c RSI = gp REG_RSI \<and> x_reg c RDI = gp REG_RDI \<and> x_reg c RBP = gp REG_RBP \<and> x_reg c RSP = gp REG_RSP \<and>
     x_flags c = gp REG_RFLAGS"

lemma guest_of_starter:
  assumes "run_starter L debug sizeof_desc cpuid_rcx feature_control info0 ii0 main at c m = Some (Enter entry xd m2)"
    and "loaded_from (guest_gp xd_addr (xd_initial_state xd)) g"
  shows "guest_gp xd_addr (xd_initial_state xd) REG_RIP = at 8" and "x_reg g RSP = x_reg c RSP" and "x_reg g RBP = x_reg c RBP"
    and "x_reg g RBX = x_reg c RDI" and "x_flags g = saved_flags (x_flags c)"
proof -
  obtain m' where "starter_main L debug sizeof_desc cpuid_rcx feature_control info0 ii0 m'
        (x_reg c RDI) IKGT_BOOTLOADER_MAGIC (x_reg c RSP) (x_reg c RBP) (saved_flags (x_flags c)) (at 8) = Some (Enter entry xd m2)"
    using assms(1) run_starter_main [of L debug sizeof_desc cpuid_rcx feature_control info0 ii0 main at c m] by auto
  from starter_main_desc [OF this] assms(2)
  show "guest_gp xd_addr (xd_initial_state xd) REG_RIP = at 8" "x_reg g RSP = x_reg c RSP" "x_reg g RBP = x_reg c RBP"
    "x_reg g RBX = x_reg c RDI" "x_flags g = saved_flags (x_flags c)"
    by (simp_all add: loaded_from_def guest_gp_def)
qed

lemma primary_guest_gp:
  assumes "setup_primary_guest_env V G af cpu m h xd_addr xd = (Some pg, h', m')"
  shows "cs_gp (pg_cpu pg) = guest_gp xd_addr (xd_initial_state xd)"
proof -
  obtain m1 where "pg_cpu pg = bsp_cpu_state V G cpu m1 xd_addr (xd_initial_state xd)"
    using assms by (auto simp: setup_primary_guest_env_def Let_def split: prod.splits if_splits)
  moreover obtain seg where "bsp_cpu_state V G cpu m1 xd_addr (xd_initial_state xd) =
      (save_control_state cpu (zero_cpu_state\<lparr>cs_size_of_this_struct := sizeof_cpu_state G,
          cs_version_of_this_struct := CPU_STARTUP_STATE_VERSION G,
          cs_gp := guest_gp xd_addr (xd_initial_state xd)\<rparr>))\<lparr>cs_segment := seg\<rparr>"
    unfolding bsp_cpu_state_def using save_other_cpu_state_keeps by blast
  ultimately show ?thesis by (simp add: save_control_state_def)
qed

lemma bit_saved_flags: "n \<noteq> IF \<Longrightarrow> n \<noteq> 16 \<Longrightarrow> n \<noteq> 17 \<Longrightarrow> bit (saved_flags f) n = bit f n"
proof -
  assume n: "n \<noteq> IF" "n \<noteq> 16" "n \<noteq> 17"
  have eq: "(0x30000 :: u64) = push_bit 16 (mask 2)" by (simp add: mask_eq_exp_minus_1)
  show ?thesis using n unfolding saved_flags_def eq by (auto simp: bit_simps IF_def dest: bit_imp_le_length)
qed

text \<open>
  C8: The way back. The primary guest starts behind the call in \<open>start_x64\<close>, on the caller's stack, and
  when its frame is still there returns to the caller of the loader with the stack pointer, the frame pointer and the flags
  it had, interrupts on; but rbx, which the calling convention makes the callee keep, then holds the address of
  the platform information.
\<close>

theorem primary_guest_returns:
  assumes "run_starter L debug sizeof_desc cpuid_rcx feature_control info0 ii0 main at c m = Some (Enter entry xd m2)"
    and "setup_primary_guest_env V G af cpu mm h xd_addr xd = (Some pg, h', m')"
    and "loaded_from (cs_gp (pg_cpu pg)) g" and "x_ip g = 8"
    and "\<forall>x. in_range (x_reg c RSP) 8 x \<longrightarrow> M x = m x"
  shows "cs_gp (pg_cpu pg) REG_RIP = at 8 \<and>
    (\<exists>g'. run_asm at (start_x64 main) g M = Some (Returns_To (load64 m (x_reg c RSP)) g' M) \<and>
      x_reg g' RSP = x_reg c RSP + 8 \<and> x_reg g' RBP = x_reg c RBP \<and> bit (x_flags g') IF \<and>
      (\<forall>n. n \<noteq> IF \<and> n \<noteq> 16 \<and> n \<noteq> 17 \<longrightarrow> bit (x_flags g') n = bit (x_flags c) n) \<and>
      x_reg g' RBX = x_reg c RDI)"
proof -
  note gp = primary_guest_gp [OF assms(2)]
  note g = guest_of_starter [OF assms(1) assms(3) [unfolded gp]]
  obtain g' where g': "run_asm at (start_x64 main) g M = Some (Returns_To (load64 M (x_reg g RSP)) g' M)"
    "x_reg g' = (x_reg g)(RSP := x_reg g RSP + 8)" "x_flags g' = set_bit IF (x_flags g)"
    using run_resume [OF assms(4)] by blast
  have "load64 M (x_reg g RSP) = load64 m (x_reg c RSP)"
    unfolding g(2) using assms(5) by (intro load_le_cong) simp_all
  moreover have "bit (x_flags g') IF" by (simp add: g'(3) bit_simps IF_def)
  moreover have "bit (x_flags g') n = bit (x_flags c) n" if "n \<noteq> IF" "n \<noteq> 16" "n \<noteq> 17" for n
    using that bit_saved_flags [OF that, of "x_flags c"] by (simp add: g'(3) g(5) bit_simps)
  ultimately show ?thesis using g g' by (auto simp: gp)
qed

section \<open>The starter in the package\<close>

text \<open>The starter's file: \<open>starter.S\<close> at its start, the file mapping header, empty, behind it.\<close>

definition starter_image :: "u8 list \<Rightarrow> nat \<Rightarrow> bool" where
  "starter_image c kh \<longleftrightarrow>
     bslice c 0 start_x64_offset = ikgt_boot_header \<and> 56 \<le> 4 * kh \<and> 4 * kh + 36 \<le> length c \<and>
     bslice c (4 * kh) 8 = file_magic_bytes \<and> (\<forall>i < kh. bslice c (4 * i) 8 \<noteq> file_magic_bytes) \<and>
     bslice c (4 * kh + 8) 4 = replicate 4 0"

lemma boot_header_slices:
  "bslice ikgt_boot_header 0 8 = boot_magic_bytes" "bslice ikgt_boot_header 20 4 = word_bytes 4 (52 :: u32)"
proof -
  have "length boot_magic_bytes = 8" by (simp add: boot_magic_bytes_def)
  then show "bslice ikgt_boot_header 0 8 = boot_magic_bytes" "bslice ikgt_boot_header 20 4 = word_bytes 4 (52 :: u32)"
    by (simp_all add: ikgt_boot_header_def bslice_append1 bslice_append2 boot_magic_word start_x64_offset_def bslice_all)
qed

lemma starter_image_layout:
  assumes "starter_image c kh"
  shows "starter_layout c kh 0"
proof -
  have "bslice c 0 8 = bslice (bslice c 0 start_x64_offset) 0 8"
    by (subst bslice_bslice) (simp_all add: start_x64_offset_def)
  then show ?thesis
    using assms boot_header_slices(1) by (simp add: starter_image_def starter_layout_def)
qed

lemma starter_package_fields:
  fixes sizeof_desc :: nat
  assumes inp: "inputs_ok debug fs nms cs" and img: "starter_image (cs ! 0) kh"
  defines "pkg \<equiv> package debug sizeof_desc cs kh 0"
  shows "boot_at pkg 0" and "image_field pkg 0 20 = 52"
    and "image_field pkg 0 36 = of_nat (runtime_layout_size debug)"
    and "image_field pkg 0 44 = of_nat (loader_layout_size debug sizeof_desc)"
proof -
  note lay = starter_image_layout [OF img]
  let ?h = "bslice (cs ! 0) (4 * 0) 56"
  have len: "length ?h = 56" using img by (simp add: starter_image_def)
  have h: "bslice ?h i n = bslice ikgt_boot_header i n" if "i + n \<le> 52" for i n
  proof -
    have "bslice ?h i n = bslice (bslice (cs ! 0) 0 start_x64_offset) i n"
      using that by (simp add: bslice_bslice start_x64_offset_def)
    then show ?thesis using img by (simp add: starter_image_def)
  qed
  note fields = package_boot_hdr [OF inp lay] complete_boot_hdr_fields [OF len]
  have "bslice pkg 0 8 = bslice (bslice pkg 0 12) 0 8" by (simp add: bslice_bslice)
  also have "bslice pkg 0 12 = bslice ikgt_boot_header 0 12"
    using fields(1) [of 0 12 sizeof_desc] fields(2) h [of 0 12] by (simp add: pkg_def)
  also have "bslice \<dots> 0 8 = boot_magic_bytes" by (simp add: bslice_bslice boot_header_slices)
  finally have magic: "bslice pkg 0 8 = boot_magic_bytes" .
  have "length (cs ! 0) \<le> length pkg"
    using concat_starter_le [OF inputs_ok_sizes(1) [OF inp]] layout_fits(2) [OF inp lay, of sizeof_desc] by (simp add: pkg_def)
  then have "56 \<le> length pkg" using img by (simp add: starter_image_def)
  with magic show "boot_at pkg 0" by (simp add: boot_at_def)
  show "image_field pkg 0 20 = 52"
    using fields(1) [of 20 4 sizeof_desc] fields(3) h [of 20 4] by (simp add: pkg_def image_field_def boot_header_slices)
  show "image_field pkg 0 36 = of_nat (runtime_layout_size debug)" "image_field pkg 0 44 = of_nat (loader_layout_size debug sizeof_desc)"
    using fields(1) [of 36 4 sizeof_desc] fields(1) [of 44 4 sizeof_desc] fields(4,5) by (simp_all add: pkg_def image_field_def)
qed

section \<open>The package where the firmware put it\<close>

lemma low_word_bytes:
  assumes "load64 m a = ucast (w :: u32)"
  shows "read_bytes m a 4 = word_bytes 4 w" and "read_bytes m (a + 4) 4 = word_bytes 4 (0 :: u32)"
proof -
  have "load32 m a = w" by (simp add: load32_low assms)
  then show "read_bytes m a 4 = word_bytes 4 w" by (simp add: load_le_def le_word_eq_iff)
  have "load32 m (a + 4) = 0" by (simp add: load32_high assms drop_bit_ucast_low)
  then show "read_bytes m (a + 4) 4 = word_bytes 4 (0 :: u32)" by (simp add: load_le_def le_word_eq_iff)
qed

text \<open>The words that the application writes over the boot header are not those of the file mapping header.\<close>

lemma page_address_not_magic:
  assumes "4096 dvd unat (a :: u32)"
  shows "a \<noteq> XMON_LOADERBIN_FILE_MAPPING_HEADER_MAGIC0" and "a \<noteq> XMON_LOADERBIN_FILE_MAPPING_HEADER_MAGIC1"
  using assms by (auto simp: XMON_LOADERBIN_FILE_MAPPING_HEADER_MAGIC0_def XMON_LOADERBIN_FILE_MAPPING_HEADER_MAGIC1_def)

lemma entered_byte:
  "loader_entered pkg 0 p1 p2 entry p m \<Longrightarrow> i < length pkg \<Longrightarrow> i < 32 \<or> 48 \<le> i \<Longrightarrow>
   m (ucast (pi_load_addr m p) + of_nat i) = pkg ! i"
  by (auto simp: loader_entered_def)

lemma entered_words:
  assumes "loader_entered pkg 0 p1 p2 entry p m" and "4 * j + 4 \<le> length pkg" and low: "unat p2 < 2 ^ 32"
  defines "load \<equiv> (ucast (pi_load_addr m p) :: addr)"
  shows "read_bytes m (load + of_nat (4 * j)) 4 = bslice pkg (4 * j) 4 \<or>
    read_bytes m (load + of_nat (4 * j)) 4 \<in> word_bytes 4 ` {pi_run_addr m p, pi_load_addr m p, 0}"
proof -
  note e = assms(1) [unfolded loader_entered_def, folded load_def]
  note bytes = entered_byte [OF assms(1), folded load_def]
  show ?thesis
  proof (cases "4 * j + 4 \<le> 32 \<or> 48 \<le> 4 * j")
    case True
    then have "m (load + of_nat (4 * j + i)) = pkg ! (4 * j + i)" if "i < 4" for i using that assms(2) by (intro bytes) auto
    then have "read_bytes m (load + of_nat (4 * j)) 4 = bslice pkg (4 * j) 4"
      using assms(2) by (simp add: read_bytes_def bslice_eq_map add.assoc)
    then show ?thesis by blast
  next
    case False
    then have "j \<in> {8, 9, 10, 11}" by auto
    moreover have "load64 m (load + 32) = ucast (pi_run_addr m p)" "load64 m (load + 40) = ucast (pi_load_addr m p)"
      using e low low_address [of p2] by (simp_all add: load_def)
    note low_word_bytes [OF this(1)] low_word_bytes [OF this(2)]
    ultimately show ?thesis by (auto simp: add.assoc)
  qed
qed

lemma entered_view:
  assumes inp: "inputs_ok debug fs nms cs" and img: "starter_image (cs ! 0) kh" and "sizeof_desc < 2 ^ 20"
    and ent: "loader_entered (package debug sizeof_desc cs kh 0) 0 p1 p2 entry p m" and low: "unat p2 < 2 ^ 32"
    and pages: "4096 dvd unat (pi_load_addr m p)" "4096 dvd unat (pi_run_addr m p)"
  shows "package_view m (ucast (pi_load_addr m p)) cs kh"
proof (rule package_viewI [OF inp starter_image_layout [OF img]])
  let ?pkg = "package debug sizeof_desc cs kh 0" and ?load = "ucast (pi_load_addr m p) :: addr"
  let ?W = "word_bytes 4 ` {pi_run_addr m p, pi_load_addr m p, 0}"
  note lay = starter_image_layout [OF img]
  note fit = layout_fits(1) [OF inp lay] layout_fits(2) [OF inp lay, of sizeof_desc]
  show "read_bytes m (?load + of_nat (4 * i)) 8 \<noteq> file_magic_bytes" if "i < kh" for i
  proof
    assume hit: "read_bytes m (?load + of_nat (4 * i)) 8 = file_magic_bytes"
    have part: "bslice (read_bytes m ?load (length ?pkg)) j n = read_bytes m (?load + of_nat j) n" if "j + n \<le> length ?pkg" for j n
      using that by (intro nth_equalityI) (simp_all add: nth_bslice add.assoc)
    have patch: "patched ?W ?pkg (read_bytes m ?load (length ?pkg))"
      unfolding patched_def using entered_words [OF ent _ low] by (auto simp: part)
    have i8: "4 * i + 8 \<le> length ?pkg" using \<open>i < kh\<close> fit by linarith
    have "word_bytes 4 XMON_LOADERBIN_FILE_MAPPING_HEADER_MAGIC0 \<notin> ?W" "word_bytes 4 XMON_LOADERBIN_FILE_MAPPING_HEADER_MAGIC1 \<notin> ?W"
      using page_address_not_magic [OF pages(1)] page_address_not_magic [OF pages(2)] page_address_not_magic [of 0]
      by (auto simp: word_bytes_inject)
    from patched_pair [OF patch i8 _ _ _ this] have "bslice ?pkg (4 * i) 8 = file_magic_bytes"
      using hit part [OF i8] by (simp add: file_magic_bytes_def)
    then show False using package_no_earlier_header [OF inp lay assms(3) \<open>i < kh\<close>] by simp
  qed
  show "read_bytes m (?load + of_nat i) n = bslice ?pkg i n"
    if "4 * kh \<le> i \<and> i + n \<le> 4 * kh + 36 \<or> length (cs ! 0) \<le> i \<and> i + n \<le> length (concat cs)" for i n
  proof -
    have in_pkg: "48 \<le> i" "i + n \<le> length ?pkg" using that fit img by (auto simp: starter_image_def)
    then have "m (?load + of_nat (i + j)) = ?pkg ! (i + j)" if "j < n" for j
      using that by (intro entered_byte [OF ent]) auto
    then show ?thesis using in_pkg by (simp add: read_bytes_def bslice_eq_map add.assoc)
  qed
qed

lemma package_view_cong:
  assumes inp: "inputs_ok debug fs nms cs" and img: "starter_image (cs ! 0) kh" and view: "package_view m load cs kh"
    and same: "\<And>x. in_range load (LOADER_BIN_SIZE debug) x \<Longrightarrow> m' x = m x"
  shows "package_view m' load cs kh"
proof -
  note s = inputs_ok_sizes [OF inp]
  have "LOADER_BIN_SIZE debug < 2 ^ 64" by (simp add: LOADER_BIN_SIZE_def)
  then have byte: "m' (load + of_nat i) = m (load + of_nat i)" if "i < length (concat cs)" for i
    using same that s(3) by (simp add: in_range_offset del: length_concat)
  have read: "read_bytes m' (load + of_nat i) n = read_bytes m (load + of_nat i) n" if "i + n \<le> length (concat cs)" for i n
    using byte that by (intro nth_equalityI) (simp_all add: add.assoc flip: of_nat_add del: length_concat)
  have fit: "4 * kh + 36 \<le> length (concat cs)" by (rule layout_fits(1) [OF inp starter_image_layout [OF img]])
  have "mem_holds m' (load + of_nat (length (concat (take i cs)))) (cs ! i)" if i: "i \<in> {1, 2, 3}" for i
    unfolding mem_holds_def
  proof (intro allI impI)
    fix k assume k: "k < length (cs ! i)"
    have "m (load + of_nat (length (concat (take i cs))) + of_nat k) = cs ! i ! k"
      using view i k unfolding package_view_def mem_holds_def by blast
    moreover have "length (concat (take i cs)) + k < length (concat cs)"
      using package_module(2) [OF inp starter_image_layout [OF img] i] k by linarith
    ultimately show "m' (load + of_nat (length (concat (take i cs))) + of_nat k) = cs ! i ! k"
      using byte [of "length (concat (take i cs)) + k"] by (simp add: add.assoc)
  qed
  moreover have "read_bytes m' (load + of_nat (4 * i)) 8 \<noteq> file_magic_bytes" if "i < kh" for i
  proof -
    have "4 * i + 8 \<le> length (concat cs)" using that fit by linarith
    from read [OF this] show ?thesis using view that unfolding package_view_def by metis
  qed
  moreover have "read_bytes m' (load + of_nat (4 * kh)) 36 = file_hdr_bytes (packed_hdr cs)"
    unfolding read [OF fit] using view unfolding package_view_def by blast
  ultimately show ?thesis unfolding package_view_def by blast
qed

section \<open>The whole way\<close>

text \<open>A file that the ELF loader accepts wherever it lies without wrapping, with the load size of \<open>ii\<close>.\<close>

definition acceptable_file :: "elf_abi \<Rightarrow> elf_load_info \<Rightarrow> image_info \<Rightarrow> u8 list \<Rightarrow> image_info \<Rightarrow> bool" where
  "acceptable_file L info0 ii0 bs ii \<longleftrightarrow>
     (\<forall>m a. a \<noteq> 0 \<and> unat a + length bs < 2 ^ 64 \<and> mem_holds m a bs \<longrightarrow>
        module_ok L info0 ii0 m \<lparr>mod_addr = a, mod_size = of_nat (length bs)\<rparr> XMON_LOADER_IMG_SIZE ii)"

lemma module_address:
  assumes "0 < n" and "n < 2 ^ 20"
  shows "ucast (load :: u32) + of_nat n \<noteq> (0 :: addr)" and "unat (ucast (load :: u32) + of_nat n :: addr) = unat load + n"
proof -
  have "x < 2 ^ 32 \<Longrightarrow> x + n < 2 ^ 64" for x :: nat using assms(2) by simp
  from this [OF unat_less32 [of load]] have "unat load + n < 2 ^ 64" .
  then have "unat (ucast load :: addr) + n < 2 ^ 64" by (simp add: unat_ucast_up)
  then have "unat (ucast load + of_nat n :: addr) = unat (ucast load :: addr) + n" by (rule unat_add_offset)
  then show "unat (ucast (load :: u32) + of_nat n :: addr) = unat load + n" by (simp add: unat_ucast_up)
  with assms(1) show "ucast (load :: u32) + of_nat n \<noteq> (0 :: addr)" by auto
qed

lemma starter_finds_package:
  assumes inp: "inputs_ok debug fs nms cs" and img: "starter_image (cs ! 0) kh" and sd: "sizeof_desc < 2 ^ 20"
    and view: "package_view m (ucast (pi_load_addr m header)) cs kh"
    and vmx: "check_vmx_support cpuid_rcx feature_control = 0"
    and abi: "elf64_abi_ok L" "get_phdr64_ok L" "pie64_abi_ok L" and acc: "acceptable_file L info0 ii0 (cs ! 1) ii"
    and room: "length (cs ! 0) + unat (load_size ii) \<le> LOADER_BIN_SIZE debug"
  defines "load \<equiv> (ucast (pi_load_addr m header) :: addr)"
  shows "\<exists>xl xd m1 m2. starter_main L debug (of_nat sizeof_desc) cpuid_rcx feature_control info0 ii0 m
        header magic rsp rbp rflags return_address = Some (Enter xl xd m2) \<and>
      xd_loader_mem_addr xd = load \<and> xd_runtime_mem_addr xd = ucast (pi_run_addr m1 header) \<and>
      (\<forall>x. \<not> in_range (load + of_nat (desc_off debug)) sizeof_desc x \<longrightarrow> m1 x = m x) \<and>
      xl = module_entry L m1 (xd_xmon_loader_file xd) ii (load + of_nat (xmon_loader_off debug)) \<and>
      module_loaded L m1 (xd_xmon_loader_file xd) ii (load + of_nat (xmon_loader_off debug)) m2 \<and>
      list_all2 (\<lambda>f c. mod_size f = of_nat (length c) \<and> mem_holds m2 (mod_addr f) c)
        [xd_xmon_loader_file xd, xd_startap_file xd, xd_xmon_file xd] (tl cs)"
proof -
  let ?h = "load + of_nat (4 * kh)"
  have usd: "unat (of_nat sizeof_desc :: u64) = sizeof_desc" using sd by (intro unat_of_nat64) simp
  define m1 where "m1 = mon_memset m (load + of_nat (desc_off debug)) 0 (of_nat sizeof_desc)"
  define xd where "xd = starter_desc debug m1 ?h load header magic rsp rbp rflags return_address"
  note lay = starter_image_layout [OF img] and s = inputs_ok_sizes [OF inp]
  have len0: "0 < length (cs ! 0)" "length (cs ! 0) < 2 ^ 20"
    using img concat_starter_le [OF s(1)] loader_bin_size_less [OF s(3)] by (auto simp: starter_image_def)
  have frame: "m1 x = m x" if "\<not> in_range (load + of_nat (desc_off debug)) sizeof_desc x" for x
    using that by (simp add: m1_def mon_memset_apply usd)
  have "disjoint_ranges (load + of_nat ldr_bin_off) (LOADER_BIN_SIZE debug) (load + of_nat (desc_off debug)) sizeof_desc"
    unfolding load_def using sd by (intro package_apart) simp
  then have same: "m1 x = m x" if "in_range load (LOADER_BIN_SIZE debug) x" for x
    using disjoint_ranges_not_both [OF _ that, of "load + of_nat (desc_off debug)" sizeof_desc] frame by (auto simp: ldr_bin_off_def)
  have found: "get_file_offsets_header m (pi_load_addr m header) SCAN_MAX_IMAGE_SIZE = Some ?h"
    unfolding load_def by (rule view_header_found [OF inp lay view])
  have view1: "package_view m1 (ucast (pi_load_addr m header)) cs kh"
    using package_view_cong [OF inp img view] same by (simp add: load_def)
  note modules = view_modules_found [OF inp view1, of ?h, unfolded load_def, OF refl, folded load_def]
  have h0: "?h \<noteq> 0"
  proof -
    have "4 * kh < 2 ^ 20" "0 < 4 * kh" using img len0 by (auto simp: starter_image_def)
    then show ?thesis unfolding load_def by (intro module_address)
  qed
  have files: "xd_xmon_loader_file xd = module_file m1 ?h load XMON_LOADER_BIN_INDEX"
    "xd_startap_file xd = module_file m1 ?h load STARTAP_BIN_INDEX" "xd_xmon_file xd = module_file m1 ?h load XMON_BIN_INDEX"
    by (simp_all add: xd_def starter_desc_def)
  have "xd_xmon_loader_file xd = \<lparr>mod_addr = mod_addr (xd_xmon_loader_file xd), mod_size = of_nat (length (cs ! 1))\<rparr>"
    using modules(2) [of XMON_LOADER_BIN_INDEX] by (simp add: files module_no_def)
  moreover have "length (concat (take 1 cs)) = length (cs ! 0)" using s(1) by (auto elim!: list4E)
  then have at: "mod_addr (xd_xmon_loader_file xd) = load + of_nat (length (cs ! 0))"
    using modules(3) [of XMON_LOADER_BIN_INDEX] by (simp add: files module_no_def)
  note at_load = module_address [OF len0, of "pi_load_addr m header", folded load_def, folded at]
  moreover have "unat (mod_addr (xd_xmon_loader_file xd)) + length (cs ! 1) < 2 ^ 64"
  proof -
    have "length (cs ! 1) \<le> length (concat cs)" using s(1) by (auto elim!: list4E)
    then have "length (cs ! 1) < 2 ^ 20" using loader_bin_size_less [OF s(3)] by linarith
    then have "unat (mod_addr (xd_xmon_loader_file xd)) + length (cs ! 1) < 2 ^ 32 + 2 ^ 20 + 2 ^ 20"
      using at_load(2) len0(2) unat_less32 [of "pi_load_addr m header"] by linarith
    then show ?thesis by simp
  qed
  moreover have "mem_holds m1 (mod_addr (xd_xmon_loader_file xd)) (cs ! 1)"
    using modules(4) [of XMON_LOADER_BIN_INDEX] by (simp add: files module_no_def)
  ultimately have ok: "module_ok L info0 ii0 m1 (xd_xmon_loader_file xd) XMON_LOADER_IMG_SIZE ii"
    using acc unfolding acceptable_file_def by metis
  have "unat (of_nat sizeof_desc :: u64) \<le> 2 ^ 31" using sd usd by simp
  from starter_main_run [OF abi load_def [THEN meta_eq_to_obj_eq] found h0 vmx this m1_def modules(1) xd_def ok]
  obtain m2 where run: "starter_main L debug (of_nat sizeof_desc) cpuid_rcx feature_control info0 ii0 m
        header magic rsp rbp rflags return_address =
      Some (Enter (module_entry L m1 (xd_xmon_loader_file xd) ii (load + of_nat (xmon_loader_off debug))) xd m2)"
    and loaded: "module_loaded L m1 (xd_xmon_loader_file xd) ii (load + of_nat (xmon_loader_off debug)) m2"
    and kept: "\<And>x. in_range load (LOADER_BIN_SIZE debug) x \<Longrightarrow> m2 x = m x"
    using room modules(5) by auto
  have view2: "package_view m2 (ucast (pi_load_addr m header)) cs kh"
    using package_view_cong [OF inp img view] kept by (simp add: load_def)
  have "mod_size f = of_nat (length (cs ! module_no i)) \<and> mem_holds m2 (mod_addr f) (cs ! module_no i)"
    if "f = module_file m1 ?h load i" for f i
  proof -
    have "module_no i \<in> {1, 2, 3}" by (cases i) (simp_all add: module_no_def)
    then show ?thesis using that modules(2,3) view2 unfolding package_view_def load_def by metis
  qed
  note this [OF files(1)] this [OF files(2)] this [OF files(3)]
  then have "list_all2 (\<lambda>f c. mod_size f = of_nat (length c) \<and> mem_holds m2 (mod_addr f) c)
      [xd_xmon_loader_file xd, xd_startap_file xd, xd_xmon_file xd] (tl cs)"
    using s(1) by (elim list4E) (simp add: module_no_def)
  then show ?thesis using run loaded frame by (intro exI conjI) (auto simp: xd_def starter_desc_def)
qed

lemma package_sizes:
  assumes inp: "inputs_ok debug fs nms cs" and lay: "starter_layout (cs ! 0) kh kb" and "sizeof_desc < 2 ^ 20"
  shows "unat (of_nat (loader_layout_size debug sizeof_desc) :: u32) = loader_layout_size debug sizeof_desc"
    and "desc_off debug + sizeof_desc \<le> loader_layout_size debug sizeof_desc"
    and "LOADER_BIN_SIZE debug \<le> loader_layout_size debug sizeof_desc"
    and "length (package debug sizeof_desc cs kh kb) + 1 \<le> loader_layout_size debug sizeof_desc"
    and "loader_layout_size debug sizeof_desc < 2 ^ 32"
proof -
  have desc: "desc_off debug + sizeof_desc \<le> loader_layout_size debug sizeof_desc"
    using page_bytes_ge [of sizeof_desc] by (simp add: loader_layout_size_def)
  then show "desc_off debug + sizeof_desc \<le> loader_layout_size debug sizeof_desc" .
  have big: "LOADER_BIN_SIZE debug + 4096 \<le> desc_off debug" by (cases debug) (simp_all add: layout_offsets LOADER_BIN_SIZE_def)
  then show "LOADER_BIN_SIZE debug \<le> loader_layout_size debug sizeof_desc" using desc by linarith
  have "length (package debug sizeof_desc cs kh kb) \<le> length (concat cs) + 4095"
    unfolding package_length [OF inp lay] by (rule div_times_less_eq_dividend)
  then show "length (package debug sizeof_desc cs kh kb) + 1 \<le> loader_layout_size debug sizeof_desc"
    using inputs_ok_sizes(3) [OF inp] big desc by linarith
  have "page_bytes sizeof_desc \<le> sizeof_desc + 4095"
    unfolding page_bytes_def NUM_OF_PAGE_def drop_bit_eq_div using times_div_less_eq_dividend [of 4096 "sizeof_desc + 4095"] by simp
  moreover have "desc_off debug \<le> 0x20ED000" by (cases debug) (simp_all add: layout_offsets)
  ultimately show small: "loader_layout_size debug sizeof_desc < 2 ^ 32" using assms(3) by (simp add: loader_layout_size_def)
  then show "unat (of_nat (loader_layout_size debug sizeof_desc) :: u32) = loader_layout_size debug sizeof_desc"
    by (rule unat_of_nat32)
qed

text \<open>Where the firmware puts its blocks and the caller its stack.\<close>

definition blocks_ok :: "(u64 \<times> u64) list \<Rightarrow> u64 \<Rightarrow> bool" where
  "blocks_ok bs rsp \<longleftrightarrow>
     (\<forall>b \<in> set bs. 4096 dvd unat (fst b) \<and> disjoint_ranges (rsp - 8) 8 (fst b) (4096 * unat (snd b)))"

lemma low_block_aligned: "4096 dvd unat (ucast (a :: u32) :: u64) \<Longrightarrow> 4096 dvd unat a"
  by (simp add: unat_ucast_u32_u64)

text \<open>The word that \<open>start_x64\<close> pushes is in no granted block: the package and the platform information stay.\<close>

lemma pushed_word_hidden:
  assumes inp: "inputs_ok debug fs nms cs" and img: "starter_image (cs ! 0) kh" and sd: "sizeof_desc < 2 ^ 20"
    and ent: "loader_entered (package debug sizeof_desc cs kh 0) 0 p1 p2 entry p m" and low: "unat p2 < 2 ^ 32"
    and bs: "{(p1, ldr_pages (package debug sizeof_desc cs kh 0) 0), (p2, rt_pages (package debug sizeof_desc cs kh 0) 0),
      (p, EFI_SIZE_TO_PAGES 16)} \<subseteq> set bs" and stack: "blocks_ok bs rsp"
    and pushed: "\<forall>x. \<not> in_range (rsp - 8) 8 x \<longrightarrow> m' x = m x"
  shows "package_view m' (ucast (pi_load_addr m' p)) cs kh"
    and "pi_load_addr m' p = pi_load_addr m p" and "pi_run_addr m' p = pi_run_addr m p"
proof -
  note sizes = package_sizes [OF inp starter_image_layout [OF img] sd]
    and fields = starter_package_fields [OF inp img, of sizeof_desc]
  let ?load = "ucast (pi_load_addr m p) :: addr"
  have blocks: "(?load, EFI_SIZE_TO_PAGES (ucast (of_nat (loader_layout_size debug sizeof_desc) :: u32))) \<in> set bs" "(p, EFI_SIZE_TO_PAGES 16) \<in> set bs"
    and run_block: "(ucast (pi_run_addr m p), EFI_SIZE_TO_PAGES (ucast (of_nat (runtime_layout_size debug) :: u32))) \<in> set bs"
    using ent bs low low_address [of p2] by (simp_all add: loader_entered_def ldr_pages_def rt_pages_def fields(3,4))
  have aligned: "4096 dvd unat (pi_load_addr m p)" "4096 dvd unat (pi_run_addr m p)"
    using stack blocks(1) run_block low_block_aligned unfolding blocks_ok_def by (metis fst_conv)+
  have kept: "m' x = m x" if "b \<in> set bs" "in_range (fst b) (4096 * unat (snd b)) x" for b x
    using stack that disjoint_ranges_not_both pushed unfolding blocks_ok_def by metis
  have page: "unat (EFI_SIZE_TO_PAGES 16) = 1" by (simp add: pages_count)
  have "load32 m' (p + v) = load32 m (p + v)" if "unat v + 4 \<le> 16" for v
    using kept [OF blocks(2)] that in_range_sub [of p v 4 _ 4096] page by (intro load_le_cong) simp_all
  from this [of 8] this [of 12] show info: "pi_load_addr m' p = pi_load_addr m p" "pi_run_addr m' p = pi_run_addr m p"
    by (simp_all add: pi_load_addr_def pi_run_addr_def)
  have cover: "loader_layout_size debug sizeof_desc \<le>
      4096 * unat (EFI_SIZE_TO_PAGES (ucast (of_nat (loader_layout_size debug sizeof_desc) :: u32)))"
    using pages_cover [of "ucast (of_nat (loader_layout_size debug sizeof_desc) :: u32)"] sizes(1) by (simp add: unat_ucast_u32_u64)
  have "package_view m' ?load cs kh"
  proof (rule package_view_cong [OF inp img entered_view [OF inp img sd ent low aligned]])
    fix x assume "in_range ?load (LOADER_BIN_SIZE debug) x"
    then show "m' x = m x" using kept [OF blocks(1)] in_range_mono sizes(3) cover by fastforce
  qed
  then show "package_view m' (ucast (pi_load_addr m' p)) cs kh" by (simp add: info)
qed

lemma package_boots:
  assumes packer: "host_ok H" "parse_packer_cmdline argv files_options = Inr (named_options nms)"
      "packer_main H debug sizeof_desc argv fs = (r, fs')" "fs' XMON_PKG_BIN_NAME = Some pkg"
    and inp: "inputs_ok debug fs nms cs" and img: "starter_image (cs ! 0) kh" and sd: "sizeof_desc < 2 ^ 20"
    and firmware: "pages_as_asked F" "pages_apart F" "map_keeps_blocks F" "delivers F pkg" "copies F"
    and efi: "efi_calls st = []" "efi_main F st = Some e" "(entry, p, m) \<in> set (loader_calls (end_calls e))"
    and low: "unat (fst (blocks (end_calls e) ! 1)) < 2 ^ 32" "unat (fst (blocks (end_calls e) ! 2)) < 2 ^ 32"
    and cpu: "x_reg c RDI = p" "blocks_ok (blocks (end_calls e)) (x_reg c RSP)"
    and abi: "elf64_abi_ok L" "get_phdr64_ok L" "pie64_abi_ok L" and acc: "acceptable_file L info0 ii0 (cs ! 1) ii"
    and room: "length (cs ! 0) + unat (load_size ii) \<le> LOADER_BIN_SIZE debug"
  shows "entry = ucast (pi_load_addr m p + of_nat start_x64_offset) \<and>
    (\<exists>xl xd m2. run_starter L debug (of_nat sizeof_desc) (fw_cpuid_rcx F) (fw_feature_control F) info0 ii0 main at c m =
        Some (Enter xl xd m2) \<and>
      xd_loader_mem_addr xd = ucast (pi_load_addr m p) \<and> xd_runtime_mem_addr xd = ucast (pi_run_addr m p) \<and>
      (\<exists>m1. module_loaded L m1 (xd_xmon_loader_file xd) ii (xd_loader_mem_addr xd + of_nat (xmon_loader_off debug)) m2 \<and>
        xl = module_entry L m1 (xd_xmon_loader_file xd) ii (xd_loader_mem_addr xd + of_nat (xmon_loader_off debug))) \<and>
      st_rbx (xd_initial_state xd) = p \<and>
      list_all2 (\<lambda>f c. mod_size f = of_nat (length c) \<and> mem_holds m2 (mod_addr f) c)
        [xd_xmon_loader_file xd, xd_startap_file xd, xd_xmon_file xd] (tl cs))"
proof -
  note lay = starter_image_layout [OF img]
  have pkg: "pkg = package debug sizeof_desc cs kh 0"
    using packer_main_run [OF packer(1,2) inp lay, of sizeof_desc] packer(3,4) by auto
  note fields = starter_package_fields [OF inp img, of sizeof_desc, folded pkg]
  note sizes = package_sizes [OF inp lay sd, folded pkg]
  have fit: "length pkg + 1 < 2 ^ 32" "length pkg + 1 \<le> unat (image_field pkg 0 44)"
    using sizes unfolding fields(4) by linarith+
  from efi_main_loader_call [OF firmware fields(1) fit efi]
  obtain ia na p1 p2 where vmx: "check_vmx_support (fw_cpuid_rcx F) (fw_feature_control F) = 0"
    and bs: "blocks (end_calls e) = [(ia, na), (p1, ldr_pages pkg 0), (p2, rt_pages pkg 0), (p, EFI_SIZE_TO_PAGES 16)]"
    and "unat p1 < 2 ^ 32 \<longrightarrow> loader_entered pkg 0 p1 p2 entry p m"
    by (auto simp: vmx_support_def check_vmx_support_def)
  then have ent: "loader_entered pkg 0 p1 p2 entry p m" and low2: "unat p2 < 2 ^ 32" using low by simp_all
  let ?load = "ucast (pi_load_addr m p) :: addr" and ?nl = "EFI_SIZE_TO_PAGES (ucast (image_field pkg 0 44))"
  have blocks: "disjoint_ranges p 4096 ?load (4096 * unat ?nl)" "entry = ucast (pi_load_addr m p + 52)"
    using ent by (simp_all add: loader_entered_def ldr_pages_def fields(2))
  have cover: "loader_layout_size debug sizeof_desc \<le> 4096 * unat ?nl"
    using pages_cover [of "ucast (image_field pkg 0 44)"] sizes(1) by (simp add: fields(4) unat_ucast_u32_u64)
  obtain m' where run: "run_starter L debug (of_nat sizeof_desc) (fw_cpuid_rcx F) (fw_feature_control F) info0 ii0 main at c m =
      starter_main L debug (of_nat sizeof_desc) (fw_cpuid_rcx F) (fw_feature_control F) info0 ii0 m'
        p IKGT_BOOTLOADER_MAGIC (x_reg c RSP) (x_reg c RBP) (saved_flags (x_flags c)) (at 8)"
    and pushed: "\<forall>x. \<not> in_range (x_reg c RSP - 8) 8 x \<longrightarrow> m' x = m x"
    using run_starter_main [of L debug "of_nat sizeof_desc" "fw_cpuid_rcx F" "fw_feature_control F" info0 ii0 main at c m]
    unfolding cpu(1) by blast
  note info = pushed_word_hidden [OF inp img sd ent [unfolded pkg] low2 _ cpu(2) pushed, unfolded bs pkg, simplified]
  obtain xl xd m1 m2 where st: "starter_main L debug (of_nat sizeof_desc) (fw_cpuid_rcx F) (fw_feature_control F) info0 ii0 m'
        p IKGT_BOOTLOADER_MAGIC (x_reg c RSP) (x_reg c RBP) (saved_flags (x_flags c)) (at 8) = Some (Enter xl xd m2)"
    and xd: "xd_loader_mem_addr xd = ?load" "xd_runtime_mem_addr xd = ucast (pi_run_addr m1 p)"
    and m1: "\<And>x. \<not> in_range (?load + of_nat (desc_off debug)) sizeof_desc x \<Longrightarrow> m1 x = m' x"
    and xl: "xl = module_entry L m1 (xd_xmon_loader_file xd) ii (?load + of_nat (xmon_loader_off debug))"
      "module_loaded L m1 (xd_xmon_loader_file xd) ii (?load + of_nat (xmon_loader_off debug)) m2"
      "list_all2 (\<lambda>f c. mod_size f = of_nat (length c) \<and> mem_holds m2 (mod_addr f) c)
        [xd_xmon_loader_file xd, xd_startap_file xd, xd_xmon_file xd] (tl cs)"
    using starter_finds_package [OF inp img sd info(1) vmx abi acc room] unfolding info(2) by blast
  have "m1 x = m' x" if "in_range p 4096 x" for x
  proof (rule m1)
    have "in_range ?load (4096 * unat ?nl) x" if "in_range (?load + of_nat (desc_off debug)) sizeof_desc x"
    proof (rule in_range_mono [OF _ cover])
      have "unat (of_nat (desc_off debug) :: addr) = desc_off debug" using sizes(2,5) by (intro unat_of_nat64) simp
      then show "in_range ?load (loader_layout_size debug sizeof_desc) x"
        using sizes(2,5) by (intro in_range_sub [OF that]) simp_all
    qed
    then show "\<not> in_range (?load + of_nat (desc_off debug)) sizeof_desc x"
      using disjoint_ranges_not_both [OF blocks(1) that] by blast
  qed
  then have "pi_run_addr m1 p = pi_run_addr m' p"
    unfolding pi_run_addr_def using in_range_sub [of p 12 4 _ 4096] by (intro load_le_cong) simp_all
  moreover have "st_rbx (xd_initial_state xd) = p" using starter_main_desc [OF st] by simp
  ultimately show ?thesis using blocks(2) run st xd xl info(3) by (auto simp: start_x64_offset_def)
qed

text \<open>
  C1: The boot chain: four input files are packed, the first with the entry code and an empty file mapping
  header, the second (xmon_loader) without a dynamic segment or position independent with relative relocations behind its
  headers. Whenever the UEFI application calls the loader, on firmware that grants pages as asked for and apart, keeps its
  blocks over the memory map, delivers the file and copies memory, and this run's grants for the load-time and the run-time
  block lie below 4 GB (the limits the application passes do not force that), the call goes
  to \<open>start_x64\<close> in the package, and the starter finds everything in it: it enters
  xmon_loader, loaded and relocated at its place in the load-time memory, with a descriptor that names the two
  granted blocks, the platform information, and the three modules, each with its bytes.
\<close>

theorem package_boots_xmon_loader:
  assumes packer: "host_ok H" "parse_packer_cmdline argv files_options = Inr (named_options nms)"
      "packer_main H debug sizeof_desc argv fs = (r, fs')" "fs' XMON_PKG_BIN_NAME = Some pkg"
    and inp: "inputs_ok debug fs nms cs" and img: "starter_image (cs ! 0) kh" and sd: "sizeof_desc < 2 ^ 20"
    and firmware: "pages_as_asked F" "pages_apart F" "map_keeps_blocks F" "delivers F pkg" "copies F"
    and efi: "efi_calls st = []" "efi_main F st = Some e" "(entry, p, m) \<in> set (loader_calls (end_calls e))"
    and low: "unat (fst (blocks (end_calls e) ! 1)) < 2 ^ 32" "unat (fst (blocks (end_calls e) ! 2)) < 2 ^ 32"
    and cpu: "x_reg c RDI = p" "blocks_ok (blocks (end_calls e)) (x_reg c RSP)"
    and abi: "elf64_abi_ok L" "get_phdr64_ok L" "pie64_abi_ok L" and acc: "acceptable_file L info0 ii0 (cs ! 1) ii"
    and room: "length (cs ! 0) + unat (load_size ii) \<le> LOADER_BIN_SIZE debug"
  shows "entry = ucast (pi_load_addr m p + of_nat start_x64_offset) \<and>
    (\<exists>xl xd m2. run_starter L debug (of_nat sizeof_desc) (fw_cpuid_rcx F) (fw_feature_control F) info0 ii0 main at c m =
        Some (Enter xl xd m2) \<and>
      xd_loader_mem_addr xd = ucast (pi_load_addr m p) \<and> xd_runtime_mem_addr xd = ucast (pi_run_addr m p) \<and>
      (\<exists>m1. module_loaded L m1 (xd_xmon_loader_file xd) ii (xd_loader_mem_addr xd + of_nat (xmon_loader_off debug)) m2 \<and>
        xl = module_entry L m1 (xd_xmon_loader_file xd) ii (xd_loader_mem_addr xd + of_nat (xmon_loader_off debug))) \<and>
      st_rbx (xd_initial_state xd) = p \<and>
      list_all2 (\<lambda>f c. mod_size f = of_nat (length c) \<and> mem_holds m2 (mod_addr f) c)
        [xd_xmon_loader_file xd, xd_startap_file xd, xd_xmon_file xd] (tl cs))"
  by (rule package_boots [OF packer inp img sd firmware efi low cpu abi acc room])

section \<open>A concrete boot\<close>

text \<open>The starter: its header, the first bytes of \<open>start_x64\<close>, the empty file mapping header.\<close>

definition demo_start :: "u8 list" where
  "demo_start = ikgt_boot_header @ [0xFA, 0x48, 0x89, 0xFF] @ file_magic_bytes @ replicate 28 0"

definition demo_chain :: "u8 list list" where "demo_chain = [demo_start, demo_elf, demo_elf, demo_elf]"

definition demo_chain_files :: files where "demo_chain_files = map_of (zip demo_names demo_chain)"

definition demo_chain_pkg :: "u8 list" where "demo_chain_pkg = package False 0x1000 demo_chain 14 0"

lemma demo_start_ok: "starter_image demo_start 14" "length demo_start = 92" "demo_start \<noteq> []"
  by code_simp+

lemma demo_chain_inputs: "inputs_ok False demo_chain_files demo_names demo_chain"
  by (simp add: inputs_ok_def all_less4 demo_chain_files_def demo_names_def demo_chain_def XMON_PKG_BIN_NAME_def
      demo_lengths demo_start_ok LOADER_BIN_SIZE_def)

lemma demo_chain_image: "starter_image (demo_chain ! 0) 14"
  by (simp add: demo_chain_def demo_start_ok)

lemma demo_chain_packed:
  "packer_main demo_host False 0x1000 [''packer''] demo_chain_files =
     (Inr (), demo_chain_files(XMON_PKG_BIN_NAME := Some demo_chain_pkg))"
  unfolding demo_chain_pkg_def
  by (rule packer_main_run [OF demo_host_ok demo_parse demo_chain_inputs starter_image_layout [OF demo_chain_image]])

lemma demo_chain_bootable: "demo_bootable demo_chain_pkg 0"
proof -
  note f = starter_package_fields [OF demo_chain_inputs demo_chain_image, of "0x1000", folded demo_chain_pkg_def]
  have "length demo_chain_pkg = 4096"
    using package_length [OF demo_chain_inputs starter_image_layout [OF demo_chain_image], of "0x1000"]
    by (simp add: demo_chain_pkg_def demo_chain_def demo_lengths demo_start_ok)
  then show ?thesis
    by (simp add: demo_bootable_def f layout_offsets loader_layout_size_def page_bytes_def NUM_OF_PAGE_def drop_bit_eq_div)
qed

lemma demo_blocks_ok:
  assumes "length ns = 4" and "\<forall>n \<in> set ns. n \<le> 0x4000"
  shows "blocks_ok (demo_blocks ns) 0x8000"
proof -
  have "4096 dvd unat (demo_block j) \<and> disjoint_ranges 0x7FF8 8 (demo_block j) (4096 * unat n)"
    if "j < 4" "n \<in> set ns" for j n
  proof
    have n: "unat n \<le> 0x4000" using assms(2) that(2) by (simp add: word_le_nat_alt)
    have a: "unat (demo_block j) = 0x4000000 * (j + 1)" using that(1) by (intro demo_address) simp
    then show "4096 dvd unat (demo_block j)" by (simp add: dvd_mult2)
    show "disjoint_ranges 0x7FF8 8 (demo_block j) (4096 * unat n)"
    proof (rule disjoint_rangesI)
      fix x assume "in_range 0x7FF8 8 x" "in_range (demo_block j) (4096 * unat n) x"
      then show False
        using in_range_linear [of "0x7FF8" 8 x] in_range_linear [of "demo_block j" "4096 * unat n" x] a n that(1) by simp
    qed
  qed
  then have each: "4096 dvd unat b \<and> disjoint_ranges 0x7FF8 8 b (4096 * unat n)"
    if "b \<in> set (map demo_block [0..<4])" "n \<in> set ns" for b n
    using that by auto
  show ?thesis unfolding blocks_ok_def demo_blocks_def assms(1)
  proof
    fix b assume "b \<in> set (zip (map demo_block [0..<4]) ns)"
    then have "(fst b, snd b) \<in> set (zip (map demo_block [0..<4]) ns)" by simp
    from each [OF set_zip_leftD [OF this] set_zip_rightD [OF this]]
    show "4096 dvd unat (fst b) \<and> disjoint_ranges (0x8000 - 8) 8 (fst b) (4096 * unat (snd b))" by simp
  qed
qed

lemma demo_elf_acceptable:
  "acceptable_file elf_std demo_info zero_image_info demo_elf \<lparr>load_size = 0x108, image_machine = Some IMAGE_MACHINE_EM64T\<rparr>"
  unfolding acceptable_file_def
proof (intro allI impI, elim conjE)
  fix m and a :: addr assume "a \<noteq> 0" and "mem_holds m a demo_elf" and wrap: "unat a + length demo_elf < 2 ^ 64"
  then have "demo_at m a" by (simp add: mem_holds_def demo_at_def demo_lengths)
  then show "module_ok elf_std demo_info zero_image_info m \<lparr>mod_addr = a, mod_size = of_nat (length demo_elf)\<rparr> XMON_LOADER_IMG_SIZE
      \<lparr>load_size = 0x108, image_machine = Some IMAGE_MACHINE_EM64T\<rparr>"
    using wrap at_loadable [of m a 260] at_loadable [of m a 264] at_get_image_info [of m a 260 demo_info zero_image_info] \<open>a \<noteq> 0\<close>
    by (simp add: module_ok_def demo_lengths zero_image_info_def XMON_LOADER_IMG_SIZE_def)
qed

definition demo_cpu64 :: "addr \<Rightarrow> cpu64" where
  "demo_cpu64 p = \<lparr>x_reg = (\<lambda>_. 0x8000)(RDI := p), x_flags = 0x202, x_ip = 0\<rparr>"

lemma demo_chain_run:
  obtains e entry p m where "efi_main (demo_fw demo_chain_pkg) demo_efi = Some e"
    and "(entry, p, m) \<in> set (loader_calls (end_calls e))"
    and "unat (fst (blocks (end_calls e) ! 1)) < 2 ^ 32" and "unat (fst (blocks (end_calls e) ! 2)) < 2 ^ 32"
    and "blocks_ok (blocks (end_calls e)) 0x8000"
proof -
  obtain err st' entry p m ns where run: "efi_main (demo_fw demo_chain_pkg) demo_efi = Some (Returns err st')"
      "loader_calls (efi_calls st') = [(entry, p, m)]"
    and ns: "blocks (efi_calls st') = demo_blocks ns" "length ns = 4" "\<forall>n \<in> set ns. n \<le> 0x4000"
    using demo_boot [OF demo_chain_bootable] by metis
  have "blocks_ok (blocks (efi_calls st')) 0x8000" using demo_blocks_ok ns by simp
  moreover have "unat (fst (blocks (efi_calls st') ! 1)) < 2 ^ 32" "unat (fst (blocks (efi_calls st') ! 2)) < 2 ^ 32"
    using ns demo_address [of 1] demo_address [of 2] by (simp_all add: demo_blocks_nth)
  ultimately show ?thesis using run by (intro that [of "Returns err st'" entry p m]) simp_all
qed

lemma demo_chain_facts:
  "demo_chain_pkg = the ((demo_chain_files(XMON_PKG_BIN_NAME := Some demo_chain_pkg)) XMON_PKG_BIN_NAME)"
  "length (demo_chain ! 0) + unat (0x108 :: u64) \<le> LOADER_BIN_SIZE False" "efi_calls demo_efi = []"
  by (simp_all add: demo_chain_def demo_start_ok LOADER_BIN_SIZE_def demo_efi_def)

theorem package_boots_xmon_loader_witness:
  "\<exists>p m xl xd m2. run_starter elf_std False 0x1000 0x20 5 demo_info zero_image_info 0x100 (\<lambda>i. of_nat i) (demo_cpu64 p) m =
      Some (Enter xl xd m2) \<and> st_rbx (xd_initial_state xd) = p \<and> mem_holds m2 (mod_addr (xd_xmon_file xd)) demo_elf"
proof -
  obtain e entry p m where run: "efi_main (demo_fw demo_chain_pkg) demo_efi = Some e"
      "(entry, p, m) \<in> set (loader_calls (end_calls e))"
    and low: "unat (fst (blocks (end_calls e) ! 1)) < 2 ^ 32" "unat (fst (blocks (end_calls e) ! 2)) < 2 ^ 32"
    and bs: "blocks_ok (blocks (end_calls e)) 0x8000"
    by (rule demo_chain_run)
  let ?c = "demo_cpu64 p"
  have c: "x_reg ?c RDI = p" "blocks_ok (blocks (end_calls e)) (x_reg ?c RSP)" using bs by (simp_all add: demo_cpu64_def)
  have pkg: "(demo_chain_files(XMON_PKG_BIN_NAME := Some demo_chain_pkg)) XMON_PKG_BIN_NAME = Some demo_chain_pkg" by simp
  have "acceptable_file elf_std demo_info zero_image_info (demo_chain ! 1) \<lparr>load_size = 0x108, image_machine = Some IMAGE_MACHINE_EM64T\<rparr>"
    using demo_elf_acceptable by (simp add: demo_chain_def)
  from package_boots_xmon_loader [OF demo_host_ok demo_parse demo_chain_packed pkg demo_chain_inputs demo_chain_image _
      demo_laws(1-3,5,4) demo_chain_facts(3) run low c elf_std_ok elf_std_get_phdr elf_std_pie this, of "0x100" "\<lambda>i. of_nat i"]
  show ?thesis using demo_chain_facts(2) by (auto simp: demo_fw_def demo_chain_def)
qed

lemma demo_chain_entered:
  obtains p m xl xd m2 where "run_starter elf_std False 0x1000 0x20 5 demo_info zero_image_info 0x100 (\<lambda>i. of_nat i)
      (demo_cpu64 p) m = Some (Enter xl xd m2)"
proof -
  obtain e entry p m where run: "efi_main (demo_fw demo_chain_pkg) demo_efi = Some e"
      "(entry, p, m) \<in> set (loader_calls (end_calls e))"
    and low: "unat (fst (blocks (end_calls e) ! 1)) < 2 ^ 32" "unat (fst (blocks (end_calls e) ! 2)) < 2 ^ 32"
    and bs: "blocks_ok (blocks (end_calls e)) 0x8000"
    by (rule demo_chain_run)
  let ?c = "demo_cpu64 p"
  have c: "x_reg ?c RDI = p" "blocks_ok (blocks (end_calls e)) (x_reg ?c RSP)" using bs by (simp_all add: demo_cpu64_def)
  have pkg: "(demo_chain_files(XMON_PKG_BIN_NAME := Some demo_chain_pkg)) XMON_PKG_BIN_NAME = Some demo_chain_pkg" by simp
  have "acceptable_file elf_std demo_info zero_image_info (demo_chain ! 1) \<lparr>load_size = 0x108, image_machine = Some IMAGE_MACHINE_EM64T\<rparr>"
    using demo_elf_acceptable by (simp add: demo_chain_def)
  from package_boots [OF demo_host_ok demo_parse demo_chain_packed pkg demo_chain_inputs demo_chain_image _
      demo_laws(1-3,5,4) demo_chain_facts(3) run low c elf_std_ok elf_std_get_phdr elf_std_pie this, of "0x100" "\<lambda>i. of_nat i"]
  show ?thesis using demo_chain_facts(2) that by (auto simp: demo_fw_def)
qed

definition demo_guest_cpu :: "(gp_reg \<Rightarrow> u64) \<Rightarrow> cpu64" where
  "demo_guest_cpu gp = \<lparr>x_reg = (\<lambda>_. 0)(RAX := gp REG_RAX, RBX := gp REG_RBX, RCX := gp REG_RCX, RDX := gp REG_RDX,
      RSI := gp REG_RSI, RDI := gp REG_RDI, RBP := gp REG_RBP, RSP := gp REG_RSP), x_flags = gp REG_RFLAGS, x_ip = 8\<rparr>"

theorem primary_guest_returns_witness:
  "\<exists>p m g' gp. run_asm (\<lambda>i. of_nat i) (start_x64 0x100) (demo_guest_cpu gp) m = Some (Returns_To (load64 m 0x8000) g' m) \<and>
     gp REG_RIP = 8 \<and> x_reg g' RSP = 0x8008 \<and> x_reg g' RBX = p"
proof -
  obtain p m xl xd m2 where run: "run_starter elf_std False 0x1000 0x20 5 demo_info zero_image_info 0x100 (\<lambda>i. of_nat i)
      (demo_cpu64 p) m = Some (Enter xl xd m2)"
    by (rule demo_chain_entered)
  have "ok_bytes (sizeof_cpu_state demo_abi)" "ok_bytes (sizeof_guest_startup demo_abi)"
    by (simp_all add: ok_bytes_def demo_abi_def)
  then obtain pg h' m' where pg: "setup_primary_guest_env sdm_view demo_abi align_forward_macro demo_cpu demo_gdt
      demo_heap 0x7000 xd = (Some pg, h', m')"
    using setup_primary_guest_env_result [OF align_forward_macro_law demo_heap_inv, of demo_abi sdm_view
        demo_cpu demo_gdt "0x7000" xd] by (auto simp: demo_abi_def demo_heap_def)
  have g: "loaded_from (cs_gp (pg_cpu pg)) (demo_guest_cpu (cs_gp (pg_cpu pg)))" "x_ip (demo_guest_cpu (cs_gp (pg_cpu pg))) = 8"
    by (simp_all add: loaded_from_def demo_guest_cpu_def)
  from primary_guest_returns [OF run pg g, of m] show ?thesis by (force simp: demo_cpu64_def)
qed

end
