(* ===== verification/Wakeup_Code.thy ===== *)
theory Wakeup_Code
  imports Asm_Machine Ap_Handover
begin

text \<open>
  \<open>startap/wakeup_init64.S\<close>: the instructions an application processor runs in 64-bit mode between the start-up
  code and \<open>ap_continue_wakeup_code_C\<close>, one processor step per instruction, any number of processors
  interleaved with each other and with the C code of \<open>Ap_Enumeration\<close>; and \<open>call_xmon_entry\<close>.
\<close>

section \<open>The program\<close>

text \<open>Where the linker puts the variables, the stacks and the C function.\<close>

record wakeup_symbols =
  sy_presence :: addr
  sy_state :: addr
  sy_stacks :: addr
  sy_entry_C :: addr

definition ap_continue_wakeup_code :: "wakeup_symbols \<Rightarrow> asm list" where
  "ap_continue_wakeup_code sy =
    [Lea32 RDX (sy_presence sy), Add32 RDX RCX, Store8_Imm 1 RDX,
     \<comment> \<open>wait_lock_1, at 3\<close> Xor32 RCX RCX, Lea32 RCX (sy_state sy), Cmp32_Imm 1 RCX, Je 9, Pause, Jmp 3,
     \<comment> \<open>stage_2, at 9\<close> Xor64 RCX RCX, Xor64 RAX RAX, Load8 RCX RDX,
     Xor64 RDX RDX, Mov32 RDX RCX, Lea64 RAX (sy_stacks sy), Shl32 RCX 10, Add64 RAX RCX, Sub_Imm64 RAX 4, Mov64 RSP RAX,
     Push_Imm 0, Pop_Flags, Mov64 RDI RDX, Call (sy_entry_C sy), Jmp 23]"

definition call_xmon_entry :: "asm list" where
  "call_xmon_entry =
    [Cli, Xor64 R9 R9, Mov64 R9 R8, Xor64 R8 R8, Mov64 R8 RCX, Mov64 RDX RDX, Xor64 RCX RCX, Mov64 RCX RSI,
     Xor64 RBX RBX, Mov64 RBX RDI, Call_Reg RBX, Jmp 11]"

section \<open>The processors and the memory\<close>

text \<open>An application processor is in the assembly code or, woken not yet or already past it, in a C state.\<close>

datatype ap_place = Asm cpu64 | C_Code ap_pc

record wakeup_machine =
  wm_mem :: mem
  wm_ready :: u32
  wm_aps :: u32
  wm_func :: addr
  wm_data :: addr
  wm_bsp :: bsp_pc
  wm_ap :: "nat \<Rightarrow> ap_place"

text \<open>The ordered number a processor has read, in cl and then in edx; and where the registers say it is.\<close>

definition number_in :: "cpu64 \<Rightarrow> u8" where
  "number_in c = ucast (x_reg c (if x_ip c \<le> 13 then RCX else RDX))"

definition asm_place :: "cpu64 \<Rightarrow> ap_pc" where
  "asm_place c =
     (if x_ip c \<le> 2 then Woken
      else if x_ip c \<le> 8 \<and> \<not> (x_ip c = 6 \<and> bit (x_flags c) ZF) then Spinning
      else if x_ip c \<le> 11 then Stage2
      else Numbered (number_in c))"

definition place_of :: "ap_place \<Rightarrow> ap_pc" where
  "place_of p = (case p of Asm c \<Rightarrow> asm_place c | C_Code pc \<Rightarrow> pc)"

definition state_code :: "mp_bootstrap_state_t \<Rightarrow> u32" where
  "state_code st = (case st of MP_BOOTSTRAP_STATE_INIT \<Rightarrow> 0 | MP_BOOTSTRAP_STATE_APS_ENUMERATED \<Rightarrow> 1)"

definition wm_view :: "wakeup_symbols \<Rightarrow> wakeup_machine \<Rightarrow> ap_system" where
  "wm_view sy s =
     \<lparr>ap_presence_array = read_bytes (wm_mem s) (sy_presence sy) MON_MAX_CPU_SUPPORTED,
      mp_bootstrap_state = (if load32 (wm_mem s) (sy_state sy) = 1 then MP_BOOTSTRAP_STATE_APS_ENUMERATED else MP_BOOTSTRAP_STATE_INIT),
      g_ready_counter = wm_ready s, g_aps_counter = wm_aps s, g_user_func = wm_func s, g_any_data_for_user_func = wm_data s,
      bsp = wm_bsp s, ap = (\<lambda>a. place_of (wm_ap s a))\<rparr>"

text \<open>What the C code leaves in memory and in its own variables.\<close>

definition wm_put :: "wakeup_symbols \<Rightarrow> ap_system \<Rightarrow> wakeup_machine \<Rightarrow> wakeup_machine" where
  "wm_put sy t s =
     \<lparr>wm_mem = store32 (store_bytes (wm_mem s) (sy_presence sy) (ap_presence_array t)) (sy_state sy) (state_code (mp_bootstrap_state t)),
      wm_ready = g_ready_counter t, wm_aps = g_aps_counter t, wm_func = g_user_func t, wm_data = g_any_data_for_user_func t,
      wm_bsp = bsp t, wm_ap = (\<lambda>a. case wm_ap s a of Asm c \<Rightarrow> Asm c | C_Code _ \<Rightarrow> C_Code (ap t a))\<rparr>"

inductive wakeup_step :: "wakeup_symbols \<Rightarrow> (nat \<Rightarrow> addr) \<Rightarrow> addr \<Rightarrow> addr \<Rightarrow> wakeup_machine \<Rightarrow> wakeup_machine \<Rightarrow> bool"
  for sy at func data where
  instruction: "wm_ap s a = Asm c \<Longrightarrow> x_ip c < length (ap_continue_wakeup_code sy) \<Longrightarrow>
    exec_asm at (ap_continue_wakeup_code sy ! x_ip c) c (wm_mem s) = Goes c' m' \<Longrightarrow>
    wakeup_step sy at func data s (s\<lparr>wm_mem := m', wm_ap := (wm_ap s)(a := Asm c')\<rparr>)"
| call_C: "wm_ap s a = Asm c \<Longrightarrow> x_ip c < length (ap_continue_wakeup_code sy) \<Longrightarrow>
    exec_asm at (ap_continue_wakeup_code sy ! x_ip c) c (wm_mem s) = Calls f c' m' \<Longrightarrow>
    wakeup_step sy at func data s (s\<lparr>wm_mem := m', wm_ap := (wm_ap s)(a := C_Code (Numbered (ucast (x_reg c' RDI))))\<rparr>)"
| c_code: "punctual func data (wm_view sy s) t \<Longrightarrow>
    (\<forall>a c. wm_ap s a = Asm c \<longrightarrow> ap t a = asm_place c) \<Longrightarrow>
    wakeup_step sy at func data s (wm_put sy t s)"

text \<open>Below 4 GB, where the 32-bit address arithmetic of the code reaches; and apart.\<close>

definition symbols_ok :: "wakeup_symbols \<Rightarrow> bool" where
  "symbols_ok sy \<longleftrightarrow>
     unat (sy_presence sy) + MON_MAX_CPU_SUPPORTED < 2 ^ 32 \<and> unat (sy_state sy) + 4 < 2 ^ 32 \<and>
     disjoint_ranges (sy_presence sy) MON_MAX_CPU_SUPPORTED (sy_state sy) 4 \<and>
     disjoint_ranges (sy_presence sy) MON_MAX_CPU_SUPPORTED (sy_stacks sy) (STARTAP_STACK_SIZE * (MON_MAX_CPU_SUPPORTED - 1)) \<and>
     disjoint_ranges (sy_state sy) 4 (sy_stacks sy) (STARTAP_STACK_SIZE * (MON_MAX_CPU_SUPPORTED - 1))"

text \<open>The processors arrive from the start-up code with their identifier in ecx.\<close>

definition wakeup_boot :: "wakeup_symbols \<Rightarrow> nat set \<Rightarrow> wakeup_machine \<Rightarrow> bool" where
  "wakeup_boot sy cpus s \<longleftrightarrow>
     wm_view sy s = boot_state cpus \<and>
     (\<forall>a. if a \<in> cpus then \<exists>c. wm_ap s a = Asm c \<and> x_ip c = 0 \<and> reg32 RCX c = of_nat a else wm_ap s a = C_Code Off)"

section \<open>The registers\<close>

text \<open>The stack pointer of the processor with number \<open>n\<close>.\<close>

abbreviation stack_top :: "wakeup_symbols \<Rightarrow> u8 \<Rightarrow> addr" where
  "stack_top sy n \<equiv> ap_stack_pointer (sy_stacks sy) n"

definition asm_ok :: "wakeup_symbols \<Rightarrow> nat \<Rightarrow> cpu64 \<Rightarrow> bool" where
  "asm_ok sy a c \<longleftrightarrow> x_ip c \<le> 22 \<and>
     (x_ip c \<le> 1 \<longrightarrow> reg32 RCX c = of_nat a) \<and>
     (x_ip c = 1 \<longrightarrow> reg32 RDX c = ucast (sy_presence sy)) \<and>
     (2 \<le> x_ip c \<and> x_ip c \<le> 11 \<longrightarrow> reg32 RDX c = ucast (sy_presence sy) + of_nat a) \<and>
     (x_ip c = 5 \<longrightarrow> reg32 RCX c = ucast (sy_state sy)) \<and>
     (x_ip c \<in> {10, 11} \<longrightarrow> x_reg c RCX = 0) \<and>
     (x_ip c \<in> {12, 13, 14, 15} \<longrightarrow> x_reg c RCX = ucast (number_in c)) \<and>
     (14 \<le> x_ip c \<longrightarrow> x_reg c RDX = ucast (number_in c)) \<and>
     (x_ip c \<in> {15, 16} \<longrightarrow> x_reg c RAX = sy_stacks sy) \<and>
     (x_ip c = 16 \<longrightarrow> x_reg c RCX = ucast (push_bit 10 (ucast (number_in c) :: u32))) \<and>
     (x_ip c = 17 \<longrightarrow> x_reg c RAX = stack_top sy (number_in c) + 4) \<and>
     (x_ip c = 18 \<longrightarrow> x_reg c RAX = stack_top sy (number_in c)) \<and>
     (x_ip c \<in> {19, 21, 22} \<longrightarrow> x_reg c RSP = stack_top sy (number_in c)) \<and>
     (x_ip c = 20 \<longrightarrow> x_reg c RSP = stack_top sy (number_in c) - 8) \<and>
     (x_ip c = 22 \<longrightarrow> x_reg c RDI = ucast (number_in c))"

lemma ip_cases:
  "n \<le> 22 \<Longrightarrow> n \<in> {0, 1, 2, 3, 4, 5, 6, 7, 8, 9, 10, 11, 12, 13, 14, 15, 16, 17, 18, 19, 20, 21, 22 :: nat}"
  unfolding insert_iff empty_iff by presburger

lemma program_nth:
  "ap_continue_wakeup_code sy ! 0 = Lea32 RDX (sy_presence sy)" "ap_continue_wakeup_code sy ! Suc 0 = Add32 RDX RCX"
  "ap_continue_wakeup_code sy ! 2 = Store8_Imm 1 RDX" "ap_continue_wakeup_code sy ! 3 = Xor32 RCX RCX"
  "ap_continue_wakeup_code sy ! 4 = Lea32 RCX (sy_state sy)" "ap_continue_wakeup_code sy ! 5 = Cmp32_Imm 1 RCX"
  "ap_continue_wakeup_code sy ! 6 = Je 9" "ap_continue_wakeup_code sy ! 7 = Pause" "ap_continue_wakeup_code sy ! 8 = Jmp 3"
  "ap_continue_wakeup_code sy ! 9 = Xor64 RCX RCX" "ap_continue_wakeup_code sy ! 10 = Xor64 RAX RAX"
  "ap_continue_wakeup_code sy ! 11 = Load8 RCX RDX" "ap_continue_wakeup_code sy ! 12 = Xor64 RDX RDX"
  "ap_continue_wakeup_code sy ! 13 = Mov32 RDX RCX" "ap_continue_wakeup_code sy ! 14 = Lea64 RAX (sy_stacks sy)"
  "ap_continue_wakeup_code sy ! 15 = Shl32 RCX 10" "ap_continue_wakeup_code sy ! 16 = Add64 RAX RCX"
  "ap_continue_wakeup_code sy ! 17 = Sub_Imm64 RAX 4" "ap_continue_wakeup_code sy ! 18 = Mov64 RSP RAX"
  "ap_continue_wakeup_code sy ! 19 = Push_Imm 0" "ap_continue_wakeup_code sy ! 20 = Pop_Flags"
  "ap_continue_wakeup_code sy ! 21 = Mov64 RDI RDX" "ap_continue_wakeup_code sy ! 22 = Call (sy_entry_C sy)"
  by (simp_all add: ap_continue_wakeup_code_def)

lemma ucast_byte_back:
  "(ucast (ucast b :: u64) :: u8) = b" "(ucast (ucast b :: u32) :: u8) = b" "(ucast (ucast b :: u64) :: u32) = ucast b"
  "(ucast (ucast b :: u32) :: u64) = ucast b" for b :: u8
  by (rule bit_word_eqI, auto simp: bit_simps dest: bit_imp_le_length)+

definition asm_next_ok :: "wakeup_symbols \<Rightarrow> nat \<Rightarrow> asm_next \<Rightarrow> bool" where
  "asm_next_ok sy a r \<longleftrightarrow> (case r of Goes c m \<Rightarrow> asm_ok sy a c | _ \<Rightarrow> True)"

lemma asm_ok_exec:
  assumes "asm_ok sy a c"
  shows "asm_next_ok sy a (exec_asm at (ap_continue_wakeup_code sy ! x_ip c) c m)"
proof -
  define n where "n = number_in c"
  have "x_ip c \<in> {0, 1, 2, 3, 4, 5, 6, 7, 8, 9, 10, 11, 12, 13, 14, 15, 16, 17, 18, 19, 20, 21, 22}"
    using assms ip_cases by (simp only: asm_ok_def)
  then show ?thesis using assms [unfolded asm_ok_def, folded n_def]
    by (elim insertE emptyE) (simp_all add: program_nth asm_next_ok_def asm_ok_def number_in_def reg32_def push64_def pop64_def
        Let_def ap_stack_pointer_def ucast_byte_back)
qed

lemma asm_ok_keeps:
  "asm_ok sy a c \<Longrightarrow> exec_asm at (ap_continue_wakeup_code sy ! x_ip c) c m = Goes c' m' \<Longrightarrow> asm_ok sy a c'"
  using asm_ok_exec [of sy a c at m] by (simp add: asm_next_ok_def)

text \<open>What an instruction writes, and where it takes the processor.\<close>

definition presence_addr :: "wakeup_symbols \<Rightarrow> nat \<Rightarrow> addr" where
  "presence_addr sy a = ucast (ucast (sy_presence sy) + of_nat a :: u32)"

definition asm_writes :: "wakeup_symbols \<Rightarrow> nat \<Rightarrow> cpu64 \<Rightarrow> mem \<Rightarrow> mem" where
  "asm_writes sy a c m =
     (if x_ip c = 2 then m(presence_addr sy a := 1)
      else if x_ip c = 19 then store64 m (stack_top sy (number_in c) - 8) 0
      else m)"

definition asm_moves :: "wakeup_symbols \<Rightarrow> nat \<Rightarrow> cpu64 \<Rightarrow> mem \<Rightarrow> ap_pc" where
  "asm_moves sy a c m =
     (if x_ip c = 2 then Spinning
      else if x_ip c = 5 \<and> load32 m (ucast (ucast (sy_state sy) :: u32)) = 1 then Stage2
      else if x_ip c = 11 then Numbered (m (presence_addr sy a))
      else asm_place c)"

definition asm_effect :: "wakeup_symbols \<Rightarrow> nat \<Rightarrow> cpu64 \<Rightarrow> mem \<Rightarrow> asm_next \<Rightarrow> bool" where
  "asm_effect sy a c m r \<longleftrightarrow>
     (case r of
        Goes c' m' \<Rightarrow> x_ip c \<noteq> 22 \<and> m' = asm_writes sy a c m \<and> asm_place c' = asm_moves sy a c m
      | Calls f c' m' \<Rightarrow> x_ip c = 22 \<and> f = sy_entry_C sy \<and> x_reg c' RDI = x_reg c RDI \<and>
          (\<forall>x. \<not> in_range (stack_top sy (number_in c) - 8) 8 x \<longrightarrow> m' x = m x)
      | Returns_To _ _ _ \<Rightarrow> False)"

lemma asm_effect_exec:
  assumes "asm_ok sy a c"
  shows "asm_effect sy a c m (exec_asm at (ap_continue_wakeup_code sy ! x_ip c) c m)"
proof -
  define n where "n = number_in c"
  have "x_ip c \<in> {0, 1, 2, 3, 4, 5, 6, 7, 8, 9, 10, 11, 12, 13, 14, 15, 16, 17, 18, 19, 20, 21, 22}"
    using assms ip_cases by (simp only: asm_ok_def)
  then show ?thesis using n_def assms [unfolded asm_ok_def, folded n_def]
    by (elim insertE emptyE) (simp_all add: program_nth asm_effect_def asm_writes_def asm_moves_def presence_addr_def asm_place_def
        number_in_def reg32_def push64_def pop64_def Let_def ucast_byte_back store_le_apply)
qed

section \<open>Addresses\<close>

lemma low_symbol:
  assumes "unat (p :: addr) + k < 2 ^ 32"
  shows "ucast (ucast p + of_nat k :: u32) = p + of_nat k"
proof -
  have "unat (ucast p :: u32) = unat p" using assms by (simp add: unsigned_ucast_eq unsigned_take_bit_eq take_bit_nat_eq_self)
  then have "unat (ucast p + of_nat k :: u32) = unat p + k" using assms by (simp add: unat_word_ariths unat_of_nat32)
  moreover have "unat (p + of_nat k) = unat p + k" using assms by (intro unat_add_offset) simp
  ultimately show ?thesis by (intro word_unat_eq_iff [THEN iffD2]) (simp add: unat_ucast_up)
qed

lemma symbol_addresses:
  assumes "symbols_ok sy"
  shows "a < MON_MAX_CPU_SUPPORTED \<Longrightarrow> presence_addr sy a = sy_presence sy + of_nat a"
    and "ucast (ucast (sy_state sy) :: u32) = sy_state sy"
  using assms low_symbol [of "sy_presence sy" a] low_symbol [of "sy_state sy" 0]
  by (simp_all add: symbols_ok_def presence_addr_def)

text \<open>The stack of the processor with number \<open>n\<close>, and the words the code pushes there.\<close>

definition stack_base :: "wakeup_symbols \<Rightarrow> u8 \<Rightarrow> addr" where
  "stack_base sy n = sy_stacks sy + of_nat (STARTAP_STACK_SIZE * (unat n - 1))"

lemma pushed_in_stack:
  assumes "0 < unat n" "unat n < MON_MAX_CPU_SUPPORTED" and "in_range (stack_top sy n - 8) 8 x"
  shows "in_range (stack_base sy n) STARTAP_STACK_SIZE x"
proof -
  obtain k where k: "unat n = Suc k" using assms(1) by (cases "unat n") auto
  have "stack_top sy n - 8 = stack_base sy n + 1012"
    using ap_stack_pointer_eq [of n "sy_stacks sy"] assms(2) by (simp add: MON_MAX_CPU_SUPPORTED_def stack_base_def k STARTAP_STACK_SIZE_def)
  with assms(3) have "in_range (stack_base sy n + 1012) 8 x" by simp
  then show ?thesis by (rule in_range_sub) (simp_all add: STARTAP_STACK_SIZE_def)
qed

lemma stack_in_area:
  assumes "0 < unat n" and "unat n < MON_MAX_CPU_SUPPORTED" and "in_range (stack_base sy n) STARTAP_STACK_SIZE x"
  shows "in_range (sy_stacks sy) (STARTAP_STACK_SIZE * (MON_MAX_CPU_SUPPORTED - 1)) x"
  using assms(3) unfolding stack_base_def
proof (rule in_range_sub)
  have "unat (of_nat (STARTAP_STACK_SIZE * (unat n - 1)) :: addr) = STARTAP_STACK_SIZE * (unat n - 1)"
    using assms(2) by (intro unat_of_nat64) (simp add: STARTAP_STACK_SIZE_def MON_MAX_CPU_SUPPORTED_def)
  then show "unat (of_nat (STARTAP_STACK_SIZE * (unat n - 1)) :: addr) + STARTAP_STACK_SIZE
      \<le> STARTAP_STACK_SIZE * (MON_MAX_CPU_SUPPORTED - 1)"
    using assms(1,2) by (simp add: STARTAP_STACK_SIZE_def MON_MAX_CPU_SUPPORTED_def)
qed (simp add: STARTAP_STACK_SIZE_def MON_MAX_CPU_SUPPORTED_def)

lemma stacks_apart:
  assumes "0 < unat n" "0 < unat k" "n \<noteq> k"
  shows "disjoint_ranges (stack_base sy n) STARTAP_STACK_SIZE (stack_base sy k) STARTAP_STACK_SIZE"
  unfolding stack_base_def
proof (rule fields_disjoint)
  have b: "unat n < 256" "unat k < 256" using unsigned_less [of n, where ?'a = nat] unsigned_less [of k, where ?'a = nat] by simp_all
  have u: "unat (of_nat (STARTAP_STACK_SIZE * (unat j - 1)) :: addr) = STARTAP_STACK_SIZE * (unat j - 1)" if "unat j < 256" for j :: u8
    using that by (intro unat_of_nat64) (simp add: STARTAP_STACK_SIZE_def)
  show "unat (of_nat (STARTAP_STACK_SIZE * (unat n - 1)) :: addr) + STARTAP_STACK_SIZE < 2 ^ 64"
    "unat (of_nat (STARTAP_STACK_SIZE * (unat k - 1)) :: addr) + STARTAP_STACK_SIZE < 2 ^ 64"
    unfolding u [OF b(1)] u [OF b(2)] using b by (simp_all add: STARTAP_STACK_SIZE_def)
  have "unat n \<noteq> unat k" using assms(3) by (simp add: word_unat_eq_iff)
  then show "unat (of_nat (STARTAP_STACK_SIZE * (unat n - 1)) :: addr) + STARTAP_STACK_SIZE
        \<le> unat (of_nat (STARTAP_STACK_SIZE * (unat k - 1)) :: addr) \<or>
      unat (of_nat (STARTAP_STACK_SIZE * (unat k - 1)) :: addr) + STARTAP_STACK_SIZE
        \<le> unat (of_nat (STARTAP_STACK_SIZE * (unat n - 1)) :: addr)"
    unfolding u [OF b(1)] u [OF b(2)] using assms(1,2) by (simp add: STARTAP_STACK_SIZE_def) linarith
qed

section \<open>The simulation\<close>

definition regs_ok :: "wakeup_symbols \<Rightarrow> wakeup_machine \<Rightarrow> bool" where
  "regs_ok sy s \<longleftrightarrow> symbols_ok sy \<and> (\<forall>a c. wm_ap s a = Asm c \<longrightarrow> asm_ok sy a c)"

lemma wm_view_simps [simp]:
  "ap_presence_array (wm_view sy s) = read_bytes (wm_mem s) (sy_presence sy) MON_MAX_CPU_SUPPORTED"
  "bsp (wm_view sy s) = wm_bsp s" "ap (wm_view sy s) = (\<lambda>a. place_of (wm_ap s a))"
  by (simp_all add: wm_view_def)

lemma place_of_simps [simp]: "place_of (Asm c) = asm_place c" "place_of (C_Code pc) = pc"
  by (simp_all add: place_of_def)

lemma wm_view_go:
  assumes "read_bytes m' (sy_presence sy) MON_MAX_CPU_SUPPORTED = bs" and "load32 m' (sy_state sy) = load32 (wm_mem s) (sy_state sy)"
  shows "wm_view sy (s\<lparr>wm_mem := m', wm_ap := (wm_ap s)(a := p)\<rparr>) = go a (place_of p) ((wm_view sy s)\<lparr>ap_presence_array := bs\<rparr>)"
  using assms by (auto simp: wm_view_def go_def)

lemma go_same: "ap s a = pc \<Longrightarrow> go a pc s = s"
  unfolding go_def by (subst fun_upd_idem) simp_all

lemma view_number:
  assumes "proto_inv cpus func data (wm_view sy s)" and "cpus \<subseteq> {1 ..< 80}" and "place_of (wm_ap s a) = Numbered n"
  shows "a \<in> cpus" "n = number cpus a" "0 < unat n" "unat n < MON_MAX_CPU_SUPPORTED"
proof -
  have "ap_ok cpus func data (wm_view sy s) a" using assms(1) by (simp add: proto_inv_def)
  then show a: "a \<in> cpus" and n: "n = number cpus a" using assms(3) by (simp_all add: ap_ok_def)
  then show "0 < unat n" "unat n < MON_MAX_CPU_SUPPORTED"
    using number_range [OF assms(2) a] by (simp_all add: MON_MAX_CPU_SUPPORTED_def)
qed

lemma read_bytes_upd:
  assumes "k < n" and "n \<le> 2 ^ 64"
  shows "read_bytes (m(p + of_nat k := b)) p n = (read_bytes m p n)[k := b]"
proof (intro nth_equalityI)
  fix i assume "i < length (read_bytes (m(p + of_nat k := b)) p n)"
  then have i: "i < n" by simp
  then have "i < 2 ^ 64" "k < 2 ^ 64" using assms by linarith+
  then have "(of_nat i :: addr) = of_nat k \<longleftrightarrow> i = k" by (metis unat_of_nat64)
  with i show "read_bytes (m(p + of_nat k := b)) p n ! i = (read_bytes m p n)[k := b] ! i" by (simp add: nth_list_update)
qed simp

lemma variables_apart: "symbols_ok sy \<Longrightarrow> disjoint_ranges (sy_presence sy) MON_MAX_CPU_SUPPORTED (sy_state sy) 4"
  by (simp add: symbols_ok_def)

lemma not_in_stack:
  assumes "symbols_ok sy" "0 < unat n" "unat n < MON_MAX_CPU_SUPPORTED" and "in_range (stack_base sy n) STARTAP_STACK_SIZE x"
  shows "\<not> in_range (sy_presence sy) MON_MAX_CPU_SUPPORTED x" "\<not> in_range (sy_state sy) 4 x"
  using assms(1) stack_in_area [OF assms(2-4)] by (auto simp: symbols_ok_def dest: disjoint_ranges_not_both)

text \<open>What a processor writes on its own stack is not seen by the others.\<close>

lemma stack_write_hidden:
  assumes sy: "symbols_ok sy" and cpus: "cpus \<subseteq> {1 ..< 80}" and inv: "proto_inv cpus func data (wm_view sy s)"
    and n: "place_of (wm_ap s a) = Numbered n"
    and m': "\<forall>x. \<not> in_range (stack_top sy n - 8) 8 x \<longrightarrow> m' x = wm_mem s x" and p: "place_of p = Numbered n"
  shows "wm_view sy (s\<lparr>wm_mem := m', wm_ap := (wm_ap s)(a := p)\<rparr>) = wm_view sy s"
proof -
  note nn = view_number [OF inv cpus n]
  have same: "m' x = wm_mem s x" if "in_range (sy_presence sy) MON_MAX_CPU_SUPPORTED x \<or> in_range (sy_state sy) 4 x" for x
    using that not_in_stack [OF sy nn(3,4)] pushed_in_stack [OF nn(3,4)] m' by blast
  have "read_bytes m' (sy_presence sy) MON_MAX_CPU_SUPPORTED = read_bytes (wm_mem s) (sy_presence sy) MON_MAX_CPU_SUPPORTED"
    using same by (intro read_bytes_cong) (simp_all add: MON_MAX_CPU_SUPPORTED_def)
  moreover have "load32 m' (sy_state sy) = load32 (wm_mem s) (sy_state sy)" using same by (intro load_le_cong) simp_all
  moreover have "(\<lambda>x. place_of (((wm_ap s)(a := p)) x)) = (\<lambda>x. place_of (wm_ap s x))" using n p by auto
  ultimately show ?thesis by (simp add: wm_view_def)
qed

lemma simulate_instruction:
  assumes sy: "symbols_ok sy" and cpus: "cpus \<subseteq> {1 ..< 80}" and inv: "proto_inv cpus func data (wm_view sy s)"
    and c: "wm_ap s a = Asm c" "asm_ok sy a c"
    and run: "exec_asm at (ap_continue_wakeup_code sy ! x_ip c) c (wm_mem s) = Goes c' m'"
  defines "s' \<equiv> s\<lparr>wm_mem := m', wm_ap := (wm_ap s)(a := Asm c')\<rparr>"
  shows "wm_view sy s' = wm_view sy s \<or> punctual func data (wm_view sy s) (wm_view sy s')"
proof -
  let ?v = "wm_view sy s"
  have m': "m' = asm_writes sy a c (wm_mem s)" and place: "asm_place c' = asm_moves sy a c (wm_mem s)"
    using asm_effect_exec [OF c(2), of "wm_mem s" at] run by (simp_all add: asm_effect_def)
  have ok: "ap_ok cpus func data ?v a" using inv by (simp add: proto_inv_def)
  then have "a \<in> cpus" using c(1) by (auto simp: ap_ok_def asm_place_def split: if_splits)
  then have a: "a < MON_MAX_CPU_SUPPORTED" using cpus by (auto simp: MON_MAX_CPU_SUPPORTED_def)
  note addrs = symbol_addresses(1) [OF sy a] symbol_addresses(2) [OF sy]
  have go: "wm_view sy s' = go a (asm_place c') (?v\<lparr>ap_presence_array := read_bytes m' (sy_presence sy) MON_MAX_CPU_SUPPORTED\<rparr>)"
    if "load32 m' (sy_state sy) = load32 (wm_mem s) (sy_state sy)"
    using that by (simp add: s'_def wm_view_go)
  note apart = disjoint_ranges_not_both [OF variables_apart [OF sy]]
  consider "x_ip c = 2" | "x_ip c = 5" "load32 (wm_mem s) (sy_state sy) = 1" | "x_ip c = 11" | "x_ip c = 19"
    | "x_ip c \<notin> {2, 11, 19}" "\<not> (x_ip c = 5 \<and> load32 (wm_mem s) (sy_state sy) = 1)" by blast
  then show ?thesis
  proof cases
    case 1
    have m: "m' = (wm_mem s)(sy_presence sy + of_nat a := 1)" using m' 1 addrs by (simp add: asm_writes_def)
    have here: "in_range (sy_presence sy) MON_MAX_CPU_SUPPORTED (sy_presence sy + of_nat a)"
      using a by (simp add: in_range_offset MON_MAX_CPU_SUPPORTED_def)
    have "load32 m' (sy_state sy) = load32 (wm_mem s) (sy_state sy)"
      unfolding m using apart [OF here] by (intro load_le_cong) auto
    moreover have "read_bytes m' (sy_presence sy) MON_MAX_CPU_SUPPORTED = (ap_presence_array ?v)[a := 1]"
      unfolding m using a by (simp add: read_bytes_upd MON_MAX_CPU_SUPPORTED_def)
    moreover have "ap ?v a = Woken" using c(1) 1 by (simp add: asm_place_def)
    ultimately show ?thesis using go place 1 ap_step.mark [of ?v a all_marked func data] a by (simp add: asm_moves_def)
  next
    case 2
    have "m' = wm_mem s" using m' 2 by (simp add: asm_writes_def)
    then have "wm_view sy s' = go a Stage2 ?v" using go place 2 addrs by (simp add: asm_moves_def wm_view_def)
    moreover have "ap ?v a = Spinning" using c(1) 2 by (simp add: asm_place_def)
    ultimately show ?thesis using 2 by (auto intro!: ap_step.pass simp: wm_view_def)
  next
    case 3
    have "m' = wm_mem s" using m' 3 by (simp add: asm_writes_def)
    then have "wm_view sy s' = go a (Numbered (ap_presence_array ?v ! a)) ?v"
      using go place 3 addrs a by (simp add: asm_moves_def wm_view_def)
    moreover have "ap ?v a = Stage2" using c(1) 3 by (simp add: asm_place_def)
    ultimately show ?thesis using ap_step.read_id [of ?v a all_marked func data] by simp
  next
    case 4
    have "place_of (wm_ap s a) = Numbered (number_in c)" using c(1) 4 by (simp add: asm_place_def)
    moreover have "place_of (Asm c') = Numbered (number_in c)" using place 4 by (simp add: asm_moves_def asm_place_def)
    moreover have "\<forall>x. \<not> in_range (stack_top sy (number_in c) - 8) 8 x \<longrightarrow> m' x = wm_mem s x"
      using m' 4 by (simp add: asm_writes_def store_le_apply)
    ultimately show ?thesis unfolding s'_def using stack_write_hidden [OF sy cpus inv] by blast
  next
    case 5
    then have "m' = wm_mem s" "asm_place c' = asm_place c" using m' place addrs by (auto simp: asm_writes_def asm_moves_def)
    moreover have "go a (asm_place c) ?v = ?v" using c(1) by (intro go_same) simp
    ultimately show ?thesis using go by (simp add: wm_view_def)
  qed
qed

lemma simulate_C:
  assumes sy: "symbols_ok sy" and inv: "proto_inv cpus func data (wm_view sy s)"
    and step: "punctual func data (wm_view sy s) t" and own: "\<forall>a c. wm_ap s a = Asm c \<longrightarrow> ap t a = asm_place c"
  shows "wm_view sy (wm_put sy t s) = t"
proof (rule ap_system.equality)
  have "length (ap_presence_array t) = length (ap_presence_array (wm_view sy s))"
    using step by (elim ap_stepE) (auto simp: enumerate_at_def mp_set_bootstrap_state_def split: if_splits)
  then have len: "length (ap_presence_array t) = MON_MAX_CPU_SUPPORTED" by simp
  show "ap_presence_array (wm_view sy (wm_put sy t s)) = ap_presence_array t"
    using read_store_bytes_disjoint [of "sy_state sy" "word_bytes 4 (state_code (mp_bootstrap_state t))" "sy_presence sy" MON_MAX_CPU_SUPPORTED
        "store_bytes (wm_mem s) (sy_presence sy) (ap_presence_array t)"]
      read_store_bytes_same [of "ap_presence_array t" "wm_mem s" "sy_presence sy"] variables_apart [OF sy]
    by (simp add: wm_put_def store_le_def len disjoint_ranges_sym [of "sy_state sy"] MON_MAX_CPU_SUPPORTED_def)
  show "mp_bootstrap_state (wm_view sy (wm_put sy t s)) = mp_bootstrap_state t"
    by (simp add: wm_view_def wm_put_def state_code_def split: mp_bootstrap_state_t.splits)
  show "ap (wm_view sy (wm_put sy t s)) = ap t"
    using own by (auto simp: wm_put_def fun_eq_iff split: ap_place.splits)
qed (simp_all add: wm_view_def wm_put_def)

lemma simulate_call:
  assumes sy: "symbols_ok sy" and cpus: "cpus \<subseteq> {1 ..< 80}" and inv: "proto_inv cpus func data (wm_view sy s)"
    and c: "wm_ap s a = Asm c" "asm_ok sy a c"
    and run: "exec_asm at (ap_continue_wakeup_code sy ! x_ip c) c (wm_mem s) = Calls f c' m'"
  shows "wm_view sy (s\<lparr>wm_mem := m', wm_ap := (wm_ap s)(a := C_Code (Numbered (ucast (x_reg c' RDI))))\<rparr>) = wm_view sy s"
proof -
  have ip: "x_ip c = 22" and rdi: "x_reg c' RDI = x_reg c RDI"
    and m': "\<forall>x. \<not> in_range (stack_top sy (number_in c) - 8) 8 x \<longrightarrow> m' x = wm_mem s x"
    using asm_effect_exec [OF c(2), of "wm_mem s" at] run by (simp_all add: asm_effect_def)
  have n: "place_of (wm_ap s a) = Numbered (number_in c)" using c(1) ip by (simp add: asm_place_def)
  have "x_reg c RDI = ucast (number_in c)" using c(2) ip by (simp add: asm_ok_def)
  then have "place_of (C_Code (Numbered (ucast (x_reg c' RDI)))) = Numbered (number_in c)" using rdi by (simp add: ucast_byte_back)
  then show ?thesis using stack_write_hidden [OF sy cpus inv n m'] by blast
qed

lemma simulate_step:
  assumes cpus: "cpus \<subseteq> {1 ..< 80}" and inv: "proto_inv cpus func data (wm_view sy s)" and regs: "regs_ok sy s"
    and step: "wakeup_step sy at func data s s'"
  shows "(wm_view sy s' = wm_view sy s \<or> punctual func data (wm_view sy s) (wm_view sy s')) \<and> regs_ok sy s'"
  using step
proof cases
  case (instruction a c c' m')
  have ok: "symbols_ok sy" "asm_ok sy a c" using regs instruction(2) by (simp_all add: regs_ok_def)
  with instruction simulate_instruction [OF ok(1) cpus inv instruction(2) ok(2) instruction(4)] asm_ok_keeps [OF ok(2) instruction(4)]
  show ?thesis using regs by (simp add: regs_ok_def)
next
  case (call_C a c f c' m')
  have ok: "symbols_ok sy" "asm_ok sy a c" using regs call_C(2) by (simp_all add: regs_ok_def)
  with call_C simulate_call [OF ok(1) cpus inv call_C(2) ok(2) call_C(4)] show ?thesis using regs by (simp add: regs_ok_def)
next
  case (c_code t)
  have "symbols_ok sy" using regs by (simp add: regs_ok_def)
  moreover have "regs_ok sy s'" using regs c_code(1) by (auto simp: regs_ok_def wm_put_def split: ap_place.splits)
  ultimately show ?thesis using c_code simulate_C [OF _ inv c_code(2,3)] by simp
qed

definition wakeup_start :: "wakeup_symbols \<Rightarrow> nat set \<Rightarrow> wakeup_machine \<Rightarrow> bool" where
  "wakeup_start sy cpus s \<longleftrightarrow> symbols_ok sy \<and> cpus \<subseteq> {1 ..< 80} \<and> wakeup_boot sy cpus s"

lemma wakeup_start_view:
  assumes "wakeup_start sy cpus s"
  shows "regs_ok sy s \<and> proto_start cpus (wm_view sy s)"
proof -
  have boot: "symbols_ok sy" "cpus \<subseteq> {1 ..< 80}" "wakeup_boot sy cpus s" using assms by (simp_all add: wakeup_start_def)
  have "asm_ok sy a c" if "wm_ap s a = Asm c" for a c
  proof -
    have "a \<in> cpus" using boot(3) that by (fastforce simp: wakeup_boot_def split: if_splits)
    then have "x_ip c = 0" "reg32 RCX c = of_nat a" using boot(3) that by (auto simp: wakeup_boot_def dest: spec [of _ a])
    then show ?thesis by (simp add: asm_ok_def)
  qed
  then show ?thesis using boot by (simp add: regs_ok_def proto_start_def wakeup_boot_def)
qed

interpretation wakeup: step_refinement "punctual func data" "proto_start cpus" "\<lambda>s. cpus \<subseteq> {1 ..< 80} \<and> proto_inv cpus func data s"
  "wakeup_step sy at func data" "wakeup_start sy cpus" "regs_ok sy" "wm_view sy"
proof
  show "regs_ok sy s \<and> proto_start cpus (wm_view sy s)" if "wakeup_start sy cpus s" for s
    using that by (rule wakeup_start_view)
  show "regs_ok sy t"
    and "wm_view sy t = wm_view sy s \<or> punctual func data (wm_view sy s) (wm_view sy t)"
    if "regs_ok sy s" "cpus \<subseteq> {1 ..< 80} \<and> proto_inv cpus func data (wm_view sy s)" "wakeup_step sy at func data s t" for s t
    using simulate_step [OF _ _ that(1,3)] that(2) by blast+
qed

text \<open>The number and the stack with which a processor enters C.\<close>

definition enters_C :: "wakeup_symbols \<Rightarrow> nat set \<Rightarrow> nat \<Rightarrow> asm_next \<Rightarrow> bool" where
  "enters_C sy cpus a r \<longleftrightarrow>
     (\<exists>c m. r = Calls (sy_entry_C sy) c m \<and> x_reg c RDI = ucast (number cpus a) \<and>
        x_reg c RSP = stack_base sy (number cpus a) + of_nat (STARTAP_STACK_SIZE - 12))"

lemma asm_continues:
  assumes cpus: "cpus \<subseteq> {1 ..< 80}" and inv: "proto_inv cpus func data (wm_view sy s)" and regs: "regs_ok sy s"
    and c: "wm_ap s a = Asm c"
  shows "(\<exists>c' m'. exec_asm at (ap_continue_wakeup_code sy ! x_ip c) c (wm_mem s) = Goes c' m') \<or>
    enters_C sy cpus a (exec_asm at (ap_continue_wakeup_code sy ! x_ip c) c (wm_mem s))"
proof (cases "x_ip c = 22")
  case True
  have ok: "asm_ok sy a c" using regs c by (simp add: regs_ok_def)
  have "place_of (wm_ap s a) = Numbered (number_in c)" using c True by (simp add: asm_place_def)
  note n = view_number [OF inv cpus this]
  obtain k where k: "unat (number_in c) = Suc k" using n(3) by (cases "unat (number_in c)") auto
  have "stack_top sy (number_in c) - 8 = stack_base sy (number_in c) + of_nat (STARTAP_STACK_SIZE - 12)"
    using ap_stack_pointer_eq [of "number_in c" "sy_stacks sy"] n(4)
    by (simp add: MON_MAX_CPU_SUPPORTED_def stack_base_def k STARTAP_STACK_SIZE_def)
  then have "enters_C sy cpus a (exec_asm at (ap_continue_wakeup_code sy ! x_ip c) c (wm_mem s))"
    using ok True n(2) by (auto simp: asm_ok_def enters_C_def program_nth push64_def STARTAP_STACK_SIZE_def)
  then show ?thesis ..
next
  case False
  then show ?thesis using asm_effect_exec [of sy a c "wm_mem s" at] regs c
    by (auto simp: regs_ok_def asm_effect_def split: asm_next.splits)
qed

text \<open>
  C7: However the instructions of the application processors and the C code interleave, with identifiers from 1 to 79 and a
  delay that ends only after all have marked themselves, every run of the machine is a run of
  the hand-over protocol from the state in which all processors are woken. Every processor in the assembly code can go
  on until it calls \<open>ap_continue_wakeup_code_C\<close>, with its own number as the argument, on its own stack, which is
  no other processor's; and whoever runs the published function has its own number and the published data.
\<close>

theorem wakeup_code_refines_protocol:
  assumes "symbols_ok sy" and "cpus \<subseteq> {1 ..< 80}" and "wakeup_boot sy cpus s0"
    and "(wakeup_step sy at func data)\<^sup>*\<^sup>* s0 s"
  shows "(punctual func data)\<^sup>*\<^sup>* (boot_state cpus) (wm_view sy s) \<and>
    (\<forall>a c. wm_ap s a = Asm c \<longrightarrow>
       (\<exists>c' m'. exec_asm at (ap_continue_wakeup_code sy ! x_ip c) c (wm_mem s) = Goes c' m') \<or>
       enters_C sy cpus a (exec_asm at (ap_continue_wakeup_code sy ! x_ip c) c (wm_mem s))) \<and>
    (\<forall>a b. a \<in> cpus \<and> b \<in> cpus \<and> a \<noteq> b \<longrightarrow>
       disjoint_ranges (stack_base sy (number cpus a)) STARTAP_STACK_SIZE (stack_base sy (number cpus b)) STARTAP_STACK_SIZE) \<and>
    (\<forall>a n f d. wm_ap s a = C_Code (Running n f d) \<longrightarrow> a \<in> cpus \<and> n = number cpus a \<and> f = func \<and> d = data)"
proof (intro conjI allI impI)
  have start: "wakeup_start sy cpus s0" using assms(1-3) by (simp add: wakeup_start_def)
  have inv: "regs_ok sy s" "proto_inv cpus func data (wm_view sy s)" using wakeup.concrete.inv_reachable [OF start assms(4)] by blast+
  show "(punctual func data)\<^sup>*\<^sup>* (boot_state cpus) (wm_view sy s)"
    using wakeup.run_view [OF assms(4) start] assms(3) by (simp add: wakeup_boot_def)
  fix a
  show "(\<exists>c' m'. exec_asm at (ap_continue_wakeup_code sy ! x_ip c) c (wm_mem s) = Goes c' m') \<or>
      enters_C sy cpus a (exec_asm at (ap_continue_wakeup_code sy ! x_ip c) c (wm_mem s))" if "wm_ap s a = Asm c" for c
    by (rule asm_continues [OF assms(2) inv(2,1) that])
  show "disjoint_ranges (stack_base sy (number cpus a)) STARTAP_STACK_SIZE (stack_base sy (number cpus b)) STARTAP_STACK_SIZE"
    if "a \<in> cpus \<and> b \<in> cpus \<and> a \<noteq> b" for b
    using that number_inj [OF assms(2)] number_range(1) [OF assms(2)] by (intro stacks_apart) (auto simp: Suc_le_eq)
  have ok: "ap_ok cpus func data (wm_view sy s) a" using inv(2) by (simp add: proto_inv_def)
  show "a \<in> cpus" "n = number cpus a" "f = func" "d = data" if "wm_ap s a = C_Code (Running n f d)" for n f d
    using ok that by (simp_all add: ap_ok_def)
qed

text \<open>Processor 3 alone, three instructions on.\<close>

definition demo_symbols :: wakeup_symbols where
  "demo_symbols = \<lparr>sy_presence = 0x1000, sy_state = 0x2000, sy_stacks = 0x10000, sy_entry_C = 0x9000\<rparr>"

definition demo_woken :: "nat \<Rightarrow> cpu64 \<Rightarrow> mem \<Rightarrow> wakeup_machine" where
  "demo_woken a c m = \<lparr>wm_mem = m, wm_ready = 0, wm_aps = 0, wm_func = 0, wm_data = 0, wm_bsp = Waiting,
     wm_ap = (\<lambda>_. C_Code Off)(a := Asm c)\<rparr>"

definition demo_arrives :: cpu64 where
  "demo_arrives = \<lparr>x_reg = (\<lambda>_. 0xFFFFFFFF)(RCX := 3), x_flags = 2, x_ip = 0\<rparr>"

lemma demo_symbols_ok: "symbols_ok demo_symbols"
  by (simp add: symbols_ok_def demo_symbols_def MON_MAX_CPU_SUPPORTED_def STARTAP_STACK_SIZE_def disjoint_ranges_def)

lemma demo_wakeup_boot: "wakeup_boot demo_symbols {3} (demo_woken 3 demo_arrives (\<lambda>_. 0))"
proof -
  have "wm_view demo_symbols (demo_woken 3 demo_arrives (\<lambda>_. 0)) = boot_state {3}"
    by (intro ap_system.equality)
      (auto simp: wm_view_def demo_woken_def boot_state_def ap_intialize_environment_def demo_arrives_def asm_place_def place_of_def
        read_bytes_def load_le_def map_replicate_const fun_eq_iff eval_nat_numeral)
  then show ?thesis by (simp add: wakeup_boot_def demo_woken_def demo_arrives_def reg32_def)
qed

lemma demo_instruction:
  assumes "x_ip c < 24" and "exec_asm at (ap_continue_wakeup_code demo_symbols ! x_ip c) c m = Goes c' m'"
  shows "wakeup_step demo_symbols at func data (demo_woken 3 c m) (demo_woken 3 c' m')"
  using wakeup_step.instruction [of "demo_woken 3 c m" 3 c demo_symbols at c' m' func data] assms
  by (simp add: demo_woken_def ap_continue_wakeup_code_def)

theorem wakeup_code_refines_protocol_witness:
  "\<exists>c m. (wakeup_step demo_symbols (\<lambda>i. of_nat i) 0x77 0x88)\<^sup>*\<^sup>* (demo_woken 3 demo_arrives (\<lambda>_. 0)) (demo_woken 3 c m) \<and>
     (punctual 0x77 0x88)\<^sup>*\<^sup>* (boot_state {3}) (wm_view demo_symbols (demo_woken 3 c m)) \<and> x_ip c = 3 \<and> m 0x1003 = 1"
proof -
  define c1 where "c1 = next_ip (set_reg32 RDX 0x1000 demo_arrives)"
  define c2 where "c2 = next_ip (arith32 RDX (reg32 RDX c1 + reg32 RCX c1) c1)"
  note facts = ap_continue_wakeup_code_def c1_def c2_def demo_arrives_def demo_symbols_def reg32_def
  define step where "step = wakeup_step demo_symbols (\<lambda>i. of_nat i) 0x77 0x88"
  have "step (demo_woken 3 demo_arrives (\<lambda>_. 0)) (demo_woken 3 c1 (\<lambda>_. 0))"
    "step (demo_woken 3 c1 (\<lambda>_. 0)) (demo_woken 3 c2 (\<lambda>_. 0))"
    "step (demo_woken 3 c2 (\<lambda>_. 0)) (demo_woken 3 (next_ip c2) ((\<lambda>_. 0)(0x1003 := 1)))"
    unfolding step_def by (rule demo_instruction; simp add: facts)+
  then have "step\<^sup>*\<^sup>* (demo_woken 3 demo_arrives (\<lambda>_. 0)) (demo_woken 3 (next_ip c2) ((\<lambda>_. 0)(0x1003 := 1)))"
    by (meson rtranclp.rtrancl_into_rtrancl rtranclp.rtrancl_refl)
  then have run: "(wakeup_step demo_symbols (\<lambda>i. of_nat i) 0x77 0x88)\<^sup>*\<^sup>* (demo_woken 3 demo_arrives (\<lambda>_. 0))
      (demo_woken 3 (next_ip c2) ((\<lambda>_. 0)(0x1003 := 1)))"
    by (simp only: step_def)
  have "x_ip (next_ip c2) = 3" by (simp add: facts)
  with run wakeup_code_refines_protocol [OF demo_symbols_ok _ demo_wakeup_boot run] show ?thesis
    by (intro exI [of _ "next_ip c2"] exI [of _ "(\<lambda>_. 0)(0x1003 := 1)"]) simp
qed

section \<open>The call of the hypervisor\<close>

text \<open>\<open>call_xmon_entry\<close> turns the System V arguments of its caller into those of the convention the hypervisor is
  built for: the function to call first, then its four arguments.\<close>

lemma call_xmon_entry_converts:
  assumes "x_ip c = 0"
  shows "\<exists>c' m'. run_asm at call_xmon_entry c m = Some (Calls (x_reg c RDI) c' m') \<and>
    x_reg c' RCX = x_reg c RSI \<and> x_reg c' RDX = x_reg c RDX \<and> x_reg c' R8 = x_reg c RCX \<and> x_reg c' R9 = x_reg c R8 \<and>
    x_reg c' RSP = x_reg c RSP - 8 \<and> \<not> bit (x_flags c') IF"
proof -
  have "bit (x_flags (arith64 r v d)) IF = bit (x_flags d) IF" for r v d
    by (simp add: arith64_def set_zero_def bit_simps ZF_def IF_def)
  then show ?thesis using assms by (simp add: run_asm.simps call_xmon_entry_def push64_def Let_def bit_simps)
qed

end
