(* ===== verification/Spec2Isabelle.thy ===== *)
theory Spec2Isabelle
  imports Cmdline_Table E820 Screen Xmon_Loader Startap Long_Mode Idt Image_File Boot_Chain Wakeup_Code
begin

text \<open>
  The UEFI loader of the iKGT hypervisor (\<open>src/\<close>, about 8000 lines of C beside the bundled EFI headers).

  The program. \<open>pre_os/tools/xmon_packer.c\<close> is a host tool that concatenates four files (starter,
  xmon_loader, startap, xmon) into one package and completes two headers inside the starter.
  \<open>uefi_bootloader/preload.c\<close> is the UEFI application that reads the package, finds the boot header in it,
  allocates the load-time and the run-time memory, copies the package and calls the starter.
  \<open>pre_os/starter\<close> finds the file mapping header, builds the descriptor \<open>xmon_desc_t\<close> and loads
  xmon_loader with the ELF loader of \<open>common/ld\<close>. \<open>pre_os/xmon_loader\<close> loads startap and xmon, converts the
  memory map to an E820 table, builds the primary guest's start state and calls startap. \<open>startap/\<close> wakes the other
  processors with INIT and SIPI through a page of real mode code, numbers them, and enters xmon on
  all of them. The stages share memory: the descriptor, the platform information, the heap and the package.

  The model. A C pointer is a \<open>64 word\<close> and memory a total function from addresses to bytes
  (\<open>Loader_Prelude\<close>); structures whose layout the repository gives are read and written in memory with
  little-endian loads and stores, the descriptor and other variables that only C code names are
  records. Integers are words of their C width, so every wrap-around of the code is in the model. A
  loop that the source does not bound is \<open>partial_function (option)\<close>: \<open>None\<close> is a run that does not end, and
  the theorems that a loop ends are proved as such, from a law on the device where one is needed. An
  assertion that fails for ever is \<open>None\<close> too, errors are values, and a fault of the processor (the
  division by zero, the null pointer) is an outcome of its own. There is no fuel in the development.

  Theories and sources.
  \<^item> \<open>Loader_Prelude\<close>, \<open>Byte_Lists\<close>: words, memory, ranges (\<open>in_range\<close>, \<open>disjoint_ranges\<close>), loads and stores,
    byte lists. \<open>Linear_Scan\<close> and \<open>Polling\<close> are the two contracts of loops, as locales: the header
    searches of starter, packer and preloader are interpretations of the first; the waits for the UART, the
    interrupt command register and the ready counter of the second.
    \<open>Transition_Systems\<close> is the contract of step relations, invariants and their refinement; the hand-over and
    its machine code are its interpretations.
  \<^item> \<open>Common_Util\<close>: \<open>common/util/linux/common.c\<close> and the primitives of \<open>utils/memory/memory.c\<close>.
    \<open>Heap_Manager\<close>: the heap of \<open>memory.c\<close>; both allocators are interpretations of the locale \<open>bump_allocator\<close>,
    in which alignment, disjointness and bounds of a run of allocations are proved once.
  \<^item> \<open>Image_Access\<close>, \<open>Image_File\<close>: the accessors of \<open>common/ld/image_accessors\<close>.
    \<open>Elf_Format\<close>, \<open>Elf_Info\<close>, \<open>Elf64_Loader\<close>, \<open>Elf32_Loader\<close>, \<open>Elf_Loader\<close>: \<open>common/ld/elf_ld\<close>.
    \<open>Elf64_Segments\<close>, \<open>Elf64_Load\<close>, \<open>Elf64_Reloc\<close>, \<open>Elf64_Image\<close>, \<open>Elf64_Span\<close> hold the theorems: the segment loop
    refines the placement of a list of segments, relocation stores addend plus offset, both together load a position-independent
    image as the makefiles link it (\<open>relocatable64\<close>), the reported size bounds every write. The witnesses load a small
    position-independent executable with one relocation, built byte by byte in \<open>Elf64_Image\<close>.
  \<^item> \<open>C_Strings\<close>, \<open>Cmdline\<close>: \<open>utils/string\<close>. \<open>Cmdline_Table\<close>: the command line parser against a reference on lists, with the
    well-formedness of the option table as its invariant. \<open>Serial\<close>: \<open>common/loader_serial\<close>, with a model of the 16550 UART that the
    port writes drive. \<open>Screen\<close>: \<open>utils/screen\<close>, refined by a grid of cells.
  \<^item> \<open>Xmon_Desc\<close>: \<open>starter/xmon_desc.h\<close>, \<open>ikgtboot.h\<close>. \<open>Packer\<close>, \<open>Package\<close>: the packer, and that the starter finds
    in the package what was packed. \<open>Preload\<close>: the UEFI application; what the starter is given, and the ways
    in which it ends. \<open>Starter\<close>: \<open>starter_main.c\<close>, \<open>run_xmon_loader.c\<close>.
  \<^item> \<open>Asm_Machine\<close>: the 64-bit instructions that the assembly files use, as a machine over registers, flags and
    memory. \<open>Starter_Entry\<close>: \<open>starter.S\<close>, the boot header byte by byte and \<open>start_x64\<close>. \<open>Wakeup_Code\<close>:
    \<open>startap/wakeup_init64.S\<close>; the interleaved instructions of all processors refine the steps of \<open>Ap_Enumeration\<close>.
  \<^item> \<open>Boot_Chain\<close>: the stages composed. What the packer wrote, the preloader puts in memory, the entry hands to
    the starter, which enters xmon_loader (\<open>package_boots_xmon_loader\<close>); and the primary guest's way back to the UEFI
    application (\<open>primary_guest_returns\<close>).
  \<^item> \<open>E820\<close>: \<open>e820.c\<close>. \<open>Primary_Guest\<close>: \<open>primary_guest.c\<close>. \<open>Idt\<close>: \<open>idt.c\<close>. \<open>Xmon_Loader\<close>: \<open>xmon_loader.c\<close> and
    \<open>boot_protocol_util.c\<close>, composed of all of the above up to the call of startap.
  \<^item> \<open>Page_Tables\<close>, \<open>Long_Mode\<close>: \<open>utils/x64\<close> and \<open>startap/x32_init64.c\<close>; the tables are checked against the
    processor's page walk, the descriptors against the processor manual's layout.
  \<^item> \<open>Ap_Code\<close>: the byte template and its patching in \<open>ap_procs_init.c\<close>, decoded as a program that is
    executed from real mode to 64-bit mode. \<open>Ap_Ipi\<close>: delays and interrupts on a time-stamp counter that counts. \<open>Ap_Enumeration\<close>,
    \<open>Ap_Handover\<close>: the hand-over as a step relation over all processors with its inductive invariant
    (distinct numbers and stacks, the counters), and progress. \<open>Ap_Turns\<close>: the application processors taking turns by
    a schedule, each turn a step of that relation. \<open>Startap\<close>: \<open>startap.c\<close> on top of them; what the processors do
    while the boot processor waits are their turns.

  Hypotheses. What the repository does not contain is a parameter: the ELF and descriptor table headers (\<open>elf_abi\<close>,
  \<open>e820_abi\<close>, \<open>pt_layout\<close>), \<open>ALIGN_FORWARD\<close> (\<open>aligns_forward\<close>), the firmware (\<open>firmware\<close>, with
  \<open>pages_as_asked\<close>: a granted block of pages is at the address asked for, or ends within the limit that the code passes;
  \<open>pages_apart\<close>, \<open>delivers\<close>, \<open>copies\<close>, \<open>map_keeps_blocks\<close>), \<open>malloc\<close> (\<open>allocates\<close>), the host of the packer (\<open>host\<close>),
  the linker's addresses (\<open>wakeup_symbols\<close> with \<open>symbols_ok\<close>, and \<open>at\<close>), processor registers, CPUID and MSRs, the UART's and the
  local APIC's answers, the time-stamp counter and the schedule of the application processors. The time-stamp counter grows
  with every read and every wait, by amounts between bounds (\<open>tsc_counts\<close>), and the theorems stay away from its wrap by a
  stated margin; the local APIC clears its status within a number of looks (\<open>delivering\<close>). The woken processors have
  identifiers 1 to 79, a turn within the fixed delay and turns again and again after it (\<open>aps_take_turns\<close>): that they are marked,
  numbered and counted is derived. \<open>Boot_Chain\<close> also asks that the packed xmon_loader is a file the ELF loader
  accepts wherever it lies (\<open>acceptable_file\<close>), that the starter's file begins with \<open>starter.S\<close> (\<open>starter_image\<close>), and that the
  firmware does not hand out the application's own stack (\<open>blocks_ok\<close>).
  Every property with a hypothesis has a witness on a concrete instance.

  Not modelled: the headers and libraries of gnu-efi, which are third-party code; messages on error paths of xmon_loader, packer
  and preloader, which are printed only; single-instruction accessors, whose values are parameters; of the flags register the
  arithmetic flags other than zero, which no instruction of the assembly files reads; the build files.
  Interleavings in \<open>Ap_Enumeration\<close> are sequentially consistent: the store buffers of the processor
  are not modelled.

  Bounds. Where the code keeps addresses of the loader's own memory in 32 bits, a theorem that needs them below 4 GB
  states it (\<open>heap_inv_page\<close>, and of the two blocks of the run in \<open>package_boots_xmon_loader\<close>), and where the code truncates, the lemma
  says so.
\<close>

end
